(* ===== verification/Sentinel_Prelude.thy ===== *)
theory Sentinel_Prelude
  imports Complex_Main "HOL-Library.Word" "HOL-Library.Multiset" "HOL-Library.Sublist"
begin

text \<open>
  What the theories of the development share: the exceptions of the services as a datatype,
  programs with state and exceptions, 32-bit wrap-around, the roundings of \<open>decimal\<close> and
  \<open>double\<close>, and the operations of strings the sources use. A .NET string is a list of
  characters; the case and white-space operations are those of the ASCII range. A
  \<open>decimal\<close> is an exact rational: its 28-digit limit is not modelled.
\<close>

section \<open>Collections of facts\<close>

named_theorems prog_simps \<open>equations that run a program of the model one step\<close>
named_theorems inv_intros \<open>each operation keeps the invariant of its component\<close>
named_theorems op_defs \<open>the non-recursive operations of the model\<close>

section \<open>Exceptions and programs\<close>

datatype exn =
    ArgumentException string
  | ArgumentOutOfRange string
  | InvalidOperation string
  | ArithmeticOverflow
  | PoisonMessage string
  | TransientInfrastructure string
  | DbUpdate
  | JsonFailure
  | OperationCanceled

type_synonym ('s, 'a) prog = "'s \<Rightarrow> (exn + 'a) \<times> 's"

definition preturn :: "'a \<Rightarrow> ('s, 'a) prog" where
  "preturn a = (\<lambda>s. (Inr a, s))"

definition praise :: "exn \<Rightarrow> ('s, 'a) prog" where
  "praise e = (\<lambda>s. (Inl e, s))"

definition pbind :: "('s, 'a) prog \<Rightarrow> ('a \<Rightarrow> ('s, 'b) prog) \<Rightarrow> ('s, 'b) prog" where
  "pbind m f = (\<lambda>s. case m s of (Inl e, s') \<Rightarrow> (Inl e, s') | (Inr a, s') \<Rightarrow> f a s')"

definition pthen :: "('s, 'a) prog \<Rightarrow> ('s, 'b) prog \<Rightarrow> ('s, 'b) prog" where
  "pthen m n = pbind m (\<lambda>_. n)"

definition pget :: "('s \<Rightarrow> 'a) \<Rightarrow> ('s, 'a) prog" where
  "pget f = (\<lambda>s. (Inr (f s), s))"

definition pmodify :: "('s \<Rightarrow> 's) \<Rightarrow> ('s, unit) prog" where
  "pmodify f = (\<lambda>s. (Inr (), f s))"

definition plift :: "exn + 'a \<Rightarrow> ('s, 'a) prog" where
  "plift r = (\<lambda>s. (r, s))"

lemma preturn_run [simp, prog_simps]: "preturn a s = (Inr a, s)"
  by (simp add: preturn_def)

lemma praise_run [simp, prog_simps]: "praise e s = (Inl e, s)"
  by (simp add: praise_def)

lemma pget_run [simp, prog_simps]: "pget f s = (Inr (f s), s)"
  by (simp add: pget_def)

lemma pmodify_run [simp, prog_simps]: "pmodify f s = (Inr (), f s)"
  by (simp add: pmodify_def)

lemma plift_run [simp, prog_simps]: "plift r s = (r, s)"
  by (simp add: plift_def)

lemma pbind_Inr [simp, prog_simps]: "m s = (Inr a, s') \<Longrightarrow> pbind m f s = f a s'"
  by (simp add: pbind_def)

lemma pbind_Inl [simp, prog_simps]: "m s = (Inl e, s') \<Longrightarrow> pbind m f s = (Inl e, s')"
  by (simp add: pbind_def)

lemma pthen_Inr [simp, prog_simps]: "m s = (Inr a, s') \<Longrightarrow> pthen m n s = n s'"
  by (simp add: pthen_def)

lemma pthen_Inl [simp, prog_simps]: "m s = (Inl e, s') \<Longrightarrow> pthen m n s = (Inl e, s')"
  by (simp add: pthen_def)

lemma pbind_cases:
  assumes "pbind m f s = (r, t)"
  obtains (raised) e where "m s = (Inl e, t)" and "r = Inl e"
    | (returned) a s' where "m s = (Inr a, s')" and "f a s' = (r, t)"
  using assms by (cases "m s"; cases "fst (m s)") (auto simp: pbind_def)

text \<open>An invariant of the state that a program keeps whether it returns or raises.\<close>

definition keeps :: "('s \<Rightarrow> bool) \<Rightarrow> ('s, 'a) prog \<Rightarrow> bool" where
  "keeps P m \<longleftrightarrow> (\<forall>s. P s \<longrightarrow> P (snd (m s)))"

lemma keepsI: "(\<And>s. P s \<Longrightarrow> P (snd (m s))) \<Longrightarrow> keeps P m"
  by (simp add: keeps_def)

lemma keepsD: "keeps P m \<Longrightarrow> P s \<Longrightarrow> P (snd (m s))"
  by (simp add: keeps_def)

lemma keeps_preturn [inv_intros]: "keeps P (preturn a)"
  by (simp add: keeps_def)

lemma keeps_praise [inv_intros]: "keeps P (praise e)"
  by (simp add: keeps_def)

lemma keeps_pget [inv_intros]: "keeps P (pget f)"
  by (simp add: keeps_def)

lemma keeps_plift [inv_intros]: "keeps P (plift r)"
  by (simp add: keeps_def)

lemma keeps_pmodify: "(\<And>s. P s \<Longrightarrow> P (f s)) \<Longrightarrow> keeps P (pmodify f)"
  by (simp add: keeps_def)

lemma keeps_pbind [inv_intros]:
  "keeps P m \<Longrightarrow> (\<And>a. keeps P (f a)) \<Longrightarrow> keeps P (pbind m f)"
  by (auto simp: keeps_def pbind_def split: prod.splits sum.splits)

lemma keeps_pthen [inv_intros]: "keeps P m \<Longrightarrow> keeps P n \<Longrightarrow> keeps P (pthen m n)"
  unfolding pthen_def by (rule keeps_pbind)

lemma keeps_if [inv_intros]: "keeps P m \<Longrightarrow> keeps P n \<Longrightarrow> keeps P (if b then m else n)"
  by simp

section \<open>Calculations that may raise\<close>

definition rbind :: "exn + 'a \<Rightarrow> ('a \<Rightarrow> exn + 'b) \<Rightarrow> exn + 'b" where
  "rbind r f = (case r of Inl e \<Rightarrow> Inl e | Inr a \<Rightarrow> f a)"

lemma rbind_Inl [simp, prog_simps]: "rbind (Inl e) f = Inl e"
  by (simp add: rbind_def)

lemma rbind_Inr [simp, prog_simps]: "rbind (Inr a) f = f a"
  by (simp add: rbind_def)

lemma rbind_eq_Inr: "rbind r f = Inr b \<longleftrightarrow> (\<exists>a. r = Inr a \<and> f a = Inr b)"
  by (cases r) simp_all

lemma rbind_eq_Inl: "rbind r f = Inl e \<longleftrightarrow> r = Inl e \<or> (\<exists>a. r = Inr a \<and> f a = Inl e)"
  by (cases r) auto

lemma rbind_cong [fundef_cong]: "r = r' \<Longrightarrow> (\<And>a. r' = Inr a \<Longrightarrow> f a = g a) \<Longrightarrow> rbind r f = rbind r' g"
  by (cases r') simp_all

primrec rmap :: "('a \<Rightarrow> exn + 'b) \<Rightarrow> 'a list \<Rightarrow> exn + 'b list" where
  "rmap f [] = Inr []"
| "rmap f (x # xs) = rbind (f x) (\<lambda>y. rbind (rmap f xs) (\<lambda>ys. Inr (y # ys)))"

lemma rmap_Inr_iff: "rmap f xs = Inr ys \<longleftrightarrow> list_all2 (\<lambda>x y. f x = Inr y) xs ys"
  by (induction xs arbitrary: ys) (auto simp: rbind_eq_Inr list_all2_Cons1)

lemma rmap_mem:
  assumes "rmap f xs = Inr ys" and "y \<in> set ys"
  shows "\<exists>x \<in> set xs. f x = Inr y"
  using assms by (induction xs arbitrary: ys) (auto simp: rbind_eq_Inr)

lemma rmap_total: "(\<And>x. x \<in> set xs \<Longrightarrow> \<exists>y. f x = Inr y) \<Longrightarrow> \<exists>ys. rmap f xs = Inr ys"
  by (induction xs) fastforce+

lemma rmap_all:
  assumes "rmap f xs = Inr ys" and "\<And>x y. x \<in> set xs \<Longrightarrow> f x = Inr y \<Longrightarrow> P y"
  shows "list_all P ys \<and> length ys = length xs"
proof -
  from assms(1) have r: "list_all2 (\<lambda>x y. f x = Inr y) xs ys" by (simp add: rmap_Inr_iff)
  moreover have "P y" if "y \<in> set ys" for y using rmap_mem [OF assms(1) that] assms(2) by blast
  ultimately show ?thesis by (auto simp: list_all_iff dest: list_all2_lengthD)
qed

lemma rmap_filter:
  assumes "rmap f xs = Inr ys"
  shows "\<exists>zs. rmap f (filter P xs) = Inr zs \<and> subseq zs ys"
  using assms by (induction xs arbitrary: ys) (fastforce simp: rbind_eq_Inr)+

lemma subseq_set: "subseq xs ys \<Longrightarrow> set xs \<subseteq> set ys"
  by (induction rule: list_emb.induct) auto

lemma sum_list_subseq:
  fixes xs :: "int list"
  assumes "subseq xs ys" and "\<And>y. y \<in> set ys \<Longrightarrow> 0 \<le> y"
  shows "sum_list xs \<le> sum_list ys"
  using assms
proof (induction rule: list_emb.induct)
  case (list_emb_Nil ys)
  then show ?case by (simp add: sum_list_nonneg)
next
  case (list_emb_Cons xs ys y)
  then have "0 \<le> y" and "sum_list xs \<le> sum_list ys" by auto
  then show ?case by simp
next
  case (list_emb_Cons2 x y xs ys)
  then show ?case by simp
qed

lemma sum_list_le_bound:
  fixes b :: int
  shows "(\<And>x. x \<in> set xs \<Longrightarrow> x \<le> b) \<Longrightarrow> sum_list xs \<le> int (length xs) * b"
  by (induction xs) (auto simp: algebra_simps intro: add_mono)

section \<open>Integers of 32 and of 64 bits\<close>

definition int_min :: int where
  "int_min = - (2 ^ 31)"

definition int_max :: int where
  "int_max = 2 ^ 31 - 1"

definition wrap32 :: "int \<Rightarrow> int" where
  "wrap32 x = (x + 2 ^ 31) mod 2 ^ 32 - 2 ^ 31"

definition is_i32 :: "int \<Rightarrow> bool" where
  "is_i32 x \<longleftrightarrow> int_min \<le> x \<and> x \<le> int_max"

definition checked32 :: "int \<Rightarrow> exn + int" where
  "checked32 x = (if is_i32 x then Inr x else Inl ArithmeticOverflow)"

definition checked64 :: "int \<Rightarrow> exn + int" where
  "checked64 x = (if - (2 ^ 63) \<le> x \<and> x < 2 ^ 63 then Inr x else Inl ArithmeticOverflow)"

text \<open>
  Arithmetic of \<open>decimal\<close> throws when the result, rounded to a whole number, does not fit in 96 bits. The
  rounding of a result that fits to 28 digits is not written out.
\<close>

definition checked_decimal :: "rat \<Rightarrow> exn + rat" where
  "checked_decimal x = (if \<bar>x\<bar> < 2 ^ 96 - 1 / 2 then Inr x else Inl ArithmeticOverflow)"

text \<open>Division of \<open>int\<close>, which truncates toward zero.\<close>

definition quot32 :: "int \<Rightarrow> int \<Rightarrow> int" where
  "quot32 a b = (if (0 \<le> a) = (0 \<le> b) then \<bar>a\<bar> div \<bar>b\<bar> else - (\<bar>a\<bar> div \<bar>b\<bar>))"

lemma wrap32_i32: "is_i32 (wrap32 x)"
proof -
  have "0 \<le> (x + 2 ^ 31) mod 2 ^ 32" and "(x + 2 ^ 31) mod 2 ^ 32 < (2 ^ 32 :: int)"
    by simp_all
  then show ?thesis by (simp add: is_i32_def wrap32_def int_min_def int_max_def)
qed

lemma wrap32_id: "is_i32 x \<Longrightarrow> wrap32 x = x"
  by (simp add: is_i32_def wrap32_def int_min_def int_max_def)

lemma wrap32_sint: "wrap32 x = sint (word_of_int x :: 32 word)"
  by (simp add: wrap32_def signed_of_int signed_take_bit_eq_take_bit_shift take_bit_eq_mod)

lemma is_i32_iff: "is_i32 x \<longleftrightarrow> - 2147483648 \<le> x \<and> x \<le> 2147483647"
  by (simp add: is_i32_def int_min_def int_max_def)

lemma wrap32_small: "- 2147483648 \<le> x \<Longrightarrow> x \<le> 2147483647 \<Longrightarrow> wrap32 x = x"
  by (simp add: wrap32_id is_i32_iff)

lemma checked_decimal_Inr_iff: "checked_decimal x = Inr y \<longleftrightarrow> \<bar>x\<bar> < 2 ^ 96 - 1 / 2 \<and> y = x"
  by (auto simp: checked_decimal_def)

lemma checked_decimal_in_range: "\<bar>x\<bar> \<le> 10 ^ 28 * 2 \<Longrightarrow> checked_decimal x = Inr x"
  by (simp add: checked_decimal_def)

lemma checked32_Inr_iff: "checked32 x = Inr y \<longleftrightarrow> is_i32 x \<and> y = x"
  by (auto simp: checked32_def)

section \<open>Roundings\<close>

text \<open>\<open>MidpointRounding.AwayFromZero\<close> and the default, half to even.\<close>

definition round_away :: "rat \<Rightarrow> int" where
  "round_away x = (if 0 \<le> x then \<lfloor>x + 1 / 2\<rfloor> else - \<lfloor>- x + 1 / 2\<rfloor>)"

definition round_even :: "rat \<Rightarrow> int" where
  "round_even x =
     (let f = \<lfloor>x\<rfloor>; d = x - of_int f in
      if d < 1 / 2 then f else if 1 / 2 < d then f + 1 else if even f then f else f + 1)"

lemma round_away_nonneg: "0 \<le> x \<Longrightarrow> 0 \<le> round_away x"
  by (simp add: round_away_def)

lemma round_away_error: "\<bar>of_int (round_away x) - x\<bar> \<le> 1 / 2"
proof (cases "0 \<le> x")
  case True
  then show ?thesis unfolding round_away_def by (simp only: if_True) linarith
next
  case False
  then show ?thesis unfolding round_away_def by (simp only: if_False of_int_minus) linarith
qed

lemma round_away_of_int [simp]: "round_away (of_int n) = n"
proof -
  have "\<lfloor>(of_int n :: rat) + 1 / 2\<rfloor> = n" and "\<lfloor>- (of_int n :: rat) + 1 / 2\<rfloor> = - n"
    by linarith+
  then show ?thesis by (simp add: round_away_def)
qed

lemma round_away_mono: "x \<le> y \<Longrightarrow> round_away x \<le> round_away y"
proof -
  assume xy: "x \<le> y"
  show ?thesis
  proof (cases "0 \<le> x \<or> y < 0")
    case True
    with xy show ?thesis by (auto simp: round_away_def floor_mono)
  next
    case False
    then have x: "\<not> 0 \<le> x" and y: "0 \<le> y" by auto
    then have "0 \<le> \<lfloor>- x + 1 / 2\<rfloor>" and "0 \<le> \<lfloor>y + 1 / 2\<rfloor>" by linarith+
    moreover have "round_away x = - \<lfloor>- x + 1 / 2\<rfloor>" and "round_away y = \<lfloor>y + 1 / 2\<rfloor>"
      using x y by (simp_all only: round_away_def if_True if_False)
    ultimately show ?thesis by linarith
  qed
qed

definition round_away_to :: "nat \<Rightarrow> rat \<Rightarrow> rat" where
  "round_away_to n x = of_int (round_away (x * 10 ^ n)) / 10 ^ n"

section \<open>Strings\<close>

definition is_white :: "char \<Rightarrow> bool" where
  "is_white c \<longleftrightarrow> (let n = (of_char c :: nat) in n = 32 \<or> (9 \<le> n \<and> n \<le> 13) \<or> n = 133 \<or> n = 160)"

definition IsNullOrWhiteSpace :: "string option \<Rightarrow> bool" where
  "IsNullOrWhiteSpace s = (case s of None \<Rightarrow> True | Some cs \<Rightarrow> list_all is_white cs)"

definition Trim :: "string \<Rightarrow> string" where
  "Trim s = rev (dropWhile is_white (rev (dropWhile is_white s)))"

definition upper_char :: "char \<Rightarrow> char" where
  "upper_char c = (let n = (of_char c :: nat) in if 97 \<le> n \<and> n \<le> 122 then char_of (n - 32) else c)"

definition lower_char :: "char \<Rightarrow> char" where
  "lower_char c = (let n = (of_char c :: nat) in if 65 \<le> n \<and> n \<le> 90 then char_of (n + 32) else c)"

definition ToUpperInvariant :: "string \<Rightarrow> string" where
  "ToUpperInvariant = map upper_char"

definition toLowerCase :: "string \<Rightarrow> string" where
  "toLowerCase = map lower_char"

text \<open>\<open>StringComparison.OrdinalIgnoreCase\<close>: ordinal comparison of the upper-case forms.\<close>

definition equals_ignore_case :: "string \<Rightarrow> string \<Rightarrow> bool" where
  "equals_ignore_case a b \<longleftrightarrow> ToUpperInvariant a = ToUpperInvariant b"

lemma equals_ignore_case_refl [simp]: "equals_ignore_case a a"
  by (simp add: equals_ignore_case_def)

lemma equals_ignore_case_sym: "equals_ignore_case a b \<longleftrightarrow> equals_ignore_case b a"
  by (auto simp: equals_ignore_case_def)

lemma upper_char_idem [simp]: "upper_char (upper_char c) = upper_char c"
  by (auto simp: upper_char_def Let_def of_char_of)

lemma ToUpperInvariant_idem [simp]: "ToUpperInvariant (ToUpperInvariant s) = ToUpperInvariant s"
  by (simp add: ToUpperInvariant_def)

lemma equals_ignore_case_upper [simp]: "equals_ignore_case (ToUpperInvariant a) b = equals_ignore_case a b"
  by (simp add: equals_ignore_case_def)

end
