(* ===== verification/SharedKernel.thy ===== *)
theory SharedKernel
  imports Sentinel_Prelude
begin

text \<open>
  The building blocks of \<open>Sentinel.SharedKernel\<close>: money, results, argument guards, pages and the
  latency tracker. A constructor or operation that throws returns the exception on the left.
\<close>

section \<open>Money\<close>

record Money =
  mAmount :: rat
  mCurrency :: string

definition new_Money :: "rat \<Rightarrow> string \<Rightarrow> exn + Money" where
  "new_Money amount currency =
     (if IsNullOrWhiteSpace (Some currency) then Inl (ArgumentException ''currency'')
      else if amount < 0 then Inl (ArgumentOutOfRange ''amount'')
      else Inr \<lparr>mAmount = round_away_to 2 amount, mCurrency = ToUpperInvariant (Trim currency)\<rparr>)"

definition Money_Zero :: "string \<Rightarrow> exn + Money" where
  "Money_Zero currency = new_Money 0 currency"

definition Money_Gbp :: "rat \<Rightarrow> exn + Money" where
  "Money_Gbp amount = new_Money amount ''GBP''"

definition Money_Usd :: "rat \<Rightarrow> exn + Money" where
  "Money_Usd amount = new_Money amount ''USD''"

definition ToMinorUnits :: "Money \<Rightarrow> exn + int" where
  "ToMinorUnits m = checked64 (round_away (mAmount m * 100))"

definition FromMinorUnits :: "int \<Rightarrow> string \<Rightarrow> exn + Money" where
  "FromMinorUnits minorUnits currency = new_Money (of_int minorUnits / 100) currency"

definition EnsureSameCurrency :: "Money \<Rightarrow> Money \<Rightarrow> exn + unit" where
  "EnsureSameCurrency this other =
     (if mCurrency this \<noteq> mCurrency other
      then Inl (InvalidOperation (''Cannot combine '' @ mCurrency this @ '' with '' @ mCurrency other @ ''.''))
      else Inr ())"

definition Money_Add :: "Money \<Rightarrow> Money \<Rightarrow> exn + Money" where
  "Money_Add this other =
     rbind (EnsureSameCurrency this other)
       (\<lambda>_. new_Money (mAmount this + mAmount other) (mCurrency this))"

definition Money_CompareTo :: "Money \<Rightarrow> Money \<Rightarrow> exn + int" where
  "Money_CompareTo this other =
     rbind (EnsureSameCurrency this other)
       (\<lambda>_. Inr (if mAmount this < mAmount other then -1 else if mAmount this = mAmount other then 0 else 1))"

definition Money_gt :: "Money \<Rightarrow> Money \<Rightarrow> exn + bool" where
  "Money_gt left right = rbind (Money_CompareTo left right) (\<lambda>c. Inr (c > 0))"

definition Money_lt :: "Money \<Rightarrow> Money \<Rightarrow> exn + bool" where
  "Money_lt left right = rbind (Money_CompareTo left right) (\<lambda>c. Inr (c < 0))"

definition Money_ge :: "Money \<Rightarrow> Money \<Rightarrow> exn + bool" where
  "Money_ge left right = rbind (Money_CompareTo left right) (\<lambda>c. Inr (c \<ge> 0))"

definition Money_le :: "Money \<Rightarrow> Money \<Rightarrow> exn + bool" where
  "Money_le left right = rbind (Money_CompareTo left right) (\<lambda>c. Inr (c \<le> 0))"

text \<open>
  What the constructor establishes: a whole number of minor units, never negative, and a currency
  in upper case without surrounding white space.
\<close>

definition money_ok :: "Money \<Rightarrow> bool" where
  "money_ok m \<longleftrightarrow> 0 \<le> mAmount m \<and> mAmount m * 100 \<in> \<int> \<and>
     mCurrency m \<noteq> [] \<and> \<not> list_all is_white (mCurrency m) \<and>
     Trim (mCurrency m) = mCurrency m \<and> ToUpperInvariant (mCurrency m) = mCurrency m"

lemma is_white_upper [simp]: "is_white (upper_char c) = is_white c"
  by (auto simp: is_white_def upper_char_def Let_def of_char_of)

lemma dropWhile_map_upper: "dropWhile is_white (map upper_char s) = map upper_char (dropWhile is_white s)"
  by (simp add: dropWhile_map comp_def)

lemma Trim_upper: "Trim (ToUpperInvariant s) = ToUpperInvariant (Trim s)"
  by (simp add: Trim_def ToUpperInvariant_def dropWhile_map_upper rev_map)

lemma list_all_white_dropWhile: "dropWhile is_white s = [] \<longleftrightarrow> list_all is_white s"
  by (simp add: dropWhile_eq_Nil_conv list_all_iff)

lemma dropWhile_idem [simp]: "dropWhile P (dropWhile P s) = dropWhile P s"
  by (induction s) auto

lemma dropWhile_rev_hd:
  assumes "s = [] \<or> \<not> P (hd s)"
  shows "rev (dropWhile P (rev s)) = [] \<or> \<not> P (hd (rev (dropWhile P (rev s))))"
  using assms
proof (induction s rule: rev_induct)
  case Nil
  then show ?case by simp
next
  case (snoc x xs)
  show ?case
  proof (cases "P x")
    case True
    with snoc show ?thesis by (cases xs) auto
  next
    case False
    with snoc.prems show ?thesis by simp
  qed
qed

lemma dropWhile_fixed: "l = [] \<or> \<not> P (hd l) \<Longrightarrow> dropWhile P l = l"
  by (cases l) auto

lemma Trim_idem [simp]: "Trim (Trim s) = Trim s"
proof -
  let ?u = "dropWhile is_white s"
  let ?t = "rev (dropWhile is_white (rev ?u))"
  have "?u = [] \<or> \<not> is_white (hd ?u)" using hd_dropWhile [of is_white s] by auto
  then have "?t = [] \<or> \<not> is_white (hd ?t)" by (rule dropWhile_rev_hd)
  then have "dropWhile is_white ?t = ?t" by (rule dropWhile_fixed)
  then show ?thesis by (simp only: Trim_def rev_rev_ident dropWhile_idem)
qed

lemma Trim_Nil_iff: "Trim s = [] \<longleftrightarrow> list_all is_white s"
proof -
  have "Trim s = [] \<longleftrightarrow> list_all is_white (dropWhile is_white s)"
    by (simp only: Trim_def rev_is_Nil_conv list_all_white_dropWhile list_all_rev)
  also have "\<dots> \<longleftrightarrow> list_all is_white s"
    by (induction s) auto
  finally show ?thesis .
qed

lemma list_all_white_Trim: "list_all is_white (Trim s) \<longleftrightarrow> list_all is_white s"
  by (metis Trim_Nil_iff Trim_idem)

lemma list_all_white_upper [simp]: "list_all is_white (ToUpperInvariant s) \<longleftrightarrow> list_all is_white s"
  by (simp add: ToUpperInvariant_def list_all_iff)

lemma length_ToUpperInvariant [simp]: "length (ToUpperInvariant s) = length s"
  by (simp add: ToUpperInvariant_def)

lemma length_Trim_le: "length (Trim s) \<le> length s"
  by (metis Trim_def length_dropWhile_le length_rev order_trans)

theorem new_Money_ok:
  assumes "new_Money amount currency = Inr m"
  shows "money_ok m"
proof -
  have amount: "0 \<le> amount" and cur: "\<not> list_all is_white currency"
    and m: "m = \<lparr>mAmount = round_away_to 2 amount, mCurrency = ToUpperInvariant (Trim currency)\<rparr>"
    using assms by (auto simp: new_Money_def IsNullOrWhiteSpace_def split: if_splits)
  have "0 \<le> round_away_to 2 amount"
    using round_away_nonneg [of "amount * 10 ^ 2"] amount by (simp add: round_away_to_def)
  moreover have "Trim currency \<noteq> []" using cur by (simp add: Trim_Nil_iff)
  then have "ToUpperInvariant (Trim currency) \<noteq> []" by (simp add: ToUpperInvariant_def)
  ultimately show ?thesis
    using cur by (simp add: money_ok_def m round_away_to_def Trim_upper list_all_white_Trim)
qed

lemma money_okD:
  assumes "money_ok m"
  shows "0 \<le> mAmount m" and "IsNullOrWhiteSpace (Some (mCurrency m)) = False"
    and "ToUpperInvariant (Trim (mCurrency m)) = mCurrency m" and "round_away_to 2 (mAmount m) = mAmount m"
proof -
  show "0 \<le> mAmount m" using assms by (simp add: money_ok_def)
  show "IsNullOrWhiteSpace (Some (mCurrency m)) = False"
    using assms by (simp add: money_ok_def IsNullOrWhiteSpace_def)
  show "ToUpperInvariant (Trim (mCurrency m)) = mCurrency m" using assms by (simp add: money_ok_def)
  obtain n where "mAmount m * 100 = of_int n" using assms by (auto simp: money_ok_def Ints_def)
  then show "round_away_to 2 (mAmount m) = mAmount m" by (simp add: round_away_to_def)
qed

text \<open>A well-formed amount is what its constructor builds from it.\<close>

lemma new_Money_id: "money_ok m \<Longrightarrow> new_Money (mAmount m) (mCurrency m) = Inr m"
  using money_okD [of m] by (simp add: new_Money_def)

lemma new_Money_add:
  assumes "money_ok a" and "money_ok b" and "mCurrency a = mCurrency b"
  shows "new_Money (mAmount a + mAmount b) (mCurrency a)
       = Inr \<lparr>mAmount = mAmount a + mAmount b, mCurrency = mCurrency a\<rparr>"
proof -
  have "mAmount a * 100 + mAmount b * 100 \<in> \<int>" using assms by (auto simp: money_ok_def intro: Ints_add)
  then have "money_ok \<lparr>mAmount = mAmount a + mAmount b, mCurrency = mCurrency a\<rparr>"
    using assms by (auto simp: money_ok_def algebra_simps)
  then show ?thesis using new_Money_id by fastforce
qed

text \<open>
  Addition is exact: the sum of two amounts of one currency is their sum, with nothing lost to
  rounding, and amounts of two currencies are refused.
\<close>

theorem Money_Add_exact:
  assumes "money_ok a" and "money_ok b"
  shows "Money_Add a b =
    (if mCurrency a = mCurrency b
     then Inr \<lparr>mAmount = mAmount a + mAmount b, mCurrency = mCurrency a\<rparr>
     else Inl (InvalidOperation (''Cannot combine '' @ mCurrency a @ '' with '' @ mCurrency b @ ''.'')))"
  using new_Money_add [OF assms] by (auto simp: Money_Add_def EnsureSameCurrency_def)

text \<open>Minor units round-trip for every amount whose minor units fit a \<open>long\<close>.\<close>

theorem minor_units_roundtrip:
  assumes ok: "money_ok m" and bound: "mAmount m * 100 < 2 ^ 63"
  shows "rbind (ToMinorUnits m) (\<lambda>n. FromMinorUnits n (mCurrency m)) = Inr m"
proof -
  obtain n where n: "mAmount m * 100 = of_int n" using ok by (auto simp: money_ok_def Ints_def)
  moreover have "0 \<le> mAmount m" using ok by (simp add: money_ok_def)
  ultimately have "(0::rat) \<le> of_int n" by linarith
  then have "0 \<le> n" by simp
  moreover have "(of_int n :: rat) < of_int (2 ^ 63)" using bound n by simp
  then have "n < 2 ^ 63" by (simp only: of_int_less_iff)
  ultimately have "ToMinorUnits m = Inr n" by (simp add: ToMinorUnits_def n checked64_def)
  moreover have "of_int n / 100 = mAmount m" using n by (simp add: field_simps)
  ultimately show ?thesis by (simp add: FromMinorUnits_def new_Money_id ok)
qed

text \<open>The comparison operators agree with the order of the amounts and raise together.\<close>

theorem Money_compare:
  "Money_le a b =
    (if mCurrency a = mCurrency b then Inr (mAmount a \<le> mAmount b)
     else Inl (InvalidOperation (''Cannot combine '' @ mCurrency a @ '' with '' @ mCurrency b @ ''.'')))"
  "Money_lt a b = rbind (Money_ge a b) (\<lambda>r. Inr (\<not> r))"
  "Money_gt a b = rbind (Money_le a b) (\<lambda>r. Inr (\<not> r))"
  by (auto simp: Money_le_def Money_lt_def Money_ge_def Money_gt_def Money_CompareTo_def EnsureSameCurrency_def)

section \<open>Results\<close>

record Error =
  errCode :: string
  errMessage :: string

definition Error_Validation :: "string \<Rightarrow> Error" where
  "Error_Validation message = \<lparr>errCode = ''validation'', errMessage = message\<rparr>"

definition Error_NotFound :: "string \<Rightarrow> Error" where
  "Error_NotFound message = \<lparr>errCode = ''not_found'', errMessage = message\<rparr>"

record 'a Result =
  resValue :: "'a option"
  resIsSuccess :: bool
  resError :: "Error option"

definition new_Result :: "'a option \<Rightarrow> bool \<Rightarrow> Error option \<Rightarrow> exn + 'a Result" where
  "new_Result v isSuccess e =
     (if isSuccess \<and> e \<noteq> None then Inl (InvalidOperation ''Successful results cannot carry an error.'')
      else if \<not> isSuccess \<and> e = None then Inl (InvalidOperation ''Failed results must carry an error.'')
      else Inr \<lparr>resValue = v, resIsSuccess = isSuccess, resError = e\<rparr>)"

definition Result_Success :: "'a \<Rightarrow> exn + 'a Result" where
  "Result_Success v = new_Result (Some v) True None"

definition Result_Failure :: "Error \<Rightarrow> exn + 'a Result" where
  "Result_Failure e = new_Result None False (Some e)"

definition IsFailure :: "'a Result \<Rightarrow> bool" where
  "IsFailure r = (\<not> resIsSuccess r)"

definition Result_Value :: "'a Result \<Rightarrow> exn + 'a option" where
  "Result_Value r =
     (if resIsSuccess r then Inr (resValue r)
      else Inl (InvalidOperation ''Cannot access Value on a failed result.''))"

lemma Result_exclusive:
  "new_Result v s e = Inr r \<Longrightarrow> resIsSuccess r \<longleftrightarrow> resError r = None"
  by (auto simp: new_Result_def split: if_splits)

lemma Result_Success_Value: "rbind (Result_Success v) Result_Value = Inr (Some v)"
  by (simp add: Result_Success_def new_Result_def Result_Value_def)

lemma Result_Failure_Value:
  "rbind (Result_Failure e) Result_Value = Inl (InvalidOperation ''Cannot access Value on a failed result.'')"
  by (simp add: Result_Failure_def new_Result_def Result_Value_def)

section \<open>Pages\<close>

record PageRequest =
  Page :: int
  PageSize :: int

definition Page_Skip :: "PageRequest \<Rightarrow> int" where
  "Page_Skip r = max 0 (wrap32 (wrap32 (Page r - 1) * PageSize r))"

definition Normalize :: "PageRequest \<Rightarrow> PageRequest" where
  "Normalize r =
     \<lparr>Page = (if Page r < 1 then 1 else Page r),
      PageSize = (if PageSize r < 1 \<or> PageSize r > 200 then 25 else PageSize r)\<rparr>"

definition TotalPages :: "int \<Rightarrow> int \<Rightarrow> int" where
  "TotalPages totalCount pageSize =
     (if pageSize = 0 then 0 else wrap32 \<lceil>(of_int totalCount :: rat) / of_int pageSize\<rceil>)"

text \<open>
  After \<open>Normalize\<close>, a page that exists lies at the offset its number says: the pages of one
  size tile the items, and none is skipped or shown twice.
\<close>

lemma Normalize_bounds: "1 \<le> Page (Normalize r)" "1 \<le> PageSize (Normalize r)" "PageSize (Normalize r) \<le> 200"
  by (auto simp: Normalize_def)

lemma Skip_normalized:
  assumes "is_i32 (Page r)" and "(Page (Normalize r) - 1) * PageSize (Normalize r) \<le> 2147483647"
  shows "Page_Skip (Normalize r) = (Page (Normalize r) - 1) * PageSize (Normalize r)"
proof -
  let ?n = "Normalize r"
  have p: "1 \<le> Page ?n" "Page ?n \<le> 2147483647" using assms(1) by (auto simp: Normalize_def is_i32_iff)
  then have "wrap32 (Page ?n - 1) = Page ?n - 1" by (intro wrap32_small) auto
  moreover have nonneg: "0 \<le> (Page ?n - 1) * PageSize ?n" using p Normalize_bounds [of r] by simp
  ultimately show ?thesis using assms(2) by (simp add: Page_Skip_def wrap32_small)
qed

section \<open>Latency tracker\<close>

record LatencyTracker =
  samples :: "int list"
  lt_count :: nat
  lt_index :: nat

record LatencySnapshot =
  Average :: rat
  P50 :: int
  P95 :: int
  P99 :: int

definition new_LatencyTracker :: "nat \<Rightarrow> LatencyTracker" where
  "new_LatencyTracker capacity = \<lparr>samples = replicate capacity 0, lt_count = 0, lt_index = 0\<rparr>"

definition Latency_Record :: "LatencyTracker \<Rightarrow> int \<Rightarrow> exn + LatencyTracker" where
  "Latency_Record t ms =
     (if lt_index t < length (samples t)
      then Inr (t\<lparr>samples := (samples t)[lt_index t := ms],
                   lt_index := (lt_index t + 1) mod length (samples t),
                   lt_count := (if lt_count t < length (samples t) then lt_count t + 1 else lt_count t)\<rparr>)
      else Inl (ArgumentOutOfRange ''index''))"

definition Percentile :: "int list \<Rightarrow> rat \<Rightarrow> int" where
  "Percentile sorted_samples p =
     (let index = max 0 (min (\<lceil>p * of_nat (length sorted_samples)\<rceil> - 1) (int (length sorted_samples) - 1))
      in sorted_samples ! nat index)"

definition Latency_Snapshot :: "LatencyTracker \<Rightarrow> LatencySnapshot" where
  "Latency_Snapshot t =
     (if lt_count t = 0 then \<lparr>Average = 0, P50 = 0, P95 = 0, P99 = 0\<rparr>
      else let copy = sort (take (lt_count t) (samples t)) in
        \<lparr>Average = of_int (sum_list copy) / of_nat (length copy),
         P50 = Percentile copy (50 / 100), P95 = Percentile copy (95 / 100), P99 = Percentile copy (99 / 100)\<rparr>)"

fun Latency_Record_all :: "LatencyTracker \<Rightarrow> int list \<Rightarrow> exn + LatencyTracker" where
  "Latency_Record_all t [] = Inr t"
| "Latency_Record_all t (x # xs) = rbind (Latency_Record t x) (\<lambda>t'. Latency_Record_all t' xs)"

text \<open>The tracker holds the last samples of a history, in the order of a ring.\<close>

definition latency_ok :: "int list \<Rightarrow> LatencyTracker \<Rightarrow> bool" where
  "latency_ok hist t \<longleftrightarrow> 0 < length (samples t) \<and>
     lt_index t = length hist mod length (samples t) \<and>
     lt_count t = min (length hist) (length (samples t)) \<and>
     (\<forall>i < length hist. length hist \<le> i + length (samples t) \<longrightarrow> samples t ! (i mod length (samples t)) = hist ! i)"


lemma latency_ok_new: "0 < capacity \<Longrightarrow> latency_ok [] (new_LatencyTracker capacity)"
  by (simp add: latency_ok_def new_LatencyTracker_def)

lemma mod_distinct:
  fixes i h n :: nat
  assumes "i < h" and "h < i + n"
  shows "i mod n \<noteq> h mod n"
proof
  assume "i mod n = h mod n"
  then have "n dvd h - i" using assms(1) by (metis less_imp_le mod_eq_dvd_iff_nat)
  moreover have "0 < h - i" "h - i < n" using assms by auto
  ultimately show False by (auto dest: dvd_imp_le)
qed

lemma latency_ok_Record:
  assumes "latency_ok hist t"
  shows "\<exists>t'. Latency_Record t ms = Inr t' \<and> latency_ok (hist @ [ms]) t' \<and> length (samples t') = length (samples t)"
proof -
  let ?n = "length (samples t)" and ?h = "length hist"
  have n: "0 < ?n" and ix: "lt_index t = ?h mod ?n" and ct: "lt_count t = min ?h ?n"
    and ring: "\<And>i. i < ?h \<Longrightarrow> ?h \<le> i + ?n \<Longrightarrow> samples t ! (i mod ?n) = hist ! i"
    using assms by (auto simp: latency_ok_def)
  let ?t = "t\<lparr>samples := (samples t)[?h mod ?n := ms], lt_index := (?h mod ?n + 1) mod ?n,
                   lt_count := (if lt_count t < ?n then lt_count t + 1 else lt_count t)\<rparr>"
  have "Latency_Record t ms = Inr ?t" using n by (simp add: Latency_Record_def ix)
  moreover have "(samples t)[?h mod ?n := ms] ! (i mod ?n) = (hist @ [ms]) ! i"
    if "i < ?h + 1" and "?h + 1 \<le> i + ?n" for i
  proof (cases "i = ?h")
    case True
    then show ?thesis using n by simp
  next
    case False
    then have "i < ?h" "?h < i + ?n" using that by auto
    moreover from this have "i mod ?n \<noteq> ?h mod ?n" by (rule mod_distinct)
    ultimately show ?thesis using ring [of i] by (simp add: nth_append)
  qed
  then have "latency_ok (hist @ [ms]) ?t"
    using n by (auto simp: latency_ok_def ct mod_Suc_eq)
  ultimately show ?thesis by auto
qed

text \<open>
  Whatever is recorded, a tracker with room for a sample never raises, and holds exactly the most
  recent samples.
\<close>

theorem latency_tracker_history:
  assumes "0 < capacity"
  shows "\<exists>t. Latency_Record_all (new_LatencyTracker capacity) xs = Inr t \<and> latency_ok xs t
           \<and> length (samples t) = capacity"
proof -
  have "\<exists>t'. Latency_Record_all t ys = Inr t' \<and> latency_ok (hist @ ys) t' \<and> length (samples t') = length (samples t)"
    if "latency_ok hist t" for hist t ys
    using that
  proof (induction ys arbitrary: hist t)
    case Nil
    then show ?case by simp
  next
    case (Cons y ys)
    obtain t1 where t1: "Latency_Record t y = Inr t1" "latency_ok (hist @ [y]) t1"
        "length (samples t1) = length (samples t)"
      using latency_ok_Record [OF Cons.prems] by blast
    from Cons.IH [OF t1(2)] t1 show ?case by auto
  qed
  from this [OF latency_ok_new [OF assms]] show ?thesis by (simp add: new_LatencyTracker_def)
qed

lemma Percentile_mem:
  assumes "sorted_samples \<noteq> []"
  shows "Percentile sorted_samples p \<in> set sorted_samples"
proof -
  have "nat (max 0 (min (\<lceil>p * of_nat (length sorted_samples)\<rceil> - 1) (int (length sorted_samples) - 1)))
      < length sorted_samples"
    using assms by (cases sorted_samples) auto
  then show ?thesis by (simp add: Percentile_def Let_def)
qed

lemma Percentile_mono:
  assumes "sorted xs" and "xs \<noteq> []" and "p \<le> q"
  shows "Percentile xs p \<le> Percentile xs q"
proof -
  have "\<lceil>p * of_nat (length xs)\<rceil> \<le> \<lceil>q * of_nat (length xs)\<rceil>"
    using assms(3) by (intro ceiling_mono mult_right_mono) auto
  then show ?thesis
    using assms(1,2) unfolding Percentile_def Let_def
    by (intro sorted_nth_mono) (cases xs; auto)+
qed

text \<open>The percentiles of a snapshot are recorded samples and are ordered.\<close>

lemma Latency_Snapshot_ordered:
  assumes "latency_ok hist t" and "hist \<noteq> []"
  shows "P50 (Latency_Snapshot t) \<le> P95 (Latency_Snapshot t)" "P95 (Latency_Snapshot t) \<le> P99 (Latency_Snapshot t)"
    "P99 (Latency_Snapshot t) \<in> set (samples t)"
proof -
  let ?copy = "sort (take (lt_count t) (samples t))"
  have c: "lt_count t \<noteq> 0" and s: "samples t \<noteq> []" using assms by (auto simp: latency_ok_def)
  have ne: "?copy \<noteq> []" using c s by (metis length_greater_0_conv length_sort take_eq_Nil)
  have "set ?copy \<subseteq> set (samples t)" by (simp add: set_take_subset)
  then show "P50 (Latency_Snapshot t) \<le> P95 (Latency_Snapshot t)" "P95 (Latency_Snapshot t) \<le> P99 (Latency_Snapshot t)"
    "P99 (Latency_Snapshot t) \<in> set (samples t)"
    using Percentile_mono [OF sorted_sort ne, of "50 / 100" "95 / 100"]
      Percentile_mono [OF sorted_sort ne, of "95 / 100" "99 / 100"] Percentile_mem [OF ne, of "99 / 100"] c
    by (auto simp: Latency_Snapshot_def Let_def)
qed

end
