(* ===== verification/Contracts.thy ===== *)
theory Contracts
  imports SharedKernel
begin

text \<open>
  The messages and enumerations of \<open>Sentinel.Contracts\<close>: every service publishes or consumes these
  records. Identifiers (\<open>Guid\<close>) are 128-bit naturals with \<open>Guid.Empty\<close> as 0; instants are numbers
  of ticks of 100 ns in UTC; an interpolated text is kept as the list of its pieces, since how a
  number prints is the culture's business; a JSON payload is the value it encodes together with the
  members the object lacks, because a null member is not written and a required one must be there.
\<close>

section \<open>Enumerations\<close>

datatype Channel = POS | ATM | WEB | MOBILE | TRANSFER

datatype RiskDecision = Approve | Review | Block

datatype RiskLevel = Low | Medium | High | Critical

datatype CaseStatus = Open | Assigned | Investigating | Escalated | ConfirmedFraud | FalsePositive | Closed

datatype MerchantCategory = Grocery | Fuel | Restaurant | Travel | Electronics | Clothing | Healthcare
  | Utilities | Gambling | Crypto | MoneyTransfer | Adult | Other

datatype FeedbackType = FraudConfirmed | FalsePositiveConfirmed | CaseClosed

definition RequiresPhysicalPresence :: "Channel \<Rightarrow> bool" where
  "RequiresPhysicalPresence channel = (channel \<in> {POS, ATM})"

text \<open>The number an enumeration's value has orders it.\<close>

primrec level_number :: "RiskLevel \<Rightarrow> nat" where
  "level_number Low = 1"
| "level_number Medium = 2"
| "level_number High = 3"
| "level_number Critical = 4"

primrec decision_number :: "RiskDecision \<Rightarrow> nat" where
  "decision_number Approve = 1"
| "decision_number Review = 2"
| "decision_number Block = 3"

lemma level_number_inj: "level_number a = level_number b \<Longrightarrow> a = b"
  by (cases a; cases b) simp_all

lemma decision_number_inj: "decision_number a = decision_number b \<Longrightarrow> a = b"
  by (cases a; cases b) simp_all

instantiation RiskLevel :: linorder
begin

definition less_eq_RiskLevel :: "RiskLevel \<Rightarrow> RiskLevel \<Rightarrow> bool" where
  "less_eq_RiskLevel a b = (level_number a \<le> level_number b)"

definition less_RiskLevel :: "RiskLevel \<Rightarrow> RiskLevel \<Rightarrow> bool" where
  "less_RiskLevel a b = (level_number a < level_number b)"

instance
  by standard (auto simp: less_eq_RiskLevel_def less_RiskLevel_def intro: level_number_inj)

end

instantiation RiskDecision :: linorder
begin

definition less_eq_RiskDecision :: "RiskDecision \<Rightarrow> RiskDecision \<Rightarrow> bool" where
  "less_eq_RiskDecision a b = (decision_number a \<le> decision_number b)"

definition less_RiskDecision :: "RiskDecision \<Rightarrow> RiskDecision \<Rightarrow> bool" where
  "less_RiskDecision a b = (decision_number a < decision_number b)"

instance
  by standard (auto simp: less_eq_RiskDecision_def less_RiskDecision_def intro: decision_number_inj)

end

lemmas enum_order = less_eq_RiskLevel_def less_RiskLevel_def less_eq_RiskDecision_def less_RiskDecision_def

section \<open>Topics and consumer groups\<close>

datatype KafkaTopic = TransactionsRaw | TransactionsValidated | RiskDecisions | Alerts | DeadLetterTopic
  | ProfileUpdated | CaseFeedback

datatype ConsumerGroup = TransactionProcessor | ProfileProcessor | DecisionPublisher | LiveFeed

section \<open>Identifiers, instants and texts\<close>

type_synonym guid = nat
type_synonym instant = int

definition Guid_Empty :: guid where
  "Guid_Empty = 0"

definition hex_digit :: "nat \<Rightarrow> char" where
  "hex_digit d = ''0123456789abcdef'' ! (d mod 16)"

text \<open>\<open>Guid.ToString("N")\<close>: 32 hexadecimal digits.\<close>

definition guid_N :: "guid \<Rightarrow> string" where
  "guid_N g = map (\<lambda>i. hex_digit (g div 16 ^ i)) (rev [0..<32])"

definition ticks_per_hour :: int where
  "ticks_per_hour = 36000000000"

definition minutes :: "int \<Rightarrow> int" where
  "minutes m = m * 600000000"

definition hours :: "int \<Rightarrow> int" where
  "hours h = h * ticks_per_hour"

definition days :: "int \<Rightarrow> int" where
  "days d = d * 24 * ticks_per_hour"

definition hour_of :: "instant \<Rightarrow> int" where
  "hour_of t = t div ticks_per_hour mod 24"

lemma hour_of_range: "0 \<le> hour_of t \<and> hour_of t < 24"
  by (simp add: hour_of_def)

datatype piece =
    Lit string
  | PMoney Money
  | PDec nat rat
  | PDbl nat real
  | PInt int
  | PHour int
  | PBool bool
  | PChannel Channel
  | PCategory MerchantCategory
  | PStrings "string list"
  | PInts "int list"

type_synonym ftext = "piece list"
type_synonym evidence = "(string \<times> ftext) list"

section \<open>Events\<close>

record TransactionReceivedV1 =
  rcvEventId :: guid
  rcvCorrelationId :: "string option"
  rcvOccurredAt :: instant
  rcvTransactionId :: "string option"
  rcvAccountId :: "string option"
  rcvCustomerId :: "string option"
  rcvAmount :: rat
  rcvCurrency :: "string option"
  rcvMerchantId :: "string option"
  rcvMerchantCategory :: MerchantCategory
  rcvCountry :: "string option"
  rcvCity :: "string option"
  rcvTimestamp :: instant
  rcvCardPresent :: bool
  rcvChannel :: Channel
  rcvDeviceId :: "string option"
  rcvIpAddress :: "string option"

record TransactionValidatedV1 =
  valEventId :: guid
  valCorrelationId :: string
  valOccurredAt :: instant
  valTransaction :: TransactionReceivedV1

record TriggeredRuleV1 =
  trgRuleCode :: string
  trgScore :: int
  trgReason :: ftext
  trgEvidence :: evidence

record RiskDecisionV1 =
  decEventId :: guid
  decCorrelationId :: string
  decOccurredAt :: instant
  decTransactionId :: string
  decAccountId :: string
  decCustomerId :: string
  decRiskScore :: int
  decRiskLevel :: RiskLevel
  decDecision :: RiskDecision
  decTriggeredRules :: "TriggeredRuleV1 list"
  decReasons :: "ftext list"
  decEvidence :: evidence
  decProcessingTimeMs :: int
  decModelVersion :: string
  decRulesetVersion :: string
  decTransaction :: TransactionReceivedV1

record AlertRaisedV1 =
  alrEventId :: guid
  alrCorrelationId :: string
  alrOccurredAt :: instant
  alrTransactionId :: string
  alrAccountId :: string
  alrCustomerId :: string
  alrDecision :: RiskDecision
  alrRiskScore :: int
  alrSummary :: "ftext list"

record ProfileUpdatedV1 =
  pupEventId :: guid
  pupCorrelationId :: string
  pupOccurredAt :: instant
  pupAccountId :: string
  pupCustomerId :: string
  pupAverageTransactionAmount :: rat
  pupHomeCountry :: string
  pupTransactionCount :: int

record CaseFeedbackV1 =
  fbkEventId :: guid
  fbkCorrelationId :: string
  fbkOccurredAt :: instant
  fbkCaseId :: guid
  fbkTransactionId :: string
  fbkFeedbackType :: FeedbackType
  fbkAnalyst :: string
  fbkNotes :: "string option"

datatype payload =
    Received TransactionReceivedV1
  | Validated TransactionValidatedV1
  | Decided RiskDecisionV1
  | Alerted AlertRaisedV1
  | ProfileChanged ProfileUpdatedV1
  | Feedback CaseFeedbackV1

section \<open>JSON\<close>

text \<open>
  \<open>SentinelJson\<close> leaves out the members that are null (\<open>WhenWritingNull\<close>), and reading an object throws
  \<open>JsonException\<close> when a member declared \<open>required\<close> is absent. An object is the value of its members with the
  names of those of the transaction that it lacks.
\<close>

datatype 'm json = Json "string list" 'm | NullJson | BadJson

definition null_members :: "TransactionReceivedV1 \<Rightarrow> string list" where
  "null_members m = map fst (filter (\<lambda>(name, value). value = None)
     [(''correlationId'', rcvCorrelationId m), (''transactionId'', rcvTransactionId m), (''accountId'', rcvAccountId m),
      (''customerId'', rcvCustomerId m), (''currency'', rcvCurrency m), (''merchantId'', rcvMerchantId m),
      (''country'', rcvCountry m), (''city'', rcvCity m), (''deviceId'', rcvDeviceId m), (''ipAddress'', rcvIpAddress m)])"

definition required_members :: "string list" where
  "required_members = [''eventId'', ''correlationId'', ''occurredAt'', ''transactionId'', ''accountId'', ''customerId'',
     ''amount'', ''currency'', ''merchantId'', ''merchantCategory'', ''country'', ''timestamp'', ''cardPresent'', ''channel'']"

definition readable :: "string list \<Rightarrow> bool" where
  "readable absent \<longleftrightarrow> (\<forall>name \<in> set required_members. name \<notin> set absent)"

text \<open>An optional member that is absent is null.\<close>

definition with_absent :: "string list \<Rightarrow> TransactionReceivedV1 \<Rightarrow> TransactionReceivedV1" where
  "with_absent absent m = m
     \<lparr>rcvCity := (if ''city'' \<in> set absent then None else rcvCity m),
      rcvDeviceId := (if ''deviceId'' \<in> set absent then None else rcvDeviceId m),
      rcvIpAddress := (if ''ipAddress'' \<in> set absent then None else rcvIpAddress m)\<rparr>"

text \<open>What \<open>SentinelJson.Serialize\<close> makes of a transaction, and of a decision with its transaction.\<close>

definition Serialize :: "TransactionReceivedV1 \<Rightarrow> TransactionReceivedV1 json" where
  "Serialize m = Json (null_members m) m"

definition Serialize_decision :: "RiskDecisionV1 \<Rightarrow> RiskDecisionV1 json" where
  "Serialize_decision d = Json (null_members (decTransaction d)) d"

text \<open>A transaction whose required texts are all there is read as it was written; any other is not read.\<close>

definition no_required_null :: "TransactionReceivedV1 \<Rightarrow> bool" where
  "no_required_null m \<longleftrightarrow> (\<forall>value \<in> {rcvCorrelationId m, rcvTransactionId m, rcvAccountId m, rcvCustomerId m, rcvCurrency m,
     rcvMerchantId m, rcvCountry m}. value \<noteq> None)"

lemma readable_null_members: "readable (null_members m) \<longleftrightarrow> no_required_null m"
  by (auto simp: readable_def null_members_def required_members_def no_required_null_def)

lemma with_absent_null_members [simp]: "with_absent (null_members m) m = m"
  by (simp add: with_absent_def null_members_def)

end
