(* ===== verification/RiskDomain.thy ===== *)
theory RiskDomain
  imports Contracts
begin

text \<open>
  What a rule sees (\<open>Models/TransactionSnapshot.cs\<close>, the context of \<open>RuleContracts.cs\<close>): the
  snapshot records, the parameters of a rule with their parsing, and the geography. Parsing is that
  of the invariant culture; a \<open>double\<close> is a real, with the infinities and NaN apart.
\<close>

section \<open>Snapshots\<close>

record TransactionSnapshot =
  txTransactionId :: string
  txAccountId :: string
  txCustomerId :: string
  txAmount :: Money
  txMerchantId :: string
  txMerchantCategory :: MerchantCategory
  txCountry :: string
  txCity :: "string option"
  txTimestamp :: instant
  txCardPresent :: bool
  txChannel :: Channel
  txDeviceId :: "string option"
  txIpAddress :: "string option"
  txCorrelationId :: string

record HistoricalTransaction =
  hisTransactionId :: string
  hisCountry :: string
  hisCity :: "string option"
  hisTimestamp :: instant
  hisChannel :: Channel
  hisAmount :: Money
  hisApproved :: bool

record KnownDeviceSnapshot =
  devDeviceId :: string
  devFirstSeen :: instant
  devLastSeen :: instant
  devTrusted :: bool
  devTransactionCount :: int

record CustomerBehaviourProfile =
  prfAccountId :: string
  prfCustomerId :: string
  prfHomeCountry :: string
  prfAverageTransactionAmount :: Money
  prfMedianTransactionAmount :: Money
  prfAverageDailySpend :: Money
  prfCommonCountries :: "string list"
  prfCommonMerchants :: "string list"
  prfCommonCategories :: "MerchantCategory list"
  prfCommonDevices :: "string list"
  prfTypicalHoursUtc :: "int list"
  prfTransactionsPerDay :: rat
  prfAccountOpenedAt :: instant
  prfLifetimeTransactionCount :: int

definition Profile_Empty :: "string \<Rightarrow> string \<Rightarrow> string \<Rightarrow> instant \<Rightarrow> string \<Rightarrow> exn + CustomerBehaviourProfile" where
  "Profile_Empty accountId customerId homeCountry openedAt currency =
     rbind (Money_Zero currency) (\<lambda>zero.
       Inr \<lparr>prfAccountId = accountId, prfCustomerId = customerId, prfHomeCountry = homeCountry,
            prfAverageTransactionAmount = zero, prfMedianTransactionAmount = zero,
            prfAverageDailySpend = zero, prfCommonCountries = [], prfCommonMerchants = [],
            prfCommonCategories = [], prfCommonDevices = [], prfTypicalHoursUtc = [],
            prfTransactionsPerDay = 0, prfAccountOpenedAt = openedAt, prfLifetimeTransactionCount = 0\<rparr>)"

record VelocitySnapshot =
  velTransactionsLast1Minute :: int
  velTransactionsLast5Minutes :: int
  velTransactionsLast1Hour :: int
  velSpendLast5Minutes :: Money
  velSpendLast1Hour :: Money
  velSpendLast24Hours :: Money
  velDistinctMerchantsLast10Minutes :: int
  velDistinctCountriesLast30Minutes :: int
  velFailedTransactionsLast15Minutes :: int

definition Velocity_Empty :: "string \<Rightarrow> exn + VelocitySnapshot" where
  "Velocity_Empty currency =
     rbind (Money_Zero currency) (\<lambda>zero.
       Inr \<lparr>velTransactionsLast1Minute = 0, velTransactionsLast5Minutes = 0, velTransactionsLast1Hour = 0,
            velSpendLast5Minutes = zero, velSpendLast1Hour = zero, velSpendLast24Hours = zero,
            velDistinctMerchantsLast10Minutes = 0, velDistinctCountriesLast30Minutes = 0,
            velFailedTransactionsLast15Minutes = 0\<rparr>)"

section \<open>Parsing of parameters\<close>

definition digit_of :: "char \<Rightarrow> nat option" where
  "digit_of c = (let n = (of_char c :: nat) in if 48 \<le> n \<and> n \<le> 57 then Some (n - 48) else None)"

definition is_num_white :: "char \<Rightarrow> bool" where
  "is_num_white c \<longleftrightarrow> (let n = (of_char c :: nat) in n = 32 \<or> (9 \<le> n \<and> n \<le> 13))"

text \<open>Digits, with group separators once a digit has been seen: value, whether a digit was read, rest.\<close>

fun scan_digits :: "bool \<Rightarrow> nat \<Rightarrow> bool \<Rightarrow> string \<Rightarrow> nat \<times> bool \<times> string" where
  "scan_digits groups v seen [] = (v, seen, [])"
| "scan_digits groups v seen (c # cs) =
     (case digit_of c of
        Some d \<Rightarrow> scan_digits groups (10 * v + d) True cs
      | None \<Rightarrow> if groups \<and> seen \<and> c = CHR '','' then scan_digits groups v seen cs else (v, seen, c # cs))"

definition scan_sign :: "string \<Rightarrow> int option \<times> string" where
  "scan_sign s = (case s of c # cs \<Rightarrow>
       if c = CHR ''-'' then (Some (-1), cs) else if c = CHR ''+'' then (Some 1, cs) else (None, s)
     | [] \<Rightarrow> (None, []))"

definition TryParse_int :: "string \<Rightarrow> int option" where
  "TryParse_int s =
     (let (sgn, r) = scan_sign (dropWhile is_num_white s);
          (v, seen, rest) = scan_digits False 0 False r;
          n = (case sgn of None \<Rightarrow> 1 | Some k \<Rightarrow> k) * int v
      in if seen \<and> list_all is_num_white rest \<and> is_i32 n then Some n else None)"

text \<open>The unsigned part of a number: whole digits, then a point and the digits of the fraction.\<close>

definition scan_number :: "string \<Rightarrow> (rat \<times> string) option" where
  "scan_number s =
     (let (v, seen, rest) = scan_digits True 0 False s in
      case rest of
        c # cs \<Rightarrow>
          if c = CHR ''.'' then
            let (f, fseen, rest') = scan_digits False 0 False cs in
            if seen \<or> fseen then Some (of_nat v + of_nat f / 10 ^ (length cs - length rest'), rest') else None
          else if seen then Some (of_nat v, rest) else None
      | [] \<Rightarrow> if seen then Some (of_nat v, []) else None)"

definition TryParse_decimal :: "string \<Rightarrow> rat option" where
  "TryParse_decimal s =
     (let (sgn, r) = scan_sign (dropWhile is_num_white s) in
      case scan_number r of
        None \<Rightarrow> None
      | Some (v, rest) \<Rightarrow>
          let (trail, rest') = (if sgn = None then scan_sign (dropWhile is_num_white rest) else (sgn, rest));
              x = (case trail of None \<Rightarrow> v | Some k \<Rightarrow> of_int k * v)
          in if list_all is_num_white rest' \<and> v \<le> 79228162514264337593543950335 then Some x else None)"

datatype dbl = Finite rat | PosInf | NegInf | NaN

definition scan_exponent :: "string \<Rightarrow> int \<times> string" where
  "scan_exponent s =
     (case s of c # cs \<Rightarrow>
        if c = CHR ''e'' \<or> c = CHR ''E'' then
          let (sgn, r) = scan_sign cs; (v, seen, rest) = scan_digits False 0 False r in
          if seen then ((case sgn of None \<Rightarrow> 1 | Some k \<Rightarrow> k) * int v, rest) else (0, s)
        else (0, s)
      | [] \<Rightarrow> (0, []))"

definition dbl_max :: rat where
  "dbl_max = of_nat (2 ^ 1024 - 2 ^ 971)"

definition scale10 :: "rat \<Rightarrow> int \<Rightarrow> rat" where
  "scale10 v e = (if 0 \<le> e then v * 10 ^ nat e else v / 10 ^ nat (- e))"

definition TryParse_double :: "string \<Rightarrow> dbl option" where
  "TryParse_double s =
     (let t = Trim s; (sgn, r) = scan_sign (dropWhile is_num_white s) in
      case scan_number r of
        Some (v, rest) \<Rightarrow>
          let (e, rest') = scan_exponent rest;
              x = (case sgn of None \<Rightarrow> 1 | Some k \<Rightarrow> of_int k) * scale10 v e
          in if list_all is_num_white rest'
             then Some (if x > dbl_max then PosInf else if x < - dbl_max then NegInf else Finite x) else None
      | None \<Rightarrow>
          if equals_ignore_case t ''Infinity'' \<or> equals_ignore_case t ''+Infinity'' then Some PosInf
          else if equals_ignore_case t ''-Infinity'' then Some NegInf
          else if equals_ignore_case t ''NaN'' \<or> equals_ignore_case t ''-NaN'' \<or> equals_ignore_case t ''+NaN'' then Some NaN
          else None)"

section \<open>Parameters of a rule\<close>

record RuleParameterSet =
  rpRuleCode :: string
  rpEnabled :: bool
  rpScore :: int
  rpParameters :: "(string \<times> string) list"

definition GetDecimal :: "RuleParameterSet \<Rightarrow> string \<Rightarrow> rat \<Rightarrow> rat" where
  "GetDecimal p key fallback =
     (case map_of (rpParameters p) key of None \<Rightarrow> fallback
      | Some raw \<Rightarrow> (case TryParse_decimal raw of None \<Rightarrow> fallback | Some x \<Rightarrow> x))"

definition GetInt :: "RuleParameterSet \<Rightarrow> string \<Rightarrow> int \<Rightarrow> int" where
  "GetInt p key fallback =
     (case map_of (rpParameters p) key of None \<Rightarrow> fallback
      | Some raw \<Rightarrow> (case TryParse_int raw of None \<Rightarrow> fallback | Some x \<Rightarrow> x))"

definition GetDouble :: "RuleParameterSet \<Rightarrow> string \<Rightarrow> dbl \<Rightarrow> dbl" where
  "GetDouble p key fallback =
     (case map_of (rpParameters p) key of None \<Rightarrow> fallback
      | Some raw \<Rightarrow> (case TryParse_double raw of None \<Rightarrow> fallback | Some x \<Rightarrow> x))"

lemma GetInt_i32:
  assumes "is_i32 fallback"
  shows "is_i32 (GetInt p key fallback)"
proof -
  have "is_i32 x" if "TryParse_int raw = Some x" for raw x
    using that by (auto simp: TryParse_int_def Let_def split: prod.splits if_splits)
  then show ?thesis using assms by (auto simp: GetInt_def split: option.splits)
qed

text \<open>A decimal rendering of an \<open>int\<close> parses back to it.\<close>

fun digits_of :: "nat \<Rightarrow> string" where
  "digits_of n = (if n < 10 then [char_of (48 + n)] else digits_of (n div 10) @ [char_of (48 + n mod 10)])"

declare digits_of.simps [simp del]

definition int_to_string :: "int \<Rightarrow> string" where
  "int_to_string n = (if n < 0 then CHR ''-'' # digits_of (nat (- n)) else digits_of (nat n))"

lemma digit_of_char: "d < 10 \<Longrightarrow> digit_of (char_of (48 + d)) = Some d"
  by (simp add: digit_of_def Let_def of_char_of)

lemma scan_digits_append:
  "scan_digits g v seen (digits_of n @ cs) =
     scan_digits g (v * 10 ^ length (digits_of n) + n) True cs"
proof (induction n arbitrary: v seen cs rule: digits_of.induct)
  case (1 n)
  show ?case
  proof (cases "n < 10")
    case True
    then show ?thesis by (simp add: digits_of.simps [of n] digit_of_char mult.commute)
  next
    case False
    have "digits_of n = digits_of (n div 10) @ [char_of (48 + n mod 10)]"
      using False by (simp add: digits_of.simps [of n])
    then show ?thesis using 1 [OF False] by (simp add: digit_of_char algebra_simps)
  qed
qed

lemma digits_of_hd: "digits_of n \<noteq> [] \<and> digit_of (hd (digits_of n)) \<noteq> None"
proof (induction n rule: digits_of.induct)
  case (1 n)
  show ?case
  proof (cases "n < 10")
    case True
    then show ?thesis by (simp add: digits_of.simps [of n] digit_of_char)
  next
    case False
    then show ?thesis using 1 by (simp add: digits_of.simps [of n] hd_append)
  qed
qed

lemma digit_not_other: "digit_of c \<noteq> None \<Longrightarrow> \<not> is_num_white c \<and> c \<noteq> CHR ''-'' \<and> c \<noteq> CHR ''+''"
  by (auto simp: digit_of_def is_num_white_def Let_def split: if_splits)

theorem TryParse_int_roundtrip:
  assumes "is_i32 n"
  shows "TryParse_int (int_to_string n) = Some n"
proof -
  have scan: "scan_digits False 0 False (digits_of m) = (m, True, [])" for m
    using scan_digits_append [of False 0 False m "[]"] by simp
  show ?thesis
  proof (cases "n < 0")
    case True
    have "\<not> is_num_white CHR ''-''" by (simp add: is_num_white_def)
    with True assms scan show ?thesis
      by (simp add: TryParse_int_def int_to_string_def scan_sign_def)
  next
    case False
    obtain c cs where d: "digits_of (nat n) = c # cs" and c: "digit_of c \<noteq> None"
      using digits_of_hd [of "nat n"] by (cases "digits_of (nat n)") auto
    from digit_not_other [OF c] have "scan_sign (dropWhile is_num_white (digits_of (nat n))) = (None, digits_of (nat n))"
      by (simp add: d scan_sign_def)
    with False assms scan show ?thesis by (simp add: TryParse_int_def int_to_string_def)
  qed
qed

end
