(* ===== verification/Geo.thy ===== *)
theory Geo
  imports RiskDomain
begin

text \<open>
  \<open>Geography/Geo.cs\<close>: the centroid tables, their case-insensitive lookup and the haversine
  distance over the reals.
\<close>

record GeoPoint =
  Latitude :: rat
  Longitude :: rat
  geoLabel :: string

definition geo :: "rat \<Rightarrow> rat \<Rightarrow> string \<Rightarrow> GeoPoint" where
  "geo lat lon label = \<lparr>Latitude = lat, Longitude = lon, geoLabel = label\<rparr>"

definition CountryCentroids :: "(string \<times> GeoPoint) list" where
  "CountryCentroids =
    [(''GB'', geo (515074 / 10000) (- 1278 / 10000) ''London''),
     (''US'', geo (407128 / 10000) (- 740060 / 10000) ''New York''),
     (''DE'', geo (525200 / 10000) (134050 / 10000) ''Berlin''),
     (''FR'', geo (488566 / 10000) (23522 / 10000) ''Paris''),
     (''ES'', geo (404168 / 10000) (- 37038 / 10000) ''Madrid''),
     (''IT'', geo (419028 / 10000) (124964 / 10000) ''Rome''),
     (''NL'', geo (523676 / 10000) (49041 / 10000) ''Amsterdam''),
     (''IE'', geo (533498 / 10000) (- 62603 / 10000) ''Dublin''),
     (''AU'', geo (- 338688 / 10000) (1512093 / 10000) ''Sydney''),
     (''CA'', geo (436532 / 10000) (- 793832 / 10000) ''Toronto''),
     (''JP'', geo (356762 / 10000) (1396503 / 10000) ''Tokyo''),
     (''SG'', geo (13521 / 10000) (1038198 / 10000) ''Singapore''),
     (''AE'', geo (252048 / 10000) (552708 / 10000) ''Dubai''),
     (''IN'', geo (190760 / 10000) (728777 / 10000) ''Mumbai''),
     (''BR'', geo (- 235505 / 10000) (- 466333 / 10000) ''Sao Paulo''),
     (''ZA'', geo (- 262041 / 10000) (280473 / 10000) ''Johannesburg''),
     (''NG'', geo (65244 / 10000) (33792 / 10000) ''Lagos''),
     (''SE'', geo (593293 / 10000) (180686 / 10000) ''Stockholm''),
     (''NO'', geo (599139 / 10000) (107522 / 10000) ''Oslo''),
     (''PL'', geo (522297 / 10000) (210122 / 10000) ''Warsaw'')]"

definition Cities :: "(string \<times> GeoPoint) list" where
  "Cities =
    [(''london'', geo (515074 / 10000) (- 1278 / 10000) ''London''),
     (''manchester'', geo (534808 / 10000) (- 22426 / 10000) ''Manchester''),
     (''new york'', geo (407128 / 10000) (- 740060 / 10000) ''New York''),
     (''los angeles'', geo (340522 / 10000) (- 1182437 / 10000) ''Los Angeles''),
     (''chicago'', geo (418781 / 10000) (- 876298 / 10000) ''Chicago''),
     (''berlin'', geo (525200 / 10000) (134050 / 10000) ''Berlin''),
     (''paris'', geo (488566 / 10000) (23522 / 10000) ''Paris''),
     (''madrid'', geo (404168 / 10000) (- 37038 / 10000) ''Madrid''),
     (''sydney'', geo (- 338688 / 10000) (1512093 / 10000) ''Sydney''),
     (''tokyo'', geo (356762 / 10000) (1396503 / 10000) ''Tokyo''),
     (''dubai'', geo (252048 / 10000) (552708 / 10000) ''Dubai'')]"

definition lookup_ignore_case :: "(string \<times> 'a) list \<Rightarrow> string \<Rightarrow> 'a option" where
  "lookup_ignore_case table key =
     map_option snd (find (\<lambda>(k, _). equals_ignore_case k key) table)"

definition Resolve :: "string \<Rightarrow> string option \<Rightarrow> GeoPoint option" where
  "Resolve country city =
     (case (if IsNullOrWhiteSpace city then None
            else case city of None \<Rightarrow> None | Some c \<Rightarrow> lookup_ignore_case Cities (Trim c)) of
        Some cityPoint \<Rightarrow> Some cityPoint
      | None \<Rightarrow> lookup_ignore_case CountryCentroids country)"

definition DegreesToRadians :: "rat \<Rightarrow> real" where
  "DegreesToRadians degrees = of_rat degrees * pi / 180"

definition haversine :: "GeoPoint \<Rightarrow> GeoPoint \<Rightarrow> real" where
  "haversine a b =
     (let dLat = DegreesToRadians (Latitude b - Latitude a);
          dLon = DegreesToRadians (Longitude b - Longitude a);
          lat1 = DegreesToRadians (Latitude a);
          lat2 = DegreesToRadians (Latitude b)
      in (sin (dLat / 2))\<^sup>2 + cos lat1 * cos lat2 * (sin (dLon / 2))\<^sup>2)"

definition DistanceKm :: "GeoPoint \<Rightarrow> GeoPoint \<Rightarrow> real" where
  "DistanceKm a b = 2 * 6371 * arcsin (min 1 (sqrt (haversine a b)))"

lemma lookup_ignore_case_upper: "lookup_ignore_case t (ToUpperInvariant k) = lookup_ignore_case t k"
  by (simp add: lookup_ignore_case_def equals_ignore_case_def)

lemma Resolve_country_case: "Resolve (ToUpperInvariant c) city = Resolve c city"
  unfolding Resolve_def lookup_ignore_case_upper by (rule refl)

lemma lookup_ignore_case_mem: "lookup_ignore_case t k = Some p \<Longrightarrow> \<exists>k'. (k', p) \<in> set t"
  by (auto simp: lookup_ignore_case_def find_Some_iff) (metis nth_mem)

lemma table_range: "(k, p) \<in> set CountryCentroids \<union> set Cities \<Longrightarrow> -90 \<le> Latitude p \<and> Latitude p \<le> 90"
  by (auto simp: CountryCentroids_def Cities_def geo_def)

lemma Resolve_latitude:
  assumes "Resolve country city = Some p"
  shows "-90 \<le> Latitude p \<and> Latitude p \<le> 90"
proof -
  have "\<exists>k. (k, p) \<in> set CountryCentroids \<union> set Cities"
    using assms unfolding Resolve_def
    by (auto split: option.splits if_splits dest!: lookup_ignore_case_mem)
  then show ?thesis using table_range by blast
qed

lemma cos_latitude: "-90 \<le> Latitude p \<Longrightarrow> Latitude p \<le> 90 \<Longrightarrow> 0 \<le> cos (DegreesToRadians (Latitude p))"
proof -
  assume "-90 \<le> Latitude p" and "Latitude p \<le> 90"
  then have "(of_rat (-90) :: real) \<le> of_rat (Latitude p)" and "(of_rat (Latitude p) :: real) \<le> of_rat 90"
    by (simp_all only: of_rat_less_eq)
  then have "-90 \<le> (of_rat (Latitude p) :: real)" and "(of_rat (Latitude p) :: real) \<le> 90"
    by (simp_all add: of_rat_minus)
  then have "- pi / 2 \<le> of_rat (Latitude p) * pi / 180" and "of_rat (Latitude p) * pi / 180 \<le> pi / 2"
    using mult_right_mono [of "-90" "of_rat (Latitude p)" pi] mult_right_mono [of "of_rat (Latitude p)" 90 pi]
    by auto
  then show ?thesis unfolding DegreesToRadians_def by (intro cos_ge_zero) auto
qed

text \<open>
  The distance is symmetric, zero at a point itself, never negative for the places of the tables
  and at most half the circumference.
\<close>

lemma haversine_sym: "haversine a b = haversine b a"
proof -
  have "of_rat (x - y) = - (of_rat (y - x) :: real)" for x y by (simp add: of_rat_diff)
  then have "DegreesToRadians (x - y) / 2 = - (DegreesToRadians (y - x) / 2)" for x y
    unfolding DegreesToRadians_def by (metis divide_minus_left mult_minus_left)
  then have "(sin (DegreesToRadians (x - y) / 2))\<^sup>2 = (sin (DegreesToRadians (y - x) / 2))\<^sup>2" for x y
    by (metis power2_minus sin_minus)
  then show ?thesis unfolding haversine_def Let_def by (simp only: mult.commute)
qed

theorem DistanceKm_metric_bounds:
  assumes "Resolve c1 t1 = Some a" and "Resolve c2 t2 = Some b"
  shows "DistanceKm a b = DistanceKm b a \<and> DistanceKm a a = 0 \<and>
         0 \<le> DistanceKm a b \<and> DistanceKm a b \<le> 6371 * pi"
proof -
  have "0 \<le> haversine a b"
    using cos_latitude [of a] cos_latitude [of b] Resolve_latitude [OF assms(1)] Resolve_latitude [OF assms(2)]
    by (simp add: haversine_def)
  then have "0 \<le> min 1 (sqrt (haversine a b))" and "min 1 (sqrt (haversine a b)) \<le> 1"
    and "- 1 \<le> sqrt (haversine a b)" by (auto intro: order_trans [of _ 0])
  then have "0 \<le> arcsin (min 1 (sqrt (haversine a b)))" and "arcsin (min 1 (sqrt (haversine a b))) \<le> pi / 2"
    using arcsin_le_arcsin [of 0 "min 1 (sqrt (haversine a b))"] arcsin_ubound [of "min 1 (sqrt (haversine a b))"]
    by auto
  moreover have "haversine a a = 0" by (simp add: haversine_def DegreesToRadians_def)
  ultimately show ?thesis by (simp add: DistanceKm_def haversine_sym [of b a])
qed

end
