(* ===== verification/RiskRules.thy ===== *)
theory RiskRules
  imports Geo
begin

text \<open>
  The contracts of \<open>RuleContracts.cs\<close> and the thirteen rules of \<open>DeterministicRules.cs\<close>. A rule maps
  the context to its result; the only rule that can throw is \<open>HighValueRule\<close>, whose conversion of a
  decimal to \<open>int\<close> is checked. Additions and products of \<open>int\<close> wrap.
\<close>

section \<open>Results and contexts\<close>

record RiskRuleResult =
  resRuleCode :: string
  resTriggered :: bool
  resScore :: int
  resReason :: ftext
  resEvidence :: evidence

definition NotTriggered :: "string \<Rightarrow> RiskRuleResult" where
  "NotTriggered code =
     \<lparr>resRuleCode = code, resTriggered = False, resScore = 0,
      resReason = [Lit ''Rule did not trigger.''], resEvidence = []\<rparr>"

definition Hit :: "string \<Rightarrow> int \<Rightarrow> ftext \<Rightarrow> evidence \<Rightarrow> RiskRuleResult" where
  "Hit code score reason ev =
     \<lparr>resRuleCode = code, resTriggered = True, resScore = max 0 score, resReason = reason, resEvidence = ev\<rparr>"

record RiskContext =
  ctxTransaction :: TransactionSnapshot
  ctxProfile :: CustomerBehaviourProfile
  ctxVelocity :: VelocitySnapshot
  ctxKnownDevices :: "KnownDeviceSnapshot list"
  ctxRecentTransactions :: "HistoricalTransaction list"
  ctxRuleParameters :: "(string \<times> RuleParameterSet) list"
  ctxRulesetVersion :: string
  ctxEvaluatedAt :: instant

definition ParametersFor :: "RiskContext \<Rightarrow> string \<Rightarrow> RuleParameterSet" where
  "ParametersFor ctx ruleCode =
     (case map_of (ctxRuleParameters ctx) ruleCode of
        Some p \<Rightarrow> p
      | None \<Rightarrow> \<lparr>rpRuleCode = ruleCode, rpEnabled = True, rpScore = 0, rpParameters = []\<rparr>)"

datatype RuleCode = HighValue | HighVelocity | ForeignCountry | UnknownDevice | CardNotPresent
  | ImpossibleTravel | MerchantRisk | UnusualTime | NewAccount | BehaviourDeviation
  | RapidCountryChange | RepeatedDecline | RoundAmount

primrec code :: "RuleCode \<Rightarrow> string" where
  "code HighValue = ''HIGH_VALUE''"
| "code HighVelocity = ''HIGH_VELOCITY''"
| "code ForeignCountry = ''FOREIGN_LOCATION''"
| "code UnknownDevice = ''UNKNOWN_DEVICE''"
| "code CardNotPresent = ''CARD_NOT_PRESENT''"
| "code ImpossibleTravel = ''IMPOSSIBLE_TRAVEL''"
| "code MerchantRisk = ''MERCHANT_RISK''"
| "code UnusualTime = ''UNUSUAL_TIME''"
| "code NewAccount = ''NEW_ACCOUNT''"
| "code BehaviourDeviation = ''BEHAVIOURAL_DEVIATION''"
| "code RapidCountryChange = ''RAPID_COUNTRY_CHANGE''"
| "code RepeatedDecline = ''REPEATED_DECLINE''"
| "code RoundAmount = ''ROUND_AMOUNT''"

definition AllRuleCodes :: "RuleCode list" where
  "AllRuleCodes = [HighValue, HighVelocity, ForeignCountry, UnknownDevice, CardNotPresent, ImpossibleTravel,
     MerchantRisk, UnusualTime, NewAccount, BehaviourDeviation, RapidCountryChange, RepeatedDecline, RoundAmount]"

lemma AllRuleCodes_complete: "c \<in> set AllRuleCodes" "distinct AllRuleCodes"
  by (cases c) (simp_all add: AllRuleCodes_def)

lemma code_inj: "code a = code b \<longleftrightarrow> a = b"
  by (cases a; cases b) simp_all

section \<open>The rules\<close>

definition HighValueRule :: "RiskContext \<Rightarrow> exn + RiskRuleResult" where
  "HighValueRule ctx =
     (let p = ParametersFor ctx (code HighValue);
          threshold = GetDecimal p ''threshold'' 3000;
          amount = mAmount (txAmount (ctxTransaction ctx))
      in if amount < threshold then Inr (NotTriggered (code HighValue))
         else rbind (checked_decimal (threshold * 2)) (\<lambda>twice.
              let intensity = (if amount \<ge> twice then 3 / 2 else 1)
              in rbind (checked32 (round_away (of_int (rpScore p) * intensity))) (\<lambda>score.
                 Inr (Hit (code HighValue) score
                   [Lit ''Amount '', PMoney (txAmount (ctxTransaction ctx)), Lit '' exceeds high-value threshold '',
                    PDec 2 threshold, Lit '' '', Lit (mCurrency (txAmount (ctxTransaction ctx))), Lit ''.'']
                   [(''amount'', [PMoney (txAmount (ctxTransaction ctx))]), (''threshold'', [PDec 2 threshold])]))))"

definition HighVelocityRule :: "RiskContext \<Rightarrow> exn + RiskRuleResult" where
  "HighVelocityRule ctx =
     (let p = ParametersFor ctx (code HighVelocity);
          fiveMinuteLimit = GetInt p ''fiveMinuteCount'' 5;
          oneMinuteLimit = GetInt p ''oneMinuteLimit'' (GetInt p ''oneMinuteCount'' 3);
          tx5 = velTransactionsLast5Minutes (ctxVelocity ctx);
          tx1 = velTransactionsLast1Minute (ctxVelocity ctx)
      in Inr (if tx5 < fiveMinuteLimit \<and> tx1 < oneMinuteLimit then NotTriggered (code HighVelocity)
         else let score = (if tx5 \<ge> wrap32 (fiveMinuteLimit * 2) \<or> tx1 \<ge> wrap32 (oneMinuteLimit * 2)
                           then min (wrap32 (rpScore p + 10)) 50 else rpScore p)
              in Hit (code HighVelocity) score
                   [Lit ''Velocity is elevated: '', PInt tx1, Lit '' tx in 1 minute, '', PInt tx5, Lit '' tx in 5 minutes.'']
                   [(''tx1m'', [PInt tx1]), (''tx5m'', [PInt tx5]),
                    (''spend5m'', [PMoney (velSpendLast5Minutes (ctxVelocity ctx))])]))"

definition contains_ignore_case :: "string list \<Rightarrow> string \<Rightarrow> bool" where
  "contains_ignore_case xs s = list_ex (\<lambda>x. equals_ignore_case x s) xs"

definition ForeignCountryRule :: "RiskContext \<Rightarrow> exn + RiskRuleResult" where
  "ForeignCountryRule ctx =
     (let home = prfHomeCountry (ctxProfile ctx);
          current = txCountry (ctxTransaction ctx);
          common = prfCommonCountries (ctxProfile ctx)
      in Inr (if equals_ignore_case home current \<or> contains_ignore_case common current
         then NotTriggered (code ForeignCountry)
         else let p = ParametersFor ctx (code ForeignCountry)
              in Hit (code ForeignCountry) (rpScore p)
                   [Lit ''Transaction country '', Lit current, Lit '' is outside home country '', Lit home,
                    Lit '' and common countries.'']
                   [(''homeCountry'', [Lit home]), (''transactionCountry'', [Lit current]),
                    (''commonCountries'', [PStrings common])]))"

definition UnknownDeviceRule :: "RiskContext \<Rightarrow> exn + RiskRuleResult" where
  "UnknownDeviceRule ctx =
     (let p = ParametersFor ctx (code UnknownDevice) in
      case txDeviceId (ctxTransaction ctx) of
        None \<Rightarrow> Inr (Hit (code UnknownDevice) (rpScore p) [Lit ''No device identifier was supplied.'']
                       [(''deviceId'', [Lit ''missing''])])
      | Some deviceId \<Rightarrow>
          Inr (if IsNullOrWhiteSpace (Some deviceId)
               then Hit (code UnknownDevice) (rpScore p) [Lit ''No device identifier was supplied.'']
                      [(''deviceId'', [Lit ''missing''])]
               else let known = list_ex (\<lambda>d. equals_ignore_case (devDeviceId d) deviceId) (ctxKnownDevices ctx);
                        common = contains_ignore_case (prfCommonDevices (ctxProfile ctx)) deviceId
                    in if known \<or> common then NotTriggered (code UnknownDevice)
                       else Hit (rpRuleCode p) (rpScore p)
                              [Lit ''Device '', Lit deviceId, Lit '' has not been seen for this customer.'']
                              [(''deviceId'', [Lit deviceId]),
                               (''knownDeviceCount'', [PInt (int (length (ctxKnownDevices ctx)))])]))"

definition CardNotPresentRule :: "RiskContext \<Rightarrow> exn + RiskRuleResult" where
  "CardNotPresentRule ctx =
     (let tx = ctxTransaction ctx; remote = (txChannel tx \<in> {WEB, MOBILE}) in
      Inr (if txCardPresent tx \<or> txChannel tx = TRANSFER then NotTriggered (code CardNotPresent)
           else if \<not> remote \<and> txCardPresent tx then NotTriggered (code CardNotPresent)
           else if txCardPresent tx then NotTriggered (code CardNotPresent)
           else let p = ParametersFor ctx (code CardNotPresent)
                in Hit (code CardNotPresent) (rpScore p)
                     [Lit ''Card-not-present '', PChannel (txChannel tx), Lit '' transaction.'']
                     [(''channel'', [PChannel (txChannel tx)]), (''cardPresent'', [Lit ''false''])]))"

text \<open>\<open>OrderByDescending\<close> is stable, so the first is the earliest in the list among the latest.\<close>

fun first_latest :: "HistoricalTransaction list \<Rightarrow> HistoricalTransaction option" where
  "first_latest [] = None"
| "first_latest (t # ts) =
     (case first_latest ts of
        None \<Rightarrow> Some t
      | Some u \<Rightarrow> if hisTimestamp t < hisTimestamp u then Some u else Some t)"

definition exceeds :: "real \<Rightarrow> dbl \<Rightarrow> bool" where
  "exceeds speed limit =
     (case limit of Finite l \<Rightarrow> \<not> speed \<le> of_rat l | PosInf \<Rightarrow> False | NegInf \<Rightarrow> True | NaN \<Rightarrow> True)"

definition place :: "string \<Rightarrow> string option \<Rightarrow> string" where
  "place country city = country @ ''/'' @ (case city of None \<Rightarrow> '''' | Some c \<Rightarrow> c)"

definition ImpossibleTravelRule :: "RiskContext \<Rightarrow> exn + RiskRuleResult" where
  "ImpossibleTravelRule ctx =
     (let current = ctxTransaction ctx; none = NotTriggered (code ImpossibleTravel) in
      Inr (if \<not> RequiresPhysicalPresence (txChannel current) then none
      else case first_latest (filter (\<lambda>t. RequiresPhysicalPresence (hisChannel t)) (ctxRecentTransactions ctx)) of
        None \<Rightarrow> none
      | Some previous \<Rightarrow>
          (case (Resolve (hisCountry previous) (hisCity previous), Resolve (txCountry current) (txCity current)) of
             (Some a, Some b) \<Rightarrow>
               (let elapsed = \<bar>real_of_int (txTimestamp current - hisTimestamp previous)\<bar> / real_of_int ticks_per_hour;
                    h = (if elapsed \<le> 0 then 1 / 60 else elapsed);
                    distance = DistanceKm a b;
                    impliedSpeed = distance / h;
                    p = ParametersFor ctx (code ImpossibleTravel);
                    maxSpeed = GetDouble p ''maxSpeedKmh'' (Finite 900)
                in if \<not> exceeds impliedSpeed maxSpeed then none
                   else Hit (code ImpossibleTravel) (rpScore p)
                     [Lit ''Physical presence at '', Lit (geoLabel a), Lit '' then '', Lit (geoLabel b),
                      Lit '' implies '', PDbl 0 impliedSpeed, Lit '' km/h.'']
                     [(''from'', [Lit (place (hisCountry previous) (hisCity previous))]),
                      (''to'', [Lit (place (txCountry current) (txCity current))]),
                      (''distanceKm'', [PDbl 1 distance]), (''hours'', [PDbl 2 h]),
                      (''impliedSpeedKmh'', [PDbl 0 impliedSpeed])])
           | _ \<Rightarrow> none)))"

definition MerchantRiskRule :: "RiskContext \<Rightarrow> exn + RiskRuleResult" where
  "MerchantRiskRule ctx =
     (let category = txMerchantCategory (ctxTransaction ctx) in
      Inr (if category \<notin> {Gambling, Crypto, MoneyTransfer, Adult} then NotTriggered (code MerchantRisk)
           else let unusual = (category \<notin> set (prfCommonCategories (ctxProfile ctx)));
                    p = ParametersFor ctx (code MerchantRisk);
                    score = (if unusual then rpScore p else max 5 (quot32 (rpScore p) 2))
                in Hit (code MerchantRisk) score
                     [Lit ''Merchant category '', PCategory category, Lit '' is treated as elevated risk.'']
                     [(''category'', [PCategory category]), (''unusualForCustomer'', [PBool unusual])]))"

definition UnusualTimeRule :: "RiskContext \<Rightarrow> exn + RiskRuleResult" where
  "UnusualTimeRule ctx =
     (let hour = hour_of (txTimestamp (ctxTransaction ctx));
          typical = prfTypicalHoursUtc (ctxProfile ctx);
          score = rpScore (ParametersFor ctx (code UnusualTime))
      in Inr (if typical = [] then
           (if 1 \<le> hour \<and> hour \<le> 4
            then Hit (code UnusualTime) score
                   [Lit ''Transaction occurred at '', PHour hour, Lit '':00 UTC with no established pattern.'']
                   [(''hourUtc'', [PInt hour])]
            else NotTriggered (code UnusualTime))
         else if hour \<in> set typical \<or> (hour + 23) mod 24 \<in> set typical \<or> (hour + 1) mod 24 \<in> set typical
           then NotTriggered (code UnusualTime)
         else Hit (code UnusualTime) score
                [Lit ''Hour '', PHour hour, Lit '':00 UTC is outside the customer's typical hours.'']
                [(''hourUtc'', [PInt hour]), (''typicalHours'', [PInts typical])]))"

definition NewAccountRule :: "RiskContext \<Rightarrow> exn + RiskRuleResult" where
  "NewAccountRule ctx =
     (let limit = GetInt (ParametersFor ctx (code NewAccount)) ''days'' 14;
          age = ctxEvaluatedAt ctx - prfAccountOpenedAt (ctxProfile ctx);
          totalDays = real_of_int age / real_of_int (days 1)
      in Inr (if totalDays \<ge> real_of_int limit then NotTriggered (code NewAccount)
         else Hit (code NewAccount) (rpScore (ParametersFor ctx (code NewAccount)))
                [Lit ''Account is '', PDbl 1 totalDays, Lit '' days old (threshold '', PInt limit, Lit '' days).'']
                [(''accountAgeDays'', [PDbl 1 totalDays]), (''thresholdDays'', [PInt limit])]))"

definition BehaviourDeviationRule :: "RiskContext \<Rightarrow> exn + RiskRuleResult" where
  "BehaviourDeviationRule ctx =
     (let profile = ctxProfile ctx;
          baseline = (if mAmount (prfMedianTransactionAmount profile) > 0
                      then mAmount (prfMedianTransactionAmount profile)
                      else mAmount (prfAverageTransactionAmount profile))
      in if baseline \<le> 0 \<or> prfLifetimeTransactionCount profile < 5 then Inr (NotTriggered (code BehaviourDeviation))
         else let p = ParametersFor ctx (code BehaviourDeviation);
                  multiplier = GetDecimal p ''multiplier'' 8;
                  amount = mAmount (txAmount (ctxTransaction ctx))
              in rbind (checked_decimal (baseline * multiplier)) (\<lambda>limit.
                 if amount < limit then Inr (NotTriggered (code BehaviourDeviation))
                 else rbind (checked_decimal (amount / baseline)) (\<lambda>quotient.
                      let ratio = of_int (round_even (quotient * 10)) / 10
                      in Inr (Hit (code BehaviourDeviation) (rpScore p)
                           [Lit ''Amount is '', PDec 1 ratio, Lit ''x the customer's typical spend of '',
                            PDec 2 baseline, Lit ''.'']
                           [(''amount'', [PDec 2 amount]), (''baseline'', [PDec 2 baseline]), (''ratio'', [PDec 1 ratio])]))))"

definition RapidCountryChangeRule :: "RiskContext \<Rightarrow> exn + RiskRuleResult" where
  "RapidCountryChangeRule ctx =
     (let p = ParametersFor ctx (code RapidCountryChange);
          limit = GetInt p ''distinctCountries'' 2;
          cnt = velDistinctCountriesLast30Minutes (ctxVelocity ctx)
      in Inr (if cnt < limit then NotTriggered (code RapidCountryChange)
         else Hit (code RapidCountryChange) (rpScore p)
                [PInt cnt, Lit '' distinct countries observed in 30 minutes.'']
                [(''distinctCountries30m'', [PInt cnt]), (''currentCountry'', [Lit (txCountry (ctxTransaction ctx))])]))"

definition RepeatedDeclineRule :: "RiskContext \<Rightarrow> exn + RiskRuleResult" where
  "RepeatedDeclineRule ctx =
     (let p = ParametersFor ctx (code RepeatedDecline);
          limit = GetInt p ''failures'' 3;
          failures = velFailedTransactionsLast15Minutes (ctxVelocity ctx)
      in Inr (if failures < limit then NotTriggered (code RepeatedDecline)
         else Hit (code RepeatedDecline) (rpScore p)
                [PInt failures, Lit '' failed transactions in the last 15 minutes.'']
                [(''failures15m'', [PInt failures])]))"

definition RoundAmountRule :: "RiskContext \<Rightarrow> exn + RiskRuleResult" where
  "RoundAmountRule ctx =
     (let p = ParametersFor ctx (code RoundAmount);
          minimum = GetDecimal p ''minimumAmount'' 1000;
          amount = mAmount (txAmount (ctxTransaction ctx))
      in Inr (if amount < minimum then NotTriggered (code RoundAmount)
         else let whole = (if 0 \<le> amount then \<lfloor>amount\<rfloor> else \<lceil>amount\<rceil>);
                  isRound = (amount = of_int whole \<and> whole mod 100 = 0)
              in if \<not> isRound then NotTriggered (code RoundAmount)
                 else Hit (code RoundAmount) (rpScore p)
                        [Lit ''High-value round amount '', PMoney (txAmount (ctxTransaction ctx)),
                         Lit '' can indicate testing or cash-out.'']
                        [(''amount'', [PMoney (txAmount (ctxTransaction ctx))])]))"

primrec rule :: "RuleCode \<Rightarrow> RiskContext \<Rightarrow> exn + RiskRuleResult" where
  "rule HighValue = HighValueRule"
| "rule HighVelocity = HighVelocityRule"
| "rule ForeignCountry = ForeignCountryRule"
| "rule UnknownDevice = UnknownDeviceRule"
| "rule CardNotPresent = CardNotPresentRule"
| "rule ImpossibleTravel = ImpossibleTravelRule"
| "rule MerchantRisk = MerchantRiskRule"
| "rule UnusualTime = UnusualTimeRule"
| "rule NewAccount = NewAccountRule"
| "rule BehaviourDeviation = BehaviourDeviationRule"
| "rule RapidCountryChange = RapidCountryChangeRule"
| "rule RepeatedDecline = RepeatedDeclineRule"
| "rule RoundAmount = RoundAmountRule"

lemmas rule_defs = HighValueRule_def HighVelocityRule_def ForeignCountryRule_def UnknownDeviceRule_def
  CardNotPresentRule_def ImpossibleTravelRule_def MerchantRiskRule_def UnusualTimeRule_def NewAccountRule_def
  BehaviourDeviationRule_def RapidCountryChangeRule_def RepeatedDeclineRule_def RoundAmountRule_def

section \<open>The contract of a rule\<close>

text \<open>
  What the engine relies on: a rule names itself when it stays silent and then scores 0, it never
  scores below 0, stays within \<open>int\<close> when its configured score does, and throws nothing but the
  overflow of decimal arithmetic or of the conversion to \<open>int\<close>.
\<close>

locale risk_rule =
  fixes eval :: "RiskContext \<Rightarrow> exn + RiskRuleResult" and own :: string
  assumes silent: "eval ctx = Inr r \<Longrightarrow> \<not> resTriggered r \<Longrightarrow> r = NotTriggered own"
    and nonneg: "eval ctx = Inr r \<Longrightarrow> 0 \<le> resScore r"
    and in_range: "eval ctx = Inr r \<Longrightarrow> is_i32 (rpScore (ParametersFor ctx own)) \<Longrightarrow> resScore r \<le> int_max"
    and throws: "eval ctx = Inl e \<Longrightarrow> e = ArithmeticOverflow"
begin

lemma silent_score: "eval ctx = Inr r \<Longrightarrow> \<not> resTriggered r \<Longrightarrow> resScore r = 0"
  using silent [of ctx r] by (simp add: NotTriggered_def)

lemma score_i32: "eval ctx = Inr r \<Longrightarrow> is_i32 (rpScore (ParametersFor ctx own)) \<Longrightarrow> is_i32 (resScore r)"
  using nonneg [of ctx r] in_range [of ctx r] by (simp add: is_i32_def int_min_def)

end

lemma NotTriggered_sel [simp]:
  "resTriggered (NotTriggered c) = False" "resScore (NotTriggered c) = 0" "resRuleCode (NotTriggered c) = c"
  by (simp_all add: NotTriggered_def)

lemma Hit_sel [simp]:
  "resTriggered (Hit c s r e)" "resScore (Hit c s r e) = max 0 s" "resRuleCode (Hit c s r e) = c"
  by (simp_all add: Hit_def)

lemma rule_silent: "rule c ctx = Inr r \<Longrightarrow> \<not> resTriggered r \<Longrightarrow> r = NotTriggered (code c)"
  by (cases c)
    (auto simp: rule_defs Let_def rbind_eq_Inr split: if_splits option.splits)

lemma rule_nonneg: "rule c ctx = Inr r \<Longrightarrow> 0 \<le> resScore r"
  by (cases c)
    (auto simp: rule_defs Let_def rbind_eq_Inr split: if_splits option.splits)

lemma rule_throws: "rule c ctx = Inl e \<Longrightarrow> e = ArithmeticOverflow \<and> c \<in> {HighValue, BehaviourDeviation}"
  by (cases c)
    (auto simp: rule_defs Let_def rbind_eq_Inl checked32_def checked_decimal_def split: if_splits option.splits)

lemma quot32_le: "x \<le> int_max \<Longrightarrow> quot32 x 2 \<le> int_max"
  by (simp add: quot32_def int_max_def) linarith

lemma wrap32_le: "wrap32 x \<le> int_max"
  using wrap32_i32 [of x] by (simp add: is_i32_def)

lemma rule_range: "rule c ctx = Inr r \<Longrightarrow> is_i32 (rpScore (ParametersFor ctx (code c))) \<Longrightarrow> resScore r \<le> int_max"
  using quot32_le [of "rpScore (ParametersFor ctx (code c))"]
  by (cases c)
    (auto simp: rule_defs Let_def rbind_eq_Inr checked32_Inr_iff is_i32_def split: if_splits option.splits;
     simp add: int_max_def)+

interpretation rr: risk_rule "rule c" "code c" for c
  using rule_silent rule_nonneg rule_range rule_throws by unfold_locales blast+

section \<open>When decimal arithmetic stays in range\<close>

text \<open>
  Amounts are whole numbers of minor units below ten quadrillion, as the amount columns of the
  database hold them; the configured threshold and multiplier are within generous limits.
\<close>

definition decimals_in_range :: "RiskContext \<Rightarrow> bool" where
  "decimals_in_range ctx \<longleftrightarrow>
     \<bar>GetDecimal (ParametersFor ctx (code HighValue)) ''threshold'' 3000\<bar> \<le> 10 ^ 28 \<and>
     \<bar>GetDecimal (ParametersFor ctx (code BehaviourDeviation)) ''multiplier'' 8\<bar> \<le> 10 ^ 12 \<and>
     \<bar>mAmount (txAmount (ctxTransaction ctx))\<bar> \<le> 10 ^ 16 \<and>
     (\<forall>m \<in> {prfMedianTransactionAmount (ctxProfile ctx), prfAverageTransactionAmount (ctxProfile ctx)}.
        mAmount m * 100 \<in> \<int> \<and> mAmount m \<le> 10 ^ 16)"

lemma minor_unit_least: "x * 100 \<in> \<int> \<Longrightarrow> 0 < (x :: rat) \<Longrightarrow> 1 / 100 \<le> x"
proof -
  assume "x * 100 \<in> \<int>" and pos: "0 < x"
  then obtain n where n: "x * 100 = of_int n" by (auto simp: Ints_def)
  then have "0 < (of_int n :: rat)" using pos by simp
  then have "1 \<le> n" by simp
  then have "1 \<le> (of_int n :: rat)" by (simp only: of_int_1_le_iff)
  then show ?thesis using n by simp
qed

lemma behaviour_returns:
  assumes "decimals_in_range ctx"
  shows "\<exists>r. BehaviourDeviationRule ctx = Inr r"
proof -
  let ?m = "GetDecimal (ParametersFor ctx (code BehaviourDeviation)) ''multiplier'' 8"
  let ?a = "mAmount (txAmount (ctxTransaction ctx))"
  have "\<bar>b * ?m\<bar> \<le> 10 ^ 28 * 2 \<and> \<bar>?a / b\<bar> \<le> 10 ^ 28 * 2" if b: "0 < b" "b \<le> 10 ^ 16" "b * 100 \<in> \<int>" for b :: rat
  proof
    have "\<bar>b * ?m\<bar> \<le> 10 ^ 16 * 10 ^ 12"
      unfolding abs_mult using assms b by (intro mult_mono) (simp_all add: decimals_in_range_def)
    then show "\<bar>b * ?m\<bar> \<le> 10 ^ 28 * 2" by simp
    have "\<bar>?a\<bar> / b \<le> 10 ^ 16 / (1 / 100)"
      using assms minor_unit_least[OF b(3,1)] b(1) by (intro frac_le) (simp_all add: decimals_in_range_def)
    moreover have "\<bar>?a / b\<bar> = \<bar>?a\<bar> / b" using b(1) by simp
    ultimately show "\<bar>?a / b\<bar> \<le> 10 ^ 28 * 2" by (simp only:) simp
  qed
  from this [THEN conjunct1, THEN checked_decimal_in_range] this [THEN conjunct2, THEN checked_decimal_in_range]
  show ?thesis using assms by (auto simp: BehaviourDeviationRule_def Let_def decimals_in_range_def simp del: code.simps)
qed

lemma threshold_doubles:
  assumes "decimals_in_range ctx"
  shows "checked_decimal (GetDecimal (ParametersFor ctx (code HighValue)) ''threshold'' 3000 * 2)
    = Inr (GetDecimal (ParametersFor ctx (code HighValue)) ''threshold'' 3000 * 2)"
  by (rule checked_decimal_in_range) (use assms in \<open>simp add: decimals_in_range_def abs_mult\<close>)

text \<open>A threshold in the upper half of the range of \<open>decimal\<close> makes the rule throw once an amount reaches it.\<close>

lemma huge_threshold_throws:
  assumes "2 ^ 95 \<le> GetDecimal (ParametersFor ctx (code HighValue)) ''threshold'' 3000"
    and "GetDecimal (ParametersFor ctx (code HighValue)) ''threshold'' 3000 \<le> mAmount (txAmount (ctxTransaction ctx))"
  shows "rule HighValue ctx = Inl ArithmeticOverflow"
  using assms by (simp add: HighValueRule_def Let_def checked_decimal_def del: code.simps)

section \<open>The rules decide what they are meant to\<close>

lemma high_value_iff:
  assumes "HighValueRule ctx = Inr r"
  shows "resTriggered r \<longleftrightarrow>
    GetDecimal (ParametersFor ctx (code HighValue)) ''threshold'' 3000 \<le> mAmount (txAmount (ctxTransaction ctx))"
  using assms by (auto simp: HighValueRule_def Let_def rbind_eq_Inr not_less split: if_splits)

text \<open>The circular distance of two hours of the day.\<close>

definition hour_gap :: "int \<Rightarrow> int \<Rightarrow> int" where
  "hour_gap a b = min ((a - b) mod 24) ((b - a) mod 24)"

lemma hour_gap_le_1:
  assumes "0 \<le> a" "a < 24" "0 \<le> b" "b < 24"
  shows "hour_gap a b \<le> 1 \<longleftrightarrow> b = a \<or> b = (a + 23) mod 24 \<or> b = (a + 1) mod 24"
proof -
  have m: "(x - y) mod 24 = (if y \<le> x then x - y else x - y + 24)"
    if "0 \<le> x" "x < 24" "0 \<le> y" "y < 24" for x y :: int
    using that mod_add_self2 [of "x - y" 24] mod_pos_pos_trivial [of "x - y + 24" 24] by auto
  have "(a + 23) mod 24 = (if a = 0 then 23 else a - 1)"
    using m [of a 1] assms mod_add_self2 [of "a - 1" 24] by (auto simp: add.commute)
  moreover have "(a + 1) mod 24 = (if a = 23 then 0 else a + 1)"
    using assms by (auto intro: mod_pos_pos_trivial)
  ultimately show ?thesis unfolding hour_gap_def using assms by (auto simp: m)
qed

lemma first_latest_None [simp]: "first_latest ts = None \<longleftrightarrow> ts = []"
  by (cases ts) (auto split: option.splits)

lemma first_latest_max:
  "first_latest ts = Some u \<Longrightarrow> u \<in> set ts \<and> (\<forall>t \<in> set ts. hisTimestamp t \<le> hisTimestamp u)"
  by (induction ts arbitrary: u) (auto split: option.splits if_splits)

end
