(* ===== verification/RiskEngine.thy ===== *)
theory RiskEngine
  imports RiskRules
begin

text \<open>
  The scoring of \<open>DecisionPolicy.cs\<close> and \<open>RiskEngine.cs\<close>: thresholds, the default catalogue, the
  engine that runs the rules, the contribution of a model and the capped score.
\<close>

section \<open>Decision policy\<close>

definition MaxScore :: int where
  "MaxScore = 100"

definition LevelFor :: "int \<Rightarrow> RiskLevel" where
  "LevelFor score = (if score \<le> 29 then Low else if score \<le> 59 then Medium else if score \<le> 79 then High else Critical)"

definition DecideMedium :: "RiskRuleResult list \<Rightarrow> RiskDecision" where
  "DecideMedium triggeredRules =
     (let codes = set (map resRuleCode triggeredRules)
      in if code ImpossibleTravel \<in> codes \<or> code RepeatedDecline \<in> codes \<or> code HighVelocity \<in> codes
         then Review else Approve)"

primrec Decide :: "RiskLevel \<Rightarrow> RiskRuleResult list \<Rightarrow> RiskDecision" where
  "Decide Low rs = Approve"
| "Decide Medium rs = DecideMedium rs"
| "Decide High rs = Review"
| "Decide Critical rs = Block"

definition Cap :: "int \<Rightarrow> int" where
  "Cap rawScore = max 0 (min rawScore MaxScore)"

section \<open>Default catalogue\<close>

record RuleDefinition =
  defCode :: RuleCode
  defEnabled :: bool
  defScore :: int
  defParameters :: "(string \<times> string) list"

definition rule_def :: "RuleCode \<Rightarrow> int \<Rightarrow> (string \<times> string) list \<Rightarrow> RuleDefinition" where
  "rule_def c s ps = \<lparr>defCode = c, defEnabled = True, defScore = s, defParameters = ps\<rparr>"

definition InitialVersion :: string where
  "InitialVersion = ''ruleset-1.0.0''"

definition Defaults :: "RuleDefinition list" where
  "Defaults =
    [rule_def HighValue 20 [(''threshold'', ''3000'')],
     rule_def HighVelocity 30 [(''fiveMinuteCount'', ''5''), (''oneMinuteCount'', ''3'')],
     rule_def ForeignCountry 20 [],
     rule_def UnknownDevice 15 [],
     rule_def CardNotPresent 10 [],
     rule_def ImpossibleTravel 40 [(''maxSpeedKmh'', ''900''), (''bufferMinutes'', ''30'')],
     rule_def MerchantRisk 15 [],
     rule_def UnusualTime 10 [],
     rule_def NewAccount 15 [(''days'', ''14'')],
     rule_def BehaviourDeviation 15 [(''multiplier'', ''8'')],
     rule_def RapidCountryChange 20 [(''distinctCountries'', ''2'')],
     rule_def RepeatedDecline 20 [(''failures'', ''3'')],
     rule_def RoundAmount 8 [(''minimumAmount'', ''1000'')]]"

definition to_parameter_set :: "RuleDefinition \<Rightarrow> string \<times> RuleParameterSet" where
  "to_parameter_set d =
     (code (defCode d), \<lparr>rpRuleCode = code (defCode d), rpEnabled = defEnabled d, rpScore = defScore d,
                         rpParameters = defParameters d\<rparr>)"

section \<open>Engine\<close>

record ModelRiskResult =
  mdlScore :: int
  mdlConfidence :: dbl
  mdlModelVersion :: string
  mdlReason :: "string option"

definition Model_None :: "string \<Rightarrow> ModelRiskResult" where
  "Model_None version = \<lparr>mdlScore = 0, mdlConfidence = Finite 0, mdlModelVersion = version, mdlReason = None\<rparr>"

definition NoOpRiskModel :: "RiskContext \<Rightarrow> exn + ModelRiskResult" where
  "NoOpRiskModel ctx = Inr (Model_None ''noop-1.0.0'')"

definition dbl_less :: "dbl \<Rightarrow> rat \<Rightarrow> bool" where
  "dbl_less d r = (case d of Finite x \<Rightarrow> x < r | PosInf \<Rightarrow> False | NegInf \<Rightarrow> True | NaN \<Rightarrow> False)"

text \<open>\<open>0.15\<close> is taken as the decimal it is written as.\<close>

definition Combine :: "int \<Rightarrow> ModelRiskResult \<Rightarrow> int" where
  "Combine deterministicScore m =
     (if dbl_less (mdlConfidence m) (6 / 10) \<or> mdlScore m \<le> 0 then deterministicScore
      else wrap32 (deterministicScore + min 15 (round_even (of_int (mdlScore m) * (15 / 100)))))"

record RiskEvaluation =
  evlRawScore :: int
  evlRiskScore :: int
  evlRiskLevel :: RiskLevel
  evlDecision :: RiskDecision
  evlTriggeredRules :: "RiskRuleResult list"
  evlReasons :: "ftext list"
  evlEvidence :: evidence
  evlProcessingTimeMs :: int
  evlModelVersion :: string
  evlRulesetVersion :: string
  evlEvaluatedAt :: instant

text \<open>Setting a key of a dictionary: in place when it is there, at the end otherwise.\<close>

fun dict_set :: "'k \<Rightarrow> 'v \<Rightarrow> ('k \<times> 'v) list \<Rightarrow> ('k \<times> 'v) list" where
  "dict_set k v [] = [(k, v)]"
| "dict_set k v ((k', v') # xs) = (if k = k' then (k, v) # xs else (k', v') # dict_set k v xs)"

type_synonym engine_rule = "string \<times> (RiskContext \<Rightarrow> exn + RiskRuleResult)"

fun run_rules :: "engine_rule list \<Rightarrow> RiskContext \<Rightarrow> RiskRuleResult list \<Rightarrow> exn + RiskRuleResult list" where
  "run_rules [] ctx results = Inr results"
| "run_rules ((c, ev) # rules) ctx results =
     (if \<not> rpEnabled (ParametersFor ctx c) then run_rules rules ctx results
      else rbind (ev ctx) (\<lambda>r.
        run_rules rules ctx (if resTriggered r then results @ [r] else results)))"

text \<open>\<open>Enumerable.Sum\<close> adds in a checked context.\<close>

fun checked_sum :: "int \<Rightarrow> int list \<Rightarrow> exn + int" where
  "checked_sum acc [] = Inr acc"
| "checked_sum acc (x # xs) = rbind (checked32 (acc + x)) (\<lambda>a. checked_sum a xs)"

definition collect_evidence :: "RiskRuleResult list \<Rightarrow> ModelRiskResult \<Rightarrow> evidence" where
  "collect_evidence results m =
     (let e = fold (\<lambda>r ev. fold (\<lambda>(k, v). dict_set (resRuleCode r @ ''.'' @ k) v) (resEvidence r) ev) results []
      in if mdlScore m > 0 then
           dict_set ''model.confidence''
             [case mdlConfidence m of Finite x \<Rightarrow> PDec 2 x | PosInf \<Rightarrow> Lit ''Infinity'' | NegInf \<Rightarrow> Lit ''-Infinity'' | NaN \<Rightarrow> Lit ''NaN'']
             (dict_set ''model.score'' [PInt (mdlScore m)] e)
         else e)"

definition evaluation ::
  "RiskRuleResult list \<Rightarrow> int \<Rightarrow> ModelRiskResult \<Rightarrow> int \<Rightarrow>
   (RiskLevel \<Rightarrow> RiskRuleResult list \<Rightarrow> RiskDecision) \<Rightarrow> RiskContext \<Rightarrow> RiskEvaluation" where
  "evaluation results raw m elapsedMs policy ctx =
     (let combined = Combine raw m;
          capped = Cap combined;
          level = LevelFor capped;
          decision = policy level results
      in \<lparr>evlRawScore = raw, evlRiskScore = capped, evlRiskLevel = level, evlDecision = decision,
          evlTriggeredRules = results, evlReasons = map resReason results,
          evlEvidence = collect_evidence results m, evlProcessingTimeMs = elapsedMs,
          evlModelVersion = mdlModelVersion m, evlRulesetVersion = ctxRulesetVersion ctx,
          evlEvaluatedAt = ctxEvaluatedAt ctx\<rparr>)"

definition EvaluateAsync ::
  "engine_rule list \<Rightarrow> (RiskLevel \<Rightarrow> RiskRuleResult list \<Rightarrow> RiskDecision) \<Rightarrow>
   (RiskContext \<Rightarrow> exn + ModelRiskResult) \<Rightarrow> int \<Rightarrow> RiskContext \<Rightarrow> exn + RiskEvaluation" where
  "EvaluateAsync rules policy model elapsedMs ctx =
     rbind (run_rules rules ctx []) (\<lambda>results.
     rbind (checked_sum 0 (map resScore results)) (\<lambda>raw.
     rbind (model ctx) (\<lambda>m.
     Inr (evaluation results raw m elapsedMs policy ctx))))"

text \<open>The engine as the services register it: every rule and the threshold policy.\<close>

definition engine_rules :: "engine_rule list" where
  "engine_rules = map (\<lambda>c. (code c, rule c)) AllRuleCodes"

definition risk_engine :: "(RiskContext \<Rightarrow> exn + ModelRiskResult) \<Rightarrow> int \<Rightarrow> RiskContext \<Rightarrow> exn + RiskEvaluation" where
  "risk_engine model elapsedMs = EvaluateAsync engine_rules Decide model elapsedMs"

section \<open>Scores, levels and decisions\<close>

lemma LevelFor_mono: "a \<le> b \<Longrightarrow> LevelFor a \<le> LevelFor b"
  by (auto simp: LevelFor_def enum_order)

lemma Cap_bounds: "0 \<le> Cap x" "Cap x \<le> 100"
  by (simp_all add: Cap_def MaxScore_def)

lemma Cap_mono: "a \<le> b \<Longrightarrow> Cap a \<le> Cap b"
  by (auto simp: Cap_def)

lemma Cap_id: "0 \<le> x \<Longrightarrow> x \<le> 100 \<Longrightarrow> Cap x = x"
  by (simp add: Cap_def MaxScore_def)

lemma Decide_mono: "a \<le> b \<Longrightarrow> Decide a rs \<le> Decide b rs"
  by (cases a; cases b) (auto simp: enum_order DecideMedium_def Let_def)

lemma DecideMedium_mono: "set rs \<subseteq> set rs' \<Longrightarrow> DecideMedium rs \<le> DecideMedium rs'"
  by (auto simp: enum_order DecideMedium_def Let_def)

lemma Decide_mono_rules:
  assumes "a \<le> b" and "set rs \<subseteq> set rs'"
  shows "Decide a rs \<le> Decide b rs'"
proof -
  have "Decide b rs \<le> Decide b rs'" using DecideMedium_mono [OF assms(2)] by (cases b) simp_all
  with Decide_mono [OF assms(1)] show ?thesis by (rule order_trans)
qed

lemma Decide_Block_iff: "Decide (LevelFor s) rs = Block \<longleftrightarrow> 80 \<le> s"
  by (auto simp: LevelFor_def DecideMedium_def Let_def)

lemma Decide_Approve_iff:
  "Decide (LevelFor s) rs = Approve \<longleftrightarrow>
     s \<le> 29 \<or> s \<le> 59 \<and> (\<forall>r \<in> set rs. resRuleCode r \<notin> {code ImpossibleTravel, code RepeatedDecline, code HighVelocity})"
  by (auto simp: LevelFor_def DecideMedium_def Let_def image_iff simp del: code.simps)

lemma round_even_mono_nonneg: "0 \<le> x \<Longrightarrow> 0 \<le> round_even x"
  by (auto simp: round_even_def Let_def)

lemma contribution_bounds:
  assumes "0 < s"
  shows "0 \<le> min 15 (round_even (of_int s * (15 / 100)))" "min 15 (round_even (of_int s * (15 / 100))) \<le> 15"
  using assms round_even_mono_nonneg [of "of_int s * (15 / 100)"] by simp_all

text \<open>The documented bound of the model's share, when the sum does not leave \<open>int\<close>.\<close>

lemma Combine_bounds:
  assumes "0 \<le> raw" and "raw \<le> int_max - 15"
  shows "raw \<le> Combine raw m \<and> Combine raw m \<le> raw + 15"
proof (cases "dbl_less (mdlConfidence m) (6 / 10) \<or> mdlScore m \<le> 0")
  case True
  then show ?thesis by (auto simp: Combine_def)
next
  case False
  then have "0 < mdlScore m" by simp
  note b = contribution_bounds [OF this]
  let ?c = "min 15 (round_even (of_int (mdlScore m) * (15 / 100)))"
  have "wrap32 (raw + ?c) = raw + ?c"
    using assms b by (intro wrap32_small) (auto simp: int_max_def)
  then show ?thesis using False b by (simp add: Combine_def)
qed

lemma Combine_mono:
  assumes "raw' \<le> raw" and "0 \<le> raw'" and "raw \<le> int_max - 15"
  shows "Combine raw' m \<le> Combine raw m"
proof (cases "dbl_less (mdlConfidence m) (6 / 10) \<or> mdlScore m \<le> 0")
  case True
  then show ?thesis using assms by (auto simp: Combine_def)
next
  case False
  then have "0 < mdlScore m" by simp
  note b = contribution_bounds [OF this]
  let ?c = "min 15 (round_even (of_int (mdlScore m) * (15 / 100)))"
  have "wrap32 (x + ?c) = x + ?c" if "0 \<le> x" "x \<le> raw" for x
    using assms b that by (intro wrap32_small) (auto simp: int_max_def)
  from this [of raw] this [of raw'] show ?thesis using False assms by (simp add: Combine_def)
qed

section \<open>The loop over the rules\<close>

lemma checked_sum_Inr:
  "checked_sum acc xs = Inr t \<Longrightarrow> t = acc + sum_list xs \<and> (xs \<noteq> [] \<longrightarrow> is_i32 t)"
proof (induction xs arbitrary: acc)
  case Nil
  then show ?case by simp
next
  case (Cons x xs)
  then have x: "is_i32 (acc + x)" and rest: "checked_sum (acc + x) xs = Inr t"
    by (auto simp: rbind_eq_Inr checked32_Inr_iff)
  from x Cons.IH [OF rest] rest show ?case by (cases xs) auto
qed

lemma checked_sum_total:
  assumes "\<And>x. x \<in> set xs \<Longrightarrow> 0 \<le> x" and "0 \<le> acc" and "acc + sum_list xs \<le> int_max"
  shows "checked_sum acc xs = Inr (acc + sum_list xs)"
  using assms
proof (induction xs arbitrary: acc)
  case Nil
  then show ?case by simp
next
  case (Cons x xs)
  have "0 \<le> sum_list xs" using Cons.prems(1) by (intro sum_list_nonneg) auto
  then have "checked32 (acc + x) = Inr (acc + x)"
    using Cons.prems(1) [of x] Cons.prems(2,3) by (simp add: checked32_def is_i32_def int_min_def)
  then show ?case using Cons by (simp add: add.assoc)
qed

lemma EvaluateAsync_Inr:
  assumes "EvaluateAsync rules policy model ms ctx = Inr e"
  shows "\<exists>rs raw m. run_rules rules ctx [] = Inr rs \<and> checked_sum 0 (map resScore rs) = Inr raw \<and>
           model ctx = Inr m \<and> e = evaluation rs raw m ms policy ctx"
  using assms by (auto simp: EvaluateAsync_def rbind_eq_Inr)

text \<open>What the rules of a list that are enabled return, in order.\<close>

definition enabled :: "RiskContext \<Rightarrow> engine_rule list \<Rightarrow> engine_rule list" where
  "enabled ctx rules = filter (\<lambda>(c, ev). rpEnabled (ParametersFor ctx c)) rules"

lemma run_rules_rmap:
  "run_rules rules ctx acc =
     rbind (rmap (\<lambda>(c, ev). ev ctx) (enabled ctx rules)) (\<lambda>rs. Inr (acc @ filter resTriggered rs))"
proof (induction rules arbitrary: acc)
  case Nil
  then show ?case by (simp add: enabled_def)
next
  case (Cons a rules)
  obtain c ev where a: "a = (c, ev)" by (cases a)
  show ?case
  proof (cases "ev ctx")
    case (Inl e)
    then show ?thesis using Cons by (simp add: a enabled_def)
  next
    case (Inr r)
    then show ?thesis
      using Cons by (cases "rmap (\<lambda>(c, ev). ev ctx) (enabled ctx rules)") (simp_all add: a enabled_def)
  qed
qed

lemma run_rules_filter:
  assumes "run_rules rules ctx [] = Inr rs" and "run_rules (filter P rules) ctx [] = Inr rs'"
  shows "subseq rs' rs"
proof -
  let ?f = "\<lambda>(c, ev). ev ctx"
  obtain all where all: "rmap ?f (enabled ctx rules) = Inr all" and rs: "rs = filter resTriggered all"
    using assms(1) by (auto simp: run_rules_rmap rbind_eq_Inr)
  have "enabled ctx (filter P rules) = filter P (enabled ctx rules)"
    by (auto simp: enabled_def conj_commute)
  then obtain sub where "rmap ?f (enabled ctx (filter P rules)) = Inr sub" and "subseq sub all"
    using rmap_filter [OF all, of P] by auto
  then show ?thesis using assms(2) rs by (auto simp: run_rules_rmap intro: subseq_filter)
qed

locale rule_set =
  fixes rules :: "engine_rule list"
  assumes members: "(c, ev) \<in> set rules \<Longrightarrow> risk_rule ev c"
begin

lemma member_of_result:
  assumes "run_rules rules ctx [] = Inr rs" and "r \<in> set rs"
  shows "\<exists>c ev. (c, ev) \<in> set rules \<and> rpEnabled (ParametersFor ctx c) \<and> ev ctx = Inr r \<and> resTriggered r"
proof -
  obtain all where all: "rmap (\<lambda>(c, ev). ev ctx) (enabled ctx rules) = Inr all" and rs: "rs = filter resTriggered all"
    using assms(1) by (auto simp: run_rules_rmap rbind_eq_Inr)
  from assms(2) rs have "r \<in> set all" by simp
  from rmap_mem [OF all this] obtain c ev where "(c, ev) \<in> set (enabled ctx rules)" and "ev ctx = Inr r"
    by auto
  with assms(2) rs show ?thesis by (auto simp: enabled_def)
qed

lemma scores_nonneg:
  assumes "run_rules rules ctx [] = Inr rs"
  shows "r \<in> set rs \<Longrightarrow> 0 \<le> resScore r"
  using member_of_result [OF assms, of r] members risk_rule.nonneg by blast

lemma evaluation_shape:
  assumes "EvaluateAsync rules policy model ms ctx = Inr e"
  shows "run_rules rules ctx [] = Inr (evlTriggeredRules e)"
    and "evlRawScore e = sum_list (map resScore (evlTriggeredRules e))"
    and "0 \<le> evlRawScore e"
    and "evlRiskLevel e = LevelFor (evlRiskScore e)"
    and "evlDecision e = policy (evlRiskLevel e) (evlTriggeredRules e)"
    and "\<exists>m. model ctx = Inr m \<and> evlRiskScore e = Cap (Combine (evlRawScore e) m) \<and>
             evlModelVersion e = mdlModelVersion m"
    and "evlRulesetVersion e = ctxRulesetVersion ctx"
    and "evlReasons e = map resReason (evlTriggeredRules e)"
proof -
  obtain rs raw m where r: "run_rules rules ctx [] = Inr rs" and sum: "checked_sum 0 (map resScore rs) = Inr raw"
      and m: "model ctx = Inr m" and e: "e = evaluation rs raw m ms policy ctx"
    using EvaluateAsync_Inr [OF assms] by (elim exE conjE) (rule that)
  have "raw = sum_list (map resScore rs)" using checked_sum_Inr [OF sum] by simp
  moreover have "0 \<le> sum_list (map resScore rs)" by (rule sum_list_nonneg) (auto dest: scores_nonneg [OF r])
  ultimately show "run_rules rules ctx [] = Inr (evlTriggeredRules e)"
    "evlRawScore e = sum_list (map resScore (evlTriggeredRules e))" "0 \<le> evlRawScore e"
    "evlRiskLevel e = LevelFor (evlRiskScore e)" "evlDecision e = policy (evlRiskLevel e) (evlTriggeredRules e)"
    "\<exists>m. model ctx = Inr m \<and> evlRiskScore e = Cap (Combine (evlRawScore e) m) \<and> evlModelVersion e = mdlModelVersion m"
    "evlRulesetVersion e = ctxRulesetVersion ctx" "evlReasons e = map resReason (evlTriggeredRules e)"
    using r m by (simp_all add: e evaluation_def Let_def)
qed

lemma evaluation_total:
  assumes range: "\<And>c ev. (c, ev) \<in> set rules \<Longrightarrow> \<exists>r. ev ctx = Inr r \<and> resScore r \<le> bound"
    and small: "int (length rules) * bound \<le> int_max" and bound: "0 \<le> bound" and m: "model ctx = Inr m"
  shows "\<exists>e. EvaluateAsync rules policy model ms ctx = Inr e \<and> evlRawScore e \<le> int (length rules) * bound"
proof -
  have "\<exists>all. rmap (\<lambda>(c, ev). ev ctx) (enabled ctx rules) = Inr all"
    using range by (intro rmap_total) (fastforce simp: enabled_def)
  then obtain all where all: "rmap (\<lambda>(c, ev). ev ctx) (enabled ctx rules) = Inr all" by blast
  have "list_all (\<lambda>r. resScore r \<le> bound) all \<and> length all = length (enabled ctx rules)"
    using range by (intro rmap_all [OF all]) (fastforce simp: enabled_def)
  then have le: "\<And>r. r \<in> set all \<Longrightarrow> resScore r \<le> bound" and len: "length all \<le> length rules"
    by (auto simp: list_all_iff enabled_def)
  let ?rs = "filter resTriggered all"
  have rs: "run_rules rules ctx [] = Inr ?rs" by (simp add: run_rules_rmap all)
  have "sum_list (map resScore ?rs) \<le> int (length ?rs) * bound"
    using sum_list_le_bound [of "map resScore ?rs" bound] le by auto
  also have "\<dots> \<le> int (length rules) * bound"
    using bound len length_filter_le [of resTriggered all] by (intro mult_right_mono) linarith+
  finally have le: "sum_list (map resScore ?rs) \<le> int (length rules) * bound" .
  then have "checked_sum 0 (map resScore ?rs) = Inr (0 + sum_list (map resScore ?rs))"
    using small scores_nonneg [OF rs] by (intro checked_sum_total) auto
  with le show ?thesis by (simp add: EvaluateAsync_def rs m evaluation_def Let_def)
qed

end

interpretation sentinel: rule_set engine_rules
proof (rule rule_set.intro)
  fix c ev
  assume "(c, ev) \<in> set engine_rules"
  then show "risk_rule ev c" using rr.risk_rule_axioms by (auto simp: engine_rules_def)
qed

section \<open>Properties of the engine\<close>

text \<open>The parameters of a fresh database, and a context that several witnesses evaluate.\<close>

definition default_parameters :: "(string \<times> RuleParameterSet) list" where
  "default_parameters = map to_parameter_set Defaults"

definition example_money :: Money where
  "example_money = \<lparr>mAmount = 7000, mCurrency = ''GBP''\<rparr>"

definition example_transaction :: TransactionSnapshot where
  "example_transaction = \<lparr>txTransactionId = ''T1'', txAccountId = ''A1'', txCustomerId = ''C1'',
     txAmount = example_money, txMerchantId = ''M1'', txMerchantCategory = Crypto, txCountry = ''US'',
     txCity = None, txTimestamp = hours 3, txCardPresent = False, txChannel = WEB, txDeviceId = None,
     txIpAddress = None, txCorrelationId = ''k''\<rparr>"

definition example_velocity :: VelocitySnapshot where
  "example_velocity = \<lparr>velTransactionsLast1Minute = 1, velTransactionsLast5Minutes = 1, velTransactionsLast1Hour = 1,
     velSpendLast5Minutes = example_money, velSpendLast1Hour = example_money, velSpendLast24Hours = example_money,
     velDistinctMerchantsLast10Minutes = 1, velDistinctCountriesLast30Minutes = 1,
     velFailedTransactionsLast15Minutes = 0\<rparr>"

definition example_profile :: CustomerBehaviourProfile where
  "example_profile = \<lparr>prfAccountId = ''A1'', prfCustomerId = ''C1'', prfHomeCountry = ''GB'',
     prfAverageTransactionAmount = example_money, prfMedianTransactionAmount = example_money,
     prfAverageDailySpend = example_money, prfCommonCountries = [], prfCommonMerchants = [],
     prfCommonCategories = [], prfCommonDevices = [], prfTypicalHoursUtc = [],
     prfTransactionsPerDay = 1, prfAccountOpenedAt = 0, prfLifetimeTransactionCount = 0\<rparr>"

definition example_context :: RiskContext where
  "example_context = \<lparr>ctxTransaction = example_transaction, ctxProfile = example_profile,
     ctxVelocity = example_velocity, ctxKnownDevices = [], ctxRecentTransactions = [],
     ctxRuleParameters = default_parameters, ctxRulesetVersion = InitialVersion, ctxEvaluatedAt = hours 3\<rparr>"

lemmas example_defs = example_context_def example_profile_def example_velocity_def example_transaction_def
  example_money_def default_parameters_def Defaults_def to_parameter_set_def rule_def_def InitialVersion_def

text \<open>A fresh database gives every rule its catalogue entry.\<close>

primrec default_of :: "RuleCode \<Rightarrow> RuleDefinition" where
  "default_of HighValue = rule_def HighValue 20 [(''threshold'', ''3000'')]"
| "default_of HighVelocity = rule_def HighVelocity 30 [(''fiveMinuteCount'', ''5''), (''oneMinuteCount'', ''3'')]"
| "default_of ForeignCountry = rule_def ForeignCountry 20 []"
| "default_of UnknownDevice = rule_def UnknownDevice 15 []"
| "default_of CardNotPresent = rule_def CardNotPresent 10 []"
| "default_of ImpossibleTravel = rule_def ImpossibleTravel 40 [(''maxSpeedKmh'', ''900''), (''bufferMinutes'', ''30'')]"
| "default_of MerchantRisk = rule_def MerchantRisk 15 []"
| "default_of UnusualTime = rule_def UnusualTime 10 []"
| "default_of NewAccount = rule_def NewAccount 15 [(''days'', ''14'')]"
| "default_of BehaviourDeviation = rule_def BehaviourDeviation 15 [(''multiplier'', ''8'')]"
| "default_of RapidCountryChange = rule_def RapidCountryChange 20 [(''distinctCountries'', ''2'')]"
| "default_of RepeatedDecline = rule_def RepeatedDecline 20 [(''failures'', ''3'')]"
| "default_of RoundAmount = rule_def RoundAmount 8 [(''minimumAmount'', ''1000'')]"

lemma Defaults_map: "Defaults = map default_of AllRuleCodes"
  by (simp add: Defaults_def AllRuleCodes_def)

lemma default_of_sel [simp]: "defCode (default_of c) = c" "defEnabled (default_of c)"
  by (cases c; simp add: rule_def_def)+

lemma default_parameters_of:
  assumes "ctxRuleParameters ctx = default_parameters"
  shows "ParametersFor ctx (code c) = snd (to_parameter_set (default_of c))"
proof -
  have m: "map_of (map (\<lambda>c. (code c, snd (to_parameter_set (default_of c)))) cs) (code c)
      = (if c \<in> set cs then Some (snd (to_parameter_set (default_of c))) else None)" for cs
    by (induction cs) (auto simp: code_inj)
  have d: "default_parameters = map (\<lambda>c. (code c, snd (to_parameter_set (default_of c)))) AllRuleCodes"
    by (simp add: default_parameters_def Defaults_map to_parameter_set_def)
  have "map_of default_parameters (code c) = Some (snd (to_parameter_set (default_of c)))"
    unfolding d m by (simp add: AllRuleCodes_complete)
  with assms show ?thesis by (simp add: ParametersFor_def)
qed

lemma digit_chars [simp]:
  "digit_of CHR ''0'' = Some 0" "digit_of CHR ''1'' = Some 1" "digit_of CHR ''2'' = Some 2" "digit_of CHR ''3'' = Some 3"
  "digit_of CHR ''4'' = Some 4" "digit_of CHR ''5'' = Some 5" "digit_of CHR ''8'' = Some 8" "digit_of CHR ''9'' = Some 9"
  by (simp_all add: digit_of_def)

lemma dbl_max_bounds: "900 \<le> dbl_max" "- dbl_max \<le> 900"
  by (simp_all add: dbl_max_def)

lemmas parse_defs = TryParse_decimal_def TryParse_int_def TryParse_double_def scan_number_def scan_sign_def
  scan_exponent_def scale10_def is_num_white_def Trim_def is_i32_iff

lemma parsed_defaults:
  "TryParse_decimal ''3000'' = Some 3000" "TryParse_decimal ''8'' = Some 8" "TryParse_decimal ''1000'' = Some 1000"
  "TryParse_int ''5'' = Some 5" "TryParse_int ''3'' = Some 3" "TryParse_int ''14'' = Some 14" "TryParse_int ''2'' = Some 2"
  "TryParse_double ''900'' = Some (Finite 900)"
  using dbl_max_bounds by (simp_all add: parse_defs)

lemma hour_of_hours [simp]: "hour_of (hours h) = h mod 24"
  by (simp add: hour_of_def hours_def ticks_per_hour_def)

lemma equals_ignore_case_GB_US [simp]: "\<not> equals_ignore_case ''GB'' ''US''"
  by (simp add: equals_ignore_case_def ToUpperInvariant_def upper_char_def)

lemma round_away_numeral [simp]: "round_away (numeral k) = numeral k"
  using round_away_of_int [of "numeral k"] by simp

lemmas default_simps = default_parameters_of to_parameter_set_def rule_def_def parsed_defaults GetDecimal_def GetInt_def
  GetDouble_def

lemma example_rules:
  "\<exists>r. rule c example_context = Inr r \<and> resTriggered r = (c \<in> {HighValue, ForeignCountry, UnknownDevice,
     CardNotPresent, MerchantRisk, UnusualTime, NewAccount, RoundAmount}) \<and> resRuleCode r = code c \<and>
     resScore r = (if c \<in> {HighValue, ForeignCountry, UnknownDevice,
     CardNotPresent, MerchantRisk, UnusualTime, NewAccount, RoundAmount} then
       (if c = HighValue then 30 else defScore (default_of c)) else 0)"
proof -
  have p: "ParametersFor example_context (code c) = snd (to_parameter_set (default_of c))" for c
    by (rule default_parameters_of) (simp add: example_context_def)
  show ?thesis
   by (cases c; simp add: rule_defs Let_def p del: code.simps;
      simp add: default_simps example_context_def example_transaction_def example_profile_def example_velocity_def
        example_money_def RequiresPhysicalPresence_def IsNullOrWhiteSpace_def checked32_def is_i32_iff checked_decimal_def
        contains_ignore_case_def hours_def days_def ticks_per_hour_def hour_of_def)
qed

lemma round_away_scale:
  assumes "- 100000000 \<le> s" and "s \<le> 100000000" and "i = 1 \<or> i = (3 / 2 :: rat)"
  shows "- 150000000 \<le> round_away (of_int s * i)" and "round_away (of_int s * i) \<le> 150000000"
proof -
  have b: "- 100000000 \<le> (of_int s :: rat)" "(of_int s :: rat) \<le> 100000000"
    using assms(1,2) by (simp_all flip: of_int_le_iff)
  have "of_int (- 150000000) \<le> of_int s * i \<and> of_int s * i \<le> of_int 150000000"
    using assms(3)
  proof
    assume "i = 1"
    with b show ?thesis by simp
  next
    assume i: "i = 3 / 2"
    show ?thesis unfolding i using b by simp
  qed
  then show "- 150000000 \<le> round_away (of_int s * i)" and "round_away (of_int s * i) \<le> 150000000"
    by (metis round_away_mono round_away_of_int)+
qed

lemma quot32_half_le: "x \<le> b \<Longrightarrow> 0 \<le> b \<Longrightarrow> quot32 x 2 \<le> (b::int)"
proof -
  assume a: "x \<le> b" "0 \<le> b"
  have "0 \<le> \<bar>x\<bar> div 2" by simp
  moreover have "\<bar>x\<bar> div 2 \<le> \<bar>x\<bar>" by linarith
  ultimately show ?thesis using a unfolding quot32_def by (cases "0 \<le> x") auto
qed

lemma rule_score_le:
  assumes "rule c ctx = Inr r" and "c \<noteq> HighValue"
    and "rpScore (ParametersFor ctx (code c)) \<le> b" and "50 \<le> b"
  shows "resScore r \<le> b"
proof -
  have q: "quot32 (rpScore (ParametersFor ctx (code c))) 2 \<le> b"
    using assms(3,4) by (intro quot32_half_le) simp_all
  with assms show ?thesis
    by (cases c) (auto simp: rule_defs Let_def rbind_eq_Inr simp del: code.simps split: if_splits option.splits)
qed

lemma rule_bounded:
  assumes "decimals_in_range ctx" and "- 100000000 \<le> rpScore (ParametersFor ctx (code c))" and "rpScore (ParametersFor ctx (code c)) \<le> 100000000"
  shows "\<exists>r. rule c ctx = Inr r \<and> resScore r \<le> 150000000"
proof (cases "c = HighValue")
  case True
  let ?s = "rpScore (ParametersFor ctx (code HighValue))"
  have "\<exists>x. checked32 (round_away (of_int ?s * i)) = Inr x \<and> x \<le> 150000000" if "i = 1 \<or> i = (3 / 2 :: rat)" for i
    using round_away_scale [OF _ _ that, of ?s] assms True by (simp add: checked32_def is_i32_iff)
  from this [of 1] this [of "3 / 2"] show ?thesis
    by (auto simp: True HighValueRule_def Let_def threshold_doubles [OF assms(1)] simp del: code.simps)
next
  case False
  then obtain r where r: "rule c ctx = Inr r"
    using rule_throws [of c ctx] behaviour_returns [OF assms(1)]
    by (cases "c = BehaviourDeviation"; cases "rule c ctx") auto
  have "resScore r \<le> 150000000"
    by (rule rule_score_le [OF r False]) (use assms in simp_all)
  with r show ?thesis by blast
qed

lemma engine_returns:
  assumes "\<And>c. - 100000000 \<le> rpScore (ParametersFor ctx (code c)) \<and> rpScore (ParametersFor ctx (code c)) \<le> 100000000"
    and "decimals_in_range ctx" and "model ctx = Inr m"
  shows "\<exists>e. risk_engine model ms ctx = Inr e \<and> evlRawScore e \<le> 1950000000"
proof -
  have len: "int (length engine_rules) * 150000000 = 1950000000"
    by (simp add: engine_rules_def AllRuleCodes_def)
  have "\<exists>e. EvaluateAsync engine_rules Decide model ms ctx = Inr e \<and>
          evlRawScore e \<le> int (length engine_rules) * 150000000"
  proof (rule sentinel.evaluation_total)
    show "\<exists>r. ev ctx = Inr r \<and> resScore r \<le> 150000000" if "(c, ev) \<in> set engine_rules" for c ev
      using that rule_bounded assms(1,2) by (auto simp: engine_rules_def)
    show "model ctx = Inr m" by (rule assms(3))
  qed (simp_all add: len int_max_def)
  then show ?thesis by (simp only: risk_engine_def len)
qed

lemma default_scores:
  "ctxRuleParameters ctx = default_parameters \<Longrightarrow>
   - 100000000 \<le> rpScore (ParametersFor ctx (code c)) \<and> rpScore (ParametersFor ctx (code c)) \<le> 100000000"
  by (cases c) (simp_all add: default_simps del: code.simps)

lemma default_decimals:
  "ctxRuleParameters ctx = default_parameters \<Longrightarrow>
   \<bar>GetDecimal (ParametersFor ctx (code HighValue)) ''threshold'' 3000\<bar> \<le> 10 ^ 28 \<and>
   \<bar>GetDecimal (ParametersFor ctx (code BehaviourDeviation)) ''multiplier'' 8\<bar> \<le> 10 ^ 12"
  by (simp add: default_simps del: code.simps)

lemma example_decimals: "decimals_in_range example_context"
  using default_decimals [of example_context]
  by (simp add: decimals_in_range_def example_context_def example_transaction_def example_profile_def example_money_def del: code.simps)

lemma example_returns: "\<exists>e. risk_engine NoOpRiskModel ms example_context = Inr e \<and> evlRawScore e \<le> 1950000000"
  by (rule engine_returns [where m = "Model_None ''noop-1.0.0''"])
    (use example_decimals in \<open>simp_all add: default_scores example_context_def NoOpRiskModel_def del: code.simps\<close>)

text \<open>
  C7: the engine of the services always reaches a decision: with every configured score between
  minus and plus a hundred million, a threshold of high values of at most ten octillion, a
  multiplier of the typical spend of at most a trillion, amounts of whole minor units up to ten
  quadrillion, and a model that answers, no arithmetic of \<open>decimal\<close>, no conversion and no sum of
  \<open>int\<close> throws.
\<close>

theorem engine_total:
  assumes "\<And>c. \<bar>rpScore (ParametersFor ctx (code c))\<bar> \<le> 100000000"
    and "\<bar>GetDecimal (ParametersFor ctx (code HighValue)) ''threshold'' 3000\<bar> \<le> 10 ^ 28"
    and "\<bar>GetDecimal (ParametersFor ctx (code BehaviourDeviation)) ''multiplier'' 8\<bar> \<le> 10 ^ 12"
    and "\<bar>mAmount (txAmount (ctxTransaction ctx))\<bar> \<le> 10 ^ 16"
    and "mAmount (prfMedianTransactionAmount (ctxProfile ctx)) * 100 \<in> \<int>" "mAmount (prfMedianTransactionAmount (ctxProfile ctx)) \<le> 10 ^ 16"
    and "mAmount (prfAverageTransactionAmount (ctxProfile ctx)) * 100 \<in> \<int>" "mAmount (prfAverageTransactionAmount (ctxProfile ctx)) \<le> 10 ^ 16"
    and "model ctx = Inr m"
  shows "\<exists>e. risk_engine model ms ctx = Inr e"
proof -
  have s: "- 100000000 \<le> rpScore (ParametersFor ctx (code c)) \<and> rpScore (ParametersFor ctx (code c)) \<le> 100000000" for c
    using assms(1) [of c] by (auto simp: abs_le_iff)
  have "decimals_in_range ctx" using assms(2-8) by (simp add: decimals_in_range_def)
  from engine_returns [of ctx model m, OF s this assms(9)] show ?thesis by blast
qed

lemma engine_total_witness: "\<exists>e. risk_engine NoOpRiskModel 5 example_context = Inr e"
proof (rule engine_total)
  show "\<bar>rpScore (ParametersFor example_context (code c))\<bar> \<le> 100000000" for c
    using default_scores [of example_context c] by (auto simp: example_context_def abs_le_iff)
  show "NoOpRiskModel example_context = Inr (Model_None ''noop-1.0.0'')" by (simp add: NoOpRiskModel_def)
qed (use example_decimals in \<open>simp_all add: decimals_in_range_def\<close>)

text \<open>
  C3: what a decision of the engine says. The raw score is the sum of the triggered rules' scores,
  the score lies between 0 and 100 and has its level, a transaction is blocked exactly from 80 on,
  and approved exactly below 30, or below 60 when no travel, decline or velocity rule fired.
\<close>

theorem engine_decision:
  assumes "risk_engine model ms ctx = Inr e"
  shows "evlRawScore e = sum_list (map resScore (evlTriggeredRules e)) \<and>
    0 \<le> evlRiskScore e \<and> evlRiskScore e \<le> 100 \<and> evlRiskLevel e = LevelFor (evlRiskScore e) \<and>
    (evlDecision e = Block \<longleftrightarrow> 80 \<le> evlRiskScore e) \<and>
    (evlDecision e = Approve \<longleftrightarrow> evlRiskScore e \<le> 29 \<or> evlRiskScore e \<le> 59 \<and>
       (\<forall>r \<in> set (evlTriggeredRules e).
          resRuleCode r \<notin> {code ImpossibleTravel, code RepeatedDecline, code HighVelocity}))"
proof -
  note s = sentinel.evaluation_shape [OF assms [unfolded risk_engine_def]]
  from s(6) have "0 \<le> evlRiskScore e \<and> evlRiskScore e \<le> 100" using Cap_bounds by auto
  with s(2,4,5) show ?thesis by (simp only: Decide_Block_iff Decide_Approve_iff simp_thms)
qed

lemma engine_decision_witness:
  "\<exists>e. risk_engine NoOpRiskModel 5 example_context = Inr e \<and> (evlDecision e = Block \<longleftrightarrow> 80 \<le> evlRiskScore e)"
  using example_returns [of 5] engine_decision by blast

text \<open>
  The model is an adviser. It never lowers a score and adds at most 15 points, and nothing when
  its confidence is below 0.6, as long as the sum of the rules is not at the end of \<open>int\<close>.
\<close>

theorem model_adds_at_most_15:
  assumes "risk_engine model ms ctx = Inr e" and "evlRawScore e \<le> int_max - 15"
  shows "Cap (evlRawScore e) \<le> evlRiskScore e \<and> evlRiskScore e \<le> Cap (evlRawScore e + 15) \<and>
    (\<forall>m. model ctx = Inr m \<and> (dbl_less (mdlConfidence m) (6 / 10) \<or> mdlScore m \<le> 0) \<longrightarrow>
       evlRiskScore e = Cap (evlRawScore e))"
proof -
  note s = sentinel.evaluation_shape [OF assms(1) [unfolded risk_engine_def]]
  obtain m where m: "model ctx = Inr m" and score: "evlRiskScore e = Cap (Combine (evlRawScore e) m)"
    using s(6) by blast
  have "evlRawScore e \<le> Combine (evlRawScore e) m \<and> Combine (evlRawScore e) m \<le> evlRawScore e + 15"
    using Combine_bounds [OF s(3) assms(2)] .
  then show ?thesis using m score by (auto intro: Cap_mono simp: Combine_def)
qed

lemma model_adds_at_most_15_witness:
  "\<exists>e. risk_engine NoOpRiskModel 5 example_context = Inr e \<and> Cap (evlRawScore e) \<le> evlRiskScore e"
proof -
  obtain e where e: "risk_engine NoOpRiskModel 5 example_context = Inr e" and raw: "evlRawScore e \<le> 1950000000"
    using example_returns [of 5] by blast
  have "evlRawScore e \<le> int_max - 15" using raw by (simp add: int_max_def)
  from model_adds_at_most_15 [OF e this] e show ?thesis by blast
qed

text \<open>
  Switching rules off never makes a decision more severe: the evaluation by any part of the
  rules, in their order, ends in a decision no higher than that of all of them.
\<close>

theorem disabling_rules_lowers:
  assumes full: "risk_engine model ms ctx = Inr e"
    and part: "EvaluateAsync (filter P engine_rules) Decide model ms ctx = Inr e'"
    and small: "evlRawScore e \<le> int_max - 15"
  shows "evlDecision e' \<le> evlDecision e \<and> evlRiskScore e' \<le> evlRiskScore e"
proof -
  note f = sentinel.evaluation_shape [OF full [unfolded risk_engine_def]]
  have "rule_set (filter P engine_rules)"
    using sentinel.members by (auto intro!: rule_set.intro)
  note p = rule_set.evaluation_shape [OF this part]
  have sub: "subseq (evlTriggeredRules e') (evlTriggeredRules e)" using run_rules_filter [OF f(1) p(1)] .
  have "evlRawScore e' \<le> evlRawScore e"
    unfolding f(2) p(2) using sentinel.scores_nonneg [OF f(1)] sub
    by (intro sum_list_subseq subseq_map) auto
  moreover obtain m where m: "evlRiskScore e = Cap (Combine (evlRawScore e) m)"
      "evlRiskScore e' = Cap (Combine (evlRawScore e') m)"
    using f(6) p(6) by auto
  ultimately have "Combine (evlRawScore e') m \<le> Combine (evlRawScore e) m"
    using small p(3) by (intro Combine_mono)
  then have score: "evlRiskScore e' \<le> evlRiskScore e" unfolding m by (rule Cap_mono)
  have "set (evlTriggeredRules e') \<subseteq> set (evlTriggeredRules e)" using subseq_set [OF sub] .
  with LevelFor_mono [OF score] show ?thesis unfolding f(4,5) p(4,5) using score by (auto intro: Decide_mono_rules)
qed

lemma disabling_rules_lowers_witness:
  "\<exists>e e'. risk_engine NoOpRiskModel 5 example_context = Inr e \<and>
     EvaluateAsync (filter (\<lambda>_. False) engine_rules) Decide NoOpRiskModel 5 example_context = Inr e' \<and> evlDecision e' \<le> evlDecision e"
proof -
  obtain e where e: "risk_engine NoOpRiskModel 5 example_context = Inr e" and raw: "evlRawScore e \<le> 1950000000"
    using example_returns [of 5] by blast
  have small: "evlRawScore e \<le> int_max - 15" using raw by (simp add: int_max_def)
  obtain e' where "EvaluateAsync (filter (\<lambda>_. False) engine_rules) Decide NoOpRiskModel 5 example_context = Inr e'"
    by (simp add: EvaluateAsync_def NoOpRiskModel_def)
  from disabling_rules_lowers [OF e this small] e this show ?thesis by blast
qed

end
