(* ===== verification/Velocity.thy ===== *)
theory Velocity
  imports RiskDomain
begin

text \<open>
  \<open>RedisVelocityStore.cs\<close>: the sorted sets of Redis with their expiry, the store the services use, and
  the in-memory store of the tests. Redis is what the source uses of it: sorted sets from members to
  integer scores, removal and counting by score, and the expiry of a key at a wall-clock time.
\<close>

section \<open>Sorted sets\<close>

record sorted_set =
  zMembers :: "(string \<times> int) list"
  zExpires :: "int option"

type_synonym redis = "string \<Rightarrow> sorted_set option"

definition live :: "int \<Rightarrow> redis \<Rightarrow> string \<Rightarrow> sorted_set" where
  "live wall r key =
     (case r key of
        None \<Rightarrow> \<lparr>zMembers = [], zExpires = None\<rparr>
      | Some z \<Rightarrow> (case zExpires z of
            Some t \<Rightarrow> if t \<le> wall then \<lparr>zMembers = [], zExpires = None\<rparr> else z
          | None \<Rightarrow> z))"

fun z_insert :: "string \<Rightarrow> int \<Rightarrow> (string \<times> int) list \<Rightarrow> (string \<times> int) list" where
  "z_insert m s [] = [(m, s)]"
| "z_insert m s ((m', s') # xs) = (if m = m' then (m, s) # xs else (m', s') # z_insert m s xs)"

definition SortedSetAdd :: "int \<Rightarrow> string \<Rightarrow> string \<Rightarrow> int \<Rightarrow> redis \<Rightarrow> redis" where
  "SortedSetAdd wall key member score r =
     (let z = live wall r key in r(key \<mapsto> z\<lparr>zMembers := z_insert member score (zMembers z)\<rparr>))"

definition KeyExpire :: "int \<Rightarrow> string \<Rightarrow> int \<Rightarrow> redis \<Rightarrow> redis" where
  "KeyExpire wall key ttl r =
     (if zMembers (live wall r key) = [] then r else r(key \<mapsto> (live wall r key)\<lparr>zExpires := Some (wall + ttl)\<rparr>))"

definition SortedSetRemoveRangeByScore :: "int \<Rightarrow> string \<Rightarrow> int \<Rightarrow> redis \<Rightarrow> redis" where
  "SortedSetRemoveRangeByScore wall key bound r =
     (let z = live wall r key in r(key \<mapsto> z\<lparr>zMembers := filter (\<lambda>(m, s). bound < s) (zMembers z)\<rparr>))"

definition SortedSetLength :: "int \<Rightarrow> redis \<Rightarrow> string \<Rightarrow> int \<Rightarrow> int \<Rightarrow> int" where
  "SortedSetLength wall r key lo hi =
     int (length (filter (\<lambda>(m, s). lo \<le> s \<and> s \<le> hi) (zMembers (live wall r key))))"

definition SortedSetRangeByScore :: "int \<Rightarrow> redis \<Rightarrow> string \<Rightarrow> int \<Rightarrow> int \<Rightarrow> string list" where
  "SortedSetRangeByScore wall r key lo hi =
     map fst (filter (\<lambda>(m, s). lo \<le> s \<and> s \<le> hi) (zMembers (live wall r key)))"

section \<open>The Redis store\<close>

definition UnixTimeMilliseconds :: "instant \<Rightarrow> int" where
  "UnixTimeMilliseconds t = (t - 621355968000000000) div 10000"

definition ms_minutes :: "int \<Rightarrow> int" where
  "ms_minutes m = m * 60000"

definition ms_hours :: "int \<Rightarrow> int" where
  "ms_hours h = h * 3600000"

text \<open>What follows the last, and the first, colon of a member.\<close>

definition after_last_colon :: "string \<Rightarrow> string option" where
  "after_last_colon s =
     (if CHR '':'' \<in> set s then Some (rev (takeWhile (\<lambda>c. c \<noteq> CHR '':'') (rev s))) else None)"

definition after_first_colon :: "string \<Rightarrow> string option" where
  "after_first_colon s =
     (if CHR '':'' \<in> set s then Some (tl (dropWhile (\<lambda>c. c \<noteq> CHR '':'') s)) else None)"

definition TryParse_long :: "string \<Rightarrow> int option" where
  "TryParse_long s =
     (let (sgn, r) = scan_sign (dropWhile is_num_white s);
          (v, seen, rest) = scan_digits False 0 False r;
          n = (case sgn of None \<Rightarrow> 1 | Some k \<Rightarrow> k) * int v
      in if seen \<and> list_all is_num_white rest \<and> - (2 ^ 63) \<le> n \<and> n < 2 ^ 63 then Some n else None)"

definition wrap64 :: "int \<Rightarrow> int" where
  "wrap64 x = (x + 2 ^ 63) mod 2 ^ 64 - 2 ^ 63"

definition CountAsync :: "int \<Rightarrow> redis \<Rightarrow> string \<Rightarrow> int \<Rightarrow> int \<Rightarrow> int" where
  "CountAsync wall r key now window = SortedSetLength wall r key (now - window) now"

definition SpendAsync :: "int \<Rightarrow> redis \<Rightarrow> string \<Rightarrow> int \<Rightarrow> int \<Rightarrow> string \<Rightarrow> exn + Money" where
  "SpendAsync wall r key now window currency =
     (let entries = SortedSetRangeByScore wall r key (now - window) now;
          minor = fold (\<lambda>v minor. case after_last_colon v of
                     None \<Rightarrow> minor
                   | Some d \<Rightarrow> (case TryParse_long d of None \<Rightarrow> minor | Some p \<Rightarrow> wrap64 (minor + p))) entries 0
      in FromMinorUnits minor currency)"

fun distinct_ignore_case :: "string list \<Rightarrow> string list" where
  "distinct_ignore_case [] = []"
| "distinct_ignore_case (x # xs) = x # distinct_ignore_case (filter (\<lambda>y. \<not> equals_ignore_case x y) xs)"

definition DistinctSuffixAsync :: "int \<Rightarrow> redis \<Rightarrow> string \<Rightarrow> int \<Rightarrow> int \<Rightarrow> int" where
  "DistinctSuffixAsync wall r key now window =
     int (length (distinct_ignore_case
       (List.map_filter after_first_colon (SortedSetRangeByScore wall r key (now - window) now))))"

text \<open>The five keys of an account.\<close>

definition tx_key :: "string \<Rightarrow> string" where
  "tx_key account = ''vel:tx:'' @ account"

definition spend_key :: "string \<Rightarrow> string" where
  "spend_key account = ''vel:spend:'' @ account"

definition merchant_key :: "string \<Rightarrow> string" where
  "merchant_key account = ''vel:merchants:'' @ account"

definition country_key :: "string \<Rightarrow> string" where
  "country_key account = ''vel:countries:'' @ account"

definition fail_key :: "string \<Rightarrow> string" where
  "fail_key account = ''vel:fail:'' @ account"

lemmas key_defs = tx_key_def spend_key_def merchant_key_def country_key_def fail_key_def

lemma keys_distinct [simp]:
  "tx_key x \<noteq> spend_key y" "tx_key x \<noteq> merchant_key y" "tx_key x \<noteq> country_key y" "tx_key x \<noteq> fail_key y"
  "spend_key x \<noteq> tx_key y" "spend_key x \<noteq> merchant_key y" "spend_key x \<noteq> country_key y" "spend_key x \<noteq> fail_key y"
  "merchant_key x \<noteq> tx_key y" "merchant_key x \<noteq> spend_key y" "merchant_key x \<noteq> country_key y" "merchant_key x \<noteq> fail_key y"
  "country_key x \<noteq> tx_key y" "country_key x \<noteq> spend_key y" "country_key x \<noteq> merchant_key y" "country_key x \<noteq> fail_key y"
  "fail_key x \<noteq> tx_key y" "fail_key x \<noteq> spend_key y" "fail_key x \<noteq> merchant_key y" "fail_key x \<noteq> country_key y"
  by (simp_all add: key_defs)

definition RedisRecord :: "int \<Rightarrow> TransactionSnapshot \<Rightarrow> bool \<Rightarrow> int \<Rightarrow> redis \<Rightarrow> redis" where
  "RedisRecord wall tx failed minor r =
     (let now = UnixTimeMilliseconds (txTimestamp tx); account = txAccountId tx;
          member = txTransactionId tx @ '':'' @ int_to_string minor;
          txKey = tx_key account; spendKey = spend_key account;
          merchantKey = merchant_key account; countryKey = country_key account;
          failKey = fail_key account;
          cutoff = now - ms_hours 36;
          r = SortedSetAdd wall txKey (txTransactionId tx) now r;
          r = SortedSetAdd wall spendKey member now r;
          r = SortedSetAdd wall merchantKey (int_to_string now @ '':'' @ txMerchantId tx) now r;
          r = SortedSetAdd wall countryKey (int_to_string now @ '':'' @ txCountry tx) now r;
          r = KeyExpire wall txKey (ms_hours 36) r;
          r = KeyExpire wall spendKey (ms_hours 36) r;
          r = KeyExpire wall merchantKey (ms_hours 36) r;
          r = KeyExpire wall countryKey (ms_hours 36) r;
          r = (if failed then KeyExpire wall failKey (ms_hours 6) (SortedSetAdd wall failKey (txTransactionId tx) now r) else r);
          r = SortedSetRemoveRangeByScore wall txKey cutoff r;
          r = SortedSetRemoveRangeByScore wall spendKey cutoff r;
          r = SortedSetRemoveRangeByScore wall merchantKey cutoff r
      in SortedSetRemoveRangeByScore wall countryKey cutoff r)"

definition RedisSnapshot :: "int \<Rightarrow> TransactionSnapshot \<Rightarrow> redis \<Rightarrow> exn + VelocitySnapshot" where
  "RedisSnapshot wall tx r =
     (let now = UnixTimeMilliseconds (txTimestamp tx); account = txAccountId tx; currency = mCurrency (txAmount tx);
          txKey = tx_key account; spendKey = spend_key account;
          merchantKey = merchant_key account; countryKey = country_key account;
          failKey = fail_key account
      in rbind (SpendAsync wall r spendKey now (ms_minutes 5) currency) (\<lambda>spend5.
         rbind (SpendAsync wall r spendKey now (ms_hours 1) currency) (\<lambda>spend60.
         rbind (SpendAsync wall r spendKey now (ms_hours 24) currency) (\<lambda>spend24.
         Inr \<lparr>velTransactionsLast1Minute = wrap32 (CountAsync wall r txKey now (ms_minutes 1)),
              velTransactionsLast5Minutes = wrap32 (CountAsync wall r txKey now (ms_minutes 5)),
              velTransactionsLast1Hour = wrap32 (CountAsync wall r txKey now (ms_hours 1)),
              velSpendLast5Minutes = spend5, velSpendLast1Hour = spend60, velSpendLast24Hours = spend24,
              velDistinctMerchantsLast10Minutes = DistinctSuffixAsync wall r merchantKey now (ms_minutes 10),
              velDistinctCountriesLast30Minutes = DistinctSuffixAsync wall r countryKey now (ms_minutes 30),
              velFailedTransactionsLast15Minutes = wrap32 (CountAsync wall r failKey now (ms_minutes 15))\<rparr>))))"

definition RedisRecordAndSnapshot :: "int \<Rightarrow> TransactionSnapshot \<Rightarrow> bool \<Rightarrow> (redis, VelocitySnapshot) prog" where
  "RedisRecordAndSnapshot wall tx failed =
     pbind (plift (ToMinorUnits (txAmount tx))) (\<lambda>minor.
     pthen (pmodify (RedisRecord wall tx failed minor))
     (\<lambda>r. (RedisSnapshot wall tx r, r)))"

section \<open>The in-memory store\<close>

record VelocityPoint =
  vpTimestamp :: instant
  vpTransactionId :: string
  vpAmount :: Money
  vpMerchantId :: string
  vpCountry :: string
  vpFailed :: bool

type_synonym memory = "string \<Rightarrow> VelocityPoint list"

definition to_point :: "TransactionSnapshot \<Rightarrow> bool \<Rightarrow> VelocityPoint" where
  "to_point tx failed = \<lparr>vpTimestamp = txTimestamp tx, vpTransactionId = txTransactionId tx, vpAmount = txAmount tx,
     vpMerchantId = txMerchantId tx, vpCountry = txCountry tx, vpFailed = failed\<rparr>"

definition mem_Count :: "VelocityPoint list \<Rightarrow> instant \<Rightarrow> int \<Rightarrow> int" where
  "mem_Count ps now window = int (length (filter (\<lambda>p. now - window \<le> vpTimestamp p) ps))"

fun mem_sum :: "Money \<Rightarrow> string \<Rightarrow> VelocityPoint list \<Rightarrow> exn + Money" where
  "mem_sum acc currency [] = Inr acc"
| "mem_sum acc currency (p # ps) =
     rbind (new_Money (mAmount (vpAmount p)) currency) (\<lambda>m.
     rbind (Money_Add acc m) (\<lambda>acc'. mem_sum acc' currency ps))"

definition mem_Spend :: "VelocityPoint list \<Rightarrow> instant \<Rightarrow> int \<Rightarrow> string \<Rightarrow> exn + Money" where
  "mem_Spend ps now window currency =
     rbind (Money_Zero currency) (\<lambda>zero. mem_sum zero currency (filter (\<lambda>p. now - window \<le> vpTimestamp p) ps))"

definition mem_Distinct :: "VelocityPoint list \<Rightarrow> instant \<Rightarrow> int \<Rightarrow> (VelocityPoint \<Rightarrow> string) \<Rightarrow> int" where
  "mem_Distinct ps now window sel =
     int (length (distinct_ignore_case (map sel (filter (\<lambda>p. now - window \<le> vpTimestamp p) ps))))"

definition MemRecordAndSnapshot :: "TransactionSnapshot \<Rightarrow> bool \<Rightarrow> (memory, VelocitySnapshot) prog" where
  "MemRecordAndSnapshot tx failed = (\<lambda>m.
     let ps = m (txAccountId tx) @ [to_point tx failed];
         m' = m(txAccountId tx := ps); now = txTimestamp tx; currency = mCurrency (txAmount tx)
     in (rbind (mem_Spend ps now (minutes 5) currency) (\<lambda>spend5.
         rbind (mem_Spend ps now (hours 1) currency) (\<lambda>spend60.
         rbind (mem_Spend ps now (hours 24) currency) (\<lambda>spend24.
         Inr \<lparr>velTransactionsLast1Minute = mem_Count ps now (minutes 1),
              velTransactionsLast5Minutes = mem_Count ps now (minutes 5),
              velTransactionsLast1Hour = mem_Count ps now (hours 1),
              velSpendLast5Minutes = spend5, velSpendLast1Hour = spend60, velSpendLast24Hours = spend24,
              velDistinctMerchantsLast10Minutes = mem_Distinct ps now (minutes 10) vpMerchantId,
              velDistinctCountriesLast30Minutes = mem_Distinct ps now (minutes 30) vpCountry,
              velFailedTransactionsLast15Minutes =
                int (length (filter (\<lambda>p. vpFailed p \<and> now - minutes 15 \<le> vpTimestamp p) ps))\<rparr>))), m'))"

section \<open>The Redis store counts what the in-memory store counts\<close>

lemma z_insert_fresh: "m \<notin> fst ` set xs \<Longrightarrow> z_insert m s xs = xs @ [(m, s)]"
  by (induction xs) auto

lemma z_insert_nonempty [simp]: "z_insert m s xs \<noteq> []"
  by (cases xs) (auto split: if_splits)

lemma ms_hours_pos [simp]: "0 < ms_hours 36" "0 < ms_hours 6"
  by (simp_all add: ms_hours_def)

text \<open>Each operation on its own key and on another key.\<close>

lemma live_cong: "r k = r' k \<Longrightarrow> live wall r k = live wall r' k"
  by (simp add: live_def)

lemma op_other [simp]:
  "k' \<noteq> k \<Longrightarrow> SortedSetAdd wall k m s r k' = r k'"
  "k' \<noteq> k \<Longrightarrow> KeyExpire wall k ttl r k' = r k'"
  "k' \<noteq> k \<Longrightarrow> SortedSetRemoveRangeByScore wall k b r k' = r k'"
  by (simp_all add: SortedSetAdd_def KeyExpire_def SortedSetRemoveRangeByScore_def Let_def)

lemma live_other [simp]:
  "k' \<noteq> k \<Longrightarrow> live wall (SortedSetAdd wall k m s r) k' = live wall r k'"
  "k' \<noteq> k \<Longrightarrow> live wall (KeyExpire wall k ttl r) k' = live wall r k'"
  "k' \<noteq> k \<Longrightarrow> live wall (SortedSetRemoveRangeByScore wall k b r) k' = live wall r k'"
  by (simp_all add: live_def)

lemma live_idem: "r k = Some ((live wall r0 k)\<lparr>zMembers := ms\<rparr>) \<Longrightarrow> live wall r k = (live wall r0 k)\<lparr>zMembers := ms\<rparr>"
  by (auto simp: live_def split: option.splits if_splits)

lemma live_same [simp]:
  "live wall (SortedSetAdd wall k m s r) k = (live wall r k)\<lparr>zMembers := z_insert m s (zMembers (live wall r k))\<rparr>"
  "0 < ttl \<Longrightarrow> zMembers (live wall r k) \<noteq> [] \<Longrightarrow>
     live wall (KeyExpire wall k ttl r) k = (live wall r k)\<lparr>zExpires := Some (wall + ttl)\<rparr>"
proof -
  have "SortedSetAdd wall k m s r k = Some ((live wall r k)\<lparr>zMembers := z_insert m s (zMembers (live wall r k))\<rparr>)"
    by (simp add: SortedSetAdd_def Let_def)
  then show "live wall (SortedSetAdd wall k m s r) k = (live wall r k)\<lparr>zMembers := z_insert m s (zMembers (live wall r k))\<rparr>"
    by (rule live_idem)
next
  assume "0 < ttl" and "zMembers (live wall r k) \<noteq> []"
  then have "KeyExpire wall k ttl r k = Some ((live wall r k)\<lparr>zExpires := Some (wall + ttl)\<rparr>)"
    by (simp add: KeyExpire_def)
  with \<open>0 < ttl\<close> show "live wall (KeyExpire wall k ttl r) k = (live wall r k)\<lparr>zExpires := Some (wall + ttl)\<rparr>"
    unfolding live_def [of wall "KeyExpire wall k ttl r"] by simp
qed

lemma Remove_same:
  "SortedSetRemoveRangeByScore wall k b r k = Some ((live wall r k)\<lparr>zMembers := filter (\<lambda>(m, s). b < s) (zMembers (live wall r k))\<rparr>)"
  by (simp add: SortedSetRemoveRangeByScore_def Let_def)

text \<open>What one record leaves in the set of the account's transactions.\<close>

lemma RedisRecord_tx:
  "RedisRecord wall tx False minor r (tx_key (txAccountId tx)) =
     Some \<lparr>zMembers = filter (\<lambda>(m, s). UnixTimeMilliseconds (txTimestamp tx) - ms_hours 36 < s)
              (z_insert (txTransactionId tx) (UnixTimeMilliseconds (txTimestamp tx))
                 (zMembers (live wall r (tx_key (txAccountId tx))))),
           zExpires = Some (wall + ms_hours 36)\<rparr>"
  by (simp add: RedisRecord_def Let_def Remove_same)

lemma RedisRecord_fail:
  "RedisRecord wall tx False minor r (fail_key account) = r (fail_key account)"
  by (simp add: RedisRecord_def Let_def)

text \<open>
  A history of one account: fresh transaction identifiers, non-decreasing instants of whole
  milliseconds, and less than the 36 hours of the expiry between two records.
\<close>

fun redis_run :: "(int \<times> TransactionSnapshot \<times> int) list \<Rightarrow> redis \<Rightarrow> redis" where
  "redis_run [] r = r"
| "redis_run ((wall, tx, minor) # h) r = redis_run h (RedisRecord wall tx False minor r)"

lemma redis_run_snoc: "redis_run (h @ [(wall, tx, minor)]) r = RedisRecord wall tx False minor (redis_run h r)"
  by (induction h arbitrary: r) auto

definition wall_of :: "int \<times> TransactionSnapshot \<times> int \<Rightarrow> int" where
  "wall_of x = fst x"

definition tx_of :: "int \<times> TransactionSnapshot \<times> int \<Rightarrow> TransactionSnapshot" where
  "tx_of x = fst (snd x)"

definition whole_ms :: "instant \<Rightarrow> bool" where
  "whole_ms t \<longleftrightarrow> t mod 10000 = 0"

fun history :: "string \<Rightarrow> (int \<times> TransactionSnapshot \<times> int) list \<Rightarrow> bool" where
  "history account [] = True"
| "history account [x] = (txAccountId (tx_of x) = account \<and> whole_ms (txTimestamp (tx_of x)))"
| "history account (x # y # h) =
     (txAccountId (tx_of x) = account \<and> whole_ms (txTimestamp (tx_of x)) \<and>
      txTimestamp (tx_of x) \<le> txTimestamp (tx_of y) \<and>
      wall_of x \<le> wall_of y \<and> wall_of y < wall_of x + ms_hours 36 \<and> history account (y # h))"

definition entry :: "int \<times> TransactionSnapshot \<times> int \<Rightarrow> string \<times> int" where
  "entry x = (txTransactionId (tx_of x), UnixTimeMilliseconds (txTimestamp (tx_of x)))"

lemma history_snoc:
  "history account (h @ [x]) \<longleftrightarrow>
     txAccountId (tx_of x) = account \<and> whole_ms (txTimestamp (tx_of x)) \<and> history account h \<and>
     (h \<noteq> [] \<longrightarrow> txTimestamp (tx_of (last h)) \<le> txTimestamp (tx_of x) \<and>
       wall_of (last h) \<le> wall_of x \<and> wall_of x < wall_of (last h) + ms_hours 36)"
  by (induction account h rule: history.induct) auto

lemma history_mem: "history account h \<Longrightarrow> x \<in> set h \<Longrightarrow> whole_ms (txTimestamp (tx_of x)) \<and> txAccountId (tx_of x) = account"
  by (induction account h rule: history.induct) auto

lemma history_last_max: "history account h \<Longrightarrow> x \<in> set h \<Longrightarrow> txTimestamp (tx_of x) \<le> txTimestamp (tx_of (last h))"
proof (induction h arbitrary: x rule: rev_induct)
  case Nil
  then show ?case by simp
next
  case (snoc y h)
  show ?case
  proof (cases "x = y")
    case True
    then show ?thesis by simp
  next
    case False
    then have x: "x \<in> set h" and h: "h \<noteq> []" using snoc.prems by auto
    have "history account h" and le: "txTimestamp (tx_of (last h)) \<le> txTimestamp (tx_of y)"
      using snoc.prems(1) h by (simp_all add: history_snoc)
    from snoc.IH [OF this(1) x] le show ?thesis by simp
  qed
qed

lemma Unix_mono: "a \<le> b \<Longrightarrow> UnixTimeMilliseconds a \<le> UnixTimeMilliseconds b"
  unfolding UnixTimeMilliseconds_def by (intro zdiv_mono1) auto

theorem redis_members:
  assumes "history account h" and "distinct (map (\<lambda>x. txTransactionId (tx_of x)) h)" and "h \<noteq> []"
  shows "redis_run h Map.empty (tx_key account) =
    Some \<lparr>zMembers = filter (\<lambda>(m, s). UnixTimeMilliseconds (txTimestamp (tx_of (last h))) - ms_hours 36 < s) (map entry h),
          zExpires = Some (wall_of (last h) + ms_hours 36)\<rparr>"
  using assms
proof (induction h rule: rev_induct)
  case Nil
  then show ?case by simp
next
  case (snoc x h)
  obtain wall tx minor where x: "x = (wall, tx, minor)" by (cases x)
  have acc: "txAccountId tx = account" using snoc.prems by (simp add: history_snoc x tx_of_def)
  let ?ms = "UnixTimeMilliseconds (txTimestamp tx)"
  have live: "\<exists>c. c \<le> ?ms - ms_hours 36 \<and> zMembers (live wall (redis_run h Map.empty) (tx_key account)) =
      filter (\<lambda>(m, s). c < s) (map entry h)"
  proof (cases "h = []")
    case True
    then show ?thesis by (auto simp: live_def)
  next
    case False
    from snoc.prems False have "UnixTimeMilliseconds (txTimestamp (tx_of (last h))) \<le> ?ms"
      by (intro Unix_mono) (simp add: history_snoc x tx_of_def)
    moreover have "zMembers (live wall (redis_run h Map.empty) (tx_key account)) =
        filter (\<lambda>(m, s). UnixTimeMilliseconds (txTimestamp (tx_of (last h))) - ms_hours 36 < s) (map entry h)"
      using snoc False by (simp add: history_snoc live_def x wall_of_def)
    ultimately show ?thesis by (intro exI [of _ "UnixTimeMilliseconds (txTimestamp (tx_of (last h))) - ms_hours 36"]) simp
  qed
  then obtain c where c: "c \<le> ?ms - ms_hours 36"
    and live: "zMembers (live wall (redis_run h Map.empty) (tx_key account)) = filter (\<lambda>(m, s). c < s) (map entry h)"
    by blast
  have "txTransactionId tx \<notin> fst ` set (filter (\<lambda>(m, s). c < s) (map entry h))"
    using snoc.prems by (force simp: x tx_of_def entry_def)
  then have "redis_run (h @ [x]) Map.empty (tx_key account) =
      Some \<lparr>zMembers = filter (\<lambda>(m, s). ?ms - ms_hours 36 < s) (filter (\<lambda>(m, s). c < s) (map entry h) @ [entry x]),
            zExpires = Some (wall + ms_hours 36)\<rparr>"
    using RedisRecord_tx [of wall tx minor "redis_run h Map.empty"] acc
    by (simp add: x redis_run_snoc live z_insert_fresh entry_def tx_of_def)
  moreover have "filter (\<lambda>(m, s). ?ms - ms_hours 36 < s) (filter (\<lambda>(m, s). c < s) (map entry h)) =
      filter (\<lambda>(m, s). ?ms - ms_hours 36 < s) (map entry h)"
    unfolding filter_filter using c by (intro filter_cong) auto
  moreover have "entry x = (txTransactionId tx, ?ms)" and "wall_of x = wall" and "tx_of x = tx"
    by (simp_all add: x entry_def tx_of_def wall_of_def)
  ultimately show ?case by (simp add: x)
qed

lemma ms_window:
  assumes "whole_ms a" and "whole_ms b"
  shows "UnixTimeMilliseconds a - w \<le> UnixTimeMilliseconds b \<longleftrightarrow> a - w * 10000 \<le> b"
proof -
  obtain i where "a = 10000 * i" using assms(1) by (auto simp: whole_ms_def)
  moreover obtain j where "b = 10000 * j" using assms(2) by (auto simp: whole_ms_def)
  moreover have "UnixTimeMilliseconds (10000 * k) = k - 62135596800000" for k
    unfolding UnixTimeMilliseconds_def by linarith
  ultimately show ?thesis by auto
qed

lemma redis_window_count:
  assumes "history account h" and "distinct (map (\<lambda>x. txTransactionId (tx_of x)) h)" and "h \<noteq> []"
    and "w < ms_hours 36"
  shows "CountAsync (wall_of (last h)) (redis_run h Map.empty) (tx_key account)
           (UnixTimeMilliseconds (txTimestamp (tx_of (last h)))) w
       = mem_Count (map (\<lambda>x. to_point (tx_of x) False) h) (txTimestamp (tx_of (last h))) (w * 10000)"
proof -
  let ?now = "txTimestamp (tx_of (last h))"
  let ?ms = "UnixTimeMilliseconds ?now"
  have "CountAsync (wall_of (last h)) (redis_run h Map.empty) (tx_key account) ?ms w =
      int (length (filter (\<lambda>x. ?ms - w \<le> snd (entry x) \<and> snd (entry x) \<le> ?ms) (filter (\<lambda>x. ?ms - ms_hours 36 < snd (entry x)) h)))"
    using redis_members [OF assms(1-3)]
    by (simp add: CountAsync_def SortedSetLength_def live_def filter_map comp_def case_prod_unfold)
  also have "filter (\<lambda>x. ?ms - w \<le> snd (entry x) \<and> snd (entry x) \<le> ?ms) (filter (\<lambda>x. ?ms - ms_hours 36 < snd (entry x)) h)
      = filter (\<lambda>x. ?now - w * 10000 \<le> txTimestamp (tx_of x)) h"
    unfolding filter_filter
  proof (rule filter_cong)
    fix x
    assume x: "x \<in> set h"
    have "whole_ms ?now" and "whole_ms (txTimestamp (tx_of x))"
      using history_mem [OF assms(1)] x assms(3) by auto
    from ms_window [OF this, of w] show
      "(?ms - ms_hours 36 < snd (entry x) \<and> ?ms - w \<le> snd (entry x) \<and> snd (entry x) \<le> ?ms) =
       (?now - w * 10000 \<le> txTimestamp (tx_of x))"
      using Unix_mono [OF history_last_max [OF assms(1) x]] assms(4) by (auto simp: entry_def)
  qed simp
  finally show ?thesis by (simp add: mem_Count_def filter_map comp_def to_point_def)
qed

text \<open>
  C8: on the history of an account with fresh transaction identifiers, non-decreasing whole-millisecond
  times and no gap that lets the key expire, the Redis store counts, for every window under
  36 hours, exactly the transactions the in-memory store counts.
\<close>

theorem redis_counts_refine_memory:
  assumes "history account h" and "distinct (map (\<lambda>x. txTransactionId (tx_of x)) h)" and "h \<noteq> []"
    and "w < ms_hours 36"
  shows "CountAsync (wall_of (last h)) (redis_run h Map.empty) (tx_key account)
           (UnixTimeMilliseconds (txTimestamp (tx_of (last h)))) w
       = mem_Count (map (\<lambda>x. to_point (tx_of x) False) h) (txTimestamp (tx_of (last h))) (w * 10000)"
  using assms by (rule redis_window_count)

definition example_point :: "string \<Rightarrow> instant \<Rightarrow> TransactionSnapshot" where
  "example_point ident t = \<lparr>txTransactionId = ident, txAccountId = ''A'', txCustomerId = ''C'',
     txAmount = \<lparr>mAmount = 10, mCurrency = ''GBP''\<rparr>, txMerchantId = ''M'', txMerchantCategory = Fuel, txCountry = ''GB'',
     txCity = None, txTimestamp = t, txCardPresent = True, txChannel = POS, txDeviceId = None,
     txIpAddress = None, txCorrelationId = ''k''\<rparr>"

definition example_history :: "(int \<times> TransactionSnapshot \<times> int) list" where
  "example_history = [(0, example_point ''a'' 0, 1000), (5, example_point ''b'' (minutes 2), 1000),
     (9, example_point ''c'' (minutes 3), 1000)]"

lemma redis_counts_refine_memory_witness:
  "CountAsync 9 (redis_run example_history Map.empty) (tx_key ''A'') (UnixTimeMilliseconds (minutes 3)) (ms_minutes 1) = 2"
proof -
  have h: "history ''A'' example_history" "distinct (map (\<lambda>x. txTransactionId (tx_of x)) example_history)"
    "example_history \<noteq> []" "ms_minutes 1 < ms_hours 36"
    by (simp_all add: example_history_def example_point_def tx_of_def wall_of_def whole_ms_def minutes_def ms_hours_def ms_minutes_def)
  from redis_counts_refine_memory [OF h] show ?thesis
    by (simp add: example_history_def example_point_def tx_of_def wall_of_def mem_Count_def to_point_def minutes_def ms_minutes_def)
qed

section \<open>The contract of a velocity store\<close>

type_synonym recorded = "int \<times> TransactionSnapshot \<times> int"

definition in_window :: "recorded list \<Rightarrow> int \<Rightarrow> recorded list" where
  "in_window h w = filter (\<lambda>x. txTimestamp (tx_of (last h)) - w * 10000 \<le> txTimestamp (tx_of x)) h"

text \<open>What the rules rely on, for the histories a store supports and windows under its limit.\<close>

locale velocity_store =
  fixes supported :: "recorded list \<Rightarrow> bool" and count :: "recorded list \<Rightarrow> int \<Rightarrow> int" and limit :: int
  assumes count_window: "supported h \<Longrightarrow> h \<noteq> [] \<Longrightarrow> w < limit \<Longrightarrow> count h w = int (length (in_window h w))"
begin

lemma counts_current: "supported h \<Longrightarrow> h \<noteq> [] \<Longrightarrow> 0 \<le> w \<Longrightarrow> w < limit \<Longrightarrow> 1 \<le> count h w"
proof -
  assume a: "supported h" "h \<noteq> []" "0 \<le> w" "w < limit"
  then have "last h \<in> set (in_window h w)" by (simp add: in_window_def)
  then have "in_window h w \<noteq> []" by auto
  then show ?thesis using a count_window [of h w] by (cases "in_window h w") auto
qed

lemma window_mono:
  assumes "supported h" and "h \<noteq> []" and "v \<le> w" and "w < limit"
  shows "count h v \<le> count h w"
proof -
  have "in_window h v = filter (\<lambda>x. txTimestamp (tx_of (last h)) - v * 10000 \<le> txTimestamp (tx_of x)) (in_window h w)"
    unfolding in_window_def filter_filter using assms(3) by (intro filter_cong) auto
  then have "length (in_window h v) \<le> length (in_window h w)" by (simp add: length_filter_le)
  then show ?thesis using assms count_window [of h v] count_window [of h w] by simp
qed

end

definition redis_supported :: "string \<Rightarrow> recorded list \<Rightarrow> bool" where
  "redis_supported account h \<longleftrightarrow> history account h \<and> distinct (map (\<lambda>x. txTransactionId (tx_of x)) h)"

definition redis_count :: "string \<Rightarrow> recorded list \<Rightarrow> int \<Rightarrow> int" where
  "redis_count account h w =
     CountAsync (wall_of (last h)) (redis_run h Map.empty) (tx_key account) (UnixTimeMilliseconds (txTimestamp (tx_of (last h)))) w"

definition memory_count :: "recorded list \<Rightarrow> int \<Rightarrow> int" where
  "memory_count h w = mem_Count (map (\<lambda>x. to_point (tx_of x) False) h) (txTimestamp (tx_of (last h))) (w * 10000)"

lemma memory_count_window: "memory_count h w = int (length (in_window h w))"
  by (simp add: memory_count_def mem_Count_def in_window_def filter_map comp_def to_point_def)

interpretation memory: velocity_store "\<lambda>_. True" memory_count limit for limit
  by unfold_locales (rule memory_count_window)

interpretation redis: velocity_store "redis_supported account" "redis_count account" "ms_hours 36" for account
proof
  fix h w
  assume "redis_supported account h" and "h \<noteq> []" and "w < ms_hours 36"
  then have "redis_count account h w = memory_count h w"
    unfolding redis_count_def memory_count_def redis_supported_def by (intro redis_window_count) auto
  then show "redis_count account h w = int (length (in_window h w))" by (simp only: memory_count_window)
qed

text \<open>
  The count of the velocity rule includes the transaction at hand, and a longer window never
  counts less, in the store the services use.
\<close>

theorem redis_velocity_sane:
  assumes "redis_supported account h" and "h \<noteq> []"
  shows "1 \<le> redis_count account h (ms_minutes 1) \<and>
    redis_count account h (ms_minutes 1) \<le> redis_count account h (ms_minutes 5) \<and>
    redis_count account h (ms_minutes 5) \<le> redis_count account h (ms_hours 1)"
  using redis.counts_current [OF assms] redis.window_mono [OF assms]
  by (simp add: ms_minutes_def ms_hours_def)

lemma redis_velocity_sane_witness: "1 \<le> redis_count ''A'' example_history (ms_minutes 1)"
proof -
  have "redis_supported ''A'' example_history" "example_history \<noteq> []"
    by (simp_all add: redis_supported_def example_history_def example_point_def tx_of_def wall_of_def whole_ms_def minutes_def ms_hours_def)
  from redis_velocity_sane [OF this] show ?thesis by blast
qed

end
