(* ===== verification/Store.thy ===== *)
theory Store
  imports RiskEngine Velocity
begin

text \<open>
  The shared state of the services and the repositories over it (\<open>Entities.cs\<close>, \<open>Repositories.cs\<close>).
  A table is the list of its rows in insertion order. Every round trip to the database consumes one
  entry of a schedule of faults: it succeeds, the database is unavailable, or the update is refused
  (as a lost race does); an exhausted schedule is fault-free. The clock stands still during one
  call, and \<open>Guid.CreateVersion7\<close> returns the next unused identifier.

  The context is configured with \<open>EnableRetryOnFailure(5, ...)\<close> (\<open>PersistenceExtensions.cs\<close>): a query or
  a save that finds the database unavailable is tried again up to five times before its caller sees
  the failure. An attempt that fails has changed nothing. Other round trips (Redis, Kafka, SignalR)
  are single.
\<close>

section \<open>Rows and state\<close>

record InboxRow =
  ibxEventId :: guid
  ibxConsumer :: ConsumerGroup
  ibxReceivedAt :: instant
  ibxCompletedAt :: "instant option"

record OutboxRow =
  obxId :: guid
  obxTopic :: KafkaTopic
  obxKey :: string
  obxPayload :: payload
  obxCreatedAt :: instant
  obxPublishedAt :: "instant option"

record TransactionRow =
  trnSnapshot :: TransactionSnapshot
  trnIngestedAt :: instant

record DecisionRow =
  dcnId :: guid
  dcnTransaction :: TransactionSnapshot
  dcnEvaluation :: RiskEvaluation
  dcnCorrelationId :: string
  dcnCreatedAt :: instant
  dcnProfileSnapshot :: CustomerBehaviourProfile

record RulesetRow =
  rstVersion :: string
  rstIsActive :: bool
  rstCreatedAt :: instant

record RuleRow =
  rlrRulesetVersion :: string
  rlrRuleCode :: string
  rlrEnabled :: bool
  rlrScore :: int
  rlrParameters :: "(string \<times> string) list option"

text \<open>
  The list-valued columns of a profile hold JSON: a list of strings, or the list of numbers that
  serialising a list of enumeration values writes.
\<close>

datatype json_list = JStrings "string list" | JCategories "MerchantCategory list"

record ProfileRow =
  pflAccountId :: string
  pflCustomerId :: string
  pflHomeCountry :: string
  pflAverageTransactionAmount :: rat
  pflMedianTransactionAmount :: rat
  pflAverageDailySpend :: rat
  pflCurrency :: string
  pflCommonCountries :: "string list"
  pflCommonMerchants :: "string list"
  pflCommonCategories :: json_list
  pflCommonDevices :: "string list"
  pflTypicalHours :: "int list"
  pflTransactionsPerDay :: rat
  pflAccountOpenedAt :: instant
  pflLifetimeTransactionCount :: int
  pflRecentAmounts :: "rat list"

record DeviceRow =
  dvrCustomerId :: string
  dvrDevice :: KnownDeviceSnapshot

record CaseRow =
  csCaseId :: guid
  csTransactionId :: string
  csCustomerId :: string
  csAccountId :: string
  csRiskScore :: int
  csRiskLevel :: RiskLevel
  csStatus :: CaseStatus
  csAssignedAnalyst :: "string option"
  csAnalystDecision :: "RiskDecision option"
  csCreatedAt :: instant
  csUpdatedAt :: instant

record HistoryRow =
  hstCaseId :: guid
  hstFrom :: CaseStatus
  hstTo :: CaseStatus
  hstActor :: string
  hstNotes :: "string option"
  hstChangedAt :: instant

record NoteRow =
  ntCaseId :: guid
  ntAuthor :: string
  ntBody :: string
  ntCreatedAt :: instant

text \<open>The details of an audit event are the request; its identifier is drawn but not kept.\<close>

record RulePatch =
  rpcRuleCode :: string
  rpcEnabled :: bool
  rpcScore :: int
  rpcParameters :: "(string \<times> string) list option"

record CreateRulesetRequest =
  crqVersion :: string
  crqRules :: "RulePatch list"

record AuditRow =
  audActor :: string
  audAction :: string
  audEntityType :: string
  audEntityId :: string
  audDetails :: CreateRulesetRequest
  audOccurredAt :: instant

record DeadLetterV1 =
  dlSourceTopic :: KafkaTopic
  dlError :: exn
  dlAttempt :: int
  dlPoison :: bool

datatype fault = Fine | Unavailable | UpdateRefused

record World =
  wInbox :: "InboxRow list"
  wOutbox :: "OutboxRow list"
  wTransactions :: "TransactionRow list"
  wDecisions :: "DecisionRow list"
  wRulesets :: "RulesetRow list"
  wRules :: "RuleRow list"
  wProfiles :: "ProfileRow list"
  wDevices :: "DeviceRow list"
  wCases :: "CaseRow list"
  wHistory :: "HistoryRow list"
  wNotes :: "NoteRow list"
  wRedis :: redis
  wLive :: "(bool \<times> RiskDecisionV1) list"
  wPublished :: "(KafkaTopic \<times> string \<times> payload) list"
  wDead :: "DeadLetterV1 list"
  wNow :: instant
  wFresh :: guid
  wFaults :: "fault list"
  wProcessed :: nat
  wBlocked :: nat
  wReview :: nat
  wErrors :: nat
  wCasesOpen :: int
  wAudit :: "AuditRow list"

type_synonym 'a op = "(World, 'a) prog"

section \<open>Round trips\<close>

definition next_fault :: "World \<Rightarrow> fault \<times> World" where
  "next_fault w = (case wFaults w of [] \<Rightarrow> (Fine, w) | f # fs \<Rightarrow> (f, w\<lparr>wFaults := fs\<rparr>))"

text \<open>The execution strategy: attempts until one is not a transient failure, at most \<open>retries\<close> more.\<close>

primrec db_attempts :: "nat \<Rightarrow> World \<Rightarrow> fault \<times> World" where
  "db_attempts 0 w = next_fault w"
| "db_attempts (Suc retries) w =
     (case next_fault w of (flt, w') \<Rightarrow> if flt = Unavailable then db_attempts retries w' else (flt, w'))"

definition MaxRetryCount :: nat where
  "MaxRetryCount = 5"

definition db_fault :: "World \<Rightarrow> fault \<times> World" where
  "db_fault = db_attempts MaxRetryCount"

definition query :: "(World \<Rightarrow> 'a) \<Rightarrow> 'a op" where
  "query f = (\<lambda>w. case db_fault w of (flt, w') \<Rightarrow>
     if flt = Fine then (Inr (f w'), w') else (Inl (TransientInfrastructure ''database''), w'))"

definition SaveChanges :: "(World \<Rightarrow> bool) \<Rightarrow> (World \<Rightarrow> World) \<Rightarrow> unit op" where
  "SaveChanges constraints f = (\<lambda>w. case db_fault w of (flt, w') \<Rightarrow>
     (case flt of
        Unavailable \<Rightarrow> (Inl (TransientInfrastructure ''database''), w')
      | UpdateRefused \<Rightarrow> (Inl DbUpdate, w')
      | Fine \<Rightarrow> if constraints w' then (Inr (), f w') else (Inl DbUpdate, w')))"

definition pcatch :: "'a op \<Rightarrow> (exn \<Rightarrow> 'a op option) \<Rightarrow> 'a op" where
  "pcatch m h = (\<lambda>w. case m w of
     (Inl e, w') \<Rightarrow> (case h e of None \<Rightarrow> (Inl e, w') | Some n \<Rightarrow> n w')
   | (Inr a, w') \<Rightarrow> (Inr a, w'))"

definition CreateVersion7 :: "guid op" where
  "CreateVersion7 = (\<lambda>w. (Inr (wFresh w + 1), w\<lparr>wFresh := wFresh w + 1\<rparr>))"

section \<open>Inbox and outbox\<close>

definition TryBeginAsync :: "guid \<Rightarrow> ConsumerGroup \<Rightarrow> bool op" where
  "TryBeginAsync eventId consumer =
     pbind (query (\<lambda>w. \<exists>x \<in> set (wInbox w). ibxEventId x = eventId)) (\<lambda>seen.
       if seen then preturn False
       else pcatch
         (pthen (SaveChanges (\<lambda>w. \<forall>x \<in> set (wInbox w). ibxEventId x \<noteq> eventId)
                   (\<lambda>w. w\<lparr>wInbox := wInbox w @ [\<lparr>ibxEventId = eventId, ibxConsumer = consumer,
                                                ibxReceivedAt = wNow w, ibxCompletedAt = None\<rparr>]\<rparr>))
                (preturn True))
         (\<lambda>e. if e = DbUpdate then Some (preturn False) else None))"

definition CompleteAsync :: "guid \<Rightarrow> unit op" where
  "CompleteAsync eventId =
     pbind (query (\<lambda>w. \<exists>x \<in> set (wInbox w). ibxEventId x = eventId)) (\<lambda>found.
       if \<not> found then preturn ()
       else SaveChanges (\<lambda>_. True)
         (\<lambda>w. w\<lparr>wInbox := map (\<lambda>x. if ibxEventId x = eventId then x\<lparr>ibxCompletedAt := Some (wNow w)\<rparr> else x) (wInbox w)\<rparr>))"

definition EnqueueAsync :: "KafkaTopic \<Rightarrow> string \<Rightarrow> payload \<Rightarrow> unit op" where
  "EnqueueAsync topic key body =
     pbind CreateVersion7 (\<lambda>ident.
       SaveChanges (\<lambda>w. \<forall>x \<in> set (wOutbox w). obxId x \<noteq> ident)
         (\<lambda>w. w\<lparr>wOutbox := wOutbox w @ [\<lparr>obxId = ident, obxTopic = topic, obxKey = key, obxPayload = body,
                 obxCreatedAt = wNow w, obxPublishedAt = None\<rparr>]\<rparr>))"

definition DequeueBatchAsync :: "nat \<Rightarrow> OutboxRow list op" where
  "DequeueBatchAsync n = query (\<lambda>w. take n (sort_key obxCreatedAt (filter (\<lambda>x. obxPublishedAt x = None) (wOutbox w))))"

definition MarkPublishedAsync :: "guid list \<Rightarrow> unit op" where
  "MarkPublishedAsync ids = SaveChanges (\<lambda>_. True)
     (\<lambda>w. w\<lparr>wOutbox := map (\<lambda>x. if obxId x \<in> set ids then x\<lparr>obxPublishedAt := Some (wNow w)\<rparr> else x) (wOutbox w)\<rparr>)"

section \<open>Decisions and rule sets\<close>

definition ExistsForTransactionAsync :: "string \<Rightarrow> bool op" where
  "ExistsForTransactionAsync transactionId =
     query (\<lambda>w. \<exists>d \<in> set (wDecisions w). txTransactionId (dcnTransaction d) = transactionId)"

text \<open>A column of precision (18, 2) holds sixteen digits before the point; a larger amount refuses the row.\<close>

definition fits_numeric_18_2 :: "rat \<Rightarrow> bool" where
  "fits_numeric_18_2 x \<longleftrightarrow> \<bar>round_away_to 2 x\<bar> < 10 ^ 16"

definition SaveAsync :: "DecisionRow \<Rightarrow> unit op" where
  "SaveAsync d =
     (let tx = dcnTransaction d in
      pbind (query (\<lambda>w. \<exists>t \<in> set (wTransactions w). txTransactionId (trnSnapshot t) = txTransactionId tx)) (\<lambda>known.
        pcatch
          (SaveChanges
             (\<lambda>w. (\<forall>x \<in> set (wDecisions w). txTransactionId (dcnTransaction x) \<noteq> txTransactionId tx) \<and>
                  (known \<or> (\<forall>t \<in> set (wTransactions w). txTransactionId (trnSnapshot t) \<noteq> txTransactionId tx) \<and>
                            fits_numeric_18_2 (mAmount (txAmount tx))))
             (\<lambda>w. w\<lparr>wTransactions := (if known then wTransactions w
                                      else wTransactions w @ [\<lparr>trnSnapshot = tx, trnIngestedAt = dcnCreatedAt d\<rparr>]),
                    wDecisions := wDecisions w @ [d]\<rparr>))
          (\<lambda>e. if e = DbUpdate
               then Some (pbind (ExistsForTransactionAsync (txTransactionId tx))
                            (\<lambda>there. if there then preturn () else praise DbUpdate))
               else None)))"

text \<open>The latest active ruleset: the first among those with the greatest creation time.\<close>

definition active_ruleset :: "World \<Rightarrow> RulesetRow option" where
  "active_ruleset w =
     (case rev (sort_key rstCreatedAt (rev (filter rstIsActive (wRulesets w)))) of [] \<Rightarrow> None | r # _ \<Rightarrow> Some r)"

definition to_parameters :: "RuleRow \<Rightarrow> string \<times> RuleParameterSet" where
  "to_parameters x =
     (rlrRuleCode x, \<lparr>rpRuleCode = rlrRuleCode x, rpEnabled = rlrEnabled x, rpScore = rlrScore x,
                      rpParameters = (case rlrParameters x of None \<Rightarrow> [] | Some ps \<Rightarrow> ps)\<rparr>)"

definition GetActiveAsync :: "(string \<times> (string \<times> RuleParameterSet) list) op" where
  "GetActiveAsync =
     pbind (query active_ruleset) (\<lambda>v.
       case v of
         None \<Rightarrow> praise (InvalidOperation ''Sequence contains no elements'')
       | Some version \<Rightarrow>
           pbind (query (\<lambda>w. filter (\<lambda>x. rlrRulesetVersion x = rstVersion version) (wRules w))) (\<lambda>rows.
             if distinct (map rlrRuleCode rows) then preturn (rstVersion version, map to_parameters rows)
             else praise (ArgumentException ''An item with the same key has already been added.'')))"

section \<open>Profiles as the engine reads them\<close>

definition read_categories :: "json_list \<Rightarrow> exn + MerchantCategory list" where
  "read_categories j = (case j of JCategories cs \<Rightarrow> Inr cs | JStrings ss \<Rightarrow> if ss = [] then Inr [] else Inl JsonFailure)"

definition GetAsync :: "string \<Rightarrow> string \<Rightarrow> string \<Rightarrow> CustomerBehaviourProfile op" where
  "GetAsync accountId customerId currency =
     pbind (query (\<lambda>w. (find (\<lambda>p. pflAccountId p = accountId) (wProfiles w), wNow w))) (\<lambda>(found, now).
       case found of
         None \<Rightarrow> plift (Profile_Empty accountId customerId ''GB'' now currency)
       | Some row \<Rightarrow> plift
           (rbind (new_Money (pflAverageTransactionAmount row) (pflCurrency row)) (\<lambda>avg.
            rbind (new_Money (pflMedianTransactionAmount row) (pflCurrency row)) (\<lambda>med.
            rbind (new_Money (pflAverageDailySpend row) (pflCurrency row)) (\<lambda>daily.
            rbind (read_categories (pflCommonCategories row)) (\<lambda>cats.
            Inr \<lparr>prfAccountId = pflAccountId row, prfCustomerId = pflCustomerId row,
                 prfHomeCountry = pflHomeCountry row, prfAverageTransactionAmount = avg,
                 prfMedianTransactionAmount = med, prfAverageDailySpend = daily,
                 prfCommonCountries = pflCommonCountries row, prfCommonMerchants = pflCommonMerchants row,
                 prfCommonCategories = cats, prfCommonDevices = pflCommonDevices row,
                 prfTypicalHoursUtc = pflTypicalHours row, prfTransactionsPerDay = pflTransactionsPerDay row,
                 prfAccountOpenedAt = pflAccountOpenedAt row,
                 prfLifetimeTransactionCount = pflLifetimeTransactionCount row\<rparr>))))))"

definition GetDevicesAsync :: "string \<Rightarrow> KnownDeviceSnapshot list op" where
  "GetDevicesAsync customerId = query (\<lambda>w. map dvrDevice (filter (\<lambda>d. dvrCustomerId d = customerId) (wDevices w)))"

definition to_historical :: "(string \<times> RiskDecision) list \<Rightarrow> TransactionRow \<Rightarrow> exn + HistoricalTransaction" where
  "to_historical lookup x =
     (let t = trnSnapshot x in
      rbind (new_Money (mAmount (txAmount t)) (mCurrency (txAmount t))) (\<lambda>amount.
      Inr \<lparr>hisTransactionId = txTransactionId t, hisCountry = txCountry t, hisCity = txCity t,
           hisTimestamp = txTimestamp t, hisChannel = txChannel t, hisAmount = amount,
           hisApproved = (case map_of lookup (txTransactionId t) of None \<Rightarrow> True | Some d \<Rightarrow> d = Approve)\<rparr>))"

definition GetRecentTransactionsAsync :: "string \<Rightarrow> nat \<Rightarrow> HistoricalTransaction list op" where
  "GetRecentTransactionsAsync accountId n =
     pbind (query (\<lambda>w. take n (sort_key (\<lambda>x. - txTimestamp (trnSnapshot x))
                         (filter (\<lambda>x. txAccountId (trnSnapshot x) = accountId) (wTransactions w))))) (\<lambda>rows.
     pbind (query (\<lambda>w. map (\<lambda>d. (txTransactionId (dcnTransaction d), evlDecision (dcnEvaluation d)))
                         (filter (\<lambda>d. txAccountId (dcnTransaction d) = accountId) (wDecisions w)))) (\<lambda>lookup.
       plift (rmap (to_historical lookup) rows)))"

section \<open>Runs without faults\<close>

definition fault_free :: "World \<Rightarrow> bool" where
  "fault_free w \<longleftrightarrow> wFaults w = []"

lemma db_attempts_fine: "wFaults w = [] \<Longrightarrow> db_attempts k w = (Fine, w)"
  by (cases k) (simp_all add: next_fault_def)

lemma db_fault_fine [simp]: "wFaults w = [] \<Longrightarrow> db_fault w = (Fine, w)"
  by (simp add: db_fault_def db_attempts_fine)

lemma query_run [simp]: "fault_free w \<Longrightarrow> query f w = (Inr (f w), w)"
  by (simp add: query_def fault_free_def)

lemma SaveChanges_run [simp]:
  "fault_free w \<Longrightarrow> SaveChanges c f w = (if c w then (Inr (), f w) else (Inl DbUpdate, w))"
  by (simp add: SaveChanges_def fault_free_def)

text \<open>
  An outage of at most five round trips is not seen; a longer one uses up six entries of the
  schedule and is.
\<close>

lemma db_attempts_absorb:
  "j \<le> k \<Longrightarrow> wFaults w = replicate j Unavailable @ Fine # fs \<Longrightarrow> db_attempts k w = (Fine, w\<lparr>wFaults := fs\<rparr>)"
proof (induction j arbitrary: k w)
  case 0
  then show ?case by (cases k) (simp_all add: next_fault_def)
next
  case (Suc j)
  then obtain k' where "k = Suc k'" by (cases k) auto
  then show ?case using Suc.IH [of k' "w\<lparr>wFaults := replicate j Unavailable @ Fine # fs\<rparr>"] Suc.prems by (simp add: next_fault_def)
qed

lemma short_outage_absorbed:
  "j \<le> MaxRetryCount \<Longrightarrow> wFaults w = replicate j Unavailable @ Fine # fs \<Longrightarrow> db_fault w = (Fine, w\<lparr>wFaults := fs\<rparr>)"
  unfolding db_fault_def by (rule db_attempts_absorb)

lemma db_fault_up [simp]: "wFaults w = Fine # fs \<Longrightarrow> db_fault w = (Fine, w\<lparr>wFaults := fs\<rparr>)"
  using short_outage_absorbed [of 0 w fs] by simp

lemma db_attempts_exhaust:
  "wFaults w = replicate (Suc k) Unavailable @ fs \<Longrightarrow> db_attempts k w = (Unavailable, w\<lparr>wFaults := fs\<rparr>)"
  by (induction k arbitrary: w) (simp_all add: next_fault_def)

lemma long_outage_seen:
  "wFaults w = replicate (Suc MaxRetryCount) Unavailable @ fs \<Longrightarrow> db_fault w = (Unavailable, w\<lparr>wFaults := fs\<rparr>)"
  unfolding db_fault_def by (rule db_attempts_exhaust)

text \<open>Whatever the attempts, only the schedule changes.\<close>

lemma next_fault_same:
  assumes "next_fault w = (flt, w')"
  shows "\<exists>fs. w' = w\<lparr>wFaults := fs\<rparr>"
  using assms by (cases "wFaults w") (auto simp: next_fault_def intro: exI [of _ "wFaults w"])

lemma db_attempts_same: "db_attempts k w = (flt, w') \<Longrightarrow> \<exists>fs. w' = w\<lparr>wFaults := fs\<rparr>"
proof (induction k arbitrary: w)
  case 0
  then show ?case by (simp add: next_fault_same)
next
  case (Suc k)
  obtain flt1 w1 where n: "next_fault w = (flt1, w1)" by (cases "next_fault w")
  then obtain fs where w1: "w1 = w\<lparr>wFaults := fs\<rparr>" using next_fault_same by blast
  show ?case
  proof (cases "flt1 = Unavailable")
    case True
    then have "db_attempts k w1 = (flt, w')" using Suc.prems n by simp
    from Suc.IH [OF this] w1 show ?thesis by auto
  next
    case False
    then show ?thesis using Suc.prems n w1 by auto
  qed
qed

lemma db_fault_same: "db_fault w = (flt, w') \<Longrightarrow> \<exists>fs. w' = w\<lparr>wFaults := fs\<rparr>"
  unfolding db_fault_def by (rule db_attempts_same)

lemma pcatch_Inr [simp]: "m w = (Inr a, w') \<Longrightarrow> pcatch m h w = (Inr a, w')"
  by (simp add: pcatch_def)

lemma pcatch_Inl [simp]:
  "m w = (Inl e, w') \<Longrightarrow> pcatch m h w = (case h e of None \<Rightarrow> (Inl e, w') | Some n \<Rightarrow> n w')"
  by (simp add: pcatch_def)

lemma CreateVersion7_run [simp]: "CreateVersion7 w = (Inr (wFresh w + 1), w\<lparr>wFresh := wFresh w + 1\<rparr>)"
  by (simp add: CreateVersion7_def)

lemma TryBegin_run:
  assumes "fault_free w"
  shows "TryBeginAsync eventId consumer w =
    (if \<exists>x \<in> set (wInbox w). ibxEventId x = eventId then (Inr False, w)
     else (Inr True, w\<lparr>wInbox := wInbox w @ [\<lparr>ibxEventId = eventId, ibxConsumer = consumer,
                                                ibxReceivedAt = wNow w, ibxCompletedAt = None\<rparr>]\<rparr>))"
  using assms by (auto simp: TryBeginAsync_def)

section \<open>Invariants of the database\<close>

text \<open>Properties that the schedule of faults does not touch, and how operations keep them.\<close>

definition schedule_free :: "(World \<Rightarrow> bool) \<Rightarrow> bool" where
  "schedule_free P \<longleftrightarrow> (\<forall>w fs. P (w\<lparr>wFaults := fs\<rparr>) = P w)"

lemma next_fault_keeps: "schedule_free P \<Longrightarrow> P w \<Longrightarrow> next_fault w = (flt, w') \<Longrightarrow> P w'"
  by (auto simp: next_fault_def schedule_free_def split: list.splits)

lemma db_fault_keeps: "schedule_free P \<Longrightarrow> P w \<Longrightarrow> db_fault w = (flt, w') \<Longrightarrow> P w'"
  by (auto simp: schedule_free_def dest!: db_fault_same)

lemma keeps_query [inv_intros]: "schedule_free P \<Longrightarrow> keeps P (query f)"
  by (auto simp: keeps_def query_def split: prod.splits dest: db_fault_keeps)

lemma keeps_SaveChanges:
  "schedule_free P \<Longrightarrow> (\<And>w. P w \<Longrightarrow> c w \<Longrightarrow> P (f w)) \<Longrightarrow> keeps P (SaveChanges c f)"
  by (auto simp: keeps_def SaveChanges_def split: prod.splits fault.splits dest: db_fault_keeps)

lemma keeps_pcatch [inv_intros]:
  "keeps P m \<Longrightarrow> (\<And>e n. h e = Some n \<Longrightarrow> keeps P n) \<Longrightarrow> keeps P (pcatch m h)"
  by (fastforce simp: keeps_def pcatch_def split: prod.splits sum.splits option.splits)

definition decision_ids :: "World \<Rightarrow> string list" where
  "decision_ids w = map (\<lambda>d. txTransactionId (dcnTransaction d)) (wDecisions w)"

definition transaction_ids :: "World \<Rightarrow> string list" where
  "transaction_ids w = map (\<lambda>t. txTransactionId (trnSnapshot t)) (wTransactions w)"

definition db_ok :: "World \<Rightarrow> bool" where
  "db_ok w \<longleftrightarrow> distinct (map ibxEventId (wInbox w)) \<and> distinct (decision_ids w) \<and> distinct (transaction_ids w) \<and>
     set (decision_ids w) \<subseteq> set (transaction_ids w) \<and>
     distinct (map obxId (wOutbox w)) \<and> (\<forall>x \<in> set (wOutbox w). obxId x \<le> wFresh w)"

lemma db_ok_schedule: "schedule_free db_ok"
  by (simp add: schedule_free_def db_ok_def decision_ids_def transaction_ids_def)

lemma keeps_TryBegin [inv_intros]: "keeps db_ok (TryBeginAsync eventId consumer)"
  unfolding TryBeginAsync_def
  by (intro inv_intros db_ok_schedule keeps_SaveChanges)
    (auto simp: db_ok_def decision_ids_def transaction_ids_def keeps_preturn split: if_splits)

lemma keeps_Complete [inv_intros]: "keeps db_ok (CompleteAsync eventId)"
  unfolding CompleteAsync_def
proof (intro inv_intros db_ok_schedule keeps_SaveChanges)
  fix w
  assume "db_ok w"
  moreover have "ibxEventId \<circ> (\<lambda>x :: InboxRow. if ibxEventId x = eventId then x\<lparr>ibxCompletedAt := t\<rparr> else x) = ibxEventId"
    for t by auto
  ultimately show "db_ok (w\<lparr>wInbox := map (\<lambda>x. if ibxEventId x = eventId then x\<lparr>ibxCompletedAt := Some (wNow w)\<rparr> else x) (wInbox w)\<rparr>)"
    by (simp add: db_ok_def decision_ids_def transaction_ids_def del: set_map)
qed

lemma keeps_Create [inv_intros]: "keeps db_ok CreateVersion7"
  by (auto simp: keeps_def db_ok_def decision_ids_def transaction_ids_def)

lemma keeps_Enqueue [inv_intros]: "keeps db_ok (EnqueueAsync topic key body)"
proof (rule keepsI)
  fix w
  assume ok: "db_ok w"
  let ?w = "w\<lparr>wFresh := wFresh w + 1\<rparr>"
  obtain flt w' where n: "db_fault ?w = (flt, w')" by (cases "db_fault ?w")
  then have w': "\<exists>fs. w' = ?w\<lparr>wFaults := fs\<rparr>" by (rule db_fault_same)
  then have fresh: "wFresh w' = wFresh w + 1" and ok': "db_ok w'"
    using ok by (fastforce simp: db_ok_def decision_ids_def transaction_ids_def simp del: set_map)+
  have new: "\<forall>x \<in> set (wOutbox w'). obxId x \<noteq> wFresh w'"
    using ok w' by (force simp: db_ok_def)
  show "db_ok (snd (EnqueueAsync topic key body w))"
    using ok' new fresh n
    by (cases flt) (auto simp: EnqueueAsync_def SaveChanges_def db_ok_def decision_ids_def transaction_ids_def)
qed

lemma keeps_Exists [inv_intros]: "schedule_free P \<Longrightarrow> keeps P (ExistsForTransactionAsync transactionId)"
  unfolding ExistsForTransactionAsync_def by (rule keeps_query)

text \<open>What a query saw still holds when its continuation starts.\<close>

lemma keeps_query_bind:
  assumes "schedule_free P" and "\<And>w fs. f (w\<lparr>wFaults := fs\<rparr>) = f w"
    and "\<And>w. P w \<Longrightarrow> P (snd (n (f w) w))"
  shows "keeps P (pbind (query f) n)"
proof (rule keepsI)
  fix w
  assume P: "P w"
  obtain flt w' where n: "db_fault w = (flt, w')" by (cases "db_fault w")
  have P': "P w'" using db_fault_keeps [OF assms(1) P n] .
  show "P (snd (pbind (query f) n w))"
    using assms(3) [OF P'] P' n by (cases "flt = Fine") (simp_all add: pbind_def query_def)
qed

lemma db_ok_add:
  assumes ok: "db_ok w" and new: "txTransactionId (dcnTransaction d) \<notin> set (decision_ids w)"
    and ts: "distinct (map (\<lambda>t. txTransactionId (trnSnapshot t)) ts)"
      "set (transaction_ids w) \<subseteq> set (map (\<lambda>t. txTransactionId (trnSnapshot t)) ts)"
      "txTransactionId (dcnTransaction d) \<in> set (map (\<lambda>t. txTransactionId (trnSnapshot t)) ts)"
  shows "db_ok (w\<lparr>wTransactions := ts, wDecisions := wDecisions w @ [d]\<rparr>)"
proof -
  have "decision_ids (w\<lparr>wTransactions := ts, wDecisions := wDecisions w @ [d]\<rparr>) = decision_ids w @ [txTransactionId (dcnTransaction d)]"
    and "transaction_ids (w\<lparr>wTransactions := ts, wDecisions := wDecisions w @ [d]\<rparr>) = map (\<lambda>t. txTransactionId (trnSnapshot t)) ts"
    by (simp_all add: decision_ids_def transaction_ids_def)
  with assms show ?thesis unfolding db_ok_def by auto
qed

lemma keeps_Save [inv_intros]: "keeps db_ok (SaveAsync d)"
  unfolding SaveAsync_def Let_def
proof (rule keeps_query_bind [OF db_ok_schedule])
  fix w :: World
  let ?tid = "txTransactionId (dcnTransaction d)"
  let ?known = "\<exists>t \<in> set (wTransactions w). txTransactionId (trnSnapshot t) = ?tid"
  let ?c = "\<lambda>w. (\<forall>x \<in> set (wDecisions w). txTransactionId (dcnTransaction x) \<noteq> ?tid) \<and>
      (?known \<or> (\<forall>t \<in> set (wTransactions w). txTransactionId (trnSnapshot t) \<noteq> ?tid) \<and>
        fits_numeric_18_2 (mAmount (txAmount (dcnTransaction d))))"
  let ?f = "\<lambda>w. w\<lparr>wTransactions := (if ?known then wTransactions w
        else wTransactions w @ [\<lparr>trnSnapshot = dcnTransaction d, trnIngestedAt = dcnCreatedAt d\<rparr>]),
      wDecisions := wDecisions w @ [d]\<rparr>"
  let ?h = "\<lambda>e. if e = DbUpdate
      then Some (pbind (ExistsForTransactionAsync ?tid) (\<lambda>there. if there then preturn () else praise DbUpdate)) else None"
  assume ok: "db_ok w"
  obtain flt w' where n: "db_fault w = (flt, w')" by (cases "db_fault w")
  have ok': "db_ok w'" using db_fault_keeps [OF db_ok_schedule ok n] .
  have same: "wTransactions w' = wTransactions w" using db_fault_same [OF n] by auto
  have step: "db_ok (?f w')" if c: "?c w'"
  proof (rule db_ok_add [OF ok'])
    show "?tid \<notin> set (decision_ids w')" using c by (auto simp: decision_ids_def)
    have d: "distinct (transaction_ids w')" using ok' by (simp add: db_ok_def)
    show "distinct (map (\<lambda>t. txTransactionId (trnSnapshot t)) (if ?known then wTransactions w'
        else wTransactions w' @ [\<lparr>trnSnapshot = dcnTransaction d, trnIngestedAt = dcnCreatedAt d\<rparr>]))"
      using d same c by (cases ?known) (auto simp: transaction_ids_def)
    show "set (transaction_ids w') \<subseteq> set (map (\<lambda>t. txTransactionId (trnSnapshot t)) (if ?known then wTransactions w'
        else wTransactions w' @ [\<lparr>trnSnapshot = dcnTransaction d, trnIngestedAt = dcnCreatedAt d\<rparr>]))"
      by (auto simp: transaction_ids_def)
    show "?tid \<in> set (map (\<lambda>t. txTransactionId (trnSnapshot t)) (if ?known then wTransactions w'
        else wTransactions w' @ [\<lparr>trnSnapshot = dcnTransaction d, trnIngestedAt = dcnCreatedAt d\<rparr>]))"
      using same by (cases ?known) force+
  qed
  have "db_ok (snd (SaveChanges ?c ?f w))"
    using step ok' n by (cases flt) (simp_all add: SaveChanges_def)
  moreover have "keeps db_ok n" if "?h e = Some n" for e n
    using that by (auto split: if_splits intro!: inv_intros db_ok_schedule)
  ultimately show "db_ok (snd (pcatch (SaveChanges ?c ?f) ?h w))"
    by (auto simp: pcatch_def keeps_def split: prod.splits sum.splits option.splits)
qed simp

end
