(* ===== verification/Processing.thy ===== *)
theory Processing
  imports Store
begin

text \<open>
  The scoring service: \<open>TransactionValidator\<close> (\<open>Abstractions.cs\<close>) and
  \<open>TransactionProcessingService.ProcessAsync\<close>, with the risk model as a parameter. The elapsed time of
  an evaluation is a parameter as well.
\<close>

section \<open>Validation\<close>

definition the_string :: "string option \<Rightarrow> string" where
  "the_string s = (case s of None \<Rightarrow> [] | Some x \<Rightarrow> x)"

definition snapshot_of :: "TransactionReceivedV1 \<Rightarrow> Money \<Rightarrow> TransactionSnapshot" where
  "snapshot_of m amount =
          \<lparr>txTransactionId = Trim (the_string (rcvTransactionId m)),
           txAccountId = Trim (the_string (rcvAccountId m)),
           txCustomerId = Trim (the_string (rcvCustomerId m)),
           txAmount = amount,
           txMerchantId = Trim (the_string (rcvMerchantId m)),
           txMerchantCategory = rcvMerchantCategory m,
           txCountry = ToUpperInvariant (Trim (the_string (rcvCountry m))),
           txCity = rcvCity m,
           txTimestamp = rcvTimestamp m,
           txCardPresent = rcvCardPresent m,
           txChannel = rcvChannel m,
           txDeviceId = rcvDeviceId m,
           txIpAddress = rcvIpAddress m,
           txCorrelationId = (if IsNullOrWhiteSpace (rcvCorrelationId m) then guid_N (rcvEventId m)
                              else the_string (rcvCorrelationId m))\<rparr>"

definition Validate :: "TransactionReceivedV1 \<Rightarrow> exn + TransactionSnapshot Result" where
  "Validate m =
     (if IsNullOrWhiteSpace (rcvTransactionId m) then Result_Failure (Error_Validation ''TransactionId is required.'')
      else if IsNullOrWhiteSpace (rcvAccountId m) then Result_Failure (Error_Validation ''AccountId is required.'')
      else if IsNullOrWhiteSpace (rcvCustomerId m) then Result_Failure (Error_Validation ''CustomerId is required.'')
      else if rcvAmount m \<le> 0 then Result_Failure (Error_Validation ''Amount must be greater than zero.'')
      else if IsNullOrWhiteSpace (rcvCurrency m) \<or> length (the_string (rcvCurrency m)) \<noteq> 3
        then Result_Failure (Error_Validation ''Currency must be a 3-letter ISO code.'')
      else if IsNullOrWhiteSpace (rcvCountry m) \<or> length (the_string (rcvCountry m)) \<noteq> 2
        then Result_Failure (Error_Validation ''Country must be a 2-letter ISO code.'')
      else if IsNullOrWhiteSpace (rcvMerchantId m) then Result_Failure (Error_Validation ''MerchantId is required.'')
      else if rcvEventId m = Guid_Empty then Result_Failure (Error_Validation ''EventId is required.'')
      else rbind (new_Money (rcvAmount m) (the_string (rcvCurrency m))) (\<lambda>amount.
        Result_Success (snapshot_of m amount)))"

section \<open>Processing a transaction\<close>

definition MapDecision :: "guid \<Rightarrow> TransactionReceivedV1 \<Rightarrow> TransactionSnapshot \<Rightarrow> RiskEvaluation \<Rightarrow> RiskDecisionV1" where
  "MapDecision ident original tx e =
     \<lparr>decEventId = ident, decCorrelationId = txCorrelationId tx, decOccurredAt = evlEvaluatedAt e,
      decTransactionId = txTransactionId tx, decAccountId = txAccountId tx, decCustomerId = txCustomerId tx,
      decRiskScore = evlRiskScore e, decRiskLevel = evlRiskLevel e, decDecision = evlDecision e,
      decTriggeredRules = map (\<lambda>r. \<lparr>trgRuleCode = resRuleCode r, trgScore = resScore r,
                                     trgReason = resReason r, trgEvidence = resEvidence r\<rparr>) (evlTriggeredRules e),
      decReasons = evlReasons e, decEvidence = evlEvidence e, decProcessingTimeMs = evlProcessingTimeMs e,
      decModelVersion = evlModelVersion e, decRulesetVersion = evlRulesetVersion e, decTransaction = original\<rparr>"

definition record_velocity :: "TransactionSnapshot \<Rightarrow> bool \<Rightarrow> VelocitySnapshot op" where
  "record_velocity tx failed = (\<lambda>w. case next_fault w of (flt, w') \<Rightarrow>
     if flt \<noteq> Fine then (Inl (TransientInfrastructure ''redis''), w')
     else case RedisRecordAndSnapshot (UnixTimeMilliseconds (wNow w')) tx failed (wRedis w') of
       (r, redis) \<Rightarrow> (r, w'\<lparr>wRedis := redis\<rparr>))"

definition count_decision :: "RiskDecision \<Rightarrow> World \<Rightarrow> World" where
  "count_decision d w =
     (let w = w\<lparr>wProcessed := wProcessed w + 1\<rparr> in
      if d = Block then w\<lparr>wBlocked := wBlocked w + 1\<rparr>
      else if d = Review then w\<lparr>wReview := wReview w + 1\<rparr> else w)"

definition raise_alert :: "TransactionSnapshot \<Rightarrow> RiskEvaluation \<Rightarrow> unit op" where
  "raise_alert tx e =
     pbind CreateVersion7 (\<lambda>ident.
     pbind (pget wNow) (\<lambda>now.
       EnqueueAsync Alerts (txAccountId tx)
         (Alerted \<lparr>alrEventId = ident, alrCorrelationId = txCorrelationId tx, alrOccurredAt = now,
                   alrTransactionId = txTransactionId tx, alrAccountId = txAccountId tx,
                   alrCustomerId = txCustomerId tx, alrDecision = evlDecision e, alrRiskScore = evlRiskScore e,
                   alrSummary = evlReasons e\<rparr>)))"

type_synonym model = "RiskContext \<Rightarrow> exn + ModelRiskResult"

text \<open>The profile, devices, history and velocity the rules read, gathered in the code's order.\<close>

definition gather_context :: "TransactionSnapshot \<Rightarrow> RiskContext op" where
  "gather_context tx =
     pbind GetActiveAsync (\<lambda>(version, parameters).
     pbind (GetAsync (txAccountId tx) (txCustomerId tx) (mCurrency (txAmount tx))) (\<lambda>profile.
     pbind (GetDevicesAsync (txCustomerId tx)) (\<lambda>devices.
     pbind (GetRecentTransactionsAsync (txAccountId tx) 20) (\<lambda>recent.
     pbind (record_velocity tx False) (\<lambda>velocity.
     pbind (pget wNow) (\<lambda>now.
       preturn \<lparr>ctxTransaction = tx, ctxProfile = profile, ctxVelocity = velocity, ctxKnownDevices = devices,
                ctxRecentTransactions = recent, ctxRuleParameters = parameters, ctxRulesetVersion = version,
                ctxEvaluatedAt = now\<rparr>))))))"

definition publish_evaluation :: "TransactionReceivedV1 \<Rightarrow> TransactionSnapshot \<Rightarrow> RiskEvaluation \<Rightarrow> unit op" where
  "publish_evaluation msg tx e =
     pbind CreateVersion7 (\<lambda>ident1.
     pbind (pget wNow) (\<lambda>now.
     pthen (EnqueueAsync TransactionsValidated (txAccountId tx)
              (Validated \<lparr>valEventId = ident1, valCorrelationId = txCorrelationId tx, valOccurredAt = now, valTransaction = msg\<rparr>))
     (pbind CreateVersion7 (\<lambda>ident2.
     pthen (EnqueueAsync RiskDecisions (txAccountId tx) (Decided (MapDecision ident2 msg tx e)))
     (if evlDecision e \<in> {Review, Block} then raise_alert tx e else preturn ())))))"

definition score_and_record :: "model \<Rightarrow> int \<Rightarrow> TransactionReceivedV1 \<Rightarrow> TransactionSnapshot \<Rightarrow> unit op" where
  "score_and_record model ms msg tx =
     pbind (gather_context tx) (\<lambda>ctx.
     pbind (plift (risk_engine model ms ctx)) (\<lambda>e.
     pbind CreateVersion7 (\<lambda>ident.
     pbind (pget wNow) (\<lambda>now.
     pthen (SaveAsync \<lparr>dcnId = ident, dcnTransaction = tx, dcnEvaluation = e, dcnCorrelationId = txCorrelationId tx,
                       dcnCreatedAt = now, dcnProfileSnapshot = ctxProfile ctx\<rparr>)
     (pthen (publish_evaluation msg tx e)
     (pthen (CompleteAsync (rcvEventId msg))
            (pmodify (count_decision (evlDecision e)))))))))"

definition process_claimed :: "model \<Rightarrow> int \<Rightarrow> TransactionReceivedV1 \<Rightarrow> TransactionSnapshot \<Rightarrow> unit op" where
  "process_claimed model ms msg tx =
     pbind (ExistsForTransactionAsync (txTransactionId tx)) (\<lambda>there.
       if there then CompleteAsync (rcvEventId msg) else score_and_record model ms msg tx)"

definition is_poison :: "exn \<Rightarrow> bool" where
  "is_poison e = (case e of PoisonMessage _ \<Rightarrow> True | _ \<Rightarrow> False)"

text \<open>The catch clauses: poison passes, cancellation passes, everything else is counted and passes.\<close>

definition count_errors :: "'a op \<Rightarrow> 'a op" where
  "count_errors m = pcatch m (\<lambda>e.
     if is_poison e \<or> e = OperationCanceled then None
     else Some (pthen (pmodify (\<lambda>w. w\<lparr>wErrors := wErrors w + 1\<rparr>)) (praise e)))"

definition ProcessAsync :: "model \<Rightarrow> int \<Rightarrow> TransactionReceivedV1 \<Rightarrow> unit op" where
  "ProcessAsync model ms msg =
     pbind (plift (Validate msg)) (\<lambda>validation.
       if IsFailure validation
       then praise (PoisonMessage (case resError validation of None \<Rightarrow> [] | Some e \<Rightarrow> errMessage e))
       else pbind (plift (Result_Value validation)) (\<lambda>v.
         case v of None \<Rightarrow> preturn () | Some tx \<Rightarrow>
         pbind (TryBeginAsync (rcvEventId msg) TransactionProcessor) (\<lambda>claimed.
           if \<not> claimed then preturn () else count_errors (process_claimed model ms msg tx))))"

section \<open>What the validator lets through\<close>

definition acceptable :: "TransactionReceivedV1 \<Rightarrow> bool" where
  "acceptable m \<longleftrightarrow> \<not> IsNullOrWhiteSpace (rcvTransactionId m) \<and> \<not> IsNullOrWhiteSpace (rcvAccountId m) \<and>
     \<not> IsNullOrWhiteSpace (rcvCustomerId m) \<and> 0 < rcvAmount m \<and>
     \<not> IsNullOrWhiteSpace (rcvCurrency m) \<and> length (the_string (rcvCurrency m)) = 3 \<and>
     \<not> IsNullOrWhiteSpace (rcvCountry m) \<and> length (the_string (rcvCountry m)) = 2 \<and>
     \<not> IsNullOrWhiteSpace (rcvMerchantId m) \<and> rcvEventId m \<noteq> Guid_Empty"

definition normal_form :: "TransactionReceivedV1 \<Rightarrow> TransactionSnapshot \<Rightarrow> bool" where
  "normal_form m tx \<longleftrightarrow>
     txTransactionId tx = Trim (the_string (rcvTransactionId m)) \<and> txTransactionId tx \<noteq> [] \<and>
     txAccountId tx = Trim (the_string (rcvAccountId m)) \<and> txAccountId tx \<noteq> [] \<and>
     txCustomerId tx = Trim (the_string (rcvCustomerId m)) \<and> txCustomerId tx \<noteq> [] \<and>
     money_ok (txAmount tx) \<and> mAmount (txAmount tx) = round_away_to 2 (rcvAmount m) \<and>
     ToUpperInvariant (txCountry tx) = txCountry tx \<and> Trim (txCountry tx) = txCountry tx \<and>
     txTimestamp tx = rcvTimestamp m \<and> txChannel tx = rcvChannel m \<and> txDeviceId tx = rcvDeviceId m"

lemma white_the_string:
  "\<not> IsNullOrWhiteSpace s \<Longrightarrow> \<not> IsNullOrWhiteSpace (Some (the_string s)) \<and> Trim (the_string s) \<noteq> []"
  by (cases s) (simp_all add: IsNullOrWhiteSpace_def the_string_def Trim_Nil_iff)

lemma if_refuses:
  "(\<not> c \<Longrightarrow> \<exists>e. x = Result_Failure (Error_Validation e)) \<Longrightarrow>
   \<exists>e. (if c then Result_Failure (Error_Validation a) else x) = Result_Failure (Error_Validation e)"
  by auto

lemma Validate_refuses:
  assumes "\<not> acceptable m"
  shows "\<exists>e. Validate m = Inr \<lparr>resValue = None, resIsSuccess = False, resError = Some (Error_Validation e)\<rparr>"
proof -
  have "\<exists>e. Validate m = Result_Failure (Error_Validation e)"
    unfolding Validate_def
    by (intro if_refuses) (use assms in \<open>simp add: acceptable_def\<close>)
  then show ?thesis by (simp add: Result_Failure_def new_Result_def)
qed

lemma Validate_accepts:
  assumes "acceptable m"
  shows "\<exists>tx. Validate m = Inr \<lparr>resValue = Some tx, resIsSuccess = True, resError = None\<rparr> \<and> normal_form m tx"
proof -
  have cur: "\<not> IsNullOrWhiteSpace (Some (the_string (rcvCurrency m)))" and pos: "0 \<le> rcvAmount m"
    using assms white_the_string [of "rcvCurrency m"] by (auto simp: acceptable_def)
  have ids: "Trim (the_string (rcvTransactionId m)) \<noteq> []" "Trim (the_string (rcvAccountId m)) \<noteq> []"
      "Trim (the_string (rcvCustomerId m)) \<noteq> []"
    using assms white_the_string by (auto simp: acceptable_def)
  let ?amount = "\<lparr>mAmount = round_away_to 2 (rcvAmount m), mCurrency = ToUpperInvariant (Trim (the_string (rcvCurrency m)))\<rparr>"
  have amount: "new_Money (rcvAmount m) (the_string (rcvCurrency m)) = Inr ?amount"
    unfolding new_Money_def using cur pos by simp
  have "normal_form m (snapshot_of m ?amount)"
    unfolding normal_form_def snapshot_of_def using ids new_Money_ok [OF amount] by (simp add: Trim_upper)
  moreover have "Validate m = Result_Success (snapshot_of m ?amount)"
    unfolding Validate_def amount using assms unfolding acceptable_def by simp
  ultimately show ?thesis by (simp add: Result_Success_def new_Result_def)
qed

text \<open>
  Validation never throws; it succeeds exactly on the acceptable messages, and then returns the
  normal form of the message: trimmed identifiers, an exact amount of minor units, a country in
  upper case.
\<close>

theorem validator_spec:
  "\<exists>r. Validate m = Inr r \<and> (resIsSuccess r \<longleftrightarrow> acceptable m) \<and>
     (case resValue r of Some tx \<Rightarrow> acceptable m \<and> normal_form m tx | None \<Rightarrow> \<not> acceptable m \<and> resError r \<noteq> None)"
proof (cases "acceptable m")
  case True
  from Validate_accepts [OF this] True show ?thesis by auto
next
  case False
  from Validate_refuses [OF this] False show ?thesis by auto
qed

definition example_message :: TransactionReceivedV1 where
  "example_message = \<lparr>rcvEventId = 7, rcvCorrelationId = Some ''trace-1'', rcvOccurredAt = 0, rcvTransactionId = Some ''T1'',
     rcvAccountId = Some ''A1'', rcvCustomerId = Some ''C1'', rcvAmount = 7000, rcvCurrency = Some ''GBP'',
     rcvMerchantId = Some ''M1'', rcvMerchantCategory = Crypto, rcvCountry = Some ''US'', rcvCity = None,
     rcvTimestamp = hours 3, rcvCardPresent = False, rcvChannel = WEB, rcvDeviceId = None, rcvIpAddress = None\<rparr>"

text \<open>
  Two inputs the checks of length and sign do not catch, since they run before trimming and before
  rounding: a one-letter country becomes a snapshot, and so does an amount of less than half a
  minor unit, as zero.
\<close>

theorem validator_gaps:
  "\<exists>tx. Validate (example_message\<lparr>rcvCountry := Some '' g'', rcvAmount := 1 / 1000\<rparr>)
          = Inr \<lparr>resValue = Some tx, resIsSuccess = True, resError = None\<rparr> \<and>
        txCountry tx = ''G'' \<and> mAmount (txAmount tx) = 0"
proof -
  have "(char_of (71 :: nat) :: char) = CHR ''G''" by code_simp
  moreover have "\<lfloor>3 / 5 :: rat\<rfloor> = 0" by (simp add: floor_eq_iff)
  ultimately show ?thesis
    by (simp add: Validate_def snapshot_of_def example_message_def IsNullOrWhiteSpace_def the_string_def Guid_Empty_def
      new_Money_def Result_Success_def new_Result_def is_white_def Trim_def ToUpperInvariant_def upper_char_def
      round_away_to_def round_away_def)
qed

section \<open>Safety of processing under faults\<close>

lemma keeps_case_prod [inv_intros]: "(\<And>a b. keeps P (f a b)) \<Longrightarrow> keeps P (case p of (a, b) \<Rightarrow> f a b)"
  by (cases p) simp

lemma keeps_case_option [inv_intros]:
  "keeps P n \<Longrightarrow> (\<And>a. keeps P (s a)) \<Longrightarrow> keeps P (case x of None \<Rightarrow> n | Some a \<Rightarrow> s a)"
  by (cases x) simp_all

lemma keeps_GetActive [inv_intros]: "schedule_free P \<Longrightarrow> keeps P GetActiveAsync"
  unfolding GetActiveAsync_def by (intro inv_intros)

lemma keeps_Get [inv_intros]: "schedule_free P \<Longrightarrow> keeps P (GetAsync a c cur)"
  unfolding GetAsync_def by (intro inv_intros)

lemma keeps_GetDevices [inv_intros]: "schedule_free P \<Longrightarrow> keeps P (GetDevicesAsync c)"
  unfolding GetDevicesAsync_def by (intro inv_intros)

lemma keeps_GetRecent [inv_intros]: "schedule_free P \<Longrightarrow> keeps P (GetRecentTransactionsAsync a n)"
  unfolding GetRecentTransactionsAsync_def by (intro inv_intros)

lemma keeps_record_velocity:
  assumes "schedule_free P"
    and "\<And>w minor. P w \<Longrightarrow> P (w\<lparr>wRedis := RedisRecord (UnixTimeMilliseconds (wNow w)) tx failed minor (wRedis w)\<rparr>)"
  shows "keeps P (record_velocity tx failed)"
proof (rule keepsI)
  fix w
  assume P: "P w"
  obtain flt w' where n: "next_fault w = (flt, w')" by (cases "next_fault w")
  have P': "P w'" using next_fault_keeps [OF assms(1) P n] .
  have "P (w'\<lparr>wRedis := wRedis w'\<rparr>)" using P' by simp
  then show "P (snd (record_velocity tx failed w))"
    using n P' assms(2) [OF P']
    by (cases "ToMinorUnits (txAmount tx)")
      (auto simp: record_velocity_def RedisRecordAndSnapshot_def pbind_def pthen_def)
qed

lemma keeps_gather:
  assumes "schedule_free P"
    and "\<And>w minor. P w \<Longrightarrow> P (w\<lparr>wRedis := RedisRecord (UnixTimeMilliseconds (wNow w)) tx False minor (wRedis w)\<rparr>)"
  shows "keeps P (gather_context tx)"
  unfolding gather_context_def by (intro inv_intros assms keeps_record_velocity)

lemma db_ok_count: "db_ok w \<Longrightarrow> db_ok (count_decision d w)"
  by (simp add: db_ok_def count_decision_def Let_def decision_ids_def transaction_ids_def)

lemma keeps_alert [inv_intros]: "keeps db_ok (raise_alert tx e)"
  unfolding raise_alert_def by (intro inv_intros)

lemma keeps_publish [inv_intros]: "keeps db_ok (publish_evaluation msg tx e)"
  unfolding publish_evaluation_def by (intro inv_intros)

lemma keeps_gather_db [inv_intros]: "keeps db_ok (gather_context tx)"
  by (rule keeps_gather [OF db_ok_schedule]) (simp add: db_ok_def decision_ids_def transaction_ids_def)

lemma keeps_score [inv_intros]: "keeps db_ok (score_and_record model ms msg tx)"
  unfolding score_and_record_def by (intro inv_intros keeps_pmodify db_ok_count)

lemma keeps_errors [inv_intros]: "keeps db_ok m \<Longrightarrow> keeps db_ok (count_errors m)"
  unfolding count_errors_def
  by (intro inv_intros)
    (auto split: if_splits intro!: inv_intros keeps_pmodify simp: db_ok_def decision_ids_def transaction_ids_def)

lemma keeps_process: "keeps db_ok (ProcessAsync model ms msg)"
  unfolding ProcessAsync_def process_claimed_def by (intro inv_intros db_ok_schedule)

text \<open>
  C2: whatever the database and Redis do (any schedule of faults and lost races), processing keeps the
  tables consistent: one inbox row per event, at most one decision per transaction, each with its
  transaction, and fresh outbox identifiers.
\<close>

theorem processing_keeps_tables: "keeps db_ok (ProcessAsync model ms msg)"
  by (rule keeps_process)

end
