(* ===== verification/RuleProperties.thy ===== *)
theory RuleProperties
  imports RiskEngine
begin

text \<open>
  Properties of single rules, and the edge of the engine's arithmetic.
\<close>

text \<open>
  The contract every rule keeps. A rule that stays silent returns its own neutral result, no
  score is negative, and only the rules that compute with configured amounts, \<open>HighValueRule\<close> and
  \<open>BehaviourDeviationRule\<close>, can throw.
\<close>

theorem rules_keep_contract:
  "case rule c ctx of
     Inr r \<Rightarrow> 0 \<le> resScore r \<and> (resTriggered r \<or> r = NotTriggered (code c))
   | Inl e \<Rightarrow> e = ArithmeticOverflow \<and> c \<in> {HighValue, BehaviourDeviation}"
  using rr.nonneg [of c ctx] rr.silent [of c ctx] rule_throws [of c ctx] by (auto split: sum.split)

text \<open>
  An hour is unusual exactly when it is two hours or more, around midnight as well, from every
  typical hour; without a pattern, exactly from 1 to 4 o'clock UTC.
\<close>

theorem unusual_time_hours:
  assumes "\<forall>h \<in> set (prfTypicalHoursUtc (ctxProfile ctx)). 0 \<le> h \<and> h < 24"
  shows "\<exists>r. UnusualTimeRule ctx = Inr r \<and>
    (resTriggered r \<longleftrightarrow>
      (let now = hour_of (txTimestamp (ctxTransaction ctx)); typical = prfTypicalHoursUtc (ctxProfile ctx)
       in if typical = [] then 1 \<le> now \<and> now \<le> 4 else \<forall>h \<in> set typical. 2 \<le> hour_gap now h))"
proof -
  let ?now = "hour_of (txTimestamp (ctxTransaction ctx))"
  have "?now \<in> set t \<or> (?now + 23) mod 24 \<in> set t \<or> (?now + 1) mod 24 \<in> set t
      \<longleftrightarrow> \<not> (\<forall>h \<in> set t. 2 \<le> hour_gap ?now h)"
    if "\<forall>h \<in> set t. 0 \<le> h \<and> h < 24" for t
  proof -
    have "hour_gap ?now h \<le> 1 \<longleftrightarrow> h = ?now \<or> h = (?now + 23) mod 24 \<or> h = (?now + 1) mod 24" if "h \<in> set t" for h
      using hour_gap_le_1 [of ?now h] hour_of_range \<open>\<forall>h \<in> set t. 0 \<le> h \<and> h < 24\<close> that by blast
    moreover have "2 \<le> hour_gap ?now h \<longleftrightarrow> \<not> hour_gap ?now h \<le> 1" for h by linarith
    ultimately show ?thesis by blast
  qed
  from this [OF assms] show ?thesis
    by (simp add: UnusualTimeRule_def Let_def del: code.simps)
qed

lemma unusual_time_hours_witness:
  "\<exists>r. UnusualTimeRule example_context = Inr r \<and> resTriggered r"
  using unusual_time_hours [of example_context]
  by (simp add: example_context_def example_profile_def example_transaction_def)

text \<open>The least speed a limit rules out.\<close>

definition elapsed_hours :: "instant \<Rightarrow> instant \<Rightarrow> real" where
  "elapsed_hours a b =
     (let h = \<bar>real_of_int (a - b)\<bar> / real_of_int ticks_per_hour in if h \<le> 0 then 1 / 60 else h)"

lemma elapsed_hours_pos: "0 < elapsed_hours a b"
  by (simp add: elapsed_hours_def Let_def)

text \<open>
  Impossible travel is reported only for a present customer, against the latest transaction that
  needed presence, and only when the places are farther apart than the finite speed limit allows in
  the elapsed time (taken as one minute when it is zero).
\<close>

theorem impossible_travel_sound:
  assumes "ImpossibleTravelRule ctx = Inr r" and "resTriggered r"
    and "GetDouble (ParametersFor ctx (code ImpossibleTravel)) ''maxSpeedKmh'' (Finite 900) = Finite limit"
  shows "RequiresPhysicalPresence (txChannel (ctxTransaction ctx)) \<and>
    (\<exists>prev a b. prev \<in> set (ctxRecentTransactions ctx) \<and> RequiresPhysicalPresence (hisChannel prev) \<and>
       (\<forall>t \<in> set (ctxRecentTransactions ctx). RequiresPhysicalPresence (hisChannel t) \<longrightarrow> hisTimestamp t \<le> hisTimestamp prev) \<and>
       Resolve (hisCountry prev) (hisCity prev) = Some a \<and>
       Resolve (txCountry (ctxTransaction ctx)) (txCity (ctxTransaction ctx)) = Some b \<and>
       of_rat limit * elapsed_hours (txTimestamp (ctxTransaction ctx)) (hisTimestamp prev) < DistanceKm a b)"
proof -
  let ?tx = "ctxTransaction ctx"
  let ?past = "filter (\<lambda>t. RequiresPhysicalPresence (hisChannel t)) (ctxRecentTransactions ctx)"
  have phys: "RequiresPhysicalPresence (txChannel ?tx)"
    using assms(1,2) by (auto simp: ImpossibleTravelRule_def Let_def split: if_splits)
  obtain prev where prev: "first_latest ?past = Some prev"
    using assms(1,2) by (cases "first_latest ?past")
      (auto simp: ImpossibleTravelRule_def Let_def NotTriggered_def split: if_splits)
  obtain a b where ab: "Resolve (hisCountry prev) (hisCity prev) = Some a" "Resolve (txCountry ?tx) (txCity ?tx) = Some b"
    using assms(1,2) prev phys
    by (cases "Resolve (hisCountry prev) (hisCity prev)"; cases "Resolve (txCountry ?tx) (txCity ?tx)")
      (auto simp: ImpossibleTravelRule_def Let_def)
  have "exceeds (DistanceKm a b / elapsed_hours (txTimestamp ?tx) (hisTimestamp prev)) (Finite limit)"
    using assms phys prev ab
    by (auto simp: ImpossibleTravelRule_def Let_def elapsed_hours_def simp del: code.simps split: if_splits)
  then have "of_rat limit < DistanceKm a b / elapsed_hours (txTimestamp ?tx) (hisTimestamp prev)"
    by (simp add: exceeds_def)
  then have "of_rat limit * elapsed_hours (txTimestamp ?tx) (hisTimestamp prev) < DistanceKm a b"
    using elapsed_hours_pos by (simp add: pos_less_divide_eq)
  with phys ab first_latest_max [OF prev] show ?thesis by auto
qed

definition travel_context :: RiskContext where
  "travel_context = example_context
     \<lparr>ctxTransaction := example_transaction\<lparr>txChannel := POS\<rparr>,
      ctxRecentTransactions := [\<lparr>hisTransactionId = ''T0'', hisCountry = ''GB'', hisCity = None, hisTimestamp = hours 2,
         hisChannel = ATM, hisAmount = example_money, hisApproved = True\<rparr>],
      ctxRuleParameters := [(code ImpossibleTravel, \<lparr>rpRuleCode = code ImpossibleTravel, rpEnabled = True, rpScore = 40,
         rpParameters = [(''maxSpeedKmh'', ''0'')]\<rparr>)]\<rparr>"

lemma GB_US_apart: "0 < DistanceKm (geo (515074 / 10000) (- 1278 / 10000) ''London'') (geo (407128 / 10000) (- 740060 / 10000) ''New York'')"
  (is "0 < DistanceKm ?a ?b")
proof -
  have lat: "0 \<le> cos (DegreesToRadians (Latitude ?a))" "0 \<le> cos (DegreesToRadians (Latitude ?b))"
    by (rule cos_latitude; simp add: geo_def)+
  have d: "DegreesToRadians (Latitude ?b - Latitude ?a) / 2 = - (107946 / 3600000 * pi)"
    by (simp add: DegreesToRadians_def geo_def of_rat_divide of_rat_minus)
  have "0 < sin (107946 / 3600000 * pi)" by (rule sin_gt_zero) (use pi_gt_zero in auto)
  then have "0 < (sin (DegreesToRadians (Latitude ?b - Latitude ?a) / 2))\<^sup>2" unfolding d by simp
  then have "0 < haversine ?a ?b" using lat by (simp add: haversine_def Let_def add_pos_nonneg)
  then have "0 < min 1 (sqrt (haversine ?a ?b))" and "min 1 (sqrt (haversine ?a ?b)) \<le> 1" by auto
  then have "arcsin 0 < arcsin (min 1 (sqrt (haversine ?a ?b)))" by (intro arcsin_less_arcsin) auto
  then show ?thesis by (simp add: DistanceKm_def)
qed

lemma travel_resolve:
  "Resolve ''GB'' None = Some (geo (515074 / 10000) (- 1278 / 10000) ''London'')"
  "Resolve ''US'' None = Some (geo (407128 / 10000) (- 740060 / 10000) ''New York'')"
  by (simp_all add: Resolve_def IsNullOrWhiteSpace_def lookup_ignore_case_def CountryCentroids_def equals_ignore_case_def
    ToUpperInvariant_def upper_char_def)

lemma travel_limit: "GetDouble (ParametersFor travel_context (code ImpossibleTravel)) ''maxSpeedKmh'' (Finite 900) = Finite 0"
  using dbl_max_bounds by (simp add: travel_context_def ParametersFor_def GetDouble_def parse_defs)

lemma travel_triggers: "\<exists>r. ImpossibleTravelRule travel_context = Inr r \<and> resTriggered r"
proof -
  have "exceeds (DistanceKm (geo (515074 / 10000) (- 1278 / 10000) ''London'') (geo (407128 / 10000) (- 740060 / 10000) ''New York'') / h) (Finite 0)"
    if "0 < h" for h
    using GB_US_apart that by (simp add: exceeds_def not_le)
  moreover have "txChannel (ctxTransaction travel_context) = POS" "txCountry (ctxTransaction travel_context) = ''US''"
    "txCity (ctxTransaction travel_context) = None"
    by (simp_all add: travel_context_def example_transaction_def)
  moreover have "\<exists>prev. filter (\<lambda>t. RequiresPhysicalPresence (hisChannel t)) (ctxRecentTransactions travel_context) = [prev] \<and>
      hisCountry prev = ''GB'' \<and> hisCity prev = None"
    by (simp add: travel_context_def RequiresPhysicalPresence_def)
  moreover have "RequiresPhysicalPresence POS" by (simp add: RequiresPhysicalPresence_def)
  ultimately show ?thesis
    by (auto simp: ImpossibleTravelRule_def Let_def travel_limit travel_resolve simp del: code.simps)
qed

lemma impossible_travel_sound_witness:
  "\<exists>prev \<in> set (ctxRecentTransactions travel_context). RequiresPhysicalPresence (hisChannel prev)"
proof -
  obtain r where "ImpossibleTravelRule travel_context = Inr r" and "resTriggered r" using travel_triggers by blast
  from impossible_travel_sound [OF this travel_limit] show ?thesis by blast
qed

text \<open>
  The edge of the arithmetic. The sum of the scores is checked, the model's contribution is added
  unchecked: at the top of \<open>int\<close> a maximal score wraps around and is capped to 0, which approves.
\<close>

theorem combine_wraps:
  "is_i32 2147483640 \<and> Cap 2147483640 = 100 \<and>
   Cap (Combine 2147483640 \<lparr>mdlScore = 100, mdlConfidence = Finite 1, mdlModelVersion = [], mdlReason = None\<rparr>) = 0 \<and>
   Decide (LevelFor 0) rs = Approve"
  by (simp add: is_i32_iff Cap_def MaxScore_def Combine_def dbl_less_def round_even_def wrap32_def LevelFor_def)

end
