(* ===== verification/ProcessingProperties.thy ===== *)
theory ProcessingProperties
  imports Processing RuleProperties
begin

text \<open>
  What a run of \<open>ProcessAsync\<close> does: the replay of an event, the run without faults, and the failure
  counter that nothing feeds.
\<close>

section \<open>Replays\<close>

lemma ProcessAsync_accepted:
  assumes "acceptable msg"
  obtains tx where "normal_form msg tx" and
    "ProcessAsync model ms msg = pbind (TryBeginAsync (rcvEventId msg) TransactionProcessor)
       (\<lambda>claimed. if \<not> claimed then preturn () else count_errors (process_claimed model ms msg tx))"
proof -
  obtain tx where v: "Validate msg = Inr \<lparr>resValue = Some tx, resIsSuccess = True, resError = None\<rparr>" and n: "normal_form msg tx"
    using Validate_accepts [OF assms] by blast
  show thesis
    by (rule that [OF n], rule ext) (simp add: ProcessAsync_def v IsFailure_def Result_Value_def)
qed

lemma ProcessAsync_refused:
  assumes "\<not> acceptable msg"
  shows "\<exists>e. ProcessAsync model ms msg w = (Inl (PoisonMessage e), w)"
proof -
  obtain e where "Validate msg = Inr \<lparr>resValue = None, resIsSuccess = False, resError = Some (Error_Validation e)\<rparr>"
    using Validate_refuses [OF assms] by blast
  then show ?thesis by (simp add: ProcessAsync_def IsFailure_def)
qed

lemma replay_skipped:
  assumes "acceptable msg" and "fault_free w" and "\<exists>x \<in> set (wInbox w). ibxEventId x = rcvEventId msg"
  shows "ProcessAsync model ms msg w = (Inr (), w)"
proof -
  obtain tx where "ProcessAsync model ms msg = pbind (TryBeginAsync (rcvEventId msg) TransactionProcessor)
       (\<lambda>claimed. if \<not> claimed then preturn () else count_errors (process_claimed model ms msg tx))"
    using ProcessAsync_accepted [OF assms(1)] by metis
  then show ?thesis using TryBegin_run [OF assms(2), of "rcvEventId msg" TransactionProcessor] assms(3) by (simp add: pbind_def)
qed

text \<open>
  C6: an invalid message is poison and changes nothing; the replay of an event that has an inbox row
  returns and changes nothing.
\<close>

theorem replay_and_poison:
  assumes "fault_free w"
  shows "(\<not> acceptable msg \<longrightarrow> (\<exists>e. ProcessAsync model ms msg w = (Inl (PoisonMessage e), w))) \<and>
    (acceptable msg \<and> (\<exists>x \<in> set (wInbox w). ibxEventId x = rcvEventId msg) \<longrightarrow> ProcessAsync model ms msg w = (Inr (), w))"
  using ProcessAsync_refused replay_skipped [OF _ assms] by blast

definition empty_world :: World where
  "empty_world = \<lparr>wInbox = [], wOutbox = [], wTransactions = [], wDecisions = [],
     wRulesets = [\<lparr>rstVersion = InitialVersion, rstIsActive = True, rstCreatedAt = 0\<rparr>],
     wRules = map (\<lambda>d. \<lparr>rlrRulesetVersion = InitialVersion, rlrRuleCode = code (defCode d), rlrEnabled = defEnabled d,
                          rlrScore = defScore d, rlrParameters = Some (defParameters d)\<rparr>) Defaults,
     wProfiles = [], wDevices = [], wCases = [], wHistory = [], wNotes = [], wRedis = Map.empty, wLive = [],
     wPublished = [], wDead = [], wNow = hours 3, wFresh = 100, wFaults = [], wProcessed = 0, wBlocked = 0, wReview = 0,
     wErrors = 0, wCasesOpen = 0, wAudit = []\<rparr>"

definition claimed_world :: World where
  "claimed_world = empty_world\<lparr>wInbox := [\<lparr>ibxEventId = 7, ibxConsumer = TransactionProcessor, ibxReceivedAt = 0,
     ibxCompletedAt = None\<rparr>]\<rparr>"

lemma example_acceptable: "acceptable example_message"
  by (simp add: acceptable_def example_message_def IsNullOrWhiteSpace_def the_string_def Guid_Empty_def is_white_def)

lemma replay_and_poison_witness:
  "ProcessAsync NoOpRiskModel 5 example_message claimed_world = (Inr (), claimed_world)"
proof -
  have "fault_free claimed_world" by (simp add: fault_free_def claimed_world_def empty_world_def)
  from replay_and_poison [OF this] show ?thesis
    using example_acceptable by (simp add: claimed_world_def example_message_def)
qed

section \<open>The run without faults\<close>

text \<open>Gathering the context changes nothing but the velocity sets.\<close>

definition only_redis :: "'a op \<Rightarrow> bool" where
  "only_redis m \<longleftrightarrow> (\<forall>w. fault_free w \<longrightarrow> (\<exists>red. snd (m w) = w\<lparr>wRedis := red\<rparr>))"

lemma only_redisI: "(\<And>w. fault_free w \<Longrightarrow> snd (m w) = w) \<Longrightarrow> only_redis m"
  unfolding only_redis_def by (metis World.surjective World.update_convs(12))

lemma only_redis_bind: "only_redis m \<Longrightarrow> (\<And>a. only_redis (f a)) \<Longrightarrow> only_redis (pbind m f)"
  unfolding only_redis_def
proof (intro allI impI)
  fix w
  assume m: "\<forall>w. fault_free w \<longrightarrow> (\<exists>red. snd (m w) = w\<lparr>wRedis := red\<rparr>)"
    and f: "\<And>a. \<forall>w. fault_free w \<longrightarrow> (\<exists>red. snd (f a w) = w\<lparr>wRedis := red\<rparr>)" and w: "fault_free w"
  obtain red where r: "snd (m w) = w\<lparr>wRedis := red\<rparr>" using m w by blast
  show "\<exists>red. snd (pbind m f w) = w\<lparr>wRedis := red\<rparr>"
  proof (cases "fst (m w)")
    case (Inl e)
    then show ?thesis using r by (auto simp: pbind_def split: prod.split)
  next
    case (Inr a)
    have "fault_free (w\<lparr>wRedis := red\<rparr>)" using w by (simp add: fault_free_def)
    then obtain red' where "snd (f a (w\<lparr>wRedis := red\<rparr>)) = w\<lparr>wRedis := red\<rparr>\<lparr>wRedis := red'\<rparr>" using f by blast
    moreover have "m w = (Inr a, w\<lparr>wRedis := red\<rparr>)" using Inr r by (metis prod.collapse)
    ultimately show ?thesis by (auto simp: pbind_def)
  qed
qed

lemma only_redis_basic:
  "only_redis (query f)" "only_redis (plift r)" "only_redis (praise e)" "only_redis (preturn a)" "only_redis (pget g)"
  by (rule only_redisI; simp)+

lemma only_redis_velocity: "only_redis (record_velocity tx failed)"
  unfolding only_redis_def
  by (auto simp: record_velocity_def next_fault_def fault_free_def split: prod.split)

lemma only_redis_case [simp]: "only_redis n \<Longrightarrow> (\<And>a. only_redis (s a)) \<Longrightarrow> only_redis (case x of None \<Rightarrow> n | Some a \<Rightarrow> s a)"
  by (cases x) simp_all

lemma gather_only_redis: "only_redis (gather_context tx)"
proof -
  have "only_redis (GetAsync a c cur)" for a c cur
    unfolding GetAsync_def by (auto intro!: only_redis_bind only_redis_basic split: option.split)
  moreover have "only_redis GetActiveAsync"
    unfolding GetActiveAsync_def by (auto intro!: only_redis_bind only_redis_basic split: option.split)
  moreover have "only_redis (GetRecentTransactionsAsync a n)" for a n
    unfolding GetRecentTransactionsAsync_def by (intro only_redis_bind only_redis_basic)
  ultimately show ?thesis
    unfolding gather_context_def
    by (auto intro!: only_redis_bind only_redis_basic only_redis_velocity simp: GetDevicesAsync_def split: prod.split)
qed

text \<open>Publishing without faults: the topics that are enqueued.\<close>

lemma Enqueue_run:
  assumes "fault_free w" and "db_ok w"
  shows "EnqueueAsync topic key body w = (Inr (), w\<lparr>wFresh := wFresh w + 1,
      wOutbox := wOutbox w @ [\<lparr>obxId = wFresh w + 1, obxTopic = topic, obxKey = key, obxPayload = body,
        obxCreatedAt = wNow w, obxPublishedAt = None\<rparr>]\<rparr>)"
proof -
  have "\<forall>x \<in> set (wOutbox w). obxId x \<noteq> Suc (wFresh w)" using assms(2) by (force simp: db_ok_def)
  then show ?thesis using assms(1) by (simp add: EnqueueAsync_def pbind_def fault_free_def SaveChanges_def)
qed

definition outbox_topics :: "World \<Rightarrow> KafkaTopic list" where
  "outbox_topics w = map obxTopic (wOutbox w)"

text \<open>An effect that leaves the tables the outbox is not in alone, and adds topics to the outbox.\<close>

definition enqueues :: "KafkaTopic list \<Rightarrow> unit op \<Rightarrow> bool" where
  "enqueues ts m \<longleftrightarrow> (\<forall>w. fault_free w \<and> db_ok w \<longrightarrow>
     (\<exists>w' rows. m w = (Inr (), w') \<and> fault_free w' \<and> db_ok w' \<and> wOutbox w' = wOutbox w @ rows \<and> map obxTopic rows = ts \<and>
        wInbox w' = wInbox w \<and> wDecisions w' = wDecisions w \<and> wTransactions w' = wTransactions w \<and>
        wProcessed w' = wProcessed w \<and> wErrors w' = wErrors w \<and> wNow w' = wNow w))"

lemma enqueues_Enqueue: "enqueues [topic] (EnqueueAsync topic key body)"
  unfolding enqueues_def
proof (intro allI impI)
  fix w
  assume a: "fault_free w \<and> db_ok w"
  moreover have "db_ok (snd (EnqueueAsync topic key body w))" using a keepsD [OF keeps_Enqueue] by blast
  ultimately show "\<exists>w' rows. EnqueueAsync topic key body w = (Inr (), w') \<and> fault_free w' \<and> db_ok w' \<and>
      wOutbox w' = wOutbox w @ rows \<and> map obxTopic rows = [topic] \<and> wInbox w' = wInbox w \<and>
      wDecisions w' = wDecisions w \<and> wTransactions w' = wTransactions w \<and> wProcessed w' = wProcessed w \<and>
      wErrors w' = wErrors w \<and> wNow w' = wNow w"
    by (simp add: Enqueue_run fault_free_def)
qed

lemma enqueues_nothing: "enqueues [] (preturn ())"
  by (simp add: enqueues_def)

lemma enqueues_then:
  assumes "enqueues ts m" and "enqueues us n"
  shows "enqueues (ts @ us) (pthen m n)"
  unfolding enqueues_def
proof (intro allI impI)
  fix w
  assume "fault_free w \<and> db_ok w"
  with assms(1) obtain w1 r1 where 1: "m w = (Inr (), w1)" "fault_free w1 \<and> db_ok w1" "wOutbox w1 = wOutbox w @ r1"
      "map obxTopic r1 = ts" "wInbox w1 = wInbox w" "wDecisions w1 = wDecisions w" "wTransactions w1 = wTransactions w"
      "wProcessed w1 = wProcessed w" "wErrors w1 = wErrors w" "wNow w1 = wNow w"
    unfolding enqueues_def by blast
  from assms(2) 1(2) obtain w2 r2 where 2: "n w1 = (Inr (), w2)" "fault_free w2 \<and> db_ok w2" "wOutbox w2 = wOutbox w1 @ r2"
      "map obxTopic r2 = us" "wInbox w2 = wInbox w1" "wDecisions w2 = wDecisions w1" "wTransactions w2 = wTransactions w1"
      "wProcessed w2 = wProcessed w1" "wErrors w2 = wErrors w1" "wNow w2 = wNow w1"
    unfolding enqueues_def by blast
  show "\<exists>w' rows. pthen m n w = (Inr (), w') \<and> fault_free w' \<and> db_ok w' \<and> wOutbox w' = wOutbox w @ rows \<and>
      map obxTopic rows = ts @ us \<and> wInbox w' = wInbox w \<and> wDecisions w' = wDecisions w \<and> wTransactions w' = wTransactions w \<and>
      wProcessed w' = wProcessed w \<and> wErrors w' = wErrors w \<and> wNow w' = wNow w"
    using 1 2 by (intro exI [of _ w2] exI [of _ "r1 @ r2"]) (simp add: pthen_def pbind_def)
qed

lemma enqueues_fresh: "(\<And>i. enqueues ts (f i)) \<Longrightarrow> enqueues ts (pbind CreateVersion7 f)"
  unfolding enqueues_def
proof (intro allI impI)
  fix w
  assume f: "\<And>i. \<forall>w. fault_free w \<and> db_ok w \<longrightarrow> (\<exists>w' rows. f i w = (Inr (), w') \<and> fault_free w' \<and> db_ok w' \<and>
      wOutbox w' = wOutbox w @ rows \<and> map obxTopic rows = ts \<and> wInbox w' = wInbox w \<and> wDecisions w' = wDecisions w \<and>
      wTransactions w' = wTransactions w \<and> wProcessed w' = wProcessed w \<and> wErrors w' = wErrors w \<and> wNow w' = wNow w)"
    and w: "fault_free w \<and> db_ok w"
  let ?w = "w\<lparr>wFresh := wFresh w + 1\<rparr>"
  have "fault_free ?w \<and> db_ok ?w" using w keepsD [OF keeps_Create, of w] by (simp add: fault_free_def)
  from f [of "wFresh w + 1", rule_format, OF this] show "\<exists>w' rows. pbind CreateVersion7 f w = (Inr (), w') \<and> fault_free w' \<and>
      db_ok w' \<and> wOutbox w' = wOutbox w @ rows \<and> map obxTopic rows = ts \<and> wInbox w' = wInbox w \<and>
      wDecisions w' = wDecisions w \<and> wTransactions w' = wTransactions w \<and> wProcessed w' = wProcessed w \<and>
      wErrors w' = wErrors w \<and> wNow w' = wNow w"
    by (simp add: pbind_def)
qed

lemma enqueues_get: "(\<And>a. enqueues ts (f a)) \<Longrightarrow> enqueues ts (pbind (pget g) f)"
  unfolding enqueues_def by (simp add: pbind_def)

lemma publish_topics:
  "enqueues ([TransactionsValidated, RiskDecisions] @ (if evlDecision e \<in> {Review, Block} then [Alerts] else []))
     (publish_evaluation msg tx e)"
proof -
  have alert: "enqueues (if evlDecision e \<in> {Review, Block} then [Alerts] else [])
      (if evlDecision e \<in> {Review, Block} then raise_alert tx e else preturn ())"
    by (auto simp: raise_alert_def enqueues_nothing intro!: enqueues_fresh enqueues_get enqueues_Enqueue)
  have "enqueues ([TransactionsValidated] @ ([RiskDecisions] @ (if evlDecision e \<in> {Review, Block} then [Alerts] else [])))
      (publish_evaluation msg tx e)"
    unfolding publish_evaluation_def
    by (intro enqueues_fresh enqueues_get enqueues_then enqueues_Enqueue alert)
  then show ?thesis by simp
qed

definition claim_of :: "TransactionReceivedV1 \<Rightarrow> World \<Rightarrow> World" where
  "claim_of msg w = w\<lparr>wInbox := wInbox w @ [\<lparr>ibxEventId = rcvEventId msg, ibxConsumer = TransactionProcessor,
     ibxReceivedAt = wNow w, ibxCompletedAt = None\<rparr>]\<rparr>"

lemma notin_map: "y \<notin> set (map f xs) \<longleftrightarrow> (\<forall>x \<in> set xs. f x \<noteq> y)"
  by auto

lemma Save_run:
  assumes "fault_free w" and "txTransactionId (dcnTransaction d) \<notin> set (decision_ids w)"
    and "fits_numeric_18_2 (mAmount (txAmount (dcnTransaction d)))"
  shows "\<exists>ts. SaveAsync d w = (Inr (), w\<lparr>wTransactions := ts, wDecisions := wDecisions w @ [d]\<rparr>)"
proof -
  let ?tid = "txTransactionId (dcnTransaction d)"
  have new: "\<forall>x \<in> set (wDecisions w). txTransactionId (dcnTransaction x) \<noteq> ?tid"
    using assms(2) by (simp add: decision_ids_def notin_map del: set_map)
  show ?thesis
  proof (cases "\<exists>t \<in> set (wTransactions w). txTransactionId (trnSnapshot t) = ?tid")
    case True
    have "w\<lparr>wDecisions := wDecisions w @ [d]\<rparr> = w\<lparr>wTransactions := wTransactions w, wDecisions := wDecisions w @ [d]\<rparr>" by simp
    moreover have "SaveAsync d w = (Inr (), w\<lparr>wDecisions := wDecisions w @ [d]\<rparr>)"
      using True new assms(1) by (simp add: SaveAsync_def Let_def pbind_def pcatch_def)
    ultimately show ?thesis by metis
  next
    case False
    with new assms(1,3) have "SaveAsync d w = (Inr (), w\<lparr>wTransactions := wTransactions w @ [\<lparr>trnSnapshot = dcnTransaction d, trnIngestedAt = dcnCreatedAt d\<rparr>],
        wDecisions := wDecisions w @ [d]\<rparr>)"
      by (simp add: SaveAsync_def Let_def pbind_def pcatch_def)
    then show ?thesis by blast
  qed
qed

lemma Complete_run:
  assumes "fault_free w"
  shows "\<exists>xs. CompleteAsync i w = (Inr (), w\<lparr>wInbox := xs\<rparr>) \<and> map ibxEventId xs = map ibxEventId (wInbox w) \<and>
    (\<forall>x \<in> set xs. ibxEventId x = i \<longrightarrow> ibxCompletedAt x \<noteq> None)"
proof (cases "\<exists>x \<in> set (wInbox w). ibxEventId x = i")
  case True
  let ?xs = "map (\<lambda>x. if ibxEventId x = i then x\<lparr>ibxCompletedAt := Some (wNow w)\<rparr> else x) (wInbox w)"
  have "CompleteAsync i w = (Inr (), w\<lparr>wInbox := ?xs\<rparr>)" using True assms by (simp add: CompleteAsync_def pbind_def)
  moreover have "map ibxEventId ?xs = map ibxEventId (wInbox w) \<and> (\<forall>x \<in> set ?xs. ibxEventId x = i \<longrightarrow> ibxCompletedAt x \<noteq> None)"
    by (simp add: ball_Un ball_simps)
  ultimately show ?thesis by blast
next
  case False
  then have "CompleteAsync i w = (Inr (), w\<lparr>wInbox := wInbox w\<rparr>)" using assms by (auto simp: CompleteAsync_def pbind_def)
  then show ?thesis using False by blast
qed

text \<open>Up to the save: the context is gathered, the engine run, the decision stored.\<close>

definition saved_state :: "redis \<Rightarrow> TransactionRow list \<Rightarrow> DecisionRow \<Rightarrow> World \<Rightarrow> World" where
  "saved_state red ts d w = w\<lparr>wRedis := red, wFresh := wFresh w + 1, wTransactions := ts, wDecisions := wDecisions w @ [d]\<rparr>"

lemma score_saved:
  assumes w: "fault_free w" "db_ok w" and new: "txTransactionId tx \<notin> set (decision_ids w)"
    and fits: "fits_numeric_18_2 (mAmount (txAmount tx))" and gather: "fst (gather_context tx w) = Inr ctx" and engine: "risk_engine model ms ctx = Inr e"
  obtains red ts d where "score_and_record model ms msg tx w = pthen (publish_evaluation msg tx e)
      (pthen (CompleteAsync (rcvEventId msg)) (pmodify (count_decision (evlDecision e)))) (saved_state red ts d w)"
    "fault_free (saved_state red ts d w)" "db_ok (saved_state red ts d w)" "dcnTransaction d = tx" "dcnEvaluation d = e"
proof -
  obtain red where g: "gather_context tx w = (Inr ctx, w\<lparr>wRedis := red\<rparr>)"
    using gather_only_redis [of tx] w(1) gather unfolding only_redis_def by (metis prod.collapse)
  define d where "d = \<lparr>dcnId = wFresh w + 1, dcnTransaction = tx, dcnEvaluation = e, dcnCorrelationId = txCorrelationId tx,
     dcnCreatedAt = wNow w, dcnProfileSnapshot = ctxProfile ctx\<rparr>"
  define w1 where "w1 = w\<lparr>wRedis := red\<rparr>\<lparr>wFresh := wFresh w + 1\<rparr>"
  have run1: "score_and_record model ms msg tx w = pthen (SaveAsync d) (pthen (publish_evaluation msg tx e)
      (pthen (CompleteAsync (rcvEventId msg)) (pmodify (count_decision (evlDecision e))))) w1"
    unfolding score_and_record_def d_def w1_def by (simp add: pbind_def g engine)
  have ok1: "db_ok w1"
    using keepsD [OF keeps_Create, of "w\<lparr>wRedis := red\<rparr>"] w(2) unfolding w1_def by (simp add: db_ok_def decision_ids_def transaction_ids_def)
  have ff1: "fault_free w1" using w(1) by (simp add: fault_free_def w1_def)
  have new1: "txTransactionId (dcnTransaction d) \<notin> set (decision_ids w1)" using new by (simp add: decision_ids_def w1_def d_def)
  obtain ts where "SaveAsync d w1 = (Inr (), w1\<lparr>wTransactions := ts, wDecisions := wDecisions w1 @ [d]\<rparr>)"
    using Save_run [OF ff1 new1] fits by (auto simp: d_def)
  then have s: "SaveAsync d w1 = (Inr (), saved_state red ts d w)" by (simp add: saved_state_def w1_def)
  show thesis
  proof (rule that)
    show "score_and_record model ms msg tx w = pthen (publish_evaluation msg tx e)
      (pthen (CompleteAsync (rcvEventId msg)) (pmodify (count_decision (evlDecision e)))) (saved_state red ts d w)"
      unfolding run1 by (simp add: pthen_def pbind_def s)
    show "db_ok (saved_state red ts d w)" using s ok1 keepsD [OF keeps_Save, of w1 d] by simp
    show "fault_free (saved_state red ts d w)" using w(1) by (simp add: fault_free_def saved_state_def)
  qed (simp_all add: d_def)
qed

lemma count_decision_fields [simp]:
  "wDecisions (count_decision a v) = wDecisions v" "wOutbox (count_decision a v) = wOutbox v"
  "wInbox (count_decision a v) = wInbox v" "wProcessed (count_decision a v) = wProcessed v + 1"
  "wErrors (count_decision a v) = wErrors v" "wCases (count_decision a v) = wCases v" "wHistory (count_decision a v) = wHistory v"
  "wPublished (count_decision a v) = wPublished v" "wLive (count_decision a v) = wLive v" "wNow (count_decision a v) = wNow v"
  "wFresh (count_decision a v) = wFresh v" "wFaults (count_decision a v) = wFaults v" "wCasesOpen (count_decision a v) = wCasesOpen v"
  by (simp_all add: count_decision_def Let_def)

lemma score_run:
  assumes w: "fault_free w" "db_ok w" and new: "txTransactionId tx \<notin> set (decision_ids w)"
    and fits: "fits_numeric_18_2 (mAmount (txAmount tx))" and gather: "fst (gather_context tx w) = Inr ctx" and engine: "risk_engine model ms ctx = Inr e"
  shows "\<exists>w' row. score_and_record model ms msg tx w = (Inr (), w') \<and> wDecisions w' = wDecisions w @ [row] \<and>
    dcnTransaction row = tx \<and> dcnEvaluation row = e \<and>
    outbox_topics w' = outbox_topics w @ [TransactionsValidated, RiskDecisions] @ (if evlDecision e \<in> {Review, Block} then [Alerts] else []) \<and>
    map ibxEventId (wInbox w') = map ibxEventId (wInbox w) \<and>
    (\<forall>x \<in> set (wInbox w'). ibxEventId x = rcvEventId msg \<longrightarrow> ibxCompletedAt x \<noteq> None) \<and>
    wProcessed w' = wProcessed w + 1 \<and> wErrors w' = wErrors w"
proof -
  obtain red ts d where s: "score_and_record model ms msg tx w = pthen (publish_evaluation msg tx e)
      (pthen (CompleteAsync (rcvEventId msg)) (pmodify (count_decision (evlDecision e)))) (saved_state red ts d w)"
    "fault_free (saved_state red ts d w)" "db_ok (saved_state red ts d w)" and d: "dcnTransaction d = tx" "dcnEvaluation d = e"
    using score_saved [OF assms] .
  let ?w2 = "saved_state red ts d w"
  have same2: "wDecisions ?w2 = wDecisions w @ [d] \<and> wOutbox ?w2 = wOutbox w \<and> wInbox ?w2 = wInbox w \<and>
      wProcessed ?w2 = wProcessed w \<and> wErrors ?w2 = wErrors w" by (simp add: saved_state_def)
  obtain w3 rows where p: "publish_evaluation msg tx e ?w2 = (Inr (), w3)" "fault_free w3" "wOutbox w3 = wOutbox ?w2 @ rows"
    "map obxTopic rows = [TransactionsValidated, RiskDecisions] @ (if evlDecision e \<in> {Review, Block} then [Alerts] else [])"
    "wInbox w3 = wInbox ?w2" "wDecisions w3 = wDecisions ?w2" "wProcessed w3 = wProcessed ?w2" "wErrors w3 = wErrors ?w2"
    using publish_topics [of e msg tx] s(2,3) unfolding enqueues_def by blast
  obtain xs where c: "CompleteAsync (rcvEventId msg) w3 = (Inr (), w3\<lparr>wInbox := xs\<rparr>)"
    "map ibxEventId xs = map ibxEventId (wInbox w3)" "\<forall>x \<in> set xs. ibxEventId x = rcvEventId msg \<longrightarrow> ibxCompletedAt x \<noteq> None"
    using Complete_run [OF p(2)] by blast
  have sc: "score_and_record model ms msg tx w = (Inr (), count_decision (evlDecision e) (w3\<lparr>wInbox := xs\<rparr>))"
    unfolding s(1) by (simp add: pbind_def pthen_def p(1) c(1))
  have ot: "outbox_topics (count_decision (evlDecision e) (w3\<lparr>wInbox := xs\<rparr>)) = outbox_topics w @
      [TransactionsValidated, RiskDecisions] @ (if evlDecision e \<in> {Review, Block} then [Alerts] else [])"
    using p(4) by (simp only: outbox_topics_def count_decision_fields map_append p(3) same2) (simp add: p(3) same2)
  show ?thesis
    by (intro exI [of _ "count_decision (evlDecision e) (w3\<lparr>wInbox := xs\<rparr>)"] exI [of _ d] conjI)
      (rule sc d ot | use p(5-8) c(2,3) same2 in simp)+
qed

lemma claim_state:
  assumes "fault_free w" and "db_ok w" and "\<forall>x \<in> set (wInbox w). ibxEventId x \<noteq> rcvEventId msg"
    and "tid \<notin> set (decision_ids w)"
  shows "TryBeginAsync (rcvEventId msg) TransactionProcessor w = (Inr True, claim_of msg w)" and "fault_free (claim_of msg w)"
    and "db_ok (claim_of msg w)" and "tid \<notin> set (decision_ids (claim_of msg w))"
proof -
  show claimed: "TryBeginAsync (rcvEventId msg) TransactionProcessor w = (Inr True, claim_of msg w)"
    using TryBegin_run [OF assms(1)] assms(3) by (simp add: claim_of_def)
  show "db_ok (claim_of msg w)" using keepsD [OF keeps_TryBegin assms(2)] claimed by (metis snd_conv)
qed (use assms in \<open>simp_all add: fault_free_def claim_of_def decision_ids_def\<close>)

lemma ProcessAsync_scores:
  assumes "fault_free w" and "db_ok w" and "\<forall>x \<in> set (wInbox w). ibxEventId x \<noteq> rcvEventId msg"
    and "Validate msg = Inr \<lparr>resValue = Some tx, resIsSuccess = True, resError = None\<rparr>"
    and "txTransactionId tx \<notin> set (decision_ids w)"
    and "score_and_record model ms msg tx (claim_of msg w) = (Inr (), w')"
  shows "ProcessAsync model ms msg w = (Inr (), w')"
proof -
  note c = claim_state [OF assms(1-3,5)]
  have "\<not> (\<exists>d \<in> set (wDecisions (claim_of msg w)). txTransactionId (dcnTransaction d) = txTransactionId tx)"
    using c(4) by (simp add: decision_ids_def notin_map del: set_map)
  then have "process_claimed model ms msg tx (claim_of msg w) = (Inr (), w')"
    using c(2) assms(6) by (simp add: process_claimed_def ExistsForTransactionAsync_def pbind_def)
  then show ?thesis
    using c(1) by (simp add: ProcessAsync_def assms(4) IsFailure_def Result_Value_def pbind_def count_errors_def)
qed

text \<open>
  C1: the run without faults of a new, acceptable message, its amount within the column that stores it,
  whose context the engine evaluates: one
  decision with that evaluation, the validated event and the decision event enqueued in this order,
  an alert exactly for a review or a block, the inbox row completed, the transaction counted.
\<close>

theorem processing_records_decision:
  assumes "fault_free w" and "db_ok w" and "\<forall>x \<in> set (wInbox w). ibxEventId x \<noteq> rcvEventId msg"
    and "Validate msg = Inr \<lparr>resValue = Some tx, resIsSuccess = True, resError = None\<rparr>"
    and "txTransactionId tx \<notin> set (decision_ids w)" and "fits_numeric_18_2 (mAmount (txAmount tx))"
    and "fst (gather_context tx (claim_of msg w)) = Inr ctx" and "risk_engine model ms ctx = Inr e"
  shows "\<exists>w' row. ProcessAsync model ms msg w = (Inr (), w') \<and> wDecisions w' = wDecisions w @ [row] \<and>
    dcnTransaction row = tx \<and> dcnEvaluation row = e \<and>
    outbox_topics w' = outbox_topics w @ [TransactionsValidated, RiskDecisions] @ (if evlDecision e \<in> {Review, Block} then [Alerts] else []) \<and>
    (\<exists>x \<in> set (wInbox w'). ibxEventId x = rcvEventId msg \<and> ibxCompletedAt x \<noteq> None) \<and>
    wProcessed w' = wProcessed w + 1 \<and> wErrors w' = wErrors w"
proof -
  let ?c = "claim_of msg w"
  note c = claim_state [OF assms(1-3,5)]
  obtain w' row where r: "score_and_record model ms msg tx ?c = (Inr (), w')" "wDecisions w' = wDecisions ?c @ [row]"
    "dcnTransaction row = tx" "dcnEvaluation row = e"
    "outbox_topics w' = outbox_topics ?c @ [TransactionsValidated, RiskDecisions] @ (if evlDecision e \<in> {Review, Block} then [Alerts] else [])"
    "map ibxEventId (wInbox w') = map ibxEventId (wInbox ?c)"
    "\<forall>x \<in> set (wInbox w'). ibxEventId x = rcvEventId msg \<longrightarrow> ibxCompletedAt x \<noteq> None"
    "wProcessed w' = wProcessed ?c + 1" "wErrors w' = wErrors ?c"
    using score_run [OF c(2-4) assms(6-8)] by blast
  have "rcvEventId msg \<in> set (map ibxEventId (wInbox w'))" unfolding r(6) by (simp add: claim_of_def)
  then have completed: "\<exists>x \<in> set (wInbox w'). ibxEventId x = rcvEventId msg \<and> ibxCompletedAt x \<noteq> None" using r(7) by auto
  have "ProcessAsync model ms msg w = (Inr (), w')" using assms(1-5) r(1) by (rule ProcessAsync_scores)
  then show ?thesis using r completed by (auto simp: claim_of_def outbox_topics_def)
qed

definition example_snapshot :: TransactionSnapshot where
  "example_snapshot = snapshot_of example_message example_money"

lemma example_valid:
  "Validate example_message = Inr \<lparr>resValue = Some example_snapshot, resIsSuccess = True, resError = None\<rparr>"
proof -
  have "new_Money 7000 ''GBP'' = Inr example_money"
    using new_Money_id [of example_money] by (simp add: example_money_def money_ok_def is_white_def Trim_def ToUpperInvariant_def upper_char_def)
  then show ?thesis
    using example_acceptable
    by (simp add: Validate_def acceptable_def example_snapshot_def Result_Success_def new_Result_def)
       (simp add: example_message_def the_string_def)
qed

text \<open>The first record of an account leaves one spend, and its snapshot can be taken.\<close>

lemma RedisRecord_spend:
  "zMembers (live wall (RedisRecord wall tx False minor Map.empty) (spend_key (txAccountId tx))) =
     [(txTransactionId tx @ '':'' @ int_to_string minor, UnixTimeMilliseconds (txTimestamp tx))]"
proof -
  have "RedisRecord wall tx False minor Map.empty (spend_key (txAccountId tx)) =
      Some \<lparr>zMembers = [(txTransactionId tx @ '':'' @ int_to_string minor, UnixTimeMilliseconds (txTimestamp tx))],
            zExpires = Some (wall + ms_hours 36)\<rparr>"
    by (simp add: RedisRecord_def Let_def Remove_same) (simp add: live_def)
  then show ?thesis by (simp add: live_def not_le)
qed

lemma example_digits: "after_last_colon (''T1'' @ '':'' @ int_to_string 700000) = Some ''700000''"
  by (simp add: int_to_string_def digits_of.simps after_last_colon_def) code_simp

lemma example_spend:
  "\<exists>m. SpendAsync wall (RedisRecord wall example_snapshot False 700000 Map.empty) (spend_key ''A1'') now w ''GBP'' = Inr m"
proof -
  have acc: "txAccountId example_snapshot = ''A1''" and tid: "txTransactionId example_snapshot = ''T1''"
    by (simp_all add: example_snapshot_def snapshot_of_def example_message_def the_string_def Trim_def is_white_def)
  have entries: "SortedSetRangeByScore wall (RedisRecord wall example_snapshot False 700000 Map.empty) (spend_key ''A1'') lo hi = [] \<or>
      SortedSetRangeByScore wall (RedisRecord wall example_snapshot False 700000 Map.empty) (spend_key ''A1'') lo hi
        = [''T1'' @ '':'' @ int_to_string 700000]" for lo hi
    using RedisRecord_spend [of wall example_snapshot 700000] by (simp add: SortedSetRangeByScore_def acc tid)
  have long: "TryParse_long ''700000'' = Some 700000"
    by (simp add: TryParse_long_def scan_sign_def is_num_white_def digit_of_def)
  have units: "FromMinorUnits n ''GBP'' = Inr \<lparr>mAmount = round_away_to 2 (of_int n / 100), mCurrency = ''GBP''\<rparr>" if "0 \<le> n" for n
    using that by (simp add: FromMinorUnits_def new_Money_def IsNullOrWhiteSpace_def is_white_def Trim_def ToUpperInvariant_def upper_char_def)
  show ?thesis
    using entries [of "now - w" now]
  proof
    assume "SortedSetRangeByScore wall (RedisRecord wall example_snapshot False 700000 Map.empty) (spend_key ''A1'') (now - w) now = []"
    then show ?thesis by (simp add: SpendAsync_def units)
  next
    assume "SortedSetRangeByScore wall (RedisRecord wall example_snapshot False 700000 Map.empty) (spend_key ''A1'') (now - w) now
      = [''T1'' @ '':'' @ int_to_string 700000]"
    then show ?thesis unfolding SpendAsync_def Let_def by (simp only:) (simp add: example_digits [simplified] long units wrap64_def)
  qed
qed

lemma example_velocity_returns:
  "\<exists>v. fst (record_velocity example_snapshot False (claim_of example_message (empty_world\<lparr>wRules := rows\<rparr>))) = Inr v"
proof -
  let ?w = "claim_of example_message (empty_world\<lparr>wRules := rows\<rparr>)"
  let ?wall = "UnixTimeMilliseconds (wNow ?w)"
  have sel: "txAmount example_snapshot = example_money" "txAccountId example_snapshot = ''A1''" "mCurrency example_money = ''GBP''"
    by (simp_all add: example_snapshot_def snapshot_of_def example_message_def the_string_def Trim_def is_white_def example_money_def)
  have minor: "ToMinorUnits example_money = Inr 700000"
    by (simp add: ToMinorUnits_def example_money_def checked64_def)
  obtain v where "RedisSnapshot ?wall example_snapshot (RedisRecord ?wall example_snapshot False 700000 Map.empty) = Inr v"
  proof -
    let ?now = "UnixTimeMilliseconds (txTimestamp example_snapshot)"
    obtain a b c where "SpendAsync ?wall (RedisRecord ?wall example_snapshot False 700000 Map.empty) (spend_key ''A1'') ?now (ms_minutes 5) ''GBP'' = Inr a"
      "SpendAsync ?wall (RedisRecord ?wall example_snapshot False 700000 Map.empty) (spend_key ''A1'') ?now (ms_hours 1) ''GBP'' = Inr b"
      "SpendAsync ?wall (RedisRecord ?wall example_snapshot False 700000 Map.empty) (spend_key ''A1'') ?now (ms_hours 24) ''GBP'' = Inr c"
      using example_spend by metis
    then show thesis using that unfolding RedisSnapshot_def Let_def sel by simp
  qed
  moreover have "record_velocity example_snapshot False ?w = (RedisSnapshot ?wall example_snapshot (RedisRecord ?wall example_snapshot False 700000 Map.empty),
      ?w\<lparr>wRedis := RedisRecord ?wall example_snapshot False 700000 Map.empty\<rparr>)"
  proof -
    have "wFaults ?w = []" "wRedis ?w = Map.empty" by (simp_all add: claim_of_def empty_world_def)
    then show ?thesis by (simp add: record_velocity_def next_fault_def RedisRecordAndSnapshot_def pbind_def pthen_def sel minor)
  qed
  ultimately show ?thesis by (simp only: fst_conv) blast
qed

text \<open>The rows of the seeded rule set are the parameters of the catalogue.\<close>

lemma example_ruleset: "GetActiveAsync (claim_of example_message empty_world) =
   (Inr (InitialVersion, default_parameters), claim_of example_message empty_world)"
proof -
  have "fault_free (claim_of example_message empty_world)" by (simp add: fault_free_def claim_of_def empty_world_def)
  moreover have "map rlrRuleCode (filter (\<lambda>x. rlrRulesetVersion x = InitialVersion) (wRules empty_world)) = map code AllRuleCodes"
    by (simp add: empty_world_def Defaults_map comp_def)
  moreover have "map to_parameters (filter (\<lambda>x. rlrRulesetVersion x = InitialVersion) (wRules empty_world)) = default_parameters"
    by (simp add: empty_world_def default_parameters_def to_parameters_def to_parameter_set_def comp_def filter_map)
  moreover have "distinct (map code AllRuleCodes)" by (simp add: AllRuleCodes_def)
  ultimately show ?thesis
    by (simp add: GetActiveAsync_def pbind_def active_ruleset_def claim_of_def) (simp add: empty_world_def)
qed

lemma example_gather_with:
  assumes active: "GetActiveAsync (claim_of example_message (empty_world\<lparr>wRules := rows\<rparr>)) =
    (Inr (version, parameters), claim_of example_message (empty_world\<lparr>wRules := rows\<rparr>))"
  shows "\<exists>ctx. fst (gather_context example_snapshot (claim_of example_message (empty_world\<lparr>wRules := rows\<rparr>))) = Inr ctx \<and>
     ctxRuleParameters ctx = parameters \<and> ctxTransaction ctx = example_snapshot \<and>
     mAmount (prfMedianTransactionAmount (ctxProfile ctx)) = 0 \<and> mAmount (prfAverageTransactionAmount (ctxProfile ctx)) = 0"
proof -
  let ?w = "claim_of example_message (empty_world\<lparr>wRules := rows\<rparr>)"
  have ff: "fault_free ?w" by (simp add: fault_free_def claim_of_def empty_world_def)
  have rows: "wProfiles ?w = []" "wDevices ?w = []" "wTransactions ?w = []" "wDecisions ?w = []"
    by (simp_all add: claim_of_def empty_world_def)
  have "\<lfloor>1 / 2 :: rat\<rfloor> = 0" by (simp add: floor_eq_iff)
  then obtain zero where "Money_Zero ''GBP'' = Inr zero" "mAmount zero = 0"
    by (simp add: Money_Zero_def new_Money_def IsNullOrWhiteSpace_def is_white_def round_away_to_def round_away_def)
  then have "\<exists>p. GetAsync a c ''GBP'' ?w = (Inr p, ?w) \<and> mAmount (prfMedianTransactionAmount p) = 0 \<and>
      mAmount (prfAverageTransactionAmount p) = 0" for a c
    using ff rows by (simp add: GetAsync_def pbind_def Profile_Empty_def)
  then obtain p where p: "GetAsync (txAccountId example_snapshot) (txCustomerId example_snapshot) ''GBP'' ?w = (Inr p, ?w)"
    and zero: "mAmount (prfMedianTransactionAmount p) = 0" "mAmount (prfAverageTransactionAmount p) = 0"
    by blast
  have cur: "mCurrency (txAmount example_snapshot) = ''GBP''"
    by (simp add: example_snapshot_def snapshot_of_def example_money_def)
  have devices: "GetDevicesAsync c ?w = (Inr [], ?w)" for c using ff rows by (simp add: GetDevicesAsync_def)
  have recent: "GetRecentTransactionsAsync a n ?w = (Inr [], ?w)" for a n
    using ff rows by (simp add: GetRecentTransactionsAsync_def pbind_def)
  obtain v w' where v: "record_velocity example_snapshot False ?w = (Inr v, w')"
    using example_velocity_returns[of rows] by (cases "record_velocity example_snapshot False ?w") auto
  show ?thesis
    unfolding gather_context_def by (simp add: pbind_def active p cur devices recent v zero)
qed

text \<open>An account without a profile keeps the arithmetic in range.\<close>

lemma example_in_range:
  assumes "ctxTransaction ctx = example_snapshot"
    and "mAmount (prfMedianTransactionAmount (ctxProfile ctx)) = 0" "mAmount (prfAverageTransactionAmount (ctxProfile ctx)) = 0"
    and "\<bar>GetDecimal (ParametersFor ctx (code HighValue)) ''threshold'' 3000\<bar> \<le> 10 ^ 28"
    and "\<bar>GetDecimal (ParametersFor ctx (code BehaviourDeviation)) ''multiplier'' 8\<bar> \<le> 10 ^ 12"
  shows "decimals_in_range ctx"
  using assms by (simp add: decimals_in_range_def example_snapshot_def snapshot_of_def example_money_def del: code.simps)

lemma example_fits: "fits_numeric_18_2 (mAmount (txAmount example_snapshot))"
  by (simp add: fits_numeric_18_2_def example_snapshot_def snapshot_of_def example_money_def round_away_to_def)

lemma example_gather:
  "\<exists>ctx. fst (gather_context example_snapshot (claim_of example_message empty_world)) = Inr ctx \<and>
     ctxRuleParameters ctx = default_parameters \<and> decimals_in_range ctx"
  using example_gather_with[of "wRules empty_world" InitialVersion default_parameters] example_ruleset example_in_range default_decimals
  by (auto simp del: code.simps)

lemma processing_records_decision_witness:
  "\<exists>w' row. ProcessAsync NoOpRiskModel 5 example_message empty_world = (Inr (), w') \<and> wDecisions w' = [row] \<and>
     dcnTransaction row = example_snapshot \<and> wProcessed w' = 1"
proof -
  obtain ctx where g: "fst (gather_context example_snapshot (claim_of example_message empty_world)) = Inr ctx"
    and p: "ctxRuleParameters ctx = default_parameters" "decimals_in_range ctx" using example_gather by blast
  obtain e where e: "risk_engine NoOpRiskModel 5 ctx = Inr e"
    using engine_returns [of ctx NoOpRiskModel "Model_None ''noop-1.0.0''" 5, OF _ p(2)] default_scores [OF p(1)]
    by (auto simp: NoOpRiskModel_def)
  have w: "fault_free empty_world" "db_ok empty_world"
    "\<forall>x \<in> set (wInbox empty_world). ibxEventId x \<noteq> rcvEventId example_message"
    "txTransactionId example_snapshot \<notin> set (decision_ids empty_world)"
    by (simp_all add: fault_free_def db_ok_def decision_ids_def transaction_ids_def empty_world_def)
  have "wDecisions empty_world = []" "wProcessed empty_world = 0" by (simp_all add: empty_world_def)
  with processing_records_decision [OF w(1-3) example_valid w(4) example_fits g e] show ?thesis by auto
qed

section \<open>The failure counter\<close>

text \<open>No account has a set of failed transactions.\<close>

definition no_failures :: "World \<Rightarrow> bool" where
  "no_failures w \<longleftrightarrow> (\<forall>account. wRedis w (fail_key account) = None)"

lemma no_failures_schedule: "schedule_free no_failures"
  by (simp add: schedule_free_def no_failures_def)

lemma keeps_save_no_failures:
  "(\<And>w. wRedis (f w) = wRedis w) \<Longrightarrow> keeps no_failures (SaveChanges c f)"
  by (rule keeps_SaveChanges [OF no_failures_schedule]) (simp add: no_failures_def)

lemma keeps_no_failures [inv_intros]:
  "keeps no_failures (TryBeginAsync i g)" "keeps no_failures (CompleteAsync i)"
  "keeps no_failures (EnqueueAsync t k b)" "keeps no_failures CreateVersion7" "keeps no_failures (SaveAsync d)"
proof -
  have *: "keeps no_failures CreateVersion7" by (simp add: keeps_def no_failures_def)
  then show "keeps no_failures CreateVersion7" .
  show "keeps no_failures (TryBeginAsync i g)" unfolding TryBeginAsync_def
    by (intro inv_intros no_failures_schedule keeps_save_no_failures) (auto split: if_splits intro: inv_intros)
  show "keeps no_failures (CompleteAsync i)" unfolding CompleteAsync_def
    by (intro inv_intros no_failures_schedule keeps_save_no_failures) simp
  show "keeps no_failures (EnqueueAsync t k b)" unfolding EnqueueAsync_def
    by (intro inv_intros * keeps_save_no_failures) simp
  show "keeps no_failures (SaveAsync d)" unfolding SaveAsync_def Let_def
    by (intro inv_intros no_failures_schedule keeps_save_no_failures)
      (auto split: if_splits intro!: inv_intros no_failures_schedule)
qed

lemma keeps_gather_no_failures [inv_intros]: "keeps no_failures (gather_context tx)"
  by (rule keeps_gather [OF no_failures_schedule]) (simp add: no_failures_def RedisRecord_fail)

lemma keeps_process_no_failures: "keeps no_failures (ProcessAsync model ms msg)"
  unfolding ProcessAsync_def process_claimed_def score_and_record_def publish_evaluation_def raise_alert_def count_errors_def
  by (intro inv_intros no_failures_schedule keeps_pmodify)
    (auto simp: no_failures_def count_decision_def Let_def split: if_splits intro!: inv_intros keeps_pmodify)

lemma velocity_no_failures:
  assumes "no_failures w" and "record_velocity tx False w = (Inr v, w')"
  shows "velFailedTransactionsLast15Minutes v = 0"
proof -
  obtain flt w1 where n: "next_fault w = (flt, w1)" by (cases "next_fault w")
  have w1: "no_failures w1" using next_fault_keeps [OF no_failures_schedule assms(1) n] .
  obtain minor where s: "RedisSnapshot (UnixTimeMilliseconds (wNow w1)) tx
      (RedisRecord (UnixTimeMilliseconds (wNow w1)) tx False minor (wRedis w1)) = Inr v"
    using assms(2) n by (cases "ToMinorUnits (txAmount tx)")
      (auto simp: record_velocity_def RedisRecordAndSnapshot_def pbind_def pthen_def split: if_splits)
  have "CountAsync wall (RedisRecord wall tx False minor (wRedis w1)) (fail_key a) now window = 0" for wall a now window
    using w1 by (simp add: CountAsync_def SortedSetLength_def live_def RedisRecord_fail no_failures_def)
  with s show ?thesis by (auto simp: RedisSnapshot_def Let_def rbind_eq_Inr wrap32_small)
qed

text \<open>
  C9: the counter of failed transactions is never fed. From a Redis without failure sets, processing keeps
  it without, whatever it processes, and every velocity snapshot it takes reports no failure: with
  the default limit, or any positive one, the rule on repeated declines cannot fire.
\<close>

theorem repeated_decline_never_fires:
  assumes "no_failures w"
  shows "no_failures (snd (ProcessAsync model ms msg w)) \<and>
    (\<forall>tx v w'. record_velocity tx False w = (Inr v, w') \<longrightarrow> velFailedTransactionsLast15Minutes v = 0)"
  using keepsD [OF keeps_process_no_failures assms] velocity_no_failures [OF assms] by blast

lemma repeated_decline_never_fires_witness:
  "no_failures (snd (ProcessAsync NoOpRiskModel 5 example_message empty_world))"
  using repeated_decline_never_fires [of empty_world] by (simp add: no_failures_def empty_world_def)

end
