(* ===== verification/Outbox.thy ===== *)
theory Outbox
  imports ProcessingProperties
begin

text \<open>
  \<open>OutboxDispatcher\<close>: a round takes a batch of unpublished rows, publishes them one by one and marks them. A
  failure ends the round, is logged and the next round starts over. Publishing is a single round trip with the schedule of
  faults of the other round trips; the topic is the list of what was published. Delays are dropped.
\<close>

section \<open>The dispatcher\<close>

definition PublishAsync :: "KafkaTopic \<Rightarrow> string \<Rightarrow> payload \<Rightarrow> unit op" where
  "PublishAsync topic key body = (\<lambda>w. case next_fault w of (flt, w') \<Rightarrow>
     if flt = Fine then (Inr (), w'\<lparr>wPublished := wPublished w' @ [(topic, key, body)]\<rparr>)
     else (Inl (TransientInfrastructure ''Failed to publish''), w'))"

fun publish_batch :: "OutboxRow list \<Rightarrow> unit op" where
  "publish_batch [] = preturn ()"
| "publish_batch (item # items) =
    pthen (PublishAsync (obxTopic item) (obxKey item) (obxPayload item)) (publish_batch items)"

definition dispatch_batch :: "unit op" where
  "dispatch_batch =
     pbind (DequeueBatchAsync 50) (\<lambda>batch.
       if batch = [] then preturn ()
       else pthen (publish_batch batch) (MarkPublishedAsync (map obxId batch)))"

definition dispatch_round :: "unit op" where
  "dispatch_round = pcatch dispatch_batch (\<lambda>e. Some (preturn ()))"

fun dispatch :: "nat \<Rightarrow> unit op" where
  "dispatch 0 = preturn ()"
| "dispatch (Suc n) = pthen dispatch_round (dispatch n)"

section \<open>Without faults\<close>

definition pending :: "World \<Rightarrow> OutboxRow list" where
  "pending w = sort_key obxCreatedAt (filter (\<lambda>x. obxPublishedAt x = None) (wOutbox w))"

definition message_of :: "OutboxRow \<Rightarrow> KafkaTopic \<times> string \<times> payload" where
  "message_of x = (obxTopic x, obxKey x, obxPayload x)"

definition mark :: "guid set \<Rightarrow> instant \<Rightarrow> OutboxRow \<Rightarrow> OutboxRow" where
  "mark ids now x = (if obxId x \<in> ids then x\<lparr>obxPublishedAt := Some now\<rparr> else x)"

lemma mark_simps [simp]: "obxId (mark I t x) = obxId x" "message_of (mark I t x) = message_of x"
  by (simp_all add: mark_def message_of_def)

lemma publish_batch_run:
  "fault_free w \<Longrightarrow> publish_batch xs w = (Inr (), w\<lparr>wPublished := wPublished w @ map message_of xs\<rparr>)"
proof (induction xs arbitrary: w)
  case (Cons x xs)
  have "PublishAsync (obxTopic x) (obxKey x) (obxPayload x) w = (Inr (), w\<lparr>wPublished := wPublished w @ [message_of x]\<rparr>)"
    using Cons.prems by (simp add: PublishAsync_def next_fault_def fault_free_def message_of_def)
  then show ?case using Cons by (simp add: fault_free_def)
qed simp

lemma dispatch_round_run:
  assumes "fault_free w"
  shows "dispatch_round w = (Inr (), w\<lparr>wPublished := wPublished w @ map message_of (take 50 (pending w)),
    wOutbox := map (mark (obxId ` set (take 50 (pending w))) (wNow w)) (wOutbox w)\<rparr>)"
proof -
  have d: "DequeueBatchAsync 50 w = (Inr (take 50 (pending w)), w)"
    using assms by (simp add: DequeueBatchAsync_def pending_def)
  have m: "MarkPublishedAsync ids v = (Inr (), v\<lparr>wOutbox := map (mark (set ids) (wNow v)) (wOutbox v)\<rparr>)" if "fault_free v" for ids v
    using that by (simp add: MarkPublishedAsync_def mark_def[abs_def])
  have none: "map (mark {} t) xs = xs" for t xs by (induction xs) (simp_all add: mark_def)
  show ?thesis
  proof (cases "take 50 (pending w) = []")
    case True
    then show ?thesis using d by (simp add: dispatch_round_def dispatch_batch_def none)
  next
    case False
    let ?v = "w\<lparr>wPublished := wPublished w @ map message_of (take 50 (pending w))\<rparr>"
    have "fault_free ?v" using assms by (simp add: fault_free_def)
    then have "dispatch_batch w = (Inr (), ?v\<lparr>wOutbox := map (mark (set (map obxId (take 50 (pending w)))) (wNow ?v)) (wOutbox ?v)\<rparr>)"
      using d False publish_batch_run[OF assms] m by (simp add: dispatch_batch_def)
    then show ?thesis by (simp add: dispatch_round_def)
  qed
qed

lemma sort_key_filter: "sort_key f (filter P xs) = filter P (sort_key f xs)"
proof -
  have i: "filter P (insort_key f x ys) = (if P x then insort_key f x (filter P ys) else filter P ys)"
    if "sorted (map f ys)" for x ys
    using that by (simp add: filter_insort filter_insort_triv)
  show ?thesis by (induction xs) (simp_all add: i)
qed

lemma pending_after:
  assumes "distinct (map obxId (wOutbox w))"
  shows "pending (w\<lparr>wPublished := p, wOutbox := map (mark (obxId ` set (take n (pending w))) t) (wOutbox w)\<rparr>) = drop n (pending w)"
proof -
  let ?I = "obxId ` set (take n (pending w))"
  have "filter (\<lambda>x. obxPublishedAt x = None) (map (mark I t) xs) =
      filter (\<lambda>x. obxId x \<notin> I) (filter (\<lambda>x. obxPublishedAt x = None) xs)" for I xs
    by (induction xs) (auto simp: mark_def)
  then have p: "pending (w\<lparr>wPublished := p, wOutbox := map (mark ?I t) (wOutbox w)\<rparr>) = filter (\<lambda>x. obxId x \<notin> ?I) (pending w)"
    by (simp add: pending_def sort_key_filter)
  have "distinct (map obxId (filter (\<lambda>x. obxPublishedAt x = None) (wOutbox w)))"
    using assms by (rule distinct_map_filter)
  then have "inj_on obxId (set (pending w))" "distinct (pending w)" by (simp_all add: pending_def distinct_map)
  then have d: "distinct (map obxId (take n (pending w) @ drop n (pending w)))" by (simp add: distinct_map)
  have "filter (\<lambda>x. obxId x \<notin> obxId ` set as) (as @ bs) = bs" if "distinct (map obxId (as @ bs))" for as bs
    using that by (auto simp: filter_empty_conv filter_id_conv)
  from this[OF d] show ?thesis unfolding p append_take_drop_id .
qed

lemma dispatch_run:
  assumes "fault_free w" and "distinct (map obxId (wOutbox w))"
  shows "\<exists>rows. dispatch n w = (Inr (), w\<lparr>wPublished := wPublished w @ map message_of (take (50 * n) (pending w)), wOutbox := rows\<rparr>) \<and>
    (\<forall>p. pending (w\<lparr>wPublished := p, wOutbox := rows\<rparr>) = drop (50 * n) (pending w))"
  using assms
proof (induction n arbitrary: w)
  case 0
  have "pending (w\<lparr>wPublished := p, wOutbox := wOutbox w\<rparr>) = pending w" for p by (simp add: pending_def)
  then show ?case by (intro exI[of _ "wOutbox w"]) simp
next
  case (Suc n)
  let ?rows = "map (mark (obxId ` set (take 50 (pending w))) (wNow w)) (wOutbox w)"
  let ?v = "w\<lparr>wPublished := wPublished w @ map message_of (take 50 (pending w)), wOutbox := ?rows\<rparr>"
  have "map obxId (wOutbox ?v) = map obxId (wOutbox w)" by simp
  then have "distinct (map obxId (wOutbox ?v))" using Suc.prems(2) by metis
  moreover have "fault_free ?v" using Suc.prems(1) by (simp add: fault_free_def)
  ultimately obtain rows where rows:
    "dispatch n ?v = (Inr (), ?v\<lparr>wPublished := wPublished ?v @ map message_of (take (50 * n) (pending ?v)), wOutbox := rows\<rparr>)"
    "\<And>p. pending (?v\<lparr>wPublished := p, wOutbox := rows\<rparr>) = drop (50 * n) (pending ?v)" using Suc.IH by blast
  have pend: "pending ?v = drop 50 (pending w)" by (rule pending_after[OF Suc.prems(2)])
  have "take 50 (pending w) @ take (50 * n) (drop 50 (pending w)) = take (50 * Suc n) (pending w)"
    by (simp add: take_add)
  then have "dispatch (Suc n) w =
      (Inr (), w\<lparr>wPublished := wPublished w @ map message_of (take (50 * Suc n) (pending w)), wOutbox := rows\<rparr>)"
    using dispatch_round_run[OF Suc.prems(1)] rows(1) by (simp add: pend flip: map_append)
  moreover have "pending (w\<lparr>wPublished := p, wOutbox := rows\<rparr>) = drop (50 * Suc n) (pending w)" for p
    using rows(2)[of p] by (simp add: pend add.commute)
  ultimately show ?case by blast
qed

text \<open>
  Without faults every waiting message is published exactly once, in the order of creation: fifty in a round, none
  twice, and the rows published are the ones marked.\<close>

theorem outbox_publishes_in_order:
  assumes "fault_free w" and "distinct (map obxId (wOutbox w))"
  shows "\<exists>w'. dispatch n w = (Inr (), w') \<and>
    wPublished w' = wPublished w @ map message_of (take (50 * n) (pending w)) \<and> pending w' = drop (50 * n) (pending w)"
  using dispatch_run[OF assms, of n] by auto

section \<open>With faults\<close>

text \<open>No row is marked whose message was not published.\<close>

definition marked_published :: "World \<Rightarrow> bool" where
  "marked_published w \<longleftrightarrow> distinct (map obxId (wOutbox w)) \<and>
    (\<forall>x \<in> set (wOutbox w). obxPublishedAt x \<noteq> None \<longrightarrow> message_of x \<in> set (wPublished w))"

lemma fault_outbox:
  "next_fault w = (flt, w') \<or> db_fault w = (flt, w') \<Longrightarrow>
   wOutbox w' = wOutbox w \<and> wPublished w' = wPublished w \<and> wNow w' = wNow w"
  using next_fault_same db_fault_same by fastforce

lemma publish_batch_faulty:
  "\<exists>r w' ys. publish_batch xs w = (r, w') \<and> wOutbox w' = wOutbox w \<and> wPublished w' = wPublished w @ map message_of ys \<and>
    prefix ys xs \<and> (r = Inr () \<longrightarrow> ys = xs)"
proof (induction xs arbitrary: w)
  case Nil
  show ?case by (intro exI[of _ "Inr ()"] exI[of _ w] exI[of _ "[]"]) simp
next
  case (Cons x xs)
  obtain flt v where n: "next_fault w = (flt, v)" by (cases "next_fault w")
  show ?case
  proof (cases "flt = Fine")
    case True
    let ?v = "v\<lparr>wPublished := wPublished v @ [message_of x]\<rparr>"
    obtain r w' ys where i: "publish_batch xs ?v = (r, w')" "wOutbox w' = wOutbox ?v"
      "wPublished w' = wPublished ?v @ map message_of ys" "prefix ys xs" "r = Inr () \<longrightarrow> ys = xs" using Cons.IH by blast
    have "publish_batch (x # xs) w = (r, w')"
      using n True i(1) by (simp add: PublishAsync_def message_of_def pthen_def pbind_def)
    then show ?thesis using i fault_outbox[OF disjI1[OF n]]
      by (intro exI[of _ r] exI[of _ w'] exI[of _ "x # ys"]) simp
  next
    case False
    then have "publish_batch (x # xs) w = (Inl (TransientInfrastructure ''Failed to publish''), v)"
      using n by (simp add: PublishAsync_def pthen_def pbind_def)
    then show ?thesis using fault_outbox[OF disjI1[OF n]]
      by (intro exI[of _ "Inl (TransientInfrastructure ''Failed to publish'')"] exI[of _ v] exI[of _ "[]"]) simp
  qed
qed

lemma mark_published:
  assumes "marked_published w" and "set rows \<subseteq> set (wOutbox w)" and "message_of ` set rows \<subseteq> set (wPublished w)"
  shows "marked_published (w\<lparr>wOutbox := map (mark (obxId ` set rows) t) (wOutbox w)\<rparr>)"
proof -
  have "message_of x \<in> set (wPublished w)" if "x \<in> set (wOutbox w)" "obxPublishedAt (mark (obxId ` set rows) t x) \<noteq> None" for x
  proof (cases "obxId x \<in> obxId ` set rows")
    case True
    then obtain y where y: "y \<in> set rows" "obxId y = obxId x" by auto
    then have "y = x" using assms(1,2) that(1) inj_onD[of obxId "set (wOutbox w)" y x]
      by (auto simp: marked_published_def distinct_map)
    then show ?thesis using y assms(3) by auto
  qed (use that assms(1) in \<open>simp add: mark_def marked_published_def\<close>)
  then show ?thesis using assms(1) by (auto simp: marked_published_def o_def)
qed

lemma dispatch_round_marked:
  "marked_published w \<Longrightarrow> \<exists>w'. dispatch_round w = (Inr (), w') \<and> marked_published w' \<and>
    map message_of (wOutbox w') = map message_of (wOutbox w)"
proof -
  assume ok: "marked_published w"
  obtain flt v where n: "db_fault w = (flt, v)" by (cases "db_fault w")
  have v: "marked_published v" using ok fault_outbox[OF disjI2[OF n]] by (simp add: marked_published_def)
  define batch where "batch = take 50 (pending v)"
  have sub: "set batch \<subseteq> set (wOutbox v)" by (auto simp: batch_def pending_def dest: in_set_takeD)
  show ?thesis
  proof (cases "flt = Fine \<and> batch \<noteq> []")
    case False
    then have "dispatch_round w = (Inr (), v)"
      using n by (auto simp: dispatch_round_def dispatch_batch_def DequeueBatchAsync_def query_def pbind_def pcatch_def
          batch_def pending_def)
    then show ?thesis using v fault_outbox[OF disjI2[OF n]] by auto
  next
    case True
    then have d: "DequeueBatchAsync 50 w = (Inr batch, v)"
      using n by (simp add: DequeueBatchAsync_def query_def batch_def pending_def)
    obtain r u ys where p: "publish_batch batch v = (r, u)" "wOutbox u = wOutbox v"
      "wPublished u = wPublished v @ map message_of ys" "r = Inr () \<longrightarrow> ys = batch" using publish_batch_faulty[of batch v] by blast
    have u: "marked_published u" using v p(2,3) by (auto simp: marked_published_def)
    show ?thesis
    proof (cases r)
      case (Inl e)
      then have "dispatch_round w = (Inr (), u)"
        using d p(1) True by (simp add: dispatch_round_def dispatch_batch_def)
      then show ?thesis using u p(2) fault_outbox[OF disjI2[OF n]] by auto
    next
      case (Inr x)
      obtain flt' u' where n': "db_fault u = (flt', u')" by (cases "db_fault u")
      have u': "marked_published u'" using u fault_outbox[OF disjI2[OF n']] by (simp add: marked_published_def)
      have r: "dispatch_round w = (Inr (), if flt' = Fine
          then u'\<lparr>wOutbox := map (mark (obxId ` set batch) (wNow u')) (wOutbox u')\<rparr> else u')"
        using d p(1) True Inr n' by (cases flt') (simp_all add: dispatch_round_def dispatch_batch_def
            MarkPublishedAsync_def SaveChanges_def pbind_def pthen_def pcatch_def mark_def[abs_def])
      have "marked_published (u'\<lparr>wOutbox := map (mark (obxId ` set batch) (wNow u')) (wOutbox u')\<rparr>)"
        using Inr p fault_outbox[OF disjI2[OF n']] sub by (intro mark_published[OF u']) auto
      then show ?thesis using r u' p(2) fault_outbox[OF disjI2[OF n]] fault_outbox[OF disjI2[OF n']] by (auto simp: o_def)
    qed
  qed
qed

text \<open>
  C18: no message is lost. Whatever round trips fail, the dispatcher goes on, and a row is marked as published only if its message was
  published; what is not marked is still waiting, for no row goes away.\<close>

theorem outbox_loses_nothing:
  assumes "marked_published w"
  shows "\<exists>w'. dispatch n w = (Inr (), w') \<and> marked_published w' \<and> map message_of (wOutbox w') = map message_of (wOutbox w)"
  using assms
proof (induction n arbitrary: w)
  case (Suc n)
  obtain v where "dispatch_round w = (Inr (), v)" "marked_published v" "map message_of (wOutbox v) = map message_of (wOutbox w)"
    using dispatch_round_marked[OF Suc.prems] by blast
  then show ?case using Suc.IH[of v] by auto
qed simp

definition outbox_world :: "fault list \<Rightarrow> World" where
  "outbox_world fs = empty_world\<lparr>wFaults := fs,
    wOutbox := map (\<lambda>i. \<lparr>obxId = i, obxTopic = RiskDecisions, obxKey = ''A1'', obxPayload = Feedback
        \<lparr>fbkEventId = i, fbkCorrelationId = [], fbkOccurredAt = 0, fbkCaseId = 0, fbkTransactionId = [], fbkFeedbackType = CaseClosed,
         fbkAnalyst = [], fbkNotes = None\<rparr>, obxCreatedAt = - int i, obxPublishedAt = None\<rparr>) [1, 2]\<rparr>"

lemma outbox_publishes_in_order_witness:
  "\<exists>w'. dispatch 1 (outbox_world []) = (Inr (), w') \<and> map (\<lambda>(t, k, b). case b of Feedback f \<Rightarrow> fbkEventId f) (wPublished w') = [2, 1]"
  using outbox_publishes_in_order [of "outbox_world []" 1]
  by (auto simp: outbox_world_def fault_free_def empty_world_def pending_def message_of_def)

text \<open>Publishing fails at the second message, and the database when the rows are marked later.\<close>

lemma outbox_loses_nothing_witness:
  "\<exists>w'. dispatch 3 (outbox_world [Fine, Fine, Unavailable, Fine, Fine, Fine, Unavailable]) = (Inr (), w') \<and> marked_published w'"
  using outbox_loses_nothing [of "outbox_world [Fine, Fine, Unavailable, Fine, Fine, Fine, Unavailable]" 3]
  by (auto simp: outbox_world_def empty_world_def marked_published_def)

text \<open>What is published may be published again: the price of marking after publishing.\<close>

lemma outbox_publishes_again:
  "map (\<lambda>(t, k, b). case b of Feedback f \<Rightarrow> fbkEventId f)
    (wPublished (snd (dispatch 2 (outbox_world [Fine, Fine, Unavailable])))) = [2, 2, 1]"
  by (simp add: outbox_world_def empty_world_def numeral_2_eq_2 dispatch_round_def dispatch_batch_def DequeueBatchAsync_def
      MarkPublishedAsync_def SaveChanges_def query_def next_fault_def PublishAsync_def pbind_def pthen_def pcatch_def)

end
