(* ===== verification/Administration.thy ===== *)
theory Administration
  imports Outbox
begin

text \<open>
  The endpoints that feed the pipeline: the ingestion of a transaction (\<open>Sentinel.Ingestion.Api\<close>), the activation of a rule
  set (\<open>Sentinel.Admin.Api\<close>) and the part of \<open>DatabaseSeeder\<close> that stores the first one. Requests are values, the caller's name
  is an argument and authorisation is left out; the key of a message whose account is null is the empty string. Identifiers of
  rule rows are drawn but not kept.
\<close>

section \<open>Ingestion\<close>

datatype ingest_reply = BadRequest | Accepted "string option" guid string

text \<open>\<open>default(DateTimeOffset)\<close> is tick 0.\<close>

definition stamp :: "TransactionReceivedV1 \<Rightarrow> guid \<Rightarrow> string \<Rightarrow> instant \<Rightarrow> TransactionReceivedV1" where
  "stamp incoming eventId correlationId now = incoming\<lparr>rcvEventId := eventId, rcvCorrelationId := Some correlationId,
     rcvOccurredAt := (if rcvOccurredAt incoming = 0 then now else rcvOccurredAt incoming),
     rcvTimestamp := (if rcvTimestamp incoming = 0 then now else rcvTimestamp incoming)\<rparr>"

definition PostTransaction :: "TransactionReceivedV1 \<Rightarrow> ingest_reply op" where
  "PostTransaction incoming =
    (if IsNullOrWhiteSpace (rcvTransactionId incoming) \<or> rcvAmount incoming \<le> 0 then preturn BadRequest
     else
       pbind (if IsNullOrWhiteSpace (rcvCorrelationId incoming) then pbind CreateVersion7 (\<lambda>g. preturn (guid_N g))
              else preturn (the_string (rcvCorrelationId incoming))) (\<lambda>correlationId.
       pbind (if rcvEventId incoming = Guid_Empty then CreateVersion7 else preturn (rcvEventId incoming)) (\<lambda>eventId.
       pbind (pget wNow) (\<lambda>now.
         let message = stamp incoming eventId correlationId now in
         pthen (PublishAsync TransactionsRaw (the_string (rcvAccountId message)) (Received message))
           (preturn (Accepted (rcvTransactionId message) (rcvEventId message) correlationId))))))"

section \<open>Rule sets\<close>

fun draw :: "nat \<Rightarrow> unit op" where
  "draw 0 = preturn ()"
| "draw (Suc n) = pbind CreateVersion7 (\<lambda>_. draw n)"

definition patch_row :: "string \<Rightarrow> RulePatch \<Rightarrow> RuleRow" where
  "patch_row version p = \<lparr>rlrRulesetVersion = version, rlrRuleCode = rpcRuleCode p, rlrEnabled = rpcEnabled p,
     rlrScore = rpcScore p, rlrParameters = rpcParameters p\<rparr>"

text \<open>The keys of the two tables: the version, and the version with the code of the rule.\<close>

definition rule_key :: "RuleRow \<Rightarrow> string \<times> string" where
  "rule_key x = (rlrRulesetVersion x, rlrRuleCode x)"

definition ruleset_fits :: "string \<Rightarrow> RuleRow list \<Rightarrow> World \<Rightarrow> bool" where
  "ruleset_fits version rows w \<longleftrightarrow> (\<forall>r \<in> set (wRulesets w). rstVersion r \<noteq> version) \<and>
     distinct (map rule_key (wRules w @ rows))"

definition store_ruleset :: "string list \<Rightarrow> string \<Rightarrow> RuleRow list \<Rightarrow> World \<Rightarrow> World" where
  "store_ruleset active version rows w = w\<lparr>
     wRulesets := map (\<lambda>r. if rstVersion r \<in> set active then r\<lparr>rstIsActive := False\<rparr> else r) (wRulesets w)
       @ [\<lparr>rstVersion = version, rstIsActive = True, rstCreatedAt = wNow w\<rparr>],
     wRules := wRules w @ rows\<rparr>"

definition manager_name :: "string option \<Rightarrow> string" where
  "manager_name user = (case user of Some n \<Rightarrow> n | None \<Rightarrow> ''risk-manager'')"

definition request_rows :: "CreateRulesetRequest \<Rightarrow> RuleRow list" where
  "request_rows request = map (patch_row (crqVersion request)) (crqRules request)"

definition activate_ruleset :: "CreateRulesetRequest \<Rightarrow> string option \<Rightarrow> string list \<Rightarrow> World \<Rightarrow> World" where
  "activate_ruleset request user active w = (store_ruleset active (crqVersion request) (request_rows request) w)
     \<lparr>wAudit := wAudit w @ [\<lparr>audActor = manager_name user, audAction = ''ruleset.activate'', audEntityType = ''ruleset'',
        audEntityId = crqVersion request, audDetails = request, audOccurredAt = wNow w\<rparr>]\<rparr>"

text \<open>The endpoint first reads the rules and the rule sets that are active, then saves; a version that is among those it read is
  refused before the save, since the context tracks it already.\<close>

definition active_versions :: "string list op" where
  "active_versions = pthen (query (\<lambda>w. wRules w))
     (query (\<lambda>w. map rstVersion (filter rstIsActive (wRulesets w))))"

definition save_ruleset :: "CreateRulesetRequest \<Rightarrow> string option \<Rightarrow> string list \<Rightarrow> string op" where
  "save_ruleset request user active =
    (if crqVersion request \<in> set active
     then praise (InvalidOperation ''another instance with the same key value is already being tracked'')
     else
       pthen (draw (length (crqRules request) + 1))
       (pthen (SaveChanges (ruleset_fits (crqVersion request) (request_rows request)) (activate_ruleset request user active))
         (preturn (crqVersion request))))"

definition CreateRuleset :: "CreateRulesetRequest \<Rightarrow> string option \<Rightarrow> string op" where
  "CreateRuleset request user = pbind active_versions (save_ruleset request user)"

definition seed_row :: "RuleDefinition \<Rightarrow> RuleRow" where
  "seed_row d = \<lparr>rlrRulesetVersion = InitialVersion, rlrRuleCode = code (defCode d), rlrEnabled = defEnabled d,
     rlrScore = defScore d, rlrParameters = Some (defParameters d)\<rparr>"

definition SeedRulesets :: "unit op" where
  "SeedRulesets =
     pbind (query (\<lambda>w. wRulesets w \<noteq> [])) (\<lambda>there.
       if there then preturn ()
       else pthen (draw (length Defaults))
         (SaveChanges (ruleset_fits InitialVersion (map seed_row Defaults)) (store_ruleset [] InitialVersion (map seed_row Defaults))))"

section \<open>One rule set is active\<close>

text \<open>The keys of the tables, and every rule belonging to a rule set.\<close>

definition keys_ok :: "World \<Rightarrow> bool" where
  "keys_ok w \<longleftrightarrow> distinct (map rstVersion (wRulesets w)) \<and> distinct (map rule_key (wRules w)) \<and>
     rlrRulesetVersion ` set (wRules w) \<subseteq> rstVersion ` set (wRulesets w)"

definition rulesets_ok :: "World \<Rightarrow> bool" where
  "rulesets_ok w \<longleftrightarrow> keys_ok w \<and> length (filter rstIsActive (wRulesets w)) = 1"

lemma rulesets_ok_fields [simp]:
  "keys_ok (w\<lparr>wFaults := fs\<rparr>) = keys_ok w" "keys_ok (w\<lparr>wFresh := n\<rparr>) = keys_ok w" "keys_ok (w\<lparr>wAudit := a\<rparr>) = keys_ok w"
  "rulesets_ok (w\<lparr>wFaults := fs\<rparr>) = rulesets_ok w" "rulesets_ok (w\<lparr>wFresh := n\<rparr>) = rulesets_ok w"
  "rulesets_ok (w\<lparr>wAudit := a\<rparr>) = rulesets_ok w"
  by (simp_all add: rulesets_ok_def keys_ok_def)

lemma draw_run: "draw n w = (Inr (), w\<lparr>wFresh := wFresh w + n\<rparr>)"
  by (induction n arbitrary: w) (simp_all add: pbind_def)

declare draw.simps [simp del]

lemma active_versions_run:
  assumes "active_versions w = (Inr vs, w')"
  shows "\<exists>fs. w' = w\<lparr>wFaults := fs\<rparr> \<and> vs = map rstVersion (filter rstIsActive (wRulesets w))"
  using assms by (auto simp: active_versions_def pthen_def pbind_def query_def split: prod.splits if_splits dest!: db_fault_same)

lemma active_versions_fails: "active_versions w = (Inl e, w') \<Longrightarrow> \<exists>fs. w' = w\<lparr>wFaults := fs\<rparr>"
  by (auto simp: active_versions_def pthen_def pbind_def query_def split: prod.splits if_splits dest!: db_fault_same)

lemma store_keys:
  assumes "keys_ok w" and "ruleset_fits version rows w" and "\<forall>x \<in> set rows. rlrRulesetVersion x = version"
  shows "keys_ok (store_ruleset vs version rows w)"
proof -
  let ?rs = "map (\<lambda>r. if rstVersion r \<in> set vs then r\<lparr>rstIsActive := False\<rparr> else r) (wRulesets w)"
  have v: "map rstVersion ?rs = map rstVersion (wRulesets w)" by simp
  moreover have "rstVersion ` set ?rs = rstVersion ` set (wRulesets w)" using v by (metis set_map)
  ultimately show ?thesis
    using assms unfolding keys_ok_def store_ruleset_def ruleset_fits_def by (auto simp del: map_map simp: image_iff)
qed

lemma activate_keys:
  assumes "keys_ok w" and "ruleset_fits (crqVersion request) (request_rows request) w"
  shows "keys_ok (activate_ruleset request user vs w)"
  using store_keys[OF assms] by (simp add: activate_ruleset_def request_rows_def patch_row_def)

lemma activate_active:
  "filter rstIsActive (wRulesets (activate_ruleset request user vs w)) =
   filter (\<lambda>r. rstVersion r \<notin> set vs) (filter rstIsActive (wRulesets w)) @
     [\<lparr>rstVersion = crqVersion request, rstIsActive = True, rstCreatedAt = wNow w\<rparr>]"
proof -
  have "filter rstIsActive (map (\<lambda>r. if rstVersion r \<in> I then r\<lparr>rstIsActive := False\<rparr> else r) rs) =
      filter (\<lambda>r. rstVersion r \<notin> I) (filter rstIsActive rs)" for I rs
    by (induction rs) auto
  then show ?thesis by (simp add: activate_ruleset_def store_ruleset_def)
qed

lemma activate_ok:
  assumes "rulesets_ok w" and "map rstVersion (filter rstIsActive (wRulesets w)) = vs"
    and "ruleset_fits (crqVersion request) (request_rows request) w"
  shows "rulesets_ok (activate_ruleset request user vs w)"
proof -
  have "filter (\<lambda>r. rstVersion r \<notin> set vs) (filter rstIsActive (wRulesets w)) = []"
    unfolding assms(2)[symmetric] by (auto simp: filter_empty_conv)
  then show ?thesis using assms activate_keys by (simp add: rulesets_ok_def activate_active)
qed

lemma fits_new:
  assumes "keys_ok w" and "\<forall>r \<in> set (wRulesets w). rstVersion r \<noteq> crqVersion request"
    and "distinct (map rpcRuleCode (crqRules request))"
  shows "ruleset_fits (crqVersion request) (request_rows request) w"
proof -
  have "map rule_key (request_rows request) = map (Pair (crqVersion request)) (map rpcRuleCode (crqRules request))"
    by (simp add: request_rows_def rule_key_def patch_row_def)
  then have "distinct (map rule_key (request_rows request))"
    using assms(3) by (simp add: distinct_map inj_on_def del: map_map)
  moreover have "rule_key y \<notin> rule_key ` set (wRules w)" if y: "y \<in> set (request_rows request)" for y
  proof -
    have "rlrRulesetVersion y = crqVersion request" using y by (auto simp: request_rows_def patch_row_def)
    then show ?thesis using assms(1,2) by (force simp: keys_ok_def rule_key_def)
  qed
  then have "set (map rule_key (wRules w)) \<inter> set (map rule_key (request_rows request)) = {}" by fastforce
  ultimately show ?thesis using assms(1,2) by (simp add: ruleset_fits_def keys_ok_def)
qed

lemma save_run:
  assumes "fault_free w" and "keys_ok w" and "\<forall>r \<in> set (wRulesets w). rstVersion r \<noteq> crqVersion request"
    and "distinct (map rpcRuleCode (crqRules request))" and "crqVersion request \<notin> set vs"
  obtains n where "save_ruleset request user vs w = (Inr (crqVersion request), activate_ruleset request user vs (w\<lparr>wFresh := n\<rparr>))"
    "keys_ok (activate_ruleset request user vs (w\<lparr>wFresh := n\<rparr>))" "fault_free (activate_ruleset request user vs (w\<lparr>wFresh := n\<rparr>))"
proof -
  define n where "n = wFresh w + (length (crqRules request) + 1)"
  have v: "fault_free (w\<lparr>wFresh := n\<rparr>)" "keys_ok (w\<lparr>wFresh := n\<rparr>)" using assms(1,2) by (simp_all add: fault_free_def)
  have fits: "ruleset_fits (crqVersion request) (request_rows request) (w\<lparr>wFresh := n\<rparr>)"
    using fits_new[OF v(2)] assms(3,4) by simp
  have "draw (Suc (length (crqRules request))) w = (Inr (), w\<lparr>wFresh := n\<rparr>)" by (simp add: draw_run n_def)
  then have "save_ruleset request user vs w = (Inr (crqVersion request), activate_ruleset request user vs (w\<lparr>wFresh := n\<rparr>))"
    using assms(5) fits v(1) by (simp add: save_ruleset_def pthen_def pbind_def)
  moreover have "fault_free (activate_ruleset request user vs (w\<lparr>wFresh := n\<rparr>))"
    using v(1) by (simp add: fault_free_def activate_ruleset_def store_ruleset_def)
  ultimately show thesis using activate_keys[OF v(2) fits] by (intro that[of n])
qed

lemma SaveChanges_cases:
  obtains (refused) fs e where "SaveChanges c f w = (Inl e, w\<lparr>wFaults := fs\<rparr>)"
  | (saved) fs where "SaveChanges c f w = (Inr (), f (w\<lparr>wFaults := fs\<rparr>))" "c (w\<lparr>wFaults := fs\<rparr>)"
proof -
  obtain flt v where v: "db_fault w = (flt, v)" by (cases "db_fault w")
  then obtain fs where n: "db_fault w = (flt, w\<lparr>wFaults := fs\<rparr>)" using db_fault_same by blast
  show thesis
  proof (cases "flt = Fine \<and> c (w\<lparr>wFaults := fs\<rparr>)")
    case True
    then show ?thesis using saved n by (simp add: SaveChanges_def)
  next
    case False
    then have "\<exists>e. SaveChanges c f w = (Inl e, w\<lparr>wFaults := fs\<rparr>)" using n by (cases flt) (simp_all add: SaveChanges_def)
    then show ?thesis using refused by blast
  qed
qed

lemma save_ruleset_keeps:
  assumes "rulesets_ok w" and "map rstVersion (filter rstIsActive (wRulesets w)) = vs"
  shows "rulesets_ok (snd (save_ruleset request user vs w))"
proof (cases "crqVersion request \<in> set vs")
  case True
  then show ?thesis using assms(1) by (simp add: save_ruleset_def)
next
  case False
  define v where "v = w\<lparr>wFresh := wFresh w + (length (crqRules request) + 1)\<rparr>"
  have v: "rulesets_ok v" "map rstVersion (filter rstIsActive (wRulesets v)) = vs" using assms by (simp_all add: v_def)
  have act: "rulesets_ok (activate_ruleset request user vs (v\<lparr>wFaults := fs\<rparr>))"
    if "ruleset_fits (crqVersion request) (request_rows request) (v\<lparr>wFaults := fs\<rparr>)" for fs
    using that v by (intro activate_ok) simp_all
  let ?save = "SaveChanges (ruleset_fits (crqVersion request) (request_rows request)) (activate_ruleset request user vs)"
  have "snd (save_ruleset request user vs w) = snd (?save v)"
    using False by (simp add: save_ruleset_def draw_run pthen_def pbind_def v_def split: prod.split sum.split)
  also have "rulesets_ok (snd (?save v))"
    by (cases rule: SaveChanges_cases[of "ruleset_fits (crqVersion request) (request_rows request)" "activate_ruleset request user vs" v])
      (simp_all add: v act)
  finally show ?thesis .
qed

lemma CreateRuleset_keeps: "rulesets_ok w \<Longrightarrow> rulesets_ok (snd (CreateRuleset request user w))"
proof -
  assume ok: "rulesets_ok w"
  then have fs: "rulesets_ok (w\<lparr>wFaults := fs\<rparr>)" for fs by (simp add: rulesets_ok_def)
  obtain r w' where a: "active_versions w = (r, w')" by (cases "active_versions w")
  show ?thesis
  proof (cases r)
    case (Inl e)
    then show ?thesis using active_versions_fails a fs by (fastforce simp: CreateRuleset_def pbind_def)
  next
    case (Inr vs)
    then obtain gs where w': "w' = w\<lparr>wFaults := gs\<rparr>" "vs = map rstVersion (filter rstIsActive (wRulesets w))"
      using active_versions_run a by blast
    then have "rulesets_ok (snd (save_ruleset request user vs w'))" using fs by (intro save_ruleset_keeps) simp_all
    then show ?thesis using a Inr by (simp add: CreateRuleset_def pbind_def)
  qed
qed

lemma active_unique:
  assumes "rulesets_ok w"
  obtains r where "filter rstIsActive (wRulesets w) = [r]" "active_ruleset w = Some r"
proof -
  have "length (filter rstIsActive (wRulesets w)) = 1" using assms by (simp add: rulesets_ok_def)
  then obtain r where "filter rstIsActive (wRulesets w) = [r]" by (cases "filter rstIsActive (wRulesets w)") auto
  then show thesis using that by (simp add: active_ruleset_def)
qed

lemma GetActive_run:
  assumes "fault_free w" and "rulesets_ok w" and "active_ruleset w = Some r"
  shows "GetActiveAsync w = (Inr (rstVersion r, map to_parameters (filter (\<lambda>x. rlrRulesetVersion x = rstVersion r) (wRules w))), w)"
proof -
  have "distinct (map rule_key xs) \<Longrightarrow> distinct (map rlrRuleCode (filter (\<lambda>x. rlrRulesetVersion x = v) xs))" for v xs
    by (induction xs) (auto simp: rule_key_def image_iff)
  then show ?thesis using assms by (simp add: GetActiveAsync_def pbind_def rulesets_ok_def keys_ok_def)
qed

lemma seed_keys: "distinct (map rule_key (map seed_row Defaults))"
proof -
  have "map rule_key (map seed_row Defaults) = map (\<lambda>c. (InitialVersion, code c)) AllRuleCodes"
    by (simp add: Defaults_map rule_key_def seed_row_def comp_def)
  moreover have "distinct (map (\<lambda>c. (InitialVersion, code c)) AllRuleCodes)" by (simp add: AllRuleCodes_def)
  ultimately show ?thesis by metis
qed

lemma Seed_ok:
  assumes "wRulesets w = []" and "wRules w = []" and "SeedRulesets w = (Inr (), w')"
  shows "rulesets_ok w'"
proof -
  have "rulesets_ok (store_ruleset [] InitialVersion (map seed_row Defaults) v)" if "wRulesets v = []" "wRules v = []" for v
  proof -
    show ?thesis using that seed_keys by (auto simp: rulesets_ok_def keys_ok_def store_ruleset_def seed_row_def)
  qed
  then show ?thesis
    using assms by (auto simp: SeedRulesets_def pbind_def pthen_def query_def draw_run SaveChanges_def
        split: prod.splits if_splits fault.splits dest!: db_fault_same)
qed

fun do_requests :: "(CreateRulesetRequest \<times> string option \<times> fault list) list \<Rightarrow> World \<Rightarrow> World" where
  "do_requests [] w = w"
| "do_requests ((request, user, fs) # rest) w = do_requests rest (snd (CreateRuleset request user (w\<lparr>wFaults := fs\<rparr>)))"

lemma do_requests_ok: "rulesets_ok w \<Longrightarrow> rulesets_ok (do_requests rs w)"
proof (induction rs w rule: do_requests.induct)
  case (2 request user fs rest w)
  then show ?case using CreateRuleset_keeps[of "w\<lparr>wFaults := fs\<rparr>"] by (simp add: rulesets_ok_def)
qed simp

text \<open>
  C12: The engine never runs out of rules. From a database that the seeder filled, whatever rule sets are then created one after the
  other, refused or failed, exactly one is active, and reading the active rules without faults returns it.\<close>

theorem engine_always_has_rules:
  assumes "wRulesets w = []" and "wRules w = []" and "SeedRulesets w = (Inr (), w1)"
  shows "\<exists>r. filter rstIsActive (wRulesets (do_requests rs w1)) = [r] \<and>
    (\<exists>parameters. fst (GetActiveAsync (do_requests rs w1\<lparr>wFaults := []\<rparr>)) = Inr (rstVersion r, parameters))"
proof -
  let ?v = "do_requests rs w1"
  have ok: "rulesets_ok ?v" using Seed_ok[OF assms] by (rule do_requests_ok)
  then have ok': "rulesets_ok (?v\<lparr>wFaults := []\<rparr>)" by (simp add: rulesets_ok_def)
  obtain r where r: "filter rstIsActive (wRulesets ?v) = [r]" "active_ruleset ?v = Some r" using active_unique[OF ok] .
  have "active_ruleset (?v\<lparr>wFaults := []\<rparr>) = Some r" using r(2) by (simp add: active_ruleset_def)
  from GetActive_run[OF _ ok' this] r(1) show ?thesis by (auto simp: fault_free_def)
qed

lemma active_versions_free: "fault_free w \<Longrightarrow> active_versions w = (Inr (map rstVersion (filter rstIsActive (wRulesets w))), w)"
  by (simp add: active_versions_def pthen_def pbind_def)

lemma CreateRuleset_run:
  assumes "fault_free w" and "rulesets_ok w" and "\<forall>r \<in> set (wRulesets w). rstVersion r \<noteq> crqVersion request"
    and "distinct (map rpcRuleCode (crqRules request))"
  obtains n vs w' where "CreateRuleset request user w = (Inr (crqVersion request), w')" "fault_free w'" "rulesets_ok w'"
    "w' = activate_ruleset request user vs (w\<lparr>wFresh := n\<rparr>)"
proof -
  define vs where "vs = map rstVersion (filter rstIsActive (wRulesets w))"
  have new: "crqVersion request \<notin> set vs" using assms(3) by (auto simp: vs_def)
  have "keys_ok w" using assms(2) by (simp add: rulesets_ok_def)
  from save_run[OF assms(1) this assms(3,4) new] obtain n where
    n: "save_ruleset request user vs w = (Inr (crqVersion request), activate_ruleset request user vs (w\<lparr>wFresh := n\<rparr>))"
    "fault_free (activate_ruleset request user vs (w\<lparr>wFresh := n\<rparr>))" by blast
  then have c: "CreateRuleset request user w = (Inr (crqVersion request), activate_ruleset request user vs (w\<lparr>wFresh := n\<rparr>))"
    using active_versions_free[OF assms(1)] by (simp add: CreateRuleset_def pbind_def vs_def)
  moreover have "rulesets_ok (activate_ruleset request user vs (w\<lparr>wFresh := n\<rparr>))"
    using CreateRuleset_keeps[OF assms(2), of request user] c by simp
  ultimately show thesis using that n(2) by blast
qed

text \<open>
  C11: A rule set takes effect when it is created. Under a new version and with no rule twice, the request succeeds, is
  audited, and the next message is scored with the rules of the request; a rule the request leaves out is still on, for no points.\<close>

theorem new_ruleset_takes_effect:
  assumes "fault_free w" and "rulesets_ok w" and "\<forall>r \<in> set (wRulesets w). rstVersion r \<noteq> crqVersion request"
    and "distinct (map rpcRuleCode (crqRules request))"
  shows "\<exists>w' parameters. CreateRuleset request user w = (Inr (crqVersion request), w') \<and>
    GetActiveAsync w' = (Inr (crqVersion request, parameters), w') \<and>
    length (wAudit w') = length (wAudit w) + 1 \<and>
    (\<forall>ctx ruleCode. ctxRuleParameters ctx = parameters \<longrightarrow> ParametersFor ctx ruleCode =
      (case find (\<lambda>p. rpcRuleCode p = ruleCode) (crqRules request) of
         Some p \<Rightarrow> \<lparr>rpRuleCode = ruleCode, rpEnabled = rpcEnabled p, rpScore = rpcScore p,
                  rpParameters = (case rpcParameters p of None \<Rightarrow> [] | Some ps \<Rightarrow> ps)\<rparr>
       | None \<Rightarrow> \<lparr>rpRuleCode = ruleCode, rpEnabled = True, rpScore = 0, rpParameters = []\<rparr>))"
proof -
  obtain n vs w' where w': "CreateRuleset request user w = (Inr (crqVersion request), w')" "fault_free w'" "rulesets_ok w'"
    "w' = activate_ruleset request user vs (w\<lparr>wFresh := n\<rparr>)"
    using CreateRuleset_run[OF assms] .
  obtain r where r: "filter rstIsActive (wRulesets w') = [r]" "active_ruleset w' = Some r" using active_unique[OF w'(3)] .
  have "\<lparr>rstVersion = crqVersion request, rstIsActive = True, rstCreatedAt = wNow w\<rparr> \<in> set (filter rstIsActive (wRulesets w'))"
    by (simp add: w'(4) activate_ruleset_def store_ruleset_def)
  then have v: "rstVersion r = crqVersion request" unfolding r(1) by auto
  have none: "filter (\<lambda>x. rlrRulesetVersion x = crqVersion request) (wRules w) = []"
    using assms(2,3) by (force simp: filter_empty_conv rulesets_ok_def keys_ok_def)
  have rules: "wRules w' = wRules w @ request_rows request" by (simp add: w'(4) activate_ruleset_def store_ruleset_def)
  have "\<forall>x \<in> set (request_rows request). rlrRulesetVersion x = crqVersion request" by (simp add: request_rows_def patch_row_def)
  then have "filter (\<lambda>x. rlrRulesetVersion x = crqVersion request) (wRules w') = request_rows request"
    by (simp add: rules none)
  with GetActive_run[OF w'(2,3) r(2)] have g: "GetActiveAsync w' = (Inr (crqVersion request, map to_parameters (request_rows request)), w')"
    by (simp add: v)
  have "map_of (map to_parameters (map (patch_row v) ps)) c = map_option (\<lambda>p. \<lparr>rpRuleCode = c, rpEnabled = rpcEnabled p,
      rpScore = rpcScore p, rpParameters = (case rpcParameters p of None \<Rightarrow> [] | Some ps \<Rightarrow> ps)\<rparr>) (find (\<lambda>p. rpcRuleCode p = c) ps)"
    for v c ps by (induction ps) (auto simp: to_parameters_def patch_row_def)
  then have "\<forall>ctx c. ctxRuleParameters ctx = map to_parameters (request_rows request) \<longrightarrow> ParametersFor ctx c =
      (case find (\<lambda>p. rpcRuleCode p = c) (crqRules request) of
         Some p \<Rightarrow> \<lparr>rpRuleCode = c, rpEnabled = rpcEnabled p, rpScore = rpcScore p,
                  rpParameters = (case rpcParameters p of None \<Rightarrow> [] | Some ps \<Rightarrow> ps)\<rparr>
       | None \<Rightarrow> \<lparr>rpRuleCode = c, rpEnabled = True, rpScore = 0, rpParameters = []\<rparr>)"
    by (simp add: ParametersFor_def request_rows_def split: option.split)
  moreover have "length (wAudit w') = length (wAudit w) + 1" by (simp add: w'(4) activate_ruleset_def store_ruleset_def)
  ultimately show ?thesis using w'(1) g by blast
qed

section \<open>Two requests at once\<close>

text \<open>
  Two requests that both read the active rule sets before either saves both succeed, and leave two rule sets active; from then on
  the activation order is lost if both were created at the same instant.\<close>

theorem concurrent_activation_leaves_two:
  assumes "fault_free w" and "rulesets_ok w" and "distinct (map rpcRuleCode (crqRules a))" and "distinct (map rpcRuleCode (crqRules b))"
    and "\<forall>r \<in> set (wRulesets w). rstVersion r \<notin> {crqVersion a, crqVersion b}" and "crqVersion a \<noteq> crqVersion b"
    and "active_versions w = (Inr vs, w1)"
  shows "\<exists>w2 w3. active_versions w1 = (Inr vs, w1) \<and> save_ruleset a user vs w1 = (Inr (crqVersion a), w2) \<and>
    save_ruleset b user vs w2 = (Inr (crqVersion b), w3) \<and> length (filter rstIsActive (wRulesets w3)) = 2"
proof -
  have w1: "w1 = w" "vs = map rstVersion (filter rstIsActive (wRulesets w))" using active_versions_free[OF assms(1)] assms(7) by auto
  have keys: "keys_ok w" and vs: "crqVersion a \<notin> set vs" "crqVersion b \<notin> set vs"
    using assms(2,5) by (auto simp: rulesets_ok_def w1(2))
  obtain n where n: "save_ruleset a user vs w = (Inr (crqVersion a), activate_ruleset a user vs (w\<lparr>wFresh := n\<rparr>))"
    "keys_ok (activate_ruleset a user vs (w\<lparr>wFresh := n\<rparr>))" "fault_free (activate_ruleset a user vs (w\<lparr>wFresh := n\<rparr>))"
    using save_run[OF assms(1) keys _ assms(3) vs(1)] assms(5) by auto
  let ?w2 = "activate_ruleset a user vs (w\<lparr>wFresh := n\<rparr>)"
  have new: "\<forall>r \<in> set (wRulesets ?w2). rstVersion r \<noteq> crqVersion b"
    using assms(5,6) by (auto simp: activate_ruleset_def store_ruleset_def)
  obtain m where m: "save_ruleset b user vs ?w2 = (Inr (crqVersion b), activate_ruleset b user vs (?w2\<lparr>wFresh := m\<rparr>))"
    using save_run[OF n(3,2) new assms(4) vs(2), of user] by blast
  have "filter (\<lambda>r. rstVersion r \<notin> set vs) (filter rstIsActive (wRulesets w)) = []" by (auto simp: w1(2) filter_empty_conv)
  then have "length (filter rstIsActive (wRulesets (activate_ruleset b user vs (?w2\<lparr>wFresh := m\<rparr>)))) = 2"
    using vs by (simp add: activate_active)
  then show ?thesis using n(1) m assms(7) w1(1) by auto
qed

section \<open>Examples\<close>

definition two_rules :: "string \<Rightarrow> CreateRulesetRequest" where
  "two_rules version = \<lparr>crqVersion = version, crqRules = [\<lparr>rpcRuleCode = ''HIGH_VALUE'', rpcEnabled = True, rpcScore = 60, rpcParameters = None\<rparr>,
     \<lparr>rpcRuleCode = ''ROUND_AMOUNT'', rpcEnabled = False, rpcScore = 8, rpcParameters = Some []\<rparr>]\<rparr>"

lemma example_rulesets: "rulesets_ok empty_world" "fault_free empty_world"
  "\<forall>r \<in> set (wRulesets empty_world). rstVersion r \<notin> {''two'', ''three''}"
proof -
  have "wRules empty_world = map seed_row Defaults" by (simp add: empty_world_def seed_row_def[abs_def])
  then have "distinct (map rule_key (wRules empty_world))" using seed_keys by simp
  then show "rulesets_ok empty_world" by (auto simp: rulesets_ok_def keys_ok_def empty_world_def)
qed (simp_all add: fault_free_def empty_world_def InitialVersion_def)

lemma new_ruleset_takes_effect_witness:
  "\<exists>w' parameters. CreateRuleset (two_rules ''two'') None empty_world = (Inr ''two'', w') \<and>
     GetActiveAsync w' = (Inr (''two'', parameters), w')"
proof -
  have "crqVersion (two_rules ''two'') = ''two''" "distinct (map rpcRuleCode (crqRules (two_rules ''two'')))"
    by (simp_all add: two_rules_def)
  with new_ruleset_takes_effect [OF example_rulesets(2,1), of "two_rules ''two''" None] example_rulesets(3) show ?thesis by auto
qed

lemma concurrent_activation_leaves_two_witness:
  "\<exists>vs w2 w3. active_versions empty_world = (Inr vs, empty_world) \<and>
     save_ruleset (two_rules ''two'') None vs empty_world = (Inr ''two'', w2) \<and>
     save_ruleset (two_rules ''three'') None vs w2 = (Inr ''three'', w3) \<and> length (filter rstIsActive (wRulesets w3)) = 2"
proof -
  have "crqVersion (two_rules v) = v" "distinct (map rpcRuleCode (crqRules (two_rules v)))" for v by (simp_all add: two_rules_def)
  with concurrent_activation_leaves_two [OF example_rulesets(2,1), of "two_rules ''two''" "two_rules ''three''" _ empty_world None]
    active_versions_free [OF example_rulesets(2)] example_rulesets(3) show ?thesis by auto
qed

lemma engine_always_has_rules_witness:
  "\<exists>w1 r. SeedRulesets (empty_world\<lparr>wRulesets := [], wRules := []\<rparr>) = (Inr (), w1) \<and>
     filter rstIsActive (wRulesets (do_requests [(two_rules ''two'', None, [Fine, Unavailable]), (two_rules ''two'', None, [])] w1)) = [r]"
proof -
  let ?w = "empty_world\<lparr>wRulesets := [], wRules := []\<rparr>"
  have "ruleset_fits InitialVersion (map seed_row Defaults) ?w" using seed_keys unfolding ruleset_fits_def by simp
  moreover have "fault_free ?w" by (simp add: fault_free_def empty_world_def)
  ultimately have "\<exists>w1. SeedRulesets ?w = (Inr (), w1)"
    by (simp add: SeedRulesets_def pbind_def pthen_def draw_run fault_free_def ruleset_fits_def)
  then obtain w1 where "SeedRulesets ?w = (Inr (), w1)" by blast
  moreover have "wRulesets ?w = []" "wRules ?w = []" by simp_all
  ultimately show ?thesis
    using engine_always_has_rules [of ?w w1 "[(two_rules ''two'', None, [Fine, Unavailable]), (two_rules ''two'', None, [])]"] by metis
qed

end
