(* ===== verification/Cases.thy ===== *)
theory Cases
  imports Outbox
begin

text \<open>
  Fraud cases: the consumer that opens them from decisions (\<open>DecisionFanoutConsumer.cs\<close>) and the endpoints that
  move them (\<open>Sentinel.Cases.Api/Program.cs\<close>). The caller's name is an argument; authorisation is left out. The identifiers of
  history and note rows are drawn but not kept. A gauge changes when the code changes it, before the save.
\<close>

section \<open>Opening a case\<close>

definition live_publish :: "bool \<Rightarrow> RiskDecisionV1 \<Rightarrow> unit op" where
  "live_publish alerts msg = (\<lambda>w. case next_fault w of (flt, w') \<Rightarrow>
     if flt = Fine then (Inr (), w'\<lparr>wLive := wLive w' @ [(alerts, msg)]\<rparr>)
     else (Inl (TransientInfrastructure ''redis''), w'))"

definition open_case :: "RiskDecisionV1 \<Rightarrow> unit op" where
  "open_case msg =
     pbind (query (\<lambda>w. \<exists>c \<in> set (wCases w). csTransactionId c = decTransactionId msg)) (\<lambda>there.
       if there then preturn ()
       else
         pbind (pget wNow) (\<lambda>now.
         pbind CreateVersion7 (\<lambda>caseId.
         pbind CreateVersion7 (\<lambda>historyId.
         pthen (SaveChanges (\<lambda>w. \<forall>c \<in> set (wCases w). csTransactionId c \<noteq> decTransactionId msg \<and> csCaseId c \<noteq> caseId)
             (\<lambda>w. w\<lparr>wCases := wCases w @ [\<lparr>csCaseId = caseId, csTransactionId = decTransactionId msg,
                   csCustomerId = decCustomerId msg, csAccountId = decAccountId msg, csRiskScore = decRiskScore msg,
                   csRiskLevel = decRiskLevel msg, csStatus = Open, csAssignedAnalyst = None, csAnalystDecision = None,
                   csCreatedAt = now, csUpdatedAt = now\<rparr>],
                 wHistory := wHistory w @ [\<lparr>hstCaseId = caseId, hstFrom = Open, hstTo = Open, hstActor = ''system'',
                   hstNotes = Some ''Case opened from risk decision.'', hstChangedAt = now\<rparr>]\<rparr>))
           (pmodify (\<lambda>w. w\<lparr>wCasesOpen := wCasesOpen w + 1\<rparr>))))))"

definition HandleDecision :: "RiskDecisionV1 \<Rightarrow> unit op" where
  "HandleDecision msg =
     pbind (TryBeginAsync (decEventId msg) DecisionPublisher) (\<lambda>claimed.
       if \<not> claimed then preturn ()
       else
         pthen (if decDecision msg \<in> {Review, Block} then open_case msg else preturn ())
         (pthen (live_publish False msg)
         (pthen (if decDecision msg \<in> {Review, Block} then live_publish True msg else preturn ())
         (CompleteAsync (decEventId msg)))))"

definition Deserialize_decision :: "RiskDecisionV1 json \<Rightarrow> exn + RiskDecisionV1" where
  "Deserialize_decision r = (case r of
       Json absent d \<Rightarrow>
         if readable absent then Inr (d\<lparr>decTransaction := with_absent absent (decTransaction d)\<rparr>) else Inl JsonFailure
     | NullJson \<Rightarrow> Inl (PoisonMessage ''Risk decision payload could not be deserialized.'')
     | BadJson \<Rightarrow> Inl JsonFailure)"

definition ConsumeDecision :: "RiskDecisionV1 json \<Rightarrow> unit op" where
  "ConsumeDecision r = pbind (plift (Deserialize_decision r)) HandleDecision"

lemma ConsumeDecision_serialized:
  "ConsumeDecision (Serialize_decision d) w =
     (if no_required_null (decTransaction d) then HandleDecision d w else (Inl JsonFailure, w))"
  by (simp add: ConsumeDecision_def Deserialize_decision_def Serialize_decision_def readable_null_members pbind_def)

section \<open>Moving a case\<close>

datatype http_result = NotFound | NoContent

text \<open>\<open>user.Identity?.Name ?? "analyst"\<close>\<close>

definition actor_name :: "string option \<Rightarrow> string" where
  "actor_name user = (case user of Some n \<Rightarrow> n | None \<Rightarrow> ''analyst'')"

definition closed_status :: "CaseStatus \<Rightarrow> bool" where
  "closed_status s \<longleftrightarrow> s \<in> {Closed, ConfirmedFraud, FalsePositive}"

definition gauge_change :: "CaseStatus \<Rightarrow> CaseStatus \<Rightarrow> int" where
  "gauge_change from' to' = (if to' = ConfirmedFraud then -1
     else if to' \<in> {FalsePositive, Closed} \<and> \<not> closed_status from' then -1 else 0)"

definition move_case :: "CaseStatus \<Rightarrow> string option \<Rightarrow> instant \<Rightarrow> CaseRow \<Rightarrow> CaseRow" where
  "move_case to' assignee now c =
     c\<lparr>csStatus := to', csUpdatedAt := now,
       csAssignedAnalyst := (if IsNullOrWhiteSpace assignee then csAssignedAnalyst c else assignee),
       csAnalystDecision := (if to' = ConfirmedFraud then Some Block else if to' = FalsePositive then Some Approve
         else csAnalystDecision c)\<rparr>"

definition Transition ::
    "guid \<Rightarrow> CaseStatus \<Rightarrow> string option \<Rightarrow> string option \<Rightarrow> string option \<Rightarrow> http_result op" where
  "Transition caseId to' user assignee notes =
     pbind (query (\<lambda>w. find (\<lambda>c. csCaseId c = caseId) (wCases w))) (\<lambda>found.
       case found of
         None \<Rightarrow> preturn NotFound
       | Some fraudCase \<Rightarrow>
           pbind (pget wNow) (\<lambda>now.
           pthen (pmodify (\<lambda>w. w\<lparr>wCasesOpen := wCasesOpen w + gauge_change (csStatus fraudCase) to'\<rparr>))
           (pbind CreateVersion7 (\<lambda>historyId.
           pthen (SaveChanges (\<lambda>_. True)
               (\<lambda>w. w\<lparr>wCases := map (\<lambda>c. if csCaseId c = caseId then move_case to' assignee now c else c) (wCases w),
                     wHistory := wHistory w @ [\<lparr>hstCaseId = caseId, hstFrom = csStatus fraudCase, hstTo = to',
                       hstActor = actor_name user, hstNotes = notes, hstChangedAt = now\<rparr>]\<rparr>))
             (preturn NoContent)))))"

definition PublishFeedback :: "guid \<Rightarrow> FeedbackType \<Rightarrow> string option \<Rightarrow> string option \<Rightarrow> unit op" where
  "PublishFeedback caseId kind user notes =
     pbind (query (\<lambda>w. find (\<lambda>c. csCaseId c = caseId) (wCases w))) (\<lambda>found.
       case found of
         None \<Rightarrow> praise (InvalidOperation ''Sequence contains no elements'')
       | Some fraudCase \<Rightarrow>
           pbind CreateVersion7 (\<lambda>eventId.
           pbind CreateVersion7 (\<lambda>correlation.
           pbind (pget wNow) (\<lambda>now.
             PublishAsync CaseFeedback (csAccountId fraudCase)
               (Feedback \<lparr>fbkEventId = eventId, fbkCorrelationId = guid_N correlation, fbkOccurredAt = now, fbkCaseId = caseId,
                  fbkTransactionId = csTransactionId fraudCase, fbkFeedbackType = kind, fbkAnalyst = actor_name user,
                  fbkNotes = notes\<rparr>)))))"

definition AddNote :: "guid \<Rightarrow> string \<Rightarrow> string option \<Rightarrow> http_result op" where
  "AddNote caseId body user =
     pbind (query (\<lambda>w. \<exists>c \<in> set (wCases w). csCaseId c = caseId)) (\<lambda>there.
       if \<not> there then preturn NotFound
       else
         pbind CreateVersion7 (\<lambda>ident.
         pbind (pget wNow) (\<lambda>now.
         pthen (SaveChanges (\<lambda>_. True)
             (\<lambda>w. w\<lparr>wNotes := wNotes w @ [\<lparr>ntCaseId = caseId, ntAuthor = actor_name user, ntBody = body, ntCreatedAt = now\<rparr>]\<rparr>))
           (preturn NoContent))))"

text \<open>The endpoints, by the last part of their path.\<close>

definition AssignCase :: "guid \<Rightarrow> string \<Rightarrow> string option \<Rightarrow> http_result op" where
  "AssignCase caseId analyst user = Transition caseId Assigned user (Some analyst) (Some (''Assigned to '' @ analyst))"

definition InvestigateCase :: "guid \<Rightarrow> string option \<Rightarrow> http_result op" where
  "InvestigateCase caseId user = Transition caseId Investigating user None (Some ''Investigation started'')"

definition EscalateCase :: "guid \<Rightarrow> string option \<Rightarrow> http_result op" where
  "EscalateCase caseId user = Transition caseId Escalated user None (Some ''Escalated'')"

definition with_feedback ::
    "guid \<Rightarrow> CaseStatus \<Rightarrow> FeedbackType \<Rightarrow> string \<Rightarrow> string option \<Rightarrow> http_result op" where
  "with_feedback caseId to' kind body user =
     pbind (Transition caseId to' user None (Some body)) (\<lambda>result.
     pthen (PublishFeedback caseId kind user (Some body)) (preturn result))"

definition ConfirmFraud :: "guid \<Rightarrow> string \<Rightarrow> string option \<Rightarrow> http_result op" where
  "ConfirmFraud caseId = with_feedback caseId ConfirmedFraud FraudConfirmed"

definition MarkFalsePositive :: "guid \<Rightarrow> string \<Rightarrow> string option \<Rightarrow> http_result op" where
  "MarkFalsePositive caseId = with_feedback caseId FalsePositive FalsePositiveConfirmed"

definition CloseCase :: "guid \<Rightarrow> string \<Rightarrow> string option \<Rightarrow> http_result op" where
  "CloseCase caseId = with_feedback caseId Closed CaseClosed"

section \<open>The history of a case\<close>

fun chain :: "CaseStatus \<Rightarrow> HistoryRow list \<Rightarrow> bool" where
  "chain s [] = True"
| "chain s (h # hs) = (hstFrom h = s \<and> chain (hstTo h) hs)"

fun end_status :: "CaseStatus \<Rightarrow> HistoryRow list \<Rightarrow> CaseStatus" where
  "end_status s [] = s"
| "end_status s (h # hs) = end_status (hstTo h) hs"

definition history_of :: "guid \<Rightarrow> World \<Rightarrow> HistoryRow list" where
  "history_of caseId w = filter (\<lambda>h. hstCaseId h = caseId) (wHistory w)"

text \<open>
  Cases and history agree: one case per transaction, and the history of a case starts with its opening, each
  step starts where the one before ended, and the last ends in the status the case has.\<close>

definition cases_ok :: "World \<Rightarrow> bool" where
  "cases_ok w \<longleftrightarrow> distinct (map csCaseId (wCases w)) \<and> distinct (map csTransactionId (wCases w)) \<and>
     (\<forall>c \<in> set (wCases w). csCaseId c \<le> wFresh w \<and> history_of (csCaseId c) w \<noteq> [] \<and>
        chain Open (history_of (csCaseId c) w) \<and> end_status Open (history_of (csCaseId c) w) = csStatus c) \<and>
     (\<forall>h \<in> set (wHistory w). hstCaseId h \<in> csCaseId ` set (wCases w))"

lemma chain_snoc: "chain s (hs @ [h]) \<longleftrightarrow> chain s hs \<and> hstFrom h = end_status s hs"
  by (induction hs arbitrary: s) auto

lemma end_status_snoc: "end_status s (hs @ [h]) = hstTo h"
  by (induction hs arbitrary: s) auto

lemma cases_ok_fields:
  "cases_ok (w\<lparr>wFaults := fs\<rparr>) = cases_ok w" "cases_ok (w\<lparr>wLive := l\<rparr>) = cases_ok w"
  "cases_ok (w\<lparr>wCasesOpen := n\<rparr>) = cases_ok w" "cases_ok (w\<lparr>wPublished := p\<rparr>) = cases_ok w"
  "cases_ok (w\<lparr>wInbox := i\<rparr>) = cases_ok w" "cases_ok (w\<lparr>wNotes := ns\<rparr>) = cases_ok w"
  by (simp_all add: cases_ok_def history_of_def)

lemma cases_ok_schedule: "schedule_free cases_ok"
  by (simp add: schedule_free_def cases_ok_fields)

lemma cases_ok_fresh: "cases_ok w \<Longrightarrow> wFresh w \<le> k \<Longrightarrow> cases_ok (w\<lparr>wFresh := k\<rparr>)"
  by (fastforce simp: cases_ok_def history_of_def)

lemma cases_ok_open:
  assumes ok: "cases_ok w" and new: "\<forall>c \<in> set (wCases w). csTransactionId c \<noteq> csTransactionId c'"
    and fresh: "\<forall>c \<in> set (wCases w). csCaseId c \<noteq> csCaseId c'" and le: "csCaseId c' \<le> wFresh w"
    and c': "csStatus c' = Open" "hstCaseId h = csCaseId c'" "hstFrom h = Open" "hstTo h = Open"
  shows "cases_ok (w\<lparr>wCases := wCases w @ [c'], wHistory := wHistory w @ [h]\<rparr>)"
proof -
  have "history_of (csCaseId c') w = []"
    using ok fresh by (force simp: cases_ok_def history_of_def filter_empty_conv)
  then show ?thesis using assms by (auto simp: cases_ok_def history_of_def)
qed

lemma cases_ok_move:
  assumes ok: "cases_ok w" and c: "c \<in> set (wCases w)" and h: "hstCaseId h = csCaseId c" "hstFrom h = csStatus c" "hstTo h = to'"
  shows "cases_ok (w\<lparr>wCases := map (\<lambda>x. if csCaseId x = csCaseId c then move_case to' a now x else x) (wCases w),
    wHistory := wHistory w @ [h]\<rparr>)" (is "cases_ok ?w")
proof -
  let ?f = "\<lambda>x. if csCaseId x = csCaseId c then move_case to' a now x else x"
  have same: "csCaseId (?f x) = csCaseId x" "csTransactionId (?f x) = csTransactionId x" for x by (simp_all add: move_case_def)
  have "csCaseId y \<le> wFresh w \<and> history_of (csCaseId y) ?w \<noteq> [] \<and> chain Open (history_of (csCaseId y) ?w) \<and>
      end_status Open (history_of (csCaseId y) ?w) = csStatus y" if y: "y \<in> set (wCases ?w)" for y
  proof -
    obtain x where x: "x \<in> set (wCases w)" "y = ?f x" using y by auto
    have old: "csCaseId x \<le> wFresh w" "history_of (csCaseId x) w \<noteq> []" "chain Open (history_of (csCaseId x) w)"
      "end_status Open (history_of (csCaseId x) w) = csStatus x" using ok x(1) by (simp_all add: cases_ok_def)
    have id: "csCaseId y = csCaseId x" using x(2) same by simp
    show ?thesis
    proof (cases "csCaseId x = csCaseId c")
      case True
      then have "x = c" using ok x(1) c inj_onD[of csCaseId "set (wCases w)"] by (auto simp: cases_ok_def distinct_map)
      moreover have "history_of (csCaseId y) ?w = history_of (csCaseId x) w @ [h]"
        using True id h by (simp add: history_of_def)
      moreover have "csStatus y = to'" using True x(2) by (simp add: move_case_def)
      ultimately show ?thesis using old h id by (simp add: chain_snoc end_status_snoc)
    next
      case False
      then have "history_of (csCaseId y) ?w = history_of (csCaseId x) w" "y = x" using id h x(2) by (simp_all add: history_of_def)
      then show ?thesis using old by simp
    qed
  qed
  moreover have ids: "map csCaseId (wCases ?w) = map csCaseId (wCases w)"
      "map csTransactionId (wCases ?w) = map csTransactionId (wCases w)"
    using same by simp_all
  moreover have "csCaseId ` set (wCases ?w) = csCaseId ` set (wCases w)" using ids(1) by (metis set_map)
  moreover have "\<forall>x \<in> set (wHistory ?w). hstCaseId x \<in> csCaseId ` set (wCases w)"
    using ok c h(1) by (auto simp: cases_ok_def)
  moreover have "distinct (map csCaseId (wCases w))" "distinct (map csTransactionId (wCases w))" using ok by (simp_all add: cases_ok_def)
  moreover have "wFresh ?w = wFresh w" by simp
  ultimately show ?thesis unfolding cases_ok_def by (simp only: simp_thms ball_simps) blast
qed

section \<open>Every operation keeps it\<close>

lemma SaveChanges_keeps:
  assumes "schedule_free P" and "P w" and "\<And>fs. c (w\<lparr>wFaults := fs\<rparr>) \<Longrightarrow> P (f (w\<lparr>wFaults := fs\<rparr>))"
  shows "P (snd (SaveChanges c f w))"
proof -
  obtain flt w' where n: "db_fault w = (flt, w')" by (cases "db_fault w")
  then obtain fs where "w' = w\<lparr>wFaults := fs\<rparr>" using db_fault_same by blast
  then show ?thesis using assms(2) assms(3) db_fault_keeps[OF assms(1,2) n] n
    by (cases flt) (auto simp: SaveChanges_def)
qed

lemma snd_pthen_preturn: "snd (pthen m (preturn x) w) = snd (m w)"
  by (cases "m w"; cases "fst (m w)") (auto simp: pthen_def pbind_def)

lemma keeps_publish_op:
  assumes "schedule_free P" and "\<And>w x. P w \<Longrightarrow> P (w\<lparr>wPublished := x\<rparr>)"
  shows "keeps P (PublishAsync topic key body)"
proof (rule keepsI)
  fix w assume P: "P w"
  obtain flt w' where n: "next_fault w = (flt, w')" by (cases "next_fault w")
  then show "P (snd (PublishAsync topic key body w))"
    using next_fault_keeps[OF assms(1) P n] assms(2) by (simp add: PublishAsync_def)
qed

lemma keeps_live_publish [inv_intros]: "keeps cases_ok (live_publish b msg)"
proof (rule keepsI)
  fix w assume P: "cases_ok w"
  obtain flt w' where n: "next_fault w = (flt, w')" by (cases "next_fault w")
  then show "cases_ok (snd (live_publish b msg w))"
    using next_fault_keeps[OF cases_ok_schedule P n] by (simp add: live_publish_def cases_ok_fields)
qed

lemma keeps_inbox_cases [inv_intros]:
  "keeps cases_ok (TryBeginAsync eventId consumer)" "keeps cases_ok (CompleteAsync eventId)"
  unfolding TryBeginAsync_def CompleteAsync_def
  by (intro inv_intros cases_ok_schedule keeps_SaveChanges; auto simp: cases_ok_fields keeps_preturn split: if_splits)+

lemma keeps_open_case [inv_intros]: "keeps cases_ok (open_case msg)"
  unfolding open_case_def
proof (rule keeps_query_bind [OF cases_ok_schedule])
  fix w assume ok: "cases_ok w"
  have "cases_ok (w\<lparr>wFresh := wFresh w + 1 + 1\<rparr>)" using ok by (rule cases_ok_fresh) simp
  then have k: "cases_ok (w\<lparr>wFresh := wFresh w + 1 + 1, wFaults := fs\<rparr>)" for fs by (simp add: cases_ok_fields)
  have m: "cases_ok (snd (pthen a (pmodify (\<lambda>w. w\<lparr>wCasesOpen := wCasesOpen w + 1\<rparr>)) v)) = cases_ok (snd (a v))" for a v
    by (cases "a v"; cases "fst (a v)") (auto simp: pthen_def pbind_def cases_ok_fields)
  show "cases_ok (snd ((if \<exists>c \<in> set (wCases w). csTransactionId c = decTransactionId msg then preturn ()
       else
         pbind (pget wNow) (\<lambda>now.
         pbind CreateVersion7 (\<lambda>caseId.
         pbind CreateVersion7 (\<lambda>historyId.
         pthen (SaveChanges (\<lambda>w. \<forall>c \<in> set (wCases w). csTransactionId c \<noteq> decTransactionId msg \<and> csCaseId c \<noteq> caseId)
             (\<lambda>w. w\<lparr>wCases := wCases w @ [\<lparr>csCaseId = caseId, csTransactionId = decTransactionId msg,
                   csCustomerId = decCustomerId msg, csAccountId = decAccountId msg, csRiskScore = decRiskScore msg,
                   csRiskLevel = decRiskLevel msg, csStatus = Open, csAssignedAnalyst = None, csAnalystDecision = None,
                   csCreatedAt = now, csUpdatedAt = now\<rparr>],
                 wHistory := wHistory w @ [\<lparr>hstCaseId = caseId, hstFrom = Open, hstTo = Open, hstActor = ''system'',
                   hstNotes = Some ''Case opened from risk decision.'', hstChangedAt = now\<rparr>]\<rparr>))
           (pmodify (\<lambda>w. w\<lparr>wCasesOpen := wCasesOpen w + 1\<rparr>)))))) w))"
  proof (cases "\<exists>c \<in> set (wCases w). csTransactionId c = decTransactionId msg")
    case False
    then show ?thesis using k[of "wFaults w"] k
      by (auto simp: m intro!: SaveChanges_keeps[OF cases_ok_schedule] cases_ok_open)
  qed (use ok in simp)
qed simp

lemma keeps_Transition [inv_intros]: "keeps cases_ok (Transition caseId to' user assignee notes)"
  unfolding Transition_def
proof (rule keeps_query_bind [OF cases_ok_schedule])
  fix w assume ok: "cases_ok w"
  let ?rest = "\<lambda>found. case found of None \<Rightarrow> preturn NotFound
       | Some fraudCase \<Rightarrow>
           pbind (pget wNow) (\<lambda>now.
           pthen (pmodify (\<lambda>w. w\<lparr>wCasesOpen := wCasesOpen w + gauge_change (csStatus fraudCase) to'\<rparr>))
           (pbind CreateVersion7 (\<lambda>historyId.
           pthen (SaveChanges (\<lambda>_. True)
               (\<lambda>w. w\<lparr>wCases := map (\<lambda>c. if csCaseId c = caseId then move_case to' assignee now c else c) (wCases w),
                     wHistory := wHistory w @ [\<lparr>hstCaseId = caseId, hstFrom = csStatus fraudCase, hstTo = to',
                       hstActor = actor_name user, hstNotes = notes, hstChangedAt = now\<rparr>]\<rparr>))
             (preturn NoContent))))"
  show "cases_ok (snd (?rest (find (\<lambda>c. csCaseId c = caseId) (wCases w)) w))"
  proof (cases "find (\<lambda>c. csCaseId c = caseId) (wCases w)")
    case (Some c)
    then have c: "c \<in> set (wCases w)" "csCaseId c = caseId" by (auto simp: find_Some_iff)
    let ?v = "w\<lparr>wCasesOpen := wCasesOpen w + gauge_change (csStatus c) to', wFresh := wFresh w + 1\<rparr>"
    have "cases_ok (w\<lparr>wCasesOpen := wCasesOpen w + gauge_change (csStatus c) to'\<rparr>)" using ok by (simp add: cases_ok_fields)
    then have v: "cases_ok ?v" by (rule cases_ok_fresh) simp
    then have "cases_ok (?v\<lparr>wFaults := fs\<rparr>)" for fs by (simp only: cases_ok_fields)
    note v = v this
    show ?thesis using v c
      by (auto simp: Some snd_pthen_preturn intro!: SaveChanges_keeps[OF cases_ok_schedule]
          cases_ok_move[where c = c and w = "?v\<lparr>wFaults := _\<rparr>", simplified])
  qed (use ok in simp)
qed simp

lemma keeps_PublishFeedback [inv_intros]: "keeps cases_ok (PublishFeedback caseId kind user notes)"
proof -
  have "keeps cases_ok CreateVersion7" by (rule keepsI) (simp add: cases_ok_fresh)
  then show ?thesis unfolding PublishFeedback_def
    by (intro inv_intros keeps_publish_op cases_ok_schedule) (simp_all add: cases_ok_fields)
qed

lemma keeps_AddNote [inv_intros]: "keeps cases_ok (AddNote caseId body user)"
proof -
  have "keeps cases_ok CreateVersion7" by (rule keepsI) (simp add: cases_ok_fresh)
  then show ?thesis unfolding AddNote_def
    by (intro inv_intros keeps_SaveChanges cases_ok_schedule) (simp_all add: cases_ok_fields)
qed

lemma keeps_HandleDecision [inv_intros]: "keeps cases_ok (HandleDecision msg)"
  unfolding HandleDecision_def by (intro inv_intros)

section \<open>What happens to cases\<close>

datatype case_call = CallDecision RiskDecisionV1 | CallAssign guid string "string option" | CallInvestigate guid "string option"
  | CallEscalate guid "string option" | CallConfirm guid string "string option" | CallFalsePositive guid string "string option"
  | CallClose guid string "string option" | CallNote guid string "string option"

fun do_call :: "case_call \<Rightarrow> World \<Rightarrow> World" where
  "do_call (CallDecision msg) w = snd (HandleDecision msg w)"
| "do_call (CallAssign c analyst user) w = snd (AssignCase c analyst user w)"
| "do_call (CallInvestigate c user) w = snd (InvestigateCase c user w)"
| "do_call (CallEscalate c user) w = snd (EscalateCase c user w)"
| "do_call (CallConfirm c body user) w = snd (ConfirmFraud c body user w)"
| "do_call (CallFalsePositive c body user) w = snd (MarkFalsePositive c body user w)"
| "do_call (CallClose c body user) w = snd (CloseCase c body user w)"
| "do_call (CallNote c body user) w = snd (AddNote c body user w)"

lemma do_call_ok: "cases_ok w \<Longrightarrow> cases_ok (do_call c w)"
proof -
  have f: "keeps cases_ok (with_feedback i to' k b u)" for i to' k b u
    unfolding with_feedback_def by (intro inv_intros)
  show "cases_ok w \<Longrightarrow> cases_ok (do_call c w)"
    by (cases c) (simp_all add: AssignCase_def InvestigateCase_def EscalateCase_def ConfirmFraud_def MarkFalsePositive_def
        CloseCase_def keepsD[OF f] keepsD[OF keeps_Transition] keepsD[OF keeps_HandleDecision] keepsD[OF keeps_AddNote])
qed

text \<open>
  C16: the history of every case tells how it got its status. From an empty table, whatever decisions arrive and
  whatever the analysts do, in any order and with any faults of database, Redis and Kafka in between: there is at
  most one case of a transaction, its history begins with its opening, every step starts in the status in which the
  one before ended, and the last one ends in the status the case has.\<close>

theorem cases_history_agrees:
  assumes "wCases w = []" and "wHistory w = []"
  shows "cases_ok (fold do_call calls w)"
proof -
  have "cases_ok v \<Longrightarrow> cases_ok (fold do_call calls v)" for v
    by (induction calls arbitrary: v) (simp_all add: do_call_ok)
  then show ?thesis using assms by (simp add: cases_ok_def)
qed

definition example_decision :: RiskDecisionV1 where
  "example_decision = \<lparr>decEventId = 70, decCorrelationId = [], decOccurredAt = 0, decTransactionId = ''T1'', decAccountId = ''A1'',
    decCustomerId = ''C1'', decRiskScore = 90, decRiskLevel = Critical, decDecision = Block, decTriggeredRules = [], decReasons = [],
    decEvidence = [], decProcessingTimeMs = 1, decModelVersion = [], decRulesetVersion = [], decTransaction = example_message\<rparr>"

lemma cases_history_agrees_witness:
  "cases_ok (fold do_call [CallDecision example_decision, CallAssign 1 ''ann'' None, CallConfirm 1 ''fraud'' (Some ''ann'')]
     (empty_world\<lparr>wFaults := [Fine, Fine, Fine, Fine, Unavailable]\<rparr>))"
  by (rule cases_history_agrees) (simp_all add: empty_world_def)

lemma Transition_run:
  assumes "fault_free w" and "find (\<lambda>c. csCaseId c = caseId) (wCases w) = Some c"
  shows "Transition caseId to' user assignee notes w = (Inr NoContent,
    w\<lparr>wCasesOpen := wCasesOpen w + gauge_change (csStatus c) to', wFresh := wFresh w + 1,
      wCases := map (\<lambda>x. if csCaseId x = caseId then move_case to' assignee (wNow w) x else x) (wCases w),
      wHistory := wHistory w @ [\<lparr>hstCaseId = caseId, hstFrom = csStatus c, hstTo = to', hstActor = actor_name user,
        hstNotes = notes, hstChangedAt = wNow w\<rparr>]\<rparr>)"
  using assms by (simp add: Transition_def fault_free_def)

lemma find_moved:
  "find (\<lambda>c. csCaseId c = caseId) (map (\<lambda>x. if csCaseId x = caseId then move_case to' a now x else x) cs) =
   map_option (move_case to' a now) (find (\<lambda>c. csCaseId c = caseId) cs)"
  by (induction cs) (simp_all add: move_case_def)

lemma Feedback_run:
  assumes "fault_free w" and "find (\<lambda>c. csCaseId c = caseId) (wCases w) = Some c"
  obtains p where "PublishFeedback caseId kind user notes w = (Inr (), w\<lparr>wFresh := wFresh w + 2, wPublished := p\<rparr>)"
  using assms by (simp add: PublishFeedback_def PublishAsync_def next_fault_def fault_free_def)

text \<open>The number of cases the gauge should show.\<close>

definition open_count :: "World \<Rightarrow> int" where
  "open_count w = int (length (filter (\<lambda>c. \<not> closed_status (csStatus c)) (wCases w)))"

lemma open_count_move:
  assumes "distinct (map csCaseId cs)" and "find (\<lambda>c. csCaseId c = caseId) cs = Some c"
  shows "int (length (filter (\<lambda>c. \<not> closed_status (csStatus c))
      (map (\<lambda>x. if csCaseId x = caseId then move_case to' a now x else x) cs))) =
    int (length (filter (\<lambda>c. \<not> closed_status (csStatus c)) cs)) - (if closed_status (csStatus c) then 0 else 1) +
      (if closed_status to' then 0 else 1)"
  using assms
proof (induction cs)
  case (Cons x xs)
  have id: "map (\<lambda>x. if csCaseId x = caseId then move_case to' a now x else x) xs = xs" if "caseId \<notin> csCaseId ` set xs"
    using that by (intro map_idI) auto
  show ?case
  proof (cases "csCaseId x = caseId")
    case True
    then have x: "c = x" "caseId \<notin> csCaseId ` set xs" using Cons.prems by auto
    then show ?thesis using True by (simp add: id) (simp add: move_case_def)
  qed (use Cons in auto)
qed simp

text \<open>
  The gauge of open cases does not count open cases. A case that was counted is confirmed as fraud twice, or
  closed and assigned again: each time every call succeeds, and the gauge is then one lower than the number of cases that are
  open.\<close>

theorem gauge_miscounts:
  assumes "fault_free w" and "distinct (map csCaseId (wCases w))"
    and c: "find (\<lambda>c. csCaseId c = caseId) (wCases w) = Some c" "\<not> closed_status (csStatus c)" and "wCasesOpen w = open_count w"
  shows "(\<exists>w1 w2. ConfirmFraud caseId b user w = (Inr NoContent, w1) \<and> ConfirmFraud caseId b user w1 = (Inr NoContent, w2) \<and>
      wCasesOpen w1 = open_count w1 \<and> wCasesOpen w2 = open_count w2 - 1) \<and>
    (\<exists>w1 w2. CloseCase caseId b user w = (Inr NoContent, w1) \<and> AssignCase caseId a user w1 = (Inr NoContent, w2) \<and>
      wCasesOpen w1 = open_count w1 \<and> wCasesOpen w2 = open_count w2 - 1)"
proof -
  define moved where "moved = (\<lambda>to' a (v :: World). map (\<lambda>x. if csCaseId x = caseId then move_case to' a (wNow v) x else x) (wCases v))"
  have step: "\<exists>v'. with_feedback caseId to' k b user v = (Inr NoContent, v') \<and> fault_free v' \<and> wCases v' = moved to' None v \<and>
      wCasesOpen v' = wCasesOpen v + gauge_change (csStatus x) to'"
    if v: "fault_free v" "find (\<lambda>c. csCaseId c = caseId) (wCases v) = Some x" for v to' k x
  proof -
    obtain u where u: "Transition caseId to' user None (Some b) v = (Inr NoContent, u)" "fault_free u" "wCases u = moved to' None v"
      "wCasesOpen u = wCasesOpen v + gauge_change (csStatus x) to'"
      using Transition_run[OF v, of to' user None "Some b"] v(1) by (auto simp: fault_free_def moved_def)
    have "find (\<lambda>c. csCaseId c = caseId) (wCases u) = Some (move_case to' None (wNow v) x)"
      using v(2) by (simp add: u(3) moved_def find_moved)
    from Feedback_run[OF u(2) this, of k user "Some b"] obtain p where
      "PublishFeedback caseId k user (Some b) u = (Inr (), u\<lparr>wFresh := wFresh u + 2, wPublished := p\<rparr>)" .
    then show ?thesis using u by (simp add: with_feedback_def fault_free_def)
  qed
  have ids: "map csCaseId (moved to' a v) = map csCaseId (wCases v)" for to' a v
    by (simp add: moved_def move_case_def)
  have count: "int (length (filter (\<lambda>c. \<not> closed_status (csStatus c)) (moved to' a v))) =
      open_count v - (if closed_status (csStatus x) then 0 else 1) + (if closed_status to' then 0 else 1)"
    if "distinct (map csCaseId (wCases v))" "find (\<lambda>c. csCaseId c = caseId) (wCases v) = Some x" for to' a v x
    using open_count_move[OF that] by (simp add: moved_def open_count_def)
  have fnd: "find (\<lambda>c. csCaseId c = caseId) (moved to' a w) = Some (move_case to' a (wNow w) c)" for to' a
    using c(1) by (simp add: moved_def find_moved)
  note facts = gauge_change_def closed_status_def move_case_def
  obtain w1 where w1: "ConfirmFraud caseId b user w = (Inr NoContent, w1)" "fault_free w1" "wCases w1 = moved ConfirmedFraud None w"
    "wCasesOpen w1 = wCasesOpen w - 1"
    using step[OF assms(1) c(1), of ConfirmedFraud FraudConfirmed] by (auto simp: ConfirmFraud_def facts)
  obtain w2 where w2: "ConfirmFraud caseId b user w1 = (Inr NoContent, w2)" "wCases w2 = moved ConfirmedFraud None w1"
    "wCasesOpen w2 = wCasesOpen w1 - 1"
    using step[OF w1(2), of _ ConfirmedFraud FraudConfirmed] fnd[of ConfirmedFraud None] w1(3) by (auto simp: ConfirmFraud_def facts)
  obtain u1 where u1: "CloseCase caseId b user w = (Inr NoContent, u1)" "fault_free u1" "wCases u1 = moved Closed None w"
    "wCasesOpen u1 = wCasesOpen w - 1"
    using step[OF assms(1) c(1), of Closed CaseClosed] c(2) by (auto simp: CloseCase_def facts)
  have fu: "find (\<lambda>c. csCaseId c = caseId) (wCases u1) = Some (move_case Closed None (wNow w) c)" using fnd u1(3) by simp
  obtain u2 where u2: "AssignCase caseId a user u1 = (Inr NoContent, u2)" "wCases u2 = moved Assigned (Some a) u1"
    "wCasesOpen u2 = wCasesOpen u1"
    using Transition_run[OF u1(2) fu, of Assigned user "Some a" "Some (''Assigned to '' @ a)"]
    by (auto simp: AssignCase_def moved_def facts)
  have oc: "open_count w1 = open_count w - 1" "open_count u1 = open_count w - 1"
    using count[OF assms(2) c(1)] c(2) w1(3) u1(3) by (simp_all add: open_count_def facts)
  have "find (\<lambda>c. csCaseId c = caseId) (wCases w1) = Some (move_case ConfirmedFraud None (wNow w) c)" using fnd w1(3) by simp
  from count[OF _ this, of ConfirmedFraud None] have "open_count w2 = open_count w1"
    using assms(2) ids[of ConfirmedFraud None w] w1(3) w2(2) by (simp add: open_count_def facts)
  moreover from count[OF _ fu, of Assigned "Some a"] have "open_count u2 = open_count u1 + 1"
    using assms(2) ids[of Closed None w] u1(3) u2(2) by (simp add: open_count_def facts)
  ultimately show ?thesis using w1(1,4) w2(1,3) u1(1,4) u2(1,3) oc assms(5) by auto
qed

definition one_case :: World where
  "one_case = empty_world\<lparr>wFresh := 1, wCasesOpen := 1,
     wCases := [\<lparr>csCaseId = 1, csTransactionId = ''T1'', csCustomerId = ''C1'', csAccountId = ''A1'', csRiskScore = 90,
       csRiskLevel = Critical, csStatus = Open, csAssignedAnalyst = None, csAnalystDecision = None, csCreatedAt = 0, csUpdatedAt = 0\<rparr>]\<rparr>"

lemma gauge_miscounts_witness:
  "\<exists>w1 w2. ConfirmFraud 1 ''fraud'' None one_case = (Inr NoContent, w1) \<and> ConfirmFraud 1 ''fraud'' None w1 = (Inr NoContent, w2) \<and>
     wCasesOpen w2 = open_count w2 - 1"
proof -
  have "fault_free one_case" "distinct (map csCaseId (wCases one_case))" "wCasesOpen one_case = open_count one_case"
    "find (\<lambda>c. csCaseId c = 1) (wCases one_case) = Some (hd (wCases one_case))" "\<not> closed_status (csStatus (hd (wCases one_case)))"
    by (simp_all add: one_case_def empty_world_def fault_free_def open_count_def closed_status_def)
  from gauge_miscounts [OF this(1,2,4,5,3)] show ?thesis by blast
qed

text \<open>
  Confirming, rejecting or closing a case that does not exist is not answered with 404: after \<open>NotFound\<close> the
  feedback is published for the missing case, and its query throws.\<close>

theorem feedback_of_missing_case_throws:
  assumes "fault_free w" and "find (\<lambda>c. csCaseId c = caseId) (wCases w) = None"
  shows "CloseCase caseId b user w = (Inl (InvalidOperation ''Sequence contains no elements''), w) \<and>
    InvestigateCase caseId user w = (Inr NotFound, w)"
proof -
  have "Transition caseId to' user x n w = (Inr NotFound, w)" for to' x n using assms by (simp add: Transition_def)
  then show ?thesis
    using assms by (simp add: CloseCase_def InvestigateCase_def with_feedback_def PublishFeedback_def)
qed

lemma TryBegin_seen:
  "fault_free v \<Longrightarrow> \<exists>x \<in> set (wInbox v). ibxEventId x = eventId \<Longrightarrow> TryBeginAsync eventId consumer v = (Inr False, v)"
  by (simp add: TryBegin_run)

lemma HandleDecision_seen:
  assumes "fault_free v" and "\<exists>x \<in> set (wInbox v). ibxEventId x = decEventId msg"
  shows "HandleDecision msg v = (Inr (), v)"
  unfolding HandleDecision_def by (simp add: pbind_def TryBegin_seen[OF assms])

lemma HandleDecision_opens:
  assumes "fault_free w" and "cases_ok w" and "\<forall>x \<in> set (wInbox w). ibxEventId x \<noteq> decEventId msg"
    and "\<forall>c \<in> set (wCases w). csTransactionId c \<noteq> decTransactionId msg" and "decDecision msg \<noteq> Approve"
  shows "\<exists>w' c. HandleDecision msg w = (Inr (), w') \<and> wCases w' = wCases w @ [c] \<and> csTransactionId c = decTransactionId msg \<and>
    csStatus c = Open \<and> csRiskScore c = decRiskScore msg \<and> wCasesOpen w' = wCasesOpen w + 1 \<and>
    wLive w' = wLive w @ [(False, msg), (True, msg)] \<and>
    (\<exists>x \<in> set (wInbox w'). ibxEventId x = decEventId msg \<and> ibxCompletedAt x = Some (wNow w)) \<and>
    HandleDecision msg w' = (Inr (), w')"
proof -
  have d: "decDecision msg \<in> {Review, Block}" using assms(5) by (cases "decDecision msg") auto
  have seen: "HandleDecision msg v = (Inr (), v)" if "fault_free v" "\<exists>x \<in> set (wInbox v). ibxEventId x = decEventId msg" for v
    using that by (rule HandleDecision_seen)
  define w1 where "w1 = w\<lparr>wInbox := wInbox w @ [\<lparr>ibxEventId = decEventId msg, ibxConsumer = DecisionPublisher,
    ibxReceivedAt = wNow w, ibxCompletedAt = None\<rparr>]\<rparr>"
  have f1: "fault_free w1" using assms(1) by (simp add: w1_def fault_free_def)
  have t: "TryBeginAsync (decEventId msg) DecisionPublisher w = (Inr True, w1)"
    using assms(1,3) by (auto simp: TryBegin_run w1_def)
  have new: "\<forall>c \<in> set (wCases w). csCaseId c \<noteq> wFresh w + 1" using assms(2) by (force simp: cases_ok_def)
  have same: "wCases w1 = wCases w" "wFresh w1 = wFresh w" "wCasesOpen w1 = wCasesOpen w" "wLive w1 = wLive w" "wNow w1 = wNow w"
    by (simp_all add: w1_def)
  obtain c w2 where w2: "open_case msg w1 = (Inr (), w2)" "wCases w2 = wCases w @ [c]" "csTransactionId c = decTransactionId msg"
    "csStatus c = Open" "csRiskScore c = decRiskScore msg" "wCasesOpen w2 = wCasesOpen w + 1" "wLive w2 = wLive w"
    "wInbox w2 = wInbox w1" "fault_free w2" "wNow w2 = wNow w"
  proof -
    let ?c = "\<lparr>csCaseId = wFresh w + 1, csTransactionId = decTransactionId msg, csCustomerId = decCustomerId msg,
      csAccountId = decAccountId msg, csRiskScore = decRiskScore msg, csRiskLevel = decRiskLevel msg, csStatus = Open,
      csAssignedAnalyst = None, csAnalystDecision = None, csCreatedAt = wNow w, csUpdatedAt = wNow w\<rparr>"
    let ?w2 = "w1\<lparr>wFresh := wFresh w + 2, wCases := wCases w @ [?c], wHistory := wHistory w1 @ [\<lparr>hstCaseId = wFresh w + 1,
      hstFrom = Open, hstTo = Open, hstActor = ''system'', hstNotes = Some ''Case opened from risk decision.'',
      hstChangedAt = wNow w\<rparr>], wCasesOpen := wCasesOpen w + 1\<rparr>"
    have "\<not> (\<exists>c \<in> set (wCases w1). csTransactionId c = decTransactionId msg)" using assms(4) same by simp
    then have "open_case msg w1 = (Inr (), ?w2)"
      using f1 assms(4) new same by (simp add: open_case_def fault_free_def pbind_def pthen_def)
    then show ?thesis by (rule that[of ?w2 ?c]) (use f1 same in \<open>simp_all add: fault_free_def\<close>)
  qed
  have l: "live_publish b msg v = (Inr (), v\<lparr>wLive := wLive v @ [(b, msg)]\<rparr>)" if "fault_free v" for b v
    using that by (simp add: live_publish_def next_fault_def fault_free_def)
  let ?v = "w2\<lparr>wLive := wLive w @ [(False, msg), (True, msg)]\<rparr>"
  have f: "fault_free ?v" using w2(9) by (simp add: fault_free_def)
  have "\<exists>x \<in> set (wInbox ?v). ibxEventId x = decEventId msg" using w2(8) by (simp add: w1_def)
  then have e: "CompleteAsync (decEventId msg) ?v = (Inr (), ?v\<lparr>wInbox :=
      map (\<lambda>x. if ibxEventId x = decEventId msg then x\<lparr>ibxCompletedAt := Some (wNow w)\<rparr> else x) (wInbox w2)\<rparr>)"
    using f w2(10) by (simp add: CompleteAsync_def)
  have f': "fault_free (w2\<lparr>wLive := wLive w @ [(False, msg)]\<rparr>)" using w2(9) by (simp add: fault_free_def)
  let ?z = "?v\<lparr>wInbox := map (\<lambda>x. if ibxEventId x = decEventId msg then x\<lparr>ibxCompletedAt := Some (wNow w)\<rparr> else x) (wInbox w2)\<rparr>"
  have h: "HandleDecision msg w = (Inr (), ?z)"
    using t d w2(1,7) l[OF w2(9)] l[OF f'] e by (simp add: HandleDecision_def)
  have x: "\<exists>x \<in> set (wInbox ?z). ibxEventId x = decEventId msg \<and> ibxCompletedAt x = Some (wNow w)"
    using w2(8) by (simp add: w1_def)
  then have "HandleDecision msg ?z = (Inr (), ?z)" using w2(9) by (intro seen) (auto simp: fault_free_def)
  then show ?thesis using h x w2(2-6) by (intro exI[of _ ?z] exI[of _ c]) simp
qed

text \<open>
  C17: what a decision does. The first time its event arrives, a review or block whose transaction has no case opens one,
  shown live on both channels, and completes the inbox row; delivered again, the event changes nothing.\<close>

theorem decision_opens_case:
  assumes "fault_free w" and "cases_ok w" and "\<forall>x \<in> set (wInbox w). ibxEventId x \<noteq> decEventId msg"
    and "\<forall>c \<in> set (wCases w). csTransactionId c \<noteq> decTransactionId msg" and "decDecision msg \<noteq> Approve"
  shows "\<exists>w' c. HandleDecision msg w = (Inr (), w') \<and> wCases w' = wCases w @ [c] \<and> csTransactionId c = decTransactionId msg \<and>
    csStatus c = Open \<and> csRiskScore c = decRiskScore msg \<and> wCasesOpen w' = wCasesOpen w + 1 \<and>
    wLive w' = wLive w @ [(False, msg), (True, msg)] \<and>
    (\<exists>x \<in> set (wInbox w'). ibxEventId x = decEventId msg \<and> ibxCompletedAt x = Some (wNow w)) \<and>
    HandleDecision msg w' = (Inr (), w')"
  using assms by (rule HandleDecision_opens)

lemma decision_opens_case_witness:
  "\<exists>w' c. HandleDecision example_decision empty_world = (Inr (), w') \<and> wCases w' = [c] \<and> csTransactionId c = ''T1''"
  using decision_opens_case [of empty_world example_decision]
  by (auto simp: empty_world_def fault_free_def cases_ok_def example_decision_def)

end
