(* ===== verification/KafkaHost.thy ===== *)
theory KafkaHost
  imports ProcessingProperties
begin

text \<open>
  \<open>KafkaConsumerHost\<close>: the retry loop around a handler, the dead letter topic and the consume loop that
  commits an offset after each message; and the raw-transaction consumer built on it. Kafka is a
  list of payloads; publishing a dead letter is a single round trip that may fail like the others.
\<close>

section \<open>The retry loop\<close>

definition DeadLetterAsync :: "KafkaTopic \<Rightarrow> exn \<Rightarrow> int \<Rightarrow> bool \<Rightarrow> unit op" where
  "DeadLetterAsync topic e attempt poison = (\<lambda>w. case next_fault w of (flt, w') \<Rightarrow>
     if flt = Fine
     then (Inr (), w'\<lparr>wDead := wDead w' @ [\<lparr>dlSourceTopic = topic, dlError = e, dlAttempt = attempt, dlPoison = poison\<rparr>]\<rparr>)
     else (Inl (TransientInfrastructure ''Failed to publish''), w'))"

function ProcessWithRetry :: "KafkaTopic \<Rightarrow> int \<Rightarrow> bool \<Rightarrow> unit op \<Rightarrow> int \<Rightarrow> unit op" where
  "ProcessWithRetry topic maxAttempts cancelled handle attempt = (\<lambda>w.
     case handle w of
       (Inr u, w') \<Rightarrow> (Inr (), w')
     | (Inl e, w') \<Rightarrow>
         if is_poison e then DeadLetterAsync topic e attempt True w'
         else if e = OperationCanceled \<and> cancelled then (Inl e, w')
         else if attempt < maxAttempts then ProcessWithRetry topic maxAttempts cancelled handle (attempt + 1) w'
         else DeadLetterAsync topic e attempt False w')"
  by pat_completeness auto
termination
  by (relation "measure (\<lambda>(_, m, _, _, a). nat (m - a))") auto

declare ProcessWithRetry.simps [simp del]

definition ProcessWithRetryAsync :: "KafkaTopic \<Rightarrow> int \<Rightarrow> bool \<Rightarrow> unit op \<Rightarrow> unit op" where
  "ProcessWithRetryAsync topic maxAttempts cancelled handle = ProcessWithRetry topic maxAttempts cancelled handle 1"

text \<open>
  The consume loop: messages in the order of the partition, each committed once processed; an
  exception other than that of consuming leaves the loop, and the message stays uncommitted.
\<close>

fun consume :: "KafkaTopic \<Rightarrow> int \<Rightarrow> ('raw \<Rightarrow> unit op) \<Rightarrow> 'raw list \<Rightarrow> nat \<Rightarrow> World \<Rightarrow> (exn + unit) \<times> nat \<times> World" where
  "consume topic maxAttempts handle [] offset w = (Inr (), offset, w)"
| "consume topic maxAttempts handle (raw # raws) offset w =
     (case ProcessWithRetryAsync topic maxAttempts False (handle raw) w of
        (Inr u, w') \<Rightarrow> consume topic maxAttempts handle raws (offset + 1) w'
      | (Inl e, w') \<Rightarrow> (Inl e, offset, w'))"

definition Deserialize_raw :: "TransactionReceivedV1 json \<Rightarrow> exn + TransactionReceivedV1" where
  "Deserialize_raw r = (case r of
       Json absent m \<Rightarrow> if readable absent then Inr (with_absent absent m) else Inl JsonFailure
     | NullJson \<Rightarrow> Inl (PoisonMessage ''Transaction payload could not be deserialized.'')
     | BadJson \<Rightarrow> Inl JsonFailure)"

definition HandleRaw :: "model \<Rightarrow> int \<Rightarrow> TransactionReceivedV1 json \<Rightarrow> unit op" where
  "HandleRaw model ms r = pbind (plift (Deserialize_raw r)) (ProcessAsync model ms)"

lemma HandleRaw_serialized:
  "HandleRaw model ms (Serialize m) w = (if no_required_null m then ProcessAsync model ms m w else (Inl JsonFailure, w))"
  by (simp add: HandleRaw_def Deserialize_raw_def Serialize_def readable_null_members pbind_def)

lemma not_white_not_null: "\<not> IsNullOrWhiteSpace s \<Longrightarrow> s \<noteq> None"
  by (cases s) (simp_all add: IsNullOrWhiteSpace_def)

lemma acceptable_no_null: "acceptable m \<Longrightarrow> rcvCorrelationId m \<noteq> None \<Longrightarrow> no_required_null m"
  using not_white_not_null unfolding acceptable_def no_required_null_def by blast

lemma DeadLetter_run [simp]:
  "fault_free w \<Longrightarrow> DeadLetterAsync topic e n p w =
     (Inr (), w\<lparr>wDead := wDead w @ [\<lparr>dlSourceTopic = topic, dlError = e, dlAttempt = n, dlPoison = p\<rparr>]\<rparr>)"
  by (simp add: DeadLetterAsync_def next_fault_def fault_free_def)

section \<open>Properties\<close>

text \<open>
  The world in which the next attempt starts after \<open>k\<close> attempts that failed and may be repeated: the
  effects of the handler alone, and nothing when one of them ended the loop.
\<close>

primrec retried :: "unit op \<Rightarrow> bool \<Rightarrow> nat \<Rightarrow> World \<Rightarrow> World option" where
  "retried h cancelled 0 w = Some w"
| "retried h cancelled (Suc k) w =
     (case h w of
        (Inr u, w') \<Rightarrow> None
      | (Inl e, w') \<Rightarrow> if is_poison e \<or> e = OperationCanceled \<and> cancelled then None else retried h cancelled k w')"

text \<open>How the attempt made in \<open>v\<close> as number \<open>n\<close> ends the loop, if it does.\<close>

definition ends_with :: "KafkaTopic \<Rightarrow> int \<Rightarrow> bool \<Rightarrow> unit op \<Rightarrow> int \<Rightarrow> World \<Rightarrow> (exn + unit) \<times> World \<Rightarrow> bool" where
  "ends_with topic m cancelled h n v result =
     (case h v of
        (Inr u, v') \<Rightarrow> result = (Inr (), v')
      | (Inl e, v') \<Rightarrow>
          if is_poison e then result = DeadLetterAsync topic e n True v'
          else if e = OperationCanceled \<and> cancelled then result = (Inl e, v')
          else n = max 1 m \<and> result = DeadLetterAsync topic e n False v')"

text \<open>Two runs that need no search: the first attempt succeeds, or every attempt fails alike and changes nothing.\<close>

lemma retry_first: "h w = (Inr (), w') \<Longrightarrow> ProcessWithRetryAsync topic m c h w = (Inr (), w')"
  by (simp add: ProcessWithRetryAsync_def ProcessWithRetry.simps)

lemma retry_poison:
  "h w = (Inl (PoisonMessage e), w') \<Longrightarrow>
   ProcessWithRetryAsync topic m c h w = DeadLetterAsync topic (PoisonMessage e) 1 True w'"
  by (simp add: ProcessWithRetryAsync_def ProcessWithRetry.simps is_poison_def)

lemma retry_attempts:
  "1 \<le> a \<Longrightarrow> a \<le> max 1 m \<Longrightarrow> \<exists>k v. retried h c k w = Some v \<and> a + int k \<le> max 1 m \<and>
     ends_with topic m c h (a + int k) v (ProcessWithRetry topic m c h a w)"
proof (induction topic m c h a arbitrary: w rule: ProcessWithRetry.induct)
  case (1 topic m c h a)
  obtain r w1 where h: "h w = (r, w1)" by (cases "h w")
  show ?case
  proof (cases "\<exists>e. r = Inl e \<and> \<not> is_poison e \<and> \<not> (e = OperationCanceled \<and> c) \<and> a < m")
    case True
    then obtain e where e: "r = Inl e" "\<not> is_poison e" "\<not> (e = OperationCanceled \<and> c)" "a < m" by blast
    have "ProcessWithRetry topic m c h a w = ProcessWithRetry topic m c h (a + 1) w1"
      using h e by (simp only: ProcessWithRetry.simps [of topic m c h a] prod.case sum.case if_False if_True)
    moreover have "1 \<le> a + 1" "a + 1 \<le> max 1 m" using "1.prems" e(4) by simp_all
    moreover from "1.IH" [OF h [symmetric] e(1,2,3,4) this, of w1] obtain k v where "retried h c k w1 = Some v" "a + 1 + int k \<le> max 1 m"
      "ends_with topic m c h (a + 1 + int k) v (ProcessWithRetry topic m c h (a + 1) w1)"
      by blast
    ultimately show ?thesis
      using h e by (intro exI [of _ "Suc k"] exI [of _ v]) (auto simp: add.assoc)
  next
    case False
    then have "ends_with topic m c h a w (ProcessWithRetry topic m c h a w)"
      using h "1.prems" by (cases r) (auto simp: ends_with_def ProcessWithRetry.simps [of topic m c h a])
    then show ?thesis using "1.prems" by (intro exI [of _ 0] exI [of _ w]) simp
  qed
qed

lemma retry_always_fails:
  assumes "h w = (Inl e, w)" and "\<not> is_poison e" and "e \<noteq> OperationCanceled"
  shows "ProcessWithRetryAsync topic m c h w = DeadLetterAsync topic e (max 1 m) False w"
proof -
  obtain k v where r: "retried h c k w = Some v"
    "ends_with topic m c h (1 + int k) v (ProcessWithRetryAsync topic m c h w)"
    using retry_attempts [of 1 m h c w topic] unfolding ProcessWithRetryAsync_def by auto
  have "retried h c k w = Some w" for k by (induction k) (use assms in simp_all)
  with r assms show ?thesis by (simp add: ends_with_def)
qed

text \<open>What the handler establishes and keeps, and a dead letter does not change, holds after the loop.\<close>

lemma keeps_retry:
  assumes "keeps P h" and "\<And>e n p. keeps P (DeadLetterAsync topic e n p)"
  shows "keeps P (ProcessWithRetry topic m c h a)"
proof (rule keepsI)
  fix w
  assume "P w"
  with assms show "P (snd (ProcessWithRetry topic m c h a w))"
  proof (induction topic m c h a arbitrary: w rule: ProcessWithRetry.induct)
    case (1 topic m c h a)
    obtain r w1 where h: "h w = (r, w1)" by (cases "h w")
    have w1: "P w1" using keepsD [OF "1.prems"(1,3)] h by simp
    show ?case
      using "1.IH" [OF h [symmetric]] w1 h "1.prems"(1) keepsD [OF "1.prems"(2) w1]
      by (cases r) (auto simp: ProcessWithRetry.simps [of topic m c h a] intro: "1.prems"(2))
  qed
qed

lemma retry_establishes:
  assumes "P (snd (h w))" and "keeps P h" and "\<And>e n p. keeps P (DeadLetterAsync topic e n p)"
  shows "P (snd (ProcessWithRetryAsync topic m c h w))"
proof -
  obtain r w1 where h: "h w = (r, w1)" by (cases "h w")
  have w1: "P w1" using assms(1) h by simp
  show ?thesis
    using w1 h keepsD [OF assms(3) w1] keepsD [OF keeps_retry [OF assms(2,3)] w1]
    by (cases r) (auto simp: ProcessWithRetryAsync_def ProcessWithRetry.simps [of topic m c h 1])
qed




text \<open>An outage of up to five round trips in the same place is not noticed: the message is claimed and looked up as without it.\<close>

lemma short_outage_after_claim:
  assumes "wFaults v = replicate j Unavailable @ [Fine]" and "j \<le> MaxRetryCount"
  shows "ExistsForTransactionAsync t v = (Inr (t \<in> set (decision_ids v)), v\<lparr>wFaults := []\<rparr>)"
  using short_outage_absorbed [OF assms(2), of v "[]"] assms(1)
  by (auto simp: ExistsForTransactionAsync_def query_def decision_ids_def)


end
