(* ===== verification/Profiles.thy ===== *)
theory Profiles
  imports Cases KafkaHost
begin

text \<open>
  Customer profiles: \<open>ApplyTransactionAsync\<close> of \<open>Repositories.cs\<close> and the consumer that calls it
  (\<open>ProfileUpdateConsumer.cs\<close>). A column that holds a serialised list holds the list; the
  column of the categories tells names from numbers, which is what matters to the code that reads it. Stored amounts have two
  decimals, as the columns have.
\<close>

section \<open>Lists of recent values\<close>

definition touch :: "string list \<Rightarrow> string \<Rightarrow> string list" where
  "touch items value = take 8 (value # filter (\<lambda>x. \<not> equals_ignore_case x value) items)"

text \<open>\<open>MerchantCategory.ToString\<close>, and \<open>Enum.Parse\<close> of a name.\<close>

fun category_name :: "MerchantCategory \<Rightarrow> string" where
  "category_name Grocery = ''Grocery''"
| "category_name Fuel = ''Fuel''"
| "category_name Restaurant = ''Restaurant''"
| "category_name Travel = ''Travel''"
| "category_name Electronics = ''Electronics''"
| "category_name Clothing = ''Clothing''"
| "category_name Healthcare = ''Healthcare''"
| "category_name Utilities = ''Utilities''"
| "category_name Gambling = ''Gambling''"
| "category_name Crypto = ''Crypto''"
| "category_name MoneyTransfer = ''MoneyTransfer''"
| "category_name Adult = ''Adult''"
| "category_name Other = ''Other''"

definition all_categories :: "MerchantCategory list" where
  "all_categories = [Grocery, Fuel, Restaurant, Travel, Electronics, Clothing, Healthcare, Utilities, Gambling, Crypto,
     MoneyTransfer, Adult, Other]"

definition parse_category :: "string \<Rightarrow> exn + MerchantCategory" where
  "parse_category s = (case find (\<lambda>c. category_name c = s) all_categories of Some c \<Rightarrow> Inr c
     | None \<Rightarrow> Inl (ArgumentException ''Requested value was not found.''))"

definition read_strings :: "json_list \<Rightarrow> exn + string list" where
  "read_strings j = (case j of JStrings ss \<Rightarrow> Inr ss | JCategories cs \<Rightarrow> if cs = [] then Inr [] else Inl JsonFailure)"

definition touch_categories :: "json_list \<Rightarrow> MerchantCategory \<Rightarrow> exn + json_list" where
  "touch_categories j c =
     rbind (read_strings j) (\<lambda>items.
     rbind (rmap parse_category (touch items (category_name c))) (\<lambda>cs.
     Inr (JCategories (take 8 cs))))"

section \<open>Applying a transaction\<close>

definition fresh_profile :: "TransactionSnapshot \<Rightarrow> instant \<Rightarrow> ProfileRow" where
  "fresh_profile tx now =
     (let amount = mAmount (txAmount tx) in
     \<lparr>pflAccountId = txAccountId tx, pflCustomerId = txCustomerId tx, pflHomeCountry = txCountry tx,
      pflAverageTransactionAmount = amount, pflMedianTransactionAmount = amount, pflAverageDailySpend = round_away_to 2 amount,
      pflCurrency = mCurrency (txAmount tx), pflCommonCountries = [], pflCommonMerchants = [], pflCommonCategories = JStrings [],
      pflCommonDevices = [], pflTypicalHours = [], pflTransactionsPerDay = 1, pflAccountOpenedAt = now,
      pflLifetimeTransactionCount = 0, pflRecentAmounts = []\<rparr>)"

definition next_amounts :: "rat list \<Rightarrow> rat \<Rightarrow> rat list" where
  "next_amounts amounts a = (let xs = amounts @ [a] in if length xs > 100 then tl xs else xs)"

definition average :: "rat list \<Rightarrow> rat" where
  "average xs = sum_list xs / of_nat (length xs)"

definition median :: "rat list \<Rightarrow> rat" where
  "median xs = sort xs ! (length xs div 2)"

definition take_last :: "nat \<Rightarrow> 'a list \<Rightarrow> 'a list" where
  "take_last n xs = drop (length xs - n) xs"

definition update_profile :: "ProfileRow \<Rightarrow> TransactionSnapshot \<Rightarrow> exn + ProfileRow" where
  "update_profile row tx =
     (let amounts = next_amounts (pflRecentAmounts row) (mAmount (txAmount tx)) in
      rbind (touch_categories (pflCommonCategories row) (txMerchantCategory tx)) (\<lambda>cats.
      Inr (row\<lparr>pflLifetimeTransactionCount := wrap32 (pflLifetimeTransactionCount row + 1),
        pflAverageTransactionAmount := round_away_to 2 (average amounts), pflMedianTransactionAmount := round_away_to 2 (median amounts),
        pflRecentAmounts := amounts, pflCommonCountries := touch (pflCommonCountries row) (txCountry tx),
        pflCommonMerchants := touch (pflCommonMerchants row) (txMerchantId tx), pflCommonCategories := cats,
        pflCommonDevices := (if IsNullOrWhiteSpace (txDeviceId tx) then pflCommonDevices row
          else touch (pflCommonDevices row) (the_string (txDeviceId tx))),
        pflTypicalHours := take_last 48 (pflTypicalHours row @ [hour_of (txTimestamp tx)])\<rparr>)))"

definition seen_again :: "instant \<Rightarrow> KnownDeviceSnapshot \<Rightarrow> KnownDeviceSnapshot" where
  "seen_again t d = (let n = wrap32 (devTransactionCount d + 1) in
     d\<lparr>devLastSeen := t, devTransactionCount := n, devTrusted := (5 \<le> n \<or> devTrusted d)\<rparr>)"

text \<open>What the save does to the two tables.\<close>

definition put_profile :: "bool \<Rightarrow> ProfileRow \<Rightarrow> World \<Rightarrow> World" where
  "put_profile known row w = w\<lparr>wProfiles :=
     (if known then map (\<lambda>p. if pflAccountId p = pflAccountId row then row else p) (wProfiles w) else wProfiles w @ [row])\<rparr>"

definition put_device :: "TransactionSnapshot \<Rightarrow> bool \<Rightarrow> World \<Rightarrow> World" where
  "put_device tx known w = (let device = the_string (txDeviceId tx) in w\<lparr>wDevices :=
     (if known then map (\<lambda>d. if dvrCustomerId d = txCustomerId tx \<and> devDeviceId (dvrDevice d) = device
          then d\<lparr>dvrDevice := seen_again (txTimestamp tx) (dvrDevice d)\<rparr> else d) (wDevices w)
      else wDevices w @ [\<lparr>dvrCustomerId = txCustomerId tx, dvrDevice = \<lparr>devDeviceId = device, devFirstSeen = txTimestamp tx,
             devLastSeen = txTimestamp tx, devTrusted = False, devTransactionCount = 1\<rparr>\<rparr>])\<rparr>)"

definition has_device :: "TransactionSnapshot \<Rightarrow> World \<Rightarrow> bool" where
  "has_device tx w \<longleftrightarrow> (\<exists>d \<in> set (wDevices w). dvrCustomerId d = txCustomerId tx \<and> devDeviceId (dvrDevice d) = the_string (txDeviceId tx))"

definition has_profile :: "string \<Rightarrow> World \<Rightarrow> bool" where
  "has_profile account w \<longleftrightarrow> (\<exists>p \<in> set (wProfiles w). pflAccountId p = account)"

definition ApplyTransactionAsync :: "TransactionSnapshot \<Rightarrow> unit op" where
  "ApplyTransactionAsync tx =
     pbind (query (\<lambda>w. (find (\<lambda>p. pflAccountId p = txAccountId tx) (wProfiles w), wNow w))) (\<lambda>(found, now).
     pbind (plift (update_profile (case found of Some row \<Rightarrow> row | None \<Rightarrow> fresh_profile tx now) tx)) (\<lambda>row.
     (let known = (found \<noteq> None); free = (\<lambda>w. known \<or> \<not> has_profile (txAccountId tx) w) in
      if IsNullOrWhiteSpace (txDeviceId tx) then SaveChanges free (put_profile known row)
      else
        pbind (query (has_device tx)) (\<lambda>there.
        pthen (if there then preturn () else pbind CreateVersion7 (\<lambda>_. preturn ()))
        (SaveChanges (\<lambda>w. free w \<and> (there \<or> \<not> has_device tx w)) (put_device tx there \<circ> put_profile known row))))))"

section \<open>The consumer\<close>

definition HandleProfile :: "RiskDecisionV1 \<Rightarrow> unit op" where
  "HandleProfile msg =
     pbind (TryBeginAsync (decEventId msg) ProfileProcessor) (\<lambda>claimed.
       if \<not> claimed then preturn ()
       else pbind (plift (Validate (decTransaction msg))) (\<lambda>snapshot.
         if IsFailure snapshot
         then praise (PoisonMessage (case resError snapshot of None \<Rightarrow> [] | Some e \<Rightarrow> errMessage e))
         else pbind (plift (Result_Value snapshot)) (\<lambda>v.
           case v of None \<Rightarrow> preturn () | Some tx \<Rightarrow>
           pthen (ApplyTransactionAsync tx)
           (pbind CreateVersion7 (\<lambda>ident.
           pbind (pget wNow) (\<lambda>now.
           pthen (EnqueueAsync ProfileUpdated (decAccountId msg)
                   (ProfileChanged \<lparr>pupEventId = ident, pupCorrelationId = decCorrelationId msg, pupOccurredAt = now,
                      pupAccountId = decAccountId msg, pupCustomerId = decCustomerId msg,
                      pupAverageTransactionAmount = mAmount (txAmount tx), pupHomeCountry = txCountry tx, pupTransactionCount = 1\<rparr>))
             (CompleteAsync (decEventId msg))))))))"

definition Deserialize_profile :: "RiskDecisionV1 json \<Rightarrow> exn + RiskDecisionV1" where
  "Deserialize_profile r = (case r of
       Json absent d \<Rightarrow>
         if readable absent then Inr (d\<lparr>decTransaction := with_absent absent (decTransaction d)\<rparr>) else Inl JsonFailure
     | NullJson \<Rightarrow> Inl (PoisonMessage ''Risk decision payload could not be deserialized.'')
     | BadJson \<Rightarrow> Inl JsonFailure)"

definition ConsumeProfile :: "RiskDecisionV1 json \<Rightarrow> unit op" where
  "ConsumeProfile r = pbind (plift (Deserialize_profile r)) HandleProfile"

lemma ConsumeProfile_serialized:
  "ConsumeProfile (Serialize_decision d) w =
     (if no_required_null (decTransaction d) then HandleProfile d w else (Inl JsonFailure, w))"
  by (simp add: ConsumeProfile_def Deserialize_profile_def Serialize_decision_def readable_null_members pbind_def)

section \<open>One update, and no more\<close>

lemma parse_category_name: "parse_category (category_name c) = Inr c"
  by (cases c) (simp_all add: parse_category_def all_categories_def)

lemma touch_categories_fresh: "touch_categories (JStrings []) c = Inr (JCategories [c])"
  by (simp add: touch_categories_def read_strings_def touch_def parse_category_name rbind_def)

lemma touch_categories_again: "touch_categories (JCategories (c # cs)) x = Inl JsonFailure"
  by (simp add: touch_categories_def read_strings_def)

lemma update_fails:
  "pflCommonCategories row = JCategories (c # cs) \<Longrightarrow> update_profile row tx = Inl JsonFailure"
  by (simp add: update_profile_def touch_categories_again Let_def)

lemma apply_fails:
  assumes "fault_free w" and "find (\<lambda>p. pflAccountId p = txAccountId tx) (wProfiles w) = Some row"
    and "pflCommonCategories row = JCategories (c # cs)"
  shows "ApplyTransactionAsync tx w = (Inl JsonFailure, w)"
  using assms(1,2) update_fails[OF assms(3)] by (simp add: ApplyTransactionAsync_def pbind_def)

lemma has_fresh [simp]: "has_device tx (w\<lparr>wFresh := k\<rparr>) = has_device tx w" "has_profile a (w\<lparr>wFresh := k\<rparr>) = has_profile a w"
  by (simp_all add: has_device_def has_profile_def)

lemma put_fields:
  "wFaults (put_profile b row w) = wFaults w" "wFaults (put_device tx b w) = wFaults w"
  "wProfiles (put_device tx b w) = wProfiles w" "wProfiles (put_profile False row w) = wProfiles w @ [row]"
  by (simp_all add: put_profile_def put_device_def Let_def)

lemma apply_new:
  assumes "fault_free w" and "\<not> has_profile (txAccountId tx) w"
    and "find (\<lambda>p. pflAccountId p = txAccountId tx) (wProfiles w) = None" and "update_profile (fresh_profile tx (wNow w)) tx = Inr row"
  shows "\<exists>w'. ApplyTransactionAsync tx w = (Inr (), w') \<and> wProfiles w' = wProfiles w @ [row] \<and> fault_free w'"
proof -
  have f: "fault_free (w\<lparr>wFresh := k\<rparr>)" for k using assms(1) by (simp add: fault_free_def)
  show ?thesis
  proof (cases "IsNullOrWhiteSpace (txDeviceId tx)")
    case True
    then have "ApplyTransactionAsync tx w = (Inr (), put_profile False row w)"
      using assms by (simp add: ApplyTransactionAsync_def pbind_def)
    then show ?thesis using assms(1) by (simp add: put_fields fault_free_def)
  next
    case False
    have "ApplyTransactionAsync tx w = (Inr (), put_device tx (has_device tx w) (put_profile False row
        (if has_device tx w then w else w\<lparr>wFresh := wFresh w + 1\<rparr>)))"
      using assms False f by (cases "has_device tx w") (simp_all add: ApplyTransactionAsync_def pbind_def pthen_def)
    then show ?thesis using assms(1) by (simp add: put_fields fault_free_def)
  qed
qed

text \<open>
  A profile is updated once in its life. The first transaction of an account creates its profile, with the amount as average and
  median; the names of categories that the update reads are written back as numbers, so every later update of that
  profile throws and changes nothing.\<close>

theorem profile_updates_once:
  assumes "fault_free w" and "\<not> has_profile (txAccountId tx) w" and "mAmount (txAmount tx) = round_away_to 2 (mAmount (txAmount tx))"
  shows "\<exists>w' row. ApplyTransactionAsync tx w = (Inr (), w') \<and> wProfiles w' = wProfiles w @ [row] \<and> fault_free w' \<and>
    pflAccountId row = txAccountId tx \<and> pflLifetimeTransactionCount row = 1 \<and>
    pflAverageTransactionAmount row = mAmount (txAmount tx) \<and> pflMedianTransactionAmount row = mAmount (txAmount tx) \<and>
    pflCommonCategories row = JCategories [txMerchantCategory tx] \<and>
    (txAccountId tx' = txAccountId tx \<longrightarrow> ApplyTransactionAsync tx' w' = (Inl JsonFailure, w'))"
proof -
  obtain row where row: "update_profile (fresh_profile tx (wNow w)) tx = Inr row" "pflAccountId row = txAccountId tx"
    "pflLifetimeTransactionCount row = 1" "pflAverageTransactionAmount row = mAmount (txAmount tx)"
    "pflMedianTransactionAmount row = mAmount (txAmount tx)" "pflCommonCategories row = JCategories [txMerchantCategory tx]"
    using assms(3) by (simp add: update_profile_def fresh_profile_def touch_categories_fresh Let_def next_amounts_def average_def
        median_def wrap32_def)
  have none: "find (\<lambda>p. pflAccountId p = txAccountId tx) (wProfiles w) = None"
    using assms(2) by (auto simp: find_None_iff has_profile_def)
  obtain w' where w': "ApplyTransactionAsync tx w = (Inr (), w')" "wProfiles w' = wProfiles w @ [row]" "fault_free w'"
    using apply_new[OF assms(1,2) none row(1)] by blast
  have "find (\<lambda>p. pflAccountId p = a) (xs @ ys) = (case find (\<lambda>p. pflAccountId p = a) xs of Some x \<Rightarrow> Some x
      | None \<Rightarrow> find (\<lambda>p. pflAccountId p = a) ys)" for a and xs ys :: "ProfileRow list"
    by (induction xs) auto
  then have "find (\<lambda>p. pflAccountId p = txAccountId tx) (wProfiles w') = Some row" using none w'(2) row(2) by simp
  then have "ApplyTransactionAsync tx' w' = (Inl JsonFailure, w')" if "txAccountId tx' = txAccountId tx"
    using apply_fails[OF w'(3) _ row(6)] that by simp
  then show ?thesis using w' row by blast
qed

text \<open>
  C15: and the consumer does not notice. With two attempts or more, a decision about a known account whose profile has a category
  passes the host as handled: the first attempt claims the event and throws, the second takes it for a replay. No dead letter is
  written, no \<open>ProfileUpdated\<close> is sent, the profile and the devices stay as they were.\<close>

theorem profile_update_lost:
  assumes "fault_free w" and "acceptable (decTransaction msg)" and "\<forall>x \<in> set (wInbox w). ibxEventId x \<noteq> decEventId msg"
    and "find (\<lambda>p. pflAccountId p = Trim (the_string (rcvAccountId (decTransaction msg)))) (wProfiles w) = Some row"
    and "pflCommonCategories row = JCategories (c # cs)" and "2 \<le> n"
  shows "ProcessWithRetryAsync RiskDecisions n False (HandleProfile msg) w = (Inr (), w\<lparr>wInbox := wInbox w @
    [\<lparr>ibxEventId = decEventId msg, ibxConsumer = ProfileProcessor, ibxReceivedAt = wNow w, ibxCompletedAt = None\<rparr>]\<rparr>)"
proof -
  define w1 where "w1 = w\<lparr>wInbox := wInbox w @ [\<lparr>ibxEventId = decEventId msg, ibxConsumer = ProfileProcessor,
    ibxReceivedAt = wNow w, ibxCompletedAt = None\<rparr>]\<rparr>"
  have f: "fault_free w1" using assms(1) by (simp add: w1_def fault_free_def)
  obtain tx where tx: "Validate (decTransaction msg) = Inr \<lparr>resValue = Some tx, resIsSuccess = True, resError = None\<rparr>"
    "normal_form (decTransaction msg) tx" using Validate_accepts[OF assms(2)] by blast
  have "find (\<lambda>p. pflAccountId p = txAccountId tx) (wProfiles w1) = Some row"
    using assms(4) tx(2) by (simp add: normal_form_def w1_def)
  from apply_fails[OF f this assms(5)] have a: "ApplyTransactionAsync tx w1 = (Inl JsonFailure, w1)" .
  have t: "TryBeginAsync (decEventId msg) ProfileProcessor w = (Inr True, w1)"
    using assms(1,3) by (auto simp: TryBegin_run w1_def)
  have first: "HandleProfile msg w = (Inl JsonFailure, w1)"
    using t a tx(1) by (simp add: HandleProfile_def pbind_def pthen_def IsFailure_def Result_Value_def)
  have "\<exists>x \<in> set (wInbox w1). ibxEventId x = decEventId msg" by (simp add: w1_def)
  from TryBegin_seen[OF f this, of ProfileProcessor] have "HandleProfile msg w1 = (Inr (), w1)"
    by (simp add: HandleProfile_def pbind_def)
  then have "ProcessWithRetry RiskDecisions n False (HandleProfile msg) 2 w1 = (Inr (), w1)"
    by (simp add: ProcessWithRetry.simps)
  then show ?thesis
    using first assms(6) unfolding ProcessWithRetryAsync_def w1_def[symmetric]
    by (subst ProcessWithRetry.simps) (simp add: is_poison_def)
qed

section \<open>One event, one service\<close>

definition claimed :: "guid \<Rightarrow> World \<Rightarrow> bool" where
  "claimed eventId w \<longleftrightarrow> fault_free w \<and> (\<exists>x \<in> set (wInbox w). ibxEventId x = eventId)"

lemma claimed_query [inv_intros]: "keeps (claimed e) (query f)"
  by (auto simp: keeps_def claimed_def)

lemma claimed_save:
  "(\<And>w. wFaults (f w) = wFaults w \<and> map ibxEventId (wInbox (f w)) = map ibxEventId (wInbox w)) \<Longrightarrow> keeps (claimed e) (SaveChanges c f)"
proof (rule keepsI)
  fix w assume f: "\<And>w. wFaults (f w) = wFaults w \<and> map ibxEventId (wInbox (f w)) = map ibxEventId (wInbox w)" and "claimed e w"
  then have "e \<in> set (map ibxEventId (wInbox w))" "fault_free w" by (auto simp: claimed_def)
  then have "claimed e (f w)" using f[of w] unfolding claimed_def fault_free_def by (metis imageE set_map)
  then show "claimed e (snd (SaveChanges c f w))" using \<open>claimed e w\<close> by (simp add: claimed_def)
qed

lemma claimed_simple [inv_intros]:
  "keeps (claimed e) CreateVersion7" "keeps (claimed e) (live_publish b m)"
  "keeps (claimed e) (pmodify (\<lambda>w. w\<lparr>wCasesOpen := g w\<rparr>))"
  by (auto simp: keeps_def claimed_def fault_free_def live_publish_def next_fault_def)

lemma claimed_complete [inv_intros]: "keeps (claimed e) (CompleteAsync i)"
proof -
  have "map ibxEventId (map (\<lambda>x. if ibxEventId x = i then x\<lparr>ibxCompletedAt := t\<rparr> else x) xs) = map ibxEventId xs"
    for t and xs :: "InboxRow list" by (induction xs) auto
  then show ?thesis unfolding CompleteAsync_def by (intro inv_intros claimed_save) auto
qed

lemma claimed_enqueue [inv_intros]: "keeps (claimed e) (EnqueueAsync topic key body)"
  unfolding EnqueueAsync_def by (intro inv_intros claimed_save) auto

lemma claimed_open [inv_intros]: "keeps (claimed e) (open_case msg)"
  unfolding open_case_def by (intro inv_intros claimed_save) auto

lemma claimed_apply [inv_intros]: "keeps (claimed e) (ApplyTransactionAsync tx)"
  unfolding ApplyTransactionAsync_def Let_def
  by (intro inv_intros claimed_save) (auto simp: put_profile_def put_device_def Let_def)

lemma claims:
  assumes "fault_free w" and "\<And>b. keeps (claimed e) (n b)"
  shows "claimed e (snd (pbind (TryBeginAsync e consumer) n w))"
proof -
  obtain b w1 where "TryBeginAsync e consumer w = (Inr b, w1)" "claimed e w1"
    using assms(1) TryBegin_run[OF assms(1), of e consumer]
    by (cases "\<exists>x \<in> set (wInbox w). ibxEventId x = e") (auto simp: claimed_def fault_free_def)
  then show ?thesis using keepsD[OF assms(2)] by (simp add: pbind_def)
qed

text \<open>
  C14: of the two services that consume the decisions only one acts on each. They share the inbox table, whose key is the event alone:
  whatever one of them did with the event, even if it failed, the other takes it for a replay. So either no case is opened
  and nothing is shown live, or the profile is not updated.\<close>

theorem decision_reaches_one_service:
  assumes "fault_free w"
  shows "HandleProfile msg (snd (HandleDecision msg w)) = (Inr (), snd (HandleDecision msg w)) \<and>
    HandleDecision msg (snd (HandleProfile msg w)) = (Inr (), snd (HandleProfile msg w))"
proof -
  have d: "claimed (decEventId msg) (snd (HandleDecision msg w))"
    unfolding HandleDecision_def by (intro claims[OF assms] inv_intros)
  have p: "claimed (decEventId msg) (snd (HandleProfile msg w))"
    unfolding HandleProfile_def by (intro claims[OF assms] inv_intros)
  have s: "HandleProfile msg v = (Inr (), v)" if "claimed (decEventId msg) v" for v
    using that TryBegin_seen[of v "decEventId msg" ProfileProcessor] by (simp add: HandleProfile_def pbind_def claimed_def)
  show ?thesis using s[OF d] p HandleDecision_seen unfolding claimed_def by blast
qed

text \<open>
  The same through the host, whatever the profile service makes of the event: it leaves the event claimed and the cases
  alone.\<close>

lemma claimed_begin [inv_intros]: "keeps (claimed e) (TryBeginAsync i g)"
  by (auto simp: keeps_def claimed_def TryBegin_run fault_free_def)

lemma claimed_dead [inv_intros]: "keeps (claimed e) (DeadLetterAsync topic x n p)"
  by (auto simp: keeps_def claimed_def fault_free_def)

lemma claimed_profile: "keeps (claimed e) (HandleProfile msg)"
  unfolding HandleProfile_def by (intro inv_intros)

definition cases_are :: "CaseRow list \<Rightarrow> World \<Rightarrow> bool" where
  "cases_are cs w \<longleftrightarrow> wCases w = cs"

lemma cases_are_schedule [inv_intros]: "schedule_free (cases_are cs)"
  by (simp add: schedule_free_def cases_are_def)

lemma cases_are_save [inv_intros]: "(\<And>w. wCases (f w) = wCases w) \<Longrightarrow> keeps (cases_are cs) (SaveChanges c f)"
  by (rule keeps_SaveChanges [OF cases_are_schedule]) (simp add: cases_are_def)

lemma cases_are_simple [inv_intros]:
  "keeps (cases_are cs) CreateVersion7" "keeps (cases_are cs) (DeadLetterAsync topic x n p)"
  by (auto simp: keeps_def cases_are_def DeadLetterAsync_def split: prod.splits dest!: next_fault_same)

lemma cases_are_profile: "keeps (cases_are cs) (HandleProfile msg)"
  unfolding HandleProfile_def TryBeginAsync_def CompleteAsync_def EnqueueAsync_def ApplyTransactionAsync_def Let_def
  by (intro inv_intros) (auto simp: put_profile_def put_device_def Let_def split: if_splits intro!: inv_intros)

lemma profile_first:
  assumes "fault_free w" and "no_required_null (decTransaction d)"
  shows "\<exists>r w'. ProcessWithRetryAsync RiskDecisions n False (ConsumeProfile (Serialize_decision d)) w = (r, w') \<and>
    ConsumeDecision (Serialize_decision d) w' = (Inr (), w') \<and> wCases w' = wCases w"
proof -
  have c: "ConsumeProfile (Serialize_decision d) = HandleProfile d"
    by (rule ext) (simp add: ConsumeProfile_serialized assms(2))
  let ?r = "ProcessWithRetryAsync RiskDecisions n False (HandleProfile d) w"
  have "claimed (decEventId d) (snd (HandleProfile d w))"
    unfolding HandleProfile_def by (intro claims[OF assms(1)] inv_intros)
  then have e: "claimed (decEventId d) (snd ?r)" by (rule retry_establishes) (intro claimed_profile claimed_dead)+
  have "cases_are (wCases w) (snd (HandleProfile d w))" using keepsD[OF cases_are_profile] by (simp add: cases_are_def)
  then have "cases_are (wCases w) (snd ?r)" by (rule retry_establishes) (intro cases_are_profile cases_are_simple)+
  then show ?thesis
    using e HandleDecision_seen unfolding c claimed_def cases_are_def
    by (intro exI[of _ "fst ?r"] exI[of _ "snd ?r"]) (simp add: ConsumeDecision_serialized assms(2))
qed

definition known_account :: "World" where
  "known_account = empty_world\<lparr>wProfiles := [(fresh_profile (snapshot_of example_message \<lparr>mAmount = 10, mCurrency = ''GBP''\<rparr>) 0)
     \<lparr>pflCommonCategories := JCategories [Crypto]\<rparr>]\<rparr>"

lemma profile_update_lost_witness:
  "wDead (snd (ProcessWithRetryAsync RiskDecisions 3 False (HandleProfile example_decision) known_account)) = [] \<and>
   wOutbox (snd (ProcessWithRetryAsync RiskDecisions 3 False (HandleProfile example_decision) known_account)) = []"
proof -
  have "acceptable (decTransaction example_decision)"
    using example_acceptable by (simp add: example_decision_def)
  from profile_update_lost [OF _ this, of known_account "hd (wProfiles known_account)" Crypto "[]" 3]
  show ?thesis
    by (simp add: known_account_def empty_world_def fault_free_def fresh_profile_def snapshot_of_def example_decision_def Let_def)
qed

lemma profile_updates_once_witness:
  "\<exists>w'. ApplyTransactionAsync (snapshot_of example_message \<lparr>mAmount = 10, mCurrency = ''GBP''\<rparr>) empty_world = (Inr (), w') \<and>
     ApplyTransactionAsync (snapshot_of example_message \<lparr>mAmount = 10, mCurrency = ''GBP''\<rparr>) w' = (Inl JsonFailure, w')"
proof -
  have "\<lfloor>2001 / 2 :: rat\<rfloor> = 1000" by (simp add: floor_eq_iff)
  then have "round_away_to 2 10 = (10 :: rat)" by (simp add: round_away_to_def round_away_def)
  then show ?thesis
    using profile_updates_once [of empty_world "snapshot_of example_message \<lparr>mAmount = 10, mCurrency = ''GBP''\<rparr>"
        "snapshot_of example_message \<lparr>mAmount = 10, mCurrency = ''GBP''\<rparr>"]
    by (auto simp: empty_world_def fault_free_def has_profile_def snapshot_of_def)
qed

lemma decision_reaches_one_service_witness:
  "HandleProfile example_decision (snd (HandleDecision example_decision empty_world)) =
     (Inr (), snd (HandleDecision example_decision empty_world))"
  using decision_reaches_one_service [of empty_world example_decision] by (simp add: empty_world_def fault_free_def)

end
