(* ===== verification/Pipeline.thy ===== *)
theory Pipeline
  imports Administration Profiles KafkaHost
begin

text \<open>
  The services together: what the ingestion endpoint accepts, the host that scores it, the dispatcher that publishes the decision
  and the consumer that opens a case, on the state they share.
\<close>

section \<open>What scoring adds to the outbox\<close>

text \<open>An effect that only draws identifiers and appends waiting rows; \<open>Q\<close> says what is appended, given the last identifier
  drawn before.\<close>

definition appends :: "unit op \<Rightarrow> (nat \<Rightarrow> (KafkaTopic \<times> string \<times> payload) list \<Rightarrow> bool) \<Rightarrow> bool" where
  "appends m Q \<longleftrightarrow> (\<forall>w. fault_free w \<and> db_ok w \<longrightarrow> (\<exists>n rows. m w = (Inr (), w\<lparr>wFresh := n, wOutbox := wOutbox w @ rows\<rparr>) \<and>
     wFresh w \<le> n \<and> db_ok (w\<lparr>wFresh := n, wOutbox := wOutbox w @ rows\<rparr>) \<and>
     (\<forall>x \<in> set rows. obxPublishedAt x = None) \<and> Q (wFresh w) (map message_of rows)))"

lemma appendsE:
  assumes "appends m Q" and "fault_free w" and "db_ok w"
  obtains n rows where "m w = (Inr (), w\<lparr>wFresh := n, wOutbox := wOutbox w @ rows\<rparr>)" "wFresh w \<le> n"
    "db_ok (w\<lparr>wFresh := n, wOutbox := wOutbox w @ rows\<rparr>)" "\<forall>x \<in> set rows. obxPublishedAt x = None" "Q (wFresh w) (map message_of rows)"
  using assms unfolding appends_def by blast

lemma appends_Enqueue: "appends (EnqueueAsync topic key body) (\<lambda>_ ms. ms = [(topic, key, body)])"
  unfolding appends_def
proof (intro allI impI)
  fix w
  assume w: "fault_free w \<and> db_ok w"
  let ?rows = "[\<lparr>obxId = wFresh w + 1, obxTopic = topic, obxKey = key, obxPayload = body, obxCreatedAt = wNow w, obxPublishedAt = None\<rparr>]"
  have run: "EnqueueAsync topic key body w = (Inr (), w\<lparr>wFresh := wFresh w + 1, wOutbox := wOutbox w @ ?rows\<rparr>)"
    using Enqueue_run w by simp
  moreover have "db_ok (snd (EnqueueAsync topic key body w))" using w keepsD [OF keeps_Enqueue] by blast
  ultimately show "\<exists>n rows. EnqueueAsync topic key body w = (Inr (), w\<lparr>wFresh := n, wOutbox := wOutbox w @ rows\<rparr>) \<and> wFresh w \<le> n \<and>
      db_ok (w\<lparr>wFresh := n, wOutbox := wOutbox w @ rows\<rparr>) \<and>
      (\<forall>x \<in> set rows. obxPublishedAt x = None) \<and> map message_of rows = [(topic, key, body)]"
    by (intro exI [of _ "wFresh w + 1"] exI [of _ ?rows]) (simp add: message_of_def)
qed

lemma appends_nothing: "appends (preturn ()) (\<lambda>_ ms. ms = [])"
  unfolding appends_def
proof (intro allI impI)
  fix w
  assume "fault_free w \<and> db_ok w"
  then show "\<exists>n rows. preturn () w = (Inr (), w\<lparr>wFresh := n, wOutbox := wOutbox w @ rows\<rparr>) \<and> wFresh w \<le> n \<and>
      db_ok (w\<lparr>wFresh := n, wOutbox := wOutbox w @ rows\<rparr>) \<and> (\<forall>x \<in> set rows. obxPublishedAt x = None) \<and> map message_of rows = []"
    by (intro exI [of _ "wFresh w"] exI [of _ "[]"]) simp
qed

lemma appends_then:
  assumes "appends m P" and "appends n Q"
  shows "appends (pthen m n) (\<lambda>f ms. \<exists>f' as bs. f \<le> f' \<and> ms = as @ bs \<and> P f as \<and> Q f' bs)"
  unfolding appends_def
proof (intro allI impI)
  fix w
  assume w: "fault_free w \<and> db_ok w"
  obtain k xs where 1: "m w = (Inr (), w\<lparr>wFresh := k, wOutbox := wOutbox w @ xs\<rparr>)" "wFresh w \<le> k"
    "db_ok (w\<lparr>wFresh := k, wOutbox := wOutbox w @ xs\<rparr>)" "\<forall>x \<in> set xs. obxPublishedAt x = None" "P (wFresh w) (map message_of xs)"
    by (rule appendsE[OF assms(1)]) (use w in blast)+
  have f: "fault_free (w\<lparr>wFresh := k, wOutbox := wOutbox w @ xs\<rparr>)" using w by (simp add: fault_free_def)
  obtain l ys where 2: "n (w\<lparr>wFresh := k, wOutbox := wOutbox w @ xs\<rparr>) =
      (Inr (), w\<lparr>wFresh := l, wOutbox := wOutbox w @ xs @ ys\<rparr>)" "k \<le> l"
    "db_ok (w\<lparr>wFresh := l, wOutbox := wOutbox w @ xs @ ys\<rparr>)" "\<forall>x \<in> set ys. obxPublishedAt x = None" "Q k (map message_of ys)"
    by (rule appendsE[OF assms(2) f 1(3)]) simp
  show "\<exists>j rows. pthen m n w = (Inr (), w\<lparr>wFresh := j, wOutbox := wOutbox w @ rows\<rparr>) \<and> wFresh w \<le> j \<and>
      db_ok (w\<lparr>wFresh := j, wOutbox := wOutbox w @ rows\<rparr>) \<and> (\<forall>x \<in> set rows. obxPublishedAt x = None) \<and>
      (\<exists>f' as bs. wFresh w \<le> f' \<and> map message_of rows = as @ bs \<and> P (wFresh w) as \<and> Q f' bs)"
  proof (rule exI [of _ l], rule exI [of _ "xs @ ys"], intro conjI)
    show "\<exists>f' as bs. wFresh w \<le> f' \<and> map message_of (xs @ ys) = as @ bs \<and> P (wFresh w) as \<and> Q f' bs"
      using 1(2,5) 2(5) by (intro exI [of _ k] exI [of _ "map message_of xs"] exI [of _ "map message_of ys"]) simp
    show "pthen m n w = (Inr (), w\<lparr>wFresh := l, wOutbox := wOutbox w @ xs @ ys\<rparr>)" using 1(1) 2(1) by (simp add: pthen_def pbind_def)
    show "wFresh w \<le> l" using 1(2) 2(2) by (rule le_trans)
    show "db_ok (w\<lparr>wFresh := l, wOutbox := wOutbox w @ xs @ ys\<rparr>)" by (rule 2(3))
    show "\<forall>x \<in> set (xs @ ys). obxPublishedAt x = None" using 1(4) 2(4) by auto
  qed
qed

lemma appends_fresh:
  assumes "\<And>i. appends (f i) (Q i)"
  shows "appends (pbind CreateVersion7 f) (\<lambda>k ms. Q (k + 1) (k + 1) ms)"
  unfolding appends_def
proof (intro allI impI)
  fix w
  assume w: "fault_free w \<and> db_ok w"
  let ?v = "w\<lparr>wFresh := wFresh w + 1\<rparr>"
  have v: "fault_free ?v" "db_ok ?v" using w keepsD [OF keeps_Create, of w] by (simp_all add: fault_free_def)
  obtain n rows where "f (wFresh w + 1) ?v = (Inr (), w\<lparr>wFresh := n, wOutbox := wOutbox w @ rows\<rparr>)" "wFresh w + 1 \<le> n"
    "db_ok (w\<lparr>wFresh := n, wOutbox := wOutbox w @ rows\<rparr>)" "\<forall>x \<in> set rows. obxPublishedAt x = None"
    "Q (wFresh w + 1) (wFresh w + 1) (map message_of rows)"
    by (rule appendsE[OF assms v]) simp
  then show "\<exists>n rows. pbind CreateVersion7 f w = (Inr (), w\<lparr>wFresh := n, wOutbox := wOutbox w @ rows\<rparr>) \<and> wFresh w \<le> n \<and>
      db_ok (w\<lparr>wFresh := n, wOutbox := wOutbox w @ rows\<rparr>) \<and> (\<forall>x \<in> set rows. obxPublishedAt x = None) \<and>
      Q (wFresh w + 1) (wFresh w + 1) (map message_of rows)"
    by (intro exI [of _ n] exI [of _ rows]) (simp add: pbind_def)
qed

lemma appends_get: "(\<And>a. appends (f a) Q) \<Longrightarrow> appends (pbind (pget g) f) Q"
  unfolding appends_def by (simp add: pbind_def)

lemma appends_weaken: "appends m P \<Longrightarrow> (\<And>f ms. P f ms \<Longrightarrow> Q f ms) \<Longrightarrow> appends m Q"
  unfolding appends_def by meson

text \<open>The decision is among at most three rows, under an identifier newer than all before.\<close>

definition carries_decision :: "TransactionReceivedV1 \<Rightarrow> TransactionSnapshot \<Rightarrow> RiskEvaluation \<Rightarrow> nat \<Rightarrow>
    (KafkaTopic \<times> string \<times> payload) list \<Rightarrow> bool" where
  "carries_decision msg tx e f ms \<longleftrightarrow> length ms \<le> 3 \<and>
     (\<exists>i > f. (RiskDecisions, txAccountId tx, Decided (MapDecision i msg tx e)) \<in> set ms)"

lemma publish_appends: "appends (publish_evaluation msg tx e) (carries_decision msg tx e)"
proof -
  have alert: "appends (if evlDecision e \<in> {Review, Block} then raise_alert tx e else preturn ()) (\<lambda>_ ms. length ms \<le> 1)"
  proof (cases "evlDecision e \<in> {Review, Block}")
    case True
    have "appends (raise_alert tx e) (\<lambda>_ ms. length ms \<le> 1)" unfolding raise_alert_def
      by (intro appends_fresh appends_get appends_weaken[OF appends_Enqueue]) simp
    then show ?thesis using True by simp
  next
    case False
    then show ?thesis by (simp add: appends_weaken[OF appends_nothing])
  qed
  have 1: "appends (pthen (EnqueueAsync RiskDecisions (txAccountId tx) (Decided (MapDecision i msg tx e)))
      (if evlDecision e \<in> {Review, Block} then raise_alert tx e else preturn ()))
    (\<lambda>_ ms. length ms \<le> 2 \<and> (RiskDecisions, txAccountId tx, Decided (MapDecision i msg tx e)) \<in> set ms)" for i
    by (rule appends_weaken[OF appends_then[OF appends_Enqueue alert]]) auto
  have 2: "appends (pbind CreateVersion7 (\<lambda>i. pthen (EnqueueAsync RiskDecisions (txAccountId tx) (Decided (MapDecision i msg tx e)))
      (if evlDecision e \<in> {Review, Block} then raise_alert tx e else preturn ())))
    (\<lambda>f ms. length ms \<le> 2 \<and> (\<exists>i > f. (RiskDecisions, txAccountId tx, Decided (MapDecision i msg tx e)) \<in> set ms))"
    by (rule appends_weaken[OF appends_fresh[OF 1]]) (metis less_add_one)
  have 3: "appends (pthen (EnqueueAsync TransactionsValidated (txAccountId tx) body) (pbind CreateVersion7 (\<lambda>i.
      pthen (EnqueueAsync RiskDecisions (txAccountId tx) (Decided (MapDecision i msg tx e)))
        (if evlDecision e \<in> {Review, Block} then raise_alert tx e else preturn ())))) (carries_decision msg tx e)" for body
    by (rule appends_weaken[OF appends_then[OF appends_Enqueue 2]]) (clarsimp simp: carries_decision_def, meson le_less_trans)
  show ?thesis unfolding publish_evaluation_def
    by (rule appends_weaken[OF appends_fresh[OF appends_get[OF 3]]]) (auto simp: carries_decision_def intro: Suc_lessD)
qed

definition same_cases :: "World \<Rightarrow> World \<Rightarrow> bool" where
  "same_cases w w' \<longleftrightarrow> wCases w' = wCases w \<and> wHistory w' = wHistory w \<and> wLive w' = wLive w \<and> wFresh w \<le> wFresh w'"

lemma ProcessAsync_emits:
  assumes "fault_free w" and "db_ok w" and "\<forall>x \<in> set (wInbox w). ibxEventId x \<noteq> rcvEventId msg"
    and "Validate msg = Inr \<lparr>resValue = Some tx, resIsSuccess = True, resError = None\<rparr>"
    and "txTransactionId tx \<notin> set (decision_ids w)" and "fits_numeric_18_2 (mAmount (txAmount tx))"
    and "fst (gather_context tx (claim_of msg w)) = Inr ctx" and "risk_engine model ms ctx = Inr e"
  obtains w' rows where "ProcessAsync model ms msg w = (Inr (), w')" "wOutbox w' = wOutbox w @ rows"
    "\<forall>x \<in> set rows. obxPublishedAt x = None" "carries_decision msg tx e (wFresh w + 1) (map message_of rows)"
    "map ibxEventId (wInbox w') = map ibxEventId (wInbox w) @ [rcvEventId msg]" "fault_free w'" "db_ok w'" "same_cases w w'"
    "wPublished w' = wPublished w"
proof -
  note c = claim_state [OF assms(1-3,5)]
  obtain red ts d where s: "score_and_record model ms msg tx (claim_of msg w) = pthen (publish_evaluation msg tx e)
      (pthen (CompleteAsync (rcvEventId msg)) (pmodify (count_decision (evlDecision e)))) (saved_state red ts d (claim_of msg w))"
    "fault_free (saved_state red ts d (claim_of msg w))" "db_ok (saved_state red ts d (claim_of msg w))"
    using score_saved [OF c(2-4) assms(6-8)] by metis
  define w2 where "w2 = saved_state red ts d (claim_of msg w)"
  note s = s [folded w2_def]
  have w2: "wOutbox w2 = wOutbox w" "wFresh w2 = wFresh w + 1" "wInbox w2 = wInbox (claim_of msg w)" "wCases w2 = wCases w"
    "wHistory w2 = wHistory w" "wLive w2 = wLive w" "wPublished w2 = wPublished w"
    by (simp_all add: w2_def saved_state_def claim_of_def)
  obtain n rows where p: "publish_evaluation msg tx e w2 = (Inr (), w2\<lparr>wFresh := n, wOutbox := wOutbox w2 @ rows\<rparr>)" "wFresh w2 \<le> n"
    "\<forall>x \<in> set rows. obxPublishedAt x = None" "carries_decision msg tx e (wFresh w2) (map message_of rows)"
    by (rule appendsE [OF publish_appends s(2,3)])
  have f: "fault_free (w2\<lparr>wFresh := n, wOutbox := wOutbox w2 @ rows\<rparr>)" using s(2) by (simp add: fault_free_def)
  obtain xs where x: "CompleteAsync (rcvEventId msg) (w2\<lparr>wFresh := n, wOutbox := wOutbox w2 @ rows\<rparr>) =
      (Inr (), w2\<lparr>wFresh := n, wOutbox := wOutbox w2 @ rows, wInbox := xs\<rparr>)" "map ibxEventId xs = map ibxEventId (wInbox w2)"
    using Complete_run [OF f] by auto
  define w' where "w' = count_decision (evlDecision e) (w2\<lparr>wFresh := n, wOutbox := wOutbox w2 @ rows, wInbox := xs\<rparr>)"
  have "score_and_record model ms msg tx (claim_of msg w) = (Inr (), w')"
    unfolding s(1) w'_def using p(1) x(1) by (simp add: pthen_def pbind_def)
  then have run: "ProcessAsync model ms msg w = (Inr (), w')" by (rule ProcessAsync_scores [OF assms(1-5)])
  show thesis
  proof (rule that [OF run])
    show "db_ok w'" using keepsD [OF keeps_process assms(2)] run by (metis snd_conv)
    show "map ibxEventId (wInbox w') = map ibxEventId (wInbox w) @ [rcvEventId msg]"
      using x(2) by (simp add: w'_def w2 claim_of_def)
    show "fault_free w'" using s(2) by (simp add: w'_def fault_free_def)
  qed (use p w2 in \<open>simp_all add: w'_def same_cases_def\<close>)
qed

lemma cases_ok_same: "cases_ok w \<Longrightarrow> same_cases w w' \<Longrightarrow> cases_ok w'"
  by (fastforce simp: cases_ok_def same_cases_def history_of_def)

lemma pending_append: "x \<in> set rows \<Longrightarrow> obxPublishedAt x = None \<Longrightarrow> wOutbox w' = wOutbox w @ rows \<Longrightarrow>
    x \<in> set (pending w') \<and> length (pending w') \<le> length (pending w) + length rows"
  by (auto simp: pending_def)

text \<open>
  C10: What becomes of a transaction the engine flags. Without faults, when a new message with a correlation identifier, written by
  \<open>SentinelJson\<close>, is consumed and the engine does not approve its transaction, the dispatcher publishes the decision within
  the rounds the waiting rows need. If the case service consumes it first, it opens exactly one case, with the score
  of the engine, and shows it live. If the profile service does, whatever it makes of it, the case service then
  passes over the event: no case is opened.\<close>

theorem flagged_transaction_first_come:
  assumes "fault_free w" and "db_ok w" and "cases_ok w" and "\<forall>x \<in> set (wInbox w). ibxEventId x \<le> wFresh w \<and> ibxEventId x \<noteq> rcvEventId msg"
    and "rcvEventId msg \<le> wFresh w" and "rcvCorrelationId msg \<noteq> None"
    and "Validate msg = Inr \<lparr>resValue = Some tx, resIsSuccess = True, resError = None\<rparr>"
    and "txTransactionId tx \<notin> set (decision_ids w)" and "fits_numeric_18_2 (mAmount (txAmount tx))"
    and "\<forall>c \<in> set (wCases w). csTransactionId c \<noteq> txTransactionId tx"
    and "fst (gather_context tx (claim_of msg w)) = Inr ctx" and "risk_engine model ms ctx = Inr e" and "evlDecision e \<noteq> Approve"
    and "length (pending w) + 3 \<le> 50 * n"
  shows "\<exists>w1 w2 d. ProcessWithRetryAsync TransactionsRaw a False (HandleRaw model ms (Serialize msg)) w = (Inr (), w1) \<and>
    dispatch n w1 = (Inr (), w2) \<and> (RiskDecisions, txAccountId tx, Decided d) \<in> set (wPublished w2) \<and>
    (\<exists>w3 c. ProcessWithRetryAsync RiskDecisions a False (ConsumeDecision (Serialize_decision d)) w2 = (Inr (), w3) \<and>
       wCases w3 = wCases w @ [c] \<and> csTransactionId c = txTransactionId tx \<and> csStatus c = Open \<and> csRiskScore c = evlRiskScore e \<and>
       wLive w3 = wLive w @ [(False, d), (True, d)]) \<and>
    (\<exists>r w4. ProcessWithRetryAsync RiskDecisions a False (ConsumeProfile (Serialize_decision d)) w2 = (r, w4) \<and>
       ProcessWithRetryAsync RiskDecisions a False (ConsumeDecision (Serialize_decision d)) w4 = (Inr (), w4) \<and> wCases w4 = wCases w)"
proof -
  have new: "\<forall>x \<in> set (wInbox w). ibxEventId x \<noteq> rcvEventId msg" using assms(4) by blast
  obtain w1 rows where w1: "ProcessAsync model ms msg w = (Inr (), w1)" "wOutbox w1 = wOutbox w @ rows"
    "\<forall>x \<in> set rows. obxPublishedAt x = None" "carries_decision msg tx e (wFresh w + 1) (map message_of rows)"
    "map ibxEventId (wInbox w1) = map ibxEventId (wInbox w) @ [rcvEventId msg]" "fault_free w1" "db_ok w1" "same_cases w w1"
    using ProcessAsync_emits [OF assms(1,2) new assms(7-9,11,12)] by metis
  obtain i x where i: "wFresh w + 1 < i" "x \<in> set rows"
    "message_of x = (RiskDecisions, txAccountId tx, Decided (MapDecision i msg tx e))" and "length rows \<le> 3"
    using w1(4) by (force simp: carries_decision_def)
  define d where "d = MapDecision i msg tx e"
  have d: "decEventId d = i" "decTransactionId d = txTransactionId tx" "decDecision d = evlDecision e" "decRiskScore d = evlRiskScore e"
    by (simp_all add: d_def MapDecision_def)
  have x: "x \<in> set (pending w1)" "length (pending w1) \<le> 50 * n"
    using pending_append [OF i(2) _ w1(2)] i(2) w1(3) \<open>length rows \<le> 3\<close> assms(14) by fastforce+
  have "distinct (map obxId (wOutbox w1))" using w1(7) by (simp add: db_ok_def)
  then obtain ob where disp: "dispatch n w1 = (Inr (), w1\<lparr>wPublished := wPublished w1 @ map message_of (take (50 * n) (pending w1)),
      wOutbox := ob\<rparr>)" using dispatch_run [OF w1(6)] by blast
  define w2 where "w2 = w1\<lparr>wPublished := wPublished w1 @ map message_of (take (50 * n) (pending w1)), wOutbox := ob\<rparr>"
  have pub: "(RiskDecisions, txAccountId tx, Decided d) \<in> set (wPublished w2)"
    using x i(3) by (force simp: w2_def d_def)
  have w2: "fault_free w2" "same_cases w w2" "wInbox w2 = wInbox w1" "wCases w2 = wCases w" "wLive w2 = wLive w"
    using w1(6,8) by (simp_all add: w2_def fault_free_def same_cases_def)
  have "ibxEventId y \<noteq> decEventId d" if "y \<in> set (wInbox w2)" for y
  proof -
    have "ibxEventId y \<in> set (map ibxEventId (wInbox w1))" using that w2(3) by simp
    then have "ibxEventId y \<le> wFresh w" unfolding w1(5) using assms(4,5) by auto
    then show ?thesis using i(1) d(1) by simp
  qed
  moreover have "decDecision d \<noteq> Approve" "\<forall>c \<in> set (wCases w2). csTransactionId c \<noteq> decTransactionId d"
    using assms(10,13) d w2(4) by simp_all
  ultimately obtain w3 c where "HandleDecision d w2 = (Inr (), w3)" "wCases w3 = wCases w2 @ [c]" "csTransactionId c = decTransactionId d"
    "csStatus c = Open" "csRiskScore c = decRiskScore d" "wLive w3 = wLive w2 @ [(False, d), (True, d)]"
    using HandleDecision_opens [OF w2(1) cases_ok_same [OF assms(3) w2(2)]] by blast
  note w3 = this
  have ok: "acceptable msg" using validator_spec [of msg] assms(7) by auto
  have full: "no_required_null msg" "no_required_null (decTransaction d)"
    using acceptable_no_null [OF ok assms(6)] by (simp_all add: d_def MapDecision_def)
  have raw: "ProcessWithRetryAsync TransactionsRaw a False (HandleRaw model ms (Serialize msg)) w = (Inr (), w1)"
    by (rule retry_first) (simp add: HandleRaw_serialized full w1(1))
  have decided: "ProcessWithRetryAsync RiskDecisions a False (ConsumeDecision (Serialize_decision d)) w2 = (Inr (), w3)"
    by (rule retry_first) (simp add: ConsumeDecision_serialized full w3(1))
  obtain r w4 where "ProcessWithRetryAsync RiskDecisions a False (ConsumeProfile (Serialize_decision d)) w2 = (r, w4)"
    "ConsumeDecision (Serialize_decision d) w4 = (Inr (), w4)" "wCases w4 = wCases w"
    using profile_first [OF w2(1) full(2), of a] w2(4) by auto
  note w4 = this(1,3) retry_first [where h = "ConsumeDecision (Serialize_decision d)" and m = a and c = False and topic = RiskDecisions, OF this(2)]
  show ?thesis
    using raw disp pub decided w3(2-) w4 d w2(4,5) unfolding w2_def [symmetric]
    by (intro exI [of _ w1] exI [of _ w2] exI [of _ d] exI [of _ w3] exI [of _ c] exI [of _ r] exI [of _ w4] conjI) simp_all
qed

text \<open>
  A transaction whose correlation identifier is null, which only a foreign producer can write, is scored under an identifier
  made from its event; but the decision carries the message as it came, so that no consumer can read it: it is tried as often as
  configured and dead-lettered.\<close>

lemma null_correlation_unreadable:
  assumes "fault_free w" and "rcvCorrelationId msg = None"
  shows "ProcessWithRetryAsync RiskDecisions a False (ConsumeDecision (Serialize_decision (MapDecision i msg tx e))) w =
    (Inr (), w\<lparr>wDead := wDead w @ [\<lparr>dlSourceTopic = RiskDecisions, dlError = JsonFailure, dlAttempt = max 1 a, dlPoison = False\<rparr>]\<rparr>)"
proof -
  have "ConsumeDecision (Serialize_decision (MapDecision i msg tx e)) w = (Inl JsonFailure, w)"
    using assms(2) by (simp add: ConsumeDecision_serialized MapDecision_def no_required_null_def)
  from retry_always_fails [where h = "ConsumeDecision (Serialize_decision (MapDecision i msg tx e))", OF this]
  show ?thesis using assms(1) by (simp add: is_poison_def)
qed

text \<open>A database whose rule set values large amounts only: 60 points, half as much again from twice the threshold.\<close>

definition strict_rules :: "RuleRow list" where
  "strict_rules = [\<lparr>rlrRulesetVersion = InitialVersion, rlrRuleCode = code HighValue, rlrEnabled = True, rlrScore = 60,
     rlrParameters = None\<rparr>]"

definition strict_world :: World where
  "strict_world = empty_world\<lparr>wRules := strict_rules\<rparr>"

lemma strict_active: "GetActiveAsync (claim_of example_message strict_world) =
  (Inr (InitialVersion, map to_parameters strict_rules), claim_of example_message strict_world)"
  by (simp add: GetActiveAsync_def pbind_def active_ruleset_def claim_of_def strict_world_def empty_world_def strict_rules_def
      query_def del: code.simps)

lemma rmap_includes: "rmap f xs = Inr ys \<Longrightarrow> x \<in> set xs \<Longrightarrow> f x = Inr y \<Longrightarrow> y \<in> set ys"
  by (induction xs arbitrary: ys) (auto simp: rbind_eq_Inr)

lemma strict_blocks:
  assumes "ctxRuleParameters ctx = map to_parameters strict_rules" and "ctxTransaction ctx = example_snapshot"
    and "mAmount (prfMedianTransactionAmount (ctxProfile ctx)) = 0" "mAmount (prfAverageTransactionAmount (ctxProfile ctx)) = 0"
  shows "\<exists>e. risk_engine NoOpRiskModel ms ctx = Inr e \<and> evlDecision e = Block"
proof -
  have p: "ParametersFor ctx (code c) = \<lparr>rpRuleCode = code c, rpEnabled = True, rpScore = (if c = HighValue then 60 else 0),
      rpParameters = []\<rparr>" for c
    using assms(1) by (cases c) (simp_all add: ParametersFor_def strict_rules_def to_parameters_def)
  obtain e where e: "risk_engine NoOpRiskModel ms ctx = Inr e" "evlRawScore e \<le> 1950000000"
  proof -
    have "- 100000000 \<le> rpScore (ParametersFor ctx (code c)) \<and> rpScore (ParametersFor ctx (code c)) \<le> 100000000" for c by (simp add: p)
    moreover have "decimals_in_range ctx"
      by (rule example_in_range [OF assms(2-4)]) (simp_all add: p GetDecimal_def del: code.simps)
    ultimately show ?thesis using that engine_returns [of ctx NoOpRiskModel "Model_None ''noop-1.0.0''" ms] by (auto simp: NoOpRiskModel_def)
  qed
  note s = sentinel.evaluation_shape [OF e(1) [unfolded risk_engine_def]]
  have m: "mAmount (txAmount (ctxTransaction ctx)) = 7000" by (simp add: assms(2) example_snapshot_def snapshot_of_def example_money_def)
  obtain r where r: "HighValueRule ctx = Inr r" "resTriggered r" "resScore r = 90"
    using m p [of HighValue] by (simp add: HighValueRule_def Let_def GetDecimal_def Hit_def checked32_def is_i32_iff checked_decimal_def del: code.simps)
  have "(code HighValue, HighValueRule) \<in> set engine_rules" by (force simp: engine_rules_def AllRuleCodes_def)
  then have "(code HighValue, HighValueRule) \<in> set (enabled ctx engine_rules)" using p [of HighValue] by (simp add: enabled_def del: code.simps)
  moreover obtain all where all: "rmap (\<lambda>(c, ev). ev ctx) (enabled ctx engine_rules) = Inr all"
      "evlTriggeredRules e = filter resTriggered all"
    using s(1) by (auto simp: run_rules_rmap rbind_eq_Inr)
  ultimately have "r \<in> set (evlTriggeredRules e)" using rmap_includes [OF all(1)] r by fastforce
  then have "resScore r \<le> sum_list (map resScore (evlTriggeredRules e))"
    using sentinel.scores_nonneg [OF s(1)] by (intro member_le_sum_list) auto
  then have "90 \<le> evlRawScore e" using s(2) r(3) by simp
  moreover have "evlRiskScore e = Cap (evlRawScore e)"
    using s(6) by (auto simp: NoOpRiskModel_def Combine_def Model_None_def)
  ultimately have "80 \<le> evlRiskScore e" by (simp add: Cap_def MaxScore_def)
  then have "evlDecision e = Block" using s(4,5) by (simp only: Decide_Block_iff)
  then show ?thesis using e(1) by blast
qed

lemma flagged_transaction_first_come_witness:
  "\<exists>w1 w2 w3 d c. ProcessWithRetryAsync TransactionsRaw 3 False (HandleRaw NoOpRiskModel 5 (Serialize example_message)) strict_world = (Inr (), w1) \<and>
    dispatch 1 w1 = (Inr (), w2) \<and> (RiskDecisions, ''A1'', Decided d) \<in> set (wPublished w2) \<and>
    ProcessWithRetryAsync RiskDecisions 3 False (ConsumeDecision (Serialize_decision d)) w2 = (Inr (), w3) \<and> wCases w3 = [c]"
proof -
  obtain ctx where g: "fst (gather_context example_snapshot (claim_of example_message strict_world)) = Inr ctx"
    "ctxRuleParameters ctx = map to_parameters strict_rules" "ctxTransaction ctx = example_snapshot"
    "mAmount (prfMedianTransactionAmount (ctxProfile ctx)) = 0" "mAmount (prfAverageTransactionAmount (ctxProfile ctx)) = 0"
    using example_gather_with [of strict_rules] strict_active unfolding strict_world_def by blast
  obtain e where e: "risk_engine NoOpRiskModel 5 ctx = Inr e" "evlDecision e = Block" using strict_blocks [OF g(2-5)] by blast
  have w: "fault_free strict_world" "db_ok strict_world" "cases_ok strict_world" "wCases strict_world = []" "wInbox strict_world = []"
    "wFresh strict_world = 100" "length (pending strict_world) = 0" "decision_ids strict_world = []"
    by (simp_all add: strict_world_def empty_world_def fault_free_def db_ok_def decision_ids_def transaction_ids_def cases_ok_def
        pending_def)
  have m: "rcvEventId example_message = 7" "rcvCorrelationId example_message = Some ''trace-1''" "txAccountId example_snapshot = ''A1''"
    by (simp_all add: example_message_def example_snapshot_def snapshot_of_def the_string_def Trim_def is_white_def)
  show ?thesis
    using flagged_transaction_first_come [OF w(1-3) _ _ _ example_valid _ example_fits _ g(1) e(1), of 1 3]
    unfolding w m e(2) append_Nil by (simp del: dispatch.simps One_nat_def) blast
qed

section \<open>Ingestion\<close>

lemma stamp_fields [simp]:
  "rcvAccountId (stamp m i c now) = rcvAccountId m" "rcvTransactionId (stamp m i c now) = rcvTransactionId m"
  "rcvEventId (stamp m i c now) = i"
  by (simp_all add: stamp_def)

lemma acceptable_stamp: "i \<noteq> Guid_Empty \<Longrightarrow> acceptable (stamp m i c now) \<longleftrightarrow> acceptable (m\<lparr>rcvEventId := 1\<rparr>)"
  by (simp add: acceptable_def Guid_Empty_def stamp_def)

lemma PostTransaction_run:
  assumes "fault_free w" and "\<not> IsNullOrWhiteSpace (rcvTransactionId incoming)" and "0 < rcvAmount incoming"
  obtains n i corr where "PostTransaction incoming w = (Inr (Accepted (rcvTransactionId incoming) i corr),
      w\<lparr>wFresh := n, wPublished := wPublished w @ [(TransactionsRaw, the_string (rcvAccountId incoming), Received (stamp incoming i corr (wNow w)))]\<rparr>)"
    "i = (if rcvEventId incoming = Guid_Empty then n else rcvEventId incoming)" "wFresh w \<le> n" "i \<noteq> Guid_Empty"
proof -
  define blank where "blank = IsNullOrWhiteSpace (rcvCorrelationId incoming)"
  define corr where "corr = (if blank then guid_N (wFresh w + 1) else the_string (rcvCorrelationId incoming))"
  define k where "k = (if blank then wFresh w + 1 else wFresh w)"
  define n where "n = (if rcvEventId incoming = Guid_Empty then k + 1 else k)"
  define i where "i = (if rcvEventId incoming = Guid_Empty then n else rcvEventId incoming)"
  have c: "(if blank then pbind CreateVersion7 (\<lambda>g. preturn (guid_N g)) else preturn (the_string (rcvCorrelationId incoming))) w =
      (Inr corr, w\<lparr>wFresh := k\<rparr>)" by (simp add: corr_def k_def pbind_def)
  have e: "(if rcvEventId incoming = Guid_Empty then CreateVersion7 else preturn (rcvEventId incoming)) (w\<lparr>wFresh := k\<rparr>) =
      (Inr i, w\<lparr>wFresh := n\<rparr>)" by (simp add: i_def n_def)
  have "fault_free (w\<lparr>wFresh := n\<rparr>)" using assms(1) by (simp add: fault_free_def)
  then have p: "PublishAsync TransactionsRaw a (Received m) (w\<lparr>wFresh := n\<rparr>) =
      (Inr (), w\<lparr>wFresh := n, wPublished := wPublished w @ [(TransactionsRaw, a, Received m)]\<rparr>)" for a m
    by (simp add: PublishAsync_def next_fault_def fault_free_def)
  have "PostTransaction incoming w = (Inr (Accepted (rcvTransactionId incoming) i corr),
      w\<lparr>wFresh := n, wPublished := wPublished w @ [(TransactionsRaw, the_string (rcvAccountId incoming), Received (stamp incoming i corr (wNow w)))]\<rparr>)"
    using assms(2,3) c e p by (simp add: PostTransaction_def pbind_def pthen_def Let_def blank_def)
  then show thesis by (rule that) (auto simp: i_def n_def k_def Guid_Empty_def)
qed

lemma stamp_correlation [simp]: "rcvCorrelationId (stamp m i c now) = Some c"
  by (simp add: stamp_def)

lemma stamp_nulls:
  "rcvTransactionId m \<noteq> None \<Longrightarrow> no_required_null (stamp m i c now) \<longleftrightarrow>
     None \<notin> {rcvAccountId m, rcvCustomerId m, rcvCurrency m, rcvMerchantId m, rcvCountry m}"
  by (cases "rcvAccountId m"; cases "rcvCustomerId m"; cases "rcvCurrency m"; cases "rcvMerchantId m"; cases "rcvCountry m")
    (auto simp: no_required_null_def stamp_def)

text \<open>
  C13: The endpoint checks less than the validator. Whatever names a transaction and has a positive amount is accepted under an
  event identifier and published for its account, and the client has its 202. When something else the validator asks for is missing, the host
  puts the message on the dead letter topic and decides nothing: when the account, customer, currency, merchant
  or country is null, so that the message is written without it and cannot be read, after as many attempts as configured and not as
  poison; otherwise at the first attempt and as poison.\<close>

theorem ingestion_accepts_undecidable:
  assumes "fault_free w" and "\<not> IsNullOrWhiteSpace (rcvTransactionId incoming)" and "0 < rcvAmount incoming"
    and "\<not> acceptable (incoming\<lparr>rcvEventId := 1\<rparr>)"
  shows "\<exists>w1 m corr e. PostTransaction incoming w = (Inr (Accepted (rcvTransactionId incoming) (rcvEventId m) corr), w1) \<and>
    wPublished w1 = wPublished w @ [(TransactionsRaw, the_string (rcvAccountId incoming), Received m)] \<and>
    ProcessWithRetryAsync TransactionsRaw n False (HandleRaw model ms (Serialize m)) w1 =
      (Inr (), w1\<lparr>wDead := wDead w1 @
        [if None \<in> {rcvAccountId incoming, rcvCustomerId incoming, rcvCurrency incoming, rcvMerchantId incoming, rcvCountry incoming}
         then \<lparr>dlSourceTopic = TransactionsRaw, dlError = JsonFailure, dlAttempt = max 1 n, dlPoison = False\<rparr>
         else \<lparr>dlSourceTopic = TransactionsRaw, dlError = PoisonMessage e, dlAttempt = 1, dlPoison = True\<rparr>]\<rparr>)"
proof -
  obtain k i corr where r: "PostTransaction incoming w = (Inr (Accepted (rcvTransactionId incoming) i corr),
      w\<lparr>wFresh := k, wPublished := wPublished w @ [(TransactionsRaw, the_string (rcvAccountId incoming), Received (stamp incoming i corr (wNow w)))]\<rparr>)"
    and i: "i \<noteq> Guid_Empty" using PostTransaction_run [OF assms(1-3)] by metis
  define m where "m = stamp incoming i corr (wNow w)"
  let ?w1 = "w\<lparr>wFresh := k, wPublished := wPublished w @ [(TransactionsRaw, the_string (rcvAccountId incoming), Received m)]\<rparr>"
  let ?h = "HandleRaw model ms (Serialize m)"
  let ?null = "None \<in> {rcvAccountId incoming, rcvCustomerId incoming, rcvCurrency incoming, rcvMerchantId incoming, rcvCountry incoming}"
  have f: "fault_free ?w1" using assms(1) by (simp add: fault_free_def)
  have nulls: "no_required_null m \<longleftrightarrow> \<not> ?null"
    unfolding m_def by (rule stamp_nulls) (use assms(2) not_white_not_null in blast)
  have "\<not> acceptable m" using acceptable_stamp [OF i] assms(4) by (simp add: m_def)
  then obtain e where e: "ProcessAsync model ms m ?w1 = (Inl (PoisonMessage e), ?w1)" using ProcessAsync_refused by blast
  have "ProcessWithRetryAsync TransactionsRaw n False ?h ?w1 = (Inr (), ?w1\<lparr>wDead := wDead ?w1 @
        [if ?null then \<lparr>dlSourceTopic = TransactionsRaw, dlError = JsonFailure, dlAttempt = max 1 n, dlPoison = False\<rparr>
         else \<lparr>dlSourceTopic = TransactionsRaw, dlError = PoisonMessage e, dlAttempt = 1, dlPoison = True\<rparr>]\<rparr>)"
  proof (cases ?null)
    case True
    then have "?h ?w1 = (Inl JsonFailure, ?w1)" using nulls by (simp only: HandleRaw_serialized simp_thms if_False)
    then have "ProcessWithRetryAsync TransactionsRaw n False ?h ?w1 = DeadLetterAsync TransactionsRaw JsonFailure (max 1 n) False ?w1"
      by (rule retry_always_fails) (simp_all add: is_poison_def)
    then show ?thesis using True DeadLetter_run [OF f] by (simp only: if_True)
  next
    case False
    then have "?h ?w1 = (Inl (PoisonMessage e), ?w1)" using nulls e by (simp only: HandleRaw_serialized simp_thms if_True)
    then have "ProcessWithRetryAsync TransactionsRaw n False ?h ?w1 = DeadLetterAsync TransactionsRaw (PoisonMessage e) 1 True ?w1"
      by (rule retry_poison)
    then show ?thesis using False DeadLetter_run [OF f] by (simp only: if_False)
  qed
  then show ?thesis using r by (intro exI [of _ ?w1] exI [of _ m] exI [of _ corr] exI [of _ e]) (simp add: m_def)
qed

text \<open>A blank account is poison; no account at all makes the message unreadable.\<close>

lemma ingestion_accepts_undecidable_witness:
  "(\<exists>w1 m corr e. PostTransaction (example_message\<lparr>rcvAccountId := Some '' ''\<rparr>) empty_world = (Inr (Accepted (Some ''T1'') (rcvEventId m) corr), w1) \<and>
     wDead (snd (ProcessWithRetryAsync TransactionsRaw 3 False (HandleRaw NoOpRiskModel 5 (Serialize m)) w1)) = wDead w1 @
       [\<lparr>dlSourceTopic = TransactionsRaw, dlError = PoisonMessage e, dlAttempt = 1, dlPoison = True\<rparr>]) \<and>
   (\<exists>w1 m corr. PostTransaction (example_message\<lparr>rcvAccountId := None\<rparr>) empty_world = (Inr (Accepted (Some ''T1'') (rcvEventId m) corr), w1) \<and>
     wDead (snd (ProcessWithRetryAsync TransactionsRaw 3 False (HandleRaw NoOpRiskModel 5 (Serialize m)) w1)) = wDead w1 @
       [\<lparr>dlSourceTopic = TransactionsRaw, dlError = JsonFailure, dlAttempt = 3, dlPoison = False\<rparr>])"
proof -
  have f: "fault_free empty_world" by (simp add: fault_free_def empty_world_def)
  have pre: "\<not> IsNullOrWhiteSpace (rcvTransactionId (example_message\<lparr>rcvAccountId := x\<rparr>))" "0 < rcvAmount (example_message\<lparr>rcvAccountId := x\<rparr>)"
    "rcvTransactionId (example_message\<lparr>rcvAccountId := x\<rparr>) = Some ''T1''" for x
    by (simp_all add: example_message_def IsNullOrWhiteSpace_def is_white_def)
  have bad: "\<not> acceptable (example_message\<lparr>rcvAccountId := x\<rparr>\<lparr>rcvEventId := 1\<rparr>)" if "IsNullOrWhiteSpace x" for x
    using that by (simp add: acceptable_def)
  have w: "IsNullOrWhiteSpace (Some '' '')" "IsNullOrWhiteSpace None" by (simp_all add: IsNullOrWhiteSpace_def is_white_def)
  have others: "None \<notin> {rcvCustomerId example_message, rcvCurrency example_message, rcvMerchantId example_message, rcvCountry example_message}"
    by (simp add: example_message_def)
  note run = ingestion_accepts_undecidable [OF f pre(1,2) bad, where n = 3 and model = NoOpRiskModel and ms = 5, unfolded pre(3)]
  obtain w1 m corr e where 1: "PostTransaction (example_message\<lparr>rcvAccountId := Some '' ''\<rparr>) empty_world = (Inr (Accepted (Some ''T1'') (rcvEventId m) corr), w1)"
    "wDead (snd (ProcessWithRetryAsync TransactionsRaw 3 False (HandleRaw NoOpRiskModel 5 (Serialize m)) w1)) = wDead w1 @
       [\<lparr>dlSourceTopic = TransactionsRaw, dlError = PoisonMessage e, dlAttempt = 1, dlPoison = True\<rparr>]"
    using run [OF w(1)] others by auto
  obtain w2 m' corr' where 2: "PostTransaction (example_message\<lparr>rcvAccountId := None\<rparr>) empty_world = (Inr (Accepted (Some ''T1'') (rcvEventId m') corr'), w2)"
    "wDead (snd (ProcessWithRetryAsync TransactionsRaw 3 False (HandleRaw NoOpRiskModel 5 (Serialize m')) w2)) = wDead w2 @
       [\<lparr>dlSourceTopic = TransactionsRaw, dlError = JsonFailure, dlAttempt = 3, dlPoison = False\<rparr>]"
    using run [OF w(2)] by auto
  show ?thesis
    by (intro conjI exI [of _ w1] exI [of _ m] exI [of _ corr] exI [of _ e] exI [of _ w2] exI [of _ m'] exI [of _ corr'] 1 2)
qed

section \<open>Resubmission\<close>

text \<open>
  A transaction is decided once, whatever the number of its messages: a further message under a new event identifier is
  claimed and completed, and changes neither decisions nor outbox nor the counters.\<close>

theorem resubmission_decides_once:
  assumes "fault_free w" and "\<forall>x \<in> set (wInbox w). ibxEventId x \<noteq> rcvEventId msg"
    and "Validate msg = Inr \<lparr>resValue = Some tx, resIsSuccess = True, resError = None\<rparr>"
    and "txTransactionId tx \<in> set (decision_ids w)"
  shows "ProcessAsync model ms msg w = (Inr (), w\<lparr>wInbox := wInbox w @ [\<lparr>ibxEventId = rcvEventId msg,
    ibxConsumer = TransactionProcessor, ibxReceivedAt = wNow w, ibxCompletedAt = Some (wNow w)\<rparr>]\<rparr>)"
proof -
  have claimed: "TryBeginAsync (rcvEventId msg) TransactionProcessor w = (Inr True, claim_of msg w)"
    using TryBegin_run [OF assms(1)] assms(2) by (simp add: claim_of_def)
  have f: "fault_free (claim_of msg w)" using assms(1) by (simp add: fault_free_def claim_of_def)
  have same: "map (\<lambda>x. if ibxEventId x = rcvEventId msg then x\<lparr>ibxCompletedAt := t\<rparr> else x) (wInbox w) = wInbox w" for t
    using assms(2) by (simp add: map_idI)
  have "\<exists>d \<in> set (wDecisions (claim_of msg w)). txTransactionId (dcnTransaction d) = txTransactionId tx"
    using assms(4) by (auto simp: decision_ids_def claim_of_def)
  then have "process_claimed model ms msg tx (claim_of msg w) = CompleteAsync (rcvEventId msg) (claim_of msg w)"
    using f by (simp add: process_claimed_def ExistsForTransactionAsync_def pbind_def)
  also have "\<dots> = (Inr (), w\<lparr>wInbox := wInbox w @ [\<lparr>ibxEventId = rcvEventId msg,
    ibxConsumer = TransactionProcessor, ibxReceivedAt = wNow w, ibxCompletedAt = Some (wNow w)\<rparr>]\<rparr>)"
    using f same by (simp add: CompleteAsync_def pbind_def) (simp add: claim_of_def)
  finally show ?thesis
    using claimed by (simp add: ProcessAsync_def assms(3) IsFailure_def Result_Value_def pbind_def count_errors_def)
qed

lemma resubmission_decides_once_witness:
  "\<exists>e d. ProcessAsync NoOpRiskModel 5 example_message (empty_world\<lparr>wDecisions := [d]\<rparr>) = (Inr (), e) \<and> wDecisions e = [d] \<and> wOutbox e = []"
proof -
  define d where "d = \<lparr>dcnId = 1, dcnTransaction = example_snapshot, dcnEvaluation = evaluation [] 0 (Model_None []) 5 Decide example_context, dcnCorrelationId = [], dcnCreatedAt = 0,
    dcnProfileSnapshot = example_profile\<rparr>"
  have "fault_free (empty_world\<lparr>wDecisions := [d]\<rparr>)" "wInbox (empty_world\<lparr>wDecisions := [d]\<rparr>) = []" "wOutbox empty_world = []"
    "txTransactionId example_snapshot \<in> set (decision_ids (empty_world\<lparr>wDecisions := [d]\<rparr>))"
    by (simp_all add: fault_free_def empty_world_def decision_ids_def d_def)
  from resubmission_decides_once [OF this(1) _ example_valid this(4), of NoOpRiskModel 5] this(2,3) show ?thesis
    by (intro exI [of _ "_ :: World"] exI [of _ d]) auto
qed

end
