(* ===== verification/Queries.thy ===== *)
theory Queries
  imports Pipeline
begin

text \<open>
  What the services read back: a decision by its transaction, the cached provider of rule sets (\<open>Repositories.cs\<close>), the lists of
  cases and of audit events by page, a case, a transaction and a profile, and the figures of the dashboard
  (\<open>Sentinel.Cases.Api/Program.cs\<close>, \<open>Sentinel.Admin.Api/Program.cs\<close>, \<open>Sentinel.Ingestion.Api/Program.cs\<close>). An average is
  the exact quotient. Countries with the same count come in the order of their first transaction.
\<close>

section \<open>Repositories\<close>

text \<open>The time of the evaluation is not stored; the time of the decision takes its place.\<close>

definition GetByTransactionIdAsync :: "string \<Rightarrow> DecisionRow option op" where
  "GetByTransactionIdAsync transactionId =
     pbind (query (\<lambda>w. find (\<lambda>d. txTransactionId (dcnTransaction d) = transactionId) (wDecisions w))) (\<lambda>row.
       preturn (map_option (\<lambda>d. d\<lparr>dcnEvaluation := (dcnEvaluation d)\<lparr>evlEvaluatedAt := dcnCreatedAt d\<rparr>\<rparr>) row))"

record RuleProvider =
  rprCache :: "(string \<times> (string \<times> RuleParameterSet) list) option"
  rprCacheUntil :: instant

definition new_RuleProvider :: RuleProvider where
  "new_RuleProvider = \<lparr>rprCache = None, rprCacheUntil = 0\<rparr>"

definition seconds :: "int \<Rightarrow> int" where
  "seconds n = n * 10000000"

definition GetActiveCached :: "RuleProvider \<Rightarrow> ((string \<times> (string \<times> RuleParameterSet) list) \<times> RuleProvider) op" where
  "GetActiveCached p =
     pbind (pget wNow) (\<lambda>now.
       case rprCache p of
         Some c \<Rightarrow> if now < rprCacheUntil p then preturn (c, p)
           else pbind GetActiveAsync (\<lambda>r. preturn (r, \<lparr>rprCache = Some r, rprCacheUntil = now + seconds 15\<rparr>))
       | None \<Rightarrow> pbind GetActiveAsync (\<lambda>r. preturn (r, \<lparr>rprCache = Some r, rprCacheUntil = now + seconds 15\<rparr>)))"

definition Invalidate :: "RuleProvider \<Rightarrow> RuleProvider" where
  "Invalidate p = p\<lparr>rprCache := None, rprCacheUntil := 0\<rparr>"

section \<open>Pages\<close>

record 'a PagedResult =
  pgItems :: "'a list"
  pgTotalCount :: int
  pgPage :: int
  pgPageSize :: int

text \<open>
  \<open>ORDER BY ... DESC\<close> of the database is an argument of a query: the rows, newest first by a column that holds
  microseconds. Rows with equal times come in any order, and in another one at the next query.
\<close>

type_synonym 'a ordering = "('a \<Rightarrow> instant) \<Rightarrow> 'a list \<Rightarrow> 'a list"

definition microseconds :: "instant \<Rightarrow> int" where
  "microseconds t = t div 10"

definition order_by_descending :: "'a ordering \<Rightarrow> bool" where
  "order_by_descending order \<longleftrightarrow> (\<forall>key rows. mset (order key rows) = mset rows \<and>
     sorted_wrt (\<lambda>x y. microseconds (key y) \<le> microseconds (key x)) (order key rows))"

definition page_items :: "'a ordering \<Rightarrow> ('a \<Rightarrow> instant) \<Rightarrow> PageRequest \<Rightarrow> 'a list \<Rightarrow> 'a list" where
  "page_items order key request rows = take (nat (PageSize request)) (drop (nat (Page_Skip request)) (order key rows))"

definition paged :: "'a ordering \<Rightarrow> (World \<Rightarrow> 'a list) \<Rightarrow> ('a \<Rightarrow> instant) \<Rightarrow> int \<Rightarrow> int \<Rightarrow> 'a PagedResult op" where
  "paged order rows key pageNumber pageSize =
     (let request = Normalize \<lparr>Page = pageNumber, PageSize = pageSize\<rparr> in
      pbind (query (\<lambda>w. int (length (rows w)))) (\<lambda>rowCount.
      pbind (query (\<lambda>w. page_items order key request (rows w))) (\<lambda>items.
        preturn \<lparr>pgItems = items, pgTotalCount = rowCount, pgPage = Page request, pgPageSize = PageSize request\<rparr>)))"

definition ListCases :: "CaseRow ordering \<Rightarrow> CaseStatus option \<Rightarrow> int \<Rightarrow> int \<Rightarrow> CaseRow PagedResult op" where
  "ListCases order status =
     paged order (\<lambda>w. case status of None \<Rightarrow> wCases w | Some s \<Rightarrow> filter (\<lambda>c. csStatus c = s) (wCases w)) csCreatedAt"

definition ListAudit :: "AuditRow ordering \<Rightarrow> int \<Rightarrow> int \<Rightarrow> AuditRow PagedResult op" where
  "ListAudit order = paged order wAudit audOccurredAt"

section \<open>Single rows\<close>

record CaseView =
  cvCase :: CaseRow
  cvTransaction :: "TransactionRow option"
  cvDecision :: "DecisionRow option"
  cvHistory :: "HistoryRow list"
  cvNotes :: "NoteRow list"

definition find_transaction :: "string \<Rightarrow> TransactionRow option op" where
  "find_transaction transactionId = query (\<lambda>w. find (\<lambda>t. txTransactionId (trnSnapshot t) = transactionId) (wTransactions w))"

definition find_decision :: "string \<Rightarrow> DecisionRow option op" where
  "find_decision transactionId = query (\<lambda>w. find (\<lambda>d. txTransactionId (dcnTransaction d) = transactionId) (wDecisions w))"

definition GetCase :: "guid \<Rightarrow> CaseView option op" where
  "GetCase caseId =
     pbind (query (\<lambda>w. find (\<lambda>c. csCaseId c = caseId) (wCases w))) (\<lambda>found.
       case found of None \<Rightarrow> preturn None
       | Some fraudCase \<Rightarrow>
           pbind (query (\<lambda>w. sort_key hstChangedAt (filter (\<lambda>h. hstCaseId h = caseId) (wHistory w)))) (\<lambda>history.
           pbind (query (\<lambda>w. sort_key ntCreatedAt (filter (\<lambda>n. ntCaseId n = caseId) (wNotes w)))) (\<lambda>notes.
           pbind (find_decision (csTransactionId fraudCase)) (\<lambda>decision.
           pbind (find_transaction (csTransactionId fraudCase)) (\<lambda>transaction.
             preturn (Some \<lparr>cvCase = fraudCase, cvTransaction = transaction, cvDecision = decision, cvHistory = history,
               cvNotes = notes\<rparr>))))))"

definition GetTransaction ::
    "string \<Rightarrow> (TransactionRow \<times> DecisionRow option \<times> TransactionRow list) option op" where
  "GetTransaction transactionId =
     pbind (find_transaction transactionId) (\<lambda>found.
       case found of None \<Rightarrow> preturn None
       | Some transaction \<Rightarrow>
           pbind (find_decision transactionId) (\<lambda>decision.
           pbind (query (\<lambda>w. take 50 (sort_key (\<lambda>t. - txTimestamp (trnSnapshot t))
               (filter (\<lambda>t. txAccountId (trnSnapshot t) = txAccountId (trnSnapshot transaction)) (wTransactions w))))) (\<lambda>history.
             preturn (Some (transaction, decision, history)))))"

definition GetProfile :: "string \<Rightarrow> (ProfileRow \<times> DeviceRow list) option op" where
  "GetProfile accountId =
     pbind (query (\<lambda>w. find (\<lambda>p. pflAccountId p = accountId) (wProfiles w))) (\<lambda>found.
       case found of None \<Rightarrow> preturn None
       | Some profile \<Rightarrow>
           pbind (query (\<lambda>w. filter (\<lambda>d. dvrCustomerId d = pflCustomerId profile) (wDevices w))) (\<lambda>devices.
             preturn (Some (profile, devices))))"

section \<open>Figures\<close>

definition round_even_to :: "nat \<Rightarrow> rat \<Rightarrow> rat" where
  "round_even_to n x = of_int (round_even (x * 10 ^ n)) / 10 ^ n"

definition Rate :: "int \<Rightarrow> int \<Rightarrow> rat" where
  "Rate n m = (if m = 0 then 0 else round_even_to 4 (of_int n / of_int m))"

record Summary =
  smProcessed :: int
  smApprovalRate :: rat
  smReviewRate :: rat
  smBlockRate :: rat
  smAverageRiskScore :: rat
  smCases :: int
  smConfirmedFraudRate :: rat
  smFalsePositiveRate :: rat
  smTopCountries :: "(string \<times> int) list"

definition risky_countries :: "World \<Rightarrow> string list" where
  "risky_countries w = concat (map (\<lambda>t. map (\<lambda>d. txCountry (trnSnapshot t))
     (filter (\<lambda>d. txTransactionId (dcnTransaction d) = txTransactionId (trnSnapshot t) \<and> 60 \<le> evlRiskScore (dcnEvaluation d)) (wDecisions w)))
     (wTransactions w))"

definition group_counts :: "string list \<Rightarrow> (string \<times> int) list" where
  "group_counts cs = map (\<lambda>c. (c, int (count_list cs c))) (rev (remdups (rev cs)))"

definition count_rows :: "(World \<Rightarrow> 'a list) \<Rightarrow> ('a \<Rightarrow> bool) \<Rightarrow> int op" where
  "count_rows rows P = query (\<lambda>w. int (length (filter P (rows w))))"

definition recent_decisions :: "instant \<Rightarrow> World \<Rightarrow> RiskEvaluation list" where
  "recent_decisions since w = map dcnEvaluation (filter (\<lambda>d. since \<le> dcnCreatedAt d) (wDecisions w))"

definition GetSummary :: "Summary op" where
  "GetSummary =
     pbind (pget wNow) (\<lambda>now.
     let decisions = recent_decisions (now - hours 24) in
     pbind (count_rows decisions (\<lambda>_. True)) (\<lambda>rowCount.
     pbind (count_rows decisions (\<lambda>e. evlDecision e = Approve)) (\<lambda>approved.
     pbind (count_rows decisions (\<lambda>e. evlDecision e = Review)) (\<lambda>review.
     pbind (count_rows decisions (\<lambda>e. evlDecision e = Block)) (\<lambda>blocked.
     pbind (if rowCount = 0 then preturn 0
            else query (\<lambda>w. of_int (sum_list (map evlRiskScore (decisions w))) / of_nat (length (decisions w)))) (\<lambda>avgScore.
     pbind (count_rows wCases (\<lambda>_. True)) (\<lambda>cases.
     pbind (count_rows wCases (\<lambda>c. csStatus c = ConfirmedFraud)) (\<lambda>confirmed.
     pbind (count_rows wCases (\<lambda>c. csStatus c = FalsePositive)) (\<lambda>falsePositives.
     pbind (query (\<lambda>w. take 8 (sort_key (\<lambda>(c, n). - n) (group_counts (risky_countries w))))) (\<lambda>countries.
       preturn \<lparr>smProcessed = rowCount, smApprovalRate = Rate approved rowCount, smReviewRate = Rate review rowCount,
         smBlockRate = Rate blocked rowCount, smAverageRiskScore = round_even_to 2 avgScore, smCases = cases,
         smConfirmedFraudRate = Rate confirmed cases, smFalsePositiveRate = Rate falsePositives cases,
         smTopCountries = countries\<rparr>))))))))))"

definition GetHealth :: "(int \<times> int \<times> string \<times> instant) op" where
  "GetHealth =
     pbind (count_rows wDecisions (\<lambda>_. True)) (\<lambda>decisions.
     pbind (count_rows wCases (\<lambda>c. csStatus c \<in> {Open, Assigned, Investigating})) (\<lambda>openCases.
     pbind (pget wNow) (\<lambda>now. preturn (decisions, openCases, InitialVersion, now))))"

section \<open>Pages tile the list\<close>

lemma chunks: "concat (map (\<lambda>i. take k (drop (i * k) xs)) [0..<n]) = take (n * k) xs"
  by (induction n) (simp_all add: take_add [symmetric] add.commute)

text \<open>With times that differ by the microsecond there is only one order.\<close>

lemma order_unique:
  assumes "order_by_descending order" and "distinct (map (\<lambda>x. microseconds (key x)) rows)"
  shows "order key rows = sort_key (\<lambda>x. - key x) rows"
proof -
  let ?o = "order key rows"
  have m: "mset ?o = mset rows" and s: "sorted_wrt (\<lambda>x y. microseconds (key y) \<le> microseconds (key x)) ?o"
    using assms(1) by (auto simp: order_by_descending_def)
  have less: "key y < key x" if "microseconds (key y) < microseconds (key x)" for x y
    using that zdiv_mono1 [of "key x" "key y" 10] by (force simp: microseconds_def)
  have d: "distinct (map (\<lambda>x. microseconds (key x)) ?o)"
    using assms(2) m by (metis mset_eq_imp_distinct_iff mset_map)
  have "sorted_wrt (\<lambda>x y. key y \<le> key x) ?o"
    unfolding sorted_wrt_iff_nth_less
  proof (intro allI impI)
    fix i j
    assume ij: "i < j" "j < length ?o"
    have "microseconds (key (?o ! j)) \<le> microseconds (key (?o ! i))" using s ij by (simp add: sorted_wrt_iff_nth_less)
    moreover have "microseconds (key (?o ! j)) \<noteq> microseconds (key (?o ! i))"
      using d ij nth_eq_iff_index_eq [of "map (\<lambda>x. microseconds (key x)) ?o" i j] by auto
    ultimately show "key (?o ! j) \<le> key (?o ! i)" using less [of "?o ! j" "?o ! i"] by simp
  qed
  then have "sorted (map (\<lambda>x. - key x) ?o)" by (simp add: sorted_wrt_map)
  moreover have "inj_on (\<lambda>x. - key x) (set rows)"
    using assms(2) by (auto simp: distinct_map inj_on_def)
  ultimately show ?thesis using m by (intro sort_key_inj_key_eq [symmetric]) simp_all
qed

lemma stable_order: "order_by_descending (\<lambda>key. sort_key (\<lambda>x. - key x))"
  unfolding order_by_descending_def
proof (intro allI conjI)
  fix key :: "'a \<Rightarrow> instant" and rows
  have "sorted (map (\<lambda>x. - key x) (sort_key (\<lambda>x. - key x) rows))" by simp
  then show "sorted_wrt (\<lambda>x y. microseconds (key y) \<le> microseconds (key x)) (sort_key (\<lambda>x. - key x) rows)"
    by (auto simp: sorted_wrt_map microseconds_def intro: zdiv_mono1 elim!: sorted_wrt_mono_rel [rotated])
qed simp

lemma page_items_at:
  assumes "1 \<le> p" and "p \<le> 2147483647" and "1 \<le> k" and "k \<le> 200" and "(p - 1) * k \<le> 2147483647"
  shows "page_items order key (Normalize \<lparr>Page = p, PageSize = k\<rparr>) rows =
    take (nat k) (drop (nat (p - 1) * nat k) (order key rows))"
proof -
  have n: "Normalize \<lparr>Page = p, PageSize = k\<rparr> = \<lparr>Page = p, PageSize = k\<rparr>" using assms by (simp add: Normalize_def)
  have "Page_Skip (Normalize \<lparr>Page = p, PageSize = k\<rparr>) = (p - 1) * k"
    using Skip_normalized [of "\<lparr>Page = p, PageSize = k\<rparr>"] assms by (simp add: n is_i32_iff)
  then show ?thesis using assms by (simp add: page_items_def n nat_mult_distrib)
qed

lemma paged_run:
  assumes "fault_free w"
  shows "paged order rows key p k w = (Inr \<lparr>pgItems = page_items order key (Normalize \<lparr>Page = p, PageSize = k\<rparr>) (rows w),
    pgTotalCount = int (length (rows w)), pgPage = Page (Normalize \<lparr>Page = p, PageSize = k\<rparr>),
    pgPageSize = PageSize (Normalize \<lparr>Page = p, PageSize = k\<rparr>)\<rparr>, w)"
  using assms by (simp add: paged_def Let_def pbind_def)

lemma pages_needed:
  assumes "1 \<le> k" and "n \<le> 2147483647"
  shows "int n \<le> TotalPages (int n) k * k" and "0 \<le> TotalPages (int n) k" and "(TotalPages (int n) k - 1) * k \<le> int n"
    and "TotalPages (int n) k \<le> int n"
proof -
  let ?c = "\<lceil>(of_int (int n) :: rat) / of_int k\<rceil>"
  have le: "(of_int (int n) :: rat) / of_int k \<le> of_int (int n)" using assms(1) by (simp add: divide_le_eq mult_le_cancel_left1)
  have c0: "0 \<le> ?c" using assms(1) by (simp add: less_le_trans [of "-1" 0])
  moreover have c: "?c \<le> int n" using le by (simp add: ceiling_le_iff)
  moreover from calculation have "wrap32 ?c = ?c" using assms(2) by (intro wrap32_small) linarith+
  ultimately have t: "TotalPages (int n) k = ?c" using assms(1) by (simp add: TotalPages_def)
  show "TotalPages (int n) k \<le> int n" using t c by simp
  show "0 \<le> TotalPages (int n) k" using t c0 by simp
  have "(of_int (int n) :: rat) = of_int (int n) / of_int k * of_int k" using assms(1) by simp
  also have "\<dots> \<le> of_int ?c * of_int k" using assms(1) by (intro mult_right_mono le_of_int_ceiling) simp
  finally have "(of_int (int n) :: rat) \<le> of_int ?c * of_int k" .
  then have "(of_int (int n) :: rat) \<le> of_int (?c * k)" by simp
  then show "int n \<le> TotalPages (int n) k * k" unfolding t by (simp only: of_int_le_iff)
  have "(of_int ?c - 1) * of_int k < (of_int (int n) / of_int k * of_int k :: rat)"
    using assms(1) by (intro mult_strict_right_mono) (linarith | simp)+
  then have "(of_int ?c - 1) * of_int k < (of_int (int n) :: rat)" using assms(1) by simp
  then have "(of_int ((?c - 1) * k) :: rat) < of_int (int n)" by simp
  then show "(TotalPages (int n) k - 1) * k \<le> int n" unfolding t by (simp only: of_int_less_iff)
qed

lemma paged_tiles:
  assumes w: "fault_free w" and k: "1 \<le> k" "k \<le> 200" and n: "length (rows w) \<le> 2147483647"
    and order: "\<And>p. order_by_descending (order p)" and times: "distinct (map (\<lambda>x. microseconds (key x)) (rows w))"
  shows "concat (map (\<lambda>p. case fst (paged (order p) rows key (int p + 1) k w) of Inr r \<Rightarrow> pgItems r | Inl _ \<Rightarrow> [])
      [0..<nat (TotalPages (int (length (rows w))) k)]) = sort_key (\<lambda>x. - key x) (rows w)"
proof -
  let ?t = "TotalPages (int (length (rows w))) k"
  note b = pages_needed [OF k(1) n]
  have at: "page_items (order p) key (Normalize \<lparr>Page = int p + 1, PageSize = k\<rparr>) (rows w) =
      take (nat k) (drop (p * nat k) (sort_key (\<lambda>x. - key x) (rows w)))" if p: "p < nat ?t" for p
  proof -
    have "int p \<le> ?t - 1" using p by linarith
    then have "int p * k \<le> (?t - 1) * k" using k(1) by (intro mult_right_mono) simp_all
    then have le: "int p * k \<le> 2147483647" using b(3) n by linarith
    have "int p + 1 \<le> 2147483647" using p b(4) n by linarith
    then show ?thesis using page_items_at [of "int p + 1" k "order p" key "rows w"] k le order_unique [OF order times] by simp
  qed
  have "concat (map (\<lambda>p. case fst (paged (order p) rows key (int p + 1) k w) of Inr r \<Rightarrow> pgItems r | Inl _ \<Rightarrow> []) [0..<nat ?t]) =
      concat (map (\<lambda>p. take (nat k) (drop (p * nat k) (sort_key (\<lambda>x. - key x) (rows w)))) [0..<nat ?t])"
    using at by (intro arg_cong [of _ _ concat] map_cong) (simp_all add: paged_run [OF w])
  also have "\<dots> = take (nat ?t * nat k) (sort_key (\<lambda>x. - key x) (rows w))" by (rule chunks)
  also have "\<dots> = sort_key (\<lambda>x. - key x) (rows w)"
  proof -
    have "nat ?t * nat k = nat (?t * k)" using b(2) by (simp add: nat_mult_distrib)
    then show ?thesis using b(1) by simp
  qed
  finally show ?thesis .
qed

text \<open>
  C19: The pages of a list are the list, as long as no two rows have the same time. Each page is a query of its own, whose order of
  rows with equal times is free; when all times differ by the microsecond, the pages from the first to the last that
  \<open>TotalPages\<close> announces, one after the other, are all rows, the newest first, none skipped and none shown twice.\<close>

theorem pages_tile_lists:
  assumes "fault_free w" and "1 \<le> k" and "k \<le> 200" and "length (wAudit w) \<le> 2147483647" and "length (wCases w) \<le> 2147483647"
    and "\<And>p. order_by_descending (auditOrder p)" and "\<And>p. order_by_descending (caseOrder p)"
    and "distinct (map (\<lambda>x. microseconds (audOccurredAt x)) (wAudit w))" and "distinct (map (\<lambda>x. microseconds (csCreatedAt x)) (wCases w))"
  shows "concat (map (\<lambda>p. case fst (ListAudit (auditOrder p) (int p + 1) k w) of Inr r \<Rightarrow> pgItems r | Inl _ \<Rightarrow> [])
      [0..<nat (TotalPages (int (length (wAudit w))) k)]) = sort_key (\<lambda>x. - audOccurredAt x) (wAudit w) \<and>
    concat (map (\<lambda>p. case fst (ListCases (caseOrder p) None (int p + 1) k w) of Inr r \<Rightarrow> pgItems r | Inl _ \<Rightarrow> [])
      [0..<nat (TotalPages (int (length (wCases w))) k)]) = sort_key (\<lambda>x. - csCreatedAt x) (wCases w)"
  using paged_tiles [where rows = wAudit and key = audOccurredAt and order = auditOrder, OF assms(1-4,6,8)]
    paged_tiles [where rows = wCases and key = csCreatedAt and order = caseOrder, OF assms(1-3,5,7,9)]
  by (simp_all add: ListAudit_def ListCases_def)

text \<open>
  With equal times they need not be: two orders the database may choose for two rows of the same time, and pages of one row, show
  one row twice and the other never.\<close>

lemma equal_times_repeat:
  assumes "fault_free w" and "wAudit w = [x, y]" and "audOccurredAt x = audOccurredAt y"
  shows "\<exists>first second. order_by_descending first \<and> order_by_descending second \<and>
    map_sum id pgItems (fst (ListAudit first 1 1 w)) = Inr [x] \<and> map_sum id pgItems (fst (ListAudit second 2 1 w)) = Inr [x]"
proof -
  let ?first = "\<lambda>key. sort_key (\<lambda>r. - key r)"
  let ?second = "\<lambda>key rows. sort_key (\<lambda>r. - key r) (rev rows)"
  have "order_by_descending ?second"
    using stable_order unfolding order_by_descending_def by (metis mset_rev)
  moreover have "map_sum id pgItems (fst (ListAudit ?first 1 1 w)) = Inr [x]" "map_sum id pgItems (fst (ListAudit ?second 2 1 w)) = Inr [x]"
    using assms by (simp_all add: ListAudit_def paged_run page_items_def Normalize_def Page_Skip_def wrap32_def)
  ultimately show ?thesis using stable_order by blast
qed

text \<open>A page number at the end of \<open>int\<close> overflows the offset, and shows the first page again.\<close>

lemma page_overflow_shows_first:
  assumes "fault_free w"
  shows "map_sum id pgItems (fst (ListAudit order 2147483647 200 w)) = map_sum id pgItems (fst (ListAudit order 1 200 w))"
proof -
  have "wrap32 (wrap32 2147483646 * 200) = -400" "wrap32 (wrap32 0 * 200) = 0" by (simp_all add: wrap32_def)
  then show ?thesis by (simp add: ListAudit_def paged_run [OF assms] page_items_def Normalize_def Page_Skip_def)
qed

section \<open>A decision is read as it was stored\<close>

text \<open>
  A decision that is saved for a new transaction whose amount fits its column is found again by the transaction, equal but for the time of the evaluation,
  which is read as the time of the decision.\<close>

theorem decision_roundtrip:
  assumes "fault_free w" and "txTransactionId (dcnTransaction d) \<notin> set (decision_ids w)"
    and "fits_numeric_18_2 (mAmount (txAmount (dcnTransaction d)))"
  shows "\<exists>w'. SaveAsync d w = (Inr (), w') \<and> GetByTransactionIdAsync (txTransactionId (dcnTransaction d)) w' =
    (Inr (Some (d\<lparr>dcnEvaluation := (dcnEvaluation d)\<lparr>evlEvaluatedAt := dcnCreatedAt d\<rparr>\<rparr>)), w')"
proof -
  let ?tid = "txTransactionId (dcnTransaction d)"
  obtain ts where s: "SaveAsync d w = (Inr (), w\<lparr>wTransactions := ts, wDecisions := wDecisions w @ [d]\<rparr>)" using Save_run [OF assms] by blast
  have "find (\<lambda>x. txTransactionId (dcnTransaction x) = ?tid) (xs @ [d]) = Some d"
    if "?tid \<notin> set (map (\<lambda>x. txTransactionId (dcnTransaction x)) xs)" for xs using that by (induction xs) auto
  then have "find (\<lambda>x. txTransactionId (dcnTransaction x) = ?tid) (wDecisions w @ [d]) = Some d"
    using assms(2) by (simp add: decision_ids_def)
  moreover have "fault_free (w\<lparr>wTransactions := ts, wDecisions := wDecisions w @ [d]\<rparr>)" using assms(1) by (simp add: fault_free_def)
  ultimately show ?thesis using s by (simp add: GetByTransactionIdAsync_def pbind_def)
qed

text \<open>A provider that has read the rules goes on with them for fifteen seconds, whatever is activated meanwhile; a new one, or one that was invalidated,
  reads the database.\<close>

lemma rules_cached:
  assumes "GetActiveAsync w = (Inr r, w)" and "wNow v < wNow w + seconds 15"
  shows "GetActiveCached new_RuleProvider w = (Inr (r, \<lparr>rprCache = Some r, rprCacheUntil = wNow w + seconds 15\<rparr>), w)"
    and "GetActiveCached \<lparr>rprCache = Some r, rprCacheUntil = wNow w + seconds 15\<rparr> v =
      (Inr (r, \<lparr>rprCache = Some r, rprCacheUntil = wNow w + seconds 15\<rparr>), v)"
    and "GetActiveCached (Invalidate p) w = GetActiveCached new_RuleProvider w"
  using assms by (simp_all add: GetActiveCached_def new_RuleProvider_def Invalidate_def pbind_def)

section \<open>The rates of the dashboard\<close>

lemma round_even_error: "\<bar>of_int (round_even x) - x\<bar> \<le> 1 / 2"
proof -
  have "of_int \<lfloor>x\<rfloor> \<le> x" "x < of_int \<lfloor>x\<rfloor> + 1" by linarith+
  then show ?thesis by (simp add: round_even_def Let_def)
qed

lemma Rate_error: "m \<noteq> 0 \<Longrightarrow> \<bar>Rate n m - of_int n / of_int m\<bar> \<le> 1 / 20000"
proof -
  assume "m \<noteq> 0"
  define x where "x = (of_int n / of_int m :: rat)"
  have "Rate n m - x = (of_int (round_even (x * 10000)) - x * 10000) / 10000"
    using \<open>m \<noteq> 0\<close> by (simp add: Rate_def round_even_to_def x_def field_simps)
  then have "\<bar>Rate n m - x\<bar> = \<bar>of_int (round_even (x * 10000)) - x * 10000\<bar> / 10000" by (simp only: abs_divide abs_numeral)
  also have "\<dots> \<le> (1 / 2) / 10000" by (intro divide_right_mono round_even_error) simp
  finally show ?thesis by (simp add: x_def)
qed

lemma round_even_bounds:
  assumes "0 \<le> x" and "x \<le> of_int k"
  shows "0 \<le> round_even x \<and> round_even x \<le> k"
proof -
  have f: "0 \<le> \<lfloor>x\<rfloor>" "\<lfloor>x\<rfloor> \<le> k" using assms by (simp_all add: floor_le_iff)
  show ?thesis
  proof (cases "\<lfloor>x\<rfloor> = k")
    case True
    then have "x = of_int \<lfloor>x\<rfloor>" using assms(2) of_int_floor_le [of x] by simp
    then have "x - of_int \<lfloor>x\<rfloor> < 1 / 2" by simp
    then show ?thesis using f by (simp add: round_even_def Let_def)
  qed (use f in \<open>auto simp: round_even_def Let_def\<close>)
qed

lemma Rate_bounds: "0 \<le> n \<Longrightarrow> n \<le> m \<Longrightarrow> 0 \<le> Rate n m \<and> Rate n m \<le> 1"
proof (cases "m = 0")
  case False
  assume n: "0 \<le> n" "n \<le> m"
  define y where "y = (of_int n / of_int m :: rat)"
  have "0 \<le> y" "y \<le> 1" using n False by (simp_all add: y_def divide_le_eq)
  then have b: "0 \<le> round_even (y * 10000) \<and> round_even (y * 10000) \<le> 10000" using round_even_bounds [of "y * 10000" 10000] by simp
  then have "(of_int (round_even (y * 10000)) :: rat) \<le> of_int 10000" by (simp only: of_int_le_iff)
  then show ?thesis using b False by (simp add: Rate_def round_even_to_def y_def)
qed (simp add: Rate_def)

lemma count_rows_run [simp]: "fault_free w \<Longrightarrow> count_rows rows P w = (Inr (int (length (filter P (rows w)))), w)"
  by (simp add: count_rows_def)

lemma decisions_split:
  "length (filter (\<lambda>e. evlDecision e = Approve) es) + length (filter (\<lambda>e. evlDecision e = Review) es) +
   length (filter (\<lambda>e. evlDecision e = Block) es) = length es"
proof (induction es)
  case (Cons e es)
  then show ?case by (cases "evlDecision e") simp_all
qed simp

text \<open>
  C20: The dashboard's rates are rates. Without faults and with a decision in the last day, the three rates lie between 0 and 1 and add up
  to 1 but for the rounding of the fourth decimal, and so do the two rates of cases.\<close>

theorem summary_rates:
  assumes "fault_free w" and "recent_decisions (wNow w - hours 24) w \<noteq> []"
  shows "\<exists>s. GetSummary w = (Inr s, w) \<and> smProcessed s = int (length (recent_decisions (wNow w - hours 24) w)) \<and>
    \<bar>smApprovalRate s + smReviewRate s + smBlockRate s - 1\<bar> \<le> 3 / 20000 \<and>
    (\<forall>r \<in> {smApprovalRate s, smReviewRate s, smBlockRate s, smConfirmedFraudRate s, smFalsePositiveRate s}. 0 \<le> r \<and> r \<le> 1) \<and>
    length (smTopCountries s) \<le> 8"
proof -
  let ?es = "recent_decisions (wNow w - hours 24) w"
  define n where "n = int (length ?es)"
  define part where "part = (\<lambda>d. int (length (filter (\<lambda>e. evlDecision e = d) ?es)))"
  define cs where "cs = (\<lambda>s. int (length (filter (\<lambda>c. csStatus c = s) (wCases w))))"
  have n: "n \<noteq> 0" using assms(2) by (simp add: n_def)
  have parts: "part Approve + part Review + part Block = n" using decisions_split [of ?es] unfolding part_def n_def by linarith
  have le: "0 \<le> part d" "part d \<le> n" "0 \<le> cs s" "cs s \<le> int (length (wCases w))" for d s
    by (simp_all add: part_def n_def cs_def)
  obtain s where s: "GetSummary w = (Inr s, w)" "smProcessed s = n" "smApprovalRate s = Rate (part Approve) n"
    "smReviewRate s = Rate (part Review) n" "smBlockRate s = Rate (part Block) n"
    "smConfirmedFraudRate s = Rate (cs ConfirmedFraud) (int (length (wCases w)))"
    "smFalsePositiveRate s = Rate (cs FalsePositive) (int (length (wCases w)))" "length (smTopCountries s) \<le> 8"
    using assms by (simp add: GetSummary_def Let_def pbind_def n_def part_def cs_def)
  have "(of_int (part Approve) / of_int n + of_int (part Review) / of_int n + of_int (part Block) / of_int n :: rat) = 1"
    using n parts by (simp add: add_divide_distrib [symmetric] flip: of_int_add)
  then have "\<bar>Rate (part Approve) n + Rate (part Review) n + Rate (part Block) n - 1\<bar> \<le> 3 / 20000"
    using Rate_error [OF n, of "part Approve"] Rate_error [OF n, of "part Review"] Rate_error [OF n, of "part Block"] by linarith
  then show ?thesis using s Rate_bounds le by (auto simp: n_def)
qed

section \<open>Examples\<close>

definition audit_row :: "nat \<Rightarrow> AuditRow" where
  "audit_row i = \<lparr>audActor = ''rita'', audAction = ''ruleset.activate'', audEntityType = ''ruleset'', audEntityId = ''two'',
     audDetails = two_rules ''two'', audOccurredAt = seconds (int i)\<rparr>"

definition decided_world :: World where
  "decided_world = empty_world\<lparr>wAudit := map audit_row [0..<3], wDecisions := [\<lparr>dcnId = 1, dcnTransaction = example_snapshot,
     dcnEvaluation = evaluation [] 0 (Model_None []) 5 Decide example_context, dcnCorrelationId = [], dcnCreatedAt = hours 3,
     dcnProfileSnapshot = example_profile\<rparr>]\<rparr>"

lemma decided_free: "fault_free decided_world" "wCases decided_world = []" "wAudit decided_world = map audit_row [0..<3]"
  by (simp_all add: decided_world_def empty_world_def fault_free_def)

lemma pages_tile_lists_witness:
  "concat (map (\<lambda>p. case fst (ListAudit (\<lambda>key. sort_key (\<lambda>x. - key x)) (int p + 1) 2 decided_world) of Inr r \<Rightarrow> pgItems r | Inl _ \<Rightarrow> [])
     [0..<nat (TotalPages 3 2)]) = [audit_row 2, audit_row 1, audit_row 0]"
proof -
  have "sort_key (\<lambda>x. - audOccurredAt x) (map audit_row [0..<3]) = [audit_row 2, audit_row 1, audit_row 0]"
    by (simp add: upt_rec audit_row_def seconds_def)
  moreover have "distinct (map (\<lambda>x. microseconds (audOccurredAt x)) (map audit_row [0..<3]))"
    by (simp add: upt_rec audit_row_def seconds_def microseconds_def)
  ultimately show ?thesis
    using pages_tile_lists [OF decided_free(1) _ _ _ _ stable_order stable_order, of 2] decided_free(2,3) by simp
qed

lemma decision_roundtrip_witness:
  "\<exists>w'. SaveAsync (hd (wDecisions decided_world)) empty_world = (Inr (), w') \<and>
     (case fst (GetByTransactionIdAsync ''T1'' w') of Inr (Some d) \<Rightarrow> evlEvaluatedAt (dcnEvaluation d) = hours 3 | _ \<Rightarrow> False)"
proof -
  have "fault_free empty_world" "decision_ids empty_world = []" by (simp_all add: empty_world_def fault_free_def decision_ids_def)
  moreover have "txTransactionId (dcnTransaction (hd (wDecisions decided_world))) = ''T1''" "dcnCreatedAt (hd (wDecisions decided_world)) = hours 3"
    by (simp_all add: decided_world_def example_snapshot_def snapshot_of_def example_message_def the_string_def Trim_def is_white_def)
  moreover have "fits_numeric_18_2 (mAmount (txAmount (dcnTransaction (hd (wDecisions decided_world)))))"
    using example_fits by (simp add: decided_world_def)
  ultimately show ?thesis using decision_roundtrip [of empty_world "hd (wDecisions decided_world)"] by auto
qed

lemma summary_rates_witness:
  "\<exists>s. GetSummary decided_world = (Inr s, decided_world) \<and> smProcessed s = 1 \<and> smApprovalRate s \<le> 1"
proof -
  have "length (recent_decisions (wNow decided_world - hours 24) decided_world) = 1"
    by (simp add: recent_decisions_def decided_world_def empty_world_def hours_def ticks_per_hour_def)
  then show ?thesis using summary_rates [OF decided_free(1)] by fastforce
qed

end
