(* ===== verification/JsBase.thy ===== *)
theory JsBase
  imports Complex_Main Sentinel_Prelude "HOL-Library.AList"
begin

text \<open>
  The browser as the scripts of the front end use it. A page is a tree of nodes (tag, parent,
  children, class list, attributes, inline style); the state of a script's world is the page
  with the focused element, the log of the events dispatched so far, the registered listeners
  and the callbacks that wait for the end of a CSS transition. What the rendering engine and
  the page's own listeners decide (layout, computed style, results of selectors the user
  wrote, \<open>preventDefault\<close>) is a record of functions of the page, the \<open>browser\<close>; a theorem
  holds for every such record. Numbers are exact: the rounding of IEEE doubles is not modelled,
  and \<open>NaN\<close> is a value of its own where the code can meet it.
\<close>

section \<open>Values of the language\<close>

type_synonym node = nat

datatype jsval =
    JUndef
  | JNull
  | JBool bool
  | JNum real
  | JNaN
  | JStr string
  | JNode node
  | JFun string
  | JArr "jsval list"
  | JObj "(string \<times> jsval) list"

definition truthy :: "jsval \<Rightarrow> bool" where
  "truthy v = (case v of
      JUndef \<Rightarrow> False | JNull \<Rightarrow> False | JBool b \<Rightarrow> b | JNum x \<Rightarrow> x \<noteq> 0 | JNaN \<Rightarrow> False
    | JStr s \<Rightarrow> s \<noteq> [] | _ \<Rightarrow> True)"

text \<open>Strings of the standard library: decimal integers, numbers, \<open>parseInt\<close>, \<open>parseFloat\<close>,
  \<open>includes\<close>, \<open>startsWith\<close>, \<open>split\<close> and \<open>trim\<close>.\<close>

fun digits_rev :: "nat \<Rightarrow> nat \<Rightarrow> string" where
  "digits_rev 0 n = []"
| "digits_rev (Suc k) n =
    char_of (48 + n mod 10) # (if n < 10 then [] else digits_rev k (n div 10))"

definition natStr :: "nat \<Rightarrow> string" where
  "natStr n = rev (digits_rev (Suc n) n)"

definition intStr :: "int \<Rightarrow> string" where
  "intStr i = (if i < 0 then ''-'' @ natStr (nat (- i)) else natStr (nat i))"

fun fracDigits :: "nat \<Rightarrow> real \<Rightarrow> string" where
  "fracDigits 0 x = []"
| "fracDigits (Suc k) x = (if x = 0 then [] else
    char_of (48 + nat \<lfloor>10 * x\<rfloor>) # fracDigits k (10 * x - of_int \<lfloor>10 * x\<rfloor>))"

definition numStr :: "real \<Rightarrow> string" where
  "numStr x = (let a = \<bar>x\<bar>; s = (if x < 0 then ''-'' else '''') in
    if a = of_int \<lfloor>a\<rfloor> then s @ natStr (nat \<lfloor>a\<rfloor>)
    else s @ natStr (nat \<lfloor>a\<rfloor>) @ ''.'' @ fracDigits 17 (a - of_int \<lfloor>a\<rfloor>))"

definition is_digit :: "char \<Rightarrow> bool" where
  "is_digit c = (48 \<le> (of_char c :: nat) \<and> (of_char c :: nat) \<le> 57)"

definition digit_val :: "char \<Rightarrow> nat" where
  "digit_val c = of_char c - 48"

definition digitsVal :: "string \<Rightarrow> nat" where
  "digitsVal ds = foldl (\<lambda>a c. 10 * a + digit_val c) 0 ds"

definition trimLeft :: "string \<Rightarrow> string" where
  "trimLeft s = dropWhile is_white s"

definition signSplit :: "string \<Rightarrow> real \<times> string" where
  "signSplit s = (case s of
      c # cs \<Rightarrow> if c = CHR ''-'' then (-1, cs) else if c = CHR ''+'' then (1, cs) else (1, s)
    | [] \<Rightarrow> (1, s))"

definition parseInt10 :: "string \<Rightarrow> jsval" where
  "parseInt10 s = (let (sg, r) = signSplit (trimLeft s); ds = takeWhile is_digit r in
    if ds = [] then JNaN else JNum (sg * of_nat (digitsVal ds)))"

definition parseFloat :: "string \<Rightarrow> jsval" where
  "parseFloat s = (let (sg, r) = signSplit (trimLeft s);
      ds = takeWhile is_digit r; r' = dropWhile is_digit r;
      fs = (case r' of c # cs \<Rightarrow> if c = CHR ''.'' then takeWhile is_digit cs else [] | [] \<Rightarrow> [])
    in if ds = [] \<and> fs = [] then JNaN
       else JNum (sg * (of_nat (digitsVal ds) + of_nat (digitsVal fs) / 10 ^ length fs)))"

fun startsWith :: "string \<Rightarrow> string \<Rightarrow> bool" where
  "startsWith s [] = True"
| "startsWith [] (p # ps) = False"
| "startsWith (c # cs) (p # ps) = (c = p \<and> startsWith cs ps)"

fun includes_str :: "string \<Rightarrow> string \<Rightarrow> bool" where
  "includes_str [] p = (p = [])"
| "includes_str (c # cs) p = (startsWith (c # cs) p \<or> includes_str cs p)"

fun splitOn :: "char \<Rightarrow> string \<Rightarrow> string list" where
  "splitOn d [] = [[]]"
| "splitOn d (c # cs) = (if c = d then [] # splitOn d cs
    else (case splitOn d cs of w # ws \<Rightarrow> (c # w) # ws | [] \<Rightarrow> [[c]]))"

fun joinWith :: "string \<Rightarrow> string list \<Rightarrow> string" where
  "joinWith d [] = []"
| "joinWith d [w] = w"
| "joinWith d (w # v # ws) = w @ d @ joinWith d (v # ws)"

section \<open>The page\<close>

record dom_node =
  tagName :: string
  parentNode :: "node option"
  childNodes :: "node list"
  classList :: "string list"
  attrs :: "(string \<times> string) list"
  inlineStyle :: "string \<Rightarrow> string"

type_synonym page = "node \<Rightarrow> dom_node"

type_synonym event = "node \<times> string"

text \<open>The nodes every page has; listeners on the window are listeners of a fourth one.\<close>

definition documentElement :: node where "documentElement = 0"
definition document_body :: node where "document_body = 1"
definition document_node :: node where "document_node = 2"
definition window_node :: node where "window_node = 3"

record browser =
  prevents :: "event list \<Rightarrow> event \<Rightarrow> bool"
  querySelectorAll :: "page \<Rightarrow> node \<Rightarrow> string \<Rightarrow> node list"
  interfaceName :: "string \<Rightarrow> string"
  cssEscape :: "string \<Rightarrow> string"
  hasClientRects :: "page \<Rightarrow> node \<Rightarrow> bool"
  computedStyle :: "page \<Rightarrow> node \<Rightarrow> string \<Rightarrow> string"
  clientWidth :: "page \<Rightarrow> node \<Rightarrow> real"
  clientHeight :: "page \<Rightarrow> node \<Rightarrow> real"
  scrollHeight :: "page \<Rightarrow> node \<Rightarrow> real"
  scrollWidth :: "page \<Rightarrow> node \<Rightarrow> real"
  rectSize :: "page \<Rightarrow> node \<Rightarrow> string \<Rightarrow> real"
  innerWidth :: real
  hasTouchStart :: bool
  maxTouchPoints :: nat
  hasPointerEvent :: bool
  documentHidden :: bool
  canFocus :: "page \<Rightarrow> node \<Rightarrow> bool"

record 'cb world =
  page :: page
  nodeCount :: nat
  activeElement :: "node option"
  eventLog :: "event list"
  listeners :: "event list"
  transitions :: "(node \<times> 'cb) list"
  env :: browser

definition upd_node :: "node \<Rightarrow> (dom_node \<Rightarrow> dom_node) \<Rightarrow> 'cb world \<Rightarrow> 'cb world" where
  "upd_node n f w = w\<lparr>page := (page w)(n := f (page w n))\<rparr>"

subsection \<open>Classes, attributes and inline style\<close>

definition has_class :: "'cb world \<Rightarrow> node \<Rightarrow> string \<Rightarrow> bool" where
  "has_class w n c = (c \<in> set (classList (page w n)))"

definition add_class :: "string \<Rightarrow> node \<Rightarrow> 'cb world \<Rightarrow> 'cb world" where
  "add_class c n = upd_node n (\<lambda>d. d\<lparr>classList := List.insert c (classList d)\<rparr>)"

definition remove_class :: "string \<Rightarrow> node \<Rightarrow> 'cb world \<Rightarrow> 'cb world" where
  "remove_class c n = upd_node n (\<lambda>d. d\<lparr>classList := removeAll c (classList d)\<rparr>)"

definition toggle_class :: "string \<Rightarrow> bool \<Rightarrow> node \<Rightarrow> 'cb world \<Rightarrow> 'cb world" where
  "toggle_class c b n = (if b then add_class c n else remove_class c n)"

definition get_attr :: "'cb world \<Rightarrow> node \<Rightarrow> string \<Rightarrow> string option" where
  "get_attr w n a = map_of (attrs (page w n)) a"

definition has_attr :: "'cb world \<Rightarrow> node \<Rightarrow> string \<Rightarrow> bool" where
  "has_attr w n a = (get_attr w n a \<noteq> None)"

definition set_attr :: "string \<Rightarrow> string \<Rightarrow> node \<Rightarrow> 'cb world \<Rightarrow> 'cb world" where
  "set_attr a v n = upd_node n (\<lambda>d. d\<lparr>attrs := AList.update a v (attrs d)\<rparr>)"

definition remove_attr :: "string \<Rightarrow> node \<Rightarrow> 'cb world \<Rightarrow> 'cb world" where
  "remove_attr a n = upd_node n (\<lambda>d. d\<lparr>attrs := AList.delete a (attrs d)\<rparr>)"

definition get_style :: "'cb world \<Rightarrow> node \<Rightarrow> string \<Rightarrow> string" where
  "get_style w n p = inlineStyle (page w n) p"

definition set_style :: "string \<Rightarrow> string \<Rightarrow> node \<Rightarrow> 'cb world \<Rightarrow> 'cb world" where
  "set_style p v n = upd_node n (\<lambda>d. d\<lparr>inlineStyle := (inlineStyle d)(p := v)\<rparr>)"

definition boolStr :: "bool \<Rightarrow> string" where
  "boolStr b = (if b then ''true'' else ''false'')"

subsection \<open>The tree\<close>

fun subtree :: "nat \<Rightarrow> page \<Rightarrow> node \<Rightarrow> node list" where
  "subtree 0 p n = [n]"
| "subtree (Suc k) p n = n # concat (map (subtree k p) (childNodes (p n)))"

definition descendants :: "'cb world \<Rightarrow> node \<Rightarrow> node list" where
  "descendants w n = tl (subtree (nodeCount w) (page w) n)"

fun ancestry :: "nat \<Rightarrow> page \<Rightarrow> node \<Rightarrow> node list" where
  "ancestry 0 p n = [n]"
| "ancestry (Suc k) p n =
    n # (case parentNode (p n) of None \<Rightarrow> [] | Some m \<Rightarrow> ancestry k p m)"

definition inclusive_ancestors :: "'cb world \<Rightarrow> node \<Rightarrow> node list" where
  "inclusive_ancestors w n = ancestry (nodeCount w) (page w) n"

definition closest :: "(node \<Rightarrow> bool) \<Rightarrow> 'cb world \<Rightarrow> node \<Rightarrow> node option" where
  "closest P w n = List.find P (inclusive_ancestors w n)"

definition node_contains :: "'cb world \<Rightarrow> node \<Rightarrow> node \<Rightarrow> bool" where
  "node_contains w a n = (a \<in> set (inclusive_ancestors w n))"

definition query_all :: "(node \<Rightarrow> bool) \<Rightarrow> 'cb world \<Rightarrow> node \<Rightarrow> node list" where
  "query_all P w n = filter P (descendants w n)"

definition query_one :: "(node \<Rightarrow> bool) \<Rightarrow> 'cb world \<Rightarrow> node \<Rightarrow> node option" where
  "query_one P w n = List.find P (descendants w n)"

definition remove_node :: "node \<Rightarrow> 'cb world \<Rightarrow> 'cb world" where
  "remove_node n w = (case parentNode (page w n) of
      None \<Rightarrow> w
    | Some m \<Rightarrow> upd_node n (\<lambda>d. d\<lparr>parentNode := None\<rparr>)
        (upd_node m (\<lambda>d. d\<lparr>childNodes := removeAll n (childNodes d)\<rparr>) w))"

definition append_node :: "node \<Rightarrow> node \<Rightarrow> 'cb world \<Rightarrow> 'cb world" where
  "append_node n m w = upd_node n (\<lambda>d. d\<lparr>parentNode := Some m\<rparr>)
    (upd_node m (\<lambda>d. d\<lparr>childNodes := childNodes d @ [n]\<rparr>) (remove_node n w))"

definition create_element :: "string \<Rightarrow> 'cb world \<Rightarrow> node \<times> 'cb world" where
  "create_element tag w = (nodeCount w, w\<lparr>nodeCount := Suc (nodeCount w),
    page := (page w)(nodeCount w := \<lparr>tagName = tag, parentNode = None, childNodes = [],
      classList = [], attrs = [], inlineStyle = (\<lambda>_. [])\<rparr>)\<rparr>)"

subsection \<open>Focus, events, listeners and transitions\<close>

text \<open>\<open>focus()\<close> does nothing on an element that cannot be focused, which is for the browser to say.\<close>

definition focus_on :: "node \<Rightarrow> 'cb world \<Rightarrow> 'cb world" where
  "focus_on n w = (if canFocus (env w) (page w) n then w\<lparr>activeElement := Some n\<rparr> else w)"

definition blur :: "node \<Rightarrow> 'cb world \<Rightarrow> 'cb world" where
  "blur n w = (if activeElement w = Some n then w\<lparr>activeElement := Some document_body\<rparr> else w)"

definition listen :: "node \<Rightarrow> string \<Rightarrow> 'cb world \<Rightarrow> 'cb world" where
  "listen n e w = w\<lparr>listeners := listeners w @ [(n, e)]\<rparr>"

text \<open>\<open>EventHandler.off\<close> with a name space, as the components call it: every listener of the
  node whose name ends in it.\<close>

definition unlisten_ns :: "node \<Rightarrow> string \<Rightarrow> 'cb world \<Rightarrow> 'cb world" where
  "unlisten_ns n ns w =
    w\<lparr>listeners := filter (\<lambda>(m, e). \<not> (m = n \<and> includes_str e ns)) (listeners w)\<rparr>"

definition unlisten :: "node \<Rightarrow> string \<Rightarrow> 'cb world \<Rightarrow> 'cb world" where
  "unlisten n e w = w\<lparr>listeners := removeAll (n, e) (listeners w)\<rparr>"

section \<open>What the operations change\<close>

lemma upd_node_page: "page (upd_node n f w) = (page w)(n := f (page w n))"
  by (simp add: upd_node_def)

lemma upd_node_rest [simp]:
  "nodeCount (upd_node n f w) = nodeCount w" "activeElement (upd_node n f w) = activeElement w"
  "eventLog (upd_node n f w) = eventLog w" "listeners (upd_node n f w) = listeners w"
  "transitions (upd_node n f w) = transitions w" "env (upd_node n f w) = env w"
  by (simp_all add: upd_node_def)

lemmas dom_op_defs = add_class_def remove_class_def toggle_class_def set_attr_def remove_attr_def
  set_style_def focus_on_def blur_def listen_def unlisten_ns_def unlisten_def

lemmas dom_obs_defs = has_class_def get_attr_def has_attr_def get_style_def

lemma class_ops [simp]:
  "has_class (add_class c n w) m d \<longleftrightarrow> (m = n \<and> d = c) \<or> has_class w m d"
  "has_class (remove_class c n w) m d \<longleftrightarrow> \<not> (m = n \<and> d = c) \<and> has_class w m d"
  "has_class (toggle_class c b n w) m d \<longleftrightarrow> (if m = n \<and> d = c then b else has_class w m d)"
  "has_class (set_attr a v n w) m d \<longleftrightarrow> has_class w m d"
  "has_class (remove_attr a n w) m d \<longleftrightarrow> has_class w m d"
  "has_class (set_style p s n w) m d \<longleftrightarrow> has_class w m d"
  "has_class (focus_on n w) m d \<longleftrightarrow> has_class w m d"
  "has_class (blur n w) m d \<longleftrightarrow> has_class w m d"
  "has_class (listen n e w) m d \<longleftrightarrow> has_class w m d"
  "has_class (unlisten_ns n e w) m d \<longleftrightarrow> has_class w m d"
  "has_class (unlisten n e w) m d \<longleftrightarrow> has_class w m d"
  by (auto simp: dom_op_defs has_class_def upd_node_page)

lemma attr_ops [simp]:
  "get_attr (add_class c n w) m b = get_attr w m b"
  "get_attr (remove_class c n w) m b = get_attr w m b"
  "get_attr (toggle_class c x n w) m b = get_attr w m b"
  "get_attr (set_attr a v n w) m b = (if m = n \<and> b = a then Some v else get_attr w m b)"
  "get_attr (remove_attr a n w) m b = (if m = n \<and> b = a then None else get_attr w m b)"
  "get_attr (set_style p s n w) m b = get_attr w m b"
  "get_attr (focus_on n w) m b = get_attr w m b"
  "get_attr (blur n w) m b = get_attr w m b"
  "get_attr (listen n e w) m b = get_attr w m b"
  "get_attr (unlisten_ns n e w) m b = get_attr w m b"
  "get_attr (unlisten n e w) m b = get_attr w m b"
  by (auto simp: dom_op_defs get_attr_def upd_node_page update_conv' delete_conv')

lemma style_ops [simp]:
  "get_style (add_class c n w) m q = get_style w m q"
  "get_style (remove_class c n w) m q = get_style w m q"
  "get_style (toggle_class c x n w) m q = get_style w m q"
  "get_style (set_attr a v n w) m q = get_style w m q"
  "get_style (remove_attr a n w) m q = get_style w m q"
  "get_style (set_style p s n w) m q = (if m = n \<and> q = p then s else get_style w m q)"
  "get_style (focus_on n w) m q = get_style w m q"
  "get_style (blur n w) m q = get_style w m q"
  "get_style (listen n e w) m q = get_style w m q"
  "get_style (unlisten_ns n e w) m q = get_style w m q"
  "get_style (unlisten n e w) m q = get_style w m q"
  by (auto simp: dom_op_defs get_style_def upd_node_page)

lemma log_ops [simp]:
  "eventLog (add_class c n w) = eventLog w" "eventLog (remove_class c n w) = eventLog w"
  "eventLog (toggle_class c x n w) = eventLog w" "eventLog (set_attr a v n w) = eventLog w"
  "eventLog (remove_attr a n w) = eventLog w" "eventLog (set_style p s n w) = eventLog w"
  "eventLog (focus_on n w) = eventLog w" "eventLog (blur n w) = eventLog w"
  "eventLog (listen n e w) = eventLog w" "eventLog (unlisten_ns n e w) = eventLog w"
  "eventLog (unlisten n e w) = eventLog w"
  by (simp_all add: dom_op_defs)

lemma transition_ops [simp]:
  "transitions (add_class c n w) = transitions w" "transitions (remove_class c n w) = transitions w"
  "transitions (toggle_class c x n w) = transitions w" "transitions (set_attr a v n w) = transitions w"
  "transitions (remove_attr a n w) = transitions w" "transitions (set_style p s n w) = transitions w"
  "transitions (focus_on n w) = transitions w" "transitions (blur n w) = transitions w"
  "transitions (listen n e w) = transitions w" "transitions (unlisten_ns n e w) = transitions w"
  "transitions (unlisten n e w) = transitions w"
  by (simp_all add: dom_op_defs)

lemma env_ops [simp]:
  "env (add_class c n w) = env w" "env (remove_class c n w) = env w"
  "env (toggle_class c x n w) = env w" "env (set_attr a v n w) = env w"
  "env (remove_attr a n w) = env w" "env (set_style p s n w) = env w"
  "env (focus_on n w) = env w" "env (blur n w) = env w"
  "env (listen n e w) = env w" "env (unlisten_ns n e w) = env w" "env (unlisten n e w) = env w"
  by (simp_all add: dom_op_defs)

lemma focus_ops [simp]:
  "activeElement (add_class c n w) = activeElement w"
  "activeElement (remove_class c n w) = activeElement w"
  "activeElement (toggle_class c x n w) = activeElement w"
  "activeElement (set_attr a v n w) = activeElement w"
  "activeElement (remove_attr a n w) = activeElement w"
  "activeElement (set_style p s n w) = activeElement w"
  "activeElement (focus_on n w) = (if canFocus (env w) (page w) n then Some n else activeElement w)"
  "activeElement (listen n e w) = activeElement w"
  "activeElement (unlisten_ns n e w) = activeElement w"
  "activeElement (unlisten n e w) = activeElement w"
  by (simp_all add: dom_op_defs)

lemma listener_ops [simp]:
  "listeners (add_class c n w) = listeners w" "listeners (remove_class c n w) = listeners w"
  "listeners (toggle_class c x n w) = listeners w" "listeners (set_attr a v n w) = listeners w"
  "listeners (remove_attr a n w) = listeners w" "listeners (set_style p s n w) = listeners w"
  "listeners (focus_on n w) = listeners w" "listeners (blur n w) = listeners w"
  "listeners (listen n e w) = listeners w @ [(n, e)]"
  by (simp_all add: dom_op_defs)

text \<open>The shape of the tree: nothing but insertions and removals changes it.\<close>

definition same_tree :: "'cb world \<Rightarrow> 'cb world \<Rightarrow> bool" where
  "same_tree w v \<longleftrightarrow> nodeCount v = nodeCount w \<and>
    (\<forall>n. parentNode (page v n) = parentNode (page w n) \<and>
         childNodes (page v n) = childNodes (page w n) \<and> tagName (page v n) = tagName (page w n))"

lemma same_tree_refl [simp]: "same_tree w w"
  by (simp add: same_tree_def)

lemma same_tree_trans [trans]: "same_tree u v \<Longrightarrow> same_tree v w \<Longrightarrow> same_tree u w"
  by (simp add: same_tree_def)

lemma same_tree_ops [simp]:
  "same_tree u (add_class c n w) = same_tree u w" "same_tree u (remove_class c n w) = same_tree u w"
  "same_tree u (toggle_class c b n w) = same_tree u w" "same_tree u (set_attr a v n w) = same_tree u w"
  "same_tree u (remove_attr a n w) = same_tree u w" "same_tree u (set_style p s n w) = same_tree u w"
  "same_tree u (focus_on n w) = same_tree u w" "same_tree u (blur n w) = same_tree u w"
  "same_tree u (listen n e w) = same_tree u w" "same_tree u (unlisten_ns n e w) = same_tree u w"
  "same_tree u (unlisten n e w) = same_tree u w"
  by (auto simp: same_tree_def dom_op_defs upd_node_page)

lemma subtree_cong: "(\<And>n. childNodes (p n) = childNodes (q n)) \<Longrightarrow> subtree k p n = subtree k q n"
  by (induction k arbitrary: n) (auto cong: map_cong)

lemma ancestry_cong: "(\<And>n. parentNode (p n) = parentNode (q n)) \<Longrightarrow> ancestry k p n = ancestry k q n"
  by (induction k arbitrary: n) (auto split: option.splits)

lemma same_tree_descendants: "same_tree w v \<Longrightarrow> descendants v n = descendants w n"
  unfolding descendants_def same_tree_def by (auto intro!: arg_cong[of _ _ tl] subtree_cong)

lemma same_tree_ancestors: "same_tree w v \<Longrightarrow> inclusive_ancestors v n = inclusive_ancestors w n"
  unfolding inclusive_ancestors_def same_tree_def by (auto intro!: ancestry_cong)

lemma descendants_ops [simp]:
  "descendants (add_class c n w) m = descendants w m"
  "descendants (remove_class c n w) m = descendants w m"
  "descendants (toggle_class c b n w) m = descendants w m"
  "descendants (set_attr a v n w) m = descendants w m"
  "descendants (remove_attr a n w) m = descendants w m"
  "descendants (set_style p s n w) m = descendants w m"
  "descendants (focus_on n w) m = descendants w m"
  "descendants (blur n w) m = descendants w m"
  "descendants (listen n e w) m = descendants w m"
  "descendants (unlisten_ns n e w) m = descendants w m"
  "descendants (unlisten n e w) m = descendants w m"
  by (rule same_tree_descendants, simp)+

lemma ancestors_ops [simp]:
  "inclusive_ancestors (add_class c n w) m = inclusive_ancestors w m"
  "inclusive_ancestors (remove_class c n w) m = inclusive_ancestors w m"
  "inclusive_ancestors (toggle_class c b n w) m = inclusive_ancestors w m"
  "inclusive_ancestors (set_attr a v n w) m = inclusive_ancestors w m"
  "inclusive_ancestors (remove_attr a n w) m = inclusive_ancestors w m"
  "inclusive_ancestors (set_style p s n w) m = inclusive_ancestors w m"
  "inclusive_ancestors (focus_on n w) m = inclusive_ancestors w m"
  "inclusive_ancestors (blur n w) m = inclusive_ancestors w m"
  "inclusive_ancestors (listen n e w) m = inclusive_ancestors w m"
  "inclusive_ancestors (unlisten_ns n e w) m = inclusive_ancestors w m"
  "inclusive_ancestors (unlisten n e w) m = inclusive_ancestors w m"
  by (rule same_tree_ancestors, simp)+

lemma parent_ops [simp]:
  "parentNode (page (add_class c n w) m) = parentNode (page w m)"
  "parentNode (page (remove_class c n w) m) = parentNode (page w m)"
  "parentNode (page (toggle_class c b n w) m) = parentNode (page w m)"
  "parentNode (page (set_attr a v n w) m) = parentNode (page w m)"
  "parentNode (page (remove_attr a n w) m) = parentNode (page w m)"
  "parentNode (page (set_style p s n w) m) = parentNode (page w m)"
  "parentNode (page (focus_on n w) m) = parentNode (page w m)"
  "parentNode (page (blur n w) m) = parentNode (page w m)"
  "parentNode (page (listen n e w) m) = parentNode (page w m)"
  "parentNode (page (unlisten_ns n e w) m) = parentNode (page w m)"
  "parentNode (page (unlisten n e w) m) = parentNode (page w m)"
  by (simp_all add: dom_op_defs upd_node_page)

lemma tag_ops [simp]:
  "tagName (page (add_class c n w) m) = tagName (page w m)"
  "tagName (page (remove_class c n w) m) = tagName (page w m)"
  "tagName (page (toggle_class c b n w) m) = tagName (page w m)"
  "tagName (page (set_attr a v n w) m) = tagName (page w m)"
  "tagName (page (remove_attr a n w) m) = tagName (page w m)"
  "tagName (page (set_style p s n w) m) = tagName (page w m)"
  "tagName (page (focus_on n w) m) = tagName (page w m)"
  "tagName (page (blur n w) m) = tagName (page w m)"
  "tagName (page (listen n e w) m) = tagName (page w m)"
  "tagName (page (unlisten_ns n e w) m) = tagName (page w m)"
  "tagName (page (unlisten n e w) m) = tagName (page w m)"
  by (simp_all add: dom_op_defs upd_node_page)

lemma child_ops [simp]:
  "childNodes (page (add_class c n w) m) = childNodes (page w m)"
  "childNodes (page (remove_class c n w) m) = childNodes (page w m)"
  "childNodes (page (toggle_class c b n w) m) = childNodes (page w m)"
  "childNodes (page (set_attr a v n w) m) = childNodes (page w m)"
  "childNodes (page (remove_attr a n w) m) = childNodes (page w m)"
  "childNodes (page (set_style p s n w) m) = childNodes (page w m)"
  "childNodes (page (focus_on n w) m) = childNodes (page w m)"
  "childNodes (page (blur n w) m) = childNodes (page w m)"
  "childNodes (page (listen n e w) m) = childNodes (page w m)"
  "childNodes (page (unlisten_ns n e w) m) = childNodes (page w m)"
  "childNodes (page (unlisten n e w) m) = childNodes (page w m)"
  by (simp_all add: dom_op_defs upd_node_page)

lemma same_tree_contains: "same_tree w v \<Longrightarrow> node_contains v a n = node_contains w a n"
  by (simp add: node_contains_def same_tree_ancestors)

lemma ancestry_self [simp]: "n \<in> set (ancestry k p n)"
  by (cases k) auto

lemma node_contains_refl [simp]: "node_contains w n n"
  by (simp add: node_contains_def inclusive_ancestors_def)

text \<open>Insertions and removals leave everything but the tree alone.\<close>

lemma remove_node_ops [simp]:
  "has_class (remove_node n w) m c = has_class w m c"
  "get_attr (remove_node n w) m a = get_attr w m a"
  "get_style (remove_node n w) m p = get_style w m p"
  "eventLog (remove_node n w) = eventLog w" "listeners (remove_node n w) = listeners w"
  "transitions (remove_node n w) = transitions w" "env (remove_node n w) = env w"
  "activeElement (remove_node n w) = activeElement w" "nodeCount (remove_node n w) = nodeCount w"
  "parentNode (page (remove_node n w) n) = None"
  by (auto simp: remove_node_def dom_obs_defs upd_node_page split: option.splits)

lemma append_node_ops [simp]:
  "has_class (append_node n k w) m c = has_class w m c"
  "get_attr (append_node n k w) m a = get_attr w m a"
  "get_style (append_node n k w) m p = get_style w m p"
  "eventLog (append_node n k w) = eventLog w" "listeners (append_node n k w) = listeners w"
  "transitions (append_node n k w) = transitions w" "env (append_node n k w) = env w"
  "activeElement (append_node n k w) = activeElement w" "nodeCount (append_node n k w) = nodeCount w"
  "parentNode (page (append_node n k w) n) = Some k"
proof -
  have "P (append_node n k w)"
    if "\<And>v. (\<And>m. classList (page v m) = classList (page (remove_node n w) m) \<and>
        attrs (page v m) = attrs (page (remove_node n w) m) \<and>
        inlineStyle (page v m) = inlineStyle (page (remove_node n w) m)) \<Longrightarrow> P v" for P
    by (rule that) (auto simp: append_node_def upd_node_page)
  note frame = this
  show "has_class (append_node n k w) m c = has_class w m c"
    using frame[of "\<lambda>v. has_class v m c = has_class (remove_node n w) m c"] by (simp add: has_class_def)
      (metis has_class_def remove_node_ops(1))
  show "get_attr (append_node n k w) m a = get_attr w m a"
    using frame[of "\<lambda>v. get_attr v m a = get_attr (remove_node n w) m a"] by (simp add: get_attr_def)
      (metis get_attr_def remove_node_ops(2))
  show "get_style (append_node n k w) m p = get_style w m p"
    using frame[of "\<lambda>v. get_style v m p = get_style (remove_node n w) m p"] by (simp add: get_style_def)
      (metis get_style_def remove_node_ops(3))
  show "parentNode (page (append_node n k w) n) = Some k"
    by (simp add: append_node_def upd_node_page)
qed (simp_all add: append_node_def)

end
