(* ===== verification/Reconnect.thy ===== *)
theory Reconnect
  imports JsBase
begin

text \<open>
  The reconnection dialog of the web front end (\<open>ReconnectModal.razor.js\<close>). The state is what
  the script touches: the dialog, its class list, whether \<open>retryWhenDocumentBecomesVisible\<close>
  listens to \<open>visibilitychange\<close> (adding it twice is adding it once), the reloads asked for, and
  the calls of \<open>retry\<close> and \<open>resume\<close> that wait for a promise. What the promises of \<open>Blazor\<close>
  deliver is an argument of the step that continues a call, so every interleaving of clicks,
  events and answers is a run of the step relation.
\<close>

section \<open>State and operations\<close>

datatype promise = Resolved bool | Rejected

datatype retry_pc = AwaitReconnect | AwaitResumeCircuit

record reconnect_state =
  dialogOpen :: bool
  dialogClasses :: "string list"
  retryListening :: bool
  documentVisible :: bool
  reloads :: nat
  retries :: "retry_pc list"
  resumes :: nat

definition handleReconnectStateChanged :: "string \<Rightarrow> reconnect_state \<Rightarrow> reconnect_state" where
  "handleReconnectStateChanged st s =
    (if st = ''show'' then s\<lparr>dialogOpen := True\<rparr>
     else if st = ''hide'' then s\<lparr>dialogOpen := False\<rparr>
     else if st = ''failed'' then s\<lparr>retryListening := True\<rparr>
     else if st = ''rejected'' then s\<lparr>reloads := Suc (reloads s)\<rparr>
     else s)"

text \<open>\<open>retry\<close> up to its first \<open>await\<close>, and what follows each of its two awaits.\<close>

definition retry :: "reconnect_state \<Rightarrow> reconnect_state" where
  "retry s = s\<lparr>retryListening := False, retries := retries s @ [AwaitReconnect]\<rparr>"

definition drop_at :: "nat \<Rightarrow> 'a list \<Rightarrow> 'a list" where
  "drop_at i xs = take i xs @ drop (Suc i) xs"

definition retry_continue :: "nat \<Rightarrow> promise \<Rightarrow> reconnect_state \<Rightarrow> reconnect_state" where
  "retry_continue i r s = (let finished = s\<lparr>retries := drop_at i (retries s)\<rparr> in
    case (retries s ! i, r) of
      (AwaitReconnect, Resolved successful) \<Rightarrow>
        (if \<not> successful then s\<lparr>retries := (retries s)[i := AwaitResumeCircuit]\<rparr> else finished)
    | (AwaitResumeCircuit, Resolved resumeSuccessful) \<Rightarrow>
        (if \<not> resumeSuccessful then finished\<lparr>reloads := Suc (reloads s)\<rparr>
         else finished\<lparr>dialogOpen := False\<rparr>)
    | (_, Rejected) \<Rightarrow> finished\<lparr>retryListening := True\<rparr>)"

definition resume :: "reconnect_state \<Rightarrow> reconnect_state" where
  "resume s = s\<lparr>resumes := Suc (resumes s)\<rparr>"

definition replace_class :: "string \<Rightarrow> string \<Rightarrow> string list \<Rightarrow> string list" where
  "replace_class old new cs =
    (if old \<notin> set cs then cs
     else if new \<in> set cs then removeAll old cs
     else map (\<lambda>c. if c = old then new else c) cs)"

definition resume_continue :: "promise \<Rightarrow> reconnect_state \<Rightarrow> reconnect_state" where
  "resume_continue r s = (let finished = s\<lparr>resumes := resumes s - 1\<rparr> in case r of
      Resolved successful \<Rightarrow>
        (if \<not> successful then finished\<lparr>reloads := Suc (reloads s)\<rparr> else finished)
    | Rejected \<Rightarrow> finished\<lparr>dialogClasses := replace_class ''components-reconnect-paused''
        ''components-reconnect-resume-failed'' (dialogClasses s)\<rparr>)"

definition retryWhenDocumentBecomesVisible :: "reconnect_state \<Rightarrow> reconnect_state" where
  "retryWhenDocumentBecomesVisible s = (if documentVisible s then retry s else s)"

section \<open>Runs\<close>

text \<open>The browser closes a modal dialog on the Escape key, which the script does not prevent.\<close>

datatype reconnect_label =
    StateChanged string
  | ClickRetry
  | ClickResume
  | VisibilityChange bool
  | RetryAnswer nat promise
  | ResumeAnswer promise
  | CloseRequest

inductive reconnect_step :: "reconnect_state \<Rightarrow> reconnect_label \<Rightarrow> reconnect_state \<Rightarrow> bool" where
  changed: "reconnect_step s (StateChanged st) (handleReconnectStateChanged st s)"
| click_retry: "reconnect_step s ClickRetry (retry s)"
| click_resume: "reconnect_step s ClickResume (resume s)"
| visibility: "reconnect_step s (VisibilityChange v)
    (let s' = s\<lparr>documentVisible := v\<rparr> in
     if retryListening s then retryWhenDocumentBecomesVisible s' else s')"
| retry_answer: "i < length (retries s) \<Longrightarrow>
    reconnect_step s (RetryAnswer i r) (retry_continue i r s)"
| resume_answer: "0 < resumes s \<Longrightarrow> reconnect_step s (ResumeAnswer r) (resume_continue r s)"
| close_request: "reconnect_step s CloseRequest (s\<lparr>dialogOpen := False\<rparr>)"

inductive_cases reconnect_stepE: "reconnect_step s l s'"

inductive reconnect_run ::
    "reconnect_state \<Rightarrow> reconnect_label list \<Rightarrow> reconnect_state \<Rightarrow> bool" where
  run_nil: "reconnect_run s [] s"
| run_cons: "reconnect_step s l s' \<Longrightarrow> reconnect_run s' ls s'' \<Longrightarrow> reconnect_run s (l # ls) s''"

inductive_simps reconnect_run_simps [simp]:
  "reconnect_run s [] s'"
  "reconnect_run s (l # ls) s'"

section \<open>The script never gives up silently\<close>

text \<open>Listening for the page, an attempt in flight, or a reload asked for after the first \<open>n\<close>.\<close>

definition still_trying :: "nat \<Rightarrow> reconnect_state \<Rightarrow> bool" where
  "still_trying n s \<longleftrightarrow> n \<le> reloads s \<and> (retryListening s \<or> retries s \<noteq> [] \<or> n < reloads s)"

definition successful_answer :: "reconnect_label \<Rightarrow> bool" where
  "successful_answer l = (case l of RetryAnswer i r \<Rightarrow> r = Resolved True | _ \<Rightarrow> False)"

lemma still_trying_step:
  assumes "reconnect_step s l s'" and "still_trying n s" and "\<not> successful_answer l"
  shows "still_trying n s'"
  using assms
proof (cases rule: reconnect_step.cases)
  case (retry_answer i r)
  then show ?thesis using assms
    by (cases r; cases "retries s ! i")
       (auto simp: still_trying_def successful_answer_def retry_continue_def Let_def)
next
  case (resume_answer r)
  then show ?thesis using assms
    by (cases r) (auto simp: still_trying_def resume_continue_def Let_def)
qed (auto simp: still_trying_def handleReconnectStateChanged_def retry_def resume_def
  retryWhenDocumentBecomesVisible_def Let_def)

lemma dialog_stays_step:
  assumes "reconnect_step s l s'" and "dialogOpen s" and "\<not> successful_answer l"
    and "l \<noteq> StateChanged ''hide''" and "l \<noteq> CloseRequest"
  shows "dialogOpen s'"
  using assms
proof (cases rule: reconnect_step.cases)
  case (retry_answer i r)
  then show ?thesis using assms
    by (cases r; cases "retries s ! i") (auto simp: successful_answer_def retry_continue_def Let_def)
next
  case (resume_answer r)
  then show ?thesis using assms by (cases r) (auto simp: resume_continue_def Let_def)
qed (auto simp: handleReconnectStateChanged_def retry_def resume_def retryWhenDocumentBecomesVisible_def Let_def)

text \<open>
  C21: from the moment Blazor reports that the circuit has failed, whatever the user clicks and whatever the
  promises answer, the script either still listens for the page to become visible, or has an
  attempt in flight, or has since asked for a reload, until an attempt succeeds: the page is never
  left disconnected with nothing scheduled. And an open dialog stays open unless Blazor hides it or the user dismisses it.\<close>

theorem reconnect_never_gives_up:
  assumes "reconnect_run (handleReconnectStateChanged ''failed'' s) ls s'"
    and "list_all (\<lambda>l. \<not> successful_answer l) ls"
  shows "(retryListening s' \<or> retries s' \<noteq> [] \<or> reloads s < reloads s') \<and>
    (dialogOpen s \<and> StateChanged ''hide'' \<notin> set ls \<and> CloseRequest \<notin> set ls \<longrightarrow> dialogOpen s')"
proof -
  have "reconnect_run t ls s' \<Longrightarrow> list_all (\<lambda>l. \<not> successful_answer l) ls \<Longrightarrow> still_trying (reloads s) t
      \<Longrightarrow> still_trying (reloads s) s'" for t
    by (induction rule: reconnect_run.induct) (auto dest: still_trying_step)
  moreover have "reconnect_run t ls s' \<Longrightarrow> list_all (\<lambda>l. \<not> successful_answer l) ls \<Longrightarrow> dialogOpen t
      \<Longrightarrow> StateChanged ''hide'' \<notin> set ls \<Longrightarrow> CloseRequest \<notin> set ls \<Longrightarrow> dialogOpen s'" for t
    by (induction rule: reconnect_run.induct) (auto dest: dialog_stays_step)
  moreover have "still_trying (reloads s) (handleReconnectStateChanged ''failed'' s)"
    "dialogOpen (handleReconnectStateChanged ''failed'' s) = dialogOpen s"
    by (simp_all add: still_trying_def handleReconnectStateChanged_def)
  ultimately show ?thesis using assms unfolding still_trying_def by blast
qed

definition reconnect_start :: reconnect_state where
  "reconnect_start = \<lparr>dialogOpen = True, dialogClasses = [''components-reconnect-paused''],
    retryListening = False, documentVisible = True, reloads = 0, retries = [], resumes = 0\<rparr>"

lemma reconnect_never_gives_up_witness:
  "\<exists>s'. reconnect_run (handleReconnectStateChanged ''failed'' reconnect_start)
      [VisibilityChange True, RetryAnswer 0 Rejected] s' \<and> retryListening s' \<and> retries s' = [] \<and> reloads s' = 0 \<and> dialogOpen s'"
proof -
  let ?s0 = "handleReconnectStateChanged ''failed'' reconnect_start"
  let ?s1 = "let s' = ?s0\<lparr>documentVisible := True\<rparr> in
    if retryListening ?s0 then retryWhenDocumentBecomesVisible s' else s'"
  have len: "0 < length (retries ?s1)"
    by (simp add: handleReconnectStateChanged_def retryWhenDocumentBecomesVisible_def retry_def)
  let ?s2 = "retry_continue 0 Rejected ?s1"
  have run: "reconnect_run ?s0 [VisibilityChange True, RetryAnswer 0 Rejected] ?s2"
    by (intro run_cons [OF visibility] run_cons [OF retry_answer [OF len]] run_nil)
  have failed: "list_all (\<lambda>l. \<not> successful_answer l) [VisibilityChange True, RetryAnswer 0 Rejected]"
    by (simp add: successful_answer_def)
  have "retries ?s2 = []" "reloads ?s2 = 0" "reloads reconnect_start = 0" "dialogOpen reconnect_start"
    by (simp_all add: handleReconnectStateChanged_def retryWhenDocumentBecomesVisible_def retry_def retry_continue_def
        reconnect_start_def drop_at_def Let_def)
  with reconnect_never_gives_up [OF run failed] have "retryListening ?s2" "dialogOpen ?s2" by auto
  with run show ?thesis using \<open>retries ?s2 = []\<close> \<open>reloads ?s2 = 0\<close> by blast
qed

end
