(* ===== verification/BsUtil.thy ===== *)
theory BsUtil
  imports JsBase
begin

text \<open>
  The utilities of Bootstrap (\<open>util/index.js\<close> in \<open>bootstrap.js\<close>): types and selectors of
  values, visibility, disabled elements, unique ids, the wait for a transition, the choice of
  the next element of a list, and the dispatch of an event. jQuery is not loaded by the
  application, so \<open>getjQuery\<close> is null throughout.
\<close>

section \<open>Types, elements and selectors\<close>

definition toType :: "'cb world \<Rightarrow> jsval \<Rightarrow> string" where
  "toType w v = (case v of
      JUndef \<Rightarrow> ''undefined'' | JNull \<Rightarrow> ''null'' | JBool b \<Rightarrow> ''boolean''
    | JNum x \<Rightarrow> ''number'' | JNaN \<Rightarrow> ''number'' | JStr s \<Rightarrow> ''string''
    | JNode n \<Rightarrow> toLowerCase (interfaceName (env w) (tagName (page w n))) | JFun f \<Rightarrow> ''function'' | JArr xs \<Rightarrow> ''array'' | JObj ps \<Rightarrow> ''object'')"

definition isElement :: "jsval \<Rightarrow> bool" where
  "isElement v = (case v of JNode n \<Rightarrow> True | _ \<Rightarrow> False)"

definition id_char :: "char \<Rightarrow> bool" where
  "id_char c = (\<not> is_white c \<and> c \<noteq> CHR 0x22 \<and> c \<noteq> CHR ''#'' \<and> c \<noteq> CHR 0x27)"

text \<open>The replacement of \<open>#([^\s"#']+)\<close> by the escaped id, from left to right.\<close>

function escape_ids :: "(string \<Rightarrow> string) \<Rightarrow> string \<Rightarrow> string" where
  "escape_ids esc s = (case s of [] \<Rightarrow> []
    | c # cs \<Rightarrow> if c = CHR ''#'' \<and> takeWhile id_char cs \<noteq> []
        then ''#'' @ esc (takeWhile id_char cs) @ escape_ids esc (dropWhile id_char cs)
        else c # escape_ids esc cs)"
  by pat_completeness auto
termination by (relation "measure (\<lambda>(esc, s). length s)") (auto simp: length_dropWhile_le le_imp_less_Suc)

declare escape_ids.simps [simp del]

definition parseSelector :: "'cb world \<Rightarrow> string \<Rightarrow> string" where
  "parseSelector w selector = escape_ids (cssEscape (env w)) selector"

definition query_selector :: "'cb world \<Rightarrow> string \<Rightarrow> node option" where
  "query_selector w sel =
    (case querySelectorAll (env w) (page w) documentElement sel of [] \<Rightarrow> None | n # _ \<Rightarrow> Some n)"

definition getElement :: "'cb world \<Rightarrow> jsval \<Rightarrow> node option" where
  "getElement w v = (case v of
      JNode n \<Rightarrow> Some n
    | JStr s \<Rightarrow> if s \<noteq> [] then query_selector w (parseSelector w s) else None
    | _ \<Rightarrow> None)"

section \<open>Visibility, disabled elements, direction of writing\<close>

definition isVisible :: "'cb world \<Rightarrow> node option \<Rightarrow> bool" where
  "isVisible w e = (case e of None \<Rightarrow> False | Some n \<Rightarrow>
    if \<not> hasClientRects (env w) (page w) n then False
    else let elementIsVisible = (computedStyle (env w) (page w) n ''visibility'' = ''visible'') in
      case closest (\<lambda>m. tagName (page w m) = ''DETAILS'' \<and> \<not> has_attr w m ''open'') w n of
        None \<Rightarrow> elementIsVisible
      | Some closedDetails \<Rightarrow>
          if closedDetails \<noteq> n then
            (case closest (\<lambda>m. tagName (page w m) = ''SUMMARY'') w n of
               Some summary \<Rightarrow>
                 if parentNode (page w summary) \<noteq> Some closedDetails then False else elementIsVisible
             | None \<Rightarrow> False)
          else elementIsVisible)"

text \<open>The tags whose elements have a \<open>disabled\<close> property, which reflects the attribute.\<close>

definition has_disabled_property :: "string \<Rightarrow> bool" where
  "has_disabled_property tag = (tag \<in> {''BUTTON'', ''INPUT'', ''SELECT'', ''TEXTAREA'',
    ''OPTION'', ''OPTGROUP'', ''FIELDSET''})"

definition isDisabled :: "'cb world \<Rightarrow> node option \<Rightarrow> bool" where
  "isDisabled w e = (case e of None \<Rightarrow> True | Some n \<Rightarrow>
    if n = document_node \<or> n = window_node then True
    else if has_class w n ''disabled'' then True
    else if has_disabled_property (tagName (page w n)) then has_attr w n ''disabled''
    else has_attr w n ''disabled'' \<and> get_attr w n ''disabled'' \<noteq> Some ''false'')"

definition isRTL :: "'cb world \<Rightarrow> bool" where
  "isRTL w = (get_attr w documentElement ''dir'' = Some ''rtl'')"

section \<open>Unique ids\<close>

definition MAX_UID :: nat where "MAX_UID = 1000000"

definition id_exists :: "'cb world \<Rightarrow> string \<Rightarrow> bool" where
  "id_exists w i = (\<exists>n \<in> set [0..<nodeCount w]. get_attr w n ''id'' = Some i)"

text \<open>\<open>random k\<close> is the k-th value of \<open>Math.floor(Math.random() * MAX_UID)\<close>; the loop appends to
  the prefix until no element has it as its id.\<close>

fun getUID :: "nat \<Rightarrow> 'cb world \<Rightarrow> (nat \<Rightarrow> nat) \<Rightarrow> string \<Rightarrow> string option" where
  "getUID 0 w random pre = None"
| "getUID (Suc fuel) w random pre = (let pre' = pre @ natStr (random 0) in
    if id_exists w pre' then getUID fuel w (\<lambda>k. random (Suc k)) pre' else Some pre')"

section \<open>Callbacks and transitions\<close>

definition add_js :: "jsval \<Rightarrow> jsval \<Rightarrow> jsval" where
  "add_js a b = (case (a, b) of (JNum x, JNum y) \<Rightarrow> JNum (x + y) | _ \<Rightarrow> JNaN)"

definition scale_js :: "real \<Rightarrow> jsval \<Rightarrow> jsval" where
  "scale_js k a = (case a of JNum x \<Rightarrow> JNum (x * k) | _ \<Rightarrow> JNaN)"

definition MILLISECONDS_MULTIPLIER :: real where "MILLISECONDS_MULTIPLIER = 1000"

definition getTransitionDurationFromElement :: "'cb world \<Rightarrow> node option \<Rightarrow> jsval" where
  "getTransitionDurationFromElement w e = (case e of None \<Rightarrow> JNum 0 | Some n \<Rightarrow>
    let transitionDuration = computedStyle (env w) (page w) n ''transition-duration'';
        transitionDelay = computedStyle (env w) (page w) n ''transition-delay'' in
    if \<not> truthy (parseFloat transitionDuration) \<and> \<not> truthy (parseFloat transitionDelay)
    then JNum 0
    else scale_js MILLISECONDS_MULTIPLIER
      (add_js (parseFloat (hd (splitOn (CHR '','') transitionDuration)))
              (parseFloat (hd (splitOn (CHR '','') transitionDelay)))))"

text \<open>A callback that waits is queued under the element of its transition. The end of that
  transition, reported by the browser or by the timer that emulates it, takes the callbacks of
  the element off the queue and runs them in the order in which they were queued.\<close>

definition executeAfterTransition ::
    "('cb \<Rightarrow> 'i \<times> 'cb world \<Rightarrow> 'i \<times> 'cb world) \<Rightarrow> 'cb \<Rightarrow> node \<Rightarrow> bool
      \<Rightarrow> 'i \<times> 'cb world \<Rightarrow> 'i \<times> 'cb world" where
  "executeAfterTransition run callback transitionElement waitForTransition s =
    (if \<not> waitForTransition then run callback s
     else (fst s, (snd s)\<lparr>transitions := transitions (snd s) @ [(transitionElement, callback)]\<rparr>))"

definition waiting :: "node \<Rightarrow> 'cb world \<Rightarrow> 'cb list" where
  "waiting n w = map snd (filter (\<lambda>(m, c). m = n) (transitions w))"

definition take_waiting :: "node \<Rightarrow> 'cb world \<Rightarrow> 'cb world" where
  "take_waiting n w = w\<lparr>transitions := filter (\<lambda>(m, c). m \<noteq> n) (transitions w)\<rparr>"

definition transition_end ::
    "('cb \<Rightarrow> 'i \<times> 'cb world \<Rightarrow> 'i \<times> 'cb world) \<Rightarrow> node \<Rightarrow> 'i \<times> 'cb world \<Rightarrow> 'i \<times> 'cb world" where
  "transition_end run n s = fold run (waiting n (snd s)) (fst s, take_waiting n (snd s))"

section \<open>The next element of a list\<close>

fun index_of :: "'a list \<Rightarrow> 'a \<Rightarrow> int" where
  "index_of [] x = -1"
| "index_of (y # ys) x = (if y = x then 0
    else if index_of ys x = -1 then -1 else index_of ys x + 1)"

definition at_index :: "'a list \<Rightarrow> int \<Rightarrow> 'a option" where
  "at_index xs i = (if 0 \<le> i \<and> i < int (length xs) then Some (xs ! nat i) else None)"

text \<open>\<open>%\<close> of the language: the result has the sign of the dividend.\<close>

definition js_mod :: "int \<Rightarrow> int \<Rightarrow> int" where
  "js_mod a b = sgn a * (\<bar>a\<bar> mod \<bar>b\<bar>)"

definition getNextActiveElement :: "'a list \<Rightarrow> 'a option \<Rightarrow> bool \<Rightarrow> bool \<Rightarrow> 'a option" where
  "getNextActiveElement list active shouldGetNext isCycleAllowed =
    (let listLength = int (length list);
         index = (case active of None \<Rightarrow> -1 | Some a \<Rightarrow> index_of list a) in
     if index = -1
     then (if \<not> shouldGetNext \<and> isCycleAllowed then at_index list (listLength - 1)
           else at_index list 0)
     else let index' = index + (if shouldGetNext then 1 else -1);
              index'' = (if isCycleAllowed then js_mod (index' + listLength) listLength else index') in
       at_index list (max 0 (min index'' (listLength - 1))))"

section \<open>Dispatch of an event\<close>

text \<open>Without jQuery \<open>EventHandler.trigger\<close> dispatches a cancelable event; the value is
  \<open>defaultPrevented\<close> after the listeners ran.\<close>

definition trigger :: "node \<Rightarrow> string \<Rightarrow> 'cb world \<Rightarrow> bool \<times> 'cb world" where
  "trigger n e w = (prevents (env w) (eventLog w) (n, e), w\<lparr>eventLog := eventLog w @ [(n, e)]\<rparr>)"

definition announce :: "node \<Rightarrow> string \<Rightarrow> 'cb world \<Rightarrow> 'cb world" where
  "announce n e w = snd (trigger n e w)"

section \<open>Facts about events and transitions\<close>

lemma announce_def2: "announce n e w = w\<lparr>eventLog := eventLog w @ [(n, e)]\<rparr>"
  by (simp add: announce_def trigger_def)

lemma announce_ops [simp]:
  "has_class (announce n e w) m c = has_class w m c"
  "get_attr (announce n e w) m a = get_attr w m a"
  "get_style (announce n e w) m p = get_style w m p"
  "eventLog (announce n e w) = eventLog w @ [(n, e)]"
  "transitions (announce n e w) = transitions w" "env (announce n e w) = env w"
  "activeElement (announce n e w) = activeElement w" "listeners (announce n e w) = listeners w"
  "page (announce n e w) = page w" "nodeCount (announce n e w) = nodeCount w"
  by (simp_all add: announce_def2 dom_obs_defs)

lemma same_tree_announce [simp]: "same_tree u (announce n e w) = same_tree u w"
  by (simp add: same_tree_def)

lemma tree_announce [simp]:
  "descendants (announce n e w) m = descendants w m"
  "inclusive_ancestors (announce n e w) m = inclusive_ancestors w m"
  by (rule same_tree_descendants same_tree_ancestors, simp)+

lemma trigger_eq: "trigger n e w = (prevents (env w) (eventLog w) (n, e), announce n e w)"
  by (simp add: announce_def2 trigger_def)

lemma executeAfterTransition_now [simp]: "executeAfterTransition run c n False s = run c s"
  by (simp add: executeAfterTransition_def)

lemma executeAfterTransition_wait [simp]:
  "executeAfterTransition run c n True s =
    (fst s, (snd s)\<lparr>transitions := transitions (snd s) @ [(n, c)]\<rparr>)"
  by (simp add: executeAfterTransition_def)

lemma waiting_nil [simp]: "transitions w = [] \<Longrightarrow> waiting n w = []"
  by (simp add: waiting_def)

lemma take_waiting_ops [simp]:
  "has_class (take_waiting n w) m c = has_class w m c"
  "get_attr (take_waiting n w) m a = get_attr w m a"
  "get_style (take_waiting n w) m p = get_style w m p"
  "eventLog (take_waiting n w) = eventLog w" "env (take_waiting n w) = env w"
  "page (take_waiting n w) = page w" "listeners (take_waiting n w) = listeners w"
  "activeElement (take_waiting n w) = activeElement w" "nodeCount (take_waiting n w) = nodeCount w"
  by (simp_all add: take_waiting_def dom_obs_defs)

lemma transitions_update_ops [simp]:
  "has_class (w\<lparr>transitions := ts\<rparr>) m c = has_class w m c"
  "get_attr (w\<lparr>transitions := ts\<rparr>) m a = get_attr w m a"
  "get_style (w\<lparr>transitions := ts\<rparr>) m p = get_style w m p"
  by (simp_all add: dom_obs_defs)

lemma same_tree_transitions [simp]: "same_tree u (w\<lparr>transitions := ts\<rparr>) = same_tree u w"
  by (simp add: same_tree_def)

lemma no_transitions_upd: "transitions w = [] \<Longrightarrow> w\<lparr>transitions := []\<rparr> = w"
  by (cases w) simp

lemma take_waiting_none: "waiting n w = [] \<Longrightarrow> take_waiting n w = w"
proof -
  assume "waiting n w = []"
  then have "filter (\<lambda>(m, c). m \<noteq> n) (transitions w) = transitions w"
    by (auto simp: waiting_def filter_empty_conv filter_id_conv)
  then show ?thesis by (simp add: take_waiting_def)
qed

lemma waiting_take: "waiting m (take_waiting n w) = (if m = n then [] else waiting m w)"
proof -
  have "filter (\<lambda>(k, c). k = m) (filter (\<lambda>(k, c). k \<noteq> n) ts) =
      (if m = n then [] else filter (\<lambda>(k, c). k = m) ts)" for ts :: "(node \<times> 'a) list"
    by (induction ts) auto
  then show ?thesis by (simp add: waiting_def take_waiting_def)
qed

lemma transition_end_single [simp]:
  "transitions w = [] \<Longrightarrow> transition_end run n (i, w\<lparr>transitions := [(n, c)]\<rparr>) = run c (i, w)"
  by (simp add: transition_end_def waiting_def take_waiting_def no_transitions_upd)

text \<open>What the components promise about callbacks that wait: a predicate on the callbacks still
  to run and the state, which every callback discharges and the removal from the queue keeps.
  Under it the end of a transition leaves nothing owed.\<close>

locale transition_queue =
  fixes run :: "'cb \<Rightarrow> 'i \<times> 'cb world \<Rightarrow> 'i \<times> 'cb world"
    and owed :: "'cb list \<Rightarrow> 'i \<times> 'cb world \<Rightarrow> bool"
  assumes run_pays: "owed (c # cs) s \<Longrightarrow> owed cs (run c s)"
    and take_owes: "owed [] s \<Longrightarrow> owed (waiting n (snd s)) (fst s, take_waiting n (snd s))"
begin

lemma fold_pays: "owed cs s \<Longrightarrow> owed [] (fold run cs s)"
  using run_pays by (induction cs arbitrary: s) auto

lemma end_pays: "owed [] s \<Longrightarrow> owed [] (transition_end run n s)"
  unfolding transition_end_def by (rule fold_pays) (rule take_owes)

end

section \<open>Choosing the next element\<close>

lemma index_of_range: "index_of xs x = -1 \<or> (0 \<le> index_of xs x \<and> index_of xs x < int (length xs))"
  by (induction xs) auto

lemma index_of_mem: "index_of xs x = -1 \<longleftrightarrow> x \<notin> set xs"
proof (induction xs)
  case (Cons y ys)
  then show ?case using index_of_range[of ys x] by auto
qed simp

lemma index_of_nth: "distinct xs \<Longrightarrow> i < length xs \<Longrightarrow> index_of xs (xs ! i) = int i"
proof (induction xs arbitrary: i)
  case (Cons y ys)
  then show ?case using index_of_mem[of ys] by (cases i) auto
qed simp

lemma nth_index_of: "x \<in> set xs \<Longrightarrow> xs ! nat (index_of xs x) = x"
proof (induction xs)
  case (Cons y ys)
  show ?case
  proof (cases "y = x")
    case False
    then have "x \<in> set ys" using Cons by simp
    moreover from this have "0 \<le> index_of ys x" "index_of ys x \<noteq> -1"
      using index_of_range[of ys x] index_of_mem[of ys x] by auto
    ultimately show ?thesis using Cons False by (simp add: nat_add_distrib)
  qed simp
qed simp

lemma js_mod_nonneg: "0 \<le> a \<Longrightarrow> 0 < b \<Longrightarrow> js_mod a b = a mod b"
  by (cases "a = 0") (auto simp: js_mod_def)

lemma at_index_mem: "at_index xs i = Some x \<Longrightarrow> x \<in> set xs"
  by (auto simp: at_index_def split: if_splits)

lemma next_found:
  assumes "a \<in> set xs"
  shows "getNextActiveElement xs (Some a) nxt cyc =
    (let i = index_of xs a + (if nxt then 1 else -1); n = int (length xs) in
     Some (xs ! nat (if cyc then i mod n else max 0 (min i (n - 1)))))"
proof -
  have i: "0 \<le> index_of xs a" "index_of xs a < int (length xs)" "index_of xs a \<noteq> -1"
    using assms index_of_range[of xs a] index_of_mem[of xs a] by auto
  define n where "n = int (length xs)"
  define j where "j = index_of xs a + (if nxt then 1 else -1)"
  have n: "0 < n" and j: "-1 \<le> j" "j \<le> n" using i by (auto simp: n_def j_def)
  have m: "js_mod (j + n) n = j mod n" using j n by (simp add: js_mod_nonneg)
  have b: "0 \<le> j mod n" "j mod n < n" using n by auto
  show ?thesis
  proof (cases cyc)
    case True
    then have "getNextActiveElement xs (Some a) nxt cyc =
        at_index xs (max 0 (min (j mod n) (n - 1)))"
      using i m by (simp add: getNextActiveElement_def Let_def n_def[symmetric] j_def[symmetric])
    also have "\<dots> = Some (xs ! nat (j mod n))" using b by (simp add: at_index_def n_def)
    finally show ?thesis using True by (simp add: j_def n_def Let_def)
  next
    case False
    then have "getNextActiveElement xs (Some a) nxt cyc = at_index xs (max 0 (min j (n - 1)))"
      using i by (simp add: getNextActiveElement_def Let_def n_def[symmetric] j_def[symmetric])
    also have "\<dots> = Some (xs ! nat (max 0 (min j (n - 1))))" using n by (auto simp: at_index_def n_def)
    finally show ?thesis using False by (simp add: j_def n_def Let_def)
  qed
qed

lemma next_mem: "getNextActiveElement xs a nxt cyc = Some x \<Longrightarrow> x \<in> set xs"
  by (auto simp: getNextActiveElement_def Let_def dest: at_index_mem split: if_splits)

lemma next_cycle_step:
  assumes "distinct xs" and "i < length xs"
  shows "getNextActiveElement xs (Some (xs ! i)) True True = Some (xs ! (Suc i mod length xs))"
    and "getNextActiveElement xs (Some (xs ! i)) False True =
      Some (xs ! ((i + length xs - 1) mod length xs))"
proof -
  have idx: "index_of xs (xs ! i) = int i" using assms by (rule index_of_nth)
  have "(int i + 1) mod int (length xs) = int (Suc i mod length xs)"
    by (simp add: zmod_int add.commute)
  then show "getNextActiveElement xs (Some (xs ! i)) True True = Some (xs ! (Suc i mod length xs))"
    using assms by (simp add: next_found idx Let_def)
  have "(int i - 1) mod int (length xs) = (int i - 1 + int (length xs)) mod int (length xs)"
    by simp
  also have "\<dots> = int ((i + length xs - 1) mod length xs)"
    using assms by (simp add: zmod_int of_nat_diff algebra_simps)
  finally show "getNextActiveElement xs (Some (xs ! i)) False True =
      Some (xs ! ((i + length xs - 1) mod length xs))"
    using assms by (simp add: next_found idx Let_def)
qed

text \<open>
  Over a list without duplicates the cyclic successor and predecessor of an element
  undo each other, so walking a list of items, tabs or slides forward and back returns to the
  element one came from, also across the ends of the list.\<close>

theorem next_prev_inverse:
  assumes "distinct xs" and "a \<in> set xs"
  shows "\<exists>b \<in> set xs. getNextActiveElement xs (Some a) nxt True = Some b \<and>
    getNextActiveElement xs (Some b) (\<not> nxt) True = Some a"
proof -
  obtain i where i: "i < length xs" "a = xs ! i" using assms(2) by (auto simp: in_set_conv_nth)
  define n where "n = length xs"
  define j where "j = (if nxt then Suc i mod n else (i + n - 1) mod n)"
  have n: "0 < n" using i by (auto simp: n_def)
  have j: "j < n" using n by (simp add: j_def)
  have rev: "(if nxt then (j + n - 1) mod n else Suc j mod n) = i"
  proof (cases nxt)
    case True
    then show ?thesis using i n by (cases "Suc i = n") (auto simp: j_def n_def mod_if)
  next
    case False
    then show ?thesis using i n
      by (cases i) (auto simp: j_def n_def mod_if)
  qed
  have "getNextActiveElement xs (Some a) nxt True = Some (xs ! j)"
    using next_cycle_step[OF assms(1) i(1)] i(2) by (cases nxt) (auto simp: j_def n_def)
  moreover have "getNextActiveElement xs (Some (xs ! j)) (\<not> nxt) True = Some a"
    using next_cycle_step[OF assms(1), of j] j i(2) rev by (cases nxt) (auto simp: n_def)
  ultimately show ?thesis using j by (auto simp: n_def)
qed

lemma next_prev_inverse_witness:
  "distinct [10::nat, 20, 30] \<and> (\<exists>b \<in> set [10::nat, 20, 30].
    getNextActiveElement [10, 20, 30] (Some 30) True True = Some b \<and>
    getNextActiveElement [10, 20, 30] (Some b) (\<not> True) True = Some 30)"
  using next_prev_inverse [of "[10::nat, 20, 30]" 30 True] by simp

section \<open>Unique ids\<close>

lemma natStr_nonempty [simp]: "natStr n \<noteq> []"
  by (simp add: natStr_def)

lemma getUID_fresh: "getUID fuel w random pre = Some u \<Longrightarrow> \<not> id_exists w u"
  by (induction fuel arbitrary: random pre) (auto simp: Let_def split: if_splits)

lemma getUID_extends: "getUID fuel w random pre = Some u \<Longrightarrow> \<exists>s. s \<noteq> [] \<and> u = pre @ s"
proof (induction fuel arbitrary: random pre)
  case (Suc fuel)
  show ?case
  proof (cases "id_exists w (pre @ natStr (random 0))")
    case True
    then have "getUID fuel w (\<lambda>k. random (Suc k)) (pre @ natStr (random 0)) = Some u"
      using Suc.prems by (simp add: Let_def)
    from Suc.IH [OF this] obtain s where "u = (pre @ natStr (random 0)) @ s" by blast
    then show ?thesis by (intro exI[of _ "natStr (random 0) @ s"]) simp
  qed (use Suc in \<open>auto simp: Let_def\<close>)
qed simp

lemma getUID_None:
  assumes "getUID fuel w random pre = None"
  shows "\<exists>S. S \<subseteq> {i. id_exists w i} \<and> finite S \<and> card S = fuel \<and> (\<forall>s\<in>S. length pre < length s)"
  using assms
proof (induction fuel arbitrary: random pre)
  case 0
  then show ?case by (intro exI[of _ "{}"]) simp
next
  case (Suc fuel)
  let ?p = "pre @ natStr (random 0)"
  have ex: "id_exists w ?p" and rest: "getUID fuel w (\<lambda>k. random (Suc k)) ?p = None"
    using Suc.prems by (auto simp: Let_def split: if_splits)
  obtain S where S: "S \<subseteq> {i. id_exists w i}" "finite S" "card S = fuel"
      "\<forall>s\<in>S. length ?p < length s" using Suc.IH[OF rest] by blast
  have "?p \<notin> S" using S(4) by blast
  moreover have "length pre < length ?p" by (simp add: length_greater_0_conv)
  ultimately show ?case using S ex by (intro exI[of _ "insert ?p S"]) auto
qed

lemma ids_few: "finite {i. id_exists w i}" "card {i. id_exists w i} \<le> nodeCount w"
proof -
  have sub: "{i. id_exists w i} \<subseteq> (\<lambda>n. the (get_attr w n ''id'')) ` set [0..<nodeCount w]"
  proof
    fix i assume "i \<in> {i. id_exists w i}"
    then obtain n where "n \<in> set [0..<nodeCount w]" "get_attr w n ''id'' = Some i"
      unfolding id_exists_def by blast
    then show "i \<in> (\<lambda>n. the (get_attr w n ''id'')) ` set [0..<nodeCount w]"
      by (intro image_eqI[of _ _ n]) auto
  qed
  then show "finite {i. id_exists w i}" by (rule finite_subset) simp
  have "card {i. id_exists w i} \<le> card ((\<lambda>n. the (get_attr w n ''id'')) ` set [0..<nodeCount w])"
    by (rule card_mono[OF _ sub]) simp
  also have "\<dots> \<le> nodeCount w"
    using card_image_le[of "set [0..<nodeCount w]" "\<lambda>n. the (get_attr w n ''id'')"] by simp
  finally show "card {i. id_exists w i} \<le> nodeCount w" .
qed

text \<open>
  The loop of \<open>getUID\<close> ends whatever the random numbers are, after at most one more
  round than the page has nodes, because every round makes the candidate longer; the id it
  returns starts with the prefix asked for and belongs to no element of the page.\<close>

theorem getUID_terminates:
  "\<exists>u s. getUID (Suc (nodeCount w)) w random pre = Some u \<and> \<not> id_exists w u \<and>
    s \<noteq> [] \<and> u = pre @ s"
proof -
  have "getUID (Suc (nodeCount w)) w random pre \<noteq> None"
  proof
    assume "getUID (Suc (nodeCount w)) w random pre = None"
    from getUID_None [OF this] obtain S
      where S: "S \<subseteq> {i. id_exists w i}" "card S = Suc (nodeCount w)" by blast
    have "Suc (nodeCount w) \<le> card {i. id_exists w i}"
      using card_mono [OF ids_few(1) S(1)] S(2) by simp
    then show False using ids_few(2)[of w] by simp
  qed
  then obtain u where u: "getUID (Suc (nodeCount w)) w random pre = Some u" by auto
  from getUID_fresh [OF u] getUID_extends [OF u] u show ?thesis by blast
qed

end
