(* ===== verification/BsConfig.thy ===== *)
theory BsConfig
  imports BsUtil
begin

text \<open>
  Configuration and identity of Bootstrap's components: data attributes (\<open>dom/manipulator.js\<close>),
  the merge and type check of options (\<open>util/config.js\<close>), the registry of instances
  (\<open>dom/data.js\<close>) and what \<open>BaseComponent\<close> does with them. A JavaScript object is the list of
  its entries; \<open>JSON.parse(decodeURIComponent(v))\<close> is an argument (\<open>None\<close> when it throws).
\<close>

section \<open>Data attributes\<close>

text \<open>The strings \<open>v\<close> with \<open>v === Number(v).toString()\<close>: decimals in canonical form, of at most
  15 digits (for which a double prints what it was read from); the infinities are left out.\<close>

definition canonical_number :: "string \<Rightarrow> bool" where
  "canonical_number v = (let body = (if startsWith v ''-'' then tl v else v);
      ip = takeWhile is_digit body; r = dropWhile is_digit body; fp = tl r in
    length ip + length fp \<le> 15 \<and> ip \<noteq> [] \<and> (hd ip = CHR ''0'' \<longrightarrow> length ip = 1) \<and>
    (if r = [] then v \<noteq> ''-0''
     else hd r = CHR ''.'' \<and> fp \<noteq> [] \<and> list_all is_digit fp \<and> last fp \<noteq> CHR ''0'' \<and>
       \<not> (ip = ''0'' \<and> startsWith fp ''000000'')))"

definition normalizeData :: "(string \<Rightarrow> jsval option) \<Rightarrow> jsval \<Rightarrow> jsval" where
  "normalizeData parseJson value = (case value of
      JStr v \<Rightarrow>
        if v = ''true'' then JBool True
        else if v = ''false'' then JBool False
        else if canonical_number v then parseFloat v
        else if v = ''NaN'' then JNaN
        else if v = '''' \<or> v = ''null'' then JNull
        else (case parseJson v of Some j \<Rightarrow> j | None \<Rightarrow> JStr v)
    | _ \<Rightarrow> value)"

definition is_upper :: "char \<Rightarrow> bool" where
  "is_upper c = (65 \<le> (of_char c :: nat) \<and> (of_char c :: nat) \<le> 90)"

definition is_lower :: "char \<Rightarrow> bool" where
  "is_lower c = (97 \<le> (of_char c :: nat) \<and> (of_char c :: nat) \<le> 122)"

fun normalizeDataKey :: "string \<Rightarrow> string" where
  "normalizeDataKey [] = []"
| "normalizeDataKey (c # cs) =
    (if is_upper c then ''-'' @ [lower_char c] else [c]) @ normalizeDataKey cs"

definition data_bs :: "string \<Rightarrow> string" where
  "data_bs key = ''data-bs-'' @ normalizeDataKey key"

definition setDataAttribute :: "node \<Rightarrow> string \<Rightarrow> string \<Rightarrow> 'cb world \<Rightarrow> 'cb world" where
  "setDataAttribute element key v = set_attr (data_bs key) v element"

definition removeDataAttribute :: "node \<Rightarrow> string \<Rightarrow> 'cb world \<Rightarrow> 'cb world" where
  "removeDataAttribute element key = remove_attr (data_bs key) element"

definition attr_value :: "string option \<Rightarrow> jsval" where
  "attr_value a = (case a of None \<Rightarrow> JNull | Some v \<Rightarrow> JStr v)"

definition getDataAttribute ::
    "(string \<Rightarrow> jsval option) \<Rightarrow> 'cb world \<Rightarrow> node \<Rightarrow> string \<Rightarrow> jsval" where
  "getDataAttribute parseJson w element key =
    normalizeData parseJson (attr_value (get_attr w element (data_bs key)))"

text \<open>The keys of \<open>dataset\<close>: the attributes \<open>data-...\<close> with \<open>-x\<close> turned into \<open>X\<close>.\<close>

fun camel :: "string \<Rightarrow> string" where
  "camel [] = []"
| "camel [c] = [c]"
| "camel (c # d # cs) = (if c = CHR ''-'' \<and> is_lower d then upper_char d # camel cs
    else c # camel (d # cs))"

definition dataset :: "'cb world \<Rightarrow> node \<Rightarrow> (string \<times> string) list" where
  "dataset w n = [(camel (drop 5 a), v). (a, v) \<leftarrow> attrs (page w n), startsWith a ''data-'']"

definition lower_first :: "string \<Rightarrow> string" where
  "lower_first s = (case s of [] \<Rightarrow> [] | c # cs \<Rightarrow> lower_char c # cs)"

definition getDataAttributes ::
    "(string \<Rightarrow> jsval option) \<Rightarrow> 'cb world \<Rightarrow> node option \<Rightarrow> (string \<times> jsval) list" where
  "getDataAttributes parseJson w e = (case e of None \<Rightarrow> [] | Some element \<Rightarrow>
    foldl (\<lambda>attributes (key, v).
        AList.update (lower_first (drop 2 key)) (normalizeData parseJson (JStr v)) attributes) []
      (filter (\<lambda>(key, v). startsWith key ''bs'' \<and> \<not> startsWith key ''bsConfig'') (dataset w element)))"

section \<open>Options\<close>

type_synonym object = "(string \<times> jsval) list"

definition spread :: "object \<Rightarrow> object \<Rightarrow> object" where
  "spread a b = foldl (\<lambda>obj (k, v). AList.update k v obj) a b"

text \<open>What \<open>...v\<close> contributes when \<open>typeof v\<close> is \<open>object\<close>, and nothing otherwise.\<close>

definition spread_value :: "jsval \<Rightarrow> object" where
  "spread_value v = (case v of
      JObj ps \<Rightarrow> ps
    | JArr xs \<Rightarrow> map (\<lambda>i. (natStr i, xs ! i)) [0..<length xs]
    | _ \<Rightarrow> [])"

definition lookup :: "object \<Rightarrow> string \<Rightarrow> jsval" where
  "lookup cfg k = (case map_of cfg k of None \<Rightarrow> JUndef | Some v \<Rightarrow> v)"

definition mergeConfigObj ::
    "(string \<Rightarrow> jsval option) \<Rightarrow> 'cb world \<Rightarrow> object \<Rightarrow> jsval \<Rightarrow> node option \<Rightarrow> object" where
  "mergeConfigObj parseJson w dflt config element =
    (let jsonConfig = (case element of Some n \<Rightarrow> getDataAttribute parseJson w n ''config''
                       | None \<Rightarrow> JObj []) in
     spread (spread (spread dflt (spread_value jsonConfig))
       (getDataAttributes parseJson w element)) (spread_value config))"

text \<open>The expected types are regular expressions of the form \<open>t\<close> or \<open>(t1|t2|...)\<close>, tested without
  anchors.\<close>

definition type_alternatives :: "string \<Rightarrow> string list" where
  "type_alternatives ty = splitOn (CHR ''|'')
    (filter (\<lambda>c. c \<noteq> CHR ''('' \<and> c \<noteq> CHR '')'') ty)"

definition valueType :: "'cb world \<Rightarrow> jsval \<Rightarrow> string" where
  "valueType w v = (if isElement v then ''element'' else toType w v)"

datatype js_error = TypeError string | JsError string

fun typeCheckConfig ::
    "'cb world \<Rightarrow> object \<Rightarrow> (string \<times> string) list \<Rightarrow> js_error + unit" where
  "typeCheckConfig w config [] = Inr ()"
| "typeCheckConfig w config ((property, expectedTypes) # types) =
    (if \<not> list_ex (includes_str (valueType w (lookup config property))) (type_alternatives expectedTypes)
     then Inl (TypeError property)
     else typeCheckConfig w config types)"

definition getConfig ::
    "(string \<Rightarrow> jsval option) \<Rightarrow> 'cb world \<Rightarrow> object \<Rightarrow> (string \<times> string) list
      \<Rightarrow> (object \<Rightarrow> object) \<Rightarrow> jsval \<Rightarrow> node option \<Rightarrow> js_error + object" where
  "getConfig parseJson w dflt types configAfterMerge config element =
    (let config' = configAfterMerge (mergeConfigObj parseJson w dflt config element) in
     case typeCheckConfig w config' types of Inl e \<Rightarrow> Inl e | Inr _ \<Rightarrow> Inr config')"

section \<open>The registry of instances\<close>

type_synonym 'i registry = "node \<Rightarrow> (string \<times> 'i) list option"

definition Data_set :: "node \<Rightarrow> string \<Rightarrow> 'i \<Rightarrow> 'i registry \<Rightarrow> 'i registry" where
  "Data_set element key inst elementMap =
    (let elementMap' = (if elementMap element = None then elementMap(element := Some []) else elementMap);
         instanceMap = the (elementMap' element) in
     if key \<notin> fst ` set instanceMap \<and> length instanceMap \<noteq> 0 then elementMap'
     else elementMap'(element := Some (AList.update key inst instanceMap)))"

definition Data_get :: "node \<Rightarrow> string \<Rightarrow> 'i registry \<Rightarrow> 'i option" where
  "Data_get element key elementMap = (case elementMap element of
      Some instanceMap \<Rightarrow> map_of instanceMap key | None \<Rightarrow> None)"

definition Data_remove :: "node \<Rightarrow> string \<Rightarrow> 'i registry \<Rightarrow> 'i registry" where
  "Data_remove element key elementMap = (case elementMap element of
      None \<Rightarrow> elementMap
    | Some instanceMap \<Rightarrow>
        let instanceMap' = AList.delete key instanceMap in
        if length instanceMap' = 0 then elementMap(element := None)
        else elementMap(element := Some instanceMap'))"

definition DATA_KEY :: "string \<Rightarrow> string" where
  "DATA_KEY NAME = ''bs.'' @ NAME"

definition EVENT_KEY :: "string \<Rightarrow> string" where
  "EVENT_KEY NAME = ''.'' @ DATA_KEY NAME"

definition eventName :: "string \<Rightarrow> string \<Rightarrow> string" where
  "eventName NAME n = n @ EVENT_KEY NAME"

text \<open>\<open>new this(...)\<close> registers the instance after its options passed the check; \<open>build\<close> is the
  constructor of the component.\<close>

definition BaseComponent_new ::
    "string \<Rightarrow> (node \<Rightarrow> object \<Rightarrow> 'i) \<Rightarrow> js_error + object \<Rightarrow> node option \<Rightarrow> 'i registry
      \<Rightarrow> js_error + 'i option \<times> 'i registry" where
  "BaseComponent_new NAME build config element elementMap = (case element of
      None \<Rightarrow> Inr (None, elementMap)
    | Some n \<Rightarrow> (case config of
        Inl e \<Rightarrow> Inl e
      | Inr cfg \<Rightarrow> Inr (Some (build n cfg), Data_set n (DATA_KEY NAME) (build n cfg) elementMap)))"

definition BaseComponent_dispose ::
    "string \<Rightarrow> node \<Rightarrow> 'i registry \<times> 'cb world \<Rightarrow> 'i registry \<times> 'cb world" where
  "BaseComponent_dispose NAME n s =
    (Data_remove n (DATA_KEY NAME) (fst s), unlisten_ns n (EVENT_KEY NAME) (snd s))"

definition getInstance :: "string \<Rightarrow> 'cb world \<Rightarrow> jsval \<Rightarrow> 'i registry \<Rightarrow> 'i option" where
  "getInstance NAME w element elementMap = (case getElement w element of
      None \<Rightarrow> None | Some n \<Rightarrow> Data_get n (DATA_KEY NAME) elementMap)"

definition getOrCreateInstance ::
    "string \<Rightarrow> (node \<Rightarrow> object \<Rightarrow> 'i) \<Rightarrow> (jsval \<Rightarrow> js_error + object) \<Rightarrow> 'cb world \<Rightarrow> jsval
      \<Rightarrow> jsval \<Rightarrow> 'i registry \<Rightarrow> js_error + 'i option \<times> 'i registry" where
  "getOrCreateInstance NAME build config_of w element config elementMap =
    (case getInstance NAME w element elementMap of
       Some i \<Rightarrow> Inr (Some i, elementMap)
     | None \<Rightarrow> BaseComponent_new NAME build
         (config_of (case config of JObj ps \<Rightarrow> config | JArr xs \<Rightarrow> config | JNode n \<Rightarrow> config | _ \<Rightarrow> JNull))
         (getElement w element) elementMap)"

section \<open>The registry holds at most one component for an element\<close>

definition registry_ok :: "'i registry \<Rightarrow> bool" where
  "registry_ok d \<longleftrightarrow> (\<forall>n m. d n = Some m \<longrightarrow> length m = 1)"

text \<open>The abstract registry: for an element, nothing or one component under its key.\<close>

definition slot :: "'i registry \<Rightarrow> node \<Rightarrow> (string \<times> 'i) option" where
  "slot d n = (case d n of Some m \<Rightarrow> Some (hd m) | None \<Rightarrow> None)"

definition slot_set :: "node \<Rightarrow> string \<Rightarrow> 'i \<Rightarrow> (node \<Rightarrow> (string \<times> 'i) option)
    \<Rightarrow> node \<Rightarrow> (string \<times> 'i) option" where
  "slot_set n k i s = (case s n of
      None \<Rightarrow> s(n := Some (k, i))
    | Some (k', j) \<Rightarrow> if k' = k then s(n := Some (k, i)) else s)"

definition slot_get :: "node \<Rightarrow> string \<Rightarrow> (node \<Rightarrow> (string \<times> 'i) option) \<Rightarrow> 'i option" where
  "slot_get n k s = (case s n of Some (k', j) \<Rightarrow> if k' = k then Some j else None | None \<Rightarrow> None)"

definition slot_remove :: "node \<Rightarrow> string \<Rightarrow> (node \<Rightarrow> (string \<times> 'i) option)
    \<Rightarrow> node \<Rightarrow> (string \<times> 'i) option" where
  "slot_remove n k s = (case s n of
      Some (k', j) \<Rightarrow> if k' = k then s(n := None) else s | None \<Rightarrow> s)"

lemma registry_empty [simp]: "registry_ok (\<lambda>_. None)"
  by (simp add: registry_ok_def)

lemma registry_cases:
  assumes "registry_ok d"
  obtains "d n = None" | k i where "d n = Some [(k, i)]"
proof (cases "d n")
  case (Some m)
  then have "length m = 1" using assms(1) by (simp add: registry_ok_def)
  then obtain p where "m = [p]" by (auto simp: length_Suc_conv)
  then show ?thesis using that(2) Some by (cases p) simp
qed (rule that(1))

lemma Data_set_cases:
  assumes "registry_ok d"
  shows "Data_set n k i d = (case slot d n of
      None \<Rightarrow> d(n := Some [(k, i)])
    | Some (k', j) \<Rightarrow> if k' = k then d(n := Some [(k, i)]) else d)"
  using assms by (rule registry_cases [where n = n]) (auto simp: Data_set_def slot_def Let_def)

lemma Data_remove_cases:
  assumes "registry_ok d"
  shows "Data_remove n k d = (case slot d n of
      None \<Rightarrow> d | Some (k', j) \<Rightarrow> if k' = k then d(n := None) else d)"
  using assms by (rule registry_cases [where n = n])
    (auto simp: Data_remove_def slot_def Let_def AList.delete_eq)

lemma slot_upd: "slot (d(n := x)) = (slot d)(n := (case x of Some m \<Rightarrow> Some (hd m) | None \<Rightarrow> None))"
  by (rule ext) (simp add: slot_def)

text \<open>
  C24: the registry of instances refines a map with at most one component per element. The
  invariant that no element has an empty map or two entries is kept by both updates; setting is
  refused, and changes nothing, exactly when another component holds the element; reading
  returns what was set last under that key; removing one component's key leaves another's alone.\<close>

theorem registry_refines_slots:
  assumes "registry_ok d"
  shows "registry_ok (Data_set n k i d) \<and> slot (Data_set n k i d) = slot_set n k i (slot d) \<and>
    registry_ok (Data_remove n k d) \<and> slot (Data_remove n k d) = slot_remove n k (slot d) \<and>
    Data_get n k d = slot_get n k (slot d)"
proof (intro conjI)
  show "registry_ok (Data_set n k i d)" using assms
    by (auto simp: Data_set_cases registry_ok_def split: option.splits)
  show "slot (Data_set n k i d) = slot_set n k i (slot d)" using assms
    by (auto simp: Data_set_cases slot_set_def slot_upd split: option.splits)
  show "registry_ok (Data_remove n k d)" using assms
    by (auto simp: Data_remove_cases registry_ok_def split: option.splits)
  show "slot (Data_remove n k d) = slot_remove n k (slot d)" using assms
    by (auto simp: Data_remove_cases slot_remove_def slot_upd split: option.splits)
  show "Data_get n k d = slot_get n k (slot d)"
    using assms by (rule registry_cases [where n = n]) (auto simp: Data_get_def slot_get_def slot_def)
qed

lemma registry_refines_slots_witness:
  "registry_ok (Data_set 7 ''bs.modal'' (2::nat) (\<lambda>_. None)) \<and>
   Data_get 7 ''bs.modal'' (Data_set 7 ''bs.toast'' 3 (Data_set 7 ''bs.modal'' (2::nat) (\<lambda>_. None)))
     = Some 2"
proof -
  let ?d = "Data_set 7 ''bs.modal'' (2::nat) (\<lambda>_. None)"
  have ok: "registry_ok ?d" by (simp add: registry_ok_def Data_set_def Let_def)
  have s: "slot (Data_set 7 ''bs.toast'' 3 ?d) = slot_set 7 ''bs.toast'' 3 (slot ?d)"
    and ok2: "registry_ok (Data_set 7 ''bs.toast'' 3 ?d)"
    using registry_refines_slots [OF ok, of 7 "''bs.toast''" 3] by blast+
  have "Data_get 7 ''bs.modal'' (Data_set 7 ''bs.toast'' 3 ?d)
      = slot_get 7 ''bs.modal'' (slot (Data_set 7 ''bs.toast'' 3 ?d))"
    using registry_refines_slots [OF ok2, of 7 "''bs.modal''" 0] by blast
  also have "\<dots> = Some 2"
    by (simp add: s slot_set_def slot_get_def slot_def Data_set_def Let_def)
  finally show ?thesis using ok by blast
qed

section \<open>Which option wins\<close>

lemma map_of_spread: "map_of (spread a b) = map_of a ++ map_of (rev b)"
  unfolding spread_def
proof (induction b arbitrary: a)
  case (Cons p ps)
  obtain k v where p: "p = (k, v)" by force
  show ?case by (simp add: Cons p update_conv' map_add_def fun_eq_iff split: option.splits)
qed simp

lemma map_of_rev_distinct: "distinct (map fst b) \<Longrightarrow> map_of (rev b) = map_of b"
proof (induction b)
  case (Cons p ps)
  then have "map_of ps (fst p) = None" by (auto simp: map_of_eq_None_iff)
  then show ?case using Cons by (auto simp: fun_eq_iff map_add_def split: option.splits)
qed simp

lemma map_of_spread_distinct:
  "distinct (map fst b) \<Longrightarrow> map_of (spread a b) k =
    (case map_of b k of Some v \<Rightarrow> Some v | None \<Rightarrow> map_of a k)"
  by (simp add: map_of_spread map_add_def map_of_rev_distinct split: option.splits)



text \<open>The sources of an option, the strongest first.\<close>

lemma foldl_update_distinct:
  "distinct (map fst al) \<Longrightarrow>
    distinct (map fst (foldl (\<lambda>obj (k, v). AList.update (f k) (g v) obj) al ps))"
  by (induction ps arbitrary: al) (auto simp: distinct_update)

lemma getDataAttributes_distinct: "distinct (map fst (getDataAttributes pj w e))"
  unfolding getDataAttributes_def by (cases e) (auto intro: foldl_update_distinct)

text \<open>
  An option takes its value from the object passed to the constructor, failing that from
  the element's \<open>data-bs-\<close> attribute, failing that from the JSON of \<open>data-bs-config\<close>, failing that
  from the component's default.\<close>

theorem config_precedence:
  assumes "distinct (map fst (spread_value config))"
    and "distinct (map fst (spread_value (getDataAttribute pj w n ''config'')))"
  shows "map_of (mergeConfigObj pj w dflt config (Some n)) k =
    (case map_of (spread_value config) k of Some v \<Rightarrow> Some v
     | None \<Rightarrow> case map_of (getDataAttributes pj w (Some n)) k of Some v \<Rightarrow> Some v
     | None \<Rightarrow> case map_of (spread_value (getDataAttribute pj w n ''config'')) k of Some v \<Rightarrow> Some v
     | None \<Rightarrow> map_of dflt k)"
  using assms getDataAttributes_distinct[of pj w "Some n"]
  by (simp add: mergeConfigObj_def map_of_spread_distinct cong: option.case_cong)

definition blank_browser :: browser where
  "blank_browser = \<lparr>prevents = (\<lambda>_ _. False), querySelectorAll = (\<lambda>_ _ _. []),
    interfaceName = (\<lambda>_. ''HTMLElement''), cssEscape = (\<lambda>s. s), hasClientRects = (\<lambda>_ _. True),
    computedStyle = (\<lambda>_ _ _. []), clientWidth = (\<lambda>_ _. 1000), clientHeight = (\<lambda>_ _. 600),
    scrollHeight = (\<lambda>_ _. 300), scrollWidth = (\<lambda>_ _. 300), rectSize = (\<lambda>_ _ _. 100),
    innerWidth = 1000, hasTouchStart = False, maxTouchPoints = 0, hasPointerEvent = False,
    documentHidden = False,
    canFocus = (\<lambda>p n. tagName (p n) \<in> {''BUTTON'', ''INPUT'', ''SELECT'', ''TEXTAREA''} \<or>
      tagName (p n) = ''A'' \<and> map_of (attrs (p n)) ''href'' \<noteq> None \<or> map_of (attrs (p n)) ''tabindex'' \<noteq> None)\<rparr>"

definition plain_node :: "string \<Rightarrow> node option \<Rightarrow> node list \<Rightarrow> dom_node" where
  "plain_node tag par chs = \<lparr>tagName = tag, parentNode = par, childNodes = chs, classList = [],
    attrs = [], inlineStyle = (\<lambda>_. [])\<rparr>"

definition blank_world :: "page \<Rightarrow> nat \<Rightarrow> 'cb world" where
  "blank_world p k = \<lparr>page = p, nodeCount = k, activeElement = None, eventLog = [],
    listeners = [], transitions = [], env = blank_browser\<rparr>"

lemma config_precedence_witness:
  "map_of (mergeConfigObj (\<lambda>_. None)
      (blank_world ((\<lambda>_. plain_node ''DIV'' None [])(4 := (plain_node ''DIV'' None [])
        \<lparr>attrs := [(''data-bs-keyboard'', ''false''), (''data-bs-focus'', ''false'')]\<rparr>)) 5 :: unit world)
      [(''focus'', JBool True), (''keyboard'', JBool True)]
      (JObj [(''focus'', JBool True)]) (Some 4)) ''keyboard'' = Some (JBool False)"
proof -
  let ?w = "blank_world ((\<lambda>_. plain_node ''DIV'' None [])(4 := (plain_node ''DIV'' None [])
        \<lparr>attrs := [(''data-bs-keyboard'', ''false''), (''data-bs-focus'', ''false'')]\<rparr>)) 5 :: unit world"
  have d: "map_of (getDataAttributes (\<lambda>_. None) ?w (Some 4)) ''keyboard'' = Some (JBool False)"
    by code_simp
  show ?thesis
    by (subst config_precedence)
       (use d in \<open>simp_all add: spread_value_def getDataAttribute_def get_attr_def blank_world_def
          plain_node_def data_bs_def is_upper_def normalizeData_def attr_value_def\<close>)
qed


section \<open>Data attributes come back as what was stored\<close>

lemma char_digit: "(d::nat) < 10 \<Longrightarrow> is_digit (char_of (48 + d)) \<and> digit_val (char_of (48 + d)) = d"
  by (simp add: is_digit_def digit_val_def)

lemma char_digit1: "(d::nat) < 10 \<Longrightarrow> is_digit (char_of (48 + d))"
  using char_digit by blast

lemma digits_rev_digit: "list_all is_digit (digits_rev k n)"
  by (induction k n rule: digits_rev.induct) (auto intro: char_digit1)

lemma digitsVal_rev_digits:
  "n < 10 ^ k \<Longrightarrow> digitsVal (rev (digits_rev k n)) = n"
proof (induction k n rule: digits_rev.induct)
  case (2 k n)
  have m: "digit_val (char_of (48 + n mod 10)) = n mod 10" using char_digit[of "n mod 10"] by simp
  show ?case
  proof (cases "n < 10")
    case True
    then show ?thesis using m by (simp add: digitsVal_def)
  next
    case False
    then have "digitsVal (rev (digits_rev k (n div 10))) = n div 10" using 2 by simp
    then show ?thesis using m False by (simp add: digitsVal_def)
  qed
qed (simp add: digitsVal_def)

lemma less_ten_pow: "n < 10 ^ Suc n"
proof -
  have "n < 2 ^ n" by (rule less_exp)
  also have "(2::nat) ^ n \<le> 10 ^ n" by (rule power_mono) simp_all
  also have "(10::nat) ^ n \<le> 10 ^ Suc n" by simp
  finally show ?thesis .
qed

lemma digitsVal_natStr [simp]: "digitsVal (natStr n) = n"
  unfolding natStr_def by (rule digitsVal_rev_digits [OF less_ten_pow])

lemma natStr_digits [simp]: "list_all is_digit (natStr n)"
  using digits_rev_digit [of "Suc n" n]
  by (simp add: natStr_def list_all_iff del: digits_rev.simps)

lemma digit_val_zero: "digit_val (CHR ''0'') = 0"
  by code_simp

lemma digits_rev_last: "0 < k \<Longrightarrow> 0 < n \<Longrightarrow> n < 10 ^ k \<Longrightarrow> last (digits_rev k n) \<noteq> CHR ''0''"
proof (induction k n rule: digits_rev.induct)
  case (2 k n)
  show ?case
  proof (cases "n < 10")
    case True
    have "digit_val (char_of (48 + n)) = n" using True char_digit by blast
    then have "char_of (48 + n) \<noteq> CHR ''0''" using 2(3)
      by (metis (full_types) digit_val_zero less_numeral_extra(3))
    then show ?thesis using True by simp
  next
    case False
    then have k: "0 < k" using 2(4) by (cases k) auto
    have "digits_rev k (n div 10) \<noteq> []" using k by (cases k) auto
    then show ?thesis using 2 False k by simp
  qed
qed simp

lemma natStr_hd: "0 < n \<Longrightarrow> hd (natStr n) \<noteq> CHR ''0''"
  unfolding natStr_def by (simp add: hd_rev digits_rev_last less_ten_pow del: digits_rev.simps power_Suc)

lemma digits_rev_length: "n < 10 ^ k \<Longrightarrow> 0 < k \<Longrightarrow> length (digits_rev j n) \<le> k"
proof (induction j n arbitrary: k rule: digits_rev.induct)
  case (2 j n)
  show ?case
  proof (cases "n < 10")
    case False
    then obtain m where m: "k = Suc m" "0 < m" using 2(2,3) by (cases k; cases "k - 1") auto
    then show ?thesis using 2(1)[OF False, of m] 2(2) False by simp
  qed (use 2 in simp)
qed simp

lemma takeWhile_digits [simp]: "takeWhile is_digit (natStr n) = natStr n"
  using natStr_digits[of n] by (simp add: takeWhile_eq_all_conv list_all_iff)

lemma dropWhile_digits [simp]: "dropWhile is_digit (natStr n) = []"
  using natStr_digits[of n] by (simp add: list_all_iff)

lemma natStr_hd_digit: "is_digit (hd (natStr n))"
  using natStr_digits[of n] by (cases "natStr n") auto

lemma natStr_no_sign: "signSplit (natStr n) = (1, natStr n)" "trimLeft (natStr n) = natStr n"
    "startsWith (natStr n) ''-'' = False" "natStr n \<noteq> ''true''" "natStr n \<noteq> ''false''"
    "natStr n \<noteq> ''-0''"
proof -
  obtain c cs where c: "natStr n = c # cs" "is_digit c"
    using natStr_digits[of n] natStr_nonempty[of n] by (cases "natStr n") auto
  have ne: "c \<noteq> CHR ''-''" "c \<noteq> CHR ''+''" "c \<noteq> CHR ''t''" "c \<noteq> CHR ''f''" "\<not> is_white c"
    using c(2) by (auto simp: is_digit_def is_white_def)
  show "signSplit (natStr n) = (1, natStr n)" "trimLeft (natStr n) = natStr n"
    "startsWith (natStr n) ''-'' = False" "natStr n \<noteq> ''true''" "natStr n \<noteq> ''false''"
    "natStr n \<noteq> ''-0''"
    using c(1) ne by (auto simp: signSplit_def trimLeft_def)
qed

lemma natStr_zero: "natStr 0 = ''0''"
  by code_simp

lemma canonical_natStr: "n < 10 ^ 15 \<Longrightarrow> canonical_number (natStr n)"
proof -
  assume "n < 10 ^ 15"
  then have "length (natStr n) \<le> 15"
    unfolding natStr_def using digits_rev_length[of n 15 "Suc n"] by (simp del: digits_rev.simps)
  moreover have "hd (natStr n) = CHR ''0'' \<longrightarrow> length (natStr n) = 1"
    using natStr_hd[of n] by (cases "n = 0") (auto simp: natStr_zero)
  moreover have "takeWhile is_digit (natStr n) = natStr n" "dropWhile is_digit (natStr n) = []"
    by (rule takeWhile_digits dropWhile_digits)+
  ultimately show ?thesis by (simp only: canonical_number_def Let_def natStr_no_sign if_False) simp
qed

lemma parseFloat_natStr: "parseFloat (natStr n) = JNum (of_nat n)"
  by (simp add: parseFloat_def Let_def natStr_no_sign digitsVal_def[of "[]"])

lemma lower_upper_char: "is_lower c \<Longrightarrow> lower_char (upper_char c) = c"
  "is_upper c \<Longrightarrow> upper_char (lower_char c) = c" "is_upper c \<Longrightarrow> is_lower (lower_char c)"
  by (auto simp: lower_char_def upper_char_def is_lower_def is_upper_def Let_def)


lemma upper_not_minus: "is_upper c \<Longrightarrow> c \<noteq> CHR ''-''" "is_lower c \<Longrightarrow> c \<noteq> CHR ''-''"
  by (auto simp: is_upper_def is_lower_def)

lemma camel_cons: "c \<noteq> CHR ''-'' \<Longrightarrow> camel (c # cs) = c # camel cs"
  by (cases cs) auto

lemma camel_normalize: "list_all (\<lambda>c. is_upper c \<or> is_lower c) key \<Longrightarrow> camel (normalizeDataKey key) = key"
proof (induction key)
  case (Cons c cs)
  then show ?case
    by (cases "is_upper c") (auto simp: camel_cons lower_upper_char upper_not_minus)
qed simp

definition option_key :: "string \<Rightarrow> bool" where
  "option_key key \<longleftrightarrow> key \<noteq> [] \<and> is_lower (hd key) \<and> list_all (\<lambda>c. is_upper c \<or> is_lower c) key"

lemma is_lower_not_upper: "is_lower c \<Longrightarrow> \<not> is_upper c"
  by (auto simp: is_lower_def is_upper_def)

lemma dataset_key:
  assumes "option_key key"
  shows "camel (drop 5 (data_bs key)) = ''bs'' @ upper_char (hd key) # tl key"
proof -
  obtain c cs where k: "key = c # cs" "is_lower c" "list_all (\<lambda>c. is_upper c \<or> is_lower c) cs"
    using assms by (cases key) (auto simp: option_key_def)
  have "drop 5 (data_bs key) = CHR ''b'' # CHR ''s'' # CHR ''-'' # c # normalizeDataKey cs"
    using k by (simp add: data_bs_def is_lower_not_upper)
  then show ?thesis using k camel_normalize[OF k(3)] by (simp add: camel_cons)
qed

lemma upper_not_lower: "is_lower c \<Longrightarrow> is_upper (upper_char c)"
  by (auto simp: is_lower_def is_upper_def upper_char_def Let_def)

lemma camel_hd: "startsWith (camel r) (p # ps) \<Longrightarrow> is_lower p \<Longrightarrow>
    \<exists>r'. r = p # r' \<and> startsWith (camel r') ps"
proof (induction r rule: camel.induct)
  case (2 c)
  then show ?case by (cases ps) auto
next
  case (3 c d cs)
  have "\<not> (c = CHR ''-'' \<and> is_lower d)"
    using 3 upper_not_lower[of d] is_lower_not_upper[of p] by auto
  then show ?case using 3 by auto
qed simp

lemma dataset_bs: "startsWith (camel r) ''bs'' \<Longrightarrow> startsWith r ''bs''"
  by (auto dest!: camel_hd simp: is_lower_def)

lemma startsWith_append: "startsWith s p \<Longrightarrow> s = p @ drop (length p) s"
  by (induction s p rule: startsWith.induct) auto

lemma startsWith_self: "startsWith (p @ s) p"
  by (induction p) auto

lemma startsWith_data_bs:
  assumes "startsWith a ''data-''" and "startsWith (camel (drop 5 a)) ''bs''"
  shows "startsWith a ''data-bs''"
proof -
  obtain r where a: "a = ''data-'' @ r"
    using startsWith_append[OF assms(1)] by blast
  then have "startsWith (camel r) ''bs''" using assms(2) by simp
  then obtain t where "r = ''bs'' @ t" using startsWith_append [OF dataset_bs] by blast
  then have "a = ''data-bs'' @ t" using a by simp
  then show ?thesis using startsWith_self by metis
qed

lemma dataset_plain:
  assumes "list_all (\<lambda>(a, v). \<not> startsWith a ''data-bs'') al"
  shows "filter (\<lambda>(key, v). startsWith key ''bs'' \<and> \<not> startsWith key ''bsConfig'')
    (concat (map (\<lambda>(a, v). if startsWith a ''data-'' then [(camel (drop 5 a), v)] else []) al)) = []"
  using assms by (induction al) (auto dest: startsWith_data_bs)

lemma upper_C: "is_lower c \<Longrightarrow> upper_char c = CHR ''C'' \<Longrightarrow> c = CHR ''c''"
proof -
  assume "is_lower c" "upper_char c = CHR ''C''"
  then have "c = lower_char (CHR ''C'')" using lower_upper_char(1) by metis
  also have "lower_char (CHR ''C'') = CHR ''c''" by code_simp
  finally show ?thesis .
qed

text \<open>
  What is stored in a data attribute comes back. On an element without other \<open>data-bs\<close>
  attributes, storing a value under an option's name makes the element's data attributes exactly
  that option, with the value normalised: a Boolean and a natural number below \<open>10 ^ 15\<close> come
  back as themselves.\<close>

theorem data_attribute_roundtrip:
  assumes "option_key key" and "key \<noteq> ''config''"
    and "\<not> startsWith key ''config''"
    and "list_all (\<lambda>(a, v). \<not> startsWith a ''data-bs'') (attrs (page w n))"
  shows "getDataAttributes pj (setDataAttribute n key v w) (Some n) = [(key, normalizeData pj (JStr v))]
    \<and> getDataAttribute pj (setDataAttribute n key v w) n key = normalizeData pj (JStr v)
    \<and> normalizeData pj (JStr (boolStr b)) = JBool b
    \<and> (m < 10 ^ 15 \<longrightarrow> normalizeData pj (JStr (natStr m)) = JNum (of_nat m))"
proof (intro conjI impI)
  have new: "AList.update (data_bs key) v al = al @ [(data_bs key, v)]"
    if "list_all (\<lambda>(a, v). \<not> startsWith a ''data-bs'') al" for al
    using that by (induction al) (auto simp: data_bs_def)
  obtain c cs where k: "key = c # cs" "is_lower c"
    using assms(1) by (cases key) (auto simp: option_key_def)
  have conf: "\<not> startsWith (CHR ''b'' # CHR ''s'' # upper_char (hd key) # tl key) ''bsConfig''"
    using assms(3) k upper_C[of c] by auto
  show "getDataAttributes pj (setDataAttribute n key v w) (Some n) = [(key, normalizeData pj (JStr v))]"
  proof -
    have a: "attrs (page (setDataAttribute n key v w) n) = attrs (page w n) @ [(data_bs key, v)]"
      using new[OF assms(4)] by (simp add: setDataAttribute_def set_attr_def upd_node_page)
    have d: "startsWith (data_bs key) ''data-''" by (simp add: data_bs_def)
    have low: "lower_first (drop 2 (''bs'' @ upper_char (hd key) # tl key)) = key"
      using k by (simp add: lower_first_def lower_upper_char)
    show ?thesis
      using dataset_plain[OF assms(4)] conf low
      by (simp add: getDataAttributes_def dataset_def a d dataset_key[OF assms(1)])
  qed
  show "getDataAttribute pj (setDataAttribute n key v w) n key = normalizeData pj (JStr v)"
    by (simp add: getDataAttribute_def setDataAttribute_def attr_value_def)
  show "normalizeData pj (JStr (boolStr b)) = JBool b"
    by (simp add: normalizeData_def boolStr_def)
  assume "m < 10 ^ 15"
  then show "normalizeData pj (JStr (natStr m)) = JNum (of_nat m)"
    by (simp add: normalizeData_def natStr_no_sign canonical_natStr parseFloat_natStr)
qed


lemma data_attribute_roundtrip_witness:
  "getDataAttribute (\<lambda>_. None)
    (setDataAttribute 4 ''autoClose'' ''outside'' (blank_world (\<lambda>_. plain_node ''DIV'' None []) 5 :: unit world))
    4 ''autoClose'' = JStr ''outside''"
proof -
  have h: "option_key ''autoClose''" "\<not> startsWith ''autoClose'' ''config''" by code_simp+
  have "getDataAttribute (\<lambda>_. None)
      (setDataAttribute 4 ''autoClose'' ''outside'' (blank_world (\<lambda>_. plain_node ''DIV'' None []) 5 :: unit world))
      4 ''autoClose'' = normalizeData (\<lambda>_. None) (JStr ''outside'')"
    using data_attribute_roundtrip [OF h(1) _ h(2),
        of "blank_world (\<lambda>_. plain_node ''DIV'' None []) 5 :: unit world" 4 "\<lambda>_. None" "''outside''"]
    by (simp add: blank_world_def plain_node_def)
  also have "\<dots> = JStr ''outside''" by code_simp
  finally show ?thesis .
qed

end
