(* ===== verification/BsEvents.thy ===== *)
theory BsEvents
  imports BsConfig
begin

text \<open>
  \<open>dom/event-handler.js\<close>: the registry of handlers behind \<open>EventHandler.on\<close>, \<open>one\<close> and
  \<open>off\<close>, and the listeners it adds to and removes from the elements. Functions are compared by
  identity: a wrapped function carries the number of its closure. \<open>Object.values\<close> is taken in
  the order of insertion; the results do not depend on it.
\<close>

section \<open>Names of events\<close>

definition customEvents :: "string \<Rightarrow> string option" where
  "customEvents e = (if e = ''mouseenter'' then Some ''mouseover''
    else if e = ''mouseleave'' then Some ''mouseout'' else None)"

definition nativeEvents :: "string list" where
  "nativeEvents = [''click'', ''dblclick'', ''mouseup'', ''mousedown'', ''contextmenu'', ''mousewheel'',
    ''DOMMouseScroll'', ''mouseover'', ''mouseout'', ''mousemove'', ''selectstart'', ''selectend'',
    ''keydown'', ''keypress'', ''keyup'', ''orientationchange'', ''touchstart'', ''touchmove'',
    ''touchend'', ''touchcancel'', ''pointerdown'', ''pointermove'', ''pointerup'', ''pointerleave'',
    ''pointercancel'', ''gesturestart'', ''gesturechange'', ''gestureend'', ''focus'', ''blur'',
    ''change'', ''reset'', ''select'', ''submit'', ''focusin'', ''focusout'', ''load'', ''unload'',
    ''beforeunload'', ''resize'', ''move'', ''DOMContentLoaded'', ''readystatechange'', ''error'',
    ''abort'', ''scroll'']"

definition getTypeEvent :: "string \<Rightarrow> string" where
  "getTypeEvent event = (let e = takeWhile (\<lambda>c. c \<noteq> CHR ''.'') event in
    case customEvents e of Some t \<Rightarrow> t | None \<Rightarrow> e)"

text \<open>\<open>replace(namespaceRegex, '')\<close>: what follows the first dot.\<close>

definition namespace_of :: "string \<Rightarrow> string" where
  "namespace_of event = drop 1 (dropWhile (\<lambda>c. c \<noteq> CHR ''.'') event)"

text \<open>\<open>replace(stripUidRegex, '')\<close>: without the \<open>::digits\<close> at the end.\<close>

definition strip_uid :: "string \<Rightarrow> string" where
  "strip_uid key = (let r = dropWhile is_digit (rev key) in
    if r \<noteq> rev key \<and> startsWith r ''::'' then rev (drop 2 r) else key)"

section \<open>State\<close>

datatype 'f callable = Fn 'f | Wrapped 'f nat

datatype 'f handler_arg = HFun 'f | HSelector string | HFalse | HUndefined

record 'f handler =
  uid :: string
  callable :: "'f callable option"
  delegationSelector :: "string option"
  oneOff :: bool

record 'f events_state =
  uidEvent :: nat
  closures :: nat
  elementUid :: "node \<Rightarrow> nat option"
  eventRegistry :: "nat \<Rightarrow> (string \<times> 'f handler list) list"
  nativeListeners :: "(node \<times> string \<times> string \<times> bool) list"

definition events_start :: "'f events_state" where
  "events_start = \<lparr>uidEvent = 1, closures = 0, elementUid = (\<lambda>_. None),
    eventRegistry = (\<lambda>_. []), nativeListeners = []\<rparr>"

definition handlers_of :: "'f events_state \<Rightarrow> node \<Rightarrow> string \<Rightarrow> 'f handler list" where
  "handlers_of s n t = (case elementUid s n of
      None \<Rightarrow> [] | Some u \<Rightarrow> (case map_of (eventRegistry s u) t of Some hs \<Rightarrow> hs | None \<Rightarrow> []))"

section \<open>Operations\<close>

text \<open>\<open>makeEventUid(element)\<close> for an element, and with a name space for a handler.\<close>

definition makeEventUid_element :: "node \<Rightarrow> 'f events_state \<Rightarrow> nat \<times> 'f events_state" where
  "makeEventUid_element n s = (case elementUid s n of
      Some u \<Rightarrow> (u, s) | None \<Rightarrow> (uidEvent s, s\<lparr>uidEvent := Suc (uidEvent s)\<rparr>))"

definition makeEventUid_handler :: "string \<Rightarrow> 'f events_state \<Rightarrow> string \<times> 'f events_state" where
  "makeEventUid_handler ns s =
    ((if ns \<noteq> [] then ns @ ''::'' @ natStr (uidEvent s) else natStr (uidEvent s)),
     s\<lparr>uidEvent := Suc (uidEvent s)\<rparr>)"

definition getElementEvents :: "node \<Rightarrow> 'f events_state \<Rightarrow> nat \<times> 'f events_state" where
  "getElementEvents n s = (let (u, s') = makeEventUid_element n s in
    (u, s'\<lparr>elementUid := (elementUid s')(n := Some u)\<rparr>))"

definition findHandler ::
    "'f handler list \<Rightarrow> 'f callable option \<Rightarrow> string option \<Rightarrow> 'f handler option" where
  "findHandler events f sel =
    List.find (\<lambda>h. callable h = f \<and> delegationSelector h = sel) events"

definition normalizeParameters ::
    "string \<Rightarrow> 'f handler_arg \<Rightarrow> 'f option \<Rightarrow> bool \<times> 'f option \<times> string" where
  "normalizeParameters originalTypeEvent handler delegationFunction =
    (let isDelegated = (case handler of HSelector s \<Rightarrow> True | _ \<Rightarrow> False);
         f = (case handler of HFun g \<Rightarrow> Some g | _ \<Rightarrow> delegationFunction);
         typeEvent = getTypeEvent originalTypeEvent in
     (isDelegated, f,
      if typeEvent \<notin> set nativeEvents then originalTypeEvent else typeEvent))"

definition selector_of :: "'f handler_arg \<Rightarrow> string option" where
  "selector_of handler = (case handler of HSelector s \<Rightarrow> Some s | _ \<Rightarrow> None)"

definition put_handlers :: "nat \<Rightarrow> string \<Rightarrow> 'f handler list \<Rightarrow> 'f events_state \<Rightarrow> 'f events_state" where
  "put_handlers u t hs s =
    s\<lparr>eventRegistry := (eventRegistry s)(u := AList.update t hs (eventRegistry s u))\<rparr>"

definition get_handlers :: "nat \<Rightarrow> string \<Rightarrow> 'f events_state \<Rightarrow> 'f handler list" where
  "get_handlers u t s = (case map_of (eventRegistry s u) t of Some hs \<Rightarrow> hs | None \<Rightarrow> [])"

definition addHandler ::
    "node option \<Rightarrow> string \<Rightarrow> 'f handler_arg \<Rightarrow> 'f option \<Rightarrow> bool \<Rightarrow> 'f events_state \<Rightarrow> 'f events_state" where
  "addHandler element originalTypeEvent handler delegationFunction once s = (case element of
      None \<Rightarrow> s
    | Some n \<Rightarrow>
      let (isDelegated, f, typeEvent) = normalizeParameters originalTypeEvent handler delegationFunction;
          (c, s0) = (if customEvents originalTypeEvent \<noteq> None
            then (map_option (\<lambda>g. Wrapped g (closures s)) f, s\<lparr>closures := Suc (closures s)\<rparr>)
            else (map_option Fn f, s));
          (u, s1) = getElementEvents n s0;
          hs = get_handlers u typeEvent s1 in
      case findHandler hs c (selector_of handler) of
        Some previous \<Rightarrow> put_handlers u typeEvent
          (map (\<lambda>h. if uid h = uid previous then h\<lparr>oneOff := oneOff h \<and> once\<rparr> else h) hs) s1
      | None \<Rightarrow>
          let (i, s2) = makeEventUid_handler (namespace_of originalTypeEvent) s1;
              fn = \<lparr>uid = i, callable = c, delegationSelector = selector_of handler, oneOff = once\<rparr>;
              s3 = put_handlers u typeEvent (hs @ [fn]) s2 in
          s3\<lparr>nativeListeners := nativeListeners s3 @ [(n, typeEvent, i, isDelegated)]\<rparr>)"

definition removeHandler ::
    "node \<Rightarrow> nat \<Rightarrow> string \<Rightarrow> 'f callable option \<Rightarrow> string option \<Rightarrow> 'f events_state \<Rightarrow> 'f events_state" where
  "removeHandler n u typeEvent handler sel s =
    (case findHandler (get_handlers u typeEvent s) handler sel of
       None \<Rightarrow> s
     | Some fn \<Rightarrow>
         let s' = s\<lparr>nativeListeners :=
           removeAll (n, typeEvent, uid fn, sel \<noteq> None \<and> sel \<noteq> Some []) (nativeListeners s)\<rparr> in
         put_handlers u typeEvent (filter (\<lambda>h. uid h \<noteq> uid fn) (get_handlers u typeEvent s)) s')"

definition removeNamespacedHandlers ::
    "node \<Rightarrow> nat \<Rightarrow> string \<Rightarrow> string \<Rightarrow> 'f events_state \<Rightarrow> 'f events_state" where
  "removeNamespacedHandlers n u typeEvent ns s =
    fold (\<lambda>h. if includes_str (uid h) ns
              then removeHandler n u typeEvent (callable h) (delegationSelector h) else id)
      (get_handlers u typeEvent s) s"

definition EventHandler_on ::
    "node option \<Rightarrow> string \<Rightarrow> 'f handler_arg \<Rightarrow> 'f option \<Rightarrow> 'f events_state \<Rightarrow> 'f events_state" where
  "EventHandler_on element event handler delegationFunction =
    addHandler element event handler delegationFunction False"

definition EventHandler_one ::
    "node option \<Rightarrow> string \<Rightarrow> 'f handler_arg \<Rightarrow> 'f option \<Rightarrow> 'f events_state \<Rightarrow> 'f events_state" where
  "EventHandler_one element event handler delegationFunction =
    addHandler element event handler delegationFunction True"

definition EventHandler_off_callable ::
    "node option \<Rightarrow> string \<Rightarrow> 'f callable option \<Rightarrow> string option \<Rightarrow> string \<Rightarrow> 'f events_state
      \<Rightarrow> 'f events_state" where
  "EventHandler_off_callable element originalTypeEvent c sel typeEvent s = (case element of
      None \<Rightarrow> s
    | Some n \<Rightarrow>
      let inNamespace = (typeEvent \<noteq> originalTypeEvent);
          (u, s1) = getElementEvents n s;
          storeElementEvent = get_handlers u typeEvent s1;
          isNamespace = startsWith originalTypeEvent ''.'' in
      if c \<noteq> None then
        (if storeElementEvent = [] then s1 else removeHandler n u typeEvent c sel s1)
      else
        let s2 = (if isNamespace
              then fold (\<lambda>t. removeNamespacedHandlers n u t (drop 1 originalTypeEvent))
                     (map fst (eventRegistry s1 u)) s1
              else s1) in
        fold (\<lambda>h. if \<not> inNamespace \<or> includes_str originalTypeEvent (strip_uid (uid h))
                  then removeHandler n u typeEvent (callable h) (delegationSelector h) else id)
          storeElementEvent s2)"

definition EventHandler_off ::
    "node option \<Rightarrow> string \<Rightarrow> 'f handler_arg \<Rightarrow> 'f option \<Rightarrow> 'f events_state \<Rightarrow> 'f events_state" where
  "EventHandler_off element originalTypeEvent handler delegationFunction =
    (let (isDelegated, f, typeEvent) = normalizeParameters originalTypeEvent handler delegationFunction in
     EventHandler_off_callable element originalTypeEvent (map_option Fn f) (selector_of handler) typeEvent)"

section \<open>Delivery of an event\<close>

text \<open>\<open>path\<close> is the chain from the target of the event up to, but not including, the element of
  the handler; \<open>matches sel m\<close> says whether \<open>m\<close> is among \<open>element.querySelectorAll(sel)\<close>.\<close>

definition delegate_target :: "(string \<Rightarrow> node \<Rightarrow> bool) \<Rightarrow> string \<Rightarrow> node list \<Rightarrow> node option" where
  "delegate_target matches sel path = List.find (matches sel) path"

text \<open>What one handler does with an event of type \<open>t\<close> on the element \<open>n\<close>: the node and the
  function it calls, and the registry after it removed itself when it is one-off. The removal
  runs through \<open>off\<close> with the type of the event.\<close>

definition invoke ::
    "(string \<Rightarrow> node \<Rightarrow> bool) \<Rightarrow> node list \<Rightarrow> node \<Rightarrow> string \<Rightarrow> 'f handler
      \<Rightarrow> (node \<times> 'f callable) list \<times> 'f events_state \<Rightarrow> (node \<times> 'f callable) list \<times> 'f events_state" where
  "invoke matches path n t h r =
    (case (case delegationSelector h of None \<Rightarrow> Some n | Some sel \<Rightarrow> delegate_target matches sel path) of
       None \<Rightarrow> r
     | Some this \<Rightarrow>
         let t' = (if getTypeEvent t \<notin> set nativeEvents then t else getTypeEvent t);
             s' = (if oneOff h
                   then EventHandler_off_callable (Some n) t (callable h) (delegationSelector h) t' (snd r)
                   else snd r) in
         (fst r @ (case callable h of Some c \<Rightarrow> [(this, c)] | None \<Rightarrow> []), s'))"

definition deliver ::
    "(string \<Rightarrow> node \<Rightarrow> bool) \<Rightarrow> node list \<Rightarrow> node \<Rightarrow> string \<Rightarrow> 'f events_state
      \<Rightarrow> (node \<times> 'f callable) list \<times> 'f events_state" where
  "deliver matches path n t s = fold (invoke matches path n t) (handlers_of s n t) ([], s)"

section \<open>Fresh identifiers\<close>

definition uid_number :: "string \<Rightarrow> nat" where
  "uid_number i = digitsVal (rev (takeWhile is_digit (rev i)))"

lemma rev_natStr_digits: "takeWhile is_digit (rev (natStr k)) = rev (natStr k)"
  using natStr_digits[of k] by (simp add: takeWhile_eq_all_conv list_all_iff)

lemma uid_number_plain [simp]: "uid_number (natStr k) = k"
  by (simp add: uid_number_def rev_natStr_digits)

lemma uid_number_ns [simp]: "uid_number (ns @ CHR '':'' # CHR '':'' # natStr k) = k"
proof -
  have "takeWhile is_digit (rev (natStr k) @ CHR '':'' # CHR '':'' # rev ns) = rev (natStr k)"
    using natStr_digits[of k]
    by (subst takeWhile_append2) (auto simp: list_all_iff is_digit_def)
  then show ?thesis by (simp add: uid_number_def)
qed

lemma makeEventUid_handler_number:
  "makeEventUid_handler ns s = (i, s') \<Longrightarrow>
    uid_number i = uidEvent s \<and> s' = s\<lparr>uidEvent := Suc (uidEvent s)\<rparr>"
  by (auto simp: makeEventUid_handler_def split: if_splits)

section \<open>The registry mirrors the listeners of the page\<close>

definition handlers_ok :: "nat \<Rightarrow> 'f handler list \<Rightarrow> bool" where
  "handlers_ok k hs \<longleftrightarrow> distinct (map uid hs) \<and>
    (\<forall>h\<in>set hs. uid_number (uid h) < k \<and> delegationSelector h \<noteq> Some [])"

definition uids_ok :: "'f events_state \<Rightarrow> bool" where
  "uids_ok s \<longleftrightarrow>
    (\<forall>m n u. elementUid s m = Some u \<longrightarrow> elementUid s n = Some u \<longrightarrow> m = n) \<and>
    (\<forall>n u. elementUid s n = Some u \<longrightarrow> u < uidEvent s) \<and>
    (\<forall>u. uidEvent s \<le> u \<longrightarrow> eventRegistry s u = [])"

definition capture :: "'f handler \<Rightarrow> bool" where
  "capture h = (delegationSelector h \<noteq> None)"

definition mirrored :: "'f events_state \<Rightarrow> bool" where
  "mirrored s \<longleftrightarrow> (\<forall>n t i c. (n, t, i, c) \<in> set (nativeListeners s) \<longleftrightarrow>
    (\<exists>h\<in>set (handlers_of s n t). uid h = i \<and> c = capture h))"

definition events_ok :: "'f events_state \<Rightarrow> bool" where
  "events_ok s \<longleftrightarrow> uids_ok s \<and> mirrored s \<and> (\<forall>n t. handlers_ok (uidEvent s) (handlers_of s n t))"

lemma events_start_ok: "events_ok events_start"
  by (simp add: events_ok_def uids_ok_def mirrored_def handlers_ok_def handlers_of_def events_start_def)

lemma uids_okD: "uids_ok s \<Longrightarrow> uidEvent s \<le> u \<Longrightarrow> eventRegistry s u = []"
  by (simp add: uids_ok_def)

lemma uids_ok_inj: "uids_ok s \<Longrightarrow> elementUid s n = Some u \<Longrightarrow> elementUid s m = Some u \<longleftrightarrow> m = n"
  by (auto simp: uids_ok_def)

lemma handlers_ok_mono: "handlers_ok k hs \<Longrightarrow> k \<le> j \<Longrightarrow> handlers_ok j hs"
  by (auto simp: handlers_ok_def)

lemma getElementEvents_spec:
  assumes "uids_ok s" and "getElementEvents n s = (u, s1)"
  shows "uids_ok s1" and "elementUid s1 n = Some u" and "handlers_of s1 m t = handlers_of s m t"
    and "nativeListeners s1 = nativeListeners s" and "uidEvent s \<le> uidEvent s1"
    and "get_handlers u t s1 = handlers_of s n t"
proof -
  have cases: "(elementUid s n = None \<and> u = uidEvent s \<and>
      s1 = s\<lparr>uidEvent := Suc u, elementUid := (elementUid s)(n := Some u)\<rparr>) \<or>
    (elementUid s n = Some u \<and> s1 = s)"
  proof (cases "elementUid s n")
    case (Some v)
    then have "(elementUid s)(n := Some v) = elementUid s" by (simp add: fun_upd_idem)
    then show ?thesis using assms(2) Some
      by (auto simp: getElementEvents_def makeEventUid_element_def)
  qed (use assms(2) in \<open>auto simp: getElementEvents_def makeEventUid_element_def\<close>)
  have lt: "\<And>m v. elementUid s m = Some v \<Longrightarrow> v < uidEvent s" using assms(1) by (simp add: uids_ok_def)
  show "uids_ok s1"
    using cases assms(1) by (elim disjE conjE) (auto dest!: lt simp: uids_ok_def less_Suc_eq)
  show el: "elementUid s1 n = Some u" using cases by auto
  show "nativeListeners s1 = nativeListeners s" using cases by auto
  show "uidEvent s \<le> uidEvent s1" using cases by auto
  show h: "handlers_of s1 m t = handlers_of s m t" for m t
    using cases uids_okD[OF assms(1), of "uidEvent s"]
    by (auto simp: handlers_of_def cong: option.case_cong)
  show "get_handlers u t s1 = handlers_of s n t"
    using h[of n t] el by (simp add: handlers_of_def get_handlers_def)
qed

lemma put_handlers_spec:
  assumes "uids_ok s" and "elementUid s n = Some u"
  shows "uids_ok (put_handlers u t hs s)"
    and "handlers_of (put_handlers u t hs s) m r = (if m = n \<and> r = t then hs else handlers_of s m r)"
    and "nativeListeners (put_handlers u t hs s) = nativeListeners s"
    and "uidEvent (put_handlers u t hs s) = uidEvent s"
    and "elementUid (put_handlers u t hs s) = elementUid s"
proof -
  have lt: "u < uidEvent s" using assms by (simp add: uids_ok_def)
  then show "uids_ok (put_handlers u t hs s)"
    using assms(1) by (auto simp: uids_ok_def put_handlers_def)
  show "handlers_of (put_handlers u t hs s) m r = (if m = n \<and> r = t then hs else handlers_of s m r)"
    using uids_ok_inj[OF assms, of m] assms(2)
    by (auto simp: handlers_of_def put_handlers_def update_conv' split: option.splits)
qed (simp_all add: put_handlers_def)

lemma get_handlers_of: "elementUid s n = Some u \<Longrightarrow> get_handlers u t s = handlers_of s n t"
  by (simp add: handlers_of_def get_handlers_def)

lemma handlers_of_native [simp]:
  "handlers_of (s\<lparr>nativeListeners := x\<rparr>) n t = handlers_of s n t"
  "handlers_of (s\<lparr>uidEvent := k\<rparr>) n t = handlers_of s n t"
  "handlers_of (s\<lparr>closures := j\<rparr>) n t = handlers_of s n t"
  by (simp_all add: handlers_of_def cong: option.case_cong)

lemma uids_ok_native [simp]:
  "uids_ok (s\<lparr>nativeListeners := x\<rparr>) = uids_ok s" "uids_ok (s\<lparr>closures := j\<rparr>) = uids_ok s"
  by (simp_all add: uids_ok_def)

lemma uids_ok_Suc: "uids_ok s \<Longrightarrow> uids_ok (s\<lparr>uidEvent := Suc (uidEvent s)\<rparr>)"
  by (auto simp: uids_ok_def less_Suc_eq)

lemma findHandler_Some:
  "findHandler hs c sel = Some h \<Longrightarrow> h \<in> set hs \<and> callable h = c \<and> delegationSelector h = sel"
  by (auto simp: findHandler_def find_Some_iff)


lemma find_uid_unique:
  assumes "handlers_ok k hs" and "h \<in> set hs" and "g \<in> set hs" and "uid g = uid h"
  shows "g = h"
  using assms by (auto simp: handlers_ok_def distinct_map inj_on_def)

text \<open>Removing a handler drops it from the store, and with it exactly its native listener.\<close>

lemma removeHandler_handlers:
  assumes ok: "events_ok s" and el: "elementUid s n = Some u"
  shows "handlers_of (removeHandler n u t c sel s) m r =
      (if m = n \<and> r = t then (case findHandler (handlers_of s n t) c sel of
          None \<Rightarrow> handlers_of s n t | Some fn \<Rightarrow> filter (\<lambda>h. uid h \<noteq> uid fn) (handlers_of s n t))
       else handlers_of s m r)"
  using put_handlers_spec(2)[of "s\<lparr>nativeListeners := x\<rparr>" n u t _ m r for x] ok el
  by (auto simp: removeHandler_def get_handlers_of Let_def put_handlers_spec events_ok_def split: option.splits)

lemma removeHandler_native:
  assumes ok: "events_ok s" and el: "elementUid s n = Some u"
    and fn: "findHandler (handlers_of s n t) c sel = Some fn"
  shows "set (nativeListeners (removeHandler n u t c sel s)) =
    set (nativeListeners s) - {(n, t, uid fn, capture fn)}"
proof -
  have "fn \<in> set (handlers_of s n t)" and sel: "delegationSelector fn = sel"
    using findHandler_Some[OF fn] by auto
  then have "sel \<noteq> Some []" using ok by (auto simp: events_ok_def handlers_ok_def)
  then have "(sel \<noteq> None \<and> sel \<noteq> Some []) = capture fn" using sel by (simp add: capture_def)
  then show ?thesis using fn el
    by (simp add: removeHandler_def get_handlers_of Let_def put_handlers_def del: not_None_eq)
qed

lemma removeHandler_mirrored:
  assumes ok: "events_ok s" and el: "elementUid s n = Some u"
  shows "mirrored (removeHandler n u t c sel s)"
proof (cases "findHandler (handlers_of s n t) c sel")
  case None
  then show ?thesis using ok el by (simp add: removeHandler_def get_handlers_of events_ok_def)
next
  case (Some fn)
  have fn: "fn \<in> set (handlers_of s n t)" using findHandler_Some[OF Some] by auto
  have uniq: "h = fn" if "h \<in> set (handlers_of s n t)" "uid h = uid fn" for h
    using find_uid_unique[OF _ fn that] ok by (auto simp: events_ok_def)
  have old: "(m, r, i, b) \<in> set (nativeListeners s) \<longleftrightarrow>
      (\<exists>h\<in>set (handlers_of s m r). uid h = i \<and> b = capture h)" for m r i b
    using ok by (simp add: mirrored_def events_ok_def)
  have "((\<exists>h\<in>set (handlers_of s n t). uid h = i \<and> b = capture h) \<and> \<not> (i = uid fn \<and> b = capture fn)) \<longleftrightarrow>
      (\<exists>h\<in>set (handlers_of s n t). uid h \<noteq> uid fn \<and> uid h = i \<and> b = capture h)" for i b
    using uniq fn by metis
  then show ?thesis
    unfolding mirrored_def removeHandler_native [OF ok el Some] removeHandler_handlers [OF ok el]
    by (auto simp: old Some Bex_def conj_assoc)
qed

lemma removeHandler_spec:
  assumes ok: "events_ok s" and el: "elementUid s n = Some u"
  shows "events_ok (removeHandler n u t c sel s)"
    and "handlers_of (removeHandler n u t c sel s) m r =
      (if m = n \<and> r = t then (case findHandler (handlers_of s n t) c sel of
          None \<Rightarrow> handlers_of s n t | Some fn \<Rightarrow> filter (\<lambda>h. uid h \<noteq> uid fn) (handlers_of s n t))
       else handlers_of s m r)"
    and "elementUid (removeHandler n u t c sel s) = elementUid s"
    and "uidEvent (removeHandler n u t c sel s) = uidEvent s"
proof -
  have uok: "uids_ok s" and hok: "\<And>n t. handlers_ok (uidEvent s) (handlers_of s n t)"
    using ok by (auto simp: events_ok_def)
  show hs: "handlers_of (removeHandler n u t c sel s) m r =
      (if m = n \<and> r = t then (case findHandler (handlers_of s n t) c sel of
          None \<Rightarrow> handlers_of s n t | Some fn \<Rightarrow> filter (\<lambda>h. uid h \<noteq> uid fn) (handlers_of s n t))
       else handlers_of s m r)" for m r
    by (rule removeHandler_handlers [OF ok el])
  show el': "elementUid (removeHandler n u t c sel s) = elementUid s"
    and nx: "uidEvent (removeHandler n u t c sel s) = uidEvent s"
    by (simp_all add: removeHandler_def put_handlers_def Let_def split: option.splits)
  have "uids_ok (removeHandler n u t c sel s)"
    using put_handlers_spec(1)[of "s\<lparr>nativeListeners := x\<rparr>" n u t for x] uok el
    by (auto simp: removeHandler_def Let_def split: option.splits)
  moreover have "handlers_ok (uidEvent s) (handlers_of (removeHandler n u t c sel s) m r)" for m r
    using hok[of m r] hok[of n t] unfolding hs handlers_ok_def
    by (auto simp: distinct_map_filter split: option.splits)
  ultimately show "events_ok (removeHandler n u t c sel s)"
    using nx removeHandler_mirrored [OF ok el] by (simp add: events_ok_def)
qed

lemma fold_removeHandler_ok:
  assumes "events_ok s" and "elementUid s n = Some u"
  shows "events_ok (fold (\<lambda>h. if P h then removeHandler n u (t h) (f h) (g h) else id) hs s) \<and>
    elementUid (fold (\<lambda>h. if P h then removeHandler n u (t h) (f h) (g h) else id) hs s) n = Some u"
  using assms
  by (induction hs arbitrary: s) (simp_all add: removeHandler_spec)

lemma fold_namespaced_ok:
  assumes "events_ok s" and "elementUid s n = Some u"
  shows "events_ok (fold (\<lambda>t. removeNamespacedHandlers n u t ns) ts s) \<and>
    elementUid (fold (\<lambda>t. removeNamespacedHandlers n u t ns) ts s) n = Some u"
  using assms
proof (induction ts arbitrary: s)
  case (Cons t ts)
  have "events_ok (removeNamespacedHandlers n u t ns s) \<and>
      elementUid (removeNamespacedHandlers n u t ns s) n = Some u"
    unfolding removeNamespacedHandlers_def
    by (rule fold_removeHandler_ok [where t = "\<lambda>_. t"]) (rule Cons.prems)+
  then show ?case using Cons.IH by simp
qed simp

lemma getElementEvents_ok:
  assumes "events_ok s" and "getElementEvents n s = (u, s1)"
  shows "events_ok s1"
proof -
  have u: "uids_ok s" using assms(1) by (simp add: events_ok_def)
  note spec = getElementEvents_spec [OF u assms(2)]
  have "handlers_ok (uidEvent s1) (handlers_of s1 m t)" for m t
  proof -
    have "handlers_ok (uidEvent s) (handlers_of s m t)" using assms(1) by (simp add: events_ok_def)
    then show ?thesis unfolding spec(3) by (rule handlers_ok_mono [OF _ spec(5)])
  qed
  moreover have "mirrored s1" using assms(1) spec(3,4) by (simp add: events_ok_def mirrored_def)
  ultimately show ?thesis using spec(1) by (simp add: events_ok_def)
qed

lemma EventHandler_off_callable_ok:
  "events_ok s \<Longrightarrow> events_ok (EventHandler_off_callable element e c sel t s)"
proof (cases element)
  case (Some n)
  assume ok: "events_ok s"
  obtain u s1 where g: "getElementEvents n s = (u, s1)" by (cases "getElementEvents n s")
  have ok1: "events_ok s1" by (rule getElementEvents_ok [OF ok g])
  have el: "elementUid s1 n = Some u"
    using getElementEvents_spec(2)[OF _ g] ok by (simp add: events_ok_def)
  define s2 where "s2 = (if startsWith e ''.''
      then fold (\<lambda>t. removeNamespacedHandlers n u t (drop 1 e)) (map fst (eventRegistry s1 u)) s1 else s1)"
  have s2: "events_ok s2" "elementUid s2 n = Some u"
    using fold_namespaced_ok[OF ok1 el] ok1 el by (simp_all add: s2_def)
  show ?thesis
    using removeHandler_spec(1)[OF ok1 el] ok1 s2(1)
      fold_removeHandler_ok[OF s2, where t = "\<lambda>_. t" and f = callable and g = delegationSelector
        and hs = "get_handlers u t s1" and P = "\<lambda>h. t = e \<or> includes_str e (strip_uid (uid h))"]
    unfolding EventHandler_off_callable_def Some option.case g prod.case Let_def s2_def[symmetric]
    by simp
qed (simp add: EventHandler_off_callable_def)


lemma handlers_ok_snoc:
  assumes "handlers_ok k hs" and "uid_number (uid h) = k" and "delegationSelector h \<noteq> Some []"
  shows "handlers_ok (Suc k) (hs @ [h])"
proof -
  have "uid h \<notin> set (map uid hs)" using assms(1,2) by (auto simp: handlers_ok_def)
  then show ?thesis using assms by (auto simp: handlers_ok_def less_Suc_eq)
qed

definition add_callable :: "string \<Rightarrow> 'f handler_arg \<Rightarrow> 'f option \<Rightarrow> 'f events_state \<Rightarrow> 'f callable option" where
  "add_callable e handler d s = (let f = fst (snd (normalizeParameters e handler d)) in
    if customEvents e \<noteq> None then map_option (\<lambda>g. Wrapped g (closures s)) f else map_option Fn f)"

definition event_type :: "string \<Rightarrow> string" where
  "event_type e = (if getTypeEvent e \<notin> set nativeEvents then e else getTypeEvent e)"

lemma normalize_type:
  "normalizeParameters e handler d = (fst (normalizeParameters e handler d),
    fst (snd (normalizeParameters e handler d)), event_type e)"
  by (simp add: normalizeParameters_def event_type_def Let_def)

text \<open>The two ways \<open>addHandler\<close> ends: the store of an element's event is rewritten without touching
  uids and selectors, or a handler with a fresh uid joins it together with its native listener.\<close>

lemma put_rewritten:
  assumes ok: "events_ok s" and el: "elementUid s n = Some u"
    and f: "\<And>h. uid (f h) = uid h" "\<And>h. delegationSelector (f h) = delegationSelector h"
  shows "events_ok (put_handlers u t (map f (handlers_of s n t)) s)"
    and "handlers_of (put_handlers u t (map f (handlers_of s n t)) s) m r =
      (if m = n \<and> r = t then map f (handlers_of s n r) else handlers_of s m r)"
proof -
  let ?s = "put_handlers u t (map f (handlers_of s n t)) s"
  have u: "uids_ok s" and mir: "mirrored s" and k: "\<And>m r. handlers_ok (uidEvent s) (handlers_of s m r)"
    using ok by (auto simp: events_ok_def)
  note put = put_handlers_spec [OF u el, where t = t and hs = "map f (handlers_of s n t)"]
  show h: "handlers_of ?s m r = (if m = n \<and> r = t then map f (handlers_of s n r) else handlers_of s m r)"
    for m r using put(2) by simp
  have uids: "map uid (map f hs) = map uid hs" for hs by (simp add: f)
  have "handlers_ok (uidEvent s) (map f (handlers_of s n t))"
    using k[of n t] unfolding handlers_ok_def uids by (simp add: f)
  then have "handlers_ok (uidEvent s) (handlers_of ?s m r)" for m r using k unfolding h by simp
  moreover have "mirrored ?s" using mir unfolding mirrored_def h put(3) by (simp add: f capture_def)
  ultimately show "events_ok ?s" using put(1,4) by (simp add: events_ok_def)
qed

lemma put_appended:
  fixes s :: "'f events_state" and n :: nat and t :: string
  assumes ok: "events_ok s" and el: "elementUid s n = Some u"
    and fn: "uid_number (uid fn) = uidEvent s" "delegationSelector fn \<noteq> Some []"
  defines "s' \<equiv> put_handlers u t (handlers_of s n t @ [fn]) (s\<lparr>uidEvent := Suc (uidEvent s)\<rparr>)"
  shows "events_ok (s'\<lparr>nativeListeners := nativeListeners s' @ [(n, t, uid fn, capture fn)]\<rparr>)"
    and "handlers_of s' m r = (if m = n \<and> r = t then handlers_of s n r @ [fn] else handlers_of s m r)"
proof -
  let ?s = "s'\<lparr>nativeListeners := nativeListeners s' @ [(n, t, uid fn, capture fn)]\<rparr>"
  have u: "uids_ok (s\<lparr>uidEvent := Suc (uidEvent s)\<rparr>)" and mir: "mirrored s"
    and k: "\<And>m r. handlers_ok (uidEvent s) (handlers_of s m r)"
    using ok uids_ok_Suc by (auto simp: events_ok_def)
  note put = put_handlers_spec [OF u, of n u, simplified, OF el, where t = t and hs = "handlers_of s n t @ [fn]", folded s'_def]
  show h: "handlers_of s' m r = (if m = n \<and> r = t then handlers_of s n r @ [fn] else handlers_of s m r)"
    for m r using put(2) by simp
  have "handlers_ok (Suc (uidEvent s)) (handlers_of ?s m r)" for m r
    using handlers_ok_snoc[OF k fn] handlers_ok_mono[OF k, of "Suc (uidEvent s)"] by (simp add: h)
  moreover have "mirrored ?s"
    unfolding mirrored_def
  proof (intro allI)
    fix m r j b
    have "(m, r, j, b) \<in> set (nativeListeners s) \<longleftrightarrow> (\<exists>h\<in>set (handlers_of s m r). uid h = j \<and> b = capture h)"
      using mir by (simp add: mirrored_def)
    moreover have "nativeListeners ?s = nativeListeners s @ [(n, t, uid fn, capture fn)]" using put(3) by simp
    ultimately show "(m, r, j, b) \<in> set (nativeListeners ?s) \<longleftrightarrow>
        (\<exists>h\<in>set (handlers_of ?s m r). uid h = j \<and> b = capture h)" by (auto simp: h)
  qed
  ultimately show "events_ok ?s" using put(1,4) by (simp add: events_ok_def)
qed

lemma addHandler_run:
  assumes ok: "events_ok s"
  obtains u s1 where "events_ok s1" "elementUid s1 n = Some u" "handlers_of s1 = handlers_of s"
    "addHandler (Some n) e handler d once s =
      (case findHandler (handlers_of s n (event_type e)) (add_callable e handler d s) (selector_of handler) of
        Some previous \<Rightarrow> put_handlers u (event_type e) (map (\<lambda>h. if uid h = uid previous
            then h\<lparr>oneOff := oneOff h \<and> once\<rparr> else h) (handlers_of s n (event_type e))) s1
      | None \<Rightarrow> let (i, s2) = makeEventUid_handler (namespace_of e) s1;
            s3 = put_handlers u (event_type e) (handlers_of s n (event_type e) @ [\<lparr>uid = i,
              callable = add_callable e handler d s, delegationSelector = selector_of handler, oneOff = once\<rparr>]) s2 in
          s3\<lparr>nativeListeners := nativeListeners s3 @ [(n, event_type e, i, selector_of handler \<noteq> None)]\<rparr>)"
proof -
  let ?t = "event_type e" and ?sel = "selector_of handler" and ?c = "add_callable e handler d s"
  define s0 where "s0 = (if customEvents e \<noteq> None then s\<lparr>closures := Suc (closures s)\<rparr> else s)"
  have ok0: "events_ok s0" and h0: "handlers_of s0 = handlers_of s"
    using ok by (auto simp: s0_def events_ok_def mirrored_def fun_eq_iff)
  obtain u s1 where g: "getElementEvents n s0 = (u, s1)" by (cases "getElementEvents n s0")
  have u0: "uids_ok s0" using ok0 by (simp add: events_ok_def)
  note spec = getElementEvents_spec [OF u0 g]
  have h1: "handlers_of s1 = handlers_of s" using spec(3) h0 by (auto simp: fun_eq_iff)
  have gh: "get_handlers u ?t s1 = handlers_of s n ?t" using spec(6) h0 by simp
  obtain isdel f where np: "normalizeParameters e handler d = (isdel, f, ?t)" using normalize_type by blast
  have c: "(if customEvents e \<noteq> None
      then (map_option (\<lambda>g. Wrapped g (closures s)) f, s\<lparr>closures := Suc (closures s)\<rparr>)
      else (map_option Fn f, s)) = (?c, s0)"
    by (simp add: add_callable_def np s0_def Let_def)
  have isdel: "isdel = (?sel \<noteq> None)"
    using np by (auto simp: normalizeParameters_def selector_of_def Let_def split: handler_arg.splits)
  show thesis
    by (rule that [OF getElementEvents_ok [OF ok0 g] spec(2) h1])
      (unfold addHandler_def option.case np prod.case c Let_def g gh isdel, rule refl)
qed

text \<open>What \<open>addHandler\<close> does, in terms of the handlers of every element: an existing handler
  for the same function and selector keeps its place, a new one goes to the end.\<close>

lemma addHandler_spec:
  assumes ok: "events_ok s" and sel: "selector_of handler \<noteq> Some []"
  shows "events_ok (addHandler (Some n) e handler d once s) \<and>
    (case findHandler (handlers_of s n (event_type e)) (add_callable e handler d s) (selector_of handler) of
      Some previous \<Rightarrow> \<forall>m r. handlers_of (addHandler (Some n) e handler d once s) m r =
        (if m = n \<and> r = event_type e
         then map (\<lambda>h. if uid h = uid previous then h\<lparr>oneOff := oneOff h \<and> once\<rparr> else h) (handlers_of s n r)
         else handlers_of s m r)
    | None \<Rightarrow> \<exists>i. \<forall>m r. handlers_of (addHandler (Some n) e handler d once s) m r =
        (if m = n \<and> r = event_type e
         then handlers_of s n r @ [\<lparr>uid = i, callable = add_callable e handler d s,
           delegationSelector = selector_of handler, oneOff = once\<rparr>]
         else handlers_of s m r))"
proof -
  let ?t = "event_type e" and ?sel = "selector_of handler" and ?c = "add_callable e handler d s"
  obtain u s1 where ok1: "events_ok s1" "elementUid s1 n = Some u" and h1: "handlers_of s1 = handlers_of s"
    and run: "addHandler (Some n) e handler d once s = (case findHandler (handlers_of s n ?t) ?c ?sel of
        Some previous \<Rightarrow> put_handlers u ?t (map (\<lambda>h. if uid h = uid previous
            then h\<lparr>oneOff := oneOff h \<and> once\<rparr> else h) (handlers_of s n ?t)) s1
      | None \<Rightarrow> let (i, s2) = makeEventUid_handler (namespace_of e) s1;
            s3 = put_handlers u ?t (handlers_of s n ?t @ [\<lparr>uid = i, callable = ?c,
              delegationSelector = ?sel, oneOff = once\<rparr>]) s2 in
          s3\<lparr>nativeListeners := nativeListeners s3 @ [(n, ?t, i, ?sel \<noteq> None)]\<rparr>)"
    by (rule addHandler_run [OF ok])
  show ?thesis
  proof (cases "findHandler (handlers_of s n ?t) ?c ?sel")
    case (Some previous)
    let ?f = "\<lambda>h. if uid h = uid previous then h\<lparr>oneOff := oneOff h \<and> once\<rparr> else h"
    have eq: "addHandler (Some n) e handler d once s = put_handlers u ?t (map ?f (handlers_of s1 n ?t)) s1"
      unfolding run Some h1 by simp
    have f: "uid (?f h) = uid h" "delegationSelector (?f h) = delegationSelector h" for h by simp_all
    show ?thesis unfolding eq Some using put_rewritten [OF ok1 f, of ?t] by (simp add: h1)
  next
    case None
    obtain i s2 where i: "makeEventUid_handler (namespace_of e) s1 = (i, s2)"
      by (cases "makeEventUid_handler (namespace_of e) s1")
    note num = makeEventUid_handler_number [OF i]
    define fn where "fn = \<lparr>uid = i, callable = ?c, delegationSelector = ?sel, oneOff = once\<rparr>"
    define s3 where "s3 = put_handlers u ?t (handlers_of s1 n ?t @ [fn]) (s1\<lparr>uidEvent := Suc (uidEvent s1)\<rparr>)"
    have fn: "uid_number (uid fn) = uidEvent s1" "delegationSelector fn \<noteq> Some []" "uid fn = i" "capture fn = (?sel \<noteq> None)"
      using num sel by (simp_all add: fn_def capture_def)
    have eq: "addHandler (Some n) e handler d once s = s3\<lparr>nativeListeners := nativeListeners s3 @ [(n, ?t, uid fn, capture fn)]\<rparr>"
      unfolding run None using num by (simp add: i Let_def s3_def fn_def[symmetric] h1 fn(3,4))
    note put = put_appended [OF ok1 fn(1,2), of ?t, folded s3_def]
    show ?thesis unfolding eq None option.case
      using put by (auto simp: h1 fn_def)
  qed
qed


lemma off_callable_spec:
  assumes ok: "events_ok s"
  shows "handlers_of (EventHandler_off_callable (Some n) e (Some c) sel t s) m r =
      (if m = n \<and> r = t then (case findHandler (handlers_of s n t) (Some c) sel of
          None \<Rightarrow> handlers_of s n t | Some fn \<Rightarrow> filter (\<lambda>h. uid h \<noteq> uid fn) (handlers_of s n t))
       else handlers_of s m r)"
proof -
  obtain u s1 where g: "getElementEvents n s = (u, s1)" by (cases "getElementEvents n s")
  have u0: "uids_ok s" using ok by (simp add: events_ok_def)
  note spec = getElementEvents_spec [OF u0 g]
  have ok1: "events_ok s1" by (rule getElementEvents_ok [OF ok g])
  show ?thesis
  proof (cases "handlers_of s n t = []")
    case True
    then have "EventHandler_off_callable (Some n) e (Some c) sel t s = s1"
      by (simp add: EventHandler_off_callable_def g Let_def spec(6))
    then show ?thesis using True spec(3) by (simp add: findHandler_def)
  next
    case False
    then have "EventHandler_off_callable (Some n) e (Some c) sel t s = removeHandler n u t (Some c) sel s1"
      by (simp add: EventHandler_off_callable_def g Let_def spec(6))
    moreover have "handlers_of s1 = handlers_of s" using spec(3) by (auto simp: fun_eq_iff)
    ultimately show ?thesis
      using removeHandler_spec(2)[OF ok1 spec(2)] by (simp cong: option.case_cong)
  qed
qed

lemma EventHandler_off_eq:
  "EventHandler_off el e (HFun f) d s =
    EventHandler_off_callable el e (Some (Fn f)) None (event_type e) s"
  by (simp add: EventHandler_off_def normalizeParameters_def selector_of_def event_type_def Let_def)

lemma EventHandler_off_ok: "events_ok s \<Longrightarrow> events_ok (EventHandler_off el e handler d s)"
  unfolding EventHandler_off_def
  by (simp add: case_prod_beta Let_def EventHandler_off_callable_ok)

lemma addHandler_ok:
  "events_ok s \<Longrightarrow> selector_of handler \<noteq> Some [] \<Longrightarrow> events_ok (addHandler el e handler d once s)"
proof (cases el)
  case (Some n)
  assume "events_ok s" "selector_of handler \<noteq> Some []"
  from addHandler_spec [OF this] show ?thesis using Some by blast
qed (simp add: addHandler_def)

lemma find_snoc: "List.find P (xs @ [x]) =
    (case List.find P xs of Some y \<Rightarrow> Some y | None \<Rightarrow> if P x then Some x else None)"
  by (induction xs) auto

lemma deliver_ok: "events_ok s \<Longrightarrow> events_ok (snd (deliver matches path n t s))"
proof -
  have "events_ok (snd r) \<Longrightarrow> events_ok (snd (fold (invoke matches path n t) hs r))" for hs r
  proof (induction hs arbitrary: r)
    case (Cons h hs)
    have "events_ok (snd (invoke matches path n t h r))"
      using Cons.prems by (auto simp: invoke_def Let_def EventHandler_off_callable_ok split: option.splits)
    then show ?case using Cons.IH by simp
  qed simp
  from this [of "([], s)"] show "events_ok s \<Longrightarrow> events_ok (snd (deliver matches path n t s))"
    by (simp add: deliver_def)
qed

inductive events_reachable :: "'f events_state \<Rightarrow> bool" where
  start: "events_reachable events_start"
| add: "events_reachable s \<Longrightarrow> selector_of handler \<noteq> Some [] \<Longrightarrow>
    events_reachable (addHandler el e handler d once s)"
| off: "events_reachable s \<Longrightarrow> events_reachable (EventHandler_off el e handler d s)"
| deliver: "events_reachable s \<Longrightarrow> events_reachable (snd (deliver matches path n t s))"

lemma events_reachable_ok: "events_reachable s \<Longrightarrow> events_ok s"
  by (induction rule: events_reachable.induct)
     (auto intro: events_start_ok addHandler_ok EventHandler_off_ok deliver_ok)

text \<open>
  C22: after any sequence of \<open>on\<close>, \<open>one\<close>, \<open>off\<close> (one function, one event, a name space or
  everything of a type) and deliveries of events, the listeners that sit on the elements of the
  page are exactly the handlers of the registry, with the capture flag of their delegation:
  nothing leaks on the page and nothing the registry knows is missing there; and no two handlers
  of an element and a type share an identifier.\<close>

theorem registry_mirrors_listeners:
  assumes "events_reachable s"
  shows "mirrored s \<and> distinct (map uid (handlers_of s n t))"
  using events_reachable_ok [OF assms] by (auto simp: events_ok_def handlers_ok_def)

lemma registry_mirrors_listeners_witness:
  "mirrored (EventHandler_off (Some 4) ''.bs.modal'' HUndefined None
    (EventHandler_on (Some 4) ''click.bs.modal'' (HFun (1::nat)) None events_start))"
proof -
  have "events_reachable (EventHandler_off (Some 4) ''.bs.modal'' HUndefined None
      (EventHandler_on (Some 4) ''click.bs.modal'' (HFun (1::nat)) None events_start))"
    unfolding EventHandler_on_def
    by (intro events_reachable.intros) (simp add: selector_of_def)
  from registry_mirrors_listeners [OF this] show ?thesis by blast
qed

text \<open>
  C23: \<open>off\<close> undoes \<open>on\<close> and \<open>one\<close>. For an event that is not the bare \<open>mouseenter\<close> or
  \<open>mouseleave\<close>, adding a function that was not registered and removing it again leaves the
  handlers of every element and every type as they were.\<close>

theorem on_off_roundtrip:
  assumes "events_reachable s" and "customEvents e = None"
    and "findHandler (handlers_of s n (event_type e)) (Some (Fn f)) None = None"
  shows "handlers_of (EventHandler_off (Some n) e (HFun f) None
    (addHandler (Some n) e (HFun f) None once s)) m r = handlers_of s m r"
proof -
  have ok: "events_ok s" using assms(1) by (rule events_reachable_ok)
  have c: "add_callable e (HFun f) None s = Some (Fn f)" and sel: "selector_of (HFun f) = None"
    using assms(2) by (simp_all add: add_callable_def normalizeParameters_def selector_of_def Let_def)
  define s' where "s' = addHandler (Some n) e (HFun f) None once s"
  have spec: "events_ok s'"
    "\<exists>i. \<forall>m r. handlers_of s' m r = (if m = n \<and> r = event_type e
      then handlers_of s n r @ [\<lparr>uid = i, callable = Some (Fn f), delegationSelector = None, oneOff = once\<rparr>]
      else handlers_of s m r)"
    using addHandler_spec[OF ok, of "HFun f" n e None once] sel c assms(3) unfolding s'_def by auto
  then obtain i where h: "\<And>m r. handlers_of s' m r = (if m = n \<and> r = event_type e
      then handlers_of s n r @ [\<lparr>uid = i, callable = Some (Fn f), delegationSelector = None, oneOff = once\<rparr>]
      else handlers_of s m r)" by blast
  let ?hs = "handlers_of s n (event_type e)"
  let ?fn = "\<lparr>uid = i, callable = Some (Fn f), delegationSelector = None, oneOff = once\<rparr>"
  have find: "findHandler (?hs @ [?fn]) (Some (Fn f)) None = Some ?fn"
    using assms(3) unfolding findHandler_def find_snoc by simp
  have "distinct (map uid (?hs @ [?fn]))"
    using spec(1) h[of n "event_type e"] unfolding events_ok_def handlers_ok_def by metis
  then have "filter (\<lambda>h. uid h \<noteq> i) ?hs = ?hs" by (auto simp: filter_id_conv)
  then show ?thesis
    unfolding s'_def[symmetric] EventHandler_off_eq
    by (simp add: off_callable_spec[OF spec(1)] h find)
qed

lemma on_off_roundtrip_witness:
  "handlers_of (EventHandler_off (Some 4) ''click.bs.modal'' (HFun (7::nat)) None
    (addHandler (Some 4) ''click.bs.modal'' (HFun 7) None False events_start)) 4 ''click'' = []"
proof -
  have "customEvents ''click.bs.modal'' = None" by (simp add: customEvents_def)
  moreover have "findHandler (handlers_of events_start 4 (event_type ''click.bs.modal''))
      (Some (Fn (7::nat))) None = None"
    by (simp add: handlers_of_def events_start_def findHandler_def)
  ultimately show ?thesis
    using on_off_roundtrip [OF events_reachable.start, of "''click.bs.modal''" 4 "7::nat" False 4 "''click''"]
    by (simp add: handlers_of_def events_start_def)
qed


text \<open>
  What the comment in \<open>addHandler\<close> promises for \<open>mouseenter\<close> and \<open>mouseleave\<close> holds only
  for the bare names: under a name space, as \<open>Carousel\<close> and \<open>Tooltip\<close> register them, the function
  is added to \<open>mouseover\<close> without the wrapper that looks at the position of the pointer; and under
  the bare names the wrapper is a new function every time, so that \<open>off\<close> with the same function
  removes nothing and a second \<open>on\<close> adds a second handler.\<close>

theorem custom_events_leak:
  assumes "events_reachable s"
    and "\<forall>h \<in> set (handlers_of s n ''mouseover''). \<forall>g k. callable h \<noteq> Some (Wrapped g k)"
  shows "handlers_of (EventHandler_off (Some n) ''mouseenter'' (HFun f) None
      (EventHandler_on (Some n) ''mouseenter'' (HFun f) None s)) n ''mouseover'' \<noteq> [] \<and>
    (findHandler (handlers_of s n ''mouseover'') (Some (Fn f)) None = None \<longrightarrow>
      (\<exists>h \<in> set (handlers_of (EventHandler_on (Some n) ''mouseenter.bs.carousel'' (HFun f) None s) n ''mouseover'').
        callable h = Some (Fn f)))"
proof (intro conjI impI)
  have ok: "events_ok s" using assms(1) by (rule events_reachable_ok)
  have t: "event_type ''mouseenter'' = ''mouseover''" "event_type ''mouseenter.bs.carousel'' = ''mouseover''"
    by code_simp+
  let ?c = "Some (Wrapped f (closures s))"
  have c: "add_callable ''mouseenter'' (HFun f) None s = ?c"
    "add_callable ''mouseenter.bs.carousel'' (HFun f) None s = Some (Fn f)" "selector_of (HFun f) = None"
    by (simp_all add: add_callable_def normalizeParameters_def selector_of_def Let_def customEvents_def)
  have none: "findHandler (handlers_of s n ''mouseover'') ?c None = None"
    using assms(2) by (auto simp: findHandler_def find_None_iff)
  define s' where "s' = addHandler (Some n) ''mouseenter'' (HFun f) None False s"
  have spec: "events_ok s'" "\<exists>i. handlers_of s' n ''mouseover'' = handlers_of s n ''mouseover'' @
      [\<lparr>uid = i, callable = ?c, delegationSelector = None, oneOff = False\<rparr>]"
    using addHandler_spec[OF ok, of "HFun f" n "''mouseenter''" None False] none
    unfolding s'_def c t by auto
  then obtain i where h: "handlers_of s' n ''mouseover'' = handlers_of s n ''mouseover'' @
      [\<lparr>uid = i, callable = ?c, delegationSelector = None, oneOff = False\<rparr>]" by blast
  have uniq: "distinct (map uid (handlers_of s' n ''mouseover''))"
    using spec(1) by (auto simp: events_ok_def handlers_ok_def)
  have "(case findHandler (handlers_of s' n ''mouseover'') (Some (Fn f)) None of
      None \<Rightarrow> handlers_of s' n ''mouseover''
    | Some fn \<Rightarrow> filter (\<lambda>h. uid h \<noteq> uid fn) (handlers_of s' n ''mouseover'')) \<noteq> []"
  proof (cases "findHandler (handlers_of s' n ''mouseover'') (Some (Fn f)) None")
    case None
    then show ?thesis using h by simp
  next
    case (Some fn)
    have "fn \<in> set (handlers_of s n ''mouseover'')"
      using findHandler_Some[OF Some] h by auto
    then have "uid fn \<noteq> i" using uniq unfolding h by auto
    then show ?thesis using Some h by simp
  qed
  then show "handlers_of (EventHandler_off (Some n) ''mouseenter'' (HFun f) None
      (EventHandler_on (Some n) ''mouseenter'' (HFun f) None s)) n ''mouseover'' \<noteq> []"
    unfolding EventHandler_on_def s'_def[symmetric] EventHandler_off_eq t
    by (simp add: off_callable_spec[OF spec(1)])
  assume "findHandler (handlers_of s n ''mouseover'') (Some (Fn f)) None = None"
  then obtain j where "handlers_of (EventHandler_on (Some n) ''mouseenter.bs.carousel'' (HFun f) None s) n ''mouseover''
      = handlers_of s n ''mouseover'' @ [\<lparr>uid = j, callable = Some (Fn f), delegationSelector = None, oneOff = False\<rparr>]"
    using addHandler_spec[OF ok, of "HFun f" n "''mouseenter.bs.carousel''" None False]
    unfolding EventHandler_on_def c t by auto
  then show "\<exists>h \<in> set (handlers_of (EventHandler_on (Some n) ''mouseenter.bs.carousel'' (HFun f) None s) n ''mouseover'').
        callable h = Some (Fn f)" by simp
qed

lemma custom_events_leak_witness:
  "handlers_of (EventHandler_off (Some 4) ''mouseenter'' (HFun (7::nat)) None
      (EventHandler_on (Some 4) ''mouseenter'' (HFun 7) None events_start)) 4 ''mouseover'' \<noteq> []"
  by (rule custom_events_leak [OF events_reachable.start, THEN conjunct1])
     (simp add: handlers_of_def events_start_def)

text \<open>
  A handler added by \<open>one\<close> is called by the first event of its type on its element, with
  the handlers that were there before it, is then gone, and is not called again.\<close>

theorem one_fires_once:
  assumes "events_reachable s" and "handlers_of s n (event_type e) = []" and "customEvents e = None"
    and "event_type e = t" and "getTypeEvent t \<in> set nativeEvents \<longrightarrow> getTypeEvent t = t"
  shows "\<exists>s'. deliver matches path n t (EventHandler_one (Some n) e (HFun f) None s) = ([(n, Fn f)], s')
    \<and> handlers_of s' n t = [] \<and> fst (deliver matches path n t s') = []"
proof -
  have ok: "events_ok s" using assms(1) by (rule events_reachable_ok)
  have c: "add_callable e (HFun f) None s = Some (Fn f)" and sel: "selector_of (HFun f) = None"
    using assms(3) by (simp_all add: add_callable_def normalizeParameters_def selector_of_def Let_def)
  define s1 where "s1 = EventHandler_one (Some n) e (HFun f) None s"
  have spec: "events_ok s1"
    "\<exists>i. handlers_of s1 n t = [\<lparr>uid = i, callable = Some (Fn f), delegationSelector = None, oneOff = True\<rparr>]"
    using addHandler_spec[OF ok, of "HFun f" n e None True] sel c assms(2,4)
    unfolding s1_def EventHandler_one_def by (auto simp: findHandler_def)
  then obtain i where h: "handlers_of s1 n t =
      [\<lparr>uid = i, callable = Some (Fn f), delegationSelector = None, oneOff = True\<rparr>]" by blast
  have t': "(if getTypeEvent t \<notin> set nativeEvents then t else getTypeEvent t) = t"
    using assms(5) by simp
  define s2 where "s2 = EventHandler_off_callable (Some n) t (Some (Fn f)) None t s1"
  have d: "deliver matches path n t s1 = ([(n, Fn f)], s2)"
    unfolding s2_def deliver_def h by (simp add: invoke_def Let_def t')
  have "handlers_of s2 n t = []"
    unfolding s2_def by (simp add: off_callable_spec[OF spec(1)] h findHandler_def)
  then show ?thesis using d unfolding s1_def[symmetric] by (simp add: deliver_def)
qed

lemma one_fires_once_witness:
  "\<exists>s'. deliver (\<lambda>_ _. False) [] 4 ''slid.bs.carousel''
      (EventHandler_one (Some 4) ''slid.bs.carousel'' (HFun (7::nat)) None events_start) = ([(4, Fn 7)], s')"
proof -
  have e: "event_type ''slid.bs.carousel'' = ''slid.bs.carousel''"
    "getTypeEvent ''slid.bs.carousel'' \<notin> set nativeEvents" by code_simp+
  have "handlers_of events_start 4 (event_type ''slid.bs.carousel'') = []"
    by (simp add: handlers_of_def events_start_def)
  moreover have "customEvents ''slid.bs.carousel'' = None" by (simp add: customEvents_def)
  ultimately show ?thesis
    using one_fires_once [OF events_reachable.start, of 4 "''slid.bs.carousel''" "''slid.bs.carousel''"
        "\<lambda>_ _. False" "[]" "7::nat"] e by auto
qed

end
