(* ===== verification/BsBasics.thy ===== *)
theory BsBasics
  imports BsConfig
begin

text \<open>
  The selector engine of Bootstrap (\<open>dom/selector-engine.js\<close>), the dismiss triggers
  (\<open>util/component-functions.js\<close>), and the two smallest components, \<open>Alert\<close> and \<open>Button\<close>. A
  selector that is a constant of the code is a predicate on nodes; one that the page's author
  wrote is a string the browser resolves (\<open>querySelectorAll\<close> of the world).
\<close>

section \<open>Selectors in attributes\<close>

definition nonempty :: "string option \<Rightarrow> string option" where
  "nonempty s = (if s = Some [] then None else s)"

definition getSelector :: "'cb world \<Rightarrow> node \<Rightarrow> string option" where
  "getSelector w element =
    (let target = nonempty (get_attr w element ''data-bs-target'');
         selector = (if target = None \<or> target = Some ''#'' then
           (case nonempty (get_attr w element ''href'') of
              None \<Rightarrow> None
            | Some hrefAttribute \<Rightarrow>
                if \<not> includes_str hrefAttribute ''#'' \<and> \<not> startsWith hrefAttribute ''.'' then None
                else let href = (if includes_str hrefAttribute ''#'' \<and> \<not> startsWith hrefAttribute ''#''
                       then ''#'' @ splitOn (CHR ''#'') hrefAttribute ! 1 else hrefAttribute) in
                  if href \<noteq> ''#'' then nonempty (Some (Trim href)) else None)
           else target) in
     map_option (\<lambda>s. joinWith '','' (map (parseSelector w) (splitOn (CHR '','') s))) selector)"

definition find_selector :: "'cb world \<Rightarrow> string \<Rightarrow> node list" where
  "find_selector w selector = querySelectorAll (env w) (page w) documentElement selector"

definition findOne_selector :: "'cb world \<Rightarrow> string \<Rightarrow> node option" where
  "findOne_selector w selector = (case find_selector w selector of [] \<Rightarrow> None | n # _ \<Rightarrow> Some n)"

definition getSelectorFromElement :: "'cb world \<Rightarrow> node \<Rightarrow> string option" where
  "getSelectorFromElement w element = (case getSelector w element of
      Some selector \<Rightarrow> if findOne_selector w selector \<noteq> None then Some selector else None
    | None \<Rightarrow> None)"

definition getElementFromSelector :: "'cb world \<Rightarrow> node \<Rightarrow> node option" where
  "getElementFromSelector w element = (case getSelector w element of
      Some selector \<Rightarrow> findOne_selector w selector | None \<Rightarrow> None)"

definition getMultipleElementsFromSelector :: "'cb world \<Rightarrow> node \<Rightarrow> node list" where
  "getMultipleElementsFromSelector w element = (case getSelector w element of
      Some selector \<Rightarrow> find_selector w selector | None \<Rightarrow> [])"

section \<open>Walking the tree\<close>

definition children_matching :: "(node \<Rightarrow> bool) \<Rightarrow> 'cb world \<Rightarrow> node \<Rightarrow> node list" where
  "children_matching P w element = filter P (childNodes (page w element))"

fun parents_loop :: "nat \<Rightarrow> (node \<Rightarrow> bool) \<Rightarrow> 'cb world \<Rightarrow> node \<Rightarrow> node list" where
  "parents_loop 0 P w n = []"
| "parents_loop (Suc k) P w n = (case parentNode (page w n) of
      None \<Rightarrow> []
    | Some m \<Rightarrow> (case closest P w m of
        None \<Rightarrow> [] | Some ancestor \<Rightarrow> ancestor # parents_loop k P w ancestor))"

definition parents :: "(node \<Rightarrow> bool) \<Rightarrow> 'cb world \<Rightarrow> node \<Rightarrow> node list" where
  "parents P w n = parents_loop (nodeCount w) P w n"

definition siblings :: "'cb world \<Rightarrow> node \<Rightarrow> node list" where
  "siblings w n = (case parentNode (page w n) of None \<Rightarrow> [n] | Some m \<Rightarrow> childNodes (page w m))"

fun first_matching :: "(node \<Rightarrow> bool) \<Rightarrow> node list \<Rightarrow> node list" where
  "first_matching P [] = []"
| "first_matching P (n # ns) = (if P n then [n] else first_matching P ns)"

definition prev_sibling :: "(node \<Rightarrow> bool) \<Rightarrow> 'cb world \<Rightarrow> node \<Rightarrow> node list" where
  "prev_sibling P w n = first_matching P (rev (takeWhile (\<lambda>m. m \<noteq> n) (siblings w n)))"

definition next_sibling :: "(node \<Rightarrow> bool) \<Rightarrow> 'cb world \<Rightarrow> node \<Rightarrow> node list" where
  "next_sibling P w n = first_matching P (drop 1 (dropWhile (\<lambda>m. m \<noteq> n) (siblings w n)))"

definition focusable :: "'cb world \<Rightarrow> node \<Rightarrow> bool" where
  "focusable w n \<longleftrightarrow>
    (tagName (page w n) \<in> {''A'', ''BUTTON'', ''INPUT'', ''TEXTAREA'', ''SELECT'', ''DETAILS''} \<or>
     has_attr w n ''tabindex'' \<or> get_attr w n ''contenteditable'' = Some ''true'') \<and>
    \<not> (case get_attr w n ''tabindex'' of Some t \<Rightarrow> startsWith t ''-'' | None \<Rightarrow> False)"

definition focusableChildren :: "'cb world \<Rightarrow> node \<Rightarrow> node list" where
  "focusableChildren w element =
    filter (\<lambda>el. \<not> isDisabled w (Some el) \<and> isVisible w (Some el)) (query_all (focusable w) w element)"

section \<open>Dismiss triggers\<close>

text \<open>A click on \<open>[data-bs-dismiss="NAME"]\<close>: whether the default is prevented, and the target on
  which the component's method is called, \<open>None\<close> when the trigger is disabled.\<close>

definition dismiss_prevents :: "'cb world \<Rightarrow> node \<Rightarrow> bool" where
  "dismiss_prevents w this = (tagName (page w this) \<in> {''A'', ''AREA''})"

definition enableDismissTrigger :: "string \<Rightarrow> 'cb world \<Rightarrow> node \<Rightarrow> node option option" where
  "enableDismissTrigger name w this =
    (if isDisabled w (Some this) then None
     else Some (case getElementFromSelector w this of
       Some target \<Rightarrow> Some target
     | None \<Rightarrow> closest (\<lambda>n. has_class w n name) w this))"

section \<open>Alert\<close>

datatype alert_cb = DestroyElement

record alert =
  alert_element :: node
  alert_disposed :: bool

type_synonym alert_state = "alert \<times> alert_cb world"

definition Alert_dispose :: "alert_state \<Rightarrow> alert_state" where
  "Alert_dispose s = ((fst s)\<lparr>alert_disposed := True\<rparr>,
    unlisten_ns (alert_element (fst s)) ''.bs.alert'' (snd s))"

definition Alert_destroyElement :: "alert_state \<Rightarrow> alert_state" where
  "Alert_destroyElement s = (let n = alert_element (fst s) in
    Alert_dispose (fst s, announce n ''closed.bs.alert'' (remove_node n (snd s))))"

fun alert_run :: "alert_cb \<Rightarrow> alert_state \<Rightarrow> alert_state" where
  "alert_run DestroyElement s = Alert_destroyElement s"

definition Alert_close :: "alert_state \<Rightarrow> alert_state" where
  "Alert_close s = (let n = alert_element (fst s);
      (prevented, w) = trigger n ''close.bs.alert'' (snd s) in
    if prevented then (fst s, w)
    else let w' = remove_class ''show'' n w; isAnimated = has_class w' n ''fade'' in
      executeAfterTransition alert_run DestroyElement n isAnimated (fst s, w'))"

section \<open>Button\<close>

definition Button_toggle :: "node \<Rightarrow> 'cb world \<Rightarrow> 'cb world" where
  "Button_toggle n w = (let active = \<not> has_class w n ''active'' in
    set_attr ''aria-pressed'' (boolStr active) n (toggle_class ''active'' active n w))"

text \<open>The click of the data API: the closest toggle of the target.\<close>

definition Button_click :: "node \<Rightarrow> 'cb world \<Rightarrow> 'cb world" where
  "Button_click target w =
    (case closest (\<lambda>n. get_attr w n ''data-bs-toggle'' = Some ''button'') w target of
       Some button \<Rightarrow> Button_toggle button w | None \<Rightarrow> w)"

text \<open>
  Closing an alert either is vetoed by a listener of \<open>close\<close>, and then only the event has
  happened, or ends with the element out of the page, \<open>closed\<close> announced after \<open>close\<close> and the
  instance disposed of: at once without the \<open>fade\<close> class, at the end of the transition with it.\<close>

theorem alert_close_outcome:
  fixes a :: alert
  assumes "transitions w = []" and "\<not> alert_disposed a"
  defines "n \<equiv> alert_element a"
  shows "\<exists>a' w'. (if prevents (env w) (eventLog w) (n, ''close.bs.alert'') \<or> \<not> has_class w n ''fade''
        then Alert_close (a, w) else transition_end alert_run n (Alert_close (a, w))) = (a', w') \<and>
      (if prevents (env w) (eventLog w) (n, ''close.bs.alert'')
       then a' = a \<and> page w' = page w \<and> eventLog w' = eventLog w @ [(n, ''close.bs.alert'')]
       else alert_disposed a' \<and> parentNode (page w' n) = None \<and> \<not> has_class w' n ''show'' \<and>
         (\<forall>m. parentNode (page w n) = Some m \<longrightarrow> n \<notin> set (childNodes (page w' m))) \<and>
         eventLog w' = eventLog w @ [(n, ''close.bs.alert''), (n, ''closed.bs.alert'')])"
proof -
  define v where "v = announce n ''close.bs.alert'' w"
  have v: "page v = page w" "eventLog v = eventLog w @ [(n, ''close.bs.alert'')]" "transitions v = []"
    using assms(1) by (simp_all add: v_def)
  define u where "u = remove_class ''show'' n v"
  have u: "parentNode (page u m) = parentNode (page w m)" "transitions u = []"
      "eventLog u = eventLog w @ [(n, ''close.bs.alert'')]" for m
    using v by (simp_all add: u_def remove_class_def upd_node_page)
  have gone: "\<exists>a' w'. Alert_destroyElement (a, u) = (a', w') \<and>
      alert_disposed a' \<and> parentNode (page w' n) = None \<and> \<not> has_class w' n ''show'' \<and>
         (\<forall>m. parentNode (page w n) = Some m \<longrightarrow> n \<notin> set (childNodes (page w' m))) \<and>
         eventLog w' = eventLog w @ [(n, ''close.bs.alert''), (n, ''closed.bs.alert'')]"
  proof -
    have ns: "\<not> has_class u n ''show''" by (simp add: u_def)
    let ?w' = "unlisten_ns n ''.bs.alert'' (announce n ''closed.bs.alert'' (remove_node n u))"
    have "parentNode (page ?w' n) = None"
      by (simp add: unlisten_ns_def)
    moreover have "\<not> has_class ?w' n ''show''" using ns by simp
    moreover have "\<forall>m. parentNode (page w n) = Some m \<longrightarrow> n \<notin> set (childNodes (page ?w' m))"
      by (auto simp: unlisten_ns_def remove_node_def upd_node_page u)
    moreover have "eventLog ?w' = eventLog w @ [(n, ''close.bs.alert''), (n, ''closed.bs.alert'')]"
      using u(3) by simp
    ultimately show ?thesis
      by (simp add: Alert_destroyElement_def Alert_dispose_def n_def[symmetric] Let_def)
  qed
  have fade: "has_class u n ''fade'' = has_class w n ''fade''" by (simp add: u_def v_def)
  show ?thesis
  proof (cases "prevents (env w) (eventLog w) (n, ''close.bs.alert'')")
    case True
    then show ?thesis using v
      by (simp add: Alert_close_def n_def[symmetric] trigger_eq v_def)
  next
    case False
    have close: "Alert_close (a, w) = executeAfterTransition alert_run DestroyElement n
        (has_class w n ''fade'') (a, u)"
      using False fade by (simp add: Alert_close_def n_def[symmetric] trigger_eq v_def u_def Let_def)
    show ?thesis
    proof (cases "has_class w n ''fade''")
      case True
      have "transition_end alert_run n (Alert_close (a, w)) = Alert_destroyElement (a, u)"
        using close True u(2) by simp
      then show ?thesis using gone False True by simp
    next
      case nofade: False
      then show ?thesis using gone False close by simp
    qed
  qed
qed

lemma alert_close_outcome_witness:
  "\<exists>a' w'. transition_end alert_run 4 (Alert_close (\<lparr>alert_element = 4, alert_disposed = False\<rparr>,
      add_class ''fade'' 4 (blank_world (\<lambda>_. plain_node ''DIV'' None []) 5))) = (a', w') \<and> alert_disposed a'"
proof -
  let ?a = "\<lparr>alert_element = 4, alert_disposed = False\<rparr>"
  let ?w = "add_class ''fade'' 4 (blank_world (\<lambda>_. plain_node ''DIV'' None []) 5) :: alert_cb world"
  have "transitions ?w = []" "\<not> prevents (env ?w) (eventLog ?w) (4, ''close.bs.alert'')"
    "has_class ?w 4 ''fade''" by (simp_all add: blank_world_def blank_browser_def)
  then show ?thesis using alert_close_outcome [of ?w ?a] by auto
qed

lemma Button_toggle_twice:
  "has_class (Button_toggle n (Button_toggle n w)) m c = has_class w m c"
  by (auto simp: Button_toggle_def Let_def)

end
