(* ===== verification/BsSwipe.thy ===== *)
theory BsSwipe
  imports BsConfig
begin

text \<open>
  The swipe helper of Bootstrap (\<open>util/swipe.js\<close>): how the positions of pointer or touch events
  become the call of the left or right callback.
\<close>

section \<open>State and operations\<close>

record swipe =
  swipe_element :: node
  deltaX :: real
  supportPointerEvents :: bool

record touch_event =
  touches :: "real list"
  clientX :: real
  pointerType :: string

datatype swipe_action = LeftCallback | RightCallback

definition SWIPE_THRESHOLD :: real where "SWIPE_THRESHOLD = 40"

definition swipe_isSupported :: "'cb world \<Rightarrow> bool" where
  "swipe_isSupported w \<longleftrightarrow> hasTouchStart (env w) \<or> 0 < maxTouchPoints (env w)"

definition eventIsPointerPenTouch :: "touch_event \<Rightarrow> swipe \<Rightarrow> bool" where
  "eventIsPointerPenTouch event s \<longleftrightarrow>
    supportPointerEvents s \<and> (pointerType event = ''pen'' \<or> pointerType event = ''touch'')"

definition swipe_start :: "touch_event \<Rightarrow> swipe \<Rightarrow> swipe" where
  "swipe_start event s =
    (if \<not> supportPointerEvents s then s\<lparr>deltaX := touches event ! 0\<rparr>
     else if eventIsPointerPenTouch event s then s\<lparr>deltaX := clientX event\<rparr>
     else s)"

definition swipe_move :: "touch_event \<Rightarrow> swipe \<Rightarrow> swipe" where
  "swipe_move event s =
    s\<lparr>deltaX := (if length (touches event) > 1 then 0 else touches event ! 0 - deltaX s)\<rparr>"

definition handleSwipe :: "swipe \<Rightarrow> swipe_action option \<times> swipe" where
  "handleSwipe s = (let absDeltaX = \<bar>deltaX s\<bar> in
    if absDeltaX \<le> SWIPE_THRESHOLD then (None, s)
    else let direction = absDeltaX / deltaX s; s' = s\<lparr>deltaX := 0\<rparr> in
      if direction = 0 then (None, s')
      else (Some (if direction > 0 then RightCallback else LeftCallback), s'))"

text \<open>After the action of \<open>_handleSwipe\<close> the caller runs \<open>endCallback\<close>.\<close>

definition swipe_end :: "touch_event \<Rightarrow> swipe \<Rightarrow> swipe_action option \<times> swipe" where
  "swipe_end event s = handleSwipe
    (if eventIsPointerPenTouch event s then s\<lparr>deltaX := clientX event - deltaX s\<rparr> else s)"

definition swipe_initEvents :: "swipe \<Rightarrow> 'cb world \<Rightarrow> 'cb world" where
  "swipe_initEvents s w = (let n = swipe_element s in
    if supportPointerEvents s then
      add_class ''pointer-event'' n
        (listen n ''pointerup.bs.swipe'' (listen n ''pointerdown.bs.swipe'' w))
    else listen n ''touchend.bs.swipe''
      (listen n ''touchmove.bs.swipe'' (listen n ''touchstart.bs.swipe'' w)))"

definition swipe_new :: "node \<Rightarrow> 'cb world \<Rightarrow> swipe \<times> 'cb world" where
  "swipe_new element w =
    (let s = \<lparr>swipe_element = element, deltaX = 0, supportPointerEvents = hasPointerEvent (env w)\<rparr> in
     if \<not> swipe_isSupported w then (s, w) else (s, swipe_initEvents s w))"

definition swipe_dispose :: "swipe \<Rightarrow> 'cb world \<Rightarrow> 'cb world" where
  "swipe_dispose s = unlisten_ns (swipe_element s) ''.bs.swipe''"

section \<open>What counts as a swipe\<close>

lemma handleSwipe_cases:
  "fst (handleSwipe s) = (if deltaX s > 40 then Some RightCallback
    else if deltaX s < - 40 then Some LeftCallback else None)"
proof -
  consider "deltaX s > 40" | "deltaX s < - 40" | "\<bar>deltaX s\<bar> \<le> 40" by linarith
  then show ?thesis
  proof cases
    case 1
    then show ?thesis by (simp add: handleSwipe_def SWIPE_THRESHOLD_def Let_def)
  next
    case 2
    then have "\<bar>deltaX s\<bar> / deltaX s = - 1" by simp
    then show ?thesis using 2 by (simp add: handleSwipe_def SWIPE_THRESHOLD_def Let_def)
  next
    case 3
    then show ?thesis by (auto simp: handleSwipe_def SWIPE_THRESHOLD_def Let_def)
  qed
qed

text \<open>
  With pointer events a gesture of a finger or a pen from \<open>a\<close> to \<open>b\<close> is a swipe exactly when
  it is longer than forty pixels, to the right when it went right; a mouse never swipes.\<close>

theorem swipe_pointer_correct:
  assumes "supportPointerEvents s" and "deltaX s = 0"
    and "clientX d = a" and "clientX u = b" and "pointerType d = pointerType u"
  shows "fst (swipe_end u (swipe_start d s)) =
    (if pointerType u \<in> {''pen'', ''touch''} then
       (if b - a > 40 then Some RightCallback else if a - b > 40 then Some LeftCallback else None)
     else None)"
  using assms
  by (auto simp: swipe_end_def swipe_start_def eventIsPointerPenTouch_def handleSwipe_cases)

lemma swipe_pointer_correct_witness:
  "fst (swipe_end \<lparr>touches = [], clientX = 10, pointerType = ''touch''\<rparr>
    (swipe_start \<lparr>touches = [], clientX = 90, pointerType = ''touch''\<rparr>
      \<lparr>swipe_element = 4, deltaX = 0, supportPointerEvents = True\<rparr>)) = Some LeftCallback"
  by (subst swipe_pointer_correct [where a = 90 and b = 10]) simp_all

text \<open>Touch events carry the position along: every move subtracts the last value.\<close>

lemma swipe_touch_delta:
  assumes "\<not> supportPointerEvents s"
  shows "deltaX (swipe_move \<lparr>touches = [x], clientX = c, pointerType = p\<rparr> s) = x - deltaX s"
  by (simp add: swipe_move_def)

text \<open>
  Without pointer events the distance is not the distance moved. After a touch at \<open>a\<close> and
  two moves to \<open>b\<close> and \<open>c\<close> the helper measures \<open>c - b + a\<close>: a finger that moves two pixels to the
  right from a position beyond the threshold swipes right, and so does one that moves left by
  less than its distance from the left edge.\<close>

theorem swipe_touch_wrong_distance:
  assumes "\<not> supportPointerEvents s" and "a > 40" and "\<bar>c - b\<bar> < a - 40"
  shows "fst (swipe_end \<lparr>touches = [], clientX = x, pointerType = p\<rparr>
    (swipe_move \<lparr>touches = [c], clientX = c, pointerType = p\<rparr>
    (swipe_move \<lparr>touches = [b], clientX = b, pointerType = p\<rparr>
    (swipe_start \<lparr>touches = [a], clientX = a, pointerType = p\<rparr> s)))) = Some RightCallback"
  using assms
  by (auto simp: swipe_end_def swipe_move_def swipe_start_def eventIsPointerPenTouch_def handleSwipe_cases)

lemma swipe_touch_wrong_distance_witness:
  "fst (swipe_end \<lparr>touches = [], clientX = 0, pointerType = ''''\<rparr>
    (swipe_move \<lparr>touches = [99], clientX = 99, pointerType = ''''\<rparr>
    (swipe_move \<lparr>touches = [100], clientX = 100, pointerType = ''''\<rparr>
    (swipe_start \<lparr>touches = [101], clientX = 101, pointerType = ''''\<rparr>
      \<lparr>swipe_element = 4, deltaX = 0, supportPointerEvents = False\<rparr>)))) = Some RightCallback"
  by (rule swipe_touch_wrong_distance) simp_all

end
