(* ===== verification/BsCarousel.thy ===== *)
theory BsCarousel
  imports BsBasics BsSwipe
begin

text \<open>
  The carousel of Bootstrap. An instance is a record of the fields of \<open>Carousel\<close>; an operation
  takes the instance and the world. Handlers that wait for the \<open>slid\<close> event
  (\<open>EventHandler.one(..., EVENT_SLID, ...)\<close>) are a list of the instance with their registration
  numbers: the event runs those registered when it was dispatched, each removed before it runs.
  The running of handlers is an argument of the operations that can reach it and is tied in
  \<open>slid_fire\<close>, whose fuel is one more than the number of waiting handlers: a nested dispatch has
  removed at least one of them.
\<close>

section \<open>State\<close>

datatype slide_index = IdxNum int | IdxStr string

datatype slid_handler = SlidCycle | SlidTo slide_index

datatype order = ORDER_NEXT | ORDER_PREV

datatype direction = DIRECTION_LEFT | DIRECTION_RIGHT

datatype carousel_cb = SlideComplete node node order

record carousel_config =
  cfg_interval :: jsval
  keyboard :: bool
  pause_on :: jsval
  ride :: jsval
  touch :: bool
  wrap :: bool
  defaultInterval :: jsval

record carousel =
  element :: node
  config :: carousel_config
  interval :: "jsval option"
  activeItem :: "node option"
  isSliding :: bool
  touchTimeout :: "jsval option"
  swipeHelper :: "swipe option"
  indicatorsElement :: "node option"
  pendingSlid :: "(nat \<times> slid_handler) list"
  registrations :: nat

type_synonym carousel_state = "carousel \<times> carousel_cb world"

abbreviation on_world :: "(carousel_cb world \<Rightarrow> carousel_cb world) \<Rightarrow> carousel_state \<Rightarrow> carousel_state" where
  "on_world f s \<equiv> (fst s, f (snd s))"

section \<open>Items\<close>

definition is_item :: "'cb world \<Rightarrow> node \<Rightarrow> bool" where
  "is_item w n = has_class w n ''carousel-item''"

definition getActive :: "carousel_state \<Rightarrow> node option" where
  "getActive s = query_one (\<lambda>n. has_class (snd s) n ''active'' \<and> is_item (snd s) n) (snd s) (element (fst s))"

definition getItems :: "carousel_state \<Rightarrow> node list" where
  "getItems s = query_all (is_item (snd s)) (snd s) (element (fst s))"

definition getItemIndex :: "carousel_state \<Rightarrow> node option \<Rightarrow> int" where
  "getItemIndex s e = (case e of None \<Rightarrow> -1 | Some n \<Rightarrow> index_of (getItems s) n)"

definition isAnimated :: "carousel_state \<Rightarrow> bool" where
  "isAnimated s = has_class (snd s) (element (fst s)) ''slide''"

definition directionToOrder :: "'cb world \<Rightarrow> direction \<Rightarrow> order" where
  "directionToOrder w d =
    (if isRTL w then (if d = DIRECTION_LEFT then ORDER_PREV else ORDER_NEXT)
     else (if d = DIRECTION_LEFT then ORDER_NEXT else ORDER_PREV))"

definition orderToDirection :: "'cb world \<Rightarrow> order \<Rightarrow> direction" where
  "orderToDirection w r =
    (if isRTL w then (if r = ORDER_PREV then DIRECTION_LEFT else DIRECTION_RIGHT)
     else (if r = ORDER_PREV then DIRECTION_RIGHT else DIRECTION_LEFT))"

section \<open>Cycling\<close>

definition clearInterval :: "carousel_state \<Rightarrow> carousel_state" where
  "clearInterval s = ((fst s)\<lparr>interval := None\<rparr>, snd s)"

definition parseInt_attr :: "string option \<Rightarrow> jsval" where
  "parseInt_attr a = (case a of None \<Rightarrow> JNaN | Some v \<Rightarrow> parseInt10 v)"

definition updateInterval :: "carousel_state \<Rightarrow> carousel_state" where
  "updateInterval s =
    (case (case activeItem (fst s) of Some n \<Rightarrow> Some n | None \<Rightarrow> getActive s) of
       None \<Rightarrow> s
     | Some n \<Rightarrow>
         let elementInterval = parseInt_attr (get_attr (snd s) n ''data-bs-interval'');
             c = config (fst s);
             v = (if truthy elementInterval then elementInterval else defaultInterval c) in
         ((fst s)\<lparr>config := c\<lparr>cfg_interval := v\<rparr>\<rparr>, snd s))"

definition cycle :: "carousel_state \<Rightarrow> carousel_state" where
  "cycle s = (let s' = updateInterval (clearInterval s) in
    ((fst s')\<lparr>interval := Some (cfg_interval (config (fst s')))\<rparr>, snd s'))"

definition one_slid :: "slid_handler \<Rightarrow> carousel_state \<Rightarrow> carousel_state" where
  "one_slid h s = (let c = fst s in
    (c\<lparr>pendingSlid := pendingSlid c @ [(registrations c, h)], registrations := Suc (registrations c)\<rparr>, snd s))"

definition maybeEnableCycle :: "carousel_state \<Rightarrow> carousel_state" where
  "maybeEnableCycle s =
    (if \<not> truthy (ride (config (fst s))) then s
     else if isSliding (fst s) then one_slid SlidCycle s
     else cycle s)"

section \<open>Sliding\<close>

text \<open>With indicators of which none is active the method throws on the null it found (\<open>None\<close>
  here), and the call of \<open>_slide\<close> ends there.\<close>

definition setActiveIndicatorElement :: "int \<Rightarrow> carousel_state \<Rightarrow> carousel_state option" where
  "setActiveIndicatorElement index s = (case indicatorsElement (fst s) of
      None \<Rightarrow> Some s
    | Some ind \<Rightarrow> (case query_one (\<lambda>n. has_class (snd s) n ''active'') (snd s) ind of
        None \<Rightarrow> None
      | Some activeIndicator \<Rightarrow>
        let s' = on_world (\<lambda>w. remove_attr ''aria-current'' activeIndicator
              (remove_class ''active'' activeIndicator w)) s in
        Some (case query_one (\<lambda>n. get_attr (snd s') n ''data-bs-slide-to'' = Some (intStr index)) (snd s') ind of
           Some n \<Rightarrow> on_world (\<lambda>w. set_attr ''aria-current'' ''true'' n (add_class ''active'' n w)) s'
         | None \<Rightarrow> s')))"

definition directionalClassName :: "order \<Rightarrow> string" where
  "directionalClassName r = (if r = ORDER_NEXT then ''carousel-item-start'' else ''carousel-item-end'')"

definition orderClassName :: "order \<Rightarrow> string" where
  "orderClassName r = (if r = ORDER_NEXT then ''carousel-item-next'' else ''carousel-item-prev'')"

definition complete_classes :: "node \<Rightarrow> node \<Rightarrow> order \<Rightarrow> carousel_cb world \<Rightarrow> carousel_cb world" where
  "complete_classes nextEl activeEl r w =
    remove_class (directionalClassName r) activeEl
      (remove_class (orderClassName r) activeEl
        (remove_class ''active'' activeEl
          (add_class ''active'' nextEl
            (remove_class (orderClassName r) nextEl
              (remove_class (directionalClassName r) nextEl w)))))"

fun slide_complete ::
    "(carousel_state \<Rightarrow> carousel_state) \<Rightarrow> carousel_cb \<Rightarrow> carousel_state \<Rightarrow> carousel_state" where
  "slide_complete fire (SlideComplete nextEl activeEl r) s =
    fire ((fst s)\<lparr>isSliding := False\<rparr>,
      announce (element (fst s)) ''slid.bs.carousel'' (complete_classes nextEl activeEl r (snd s)))"

definition pause ::
    "(carousel_state \<Rightarrow> carousel_state) \<Rightarrow> carousel_state \<Rightarrow> carousel_state" where
  "pause fire s = clearInterval
    (if isSliding (fst s) then transition_end (slide_complete fire) (element (fst s)) s else s)"

definition start_classes :: "node \<Rightarrow> node \<Rightarrow> order \<Rightarrow> carousel_cb world \<Rightarrow> carousel_cb world" where
  "start_classes nextEl activeEl r w =
    add_class (directionalClassName r) nextEl
      (add_class (directionalClassName r) activeEl
        (add_class (orderClassName r) nextEl w))"

definition slide ::
    "(carousel_state \<Rightarrow> carousel_state) \<Rightarrow> order \<Rightarrow> node option \<Rightarrow> carousel_state \<Rightarrow> carousel_state" where
  "slide fire r target s =
    (if isSliding (fst s) then s
     else
       let active = getActive s; isNext = (r = ORDER_NEXT);
           next_item = (case target of Some n \<Rightarrow> Some n
             | None \<Rightarrow> getNextActiveElement (getItems s) active isNext (wrap (config (fst s)))) in
       if next_item \<noteq> None \<and> next_item = active then s
       else
         let nextIndex = getItemIndex s next_item;
             (prevented, w) = trigger (element (fst s)) ''slide.bs.carousel'' (snd s);
             s1 = (fst s, w) in
         if prevented then s1
         else (case (active, next_item) of
             (Some a, Some n) \<Rightarrow>
               let isCycling = (interval (fst s1) \<noteq> None);
                   s2 = pause fire s1;
                   s2' = ((fst s2)\<lparr>isSliding := True\<rparr>, snd s2) in
               (case setActiveIndicatorElement nextIndex s2' of
                  None \<Rightarrow> s2'
                | Some s3 \<Rightarrow>
                    let s4 = ((fst s3)\<lparr>activeItem := Some n\<rparr>, start_classes n a r (snd s3));
                        s5 = executeAfterTransition (slide_complete fire) (SlideComplete n a r) a
                          (isAnimated s4) s4 in
                    if isCycling then cycle s5 else s5)
           | _ \<Rightarrow> s1))"

definition index_value :: "slide_index \<Rightarrow> int option" where
  "index_value i = (case i of IdxNum k \<Rightarrow> Some k
    | IdxStr s \<Rightarrow> if s \<noteq> [] \<and> list_all is_digit s then Some (int (digitsVal s)) else None)"

definition item_at :: "node list \<Rightarrow> slide_index \<Rightarrow> node option" where
  "item_at items i = (case i of IdxNum k \<Rightarrow> at_index items k
    | IdxStr s \<Rightarrow> (case index_value i of
        Some k \<Rightarrow> if s = intStr k then at_index items k else None | None \<Rightarrow> None))"

text \<open>\<open>to\<close> compares the index as a number, which \<open>NaN\<close> never is, except in \<open>activeIndex ===
  index\<close>, which a string never is.\<close>

definition to_index ::
    "(carousel_state \<Rightarrow> carousel_state) \<Rightarrow> slide_index \<Rightarrow> carousel_state \<Rightarrow> carousel_state" where
  "to_index fire index s = (let items = getItems s; v = index_value index in
    if (case v of Some k \<Rightarrow> k > int (length items) - 1 \<or> k < 0 | None \<Rightarrow> False) then s
    else if isSliding (fst s) then one_slid (SlidTo index) s
    else let activeIndex = getItemIndex s (getActive s) in
      if index = IdxNum activeIndex then s
      else let r = (case v of Some k \<Rightarrow> if k > activeIndex then ORDER_NEXT else ORDER_PREV
                    | None \<Rightarrow> ORDER_PREV) in
        slide fire r (item_at items index) s)"

definition run_slid_handler ::
    "(carousel_state \<Rightarrow> carousel_state) \<Rightarrow> slid_handler \<Rightarrow> carousel_state \<Rightarrow> carousel_state" where
  "run_slid_handler fire h s = (case h of SlidCycle \<Rightarrow> cycle s | SlidTo i \<Rightarrow> to_index fire i s)"

primrec slid_fire :: "nat \<Rightarrow> carousel_state \<Rightarrow> carousel_state" where
  "slid_fire 0 s = s"
| "slid_fire (Suc k) s = fold (\<lambda>(i, h) t.
      if (i, h) \<in> set (pendingSlid (fst t))
      then run_slid_handler (slid_fire k) h
        ((fst t)\<lparr>pendingSlid := removeAll (i, h) (pendingSlid (fst t))\<rparr>, snd t)
      else t) (pendingSlid (fst s)) s"

definition fire_slid :: "carousel_state \<Rightarrow> carousel_state" where
  "fire_slid s = slid_fire (Suc (length (pendingSlid (fst s)))) s"

section \<open>The interface of the component\<close>

definition Carousel_next :: "carousel_state \<Rightarrow> carousel_state" where
  "Carousel_next = slide fire_slid ORDER_NEXT None"

definition Carousel_prev :: "carousel_state \<Rightarrow> carousel_state" where
  "Carousel_prev = slide fire_slid ORDER_PREV None"

definition nextWhenVisible :: "carousel_state \<Rightarrow> carousel_state" where
  "nextWhenVisible s =
    (if \<not> documentHidden (env (snd s)) \<and> isVisible (snd s) (Some (element (fst s)))
     then Carousel_next s else s)"

definition Carousel_pause :: "carousel_state \<Rightarrow> carousel_state" where
  "Carousel_pause = pause fire_slid"

definition Carousel_to :: "slide_index \<Rightarrow> carousel_state \<Rightarrow> carousel_state" where
  "Carousel_to = to_index fire_slid"

definition KEY_TO_DIRECTION :: "string \<Rightarrow> direction option" where
  "KEY_TO_DIRECTION key = (if key = ''ArrowLeft'' then Some DIRECTION_RIGHT
    else if key = ''ArrowRight'' then Some DIRECTION_LEFT else None)"

definition Carousel_keydown :: "node \<Rightarrow> string \<Rightarrow> carousel_state \<Rightarrow> carousel_state" where
  "Carousel_keydown target key s =
    (let tag = toLowerCase (tagName (page (snd s) target)) in
     if includes_str tag ''input'' \<or> includes_str tag ''textarea'' then s
     else (case KEY_TO_DIRECTION key of
         Some d \<Rightarrow> slide fire_slid (directionToOrder (snd s) d) None s
       | None \<Rightarrow> s))"

definition TOUCHEVENT_COMPAT_WAIT :: real where "TOUCHEVENT_COMPAT_WAIT = 500"

definition touch_endCallBack :: "carousel_state \<Rightarrow> carousel_state" where
  "touch_endCallBack s =
    (if pause_on (config (fst s)) \<noteq> JStr ''hover'' then s
     else let s' = Carousel_pause s in
       ((fst s')\<lparr>touchTimeout := Some (add_js (JNum TOUCHEVENT_COMPAT_WAIT)
           (cfg_interval (config (fst s'))))\<rparr>, snd s'))"

text \<open>The end of a gesture as the swipe helper reports it: the callback of the direction, if any,
  and then \<open>endCallBack\<close>.\<close>

definition Carousel_swipe_end :: "touch_event \<Rightarrow> carousel_state \<Rightarrow> carousel_state" where
  "Carousel_swipe_end ev s = (case swipeHelper (fst s) of
      None \<Rightarrow> s
    | Some h \<Rightarrow>
        let (act, h') = swipe_end ev h;
            s1 = ((fst s)\<lparr>swipeHelper := Some h'\<rparr>, snd s);
            s2 = (case act of
                Some LeftCallback \<Rightarrow> slide fire_slid (directionToOrder (snd s1) DIRECTION_LEFT) None s1
              | Some RightCallback \<Rightarrow> slide fire_slid (directionToOrder (snd s1) DIRECTION_RIGHT) None s1
              | None \<Rightarrow> s1) in
        touch_endCallBack s2)"

definition addTouchEventListeners :: "carousel_state \<Rightarrow> carousel_state" where
  "addTouchEventListeners s =
    (let imgs = query_all (\<lambda>n. tagName (page (snd s) n) = ''IMG'' \<and>
            list_ex (is_item (snd s)) (tl (inclusive_ancestors (snd s) n))) (snd s) (element (fst s));
         w = fold (\<lambda>img. listen img ''dragstart.bs.carousel'') imgs (snd s);
         (h, w') = swipe_new (element (fst s)) w in
     ((fst s)\<lparr>swipeHelper := Some h\<rparr>, w'))"

definition addEventListeners :: "carousel_state \<Rightarrow> carousel_state" where
  "addEventListeners s =
    (let c = config (fst s); n = element (fst s);
         s1 = (if keyboard c then on_world (listen n ''keydown.bs.carousel'') s else s);
         s2 = (if pause_on c = JStr ''hover''
               then on_world (\<lambda>w. listen n ''mouseleave.bs.carousel'' (listen n ''mouseenter.bs.carousel'' w)) s1
               else s1) in
     if touch c \<and> swipe_isSupported (snd s2) then addTouchEventListeners s2 else s2)"

definition Carousel_new :: "node \<Rightarrow> carousel_config \<Rightarrow> carousel_cb world \<Rightarrow> carousel_state" where
  "Carousel_new n cfg w =
    (let c = \<lparr>element = n, config = cfg, interval = None, activeItem = None, isSliding = False,
        touchTimeout = None, swipeHelper = None,
        indicatorsElement = query_one (\<lambda>m. has_class w m ''carousel-indicators'') w n,
        pendingSlid = [], registrations = 0\<rparr>;
        s = addEventListeners (c, w) in
     if ride cfg = JStr ''carousel'' then cycle s else s)"

definition Carousel_dispose :: "carousel_state \<Rightarrow> carousel_state" where
  "Carousel_dispose s =
    (let s' = (case swipeHelper (fst s) of Some h \<Rightarrow> on_world (swipe_dispose h) s | None \<Rightarrow> s) in
     on_world (unlisten_ns (element (fst s)) ''.bs.carousel'') s')"

text \<open>The click on a control or an indicator (\<open>[data-bs-slide]\<close>, \<open>[data-bs-slide-to]\<close>).\<close>

definition Carousel_data_api_click ::
    "(string \<Rightarrow> jsval option) \<Rightarrow> node \<Rightarrow> carousel_state \<Rightarrow> carousel_state" where
  "Carousel_data_api_click parseJson this s =
    (if getElementFromSelector (snd s) this \<noteq> Some (element (fst s)) \<or>
        \<not> has_class (snd s) (element (fst s)) ''carousel'' then s
     else (case nonempty (get_attr (snd s) this ''data-bs-slide-to'') of
       Some slideIndex \<Rightarrow> maybeEnableCycle (Carousel_to (IdxStr slideIndex) s)
     | None \<Rightarrow>
         if getDataAttribute parseJson (snd s) this ''slide'' = JStr ''next''
         then maybeEnableCycle (Carousel_next s)
         else maybeEnableCycle (Carousel_prev s)))"

section \<open>A settled carousel stays settled\<close>

text \<open>The indicator of an index is the first element among the indicators that names it.\<close>

definition indicator_for :: "'cb world \<Rightarrow> node \<Rightarrow> int \<Rightarrow> node option" where
  "indicator_for w ind k = query_one (\<lambda>n. get_attr w n ''data-bs-slide-to'' = Some (intStr k)) w ind"

definition only_indicator :: "'cb world \<Rightarrow> node \<Rightarrow> node option \<Rightarrow> bool" where
  "only_indicator w ind i \<longleftrightarrow> (\<forall>n \<in> set (descendants w ind).
     (has_class w n ''active'' \<longleftrightarrow> i = Some n) \<and> (get_attr w n ''aria-current'' = Some ''true'' \<longleftrightarrow> i = Some n))"

text \<open>
  Exactly the item \<open>a\<close> is active, and among the indicators, where there are any, exactly the one of its index is marked,
  by class and by \<open>aria-current\<close>.\<close>

definition settled :: "carousel_state \<Rightarrow> node \<Rightarrow> bool" where
  "settled s a \<longleftrightarrow> \<not> isSliding (fst s) \<and> pendingSlid (fst s) = [] \<and> transitions (snd s) = [] \<and>
    distinct (getItems s) \<and> a \<in> set (getItems s) \<and>
    (\<forall>n \<in> set (getItems s). has_class (snd s) n ''active'' \<longleftrightarrow> n = a) \<and>
    (\<forall>ind. indicatorsElement (fst s) = Some ind \<longrightarrow>
      set (descendants (snd s) ind) \<inter> set (getItems s) = {} \<and>
      (\<forall>i < length (getItems s). indicator_for (snd s) ind (int i) \<noteq> None) \<and>
      only_indicator (snd s) ind (indicator_for (snd s) ind (index_of (getItems s) a)))"

lemma find_filter: "List.find (\<lambda>n. P n \<and> Q n) xs = List.find P (filter Q xs)"
  by (induction xs) auto

lemma find_unique: "a \<in> set xs \<Longrightarrow> (\<forall>n \<in> set xs. P n \<longleftrightarrow> n = a) \<Longrightarrow> List.find P xs = Some a"
  by (induction xs) auto

lemma settled_active: "settled s a \<Longrightarrow> getActive s = Some a"
  unfolding getActive_def query_one_def find_filter
  by (rule find_unique) (auto simp: settled_def getItems_def query_all_def)

lemma getItems_cong:
  assumes "same_tree (snd s) (snd t)" and "element (fst t) = element (fst s)"
    and "\<And>n. has_class (snd t) n ''carousel-item'' = has_class (snd s) n ''carousel-item''"
  shows "getItems t = getItems s"
proof -
  have "is_item (snd t) = is_item (snd s)" using assms(3) by (simp add: is_item_def fun_eq_iff)
  then show ?thesis using assms by (simp add: getItems_def query_all_def same_tree_descendants)
qed

lemma find_Some_mem: "(\<exists>x \<in> set xs. P x) \<Longrightarrow> \<exists>x. List.find P xs = Some x \<and> x \<in> set xs \<and> P x"
  by (induction xs) auto

lemma query_one_mem: "query_one P w n = Some m \<Longrightarrow> m \<in> set (descendants w n) \<and> P m"
  by (auto simp: query_one_def find_Some_iff)

text \<open>The indicators of a settled carousel can be moved, and nothing else is touched.\<close>

definition indicators_moved :: "carousel_state \<Rightarrow> int \<Rightarrow> carousel_state \<Rightarrow> bool" where
  "indicators_moved s k t \<longleftrightarrow> fst t = fst s \<and> same_tree (snd s) (snd t) \<and>
    eventLog (snd t) = eventLog (snd s) \<and> transitions (snd t) = transitions (snd s) \<and>
    (\<forall>n c. c \<noteq> ''active'' \<longrightarrow> has_class (snd t) n c = has_class (snd s) n c) \<and>
    (\<forall>n \<in> set (getItems s). has_class (snd t) n ''active'' = has_class (snd s) n ''active'') \<and>
    (\<forall>n. get_attr (snd t) n ''data-bs-slide-to'' = get_attr (snd s) n ''data-bs-slide-to'') \<and>
    (\<forall>ind. indicatorsElement (fst s) = Some ind \<longrightarrow> only_indicator (snd t) ind (indicator_for (snd s) ind k))"

lemma indicator_for_cong:
  assumes "same_tree w v" and "\<And>n. get_attr v n ''data-bs-slide-to'' = get_attr w n ''data-bs-slide-to''"
  shows "indicator_for v ind k = indicator_for w ind k"
  using assms by (simp add: indicator_for_def query_one_def same_tree_descendants)

lemma only_indicator_cong:
  assumes "same_tree w v"
    and "\<And>n. n \<in> set (descendants w ind) \<Longrightarrow> has_class v n ''active'' = has_class w n ''active'' \<and>
      get_attr v n ''aria-current'' = get_attr w n ''aria-current''"
  shows "only_indicator v ind i = only_indicator w ind i"
  using assms by (simp add: only_indicator_def same_tree_descendants)

lemma setActiveIndicator_moved:
  assumes ok: "settled s a" and k: "0 \<le> k" "k < int (length (getItems s))"
    and t: "fst t = (fst s)\<lparr>interval := x, isSliding := y\<rparr>" "snd t = announce m e (snd s)"
  shows "\<exists>u. setActiveIndicatorElement k t = Some u \<and> indicators_moved t k u"
proof (cases "indicatorsElement (fst s)")
  case None
  then show ?thesis using t by (simp add: setActiveIndicatorElement_def indicators_moved_def)
next
  case (Some ind)
  let ?D = "set (descendants (snd s) ind)"
  have items: "getItems t = getItems s"
    by (rule getItems_cong) (simp_all add: t)
  have D: "?D \<inter> set (getItems s) = {}" "\<And>i. i < length (getItems s) \<Longrightarrow> indicator_for (snd s) ind (int i) \<noteq> None"
    "only_indicator (snd s) ind (indicator_for (snd s) ind (index_of (getItems s) a))"
    using ok Some by (auto simp: settled_def)
  have some: "\<exists>n. indicator_for (snd s) ind j = Some n \<and> n \<in> ?D" if "0 \<le> j" "j < int (length (getItems s))" for j
  proof -
    have "nat j < length (getItems s)" "int (nat j) = j" using that by linarith+
    then obtain n where n: "indicator_for (snd s) ind j = Some n" using D(2)[of "nat j"] by auto
    show ?thesis using n query_one_mem[OF n[unfolded indicator_for_def]] by blast
  qed
  have desc: "descendants (snd t) ind = descendants (snd s) ind"
    by (rule same_tree_descendants) (simp add: t)
  have a: "a \<in> set (getItems s)" using ok by (simp add: settled_def)
  obtain p where p: "indicator_for (snd s) ind (index_of (getItems s) a) = Some p" "p \<in> ?D"
    using some[of "index_of (getItems s) a"] a index_of_range[of "getItems s" a] index_of_mem[of "getItems s" a] by auto
  have only: "\<And>n. n \<in> ?D \<Longrightarrow> (has_class (snd s) n ''active'' \<longleftrightarrow> n = p) \<and> (get_attr (snd s) n ''aria-current'' = Some ''true'' \<longleftrightarrow> n = p)"
    using D(3) p(1) by (auto simp: only_indicator_def)
  have act: "query_one (\<lambda>n. has_class (snd t) n ''active'') (snd t) ind = Some p"
    unfolding query_one_def desc by (rule find_unique) (use p(2) only in \<open>simp_all add: t\<close>)
  define w1 where "w1 = remove_attr ''aria-current'' p (remove_class ''active'' p (snd t))"
  have slot: "indicator_for w1 ind k = indicator_for (snd s) ind k"
    by (rule indicator_for_cong) (simp_all add: w1_def t)
  obtain q where q: "indicator_for (snd s) ind k = Some q" "q \<in> ?D" using some[OF k] by blast
  define w2 where "w2 = set_attr ''aria-current'' ''true'' q (add_class ''active'' q w1)"
  have eq: "setActiveIndicatorElement k t = Some (fst t, w2)"
    using Some act q(1) slot t(1) by (simp add: setActiveIndicatorElement_def Let_def w1_def w2_def indicator_for_def)
  have tree: "same_tree (snd t) w2" by (simp add: w2_def w1_def)
  have "descendants w2 ind = descendants (snd s) ind"
    by (rule same_tree_descendants) (simp add: w2_def w1_def t)
  then have "only_indicator w2 ind (Some q)"
    using only by (auto simp: only_indicator_def w2_def w1_def t)
  moreover have "indicator_for (snd t) ind k = Some q"
    using indicator_for_cong[of "snd s" "snd t" ind k] q(1) by (simp add: t)
  moreover have "n \<noteq> p \<and> n \<noteq> q" if "n \<in> set (getItems s)" for n using that D(1) p(2) q(2) by blast
  ultimately have "indicators_moved t k (fst t, w2)"
    using tree Some t(1) by (simp add: indicators_moved_def items) (simp add: w2_def w1_def)
  then show ?thesis using eq by blast
qed


lemma cycle_rest [simp]:
  "snd (cycle s) = snd s" "element (fst (cycle s)) = element (fst s)"
  "isSliding (fst (cycle s)) = isSliding (fst s)" "pendingSlid (fst (cycle s)) = pendingSlid (fst s)"
  "indicatorsElement (fst (cycle s)) = indicatorsElement (fst s)"
  "activeItem (fst (cycle s)) = activeItem (fst s)"
  by (auto simp: cycle_def updateInterval_def clearInterval_def Let_def split: option.splits)

lemma fire_nothing: "pendingSlid (fst s) = [] \<Longrightarrow> fire_slid s = s"
  by (simp add: fire_slid_def)

definition moved_classes :: "node \<Rightarrow> node \<Rightarrow> order \<Rightarrow> carousel_cb world \<Rightarrow> carousel_cb world" where
  "moved_classes b a r w = complete_classes b a r (start_classes b a r w)"

lemma moved_classes_ops [simp]:
  "eventLog (moved_classes b a r w) = eventLog w" "transitions (moved_classes b a r w) = transitions w"
  "same_tree u (moved_classes b a r w) = same_tree u w"
  "descendants (moved_classes b a r w) m = descendants w m"
  "get_attr (moved_classes b a r w) m x = get_attr w m x"
  "has_class (moved_classes b a r w) m ''carousel-item'' = has_class w m ''carousel-item''"
  "has_class (moved_classes b a r w) m ''active'' \<longleftrightarrow> m \<noteq> a \<and> (m = b \<or> has_class w m ''active'') \<or>
    (m = a \<and> False)"
  by (auto simp: moved_classes_def complete_classes_def start_classes_def directionalClassName_def
      orderClassName_def split: if_splits)

lemma settled_moved:
  assumes ok: "settled s a" and b: "b \<in> set (getItems s)" "b \<noteq> a"
    and t: "fst t = (fst s)\<lparr>interval := x, isSliding := y\<rparr>" "snd t = announce m e (snd s)"
    and u: "indicators_moved t (index_of (getItems s) b) u"
    and v: "snd v = announce m' e' (moved_classes b a r (snd u))" "element (fst v) = element (fst s)"
      "\<not> isSliding (fst v)" "pendingSlid (fst v) = []" "indicatorsElement (fst v) = indicatorsElement (fst s)"
  shows "settled v b \<and> getItems v = getItems s"
proof -
  have a: "a \<in> set (getItems s)" using ok by (simp add: settled_def)
  have it: "getItems t = getItems s" by (rule getItems_cong) (simp_all add: t)
  have tree: "same_tree (snd t) (snd u)" using u by (simp add: indicators_moved_def)
  then have tree': "same_tree (snd s) (snd u)" using t(2) by (simp add: same_tree_def)
  have cls: "has_class (snd u) n c = has_class (snd s) n c" if "c \<noteq> ''active''" for n c
    using u that t(2) by (simp add: indicators_moved_def)
  have act: "has_class (snd u) n ''active'' = has_class (snd s) n ''active''" if "n \<in> set (getItems s)" for n
    using u that t(2) it by (simp add: indicators_moved_def)
  have attr: "get_attr (snd u) n ''data-bs-slide-to'' = get_attr (snd s) n ''data-bs-slide-to''" for n
    using u t(2) by (simp add: indicators_moved_def)
  have desc: "descendants (snd u) n = descendants (snd s) n" for n
    using tree' by (rule same_tree_descendants)
  have tr: "transitions (snd u) = []"
    using u t(2) ok by (simp add: indicators_moved_def settled_def)
  have items: "getItems v = getItems s"
    by (rule getItems_cong) (use v tree' cls in simp_all)
  have ind: "set (descendants (snd v) i) \<inter> set (getItems s) = {} \<and>
      (\<forall>j < length (getItems s). indicator_for (snd v) i (int j) \<noteq> None) \<and>
      only_indicator (snd v) i (indicator_for (snd v) i (index_of (getItems s) b))"
    if i: "indicatorsElement (fst s) = Some i" for i
  proof -
    have D: "set (descendants (snd s) i) \<inter> set (getItems s) = {}"
      "\<And>j. j < length (getItems s) \<Longrightarrow> indicator_for (snd s) i (int j) \<noteq> None"
      using ok i by (auto simp: settled_def)
    have tv: "same_tree (snd s) (snd v)" "same_tree (snd u) (snd v)" using tree' by (simp_all add: v(1))
    have slot: "indicator_for (snd v) i k = indicator_for (snd s) i k" for k
      by (rule indicator_for_cong[OF tv(1)]) (simp add: v(1) attr)
    have "indicator_for (snd t) i k = indicator_for (snd s) i k" for k
      by (rule indicator_for_cong) (simp_all add: t(2))
    then have "only_indicator (snd u) i (indicator_for (snd s) i (index_of (getItems s) b))"
      using u i t(1) by (simp add: indicators_moved_def)
    moreover have "only_indicator (snd v) i j = only_indicator (snd u) i j" for j
      using D(1) a b by (intro only_indicator_cong[OF tv(2)]) (auto simp: v(1) desc)
    ultimately show ?thesis using D by (simp add: slot same_tree_descendants[OF tv(1)])
  qed
  have "settled v b"
    unfolding settled_def items
    using ok b act ind v tr by (auto simp: settled_def)
  then show ?thesis using items by blast
qed


text \<open>A step that nothing vetoes, up to the transition: the state in which the classes have been
  exchanged is handed to \<open>executeAfterTransition\<close>, and the cycle is started again if it ran.\<close>

lemma slide_run:
  assumes ok: "settled s a"
    and nxt: "getNextActiveElement (getItems s) (Some a) (r = ORDER_NEXT) (wrap (config (fst s))) = Some b"
    and ne: "b \<noteq> a"
    and np: "\<not> prevents (env (snd s)) (eventLog (snd s)) (element (fst s), ''slide.bs.carousel'')"
  obtains u s4 s5 where
    "indicators_moved ((fst s)\<lparr>interval := None, isSliding := True\<rparr>,
       announce (element (fst s)) ''slide.bs.carousel'' (snd s)) (index_of (getItems s) b) u"
    "s4 = ((fst s)\<lparr>interval := None, isSliding := True, activeItem := Some b\<rparr>, start_classes b a r (snd u))"
    "transitions (snd s4) = []"
    "s5 = executeAfterTransition (slide_complete fire_slid) (SlideComplete b a r) a (isAnimated s) s4"
    "slide fire_slid r None s = (if interval (fst s) \<noteq> None then cycle s5 else s5)"
proof -
  let ?n = "element (fst s)"
  have act: "getActive s = Some a" using ok by (rule settled_active)
  have st: "\<not> isSliding (fst s)" "transitions (snd s) = []" using ok by (simp_all add: settled_def)
  have b: "b \<in> set (getItems s)" using nxt by (rule next_mem)
  define k where "k = index_of (getItems s) b"
  have k: "0 \<le> k" "k < int (length (getItems s))"
    using b index_of_range[of "getItems s" b] index_of_mem[of "getItems s" b] by (auto simp: k_def)
  define s2 where "s2 = ((fst s)\<lparr>interval := None, isSliding := True\<rparr>, announce ?n ''slide.bs.carousel'' (snd s))"
  obtain u where u: "setActiveIndicatorElement k s2 = Some u" "indicators_moved s2 k u"
    using setActiveIndicator_moved[OF ok k, where t = s2 and x = None and y = True
        and m = ?n and e = "''slide.bs.carousel''"] by (auto simp: s2_def)
  define s4 where "s4 = ((fst u)\<lparr>activeItem := Some b\<rparr>, start_classes b a r (snd u))"
  have fu: "fst u = fst s2" using u(2) by (simp add: indicators_moved_def)
  have anim: "isAnimated s4 = isAnimated s"
    using u(2) by (simp add: s4_def isAnimated_def fu s2_def start_classes_def directionalClassName_def
        orderClassName_def indicators_moved_def)
  have tr4: "transitions (snd s4) = []"
    using u(2) st by (simp add: s4_def start_classes_def s2_def indicators_moved_def)
  define s5 where "s5 = executeAfterTransition (slide_complete fire_slid) (SlideComplete b a r) a (isAnimated s) s4"
  have "slide fire_slid r None s = (if interval (fst s) \<noteq> None then cycle s5 else s5)"
    using st act nxt ne np u(1) anim
    by (simp add: slide_def Let_def trigger_eq pause_def clearInterval_def getItemIndex_def k_def[symmetric]
        s2_def[symmetric] s4_def[symmetric] s5_def)
  moreover have "s4 = ((fst s)\<lparr>interval := None, isSliding := True, activeItem := Some b\<rparr>, start_classes b a r (snd u))"
    by (simp add: s4_def fu s2_def)
  ultimately show thesis using that u(2) tr4 s5_def unfolding s2_def k_def by blast
qed

text \<open>
  C26: one step of the carousel. From a settled state, in which exactly the item \<open>a\<close> is active
  and exactly its indicator is marked, \<open>next\<close> or \<open>prev\<close> that no listener vetoes makes exactly the
  cyclic neighbour active (clamped at the ends when it does not wrap), moves the mark to the indicator of the
  neighbour's index, announces \<open>slide\<close> and then \<open>slid\<close> and is settled again; with the \<open>slide\<close> class this takes the
  transition of the old item, during which the carousel is sliding and refuses further steps.\<close>

theorem carousel_slide_moves:
  assumes ok: "settled s a"
    and nxt: "getNextActiveElement (getItems s) (Some a) (r = ORDER_NEXT) (wrap (config (fst s))) = Some b"
    and ne: "b \<noteq> a"
    and np: "\<not> prevents (env (snd s)) (eventLog (snd s)) (element (fst s), ''slide.bs.carousel'')"
  shows "\<exists>s' t. slide fire_slid r None s = s' \<and>
    t = (if isAnimated s then transition_end (slide_complete fire_slid) a s' else s') \<and>
    settled t b \<and> getItems t = getItems s \<and> element (fst t) = element (fst s) \<and>
    eventLog (snd t) = eventLog (snd s) @
      [(element (fst s), ''slide.bs.carousel''), (element (fst s), ''slid.bs.carousel'')] \<and>
    (isAnimated s \<longrightarrow> isSliding (fst s') \<and> slide fire_slid q c s' = s')"
proof -
  let ?n = "element (fst s)" and ?cyc = "interval (fst s) \<noteq> None"
  have st: "pendingSlid (fst s) = []" using ok by (simp add: settled_def)
  obtain u s4 s5 where u: "indicators_moved ((fst s)\<lparr>interval := None, isSliding := True\<rparr>,
        announce ?n ''slide.bs.carousel'' (snd s)) (index_of (getItems s) b) u"
    and s4: "s4 = ((fst s)\<lparr>interval := None, isSliding := True, activeItem := Some b\<rparr>, start_classes b a r (snd u))"
      "transitions (snd s4) = []"
    and s5: "s5 = executeAfterTransition (slide_complete fire_slid) (SlideComplete b a r) a (isAnimated s) s4"
    and run: "slide fire_slid r None s = (if ?cyc then cycle s5 else s5)"
    by (rule slide_run [OF ok nxt ne np])
  have finish: "settled v b \<and> getItems v = getItems s \<and> element (fst v) = ?n \<and>
      eventLog (snd v) = eventLog (snd s) @ [(?n, ''slide.bs.carousel''), (?n, ''slid.bs.carousel'')]"
    if v: "v = (c, announce ?n ''slid.bs.carousel'' (complete_classes b a r (snd s4)))"
      "element c = ?n" "\<not> isSliding c" "pendingSlid c = []" "indicatorsElement c = indicatorsElement (fst s)" for v c
  proof -
    have "settled v b \<and> getItems v = getItems s"
      by (rule settled_moved [OF ok next_mem [OF nxt] ne _ _ u]) (simp_all add: v s4(1) moved_classes_def)
    then show ?thesis using v u by (simp add: s4(1) indicators_moved_def moved_classes_def[symmetric])
  qed
  show ?thesis
  proof (cases "isAnimated s")
    case True
    define s' where "s' = (if ?cyc then cycle s5 else s5)"
    have s': "snd s' = (snd s4)\<lparr>transitions := [(a, SlideComplete b a r)]\<rparr>" "element (fst s') = ?n"
        "isSliding (fst s')" "pendingSlid (fst s') = []" "indicatorsElement (fst s') = indicatorsElement (fst s)"
      using True st s4(2) by (simp_all add: s'_def s5 s4(1))
    define t where "t = transition_end (slide_complete fire_slid) a s'"
    have "t = slide_complete fire_slid (SlideComplete b a r) (fst s', snd s4)"
      using transition_end_single[OF s4(2), of "slide_complete fire_slid" a "fst s'"] s'(1)
      by (metis prod.collapse t_def)
    then have "t = ((fst s')\<lparr>isSliding := False\<rparr>, announce ?n ''slid.bs.carousel'' (complete_classes b a r (snd s4)))"
      using s' by (simp add: fire_nothing)
    note finish [OF this]
    moreover have "slide fire_slid q c s' = s'" using s'(3) by (simp add: slide_def)
    moreover have "slide fire_slid r None s = s'" unfolding run s'_def by (rule refl)
    ultimately show ?thesis using True s' by (intro exI[of _ s'] exI[of _ t]) (simp add: t_def)
  next
    case False
    define t where "t = (if ?cyc then cycle s5 else s5)"
    have t5: "s5 = ((fst s4)\<lparr>isSliding := False\<rparr>, announce ?n ''slid.bs.carousel'' (complete_classes b a r (snd s4)))"
      using False st by (simp add: s5 fire_nothing s4(1))
    have "t = (fst t, announce ?n ''slid.bs.carousel'' (complete_classes b a r (snd s4)))"
      by (simp add: t_def t5 prod_eq_iff)
    note finish [OF this]
    moreover have "element (fst t) = ?n" "\<not> isSliding (fst t)" "pendingSlid (fst t) = []"
        "indicatorsElement (fst t) = indicatorsElement (fst s)"
      using st by (simp_all add: t_def t5 s4(1))
    ultimately show ?thesis using run False unfolding t_def[symmetric] by simp
  qed
qed


text \<open>A carousel of three items with an indicator for each.\<close>

definition demo_page :: page where
  "demo_page = (\<lambda>n. if n = 4 then (plain_node ''DIV'' (Some 1) [8, 5, 6, 7])\<lparr>classList := [''carousel'', ''slide'']\<rparr>
    else if n = 5 then (plain_node ''DIV'' (Some 4) [])\<lparr>classList := [''carousel-item'', ''active'']\<rparr>
    else if n = 6 \<or> n = 7 then (plain_node ''DIV'' (Some 4) [])\<lparr>classList := [''carousel-item'']\<rparr>
    else if n = 8 then (plain_node ''DIV'' (Some 4) [9, 10, 11])\<lparr>classList := [''carousel-indicators'']\<rparr>
    else if n = 9 then (plain_node ''BUTTON'' (Some 8) [])\<lparr>classList := [''active''],
      attrs := [(''data-bs-slide-to'', ''0''), (''aria-current'', ''true'')]\<rparr>
    else if n = 10 then (plain_node ''BUTTON'' (Some 8) [])\<lparr>attrs := [(''data-bs-slide-to'', ''1'')]\<rparr>
    else if n = 11 then (plain_node ''BUTTON'' (Some 8) [])\<lparr>attrs := [(''data-bs-slide-to'', ''2'')]\<rparr>
    else plain_node ''DIV'' None [])"

definition demo_config :: carousel_config where
  "demo_config = \<lparr>cfg_interval = JNum 5000, keyboard = True, pause_on = JStr ''hover'',
    ride = JBool False, touch = True, wrap = True, defaultInterval = JNum 5000\<rparr>"

definition demo_carousel :: carousel_state where
  "demo_carousel = Carousel_new 4 demo_config (blank_world demo_page 12)"

lemma demo_facts:
  "fst demo_carousel = \<lparr>element = 4, config = demo_config, interval = None, activeItem = None,
    isSliding = False, touchTimeout = None, swipeHelper = None, indicatorsElement = Some 8,
    pendingSlid = [], registrations = 0\<rparr>"
  "transitions (snd demo_carousel) = []" "eventLog (snd demo_carousel) = []"
  "env (snd demo_carousel) = blank_browser" "page (snd demo_carousel) = demo_page"
  "nodeCount (snd demo_carousel) = 12"
proof -
  have d: "descendants (blank_world demo_page 12 :: carousel_cb world) 4 = [8, 9, 10, 11, 5, 6, 7]"
    by (simp add: descendants_def blank_world_def demo_page_def plain_node_def numeral_eq_Suc)
  have q: "query_one (\<lambda>m. has_class (blank_world demo_page 12 :: carousel_cb world) m ''carousel-indicators'')
      (blank_world demo_page 12 :: carousel_cb world) 4 = Some 8"
    by (simp only: query_one_def d) (simp add: has_class_def blank_world_def demo_page_def plain_node_def)
  show "fst demo_carousel = \<lparr>element = 4, config = demo_config, interval = None, activeItem = None,
    isSliding = False, touchTimeout = None, swipeHelper = None, indicatorsElement = Some 8,
    pendingSlid = [], registrations = 0\<rparr>"
  "transitions (snd demo_carousel) = []" "eventLog (snd demo_carousel) = []"
  "env (snd demo_carousel) = blank_browser" "page (snd demo_carousel) = demo_page"
  "nodeCount (snd demo_carousel) = 12"
    using q unfolding demo_carousel_def Carousel_new_def Let_def
    by (simp_all add: addEventListeners_def demo_config_def swipe_isSupported_def listen_def
        blank_world_def blank_browser_def)
qed

lemma demo_items: "getItems demo_carousel = [5, 6, 7]"
  "has_class (snd demo_carousel) n ''active'' \<longleftrightarrow> n = 5 \<or> n = 9"
  "descendants (snd demo_carousel) 8 = [9, 10, 11]"
proof -
  have "descendants (snd demo_carousel) 4 = [8, 9, 10, 11, 5, 6, 7]"
    by (simp add: descendants_def demo_facts demo_page_def plain_node_def numeral_eq_Suc)
  then show "getItems demo_carousel = [5, 6, 7]"
    by (simp add: getItems_def query_all_def demo_facts is_item_def has_class_def demo_page_def plain_node_def)
  show "has_class (snd demo_carousel) n ''active'' \<longleftrightarrow> n = 5 \<or> n = 9"
    by (simp add: has_class_def demo_facts demo_page_def plain_node_def)
  show "descendants (snd demo_carousel) 8 = [9, 10, 11]"
    by (simp add: descendants_def demo_facts demo_page_def plain_node_def numeral_eq_Suc)
qed

lemma demo_indicators:
  "indicator_for (snd demo_carousel) 8 0 = Some 9" "indicator_for (snd demo_carousel) 8 1 = Some 10"
  "indicator_for (snd demo_carousel) 8 2 = Some 11"
proof -
  have "intStr 0 = ''0''" "intStr 1 = ''1''" "intStr 2 = ''2''" by code_simp+
  then show "indicator_for (snd demo_carousel) 8 0 = Some 9" "indicator_for (snd demo_carousel) 8 1 = Some 10"
    "indicator_for (snd demo_carousel) 8 2 = Some 11"
    by (simp_all add: indicator_for_def query_one_def demo_items get_attr_def demo_facts demo_page_def plain_node_def)
qed

lemma demo_settled: "settled demo_carousel 5"
proof -
  have "indicator_for (snd demo_carousel) 8 (int i) \<noteq> None" if "i < 3" for i
    using that demo_indicators by (auto simp: less_Suc_eq numeral_eq_Suc)
  moreover have "index_of [5, 6, 7 :: node] 5 = 0" by simp
  moreover have "only_indicator (snd demo_carousel) 8 (Some 9)"
    by (auto simp: only_indicator_def demo_items get_attr_def demo_facts demo_page_def plain_node_def)
  ultimately show ?thesis by (simp add: settled_def demo_facts demo_items demo_indicators)
qed

lemma carousel_slide_moves_witness:
  "\<exists>s' t. Carousel_prev demo_carousel = s' \<and> t = transition_end (slide_complete fire_slid) 5 s' \<and> settled t 7"
proof -
  have n: "getNextActiveElement (getItems demo_carousel) (Some 5) (ORDER_PREV = ORDER_NEXT)
      (wrap (config (fst demo_carousel))) = Some 7"
    by (simp add: demo_items demo_facts demo_config_def getNextActiveElement_def Let_def at_index_def js_mod_def)
  have a: "isAnimated demo_carousel"
    by (simp add: isAnimated_def has_class_def demo_facts demo_page_def plain_node_def)
  show ?thesis
    using carousel_slide_moves [OF demo_settled n] a
    by (auto simp: Carousel_prev_def demo_facts blank_browser_def)
qed

text \<open>
  \<open>pause\<close> fires \<open>transitionend\<close> on the carousel itself, but the slide waits for the
  transition of an item: pausing a sliding carousel leaves it sliding, with the callback still
  queued and no class changed; only the timer is cleared.\<close>

theorem pause_does_not_finish_slide:
  assumes "isSliding (fst s)" and "\<forall>(n, c) \<in> set (transitions (snd s)). n \<noteq> element (fst s)"
  shows "Carousel_pause s = ((fst s)\<lparr>interval := None\<rparr>, snd s)"
proof -
  have w: "filter (\<lambda>(m, c). m = element (fst s)) (transitions (snd s)) = []"
    using assms(2) by (auto simp: filter_empty_conv)
  have "filter (\<lambda>(m, c). m \<noteq> element (fst s)) (transitions (snd s)) = transitions (snd s)"
    using assms(2) by (auto simp: filter_id_conv)
  then have "take_waiting (element (fst s)) (snd s) = snd s" by (simp add: take_waiting_def)
  then show ?thesis using assms(1) w
    by (simp add: Carousel_pause_def pause_def clearInterval_def transition_end_def waiting_def)
qed

lemma pause_does_not_finish_slide_witness:
  "isSliding (fst (Carousel_pause (fst demo_carousel\<lparr>isSliding := True\<rparr>,
    (snd demo_carousel)\<lparr>transitions := [(5, SlideComplete 6 5 ORDER_NEXT)]\<rparr>)))"
  by (subst pause_does_not_finish_slide) (simp_all add: demo_facts)

text \<open>
  A carousel whose indicators have no active one stops for good at its first step: the method
  throws on the null indicator after it has set \<open>_isSliding\<close>, nothing is queued that would reset
  it, and from then on every step is refused.\<close>

theorem carousel_stuck_without_active_indicator:
  assumes "\<not> isSliding (fst s)" and "indicatorsElement (fst s) = Some ind"
    and "query_one (\<lambda>n. has_class (snd s) n ''active'') (snd s) ind = None"
    and "getActive s = Some a"
    and "getNextActiveElement (getItems s) (Some a) (r = ORDER_NEXT) (wrap (config (fst s))) = Some b"
    and "b \<noteq> a"
    and "\<not> prevents (env (snd s)) (eventLog (snd s)) (element (fst s), ''slide.bs.carousel'')"
  shows "isSliding (fst (slide fire_slid r None s)) \<and>
    transitions (snd (slide fire_slid r None s)) = transitions (snd s) \<and>
    slide fire_slid q c (slide fire_slid r None s) = slide fire_slid r None s"
proof -
  have "slide fire_slid r None s = ((fst s)\<lparr>interval := None, isSliding := True\<rparr>,
      announce (element (fst s)) ''slide.bs.carousel'' (snd s))"
    using assms
    by (simp add: slide_def Let_def trigger_eq pause_def clearInterval_def setActiveIndicatorElement_def query_one_def)
  then show ?thesis by (simp add: slide_def)
qed

lemma carousel_stuck_without_active_indicator_witness:
  "isSliding (fst (Carousel_next ((fst demo_carousel)\<lparr>indicatorsElement := Some 6\<rparr>, snd demo_carousel)))"
proof -
  define s where "s = ((fst demo_carousel)\<lparr>indicatorsElement := Some 6\<rparr>, snd demo_carousel)"
  have i: "getItems s = [5, 6, 7]" "getActive s = Some 5"
    using demo_items settled_active[OF demo_settled] by (simp_all add: s_def getItems_def getActive_def)
  have d: "descendants (snd s) 6 = []"
    by (simp add: s_def descendants_def demo_facts demo_page_def plain_node_def numeral_eq_Suc)
  have "wrap (config (fst s))" by (simp add: s_def demo_facts demo_config_def)
  then have n: "getNextActiveElement (getItems s) (Some 5) (ORDER_NEXT = ORDER_NEXT) (wrap (config (fst s))) = Some 6"
    by (simp add: i getNextActiveElement_def Let_def at_index_def js_mod_def)
  have q: "query_one (\<lambda>n. has_class (snd s) n ''active'') (snd s) 6 = None"
    by (simp add: query_one_def d)
  have "isSliding (fst (slide fire_slid ORDER_NEXT None s))"
    by (rule carousel_stuck_without_active_indicator [OF _ _ q i(2) n, THEN conjunct1])
       (simp_all add: s_def demo_facts blank_browser_def)
  then show ?thesis by (simp add: Carousel_next_def s_def)
qed


lemma direction_order_inverse: "directionToOrder w (orderToDirection w r) = r"
  by (cases r) (simp_all add: directionToOrder_def orderToDirection_def)

end
