(* ===== verification/BsCollapse.thy ===== *)
theory BsCollapse
  imports BsBasics
begin

text \<open>
  The collapse plugin of Bootstrap. Because an element of an accordion hides its siblings, the
  state is the instances of all elements together with the world; a callback that waits for a
  transition names the element of its instance and the dimension it was started with.
\<close>

section \<open>State\<close>

record collapse =
  isTransitioning :: bool
  triggerArray :: "node list"
  accordion :: "node option"

datatype collapse_cb = ShowComplete node string | HideComplete node string

type_synonym collapse_state = "(node \<Rightarrow> collapse option) \<times> collapse_cb world"

definition is_toggle :: "'cb world \<Rightarrow> node \<Rightarrow> bool" where
  "is_toggle w n = (get_attr w n ''data-bs-toggle'' = Some ''collapse'')"

text \<open>\<open>.collapse.show, .collapse.collapsing\<close>\<close>

definition is_active :: "'cb world \<Rightarrow> node \<Rightarrow> bool" where
  "is_active w n \<longleftrightarrow> has_class w n ''collapse'' \<and> (has_class w n ''show'' \<or> has_class w n ''collapsing'')"

definition isShown :: "'cb world \<Rightarrow> node \<Rightarrow> bool" where
  "isShown w n = has_class w n ''show''"

definition getDimension :: "'cb world \<Rightarrow> node \<Rightarrow> string" where
  "getDimension w n = (if has_class w n ''collapse-horizontal'' then ''width'' else ''height'')"

definition scrollSize :: "'cb world \<Rightarrow> node \<Rightarrow> string \<Rightarrow> real" where
  "scrollSize w n dimension =
    (if dimension = ''width'' then scrollWidth (env w) (page w) n else scrollHeight (env w) (page w) n)"

text \<open>\<open>:scope .collapse .collapse\<close> below the parent.\<close>

definition deeper_children :: "'cb world \<Rightarrow> node \<Rightarrow> node list" where
  "deeper_children w p = query_all (\<lambda>n. has_class w n ''collapse'' \<and>
    (\<exists>a \<in> set (tl (inclusive_ancestors w n)). a \<in> set (descendants w p) \<and> has_class w a ''collapse'')) w p"

definition getFirstLevelChildren :: "(node \<Rightarrow> bool) \<Rightarrow> 'cb world \<Rightarrow> node \<Rightarrow> node list" where
  "getFirstLevelChildren P w p = filter (\<lambda>n. n \<notin> set (deeper_children w p)) (query_all P w p)"

definition addAriaAndCollapsedClass :: "node list \<Rightarrow> bool \<Rightarrow> 'cb world \<Rightarrow> 'cb world" where
  "addAriaAndCollapsedClass triggers isOpen w =
    fold (\<lambda>n v. set_attr ''aria-expanded'' (boolStr isOpen) n (toggle_class ''collapsed'' (\<not> isOpen) n v))
      triggers w"

section \<open>Creation\<close>

definition set_inst :: "node \<Rightarrow> collapse \<Rightarrow> collapse_state \<Rightarrow> collapse_state" where
  "set_inst n i s = ((fst s)(n := Some i), snd s)"

definition set_transitioning :: "node \<Rightarrow> bool \<Rightarrow> collapse_state \<Rightarrow> collapse_state" where
  "set_transitioning n b s = ((fst s)(n := map_option (isTransitioning_update (\<lambda>_. b)) (fst s n)), snd s)"

definition Collapse_configAfterMerge :: "'cb world \<Rightarrow> object \<Rightarrow> bool \<times> node option" where
  "Collapse_configAfterMerge w cfg =
    (truthy (lookup cfg ''toggle''), getElement w (lookup cfg ''parent''))"

definition Collapse_Default :: object where
  "Collapse_Default = [(''parent'', JNull), (''toggle'', JBool True)]"

definition initializeChildren :: "node option \<Rightarrow> 'cb world \<Rightarrow> 'cb world" where
  "initializeChildren parent w = (case parent of None \<Rightarrow> w | Some p \<Rightarrow>
    fold (\<lambda>element v. case getElementFromSelector v element of
        Some selected \<Rightarrow> addAriaAndCollapsedClass [element] (isShown v selected) v | None \<Rightarrow> v)
      (getFirstLevelChildren (is_toggle w) w p) w)"

text \<open>The constructor up to \<open>if (this._config.toggle)\<close>.\<close>

definition Collapse_create :: "node \<Rightarrow> node option \<Rightarrow> collapse_state \<Rightarrow> collapse_state" where
  "Collapse_create n parent s =
    (let w = snd s;
         triggers = filter (\<lambda>elem. case getSelectorFromElement w elem of
             Some selector \<Rightarrow> n \<in> set (find_selector w selector) | None \<Rightarrow> False)
           (query_all (is_toggle w) w documentElement);
         s1 = set_inst n \<lparr>isTransitioning = False, triggerArray = triggers, accordion = parent\<rparr> s;
         w2 = initializeChildren parent (snd s1);
         w3 = (if parent = None then addAriaAndCollapsedClass triggers (isShown w2 n) w2 else w2) in
     (fst s1, w3))"

text \<open>\<open>Collapse.getOrCreateInstance(element, {toggle: false})\<close>.\<close>

definition getOrCreate :: "(string \<Rightarrow> jsval option) \<Rightarrow> node \<Rightarrow> collapse_state \<Rightarrow> collapse_state" where
  "getOrCreate parseJson n s = (case fst s n of
      Some i \<Rightarrow> s
    | None \<Rightarrow>
        let cfg = mergeConfigObj parseJson (snd s) Collapse_Default (JObj [(''toggle'', JBool False)]) (Some n) in
        Collapse_create n (snd (Collapse_configAfterMerge (snd s) cfg)) s)"

section \<open>Show and hide\<close>

fun collapse_run :: "collapse_cb \<Rightarrow> collapse_state \<Rightarrow> collapse_state" where
  "collapse_run (ShowComplete n dimension) s =
    (let s' = set_transitioning n False s in
     (fst s', announce n ''shown.bs.collapse'' (set_style dimension '''' n
       (add_class ''show'' n (add_class ''collapse'' n (remove_class ''collapsing'' n (snd s')))))))"
| "collapse_run (HideComplete n dimension) s =
    (let s' = set_transitioning n False s in
     (fst s', announce n ''hidden.bs.collapse''
       (add_class ''collapse'' n (remove_class ''collapsing'' n (snd s')))))"

definition transitioning :: "collapse_state \<Rightarrow> node \<Rightarrow> bool" where
  "transitioning s n = (case fst s n of Some i \<Rightarrow> isTransitioning i | None \<Rightarrow> False)"

definition triggers_of :: "collapse_state \<Rightarrow> node \<Rightarrow> node list" where
  "triggers_of s n = (case fst s n of Some i \<Rightarrow> triggerArray i | None \<Rightarrow> [])"

definition Collapse_hide :: "node \<Rightarrow> collapse_state \<Rightarrow> collapse_state" where
  "Collapse_hide n s =
    (if transitioning s n \<or> \<not> isShown (snd s) n then s
     else let (prevented, w) = trigger n ''hide.bs.collapse'' (snd s) in
       if prevented then (fst s, w)
       else
         let dimension = getDimension w n;
             w1 = set_style dimension (numStr (rectSize (env w) (page w) n dimension) @ ''px'') n w;
             w2 = remove_class ''show'' n (remove_class ''collapse'' n (add_class ''collapsing'' n w1));
             w3 = fold (\<lambda>trig v. case getElementFromSelector v trig of
                   Some element \<Rightarrow> if \<not> isShown v element then addAriaAndCollapsedClass [trig] False v else v
                 | None \<Rightarrow> v) (triggers_of s n) w2;
             s4 = set_transitioning n True (fst s, w3) in
         executeAfterTransition collapse_run (HideComplete n dimension) n True
           (fst s4, set_style dimension '''' n (snd s4)))"

definition active_children :: "(string \<Rightarrow> jsval option) \<Rightarrow> node \<Rightarrow> collapse_state \<Rightarrow> node list" where
  "active_children parseJson n s = (case fst s n of
      Some i \<Rightarrow> (case accordion i of
          Some p \<Rightarrow> filter (\<lambda>m. m \<noteq> n) (getFirstLevelChildren (is_active (snd s)) (snd s) p)
        | None \<Rightarrow> [])
    | None \<Rightarrow> [])"

definition Collapse_show :: "(string \<Rightarrow> jsval option) \<Rightarrow> node \<Rightarrow> collapse_state \<Rightarrow> collapse_state" where
  "Collapse_show parseJson n s =
    (if transitioning s n \<or> isShown (snd s) n then s
     else
       let children = active_children parseJson n s;
           s1 = fold (getOrCreate parseJson) children s in
       if children \<noteq> [] \<and> transitioning s1 (hd children) then s1
       else let (prevented, w) = trigger n ''show.bs.collapse'' (snd s1) in
         if prevented then (fst s1, w)
         else
           let s2 = fold Collapse_hide children (fst s1, w);
               dimension = getDimension (snd s2) n;
               w3 = set_style dimension ''0px'' n
                 (add_class ''collapsing'' n (remove_class ''collapse'' n (snd s2)));
               w4 = addAriaAndCollapsedClass (triggers_of s2 n) True w3;
               s5 = set_transitioning n True (fst s2, w4);
               s6 = executeAfterTransition collapse_run (ShowComplete n dimension) n True s5 in
           (fst s6, set_style dimension (numStr (scrollSize (snd s6) n dimension) @ ''px'') n (snd s6)))"

definition Collapse_toggle :: "(string \<Rightarrow> jsval option) \<Rightarrow> node \<Rightarrow> collapse_state \<Rightarrow> collapse_state" where
  "Collapse_toggle parseJson n s =
    (if isShown (snd s) n then Collapse_hide n s else Collapse_show parseJson n s)"

definition Collapse_new ::
    "(string \<Rightarrow> jsval option) \<Rightarrow> node \<Rightarrow> jsval \<Rightarrow> collapse_state \<Rightarrow> collapse_state" where
  "Collapse_new parseJson n config s =
    (let cfg = mergeConfigObj parseJson (snd s) Collapse_Default config (Some n);
         (tog, parent) = Collapse_configAfterMerge (snd s) cfg;
         s' = Collapse_create n parent s in
     if tog then Collapse_toggle parseJson n s' else s')"

text \<open>The click on a toggle.\<close>

definition Collapse_click :: "(string \<Rightarrow> jsval option) \<Rightarrow> node \<Rightarrow> collapse_state \<Rightarrow> collapse_state" where
  "Collapse_click parseJson this s =
    fold (\<lambda>n t. Collapse_toggle parseJson n (getOrCreate parseJson n t))
      (getMultipleElementsFromSelector (snd s) this) s"

inductive collapse_step :: "collapse_state \<Rightarrow> collapse_state \<Rightarrow> bool" where
  new: "fst s n = None \<Longrightarrow> collapse_step s (Collapse_new pj n cfg s)"
| show_call: "fst s n \<noteq> None \<Longrightarrow> collapse_step s (Collapse_show pj n s)"
| hide_call: "fst s n \<noteq> None \<Longrightarrow> collapse_step s (Collapse_hide n s)"
| toggle_call: "fst s n \<noteq> None \<Longrightarrow> collapse_step s (Collapse_toggle pj n s)"
| click: "collapse_step s (Collapse_click pj this s)"
| ended: "collapse_step s (transition_end collapse_run n s)"

inductive collapse_reachable :: "collapse_state \<Rightarrow> bool" where
  start: "(\<And>n. \<not> has_class w n ''collapsing'') \<Longrightarrow> transitions w = [] \<Longrightarrow>
    collapse_reachable (\<lambda>_. None, w)"
| step: "collapse_reachable s \<Longrightarrow> collapse_step s s' \<Longrightarrow> collapse_reachable s'"

section \<open>No element is left collapsing\<close>

text \<open>Bookkeeping of triggers touches nothing but the class \<open>collapsed\<close> and an attribute.\<close>

definition quiet :: "'cb world \<Rightarrow> 'cb world \<Rightarrow> bool" where
  "quiet w v \<longleftrightarrow> (\<forall>n c. c \<noteq> ''collapsed'' \<longrightarrow> has_class v n c = has_class w n c) \<and>
    transitions v = transitions w \<and> same_tree w v \<and> env v = env w \<and> eventLog v = eventLog w"

lemma quiet_refl [simp]: "quiet w w"
  by (simp add: quiet_def)

lemma quiet_trans: "quiet u v \<Longrightarrow> quiet v w \<Longrightarrow> quiet u w"
  by (auto simp: quiet_def intro: same_tree_trans)

lemma fold_quiet: "(\<And>x v. quiet v (f x v)) \<Longrightarrow> quiet w (fold f xs w)"
  by (induction xs arbitrary: w) (auto intro: quiet_trans)

lemma addAria_quiet [simp]: "quiet w (addAriaAndCollapsedClass ts b w)"
  unfolding addAriaAndCollapsedClass_def by (rule fold_quiet) (auto simp: quiet_def)

lemma initializeChildren_quiet [simp]: "quiet w (initializeChildren p w)"
  by (auto simp: initializeChildren_def intro!: fold_quiet split: option.splits)

lemma hide_triggers_quiet:
  "quiet w (fold (\<lambda>trig v. case getElementFromSelector v trig of
      Some element \<Rightarrow> if \<not> isShown v element then addAriaAndCollapsedClass [trig] False v else v
    | None \<Rightarrow> v) ts w)"
  by (auto intro!: fold_quiet split: option.splits)

lemma quiet_waiting: "quiet w v \<Longrightarrow> waiting n v = waiting n w"
  by (simp add: quiet_def waiting_def)

definition cb_element :: "collapse_cb \<Rightarrow> node" where
  "cb_element c = (case c of ShowComplete n d \<Rightarrow> n | HideComplete n d \<Rightarrow> n)"

definition collapse_inv :: "collapse_state \<Rightarrow> bool" where
  "collapse_inv s \<longleftrightarrow>
    (\<forall>n. has_class (snd s) n ''collapsing'' = transitioning s n) \<and>
    (\<forall>n. transitioning s n \<longrightarrow> \<not> has_class (snd s) n ''collapse'') \<and>
    (\<forall>n. length (waiting n (snd s)) = (if transitioning s n then 1 else 0)) \<and>
    (\<forall>p \<in> set (transitions (snd s)). cb_element (snd p) = fst p)"

lemma collapse_invI:
  assumes "collapse_inv s"
    and "\<And>n. transitioning t n = transitioning s n"
    and "\<And>n c. c \<in> {''collapsing'', ''collapse''} \<Longrightarrow> has_class (snd t) n c = has_class (snd s) n c"
    and "transitions (snd t) = transitions (snd s)"
  shows "collapse_inv t"
  using assms unfolding collapse_inv_def waiting_def by simp

lemma quiet_inv:
  assumes "collapse_inv s" and "quiet (snd s) w" and "\<And>n. transitioning (f, w) n = transitioning s n"
  shows "collapse_inv (f, w)"
  using assms(1,3) by (rule collapse_invI) (use assms(2) in \<open>auto simp: quiet_def\<close>)

lemma create_spec:
  assumes "collapse_inv s" and "fst s n = None"
  shows "collapse_inv (Collapse_create n p s) \<and>
    (\<forall>m. fst (Collapse_create n p s) m \<noteq> None \<longleftrightarrow> m = n \<or> fst s m \<noteq> None) \<and>
    quiet (snd s) (snd (Collapse_create n p s))"
proof -
  define i where "i = \<lparr>isTransitioning = False, triggerArray =
    filter (\<lambda>elem. case getSelectorFromElement (snd s) elem of
             Some selector \<Rightarrow> n \<in> set (find_selector (snd s) selector) | None \<Rightarrow> False)
           (query_all (is_toggle (snd s)) (snd s) documentElement), accordion = p\<rparr>"
  obtain w where w: "Collapse_create n p s = ((fst s)(n := Some i), w)" and q: "quiet (snd s) w"
  proof
    show "Collapse_create n p s = ((fst s)(n := Some i),
        if p = None then addAriaAndCollapsedClass (triggerArray i) (isShown (initializeChildren p (snd s)) n)
          (initializeChildren p (snd s)) else initializeChildren p (snd s))"
      by (simp add: Collapse_create_def set_inst_def Let_def i_def)
    show "quiet (snd s) (if p = None then addAriaAndCollapsedClass (triggerArray i)
          (isShown (initializeChildren p (snd s)) n) (initializeChildren p (snd s))
        else initializeChildren p (snd s))"
      using quiet_trans[OF initializeChildren_quiet addAria_quiet] by auto
  qed
  have "transitioning ((fst s)(n := Some i), w) m = transitioning s m" for m
    using assms(2) by (simp add: transitioning_def i_def)
  then have "collapse_inv ((fst s)(n := Some i), w)"
    by (rule quiet_inv[OF assms(1) q])
  then show ?thesis using q unfolding w by auto
qed

lemma getOrCreate_spec:
  assumes "collapse_inv s"
  shows "collapse_inv (getOrCreate pj n s) \<and>
    (\<forall>m. fst (getOrCreate pj n s) m \<noteq> None \<longleftrightarrow> m = n \<or> fst s m \<noteq> None) \<and>
    quiet (snd s) (snd (getOrCreate pj n s))"
proof (cases "fst s n")
  case None
  then show ?thesis using create_spec[OF assms None] by (simp add: getOrCreate_def Let_def)
next
  case (Some i)
  then show ?thesis using assms by (auto simp: getOrCreate_def)
qed

lemma fold_getOrCreate_spec:
  assumes "collapse_inv s"
  shows "collapse_inv (fold (getOrCreate pj) ns s) \<and>
    (\<forall>m. fst (fold (getOrCreate pj) ns s) m \<noteq> None \<longleftrightarrow> m \<in> set ns \<or> fst s m \<noteq> None) \<and>
    quiet (snd s) (snd (fold (getOrCreate pj) ns s))"
  using assms
proof (induction ns arbitrary: s)
  case (Cons n ns)
  note one = getOrCreate_spec[OF Cons.prems, of pj n]
  have "collapse_inv (getOrCreate pj n s)" using one by blast
  from Cons.IH[OF this] one show ?case by (auto intro: quiet_trans)
qed simp

text \<open>The start of a transition on an element that has none.\<close>

lemma start_inv:
  assumes inv: "collapse_inv s" and inst: "fst s n \<noteq> None" and nt: "\<not> transitioning s n"
    and t: "\<And>m. transitioning t m = (m = n \<or> transitioning s m)"
    and c: "\<And>m. has_class (snd t) m ''collapsing'' = (m = n \<or> has_class (snd s) m ''collapsing'')"
      "\<And>m. has_class (snd t) m ''collapse'' = (m \<noteq> n \<and> has_class (snd s) m ''collapse'')"
    and q: "transitions (snd t) = transitions (snd s) @ [(n, k)]" "cb_element k = n"
  shows "collapse_inv t"
  using assms unfolding collapse_inv_def waiting_def by auto

lemma set_transitioning_fst:
  "fst s n \<noteq> None \<Longrightarrow> transitioning (set_transitioning n b s) m = (if m = n then b else transitioning s m)"
  "fst (set_transitioning n b s) m \<noteq> None \<longleftrightarrow> fst s m \<noteq> None"
  "snd (set_transitioning n b s) = snd s"
  by (auto simp: set_transitioning_def transitioning_def split: option.splits)

lemma hide_spec:
  assumes inv: "collapse_inv s" and inst: "fst s n \<noteq> None"
  shows "collapse_inv (Collapse_hide n s) \<and>
    (\<forall>m. fst (Collapse_hide n s) m \<noteq> None \<longleftrightarrow> fst s m \<noteq> None)"
proof -
  define v where "v = announce n ''hide.bs.collapse'' (snd s)"
  define w2 where "w2 = remove_class ''show'' n (remove_class ''collapse'' n (add_class ''collapsing'' n
    (set_style (getDimension v n) (numStr (rectSize (env v) (page v) n (getDimension v n)) @ ''px'') n v)))"
  define w3 where "w3 = fold (\<lambda>trig v. case getElementFromSelector v trig of
      Some element \<Rightarrow> if \<not> isShown v element then addAriaAndCollapsedClass [trig] False v else v
    | None \<Rightarrow> v) (triggers_of s n) w2"
  have q: "quiet w2 w3" unfolding w3_def by (rule hide_triggers_quiet)
  consider "transitioning s n \<or> \<not> isShown (snd s) n"
    | "prevents (env (snd s)) (eventLog (snd s)) (n, ''hide.bs.collapse'')"
    | "\<not> transitioning s n" "isShown (snd s) n"
      "\<not> prevents (env (snd s)) (eventLog (snd s)) (n, ''hide.bs.collapse'')" by blast
  then show ?thesis
  proof cases
    case 1
    then show ?thesis using inv by (simp add: Collapse_hide_def)
  next
    case 2
    have "collapse_inv (fst s, v)"
      by (rule collapse_invI [OF inv]) (simp_all add: v_def transitioning_def)
    then show ?thesis using 2 inv by (simp add: Collapse_hide_def trigger_eq v_def)
  next
    case 3
    let ?t = "set_transitioning n True (fst s, w3)"
    let ?r = "(fst ?t, set_style (getDimension v n) '''' n ((snd ?t)\<lparr>transitions :=
      transitions (snd ?t) @ [(n, HideComplete n (getDimension v n))]\<rparr>))"
    have eq: "Collapse_hide n s = (fst ?t, (set_style (getDimension v n) '''' n (snd ?t))\<lparr>transitions :=
      transitions (snd ?t) @ [(n, HideComplete n (getDimension v n))]\<rparr>)"
      using 3 by (simp add: Collapse_hide_def trigger_eq Let_def v_def[symmetric] w2_def[symmetric] w3_def[symmetric])
    have tr: "transitioning (fst ?t, x) m = (m = n \<or> transitioning s m)" for m x
      using set_transitioning_fst(1)[of "(fst s, w3)" n True m] inst
      by (simp add: transitioning_def)
    have cls: "has_class w3 m c = has_class w2 m c" if "c \<noteq> ''collapsed''" for m c
      using q that by (simp add: quiet_def)
    have trs: "transitions w3 = transitions (snd s)"
      using q by (simp add: quiet_def w2_def v_def)
    have "collapse_inv (Collapse_hide n s)"
      unfolding eq
    proof (rule start_inv [OF inv inst 3(1)])
      show "cb_element (HideComplete n (getDimension v n)) = n" by (simp add: cb_element_def)
    qed (simp_all only: tr snd_conv set_transitioning_fst(3), simp_all add: cls trs w2_def v_def)
    moreover have "fst (Collapse_hide n s) m \<noteq> None \<longleftrightarrow> fst s m \<noteq> None" for m
      unfolding eq using set_transitioning_fst(2)[of n True "(fst s, w3)" m] by simp
    ultimately show ?thesis by blast
  qed
qed

lemma fold_hide_spec:
  assumes "collapse_inv s" and "\<forall>n \<in> set ns. fst s n \<noteq> None"
  shows "collapse_inv (fold Collapse_hide ns s) \<and>
    (\<forall>m. fst (fold Collapse_hide ns s) m \<noteq> None \<longleftrightarrow> fst s m \<noteq> None)"
  using assms
proof (induction ns arbitrary: s)
  case (Cons n ns)
  have h: "collapse_inv (Collapse_hide n s)" "\<And>m. fst (Collapse_hide n s) m \<noteq> None \<longleftrightarrow> fst s m \<noteq> None"
    using hide_spec[OF Cons.prems(1), of n] Cons.prems(2) by auto
  then have "\<forall>m \<in> set ns. fst (Collapse_hide n s) m \<noteq> None" using Cons.prems(2) by simp
  from Cons.IH[OF h(1) this] h(2) show ?case by simp
qed simp


text \<open>What a call of \<open>show\<close> that gets past its guards does after hiding the siblings.\<close>

definition show_start :: "node \<Rightarrow> collapse_state \<Rightarrow> collapse_state" where
  "show_start n s2 =
    (let dimension = getDimension (snd s2) n;
         w3 = set_style dimension ''0px'' n
           (add_class ''collapsing'' n (remove_class ''collapse'' n (snd s2)));
         w4 = addAriaAndCollapsedClass (triggers_of s2 n) True w3;
         s5 = set_transitioning n True (fst s2, w4);
         s6 = executeAfterTransition collapse_run (ShowComplete n dimension) n True s5 in
     (fst s6, set_style dimension (numStr (scrollSize (snd s6) n dimension) @ ''px'') n (snd s6)))"

lemma Collapse_show_eq:
  "Collapse_show pj n s =
    (if transitioning s n \<or> isShown (snd s) n then s
     else let children = active_children pj n s; s1 = fold (getOrCreate pj) children s in
       if children \<noteq> [] \<and> transitioning s1 (hd children) then s1
       else let (prevented, w) = trigger n ''show.bs.collapse'' (snd s1) in
         if prevented then (fst s1, w)
         else show_start n (fold Collapse_hide children (fst s1, w)))"
  unfolding Collapse_show_def show_start_def Let_def by (rule refl)

lemma show_start_facts:
  assumes inst: "fst s n \<noteq> None"
  defines "t \<equiv> show_start n s"
  shows "transitioning t m = (m = n \<or> transitioning s m)"
    and "c \<noteq> ''collapsed'' \<Longrightarrow> has_class (snd t) m c =
      (if m = n \<and> c = ''collapsing'' then True else if m = n \<and> c = ''collapse'' then False
       else has_class (snd s) m c)"
    and "transitions (snd t) = transitions (snd s) @ [(n, ShowComplete n (getDimension (snd s) n))]"
    and "fst t m \<noteq> None \<longleftrightarrow> fst s m \<noteq> None"
    and "same_tree (snd s) (snd t)" and "env (snd t) = env (snd s)" and "eventLog (snd t) = eventLog (snd s)"
    and "map_option accordion (fst t m) = map_option accordion (fst s m)"
proof -
  let ?d = "getDimension (snd s) n"
  define w3 where "w3 = set_style ?d ''0px'' n (add_class ''collapsing'' n (remove_class ''collapse'' n (snd s)))"
  define w4 where "w4 = addAriaAndCollapsedClass (triggers_of s n) True w3"
  have q: "quiet w3 w4" unfolding w4_def by (rule addAria_quiet)
  let ?u = "set_transitioning n True (fst s, w4)"
  have t: "t = (fst ?u, set_style ?d (numStr (scrollSize (w4\<lparr>transitions := transitions w4 @
      [(n, ShowComplete n ?d)]\<rparr>) n ?d) @ ''px'') n (w4\<lparr>transitions := transitions w4 @ [(n, ShowComplete n ?d)]\<rparr>))"
    by (simp add: t_def show_start_def Let_def w3_def[symmetric] w4_def[symmetric] set_transitioning_fst(3))
  show "transitioning t m = (m = n \<or> transitioning s m)"
    using set_transitioning_fst(1)[of "(fst s, w4)" n True m] inst by (simp add: t transitioning_def)
  show "c \<noteq> ''collapsed'' \<Longrightarrow> has_class (snd t) m c =
      (if m = n \<and> c = ''collapsing'' then True else if m = n \<and> c = ''collapse'' then False
       else has_class (snd s) m c)"
    using q by (auto simp: t quiet_def w3_def)
  show "transitions (snd t) = transitions (snd s) @ [(n, ShowComplete n ?d)]"
    using q by (simp add: t quiet_def w3_def)
  show "fst t m \<noteq> None \<longleftrightarrow> fst s m \<noteq> None"
    using set_transitioning_fst(2)[of n True "(fst s, w4)" m] by (simp add: t)
  have "same_tree (snd s) w3" by (simp add: w3_def)
  moreover have "same_tree w3 w4" using q by (simp add: quiet_def)
  ultimately show "same_tree (snd s) (snd t)" by (simp add: t same_tree_trans)
  show "env (snd t) = env (snd s)" using q by (simp add: t quiet_def w3_def)
  show "eventLog (snd t) = eventLog (snd s)" using q by (simp add: t quiet_def w3_def)
  show "map_option accordion (fst t m) = map_option accordion (fst s m)"
    by (cases "fst s n") (auto simp: t set_transitioning_def)
qed

lemma show_start_inv:
  assumes inv: "collapse_inv s" and inst: "fst s n \<noteq> None" and nt: "\<not> transitioning s n"
  shows "collapse_inv (show_start n s)"
proof (rule start_inv [OF inv inst nt])
  note f = show_start_facts[OF inst]
  show "transitioning (show_start n s) m = (m = n \<or> transitioning s m)" for m by (rule f(1))
  show "has_class (snd (show_start n s)) m ''collapsing'' = (m = n \<or> has_class (snd s) m ''collapsing'')" for m
    by (simp add: f(2))
  show "has_class (snd (show_start n s)) m ''collapse'' = (m \<noteq> n \<and> has_class (snd s) m ''collapse'')" for m
    by (simp add: f(2))
  show "transitions (snd (show_start n s)) = transitions (snd s) @ [(n, ShowComplete n (getDimension (snd s) n))]"
    by (rule f(3))
qed (simp add: cb_element_def)

lemma hide_other:
  assumes "m \<noteq> n"
  shows "transitioning (Collapse_hide n s) m = transitioning s m"
proof -
  have "transitioning (fst (set_transitioning n True (fst s, w)), x) m = transitioning s m" for w x
    using assms by (simp add: set_transitioning_def transitioning_def)
  then show ?thesis
    by (simp add: Collapse_hide_def Let_def trigger_eq)
       (simp add: transitioning_def)
qed

lemma fold_hide_other: "n \<notin> set ns \<Longrightarrow> transitioning (fold Collapse_hide ns s) n = transitioning s n"
  by (induction ns arbitrary: s) (simp_all add: hide_other)

lemma active_children_not_self: "n \<notin> set (active_children pj n s)"
  by (auto simp: active_children_def split: option.splits)

lemma getOrCreate_transitioning: "transitioning (getOrCreate pj m s) n = transitioning s n"
proof (cases "fst s m")
  case None
  have "transitioning (Collapse_create m p s) n = transitioning s n" for p
    using None by (simp add: Collapse_create_def set_inst_def Let_def transitioning_def)
  then show ?thesis using None by (simp add: getOrCreate_def Let_def)
qed (simp add: getOrCreate_def)

lemma fold_getOrCreate_transitioning: "transitioning (fold (getOrCreate pj) ns s) n = transitioning s n"
  by (induction ns arbitrary: s) (simp_all add: getOrCreate_transitioning)

lemma show_spec:
  assumes inv: "collapse_inv s" and inst: "fst s n \<noteq> None"
  shows "collapse_inv (Collapse_show pj n s) \<and>
    (\<forall>m. fst s m \<noteq> None \<longrightarrow> fst (Collapse_show pj n s) m \<noteq> None)"
proof -
  let ?ch = "active_children pj n s"
  define s1 where "s1 = fold (getOrCreate pj) ?ch s"
  define v where "v = announce n ''show.bs.collapse'' (snd s1)"
  define s2 where "s2 = fold Collapse_hide ?ch (fst s1, v)"
  note one = fold_getOrCreate_spec[OF inv, of pj ?ch, folded s1_def]
  have inv1: "collapse_inv s1" using one by blast
  have v: "collapse_inv (fst s1, v)"
    by (rule collapse_invI [OF inv1]) (simp_all add: v_def transitioning_def)
  have two: "collapse_inv s2 \<and> (\<forall>m. fst s2 m \<noteq> None \<longleftrightarrow> fst s1 m \<noteq> None)"
    unfolding s2_def using fold_hide_spec[OF v, of ?ch] one by auto
  have inst2: "fst s2 n \<noteq> None" using two one inst by blast
  have nt: "transitioning s2 n = transitioning s n"
  proof -
    have "transitioning s2 n = transitioning (fst s1, v) n"
      unfolding s2_def by (rule fold_hide_other [OF active_children_not_self])
    also have "\<dots> = transitioning s1 n" by (simp add: transitioning_def)
    finally show ?thesis unfolding s1_def by (simp only: fold_getOrCreate_transitioning)
  qed
  have "Collapse_show pj n s = s \<or> Collapse_show pj n s = s1 \<or> Collapse_show pj n s = (fst s1, v) \<or>
      (Collapse_show pj n s = show_start n s2 \<and> \<not> transitioning s n)"
    unfolding Collapse_show_eq Let_def s1_def[symmetric] trigger_eq prod.case v_def[symmetric] s2_def[symmetric]
    by simp
  then show ?thesis
  proof (elim disjE conjE)
    assume "Collapse_show pj n s = show_start n s2" "\<not> transitioning s n"
    then show ?thesis
      using show_start_inv[of s2 n] show_start_facts(4)[OF inst2] two one inst2 nt by auto
  qed (use inv one v in auto)
qed

lemma run_inv:
  assumes inv: "collapse_inv s"
  shows "collapse_inv (transition_end collapse_run n s)"
proof (cases "transitioning s n")
  case False
  moreover have "length (waiting n (snd s)) = (if transitioning s n then 1 else 0)"
    using inv by (simp only: collapse_inv_def)
  ultimately have "waiting n (snd s) = []" by simp
  moreover from this have "take_waiting n (snd s) = snd s" by (rule take_waiting_none)
  ultimately show ?thesis using inv by (simp add: transition_end_def)
next
  case True
  moreover have "length (waiting n (snd s)) = (if transitioning s n then 1 else 0)"
    using inv by (simp only: collapse_inv_def)
  ultimately have "length (waiting n (snd s)) = 1" by simp
  then obtain c where c: "waiting n (snd s) = [c]" by (auto simp: length_Suc_conv)
  have "(n, c) \<in> set (transitions (snd s))"
  proof -
    have "c \<in> set (waiting n (snd s))" using c by simp
    then show ?thesis by (auto simp: waiting_def)
  qed
  then have ce: "cb_element c = n" using inv by (auto simp: collapse_inv_def)
  let ?w = "take_waiting n (snd s)"
  have inst: "fst s n \<noteq> None" using True by (auto simp: transitioning_def split: option.splits)
  define t where "t = collapse_run c (fst s, ?w)"
  have tr: "transitioning t m = (m \<noteq> n \<and> transitioning s m)"
    and cl: "has_class (snd t) m ''collapsing'' = (m \<noteq> n \<and> has_class (snd s) m ''collapsing'')"
    and co: "has_class (snd t) m ''collapse'' = (m = n \<or> has_class (snd s) m ''collapse'')"
    and tt: "transitions (snd t) = transitions ?w" for m
    using ce inst set_transitioning_fst[where s = "(fst s, ?w)" and n = n and b = False]
    by (cases c; auto simp: t_def cb_element_def Let_def transitioning_def)+
  have wn: "waiting m (snd t) = (if m = n then [] else waiting m (snd s))" for m
    using waiting_take[of m n "snd s"] by (simp add: waiting_def tt)
  have "length (waiting m (snd s)) = (if transitioning s m then 1 else 0)" for m
    using inv by (simp only: collapse_inv_def)
  then have "\<not> transitioning s m \<Longrightarrow> waiting m (snd s) = []" for m by (metis length_0_conv)
  then have "collapse_inv t"
    unfolding collapse_inv_def tr cl co wn
    using inv True by (auto simp: collapse_inv_def tt take_waiting_def)
  then show ?thesis by (simp add: transition_end_def c t_def)
qed


lemma toggle_inv:
  "collapse_inv s \<Longrightarrow> fst s n \<noteq> None \<Longrightarrow> collapse_inv (Collapse_toggle pj n s)"
  by (simp add: Collapse_toggle_def hide_spec show_spec)

lemma step_inv:
  assumes "collapse_step s s'" and inv: "collapse_inv s"
  shows "collapse_inv s'"
  using assms(1)
proof (cases rule: collapse_step.cases)
  case (new n pj cfg)
  have "collapse_inv (Collapse_create n p s)" "fst (Collapse_create n p s) n \<noteq> None" for p
    using create_spec[OF inv new(2), of p] by blast+
  then show ?thesis unfolding new(1)
    by (simp add: Collapse_new_def Let_def toggle_inv split: prod.splits)
next
  case (click pj this)
  have "collapse_inv (fold (\<lambda>n t. Collapse_toggle pj n (getOrCreate pj n t)) ns t)"
    if "collapse_inv t" for ns t
    using that
  proof (induction ns arbitrary: t)
    case (Cons n ns)
    have "collapse_inv (getOrCreate pj n t)" "fst (getOrCreate pj n t) n \<noteq> None"
      using getOrCreate_spec[OF Cons.prems, of pj n] by blast+
    then show ?case using Cons.IH by (simp add: toggle_inv)
  qed simp
  then show ?thesis using inv unfolding click by (simp add: Collapse_click_def)
qed (use inv in \<open>auto simp: toggle_inv hide_spec show_spec run_inv\<close>)

lemma start_collapse_inv:
  "(\<And>n. \<not> has_class w n ''collapsing'') \<Longrightarrow> transitions w = [] \<Longrightarrow> collapse_inv (\<lambda>_. None, w)"
  by (simp add: collapse_inv_def transitioning_def waiting_def)

text \<open>
  C27: in every reachable state of a page, however constructions, calls, clicks and ends of
  transitions follow each other, an element has the class \<open>collapsing\<close> exactly while its instance
  is transitioning, and then exactly one callback waits for it, which will remove the class:
  nothing is left half open, and no element waits for two transitions at once.\<close>

theorem collapsing_always_completes:
  assumes "collapse_reachable s"
  shows "(has_class (snd s) n ''collapsing'' \<longleftrightarrow> transitioning s n) \<and>
    length (waiting n (snd s)) = (if transitioning s n then 1 else 0) \<and>
    \<not> has_class (snd (transition_end collapse_run n s)) n ''collapsing''"
proof -
  have inv: "collapse_inv s" using assms
    by (induction rule: collapse_reachable.induct) (auto intro: start_collapse_inv step_inv)
  have "waiting n (snd (transition_end collapse_run n s)) = []"
  proof (cases "transitioning s n")
    case False
    have "length (waiting n (snd s)) = (if transitioning s n then 1 else 0)"
      using inv by (simp only: collapse_inv_def)
    then have "waiting n (snd s) = []" using False by simp
    then show ?thesis by (simp add: transition_end_def waiting_take)
  next
    case True
    have "length (waiting n (snd s)) = (if transitioning s n then 1 else 0)"
      using inv by (simp only: collapse_inv_def)
    then obtain c where c: "waiting n (snd s) = [c]" using True by (auto simp: length_Suc_conv)
    have "transitions (snd (collapse_run c (fst s, take_waiting n (snd s)))) = transitions (take_waiting n (snd s))"
      by (cases c) (simp_all add: Let_def set_transitioning_fst(3))
    then have "waiting n (snd (collapse_run c (fst s, take_waiting n (snd s)))) = []"
      using waiting_take[of n n "snd s"] by (simp add: waiting_def)
    then show ?thesis by (simp add: transition_end_def c)
  qed
  moreover have inv': "collapse_inv (transition_end collapse_run n s)" by (rule run_inv [OF inv])
  then have "length (waiting n (snd (transition_end collapse_run n s))) =
      (if transitioning (transition_end collapse_run n s) n then 1 else 0)"
    and "has_class (snd (transition_end collapse_run n s)) n ''collapsing'' =
      transitioning (transition_end collapse_run n s) n"
    by (simp_all only: collapse_inv_def)
  ultimately have "\<not> has_class (snd (transition_end collapse_run n s)) n ''collapsing''"
    by (simp split: if_splits)
  then show ?thesis using inv by (simp add: collapse_inv_def)
qed

lemma collapsing_always_completes_witness:
  "\<not> has_class (snd (transition_end collapse_run 4
    (Collapse_new (\<lambda>_. None) 4 JNull (\<lambda>_. None, blank_world (\<lambda>_. plain_node ''DIV'' None []) 5))))
    4 ''collapsing''"
proof -
  have "collapse_reachable (\<lambda>_. None, blank_world (\<lambda>_. plain_node ''DIV'' None []) 5)"
    by (rule collapse_reachable.start) (simp_all add: blank_world_def plain_node_def has_class_def)
  then have "collapse_reachable (Collapse_new (\<lambda>_. None) 4 JNull
      (\<lambda>_. None, blank_world (\<lambda>_. plain_node ''DIV'' None []) 5))"
    by (rule collapse_reachable.step) (simp add: collapse_step.new)
  from collapsing_always_completes [OF this, of 4] show ?thesis by blast
qed


section \<open>Two panels of an accordion\<close>

lemma run_show:
  assumes "waiting n (snd s) = [ShowComplete n d]"
  shows "isShown (snd (transition_end collapse_run n s)) x = (x = n \<or> isShown (snd s) x)"
    and "x \<noteq> n \<Longrightarrow> waiting x (snd (transition_end collapse_run n s)) = waiting x (snd s)"
proof -
  show "isShown (snd (transition_end collapse_run n s)) x = (x = n \<or> isShown (snd s) x)"
    using assms by (auto simp: transition_end_def Let_def isShown_def set_transitioning_fst(3))
  assume "x \<noteq> n"
  then have "waiting x (take_waiting n (snd s)) = waiting x (snd s)" by (simp add: waiting_take)
  then show "waiting x (snd (transition_end collapse_run n s)) = waiting x (snd s)"
    using assms by (simp add: transition_end_def Let_def set_transitioning_fst(3)) (simp add: waiting_def)
qed

lemma show_alone:
  assumes "\<not> transitioning s n" and "\<not> isShown (snd s) n" and "active_children pj n s = []"
    and "\<And>l e. \<not> prevents (env (snd s)) l e"
  shows "Collapse_show pj n s = show_start n (fst s, announce n ''show.bs.collapse'' (snd s))"
  using assms unfolding Collapse_show_eq Let_def by (simp add: trigger_eq)

lemma no_active_children:
  "query_all (is_active (snd s)) (snd s) p = [] \<Longrightarrow> fst s n = Some i \<Longrightarrow> accordion i = Some p \<Longrightarrow>
    active_children pj n s = []"
  by (simp add: active_children_def getFirstLevelChildren_def)

text \<open>
  An accordion can end with two open panels. With all panels of the parent closed and no
  listener that objects, opening one panel and, before its transition ended, another leaves both
  open: while a panel is in transition it has lost the class \<open>collapse\<close>, so that it matches neither
  part of the selector that looks for active siblings.\<close>

theorem accordion_race:
  assumes inv: "collapse_inv s"
    and n: "fst s n = Some i" "accordion i = Some p" "\<not> isTransitioning i" "\<not> isShown (snd s) n"
    and m: "fst s m = Some j" "accordion j = Some p" "\<not> isTransitioning j" "\<not> isShown (snd s) m"
    and ne: "n \<noteq> m" and closed: "query_all (is_active (snd s)) (snd s) p = []"
    and np: "\<And>l e. \<not> prevents (env (snd s)) l e"
  shows "isShown (snd (transition_end collapse_run m (transition_end collapse_run n
      (Collapse_show pj m (Collapse_show pj n s))))) n \<and>
    isShown (snd (transition_end collapse_run m (transition_end collapse_run n
      (Collapse_show pj m (Collapse_show pj n s))))) m"
proof -
  define v where "v = announce n ''show.bs.collapse'' (snd s)"
  define s1 where "s1 = show_start n (fst s, v)"
  have inst_n: "fst (fst s, v) n \<noteq> None" using n by simp
  note f1 = show_start_facts[OF inst_n, folded s1_def]
  have tn: "\<not> transitioning s n" "\<not> transitioning s m" using n m by (simp_all add: transitioning_def)
  have s1: "Collapse_show pj n s = s1"
    unfolding s1_def v_def by (rule show_alone [OF tn(1) n(4) no_active_children [OF closed n(1,2)] np])
  obtain j' where j': "fst s1 m = Some j'" "accordion j' = Some p"
    using f1(8)[of m] m by auto
  have act1: "is_active (snd s1) x \<Longrightarrow> is_active (snd s) x" for x
    by (auto simp: is_active_def f1(2) v_def split: if_splits)
  have closed1: "query_all (is_active (snd s1)) (snd s1) p = []"
    using closed act1 same_tree_descendants[OF f1(5), of p]
    by (auto simp: query_all_def filter_empty_conv v_def)
  have t1: "\<not> transitioning s1 m"
    using f1(1)[of m] ne tn(2) by (simp add: transitioning_def)
  have h1: "isShown (snd s1) x = isShown (snd s) x" for x
    by (simp add: isShown_def f1(2) v_def)
  define v2 where "v2 = announce m ''show.bs.collapse'' (snd s1)"
  define s2 where "s2 = show_start m (fst s1, v2)"
  have np1: "\<And>l e. \<not> prevents (env (snd s1)) l e" using np f1(6) by (simp add: v_def)
  have "\<not> isShown (snd s1) m" using h1 m(4) by simp
  then have s2: "Collapse_show pj m s1 = s2"
    unfolding s2_def v2_def by (rule show_alone [OF t1 _ no_active_children [OF closed1 j'] np1])
  have inst_m: "fst (fst s1, v2) m \<noteq> None" using j' by simp
  note f2 = show_start_facts[OF inst_m, folded s2_def]
  have wait0: "waiting x (snd s) = []" if "\<not> transitioning s x" for x
  proof -
    have "length (waiting x (snd s)) = (if transitioning s x then 1 else 0)"
      using inv by (simp only: collapse_inv_def)
    then show ?thesis using that by simp
  qed
  have q: "transitions (snd s2) = transitions (snd s) @
      [(n, ShowComplete n (getDimension v n)), (m, ShowComplete m (getDimension v2 m))]"
    using f2(3) f1(3) by (simp add: v_def v2_def)
  have wn: "waiting n (snd s2) = [ShowComplete n (getDimension v n)]"
    and wm: "waiting m (snd s2) = [ShowComplete m (getDimension v2 m)]"
    using wait0[OF tn(1)] wait0[OF tn(2)] ne by (simp_all add: waiting_def q)
  define s3 where "s3 = transition_end collapse_run n s2"
  have s3: "isShown (snd s3) n" "waiting m (snd s3) = [ShowComplete m (getDimension v2 m)]"
    using run_show[OF wn] wm ne by (simp_all add: s3_def)
  then show ?thesis unfolding s1 s2 s3_def[symmetric] using run_show(1)[OF s3(2)] by simp
qed

definition accordion_page :: page where
  "accordion_page = (\<lambda>n. if n = 4 then plain_node ''DIV'' (Some 1) [5, 6]
    else if n = 5 \<or> n = 6 then (plain_node ''DIV'' (Some 4) [])\<lparr>classList := [''collapse'']\<rparr>
    else plain_node ''DIV'' None [])"

definition accordion_demo :: collapse_state where
  "accordion_demo = (let i = \<lparr>isTransitioning = False, triggerArray = [], accordion = Some 4\<rparr> in
    ((\<lambda>_. None)(5 := Some i, 6 := Some i), blank_world accordion_page 7))"

lemma accordion_race_witness:
  "isShown (snd (transition_end collapse_run 6 (transition_end collapse_run 5
      (Collapse_show (\<lambda>_. None) 6 (Collapse_show (\<lambda>_. None) 5 accordion_demo))))) 5"
proof -
  let ?i = "\<lparr>isTransitioning = False, triggerArray = [], accordion = Some 4\<rparr>"
  have cls: "has_class (snd accordion_demo) n c \<longleftrightarrow> (n = 5 \<or> n = 6) \<and> c = ''collapse''" for n c
    by (auto simp: accordion_demo_def Let_def has_class_def blank_world_def accordion_page_def plain_node_def)
  have tr: "transitions (snd accordion_demo) = []"
    by (simp add: accordion_demo_def Let_def blank_world_def)
  have "collapse_inv accordion_demo"
  proof -
    have "\<not> transitioning accordion_demo n" for n
      by (simp add: transitioning_def accordion_demo_def Let_def)
    then show ?thesis by (simp add: collapse_inv_def cls tr waiting_def)
  qed
  moreover have "fst accordion_demo 5 = Some ?i" "fst accordion_demo 6 = Some ?i"
    by (simp_all add: accordion_demo_def Let_def)
  moreover have "\<not> isShown (snd accordion_demo) 5" "\<not> isShown (snd accordion_demo) 6"
    by (simp_all add: isShown_def cls)
  moreover have "query_all (is_active (snd accordion_demo)) (snd accordion_demo) 4 = []"
    by (simp add: query_all_def filter_empty_conv is_active_def cls)
  moreover have "\<not> prevents (env (snd accordion_demo)) l e" for l e
    by (simp add: accordion_demo_def Let_def blank_world_def blank_browser_def)
  ultimately show ?thesis using accordion_race [of accordion_demo 5 ?i 4 6 ?i "\<lambda>_. None"] by simp
qed

end
