(* ===== verification/BsOverlay.thy ===== *)
theory BsOverlay
  imports BsBasics
begin

text \<open>
  What the overlays of Bootstrap share: the backdrop (\<open>util/backdrop.js\<close>), the focus trap
  (\<open>util/focustrap.js\<close>) and the helper that hides the scroll bar of the page
  (\<open>util/scrollbar.js\<close>). An operation of the backdrop that waits for its transition returns the
  element to wait for and whether to wait; the owner of the callback queues it.
\<close>

section \<open>Backdrop\<close>

record backdrop =
  bd_className :: string
  bd_isVisible :: bool
  bd_isAnimated :: bool
  bd_rootElement :: node
  bd_hasClick :: bool
  bd_isAppended :: bool
  bd_element :: "node option"

definition Backdrop_new :: "string \<Rightarrow> bool \<Rightarrow> bool \<Rightarrow> node \<Rightarrow> bool \<Rightarrow> backdrop" where
  "Backdrop_new cls visible animated rootNode click = \<lparr>bd_className = cls, bd_isVisible = visible,
    bd_isAnimated = animated, bd_rootElement = rootNode, bd_hasClick = click, bd_isAppended = False,
    bd_element = None\<rparr>"

definition Backdrop_getElement :: "backdrop \<times> 'cb world \<Rightarrow> node \<times> backdrop \<times> 'cb world" where
  "Backdrop_getElement s = (case bd_element (fst s) of
      Some n \<Rightarrow> (n, s)
    | None \<Rightarrow>
        let (n, w) = create_element ''DIV'' (snd s);
            w1 = add_class (bd_className (fst s)) n w;
            w2 = (if bd_isAnimated (fst s) then add_class ''fade'' n w1 else w1) in
        (n, (fst s)\<lparr>bd_element := Some n\<rparr>, w2))"

definition Backdrop_append :: "backdrop \<times> 'cb world \<Rightarrow> backdrop \<times> 'cb world" where
  "Backdrop_append s =
    (if bd_isAppended (fst s) then s
     else let (n, b, w) = Backdrop_getElement s in
       (b\<lparr>bd_isAppended := True\<rparr>,
        listen n ''mousedown.bs.backdrop'' (append_node n (bd_rootElement b) w)))"

definition Backdrop_dispose :: "backdrop \<times> 'cb world \<Rightarrow> backdrop \<times> 'cb world" where
  "Backdrop_dispose s =
    (if \<not> bd_isAppended (fst s) then s
     else (case bd_element (fst s) of
         None \<Rightarrow> s
       | Some n \<Rightarrow> ((fst s)\<lparr>bd_isAppended := False\<rparr>,
           remove_node n (unlisten n ''mousedown.bs.backdrop'' (snd s)))))"

text \<open>\<open>show\<close> and \<open>hide\<close> up to \<open>_emulateAnimation\<close>: \<open>None\<close> when the callback runs at once because
  the backdrop is not visible, otherwise the element and \<open>isAnimated\<close>. The callback of \<open>hide\<close>
  first disposes of the backdrop.\<close>

definition Backdrop_show ::
    "backdrop \<times> 'cb world \<Rightarrow> (node \<times> bool) option \<times> backdrop \<times> 'cb world" where
  "Backdrop_show s =
    (if \<not> bd_isVisible (fst s) then (None, s)
     else let (n, b, w) = Backdrop_getElement (Backdrop_append s) in
       (Some (n, bd_isAnimated b), b, add_class ''show'' n w))"

definition Backdrop_hide ::
    "backdrop \<times> 'cb world \<Rightarrow> (node \<times> bool) option \<times> backdrop \<times> 'cb world" where
  "Backdrop_hide s =
    (if \<not> bd_isVisible (fst s) then (None, s)
     else let (n, b, w) = Backdrop_getElement s in
       (Some (n, bd_isAnimated b), b, remove_class ''show'' n w))"

section \<open>Focus trap\<close>

datatype nav_direction = TAB_NAV_FORWARD | TAB_NAV_BACKWARD

record focustrap =
  ft_autofocus :: bool
  ft_trapElement :: node
  ft_isActive :: bool
  ft_lastTabNavDirection :: "nav_direction option"

definition FocusTrap_new :: "node \<Rightarrow> focustrap" where
  "FocusTrap_new n = \<lparr>ft_autofocus = True, ft_trapElement = n, ft_isActive = False,
    ft_lastTabNavDirection = None\<rparr>"

definition FocusTrap_activate :: "focustrap \<times> 'cb world \<Rightarrow> focustrap \<times> 'cb world" where
  "FocusTrap_activate s =
    (if ft_isActive (fst s) then s
     else let w = (if ft_autofocus (fst s) then focus_on (ft_trapElement (fst s)) (snd s) else snd s);
              w1 = unlisten_ns document_node ''.bs.focustrap'' w;
              w2 = listen document_node ''focusin.bs.focustrap'' w1;
              w3 = listen document_node ''keydown.tab.bs.focustrap'' w2 in
       ((fst s)\<lparr>ft_isActive := True\<rparr>, w3))"

definition FocusTrap_deactivate :: "focustrap \<times> 'cb world \<Rightarrow> focustrap \<times> 'cb world" where
  "FocusTrap_deactivate s =
    (if \<not> ft_isActive (fst s) then s
     else ((fst s)\<lparr>ft_isActive := False\<rparr>, unlisten_ns document_node ''.bs.focustrap'' (snd s)))"

definition FocusTrap_handleFocusin :: "node \<Rightarrow> focustrap \<Rightarrow> 'cb world \<Rightarrow> 'cb world" where
  "FocusTrap_handleFocusin target f w =
    (let trap = ft_trapElement f in
     if target = document_node \<or> target = trap \<or> node_contains w trap target then w
     else let elements = focusableChildren w trap in
       if elements = [] then focus_on trap w
       else if ft_lastTabNavDirection f = Some TAB_NAV_BACKWARD then focus_on (last elements) w
       else focus_on (hd elements) w)"

definition FocusTrap_handleKeydown :: "string \<Rightarrow> bool \<Rightarrow> focustrap \<Rightarrow> focustrap" where
  "FocusTrap_handleKeydown key shiftKey f =
    (if key \<noteq> ''Tab'' then f
     else f\<lparr>ft_lastTabNavDirection := Some (if shiftKey then TAB_NAV_BACKWARD else TAB_NAV_FORWARD)\<rparr>)"

section \<open>Scroll bar\<close>

definition scrollbar_getWidth :: "'cb world \<Rightarrow> real" where
  "scrollbar_getWidth w = \<bar>innerWidth (env w) - clientWidth (env w) (page w) documentElement\<bar>"

definition isOverflowing :: "'cb world \<Rightarrow> bool" where
  "isOverflowing w \<longleftrightarrow> scrollbar_getWidth w > 0"

definition saveInitialAttribute :: "string \<Rightarrow> node \<Rightarrow> 'cb world \<Rightarrow> 'cb world" where
  "saveInitialAttribute styleProperty n w =
    (let actualValue = get_style w n styleProperty in
     if actualValue \<noteq> [] then setDataAttribute n styleProperty actualValue w else w)"

definition disableOverFlow :: "'cb world \<Rightarrow> 'cb world" where
  "disableOverFlow w = set_style ''overflow'' ''hidden'' document_body
    (saveInitialAttribute ''overflow'' document_body w)"

text \<open>\<open>NaNpx\<close> is not a length: \<open>setProperty\<close> ignores it.\<close>

definition setElementAttribute :: "real \<Rightarrow> string \<Rightarrow> (real \<Rightarrow> real) \<Rightarrow> node \<Rightarrow> 'cb world \<Rightarrow> 'cb world" where
  "setElementAttribute scrollbarWidth styleProperty callback n w =
    (if n \<noteq> document_body \<and> innerWidth (env w) > clientWidth (env w) (page w) n + scrollbarWidth then w
     else let w' = saveInitialAttribute styleProperty n w in
       (case parseFloat (computedStyle (env w') (page w') n styleProperty) of
          JNum calculatedValue \<Rightarrow> set_style styleProperty (numStr (callback calculatedValue) @ ''px'') n w'
        | _ \<Rightarrow> w'))"

definition setElementAttributes :: "node list \<Rightarrow> string \<Rightarrow> (real \<Rightarrow> real) \<Rightarrow> 'cb world \<Rightarrow> 'cb world" where
  "setElementAttributes ns styleProperty callback w =
    fold (setElementAttribute (scrollbar_getWidth w) styleProperty callback) ns w"

definition jsString :: "jsval \<Rightarrow> string" where
  "jsString v = (case v of JStr s \<Rightarrow> s | JNum x \<Rightarrow> numStr x | JBool b \<Rightarrow> boolStr b | JNaN \<Rightarrow> ''NaN'' | _ \<Rightarrow> [])"

definition resetElementAttribute ::
    "(string \<Rightarrow> jsval option) \<Rightarrow> string \<Rightarrow> node \<Rightarrow> 'cb world \<Rightarrow> 'cb world" where
  "resetElementAttribute parseJson styleProperty n w =
    (let v = getDataAttribute parseJson w n styleProperty in
     if v = JNull then set_style styleProperty [] n w
     else set_style styleProperty (jsString v) n (removeDataAttribute n styleProperty w))"

definition resetElementAttributes ::
    "(string \<Rightarrow> jsval option) \<Rightarrow> node list \<Rightarrow> string \<Rightarrow> 'cb world \<Rightarrow> 'cb world" where
  "resetElementAttributes parseJson ns styleProperty w = fold (resetElementAttribute parseJson styleProperty) ns w"

definition fixed_content :: "'cb world \<Rightarrow> node list" where
  "fixed_content w = query_all (\<lambda>n. has_class w n ''fixed-top'' \<or> has_class w n ''fixed-bottom'' \<or>
    has_class w n ''is-fixed'' \<or> has_class w n ''sticky-top'') w document_body"

definition sticky_content :: "'cb world \<Rightarrow> node list" where
  "sticky_content w = query_all (\<lambda>n. has_class w n ''sticky-top'') w document_body"

definition ScrollBar_hide :: "'cb world \<Rightarrow> 'cb world" where
  "ScrollBar_hide w =
    (let width = scrollbar_getWidth w;
         w1 = disableOverFlow w;
         w2 = setElementAttributes [document_body] ''padding-right'' (\<lambda>v. v + width) w1;
         w3 = setElementAttributes (fixed_content w2) ''padding-right'' (\<lambda>v. v + width) w2 in
     setElementAttributes (sticky_content w3) ''margin-right'' (\<lambda>v. v - width) w3)"

definition ScrollBar_reset :: "(string \<Rightarrow> jsval option) \<Rightarrow> 'cb world \<Rightarrow> 'cb world" where
  "ScrollBar_reset parseJson w =
    (let w1 = resetElementAttributes parseJson [document_body] ''overflow'' w;
         w2 = resetElementAttributes parseJson [document_body] ''padding-right'' w1;
         w3 = resetElementAttributes parseJson (fixed_content w2) ''padding-right'' w2 in
     resetElementAttributes parseJson (sticky_content w3) ''margin-right'' w3)"


section \<open>The page after hiding and resetting the scroll bar\<close>

text \<open>What the helper knows of a node: its inline styles and the values it saved.\<close>

definition style_view :: "node \<Rightarrow> 'cb world \<Rightarrow> string \<Rightarrow> string \<times> string option" where
  "style_view n w p = (get_style w n p, get_attr w n (data_bs p))"

definition same_rest :: "'cb world \<Rightarrow> 'cb world \<Rightarrow> bool" where
  "same_rest w v \<longleftrightarrow> same_tree w v \<and> env v = env w \<and> (\<forall>n c. has_class v n c = has_class w n c) \<and>
    eventLog v = eventLog w \<and> transitions v = transitions w \<and> activeElement v = activeElement w \<and>
    listeners v = listeners w"

lemma same_rest_refl [simp]: "same_rest w w"
  by (simp add: same_rest_def)

lemma same_rest_trans: "same_rest u v \<Longrightarrow> same_rest v w \<Longrightarrow> same_rest u w"
  by (auto simp: same_rest_def intro: same_tree_trans)

lemma same_rest_ops [simp]:
  "same_rest w (set_style p s n v) = same_rest w v" "same_rest w (set_attr a s n v) = same_rest w v"
  "same_rest w (remove_attr a n v) = same_rest w v"
  "same_rest w (setDataAttribute n p s v) = same_rest w v"
  "same_rest w (removeDataAttribute n p v) = same_rest w v"
  by (auto simp: same_rest_def setDataAttribute_def removeDataAttribute_def)

lemma fold_same_rest: "(\<And>n v. same_rest v (f n v)) \<Longrightarrow> same_rest w (fold f ns w)"
  by (induction ns arbitrary: w) (auto intro: same_rest_trans)

lemma saveInitialAttribute_rest [simp]: "same_rest w (saveInitialAttribute p n w)"
  by (simp add: saveInitialAttribute_def Let_def)

lemma setElementAttribute_rest [simp]: "same_rest w (setElementAttribute k p f n w)"
  by (auto simp: setElementAttribute_def Let_def split: jsval.splits)

lemma resetElementAttribute_rest [simp]: "same_rest w (resetElementAttribute pj p n w)"
  by (simp add: resetElementAttribute_def Let_def)

lemma setElementAttributes_rest [simp]: "same_rest w (setElementAttributes ns p f w)"
  unfolding setElementAttributes_def by (rule fold_same_rest) simp

lemma resetElementAttributes_rest [simp]: "same_rest w (resetElementAttributes pj ns p w)"
  unfolding resetElementAttributes_def by (rule fold_same_rest) simp

lemma content_cong:
  assumes "same_rest w v"
  shows "fixed_content v = fixed_content w" "sticky_content v = sticky_content w"
proof -
  have "descendants v document_body = descendants w document_body"
    using assms by (intro same_tree_descendants) (simp add: same_rest_def)
  then show "fixed_content v = fixed_content w" "sticky_content v = sticky_content w"
    using assms by (simp_all add: fixed_content_def sticky_content_def same_rest_def query_all_def)
qed

lemma ScrollBar_rest: "same_rest w (ScrollBar_hide w)" "same_rest w (ScrollBar_reset pj w)"
proof -
  have "same_rest w (disableOverFlow w)" by (simp add: disableOverFlow_def)
  then show "same_rest w (ScrollBar_hide w)"
    unfolding ScrollBar_hide_def Let_def
    by (intro same_rest_trans [OF _ setElementAttributes_rest])
  show "same_rest w (ScrollBar_reset pj w)"
    unfolding ScrollBar_reset_def Let_def
    by (intro same_rest_trans [OF _ resetElementAttributes_rest]) simp
qed

text \<open>The three properties have different data attributes.\<close>

definition scroll_property :: "string \<Rightarrow> bool" where
  "scroll_property p \<longleftrightarrow> p = ''overflow'' \<or> p = ''padding-right'' \<or> p = ''margin-right''"

lemma data_bs_scroll:
  "data_bs ''overflow'' = ''data-bs-overflow''" "data_bs ''padding-right'' = ''data-bs-padding-right''"
  "data_bs ''margin-right'' = ''data-bs-margin-right''"
  by (simp_all add: data_bs_def is_upper_def)

lemma data_bs_inj: "scroll_property p \<Longrightarrow> scroll_property q \<Longrightarrow> data_bs p = data_bs q \<longleftrightarrow> p = q"
  by (auto simp: scroll_property_def data_bs_scroll)

definition saved_view :: "string \<times> string option \<Rightarrow> string option" where
  "saved_view v = (if fst v \<noteq> [] then Some (fst v) else snd v)"

lemma saveInitialAttribute_obs:
  "get_style (saveInitialAttribute p n w) m q = get_style w m q"
  "get_attr (saveInitialAttribute p n w) m a =
    (if m = n \<and> a = data_bs p \<and> get_style w n p \<noteq> [] then Some (get_style w n p) else get_attr w m a)"
  by (auto simp: saveInitialAttribute_def setDataAttribute_def Let_def)

lemma setElementAttribute_cases:
  obtains "setElementAttribute k p f n w = w" "n \<noteq> document_body" "innerWidth (env w) > clientWidth (env w) (page w) n + k"
  | "setElementAttribute k p f n w = saveInitialAttribute p n w"
  | x where "setElementAttribute k p f n w = set_style p x n (saveInitialAttribute p n w)"
proof (cases "n \<noteq> document_body \<and> innerWidth (env w) > clientWidth (env w) (page w) n + k")
  case False
  then have "setElementAttribute k p f n w =
      (let w' = saveInitialAttribute p n w in
       case parseFloat (computedStyle (env w') (page w') n p) of
          JNum x \<Rightarrow> set_style p (numStr (f x) @ ''px'') n w' | _ \<Rightarrow> w')"
    unfolding setElementAttribute_def by (rule if_not_P)
  then show ?thesis using that(2,3) by (simp add: Let_def split: jsval.splits)
qed (simp add: that(1) setElementAttribute_def)

lemma setElementAttribute_out:
  assumes "scroll_property p" and "scroll_property q" and "m \<noteq> n \<or> q \<noteq> p"
  shows "style_view m (setElementAttribute k p f n w) q = style_view m w q"
proof -
  have "\<not> (m = n \<and> data_bs q = data_bs p)" using assms data_bs_inj by blast
  then show ?thesis using assms(3)
    by (cases rule: setElementAttribute_cases[of k p f n w])
      (auto simp: style_view_def saveInitialAttribute_obs)
qed

lemma setElementAttribute_saves:
  assumes "n = document_body \<or> innerWidth (env w) \<le> clientWidth (env w) (page w) n + k \<or> get_style w n p = []"
  shows "snd (style_view n (setElementAttribute k p f n w) p) = saved_view (style_view n w p)"
proof (cases rule: setElementAttribute_cases[of k p f n w])
  case 1
  then show ?thesis using assms by (auto simp: style_view_def saved_view_def)
qed (simp_all add: style_view_def saved_view_def saveInitialAttribute_obs)

lemma resetElementAttribute_out:
  assumes "scroll_property p" and "scroll_property q" and "m \<noteq> n \<or> q \<noteq> p"
  shows "style_view m (resetElementAttribute pj p n w) q = style_view m w q"
proof -
  have "\<not> (m = n \<and> data_bs q = data_bs p)" using assms data_bs_inj by blast
  then show ?thesis using assms(3)
    by (auto simp: style_view_def resetElementAttribute_def removeDataAttribute_def Let_def)
qed

lemma resetElementAttribute_view:
  "snd (style_view n w p) = None \<Longrightarrow> style_view n (resetElementAttribute pj p n w) p = ([], None)"
  "snd (style_view n w p) = Some s \<Longrightarrow> normalizeData pj (JStr s) = JStr s \<Longrightarrow>
    style_view n (resetElementAttribute pj p n w) p = (s, None)"
  by (simp_all add: style_view_def resetElementAttribute_def removeDataAttribute_def getDataAttribute_def
      attr_value_def Let_def normalizeData_def jsString_def)

lemma fold_out:
  assumes "\<And>n w m q. scroll_property q \<Longrightarrow> m \<noteq> n \<or> q \<noteq> p \<Longrightarrow> style_view m (f n w) q = style_view m w q"
  shows "scroll_property q \<Longrightarrow> m \<notin> set ns \<or> q \<noteq> p \<Longrightarrow> style_view m (fold f ns w) q = style_view m w q"
  using assms by (induction ns arbitrary: w) auto

text \<open>The step of the fold at an element of the list starts from a world that agrees with the
  first one on the element and on the other properties.\<close>

definition near :: "string \<Rightarrow> node \<Rightarrow> 'cb world \<Rightarrow> 'cb world \<Rightarrow> bool" where
  "near p m w u \<longleftrightarrow> same_rest w u \<and> style_view m u p = style_view m w p \<and>
    (\<forall>k q. scroll_property q \<longrightarrow> q \<noteq> p \<longrightarrow> style_view k u q = style_view k w q)"

lemma fold_at:
  assumes local: "\<And>n w m q. scroll_property q \<Longrightarrow> m \<noteq> n \<or> q \<noteq> p \<Longrightarrow> style_view m (f n w) q = style_view m w q"
    and rest: "\<And>n w. same_rest w (f n w)" and p: "scroll_property p"
  shows "distinct ns \<Longrightarrow> m \<in> set ns \<Longrightarrow>
    \<exists>u. near p m w u \<and> style_view m (fold f ns w) p = style_view m (f m u) p"
proof (induction ns arbitrary: w)
  case (Cons n ns)
  show ?case
  proof (cases "m = n")
    case True
    then have "style_view m (fold f (n # ns) w) p = style_view m (f m w) p"
      using fold_out[of p f p m ns "f n w", OF local p] Cons.prems by simp
    then show ?thesis by (intro exI[of _ w]) (simp add: near_def)
  next
    case False
    then obtain u where u: "near p m (f n w) u"
        "style_view m (fold f ns (f n w)) p = style_view m (f m u) p"
      using Cons by auto
    have "near p m w u" unfolding near_def
    proof (intro conjI allI impI)
      show "same_rest w u" using u(1) rest same_rest_trans unfolding near_def by blast
      show "style_view m u p = style_view m w p"
        using u(1) local[OF p, of m n w] False by (simp add: near_def)
      show "style_view k u q = style_view k w q" if "scroll_property q" "q \<noteq> p" for k q
        using u(1) local[OF that(1), of k n w] that by (simp add: near_def)
    qed
    then show ?thesis using u(2) by (intro exI[of _ u]) simp
  qed
qed simp

text \<open>An element spans the window while the scroll bar is hidden.\<close>

definition spans :: "'cb world \<Rightarrow> node \<Rightarrow> bool" where
  "spans w n \<longleftrightarrow> (\<forall>p. inlineStyle (p document_body) ''overflow'' = ''hidden'' \<longrightarrow>
    innerWidth (env w) \<le> clientWidth (env w) p n)"

lemma spansD: "spans w n \<Longrightarrow> get_style u document_body ''overflow'' = ''hidden'' \<Longrightarrow>
    innerWidth (env w) \<le> clientWidth (env w) (page u) n"
  unfolding spans_def get_style_def by blast

lemma setElementAttributes_out:
  assumes "scroll_property p" and "scroll_property q" and "m \<notin> set ns \<or> q \<noteq> p"
  shows "style_view m (setElementAttributes ns p f w) q = style_view m w q"
  unfolding setElementAttributes_def
  by (rule fold_out[of p, OF setElementAttribute_out[OF assms(1)]]) (use assms in auto)

lemma setElementAttributes_saved:
  assumes p: "scroll_property p" "p \<noteq> ''overflow''" and d: "distinct ns"
    and hidden: "get_style w document_body ''overflow'' = ''hidden''"
    and full: "m = document_body \<or> spans w m \<or> get_style w m p = []" and m: "m \<in> set ns"
  shows "snd (style_view m (setElementAttributes ns p f w) p) = saved_view (style_view m w p)"
proof -
  let ?f = "setElementAttribute (scrollbar_getWidth w) p f"
  obtain u where u: "near p m w u" "style_view m (fold ?f ns w) p = style_view m (?f m u) p"
    using fold_at[of p ?f, OF setElementAttribute_out[OF p(1)] setElementAttribute_rest p(1) d m] by blast
  have e: "env u = env w" using u(1) by (simp add: near_def same_rest_def)
  have v: "style_view m u p = style_view m w p" using u(1) by (simp add: near_def)
  have o: "get_style u document_body ''overflow'' = ''hidden''"
    using u(1) hidden p by (auto simp: near_def scroll_property_def style_view_def)
  have k: "0 \<le> scrollbar_getWidth w" by (simp add: scrollbar_getWidth_def)
  have "m = document_body \<or> innerWidth (env u) \<le> clientWidth (env u) (page u) m + scrollbar_getWidth w
      \<or> get_style u m p = []"
    using full
  proof (elim disjE)
    assume "spans w m"
    from spansD [OF this o] k e show ?thesis by auto
  next
    assume "get_style w m p = []"
    then show ?thesis using v by (simp add: style_view_def)
  qed simp
  then show ?thesis
    using setElementAttribute_saves[of m u "scrollbar_getWidth w" p f] u(2) v
    by (simp add: setElementAttributes_def)
qed

lemma resetElementAttributes_out:
  assumes "scroll_property p" and "scroll_property q" and "m \<notin> set ns \<or> q \<noteq> p"
  shows "style_view m (resetElementAttributes pj ns p w) q = style_view m w q"
  unfolding resetElementAttributes_def
  by (rule fold_out[of p, OF resetElementAttribute_out[OF assms(1)]]) (use assms in auto)

lemma resetElementAttributes_at:
  assumes p: "scroll_property p" and d: "distinct ns" and m: "m \<in> set ns"
    and v: "snd (style_view m w p) = saved_view (s, None)" and n: "s \<noteq> [] \<Longrightarrow> normalizeData pj (JStr s) = JStr s"
  shows "style_view m (resetElementAttributes pj ns p w) p = (s, None)"
proof -
  let ?f = "resetElementAttribute pj p"
  obtain u where u: "near p m w u" "style_view m (fold ?f ns w) p = style_view m (?f m u) p"
    using fold_at[of p ?f, OF resetElementAttribute_out[OF p] resetElementAttribute_rest p d m] by blast
  have "snd (style_view m u p) = saved_view (s, None)" using u(1) v by (simp add: near_def)
  then have "style_view m (?f m u) p = (s, None)"
    using resetElementAttribute_view[of m u p] n by (cases "s = []") (simp_all add: saved_view_def)
  then show ?thesis using u(2) by (simp add: resetElementAttributes_def)
qed

text \<open>The pairs of element and property the helper may change.\<close>

definition scrollbar_touches :: "'cb world \<Rightarrow> node \<Rightarrow> string \<Rightarrow> bool" where
  "scrollbar_touches w n p \<longleftrightarrow>
    (n = document_body \<and> (p = ''overflow'' \<or> p = ''padding-right'')) \<or>
    (n \<in> set (fixed_content w) \<and> p = ''padding-right'') \<or>
    (n \<in> set (sticky_content w) \<and> p = ''margin-right'')"

lemma scrollbar_touches_cases:
  obtains (ovf) "n = document_body" "q = ''overflow''" | (pad) "n = document_body" "q = ''padding-right''"
    | (fxd) "n \<in> set (fixed_content w)" "q = ''padding-right''"
    | (stk) "n \<in> set (sticky_content w)" "q = ''margin-right''" | (no) "\<not> scrollbar_touches w n q"
  unfolding scrollbar_touches_def by blast

lemma disableOverFlow_view:
  "snd (style_view document_body (disableOverFlow w) ''overflow'') =
    saved_view (style_view document_body w ''overflow'')"
  "scroll_property q \<Longrightarrow> m \<noteq> document_body \<or> q \<noteq> ''overflow'' \<Longrightarrow>
    style_view m (disableOverFlow w) q = style_view m w q"
  "get_style (disableOverFlow w) document_body ''overflow'' = ''hidden''"
proof -
  show "style_view m (disableOverFlow w) q = style_view m w q"
    if "scroll_property q" "m \<noteq> document_body \<or> q \<noteq> ''overflow''"
  proof -
    have "\<not> (m = document_body \<and> data_bs q = data_bs ''overflow'')"
      using that data_bs_inj[of q "''overflow''"] by (auto simp: scroll_property_def)
    then show ?thesis using that(2)
      by (auto simp: style_view_def disableOverFlow_def saveInitialAttribute_obs)
  qed
qed (simp_all add: style_view_def disableOverFlow_def saveInitialAttribute_obs saved_view_def)

lemma ScrollBar_hide_view:
  assumes q: "scroll_property q" and d: "distinct (descendants w document_body)"
    and full: "q \<noteq> ''overflow'' \<Longrightarrow> n \<in> set (fixed_content w) \<union> set (sticky_content w) \<Longrightarrow>
      spans w n \<or> get_style w n q = []"
    and body: "document_body \<notin> set (descendants w document_body)"
  shows "if scrollbar_touches w n q then snd (style_view n (ScrollBar_hide w) q) = saved_view (style_view n w q)
    else style_view n (ScrollBar_hide w) q = style_view n w q"
proof -
  define k where "k = scrollbar_getWidth w"
  define w1 where "w1 = disableOverFlow w"
  define w2 where "w2 = setElementAttributes [document_body] ''padding-right'' (\<lambda>v. v + k) w1"
  define w3 where "w3 = setElementAttributes (fixed_content w) ''padding-right'' (\<lambda>v. v + k) w2"
  define w4 where "w4 = setElementAttributes (sticky_content w) ''margin-right'' (\<lambda>v. v - k) w3"
  have r1: "same_rest w w1" by (simp add: w1_def disableOverFlow_def)
  then have r2: "same_rest w w2" by (simp add: w2_def same_rest_trans [OF _ setElementAttributes_rest])
  then have r3: "same_rest w w3" by (simp add: w3_def same_rest_trans [OF _ setElementAttributes_rest])
  have hide: "ScrollBar_hide w = w4"
    using content_cong[OF r2] content_cong[OF r3]
    by (simp add: ScrollBar_hide_def Let_def k_def[symmetric] w1_def[symmetric] w2_def[symmetric]
        w3_def[symmetric] w4_def[symmetric])
  have sp: "scroll_property ''overflow''" "scroll_property ''padding-right''" "scroll_property ''margin-right''"
    by (simp_all add: scroll_property_def)
  have df: "distinct (fixed_content w)" "distinct (sticky_content w)"
    "document_body \<notin> set (fixed_content w)" "document_body \<notin> set (sticky_content w)"
    using d body by (auto simp: fixed_content_def sticky_content_def query_all_def)
  have spans: "spans v n = spans w n" if "same_rest w v" for v
    using that by (simp add: spans_def same_rest_def)
  have ov: "style_view document_body w2 ''overflow'' = style_view document_body w1 ''overflow''"
    "style_view document_body w3 ''overflow'' = style_view document_body w1 ''overflow''"
    unfolding w2_def w3_def by (simp_all add: setElementAttributes_out sp)
  have hid: "get_style w1 document_body ''overflow'' = ''hidden''"
    "get_style w2 document_body ''overflow'' = ''hidden''" "get_style w3 document_body ''overflow'' = ''hidden''"
    using disableOverFlow_view(3)[of w] ov by (simp_all add: w1_def[symmetric] style_view_def)
  have v1: "style_view n w1 q = style_view n w q" if "n \<noteq> document_body \<or> q \<noteq> ''overflow''"
    using disableOverFlow_view(2)[OF q that] by (simp add: w1_def)
  have v2: "style_view n w2 q = style_view n w1 q" if "n \<noteq> document_body \<or> q \<noteq> ''padding-right''"
    unfolding w2_def by (rule setElementAttributes_out) (use that q sp in auto)
  have v3: "style_view n w3 q = style_view n w2 q" if "n \<notin> set (fixed_content w) \<or> q \<noteq> ''padding-right''"
    unfolding w3_def by (rule setElementAttributes_out) (use that q sp in auto)
  have v4: "style_view n w4 q = style_view n w3 q" if "n \<notin> set (sticky_content w) \<or> q \<noteq> ''margin-right''"
    unfolding w4_def by (rule setElementAttributes_out) (use that q sp in auto)
  show ?thesis
  proof (cases rule: scrollbar_touches_cases[where w = w and n = n and q = q])
    case ovf
    then show ?thesis using v2 v3 v4 df disableOverFlow_view(1)[of w] hide
      by (simp add: scrollbar_touches_def w1_def)
  next
    case pad
    have "snd (style_view n w2 q) = saved_view (style_view n w1 q)"
      unfolding w2_def pad(2) by (rule setElementAttributes_saved) (use pad sp hid in auto)
    then show ?thesis using pad v1 v3 v4 df hide by (simp add: scrollbar_touches_def)
  next
    case fxd
    have nb: "n \<noteq> document_body" using fxd df by auto
    have s: "style_view n w2 q = style_view n w q" using nb v1 v2 by simp
    have "snd (style_view n w3 q) = saved_view (style_view n w2 q)"
      unfolding w3_def fxd(2)
      by (rule setElementAttributes_saved) (use fxd sp hid df full spans[OF r2] s in \<open>auto simp: style_view_def\<close>)
    then show ?thesis using fxd s v4 hide by (simp add: scrollbar_touches_def)
  next
    case stk
    have nb: "n \<noteq> document_body" using stk df by auto
    have s: "style_view n w3 q = style_view n w q" using nb v1 v2 v3 stk by simp
    have "snd (style_view n w4 q) = saved_view (style_view n w3 q)"
      unfolding w4_def stk(2)
      by (rule setElementAttributes_saved) (use stk sp hid df full spans[OF r3] s in \<open>auto simp: style_view_def\<close>)
    then show ?thesis using stk s hide by (simp add: scrollbar_touches_def)
  next
    case no
    then show ?thesis using v1 v2 v3 v4 hide by (auto simp: scrollbar_touches_def)
  qed
qed

lemma ScrollBar_reset_view:
  assumes q: "scroll_property q" and d: "distinct (descendants w document_body)"
    and body: "document_body \<notin> set (descendants w document_body)"
    and t: "scrollbar_touches w n q \<Longrightarrow> snd (style_view n w q) = saved_view (s, None)"
    and plain: "s \<noteq> [] \<Longrightarrow> normalizeData pj (JStr s) = JStr s"
  shows "style_view n (ScrollBar_reset pj w) q = (if scrollbar_touches w n q then (s, None) else style_view n w q)"
proof -
  define w1 where "w1 = resetElementAttributes pj [document_body] ''overflow'' w"
  define w2 where "w2 = resetElementAttributes pj [document_body] ''padding-right'' w1"
  define w3 where "w3 = resetElementAttributes pj (fixed_content w) ''padding-right'' w2"
  define w4 where "w4 = resetElementAttributes pj (sticky_content w) ''margin-right'' w3"
  have r1: "same_rest w w1" by (simp add: w1_def)
  then have r2: "same_rest w w2" by (simp add: w2_def same_rest_trans [OF _ resetElementAttributes_rest])
  then have r3: "same_rest w w3" by (simp add: w3_def same_rest_trans [OF _ resetElementAttributes_rest])
  have reset: "ScrollBar_reset pj w = w4"
    using content_cong[OF r2] content_cong[OF r3]
    by (simp add: ScrollBar_reset_def Let_def w1_def[symmetric] w2_def[symmetric] w3_def[symmetric]
        w4_def[symmetric])
  have sp: "scroll_property ''overflow''" "scroll_property ''padding-right''" "scroll_property ''margin-right''"
    by (simp_all add: scroll_property_def)
  have df: "distinct (fixed_content w)" "distinct (sticky_content w)"
    "document_body \<notin> set (fixed_content w)" "document_body \<notin> set (sticky_content w)"
    using d body by (auto simp: fixed_content_def sticky_content_def query_all_def)
  have v1: "style_view n w1 q = style_view n w q" if "n \<noteq> document_body \<or> q \<noteq> ''overflow''"
    unfolding w1_def by (rule resetElementAttributes_out) (use that q sp in auto)
  have v2: "style_view n w2 q = style_view n w1 q" if "n \<noteq> document_body \<or> q \<noteq> ''padding-right''"
    unfolding w2_def by (rule resetElementAttributes_out) (use that q sp in auto)
  have v3: "style_view n w3 q = style_view n w2 q" if "n \<notin> set (fixed_content w) \<or> q \<noteq> ''padding-right''"
    unfolding w3_def by (rule resetElementAttributes_out) (use that q sp in auto)
  have v4: "style_view n w4 q = style_view n w3 q" if "n \<notin> set (sticky_content w) \<or> q \<noteq> ''margin-right''"
    unfolding w4_def by (rule resetElementAttributes_out) (use that q sp in auto)
  show ?thesis
  proof (cases rule: scrollbar_touches_cases[where w = w and n = n and q = q])
    case ovf
    have "style_view n w1 q = (s, None)" unfolding w1_def ovf(2)
      by (rule resetElementAttributes_at) (use ovf sp t plain in \<open>auto simp: scrollbar_touches_def\<close>)
    then show ?thesis using ovf v2 v3 v4 df reset by (simp add: scrollbar_touches_def)
  next
    case pad
    have "style_view n w2 q = (s, None)" unfolding w2_def pad(2)
      by (rule resetElementAttributes_at) (use pad sp t plain v1 in \<open>auto simp: scrollbar_touches_def\<close>)
    then show ?thesis using pad v3 v4 df reset by (simp add: scrollbar_touches_def)
  next
    case fxd
    have nb: "n \<noteq> document_body" using fxd df by auto
    have "style_view n w3 q = (s, None)" unfolding w3_def fxd(2)
      by (rule resetElementAttributes_at)
        (use fxd sp df t plain v1 v2 nb in \<open>auto simp: scrollbar_touches_def\<close>)
    then show ?thesis using fxd v4 reset by (simp add: scrollbar_touches_def)
  next
    case stk
    have nb: "n \<noteq> document_body" using stk df by auto
    have "style_view n w4 q = (s, None)" unfolding w4_def stk(2)
      by (rule resetElementAttributes_at)
        (use stk sp df t plain v1 v2 v3 nb in \<open>auto simp: scrollbar_touches_def\<close>)
    then show ?thesis using stk reset by (simp add: scrollbar_touches_def)
  next
    case no
    then show ?thesis using v1 v2 v3 v4 reset by (auto simp: scrollbar_touches_def)
  qed
qed

definition plain_styles :: "(string \<Rightarrow> jsval option) \<Rightarrow> 'cb world \<Rightarrow> bool" where
  "plain_styles pj w \<longleftrightarrow> (\<forall>n q. get_style w n q \<noteq> [] \<longrightarrow>
    normalizeData pj (JStr (get_style w n q)) = JStr (get_style w n q))"

definition nothing_saved :: "'cb world \<Rightarrow> bool" where
  "nothing_saved w \<longleftrightarrow> (\<forall>n q. scroll_property q \<longrightarrow> get_attr w n (data_bs q) = None)"

text \<open>An element smaller than the window, whatever the page looks like.\<close>

definition narrow :: "'cb world \<Rightarrow> node \<Rightarrow> bool" where
  "narrow w n \<longleftrightarrow> (\<forall>p p'. clientWidth (env w) p n +
    \<bar>innerWidth (env w) - clientWidth (env w) p' documentElement\<bar> < innerWidth (env w))"

lemma narrow_skipped:
  assumes "narrow w n" and "same_rest w v" and "n \<noteq> document_body" and "env u = env w"
  shows "setElementAttribute (scrollbar_getWidth v) p f n u = u"
  using assms
  by (simp add: narrow_def setElementAttribute_def scrollbar_getWidth_def same_rest_def)

lemma setElementAttributes_narrow:
  fixes w v :: "'cb world"
  assumes p: "scroll_property p" and q: "scroll_property q" and n: "narrow w n" "same_rest w v" "n \<noteq> document_body"
  shows "style_view n (setElementAttributes ns p f v) q = style_view n v q"
proof -
  have "env u = env w \<Longrightarrow>
    style_view n (fold (setElementAttribute (scrollbar_getWidth v) p f) ns u) q = style_view n u q" for u :: "'cb world"
  proof (induction ns arbitrary: u)
    case (Cons m ns)
    have e: "env (setElementAttribute (scrollbar_getWidth v) p f m u) = env w"
      using Cons.prems setElementAttribute_rest[of u "scrollbar_getWidth v" p f m] by (simp add: same_rest_def)
    have "style_view n (setElementAttribute (scrollbar_getWidth v) p f m u) q = style_view n u q"
      using narrow_skipped[OF n Cons.prems, of p f] setElementAttribute_out[OF p q, of n m] by (cases "m = n") auto
    then show ?case using Cons.IH[OF e] by simp
  qed simp
  then show ?thesis using n(2) by (simp add: setElementAttributes_def same_rest_def)
qed

lemma ScrollBar_hide_narrow:
  assumes "narrow w n" and "n \<noteq> document_body" and q: "scroll_property q"
  shows "style_view n (ScrollBar_hide w) q = style_view n w q"
proof -
  define k where "k = scrollbar_getWidth w"
  define w1 where "w1 = disableOverFlow w"
  define w2 where "w2 = setElementAttributes [document_body] ''padding-right'' (\<lambda>v. v + k) w1"
  define w3 where "w3 = setElementAttributes (fixed_content w2) ''padding-right'' (\<lambda>v. v + k) w2"
  have r1: "same_rest w w1" by (simp add: w1_def disableOverFlow_def)
  then have r2: "same_rest w w2" by (simp add: w2_def same_rest_trans [OF _ setElementAttributes_rest])
  then have r3: "same_rest w w3" by (simp add: w3_def same_rest_trans [OF _ setElementAttributes_rest])
  have sp: "scroll_property ''padding-right''" "scroll_property ''margin-right''"
    by (simp_all add: scroll_property_def)
  have "ScrollBar_hide w = setElementAttributes (sticky_content w3) ''margin-right'' (\<lambda>v. v - k) w3"
    unfolding ScrollBar_hide_def Let_def k_def w1_def w2_def w3_def by (rule refl)
  moreover have "style_view n w1 q = style_view n w q"
    using disableOverFlow_view(2)[OF q, of n w] assms(2) by (simp add: w1_def)
  moreover have "style_view n w2 q = style_view n w1 q"
    unfolding w2_def by (rule setElementAttributes_narrow[OF sp(1) q assms(1) r1 assms(2)])
  moreover have "style_view n w3 q = style_view n w2 q"
    unfolding w3_def by (rule setElementAttributes_narrow[OF sp(1) q assms(1) r2 assms(2)])
  ultimately show ?thesis using setElementAttributes_narrow[OF sp(2) q assms(1) r3 assms(2)] by simp
qed

lemma touches_hide: "scrollbar_touches (ScrollBar_hide w) n q = scrollbar_touches w n q"
  using content_cong[OF ScrollBar_rest(1)[of w]] by (simp add: scrollbar_touches_def)

lemma descendants_hide: "descendants (ScrollBar_hide w) n = descendants w n"
  using ScrollBar_rest(1)[of w] by (intro same_tree_descendants) (simp add: same_rest_def)

text \<open>
  Hiding the scroll bar and resetting it gives the page back its inline styles: for the
  body, the fixed and the sticky elements, and every other one, \<open>overflow\<close>, \<open>padding-right\<close> and
  \<open>margin-right\<close> are what they were, and no saved value is left in an attribute. It holds when
  no values were saved before, the values are ones that data attributes give back, and every
  fixed or sticky element either spans the window without its scroll bar or has no inline value.\<close>

theorem scrollbar_roundtrip:
  assumes tree: "distinct (document_body # descendants w document_body)"
    and "nothing_saved w" and "plain_styles pj w"
    and "\<forall>m \<in> set (fixed_content w) \<union> set (sticky_content w). spans w m \<or>
      get_style w m ''padding-right'' = [] \<and> get_style w m ''margin-right'' = []"
    and "q \<in> {''overflow'', ''padding-right'', ''margin-right''}"
  shows "get_style (ScrollBar_reset pj (ScrollBar_hide w)) n q = get_style w n q \<and>
    get_attr (ScrollBar_reset pj (ScrollBar_hide w)) n (data_bs q) = None"
proof -
  have q: "scroll_property q" using assms(5) by (auto simp: scroll_property_def)
  have v: "style_view n w q = (get_style w n q, None)"
    using assms(2) q by (simp add: style_view_def nothing_saved_def)
  let ?t = "scrollbar_touches w n q"
  have hide: "if ?t then snd (style_view n (ScrollBar_hide w) q) = saved_view (style_view n w q)
      else style_view n (ScrollBar_hide w) q = style_view n w q"
    using assms(4,5) tree by (intro ScrollBar_hide_view[OF q]) auto
  have "style_view n (ScrollBar_reset pj (ScrollBar_hide w)) q =
      (if ?t then (get_style w n q, None) else style_view n (ScrollBar_hide w) q)"
  proof -
    have "normalizeData pj (JStr (get_style w n q)) = JStr (get_style w n q)" if "get_style w n q \<noteq> []"
      using assms(3) that by (simp add: plain_styles_def)
    then show ?thesis
      using ScrollBar_reset_view[OF q, of "ScrollBar_hide w" n "get_style w n q" pj] hide v tree
      by (simp add: touches_hide descendants_hide)
  qed
  then have "style_view n (ScrollBar_reset pj (ScrollBar_hide w)) q = (get_style w n q, None)"
    using hide v by (simp split: if_splits)
  then show ?thesis by (simp add: style_view_def)
qed

text \<open>
  A fixed element that is smaller than the window is skipped when the scroll bar is
  hidden, so its inline padding is not saved, but the reset does not skip it: it finds no saved
  value and removes the inline padding. Opening and closing a modal loses the style.\<close>

theorem scrollbar_skipped_loses_padding:
  assumes "distinct (document_body # descendants w document_body)"
    and "nothing_saved w" and "n \<in> set (fixed_content w)" and "narrow w n"
  shows "get_style (ScrollBar_hide w) n ''padding-right'' = get_style w n ''padding-right'' \<and>
    get_style (ScrollBar_reset pj (ScrollBar_hide w)) n ''padding-right'' = []"
proof -
  have q: "scroll_property ''padding-right''" by (simp add: scroll_property_def)
  have n: "n \<noteq> document_body" using assms(1,3) by (auto simp: fixed_content_def query_all_def)
  have v: "style_view n (ScrollBar_hide w) ''padding-right'' = (get_style w n ''padding-right'', None)"
    using ScrollBar_hide_narrow[OF assms(4) n q] assms(2) q
    by (simp add: style_view_def nothing_saved_def)
  have t: "scrollbar_touches (ScrollBar_hide w) n ''padding-right''"
    unfolding touches_hide using assms(3) by (simp add: scrollbar_touches_def)
  have "style_view n (ScrollBar_reset pj (ScrollBar_hide w)) ''padding-right'' = ([], None)"
    using ScrollBar_reset_view[OF q, of "ScrollBar_hide w" n "[]" pj] v assms(1) t
    by (simp add: descendants_hide saved_view_def)
  then show ?thesis using v by (simp add: style_view_def)
qed


text \<open>A body with one fixed bar that has an inline padding.\<close>

definition bar_page :: page where
  "bar_page = (\<lambda>_. plain_node ''DIV'' None [])(document_body := plain_node ''BODY'' None [4],
    4 := (plain_node ''DIV'' (Some document_body) [])\<lparr>classList := [''fixed-top''],
      inlineStyle := (\<lambda>_. [])(''padding-right'' := ''5px'')\<rparr>)"

definition bar_world :: "unit world" where
  "bar_world = blank_world bar_page 5"

definition badge_world :: "unit world" where
  "badge_world = bar_world\<lparr>env := blank_browser\<lparr>clientWidth := (\<lambda>_ n. if n = documentElement then 1000 else 100)\<rparr>\<rparr>"

lemma bar_descendants: "descendants bar_world document_body = [4]"
  by (simp add: descendants_def bar_world_def blank_world_def bar_page_def plain_node_def document_body_def
      numeral_eq_Suc)

lemma bar_tree: "distinct (document_body # descendants bar_world document_body)"
  unfolding bar_descendants by (simp add: document_body_def)

lemma bar_style: "get_style bar_world n q = (if n = 4 \<and> q = ''padding-right'' then ''5px'' else [])"
  by (simp add: get_style_def bar_world_def blank_world_def bar_page_def plain_node_def document_body_def)

lemma bar_attr: "get_attr bar_world n a = None"
  by (simp add: get_attr_def bar_world_def blank_world_def bar_page_def plain_node_def document_body_def)

lemma bar_fixed: "fixed_content bar_world = [4]"
  unfolding fixed_content_def query_all_def bar_descendants
  by (simp add: has_class_def bar_world_def blank_world_def bar_page_def)

lemma bar_spans: "spans bar_world n"
  by (simp add: spans_def bar_world_def blank_world_def blank_browser_def)

lemma scrollbar_roundtrip_witness:
  "get_style (ScrollBar_reset (\<lambda>_. None) (ScrollBar_hide bar_world)) 4 ''padding-right'' = ''5px''"
proof -
  have p: "normalizeData (\<lambda>_. None) (JStr ''5px'') = JStr ''5px''" by code_simp
  have "get_style (ScrollBar_reset (\<lambda>_. None) (ScrollBar_hide bar_world)) 4 ''padding-right'' =
      get_style bar_world 4 ''padding-right'' \<and>
      get_attr (ScrollBar_reset (\<lambda>_. None) (ScrollBar_hide bar_world)) 4 (data_bs ''padding-right'') = None"
    by (rule scrollbar_roundtrip[OF bar_tree])
      (auto simp: nothing_saved_def bar_attr plain_styles_def bar_style bar_spans p)
  then show ?thesis by (simp add: bar_style)
qed

lemma badge_same: "descendants badge_world n = descendants bar_world n" "fixed_content badge_world = fixed_content bar_world"
  "get_attr badge_world n a = get_attr bar_world n a" "get_style badge_world n q = get_style bar_world n q"
  by (simp_all add: badge_world_def descendants_def fixed_content_def query_all_def dom_obs_defs)

lemma scrollbar_skipped_loses_padding_witness:
  "get_style badge_world 4 ''padding-right'' = ''5px'' \<and>
   get_style (ScrollBar_reset (\<lambda>_. None) (ScrollBar_hide badge_world)) 4 ''padding-right'' = []"
proof -
  have "narrow badge_world 4"
    by (simp add: narrow_def badge_world_def blank_browser_def documentElement_def)
  then have "get_style (ScrollBar_hide badge_world) 4 ''padding-right'' = get_style badge_world 4 ''padding-right'' \<and>
      get_style (ScrollBar_reset (\<lambda>_. None) (ScrollBar_hide badge_world)) 4 ''padding-right'' = []"
    using bar_tree by (intro scrollbar_skipped_loses_padding)
      (simp_all add: badge_same nothing_saved_def bar_attr bar_fixed)
  then show ?thesis by (simp add: badge_same bar_style)
qed

section \<open>The focus stays in the trap\<close>

text \<open>Parents and children of the page agree, and no node is deeper than the number of nodes.\<close>

definition tree_ok :: "'cb world \<Rightarrow> bool" where
  "tree_ok w \<longleftrightarrow> (\<forall>n. \<forall>m \<in> set (childNodes (page w n)). parentNode (page w m) = Some n)"

lemma ancestry_mono: "x \<in> set (ancestry k p n) \<Longrightarrow> k \<le> l \<Longrightarrow> x \<in> set (ancestry l p n)"
proof (induction k arbitrary: l n)
  case (Suc k)
  then obtain l' where l: "l = Suc l'" "k \<le> l'" by (cases l) auto
  from Suc.prems(1) show ?case
    using Suc.IH[OF _ l(2)] l(1) by (auto split: option.splits)
qed simp

lemma ancestry_parent: "parentNode (p m) = Some n \<Longrightarrow> x \<in> set (ancestry k p n) \<Longrightarrow> x \<in> set (ancestry (Suc k) p m)"
  by simp

lemma ancestry_trans:
  "x \<in> set (ancestry j p m) \<Longrightarrow> m \<in> set (ancestry k p n) \<Longrightarrow> x \<in> set (ancestry (j + k) p n)"
proof (induction k arbitrary: n)
  case (Suc k)
  show ?case
  proof (cases "m = n")
    case True
    then show ?thesis using Suc.prems(1) ancestry_mono[of x j p m "j + Suc k"] by simp
  next
    case False
    then obtain q where q: "parentNode (p n) = Some q" "m \<in> set (ancestry k p q)"
      using Suc.prems(2) by (cases "parentNode (p n)") auto
    then show ?thesis using Suc.IH[OF Suc.prems(1) q(2)] by simp
  qed
qed simp

lemma subtree_ancestry:
  assumes "\<And>n m. m \<in> set (childNodes (p n)) \<Longrightarrow> parentNode (p m) = Some n"
  shows "m \<in> set (subtree k p n) \<Longrightarrow> n \<in> set (ancestry k p m)"
proof (induction k arbitrary: n)
  case (Suc k)
  show ?case
  proof (cases "m = n")
    case False
    then obtain c where c: "c \<in> set (childNodes (p n))" "m \<in> set (subtree k p c)"
      using Suc.prems by auto
    have "n \<in> set (ancestry 1 p c)" using assms[OF c(1)] by simp
    from ancestry_trans [OF this Suc.IH [OF c(2)]] show ?thesis by simp
  qed simp
qed simp

lemma descendant_contained:
  assumes "tree_ok w" and "m \<in> set (descendants w n)"
  shows "node_contains w n m"
proof -
  have "m \<in> set (subtree (nodeCount w) (page w) n)"
    using assms(2) unfolding descendants_def by (rule list.set_sel(2)[rotated])
      (cases "nodeCount w", auto)
  then show ?thesis
    using assms(1) subtree_ancestry[of "page w"]
    by (simp add: node_contains_def inclusive_ancestors_def tree_ok_def)
qed

text \<open>
  How the browser delivers the focus: the element has it, and the document is told by \<open>focusin\<close> when the
  trap listens there. Whether the trap listens is what activating and deactivating it leave of the listeners.\<close>

definition focus_arrives :: "node \<Rightarrow> focustrap \<times> 'cb world \<Rightarrow> focustrap \<times> 'cb world" where
  "focus_arrives target s =
    (let w = (snd s)\<lparr>activeElement := Some target\<rparr> in
     (fst s, if (document_node, ''focusin.bs.focustrap'') \<in> set (listeners w)
             then FocusTrap_handleFocusin target (fst s) w else w))"

definition trap_choice :: "focustrap \<Rightarrow> 'cb world \<Rightarrow> node" where
  "trap_choice f w =
    (let elements = focusableChildren w (ft_trapElement f) in
     if elements = [] then ft_trapElement f
     else if ft_lastTabNavDirection f = Some TAB_NAV_BACKWARD then last elements else hd elements)"

lemma handleFocusin_cases:
  "FocusTrap_handleFocusin target f w =
    (if target = document_node \<or> node_contains w (ft_trapElement f) target then w else focus_on (trap_choice f w) w)"
  by (auto simp: FocusTrap_handleFocusin_def trap_choice_def Let_def)

lemma trap_choice_inside:
  assumes "tree_ok w"
  shows "node_contains w (ft_trapElement f) (trap_choice f w)"
proof -
  have "node_contains w (ft_trapElement f) n" if "n \<in> set (focusableChildren w (ft_trapElement f))" for n
    using that descendant_contained[OF assms] by (simp add: focusableChildren_def query_all_def)
  then show ?thesis by (simp add: trap_choice_def Let_def)
qed

lemma choice_of_page:
  assumes "page v = page w" "nodeCount v = nodeCount w" "env v = env w"
  shows "trap_choice f v = trap_choice f w" and "node_contains v a b = node_contains w a b"
proof -
  have "focusable v = focusable w" "isDisabled v = isDisabled w" "isVisible v = isVisible w"
    by (rule ext, simp add: focusable_def isDisabled_def isVisible_def closest_def has_attr_def get_attr_def
        has_class_def inclusive_ancestors_def get_style_def assms cong: option.case_cong)+
  then show "trap_choice f v = trap_choice f w"
    by (simp add: trap_choice_def focusableChildren_def query_all_def descendants_def assms)
  show "node_contains v a b = node_contains w a b" by (simp add: node_contains_def inclusive_ancestors_def assms)
qed

lemma activate_listens:
  assumes "\<not> ft_isActive (fst s)"
  shows "(document_node, ''focusin.bs.focustrap'') \<in> set (listeners (snd (FocusTrap_activate s)))"
    and "page (snd (FocusTrap_activate s)) = page (snd s)" and "nodeCount (snd (FocusTrap_activate s)) = nodeCount (snd s)"
    and "env (snd (FocusTrap_activate s)) = env (snd s)"
    and "fst (FocusTrap_activate s) = (fst s)\<lparr>ft_isActive := True\<rparr>"
  using assms by (simp_all add: FocusTrap_activate_def focus_on_def listen_def unlisten_ns_def Let_def)

lemma deactivate_silent:
  assumes "ft_isActive (fst s)"
  shows "(document_node, ''focusin.bs.focustrap'') \<notin> set (listeners (snd (FocusTrap_deactivate s)))"
  using assms by (simp add: FocusTrap_deactivate_def unlisten_ns_def)

text \<open>
  C28: an active focus trap draws the focus back. After the trap is activated, an element inside that receives the focus keeps
  it. When the focus arrives outside, other than at the document itself, the trap chooses an element of its own, the last
  focusable one when the user moved backwards, otherwise the first, and itself when there is none; that
  element then has the focus if it is one the browser lets take it, and only otherwise does the focus stay where it arrived. The page is
  not changed. After the trap is deactivated the focus stays where it arrives.\<close>

theorem focus_stays_trapped:
  assumes "tree_ok (snd s0)" and "target \<noteq> document_node" and "\<not> ft_isActive (fst s0)"
  defines "s \<equiv> FocusTrap_activate s0"
  defines "w' \<equiv> snd (focus_arrives target s)" and "trap \<equiv> ft_trapElement (fst s0)"
  defines "elements \<equiv> focusableChildren (snd s0) trap"
  defines "chosen \<equiv> (if elements = [] then trap
     else if ft_lastTabNavDirection (fst s0) = Some TAB_NAV_BACKWARD then last elements else hd elements)"
  shows "(if node_contains (snd s0) trap target then activeElement w' = Some target
     else node_contains (snd s0) trap chosen \<and>
       activeElement w' = Some (if canFocus (env (snd s0)) (page (snd s0)) chosen then chosen else target)) \<and>
    page w' = page (snd s0) \<and>
    activeElement (snd (focus_arrives target (FocusTrap_deactivate s))) = Some target"
proof -
  note on = activate_listens[OF assms(3), folded s_def]
  let ?v = "(snd s)\<lparr>activeElement := Some target\<rparr>"
  have c: "trap_choice (fst s) ?v = chosen"
    using choice_of_page(1)[of ?v "snd s0" "fst s"] on
    by (simp add: trap_choice_def chosen_def elements_def trap_def Let_def)
  have t: "ft_trapElement (fst s) = trap" using on by (simp add: trap_def)
  have "w' = FocusTrap_handleFocusin target (fst s) ?v" using on by (simp add: w'_def focus_arrives_def)
  then have w': "w' = (if node_contains (snd s0) trap target then ?v else focus_on chosen ?v)"
    using choice_of_page(2)[of ?v "snd s0"] on(2-4) assms(2) by (simp only: handleFocusin_cases c t) simp
  have "node_contains (snd s0) trap chosen"
    using trap_choice_inside[OF assms(1), of "fst s0"] unfolding trap_choice_def chosen_def elements_def trap_def Let_def .
  moreover have "activeElement (snd (focus_arrives target (FocusTrap_deactivate s))) = Some target"
    using deactivate_silent[of s] on by (simp add: focus_arrives_def)
  ultimately show ?thesis using on by (auto simp: w' focus_on_def)
qed

text \<open>A trap with a button inside and a button outside.\<close>

definition trap_page :: page where
  "trap_page = (\<lambda>_. plain_node ''DIV'' None [])(documentElement := plain_node ''HTML'' None [document_body],
    document_body := plain_node ''BODY'' (Some documentElement) [4, 6],
    4 := plain_node ''DIV'' (Some document_body) [5],
    5 := plain_node ''BUTTON'' (Some 4) [], 6 := plain_node ''BUTTON'' (Some document_body) [])"

definition trap_world :: "unit world" where
  "trap_world = (blank_world trap_page 7)\<lparr>env := blank_browser\<lparr>computedStyle := (\<lambda>_ _ _. ''visible'')\<rparr>\<rparr>"

lemma focus_stays_trapped_witness:
  "activeElement (snd (focus_arrives 6 (FocusTrap_activate (FocusTrap_new 4, trap_world)))) = Some 5"
proof -
  let ?w = trap_world
  note page_defs = trap_world_def blank_world_def trap_page_def plain_node_def document_body_def documentElement_def
  have t: "tree_ok ?w" by (auto simp: tree_ok_def page_defs)
  have c: "\<not> node_contains ?w 4 6" by (simp add: node_contains_def inclusive_ancestors_def page_defs numeral_eq_Suc)
  have "descendants ?w 4 = [5]" by (simp add: descendants_def page_defs numeral_eq_Suc)
  moreover have "focusable ?w 5" "\<not> isDisabled ?w (Some 5)" "isVisible ?w (Some 5)" "canFocus (env ?w) (page ?w) 5"
    by (simp_all add: focusable_def isDisabled_def isVisible_def closest_def inclusive_ancestors_def has_attr_def get_attr_def
        has_class_def page_defs blank_browser_def document_node_def window_node_def numeral_eq_Suc)
  ultimately have f: "focusableChildren ?w 4 = [5]" "canFocus (env ?w) (page ?w) 5"
    by (simp_all add: focusableChildren_def query_all_def)
  have "(6::node) \<noteq> document_node" by (simp add: document_node_def)
  moreover have "\<not> ft_isActive (FocusTrap_new 4)" "ft_trapElement (FocusTrap_new 4) = 4" by (simp_all add: FocusTrap_new_def)
  ultimately show ?thesis
    using focus_stays_trapped [of "(FocusTrap_new 4, ?w)" 6] t c f by simp
qed

end
