(* ===== verification/BsModal.thy ===== *)
theory BsModal
  imports BsOverlay
begin

text \<open>
  The modal plugin of Bootstrap. Modals share the body, its scroll bar and the events of the
  page, so the state is the instances of all elements and the togglers that wait to get the
  focus back, together with the world. A callback that waits for a transition names its modal.
  Where the code throws, the state is the one at that point. The focus restorers of a toggler
  see \<open>defaultPrevented\<close> as it is after all listeners ran. The constructor throws before anything is
  stored when an option has not its declared type. \<open>dispose\<close> also takes the restorers that wait for
  events of the modal; it is a step while no callback of the modal is queued, since such a callback
  would run on the fields that \<open>dispose\<close> has cleared.
\<close>

section \<open>State\<close>

record modal =
  md_dialog :: "node option"
  md_backdrop :: backdrop
  md_focustrap :: focustrap
  md_isShown :: bool
  md_isTransitioning :: bool
  md_cfg_backdrop :: jsval
  md_cfg_focus :: bool
  md_cfg_keyboard :: bool
  md_armed :: "node list"

record modals =
  md_of :: "node \<Rightarrow> modal option"
  md_onShow :: "(node \<times> node) list"
  md_onHidden :: "(node \<times> node) list"

datatype modal_cb =
    ModalBackdropShown node
  | ModalShown node
  | ModalHide node
  | ModalBackdropHidden node
  | ModalStaticRemove node string
  | ModalStaticRestore node string

type_synonym modal_state = "modals \<times> modal_cb world"

definition Modal_Default :: object where
  "Modal_Default = [(''backdrop'', JBool True), (''focus'', JBool True), (''keyboard'', JBool True)]"

definition Modal_DefaultType :: "(string \<times> string) list" where
  "Modal_DefaultType = [(''backdrop'', ''(boolean|string)''), (''focus'', ''boolean''), (''keyboard'', ''boolean'')]"

definition set_modal :: "node \<Rightarrow> modal \<Rightarrow> modal_state \<Rightarrow> modal_state" where
  "set_modal n m s = ((fst s)\<lparr>md_of := (md_of (fst s))(n := Some m)\<rparr>, snd s)"

definition in_world :: "('cb world \<Rightarrow> 'cb world) \<Rightarrow> 'i \<times> 'cb world \<Rightarrow> 'i \<times> 'cb world" where
  "in_world f s = (fst s, f (snd s))"

definition Modal_isAnimated :: "'cb world \<Rightarrow> node \<Rightarrow> bool" where
  "Modal_isAnimated w n = has_class w n ''fade''"

section \<open>Creation\<close>

definition Modal_initializeBackDrop :: "jsval \<Rightarrow> node \<Rightarrow> 'cb world \<Rightarrow> backdrop" where
  "Modal_initializeBackDrop cfg n w =
    Backdrop_new ''modal-backdrop'' (truthy cfg) (Modal_isAnimated w n) document_body False"

definition Modal_addEventListeners :: "node \<Rightarrow> 'cb world \<Rightarrow> 'cb world" where
  "Modal_addEventListeners n w = listen n ''mousedown.dismiss.bs.modal''
    (listen window_node ''resize.bs.modal'' (listen n ''keydown.dismiss.bs.modal'' w))"

definition Modal_new :: "(string \<Rightarrow> jsval option) \<Rightarrow> node \<Rightarrow> jsval \<Rightarrow> modal_state \<Rightarrow> modal_state" where
  "Modal_new parseJson n config s =
    (let w = snd s in
     case getConfig parseJson w Modal_Default Modal_DefaultType (\<lambda>c. c) config (Some n) of
       Inl e \<Rightarrow> s
     | Inr cfg \<Rightarrow>
     let m = \<lparr>md_dialog = query_one (\<lambda>d. has_class w d ''modal-dialog'') w n,
           md_backdrop = Modal_initializeBackDrop (lookup cfg ''backdrop'') n w,
           md_focustrap = FocusTrap_new n, md_isShown = False, md_isTransitioning = False,
           md_cfg_backdrop = lookup cfg ''backdrop'', md_cfg_focus = truthy (lookup cfg ''focus''),
           md_cfg_keyboard = truthy (lookup cfg ''keyboard''), md_armed = []\<rparr> in
     in_world (Modal_addEventListeners n) (set_modal n m s))"

definition Modal_getOrCreate :: "(string \<Rightarrow> jsval option) \<Rightarrow> node \<Rightarrow> modal_state \<Rightarrow> modal_state" where
  "Modal_getOrCreate parseJson n s =
    (case md_of (fst s) n of Some m \<Rightarrow> s | None \<Rightarrow> Modal_new parseJson n (JObj []) s)"

section \<open>The dialog and the page\<close>

definition Modal_adjustDialog :: "node \<Rightarrow> 'cb world \<Rightarrow> 'cb world" where
  "Modal_adjustDialog n w =
    (let isModalOverflowing = (scrollHeight (env w) (page w) n > clientHeight (env w) (page w) documentElement);
         scrollbarWidth = scrollbar_getWidth w; isBodyOverflowing = (scrollbarWidth > 0);
         width = numStr scrollbarWidth @ ''px'';
         w1 = (if isBodyOverflowing \<and> \<not> isModalOverflowing
               then set_style (if isRTL w then ''padding-left'' else ''padding-right'') width n w else w) in
     if \<not> isBodyOverflowing \<and> isModalOverflowing
     then set_style (if isRTL w then ''padding-right'' else ''padding-left'') width n w1 else w1)"

definition Modal_resetAdjustments :: "node \<Rightarrow> 'cb world \<Rightarrow> 'cb world" where
  "Modal_resetAdjustments n w = set_style ''padding-right'' [] n (set_style ''padding-left'' [] n w)"

text \<open>The listeners of the data API: those that wait for \<open>show\<close> of a modal start to wait for its
  \<open>hidden\<close> when it was not prevented, those that wait for \<open>hidden\<close> take the focus back.\<close>

definition Modal_trigger_show :: "node \<Rightarrow> modal_state \<Rightarrow> bool \<times> modal_state" where
  "Modal_trigger_show n s =
    (let (prevented, w) = trigger n ''show.bs.modal'' (snd s); d = fst s in
     (prevented, d\<lparr>md_onShow := filter (\<lambda>(t, _). t \<noteq> n) (md_onShow d),
       md_onHidden := md_onHidden d @ (if prevented then [] else filter (\<lambda>(t, _). t = n) (md_onShow d))\<rparr>, w))"

definition Modal_announce_hidden :: "node \<Rightarrow> modal_state \<Rightarrow> modal_state" where
  "Modal_announce_hidden n s =
    (let d = fst s in
     (d\<lparr>md_onHidden := filter (\<lambda>(t, _). t \<noteq> n) (md_onHidden d)\<rparr>,
      fold (\<lambda>(_, toggler) w. if isVisible w (Some toggler) then focus_on toggler w else w)
        (filter (\<lambda>(t, _). t = n) (md_onHidden d)) (announce n ''hidden.bs.modal'' (snd s))))"

section \<open>Show\<close>

text \<open>\<open>transitionComplete\<close> of \<open>_showElement\<close>.\<close>

definition Modal_shown :: "node \<Rightarrow> modal_state \<Rightarrow> modal_state" where
  "Modal_shown n s = (case md_of (fst s) n of None \<Rightarrow> s
    | Some m \<Rightarrow>
        let (f, w) = (if md_cfg_focus m then FocusTrap_activate (md_focustrap m, snd s) else (md_focustrap m, snd s)) in
        in_world (announce n ''shown.bs.modal'')
          (set_modal n (m\<lparr>md_focustrap := f, md_isTransitioning := False\<rparr>) (fst s, w)))"

definition Modal_display :: "node \<Rightarrow> 'cb world \<Rightarrow> 'cb world" where
  "Modal_display n w =
    (let w1 = (if node_contains w document_body n then w else append_node n document_body w) in
     set_attr ''role'' ''dialog'' n (set_attr ''aria-modal'' ''true'' n
       (remove_attr ''aria-hidden'' n (set_style ''display'' ''block'' n w1))))"

definition Modal_showElement :: "node \<Rightarrow> modal_state \<Rightarrow> modal_state" where
  "Modal_showElement n s = (case md_of (fst s) n of None \<Rightarrow> s
    | Some m \<Rightarrow>
        let w = Modal_display n (snd s) in
        (case md_dialog m of
           None \<Rightarrow> (fst s, w)
         | Some dialog \<Rightarrow>
             executeAfterTransition (\<lambda>_. Modal_shown n) (ModalShown n) dialog (Modal_isAnimated w n)
               (fst s, add_class ''show'' n w)))"

text \<open>What follows a call of the backdrop: nothing to wait for when it is not visible.\<close>

definition emulateAnimation ::
    "(node \<times> bool) option \<Rightarrow> ('i \<times> 'cb world \<Rightarrow> 'i \<times> 'cb world) \<Rightarrow> 'cb
      \<Rightarrow> 'i \<times> 'cb world \<Rightarrow> 'i \<times> 'cb world" where
  "emulateAnimation r f callback s = (case r of
      None \<Rightarrow> f s | Some (n, animated) \<Rightarrow> executeAfterTransition (\<lambda>_. f) callback n animated s)"

definition Modal_show :: "node \<Rightarrow> modal_state \<Rightarrow> modal_state" where
  "Modal_show n s = (case md_of (fst s) n of None \<Rightarrow> s
    | Some m \<Rightarrow>
        if md_isShown m \<or> md_isTransitioning m then s
        else let (prevented, s1) = Modal_trigger_show n s in
          if prevented then s1
          else
            let w = Modal_adjustDialog n (add_class ''modal-open'' document_body (ScrollBar_hide (snd s1)));
                (r, b, w') = Backdrop_show (md_backdrop m, w) in
            emulateAnimation r (Modal_showElement n) (ModalBackdropShown n)
              (set_modal n (m\<lparr>md_isShown := True, md_isTransitioning := True, md_backdrop := b\<rparr>) (fst s1, w')))"

section \<open>Hide\<close>

text \<open>The callback given to \<open>_backdrop.hide\<close>, and the one the backdrop waits with.\<close>

definition Modal_hidden :: "(string \<Rightarrow> jsval option) \<Rightarrow> node \<Rightarrow> modal_state \<Rightarrow> modal_state" where
  "Modal_hidden parseJson n s = Modal_announce_hidden n
    (in_world (\<lambda>w. ScrollBar_reset parseJson (Modal_resetAdjustments n (remove_class ''modal-open'' document_body w))) s)"

definition Modal_backdropHidden :: "(string \<Rightarrow> jsval option) \<Rightarrow> node \<Rightarrow> modal_state \<Rightarrow> modal_state" where
  "Modal_backdropHidden parseJson n s = (case md_of (fst s) n of None \<Rightarrow> s
    | Some m \<Rightarrow> let (b, w) = Backdrop_dispose (md_backdrop m, snd s) in
        Modal_hidden parseJson n (set_modal n (m\<lparr>md_backdrop := b\<rparr>) (fst s, w)))"

definition Modal_undisplay :: "node \<Rightarrow> 'cb world \<Rightarrow> 'cb world" where
  "Modal_undisplay n w = remove_attr ''role'' n (remove_attr ''aria-modal'' n
    (set_attr ''aria-hidden'' ''true'' n (set_style ''display'' ''none'' n w)))"

definition Modal_hideModal :: "(string \<Rightarrow> jsval option) \<Rightarrow> node \<Rightarrow> modal_state \<Rightarrow> modal_state" where
  "Modal_hideModal parseJson n s = (case md_of (fst s) n of None \<Rightarrow> s
    | Some m \<Rightarrow>
        let (r, b, w) = Backdrop_hide (md_backdrop m, Modal_undisplay n (snd s));
            s' = set_modal n (m\<lparr>md_isTransitioning := False, md_backdrop := b\<rparr>) (fst s, w) in
        (case r of
           None \<Rightarrow> Modal_hidden parseJson n s'
         | Some (e, animated) \<Rightarrow> executeAfterTransition (\<lambda>_. Modal_backdropHidden parseJson n)
             (ModalBackdropHidden n) e animated s'))"

definition Modal_hide :: "(string \<Rightarrow> jsval option) \<Rightarrow> node \<Rightarrow> modal_state \<Rightarrow> modal_state" where
  "Modal_hide parseJson n s = (case md_of (fst s) n of None \<Rightarrow> s
    | Some m \<Rightarrow>
        if \<not> md_isShown m \<or> md_isTransitioning m then s
        else let (prevented, w) = trigger n ''hide.bs.modal'' (snd s) in
          if prevented then (fst s, w)
          else
            let (f, w1) = FocusTrap_deactivate (md_focustrap m, w);
                w2 = remove_class ''show'' n w1 in
            executeAfterTransition (\<lambda>_. Modal_hideModal parseJson n) (ModalHide n) n (Modal_isAnimated w2 n)
              (set_modal n (m\<lparr>md_isShown := False, md_isTransitioning := True, md_focustrap := f\<rparr>) (fst s, w2)))"

definition Modal_toggle :: "(string \<Rightarrow> jsval option) \<Rightarrow> node \<Rightarrow> modal_state \<Rightarrow> modal_state" where
  "Modal_toggle parseJson n s = (case md_of (fst s) n of None \<Rightarrow> s
    | Some m \<Rightarrow> if md_isShown m then Modal_hide parseJson n s else Modal_show n s)"

section \<open>A static backdrop\<close>

definition Modal_staticRestore :: "node \<Rightarrow> string \<Rightarrow> modal_state \<Rightarrow> modal_state" where
  "Modal_staticRestore n initialOverflowY s = in_world (set_style ''overflow-y'' initialOverflowY n) s"

definition Modal_staticRemove :: "node \<Rightarrow> string \<Rightarrow> modal_state \<Rightarrow> modal_state" where
  "Modal_staticRemove n initialOverflowY s = (case md_of (fst s) n of None \<Rightarrow> s
    | Some m \<Rightarrow>
        let s' = in_world (remove_class ''modal-static'' n) s in
        (case md_dialog m of None \<Rightarrow> s'
         | Some dialog \<Rightarrow> executeAfterTransition (\<lambda>_. Modal_staticRestore n initialOverflowY)
             (ModalStaticRestore n initialOverflowY) dialog True s'))"

definition Modal_triggerBackdropTransition :: "node \<Rightarrow> modal_state \<Rightarrow> modal_state" where
  "Modal_triggerBackdropTransition n s = (case md_of (fst s) n of None \<Rightarrow> s
    | Some m \<Rightarrow>
        let (prevented, w) = trigger n ''hidePrevented.bs.modal'' (snd s) in
        if prevented then (fst s, w)
        else
          let isModalOverflowing = (scrollHeight (env w) (page w) n > clientHeight (env w) (page w) documentElement);
              initialOverflowY = get_style w n ''overflow-y'' in
          if initialOverflowY = ''hidden'' \<or> has_class w n ''modal-static'' then (fst s, w)
          else
            let w1 = (if \<not> isModalOverflowing then set_style ''overflow-y'' ''hidden'' n w else w);
                w2 = add_class ''modal-static'' n w1 in
            (case md_dialog m of None \<Rightarrow> (fst s, w2)
             | Some dialog \<Rightarrow> in_world (focus_on n)
                 (executeAfterTransition (\<lambda>_. Modal_staticRemove n initialOverflowY)
                   (ModalStaticRemove n initialOverflowY) dialog True (fst s, w2))))"

section \<open>Listeners\<close>

definition Modal_keydown :: "(string \<Rightarrow> jsval option) \<Rightarrow> node \<Rightarrow> string \<Rightarrow> modal_state \<Rightarrow> modal_state" where
  "Modal_keydown parseJson n key s = (case md_of (fst s) n of None \<Rightarrow> s
    | Some m \<Rightarrow>
        if key \<noteq> ''Escape'' then s
        else if md_cfg_keyboard m then Modal_hide parseJson n s
        else Modal_triggerBackdropTransition n s)"

definition Modal_resize :: "node \<Rightarrow> modal_state \<Rightarrow> modal_state" where
  "Modal_resize n s = (case md_of (fst s) n of None \<Rightarrow> s
    | Some m \<Rightarrow> if md_isShown m \<and> \<not> md_isTransitioning m then in_world (Modal_adjustDialog n) s else s)"

definition Modal_mousedown :: "node \<Rightarrow> node \<Rightarrow> modal_state \<Rightarrow> modal_state" where
  "Modal_mousedown n target s = (case md_of (fst s) n of None \<Rightarrow> s
    | Some m \<Rightarrow> set_modal n (m\<lparr>md_armed := md_armed m @ [target]\<rparr>) s)"

definition Modal_click_dismiss :: "(string \<Rightarrow> jsval option) \<Rightarrow> node \<Rightarrow> node \<Rightarrow> node \<Rightarrow> modal_state \<Rightarrow> modal_state" where
  "Modal_click_dismiss parseJson n target2 target s = (case md_of (fst s) n of None \<Rightarrow> s
    | Some m \<Rightarrow>
        if n \<noteq> target \<or> n \<noteq> target2 then s
        else if md_cfg_backdrop m = JStr ''static'' then Modal_triggerBackdropTransition n s
        else if truthy (md_cfg_backdrop m) then Modal_hide parseJson n s
        else s)"

definition Modal_click :: "(string \<Rightarrow> jsval option) \<Rightarrow> node \<Rightarrow> node \<Rightarrow> modal_state \<Rightarrow> modal_state" where
  "Modal_click parseJson n target2 s = (case md_of (fst s) n of None \<Rightarrow> s
    | Some m \<Rightarrow> fold (Modal_click_dismiss parseJson n target2) (md_armed m)
        (set_modal n (m\<lparr>md_armed := []\<rparr>) s))"

definition Modal_dispose :: "node \<Rightarrow> modal_state \<Rightarrow> modal_state" where
  "Modal_dispose n s = (case md_of (fst s) n of None \<Rightarrow> s
    | Some m \<Rightarrow>
        let w = unlisten_ns window_node ''.bs.modal'' (snd s);
            w1 = (case md_dialog m of Some d \<Rightarrow> unlisten_ns d ''.bs.modal'' w | None \<Rightarrow> w);
            (b, w2) = Backdrop_dispose (md_backdrop m, w1);
            (f, w3) = FocusTrap_deactivate (md_focustrap m, w2) in
        (\<lparr>md_of = (md_of (fst s))(n := None), md_onShow = filter (\<lambda>(t, _). t \<noteq> n) (md_onShow (fst s)),
           md_onHidden = filter (\<lambda>(t, _). t \<noteq> n) (md_onHidden (fst s))\<rparr>, unlisten_ns n ''.bs.modal'' w3))"

text \<open>The click of the data API on a toggle.\<close>

definition Modal_data_api_click :: "(string \<Rightarrow> jsval option) \<Rightarrow> node \<Rightarrow> modal_state \<Rightarrow> modal_state" where
  "Modal_data_api_click parseJson this s =
    (let target = getElementFromSelector (snd s) this;
         s1 = (case target of Some t \<Rightarrow> ((fst s)\<lparr>md_onShow := md_onShow (fst s) @ [(t, this)]\<rparr>, snd s) | None \<Rightarrow> s);
         alreadyOpen = query_one (\<lambda>n. has_class (snd s1) n ''modal'' \<and> has_class (snd s1) n ''show'')
           (snd s1) documentElement;
         open_then = (\<lambda>s2. case target of None \<Rightarrow> s2
           | Some t \<Rightarrow> Modal_toggle parseJson t (Modal_getOrCreate parseJson t s2)) in
     case alreadyOpen of
       None \<Rightarrow> open_then s1
     | Some a \<Rightarrow> if md_of (fst s1) a = None then s1 else open_then (Modal_hide parseJson a s1))"

definition modal_run :: "(string \<Rightarrow> jsval option) \<Rightarrow> modal_cb \<Rightarrow> modal_state \<Rightarrow> modal_state" where
  "modal_run parseJson c = (case c of
      ModalBackdropShown n \<Rightarrow> Modal_showElement n
    | ModalShown n \<Rightarrow> Modal_shown n
    | ModalHide n \<Rightarrow> Modal_hideModal parseJson n
    | ModalBackdropHidden n \<Rightarrow> Modal_backdropHidden parseJson n
    | ModalStaticRemove n oy \<Rightarrow> Modal_staticRemove n oy
    | ModalStaticRestore n oy \<Rightarrow> Modal_staticRestore n oy)"

definition Modal_ends :: "(string \<Rightarrow> jsval option) \<Rightarrow> node \<Rightarrow> modal_state \<Rightarrow> modal_state" where
  "Modal_ends parseJson n s = transition_end (modal_run parseJson) n s"

primrec cb_modal :: "modal_cb \<Rightarrow> node" where
  "cb_modal (ModalBackdropShown n) = n"
| "cb_modal (ModalShown n) = n"
| "cb_modal (ModalHide n) = n"
| "cb_modal (ModalBackdropHidden n) = n"
| "cb_modal (ModalStaticRemove n oy) = n"
| "cb_modal (ModalStaticRestore n oy) = n"

inductive modal_step :: "modal_state \<Rightarrow> modal_state \<Rightarrow> bool" where
  new: "md_of (fst s) n = None \<Longrightarrow> modal_step s (Modal_new pj n cfg s)"
| show_call: "modal_step s (Modal_show n s)"
| hide_call: "modal_step s (Modal_hide pj n s)"
| toggle_call: "modal_step s (Modal_toggle pj n s)"
| keydown: "modal_step s (Modal_keydown pj n key s)"
| resize: "modal_step s (Modal_resize n s)"
| mousedown: "modal_step s (Modal_mousedown n target s)"
| click: "modal_step s (Modal_click pj n target s)"
| data_api: "modal_step s (Modal_data_api_click pj this s)"
| dispose: "\<forall>(e, c) \<in> set (transitions (snd s)). cb_modal c \<noteq> n \<Longrightarrow> modal_step s (Modal_dispose n s)"
| ended: "modal_step s (Modal_ends pj n s)"

inductive modal_reachable :: "modal_state \<Rightarrow> bool" where
  start: "transitions w = [] \<Longrightarrow> modal_reachable (\<lparr>md_of = \<lambda>_. None, md_onShow = [], md_onHidden = []\<rparr>, w)"
| step: "modal_reachable s \<Longrightarrow> modal_step s s' \<Longrightarrow> modal_reachable s'"

section \<open>A transition always completes\<close>

text \<open>What the invariant speaks of: the dialog and the flag of each modal, and how many
  callbacks that end a transition of it are queued.\<close>

definition mview :: "modals \<Rightarrow> node \<Rightarrow> (node option \<times> bool) option" where
  "mview d n = map_option (\<lambda>m. (md_dialog m, md_isTransitioning m)) (md_of d n)"

definition lifecycle :: "node \<Rightarrow> modal_cb \<Rightarrow> bool" where
  "lifecycle n c \<longleftrightarrow> c = ModalBackdropShown n \<or> c = ModalShown n \<or> c = ModalHide n"

definition pend_of :: "modal_cb list \<Rightarrow> node \<Rightarrow> nat" where
  "pend_of cs n = length (filter (lifecycle n) cs)"

definition pend :: "modal_cb world \<Rightarrow> node \<Rightarrow> nat" where
  "pend w = pend_of (map snd (transitions w))"

definition settle :: "bool \<Rightarrow> node \<Rightarrow> (node \<Rightarrow> (node option \<times> bool) option) \<Rightarrow> node \<Rightarrow> (node option \<times> bool) option" where
  "settle b n v = v(n := map_option (\<lambda>(d, t). (d, b)) (v n))"

fun settled_at :: "(node option \<times> bool) option \<Rightarrow> nat \<Rightarrow> bool" where
  "settled_at None k \<longleftrightarrow> k = 0"
| "settled_at (Some (d, t)) k \<longleftrightarrow> (d \<noteq> None \<longrightarrow> k = (if t then 1 else 0))"

definition balanced :: "(node \<Rightarrow> (node option \<times> bool) option) \<Rightarrow> (node \<Rightarrow> nat) \<Rightarrow> bool" where
  "balanced v p \<longleftrightarrow> (\<forall>n. settled_at (v n) (p n))"

lemma settle_settle [simp]: "settle b n (settle c n v) = settle b n v"
  by (auto simp: settle_def fun_eq_iff option.map_comp comp_def case_prod_unfold)

lemma pend_of_simps [simp]: "pend_of [] n = 0"
  "pend_of (c # cs) n = (if lifecycle n c then Suc (pend_of cs n) else pend_of cs n)"
  "pend_of (cs @ ds) n = pend_of cs n + pend_of ds n"
  by (simp_all add: pend_of_def)

lemma lifecycle_simps [simp]:
  "lifecycle n (ModalBackdropShown m) = (m = n)" "lifecycle n (ModalShown m) = (m = n)"
  "lifecycle n (ModalHide m) = (m = n)" "\<not> lifecycle n (ModalBackdropHidden m)"
  "\<not> lifecycle n (ModalStaticRemove m oy)" "\<not> lifecycle n (ModalStaticRestore m oy)"
  by (auto simp: lifecycle_def)

lemma pend_cong: "transitions v = transitions w \<Longrightarrow> pend v = pend w"
  by (simp add: pend_def)

lemma pend_queue: "pend (w\<lparr>transitions := transitions w @ [(e, c)]\<rparr>) n = pend w n + (if lifecycle n c then 1 else 0)"
  by (simp add: pend_def)

text \<open>The helpers of the overlays leave the queue alone.\<close>

lemma Backdrop_transitions [simp]:
  "transitions (snd (snd (Backdrop_getElement s))) = transitions (snd s)"
  "transitions (snd (Backdrop_append s)) = transitions (snd s)"
  "transitions (snd (Backdrop_dispose s)) = transitions (snd s)"
  "transitions (snd (snd (Backdrop_show s))) = transitions (snd s)"
  "transitions (snd (snd (Backdrop_hide s))) = transitions (snd s)"
proof -
  show g: "transitions (snd (snd (Backdrop_getElement s))) = transitions (snd s)" for s :: "backdrop \<times> 'a world"
    by (simp add: Backdrop_getElement_def create_element_def Let_def split: option.splits)
  show a: "transitions (snd (Backdrop_append s)) = transitions (snd s)" for s :: "backdrop \<times> 'a world"
    using g[of s] by (cases "Backdrop_getElement s") (simp add: Backdrop_append_def)
  show "transitions (snd (Backdrop_dispose s)) = transitions (snd s)"
    by (simp add: Backdrop_dispose_def split: option.splits)
  show "transitions (snd (snd (Backdrop_show s))) = transitions (snd s)"
    using g[of "Backdrop_append s"] a[of s]
    by (cases "Backdrop_getElement (Backdrop_append s)") (simp add: Backdrop_show_def)
  show "transitions (snd (snd (Backdrop_hide s))) = transitions (snd s)"
    using g[of s] by (cases "Backdrop_getElement s") (simp add: Backdrop_hide_def)
qed

lemma FocusTrap_transitions [simp]:
  "transitions (snd (FocusTrap_activate s)) = transitions (snd s)"
  "transitions (snd (FocusTrap_deactivate s)) = transitions (snd s)"
  by (simp_all add: FocusTrap_activate_def FocusTrap_deactivate_def Let_def)

lemma ScrollBar_transitions [simp]:
  "transitions (ScrollBar_hide w) = transitions w" "transitions (ScrollBar_reset pj w) = transitions w"
  using ScrollBar_rest(1)[of w] ScrollBar_rest(2)[of w pj] by (simp_all add: same_rest_def)

lemma Modal_display_transitions [simp]: "transitions (Modal_display n w) = transitions w"
  by (simp add: Modal_display_def Let_def)

lemma Modal_adjust_transitions [simp]:
  "transitions (Modal_adjustDialog n w) = transitions w" "transitions (Modal_resetAdjustments n w) = transitions w"
  "transitions (Modal_undisplay n w) = transitions w" "transitions (Modal_addEventListeners n w) = transitions w"
  by (simp_all add: Modal_adjustDialog_def Modal_resetAdjustments_def Modal_undisplay_def
      Modal_addEventListeners_def Let_def)

lemma mview_set [simp]: "mview (fst (set_modal n m s)) = (mview (fst s))(n := Some (md_dialog m, md_isTransitioning m))"
  by (simp add: mview_def set_modal_def fun_eq_iff)

lemma set_modal_snd [simp]: "snd (set_modal n m s) = snd s"
  by (simp add: set_modal_def)

lemma in_world_simps [simp]: "fst (in_world f s) = fst s" "snd (in_world f s) = f (snd s)"
  by (simp_all add: in_world_def)

lemma mview_events [simp]: "mview (d\<lparr>md_onShow := a, md_onHidden := b\<rparr>) = mview d"
  "mview (d\<lparr>md_onHidden := b\<rparr>) = mview d" "mview (d\<lparr>md_onShow := a\<rparr>) = mview d"
  by (simp_all add: mview_def fun_eq_iff)

lemma mview_at: "mview d n = None \<longleftrightarrow> md_of d n = None"
  "md_of d n = Some m \<Longrightarrow> mview d n = Some (md_dialog m, md_isTransitioning m)"
  by (simp_all add: mview_def)

lemma settle_Some [simp]: "v n = Some (d, t) \<Longrightarrow> settle b n v = v(n := Some (d, b))"
  by (simp add: settle_def)

lemma settle_None: "v n = None \<Longrightarrow> settle b n v = v"
  by (simp add: settle_def fun_eq_iff)

lemma fun_upd_same: "v n = Some (d, t) \<Longrightarrow> v(n := Some (d, t)) = v"
  by (simp add: fun_eq_iff)

text \<open>The state of an operation: its view and its queue.\<close>

definition mstate :: "modal_state \<Rightarrow> (node \<Rightarrow> (node option \<times> bool) option) \<times> (node \<Rightarrow> nat)" where
  "mstate s = (mview (fst s), pend (snd s))"

lemma mstate_eqI: "mview (fst s) = mview (fst t) \<Longrightarrow> transitions (snd s) = transitions (snd t) \<Longrightarrow> mstate s = mstate t"
  using pend_cong[of "snd s" "snd t"] by (simp add: mstate_def)

lemma mstate_in_world [simp]: "transitions (f (snd s)) = transitions (snd s) \<Longrightarrow> mstate (in_world f s) = mstate s"
  unfolding mstate_def in_world_simps using pend_cong[of "f (snd s)" "snd s"] by simp

lemma mstate_set:
  assumes "md_of (fst s) n = Some m0" and "md_dialog m = md_dialog m0" and "transitions w = transitions (snd s)"
    and "mview d = mview (fst s)"
  shows "mstate (set_modal n m (d, w)) = (settle (md_isTransitioning m) n (mview (fst s)), pend (snd s))"
proof -
  have "mview (fst s) n = Some (md_dialog m0, md_isTransitioning m0)" using assms(1) by (rule mview_at(2))
  then show ?thesis using assms(2,4) pend_cong[OF assms(3)] by (simp add: mstate_def)
qed

lemma mstate_queue:
  "mstate (executeAfterTransition (\<lambda>_. f) c e True s) =
    (mview (fst s), \<lambda>n. pend (snd s) n + (if lifecycle n c then 1 else 0))"
proof -
  have "pend ((snd s)\<lparr>transitions := transitions (snd s) @ [(e, c)]\<rparr>) =
      (\<lambda>n. pend (snd s) n + (if lifecycle n c then 1 else 0))"
    by (rule ext) (rule pend_queue)
  then show ?thesis by (simp add: mstate_def)
qed

lemma Modal_trigger_show_state:
  "md_of (fst (snd (Modal_trigger_show n s))) = md_of (fst s)"
  "transitions (snd (snd (Modal_trigger_show n s))) = transitions (snd s)"
  by (simp_all add: Modal_trigger_show_def trigger_eq Let_def)

lemma fold_focus_transitions:
  "transitions (fold (\<lambda>(_, toggler) w. if isVisible w (Some toggler) then focus_on toggler w else w) xs w) = transitions w"
  by (induction xs arbitrary: w) auto

lemma Modal_announce_hidden_state [simp]: "mstate (Modal_announce_hidden n s) = mstate s"
  by (rule mstate_eqI) (simp_all add: Modal_announce_hidden_def Let_def fold_focus_transitions)

lemma Modal_hidden_state [simp]: "mstate (Modal_hidden pj n s) = mstate s"
  by (simp add: Modal_hidden_def)

lemma Modal_backdropHidden_state [simp]: "mstate (Modal_backdropHidden pj n s) = mstate s"
proof (cases "md_of (fst s) n")
  case (Some m)
  obtain b w where d: "Backdrop_dispose (md_backdrop m, snd s) = (b, w)" by fastforce
  then have "w = snd (Backdrop_dispose (md_backdrop m, snd s))" by simp
  then have "transitions w = transitions (snd s)" by simp
  then have "mstate (set_modal n (m\<lparr>md_backdrop := b\<rparr>) (fst s, w)) = mstate s"
    using Some by (intro mstate_eqI) (simp_all add: fun_upd_same mview_at)
  then show ?thesis using Some d by (simp add: Modal_backdropHidden_def)
qed (simp add: Modal_backdropHidden_def)

lemma Modal_shown_state: "mstate (Modal_shown n s) = (settle False n (mview (fst s)), pend (snd s))"
proof (cases "md_of (fst s) n")
  case (Some m)
  obtain f w where d: "(if md_cfg_focus m then FocusTrap_activate (md_focustrap m, snd s) else (md_focustrap m, snd s)) = (f, w)"
    by fastforce
  then have "w = snd (if md_cfg_focus m then FocusTrap_activate (md_focustrap m, snd s) else (md_focustrap m, snd s))"
    by simp
  then have "transitions w = transitions (snd s)" by simp
  then show ?thesis using Some d
    by (simp add: Modal_shown_def mstate_set[of s n m])
next
  case None
  then show ?thesis by (simp add: Modal_shown_def mstate_def settle_None mview_at(1))
qed

lemma Modal_showElement_state:
  assumes "md_of (fst s) n = Some m" and "md_dialog m \<noteq> None"
  shows "mstate (Modal_showElement n s) = (settle False n (mview (fst s)), pend (snd s)) \<or>
    mstate (Modal_showElement n s) = (mview (fst s), (pend (snd s))(n := Suc (pend (snd s) n)))"
proof -
  obtain dialog where d: "md_dialog m = Some dialog" using assms(2) by blast
  let ?w = "Modal_display n (snd s)"
  let ?s = "(fst s, add_class ''show'' n ?w)"
  have p: "pend (add_class ''show'' n ?w) = pend (snd s)" by (rule pend_cong) simp
  have e: "Modal_showElement n s =
      executeAfterTransition (\<lambda>_. Modal_shown n) (ModalShown n) dialog (Modal_isAnimated ?w n) ?s"
    using assms(1) d by (simp add: Modal_showElement_def Let_def)
  show ?thesis
  proof (cases "Modal_isAnimated ?w n")
    case True
    then show ?thesis using e p by (simp add: mstate_queue fun_eq_iff del: executeAfterTransition_wait)
  next
    case False
    then show ?thesis using e p by (simp add: Modal_shown_state)
  qed
qed

text \<open>Every operation either keeps the view and the queue, or starts a transition together with
  the callback that ends it, or ends one.\<close>

definition moves :: "node \<Rightarrow> modal_state \<Rightarrow> modal_state \<Rightarrow> bool" where
  "moves n s s' \<longleftrightarrow> mstate s' = mstate s \<or>
    (\<exists>m. md_of (fst s) n = Some m \<and> \<not> md_isTransitioning m \<and>
      (md_dialog m = None \<and> mview (fst s') = settle True n (mview (fst s)) \<and> pend (snd s') = pend (snd s) \<or>
       mstate s' = (settle True n (mview (fst s)), (pend (snd s))(n := Suc (pend (snd s) n))) \<or>
       mstate s' = (settle False n (mview (fst s)), pend (snd s))))"

lemma Modal_hideModal_state: "mstate (Modal_hideModal pj n s) = (settle False n (mview (fst s)), pend (snd s))"
proof (cases "md_of (fst s) n")
  case (Some m)
  obtain r b w where d: "Backdrop_hide (md_backdrop m, Modal_undisplay n (snd s)) = (r, b, w)"
    by (metis prod_cases3)
  then have "w = snd (snd (Backdrop_hide (md_backdrop m, Modal_undisplay n (snd s))))" by simp
  then have w: "transitions w = transitions (snd s)" by simp
  define s' where "s' = set_modal n (m\<lparr>md_isTransitioning := False, md_backdrop := b\<rparr>) (fst s, w)"
  have s': "mstate s' = (settle False n (mview (fst s)), pend (snd s))"
    unfolding s'_def using Some w by (subst mstate_set[of s n m]) simp_all
  have e: "Modal_hideModal pj n s = (case r of
       None \<Rightarrow> Modal_hidden pj n s'
     | Some (e, animated) \<Rightarrow> executeAfterTransition (\<lambda>_. Modal_backdropHidden pj n)
         (ModalBackdropHidden n) e animated s')"
    unfolding Modal_hideModal_def Some option.case d Let_def prod.case s'_def by (rule refl)
  have q: "mstate (executeAfterTransition (\<lambda>_. Modal_backdropHidden pj n) (ModalBackdropHidden n) e a s') = mstate s'" for e a
    by (cases a) (simp_all add: mstate_queue mstate_def[of s'] del: executeAfterTransition_wait)
  show ?thesis using e q s' by (cases r) auto
next
  case None
  then show ?thesis by (simp add: Modal_hideModal_def mstate_def settle_None mview_at(1))
qed

lemma Modal_hide_moves: "moves n s (Modal_hide pj n s)"
proof (cases "md_of (fst s) n")
  case (Some m)
  define w where "w = announce n ''hide.bs.modal'' (snd s)"
  have w: "transitions w = transitions (snd s)" by (simp add: w_def)
  obtain f w1 where f: "FocusTrap_deactivate (md_focustrap m, w) = (f, w1)" by fastforce
  then have "w1 = snd (FocusTrap_deactivate (md_focustrap m, w))" by simp
  then have w1: "transitions w1 = transitions (snd s)" using w by simp
  define s' where "s' = set_modal n (m\<lparr>md_isShown := False, md_isTransitioning := True, md_focustrap := f\<rparr>)
    (fst s, remove_class ''show'' n w1)"
  have s': "mstate s' = (settle True n (mview (fst s)), pend (snd s))"
    unfolding s'_def using Some w1 by (subst mstate_set[of s n m]) simp_all
  consider "Modal_hide pj n s = s" | "Modal_hide pj n s = (fst s, w)"
    | (go) "\<not> md_isTransitioning m" "Modal_hide pj n s = executeAfterTransition (\<lambda>_. Modal_hideModal pj n)
        (ModalHide n) n (Modal_isAnimated (remove_class ''show'' n w1) n) s'"
  proof (cases "\<not> md_isShown m \<or> md_isTransitioning m")
    case False
    then have "Modal_hide pj n s = (if prevents (env (snd s)) (eventLog (snd s)) (n, ''hide.bs.modal'') then (fst s, w)
        else executeAfterTransition (\<lambda>_. Modal_hideModal pj n) (ModalHide n) n
          (Modal_isAnimated (remove_class ''show'' n w1) n) s')"
      unfolding Modal_hide_def Some option.case trigger_eq Let_def prod.case w_def[symmetric] f s'_def
      by (rule if_not_P)
    then show ?thesis using False that(2,3) by (auto split: if_splits)
  qed (use Some that(1) in \<open>simp add: Modal_hide_def\<close>)
  then show ?thesis
  proof cases
    case 2
    have "mstate (fst s, w) = mstate s" by (rule mstate_eqI) (simp_all add: w)
    then show ?thesis using 2 by (simp add: moves_def)
  next
    case go
    have "mstate (Modal_hide pj n s) = (settle True n (mview (fst s)), (pend (snd s))(n := Suc (pend (snd s) n)))
      \<or> mstate (Modal_hide pj n s) = (settle False n (mview (fst s)), pend (snd s))"
    proof (cases "Modal_isAnimated (remove_class ''show'' n w1) n")
      case True
      then have "Modal_hide pj n s = executeAfterTransition (\<lambda>_. Modal_hideModal pj n) (ModalHide n) n True s'"
        using go(2) by simp
      then have "mstate (Modal_hide pj n s) =
          (mview (fst s'), \<lambda>k. pend (snd s') k + (if lifecycle k (ModalHide n) then 1 else 0))"
        by (simp only: mstate_queue)
      then show ?thesis using s' by (auto simp: mstate_def[of s'] fun_eq_iff)
    next
      case False
      then show ?thesis using s' go(2) by (simp add: Modal_hideModal_state mstate_def[of s'])
    qed
    then show ?thesis using go(1) Some by (auto simp: moves_def)
  qed (simp add: moves_def)
qed (simp add: Modal_hide_def moves_def)

lemma moves_refl [simp]: "moves n s s"
  by (simp add: moves_def)

lemma moves_keep: "mstate s' = mstate s \<Longrightarrow> moves n s s'"
  by (simp add: moves_def)

lemma Modal_show_moves: "moves n s (Modal_show n s)"
proof (cases "md_of (fst s) n")
  case (Some m)
  obtain pr s1 where t: "Modal_trigger_show n s = (pr, s1)" by (cases "Modal_trigger_show n s")
  then have s1: "md_of (fst s1) = md_of (fst s)" "transitions (snd s1) = transitions (snd s)"
    using Modal_trigger_show_state[of n s] by simp_all
  then have v1: "mview (fst s1) = mview (fst s)" by (simp add: mview_def fun_eq_iff)
  define w where "w = Modal_adjustDialog n (add_class ''modal-open'' document_body (ScrollBar_hide (snd s1)))"
  obtain r b w' where d: "Backdrop_show (md_backdrop m, w) = (r, b, w')" by (metis prod_cases3)
  then have "w' = snd (snd (Backdrop_show (md_backdrop m, w)))" by simp
  then have w': "transitions w' = transitions (snd s)" using s1(2) by (simp add: w_def)
  define m' where "m' = m\<lparr>md_isShown := True, md_isTransitioning := True, md_backdrop := b\<rparr>"
  define s' where "s' = set_modal n m' (fst s1, w')"
  have s': "mstate s' = (settle True n (mview (fst s)), pend (snd s))"
    unfolding s'_def using Some w' v1 by (subst mstate_set[of s n m]) (simp_all add: m'_def)
  have m': "md_of (fst s') n = Some m'" by (simp add: s'_def set_modal_def)
  consider "Modal_show n s = s" | "Modal_show n s = s1"
    | (go) "\<not> md_isTransitioning m"
      "Modal_show n s = emulateAnimation r (Modal_showElement n) (ModalBackdropShown n) s'"
  proof (cases "md_isShown m \<or> md_isTransitioning m")
    case False
    then have "Modal_show n s = (if pr then s1
        else emulateAnimation r (Modal_showElement n) (ModalBackdropShown n) s')"
      unfolding Modal_show_def Some option.case t Let_def prod.case w_def[symmetric] d s'_def m'_def
      by (rule if_not_P)
    then show ?thesis using False that(2,3) by (auto split: if_splits)
  qed (use Some that(1) in \<open>simp add: Modal_show_def\<close>)
  then show ?thesis
  proof cases
    case 2
    have "mstate s1 = mstate s" by (rule mstate_eqI) (simp_all add: v1 s1)
    then show ?thesis using 2 by (simp add: moves_def)
  next
    case go
    have at: "mview (fst s') = settle True n (mview (fst s))" "pend (snd s') = pend (snd s)"
      using s' by (simp_all add: mstate_def)
    have elem: "moves n s (Modal_showElement n s')"
    proof (cases "md_dialog m")
      case None
      then have "Modal_showElement n s' = (fst s', Modal_display n (snd s'))"
        using m' by (simp add: Modal_showElement_def m'_def Let_def)
      moreover have "pend (Modal_display n (snd s')) = pend (snd s')" by (rule pend_cong) simp
      ultimately show ?thesis using None go(1) Some at by (simp add: moves_def)
    next
      case (Some dialog)
      then have "md_dialog m' \<noteq> None" by (simp add: m'_def)
      from Modal_showElement_state [OF m' this] show ?thesis
        using at go(1) \<open>md_of (fst s) n = Some m\<close> by (auto simp: moves_def)
    qed
    have wait: "moves n s (executeAfterTransition (\<lambda>_. f) (ModalBackdropShown n) e True s')" for f e
    proof -
      have "mstate (executeAfterTransition (\<lambda>_. f) (ModalBackdropShown n) e True s') =
          (mview (fst s'), \<lambda>k. pend (snd s') k + (if lifecycle k (ModalBackdropShown n) then 1 else 0))"
        by (rule mstate_queue)
      also have "\<dots> = (settle True n (mview (fst s)), (pend (snd s))(n := Suc (pend (snd s) n)))"
        using at by (simp add: fun_eq_iff)
      finally show ?thesis using go(1) Some by (simp add: moves_def)
    qed
    show ?thesis
    proof (cases r)
      case None
      then show ?thesis using go(2) elem by (simp add: emulateAnimation_def)
    next
      case (Some ea)
      obtain e a where "ea = (e, a)" by fastforce
      then show ?thesis using go(2) Some elem wait[of "Modal_showElement n" e]
        by (cases a) (simp_all add: emulateAnimation_def del: executeAfterTransition_wait)
    qed
  qed simp
qed (simp add: Modal_show_def)

lemma Modal_staticRemove_state: "mstate (Modal_staticRemove n oy s) = mstate s"
proof (cases "md_of (fst s) n")
  case (Some m)
  have q: "mstate (executeAfterTransition (\<lambda>_. f) (ModalStaticRestore n oy) e True t) = mstate t" for f e t
    unfolding mstate_queue by (simp add: mstate_def)
  show ?thesis
    using Some by (cases "md_dialog m") (simp_all add: Modal_staticRemove_def q del: executeAfterTransition_wait)
qed (simp add: Modal_staticRemove_def)

lemma Modal_triggerBackdropTransition_state: "mstate (Modal_triggerBackdropTransition n s) = mstate s"
proof (cases "md_of (fst s) n")
  case (Some m)
  define w where "w = announce n ''hidePrevented.bs.modal'' (snd s)"
  have keep: "mstate (fst s, v) = mstate s" if "transitions v = transitions w" for v
    by (rule mstate_eqI) (simp_all add: that w_def)
  have q: "mstate (executeAfterTransition (\<lambda>_. f) (ModalStaticRemove n oy) e True t) = mstate t" for f e t oy
    unfolding mstate_queue by (simp add: mstate_def)
  show ?thesis
    unfolding Modal_triggerBackdropTransition_def Some option.case trigger_eq Let_def prod.case w_def[symmetric]
    by (cases "md_dialog m") (simp_all add: keep q del: executeAfterTransition_wait)
qed (simp add: Modal_triggerBackdropTransition_def)

definition modal_inv :: "modal_cb list \<Rightarrow> modal_state \<Rightarrow> bool" where
  "modal_inv cs s \<longleftrightarrow> balanced (mview (fst s)) (\<lambda>n. pend_of cs n + pend (snd s) n)"

lemma modal_inv_mstate: "mstate s' = mstate s \<Longrightarrow> modal_inv cs s' = modal_inv cs s"
  by (simp add: modal_inv_def mstate_def)

lemma moves_inv:
  assumes "moves n s s'" and "modal_inv cs s"
  shows "modal_inv cs s'"
  using assms(1) unfolding moves_def
proof (elim disjE exE conjE)
  fix m assume m: "md_of (fst s) n = Some m" "\<not> md_isTransitioning m"
  note v = mview_at(2)[OF m(1)]
  have inv: "\<And>k. settled_at (mview (fst s) k) (pend_of cs k + pend (snd s) k)"
    using assms(2) by (simp add: modal_inv_def balanced_def)
  have n: "md_dialog m \<noteq> None \<Longrightarrow> pend_of cs n + pend (snd s) n = 0" using inv[of n] v m(2) by simp
  have other: "k \<noteq> n \<Longrightarrow> settle b n (mview (fst s)) k = mview (fst s) k" for k b
    by (simp add: settle_def)
  show "modal_inv cs s'" if "md_dialog m = None" "mview (fst s') = settle True n (mview (fst s))" "pend (snd s') = pend (snd s)"
    unfolding modal_inv_def balanced_def that(2,3)
  proof
    fix k show "settled_at (settle True n (mview (fst s)) k) (pend_of cs k + pend (snd s) k)"
      using inv[of k] other[of k] v that(1) by (cases "k = n") simp_all
  qed
  show "modal_inv cs s'" if "mstate s' = (settle True n (mview (fst s)), (pend (snd s))(n := Suc (pend (snd s) n)))"
  proof -
    have at: "mview (fst s') = settle True n (mview (fst s))" "pend (snd s') = (pend (snd s))(n := Suc (pend (snd s) n))"
      using that by (simp_all add: mstate_def)
    show ?thesis unfolding modal_inv_def balanced_def at
    proof
      fix k show "settled_at (settle True n (mview (fst s)) k) (pend_of cs k + ((pend (snd s))(n := Suc (pend (snd s) n))) k)"
        using inv[of k] other[of k] v n by (cases "k = n") simp_all
    qed
  qed
  show "modal_inv cs s'" if "mstate s' = (settle False n (mview (fst s)), pend (snd s))"
  proof -
    have at: "mview (fst s') = settle False n (mview (fst s))" "pend (snd s') = pend (snd s)"
      using that by (simp_all add: mstate_def)
    show ?thesis unfolding modal_inv_def balanced_def at
    proof
      fix k show "settled_at (settle False n (mview (fst s)) k) (pend_of cs k + pend (snd s) k)"
        using inv[of k] other[of k] v n by (cases "k = n") simp_all
    qed
  qed
next
  assume "mstate s' = mstate s"
  then show "modal_inv cs s'" using assms(2) modal_inv_mstate by blast
qed

text \<open>A completion that concerns the modal \<open>n\<close> settles it; the one of the backdrop shows the element, which settles the
  modal at once or waits for the transition of the dialog.\<close>

lemma modal_settle_inv:
  assumes inv: "modal_inv (c # cs) s" and c: "\<And>k. lifecycle k c = (k = n)"
    and s': "mstate s' = (settle False n (mview (fst s)), pend (snd s))"
  shows "modal_inv cs s'"
proof -
  have at: "mview (fst s') = settle False n (mview (fst s))" "pend (snd s') = pend (snd s)"
    using s' by (simp_all add: mstate_def)
  have old: "settled_at (mview (fst s) k) (pend_of (c # cs) k + pend (snd s) k)" for k
    using inv by (simp add: modal_inv_def balanced_def)
  have "settled_at (settle False n (mview (fst s)) k) (pend_of cs k + pend (snd s) k)" for k
    using old[of k] c[of k] by (cases "mview (fst s) k") (auto simp: settle_def split: if_splits)
  then show ?thesis by (simp add: modal_inv_def balanced_def at)
qed

lemma Modal_showElement_inv:
  assumes inv: "modal_inv (ModalBackdropShown n # cs) s"
  shows "modal_inv cs (Modal_showElement n s)"
proof -
  have at: "settled_at (mview (fst s) k) (pend_of (ModalBackdropShown n # cs) k + pend (snd s) k)" for k
    using inv by (simp add: modal_inv_def balanced_def)
  obtain m where m: "md_of (fst s) n = Some m"
    using at[of n] by (cases "md_of (fst s) n") (auto simp: mview_def)
  show ?thesis
  proof (cases "md_dialog m")
    case None
    have "pend (Modal_display n (snd s)) = pend (snd s)" by (rule pend_cong) simp
    then have st: "mstate (Modal_showElement n s) = mstate s"
      using m None by (simp add: Modal_showElement_def mstate_def Let_def)
    have "settled_at (mview (fst s) k) (pend_of cs k + pend (snd s) k)" for k
      using at[of k] mview_at(2)[OF m] None by (cases "k = n") simp_all
    then have "modal_inv cs s" by (simp add: modal_inv_def balanced_def)
    then show ?thesis using modal_inv_mstate[OF st] by simp
  next
    case (Some dialog)
    then have "md_dialog m \<noteq> None" by simp
    from Modal_showElement_state [OF m this] show ?thesis
    proof
      assume "mstate (Modal_showElement n s) = (settle False n (mview (fst s)), pend (snd s))"
      then show ?thesis by (intro modal_settle_inv [OF inv, of n]) auto
    next
      assume "mstate (Modal_showElement n s) = (mview (fst s), (pend (snd s))(n := Suc (pend (snd s) n)))"
      moreover have "(\<lambda>k. pend_of cs k + ((pend (snd s))(n := Suc (pend (snd s) n))) k) =
          (\<lambda>k. pend_of (ModalBackdropShown n # cs) k + pend (snd s) k)"
        by auto
      ultimately show ?thesis using inv by (simp add: modal_inv_def mstate_def)
    qed
  qed
qed

lemma modal_run_inv:
  assumes inv: "modal_inv (c # cs) s"
  shows "modal_inv cs (modal_run pj c s)"
proof -
  have same: "modal_inv cs s'" if "\<And>n. \<not> lifecycle n c" "mstate s' = mstate s" for s'
    using inv that by (simp add: modal_inv_mstate[OF that(2)]) (simp add: modal_inv_def)
  show ?thesis
  proof (cases c)
    case (ModalBackdropShown n)
    then show ?thesis using inv Modal_showElement_inv by (simp add: modal_run_def)
  next
    case (ModalShown n)
    have "modal_inv cs (Modal_shown n s)"
      by (rule modal_settle_inv [OF inv, of n]) (auto simp: ModalShown Modal_shown_state)
    then show ?thesis by (simp add: modal_run_def ModalShown)
  next
    case (ModalHide n)
    have "modal_inv cs (Modal_hideModal pj n s)"
      by (rule modal_settle_inv [OF inv, of n]) (auto simp: ModalHide Modal_hideModal_state)
    then show ?thesis by (simp add: modal_run_def ModalHide)
  next
    case (ModalBackdropHidden n)
    then show ?thesis using same by (simp add: modal_run_def)
  next
    case (ModalStaticRemove n oy)
    then show ?thesis using same by (simp add: modal_run_def Modal_staticRemove_state)
  next
    case (ModalStaticRestore n oy)
    then show ?thesis using same by (simp add: modal_run_def Modal_staticRestore_def)
  qed
qed

lemma pend_split: "pend_of (waiting e w) k + pend (take_waiting e w) k = pend w k"
proof -
  have "pend_of (map snd (filter (\<lambda>(m, c). m = e) ts)) k + pend_of (map snd (filter (\<lambda>(m, c). m \<noteq> e) ts)) k =
      pend_of (map snd ts) k" for ts
    by (induction ts) auto
  then show ?thesis by (simp add: waiting_def take_waiting_def pend_def)
qed

interpretation modal_queue: transition_queue "modal_run pj" modal_inv for pj
proof
  show "modal_inv (c # cs) s \<Longrightarrow> modal_inv cs (modal_run pj c s)" for c cs s by (rule modal_run_inv)
  show "modal_inv [] s \<Longrightarrow> modal_inv (waiting n (snd s)) (fst s, take_waiting n (snd s))" for s n
    by (simp add: modal_inv_def pend_split)
qed

lemma Modal_ends_inv: "modal_inv [] s \<Longrightarrow> modal_inv [] (Modal_ends pj e s)"
  unfolding Modal_ends_def by (rule modal_queue.end_pays)

lemma set_modal_keep:
  assumes "md_of (fst s) n = Some m0" and "md_dialog m = md_dialog m0" and "md_isTransitioning m = md_isTransitioning m0"
  shows "mstate (set_modal n m s) = mstate s"
  by (rule mstate_eqI) (use assms in \<open>simp_all add: fun_upd_same mview_at\<close>)

lemma keep_inv: "mstate s' = mstate s \<Longrightarrow> modal_inv cs s \<Longrightarrow> modal_inv cs s'"
  using modal_inv_mstate by blast

lemma Modal_new_cases:
  obtains "Modal_new pj n cfg s = s"
  | m where "Modal_new pj n cfg s = in_world (Modal_addEventListeners n) (set_modal n m s)" "\<not> md_isTransitioning m"
  by (cases "getConfig pj (snd s) Modal_Default Modal_DefaultType (\<lambda>c. c) cfg (Some n)") (auto simp: Modal_new_def Let_def)

lemma Modal_new_inv:
  assumes "md_of (fst s) n = None" and "modal_inv [] s"
  shows "modal_inv [] (Modal_new pj n cfg s)"
proof (cases rule: Modal_new_cases[of pj n cfg s])
  case 1
  then show ?thesis using assms(2) by simp
next
  case m: (2 m)
  have p: "pend (snd (Modal_new pj n cfg s)) = pend (snd s)" by (rule pend_cong) (simp add: m)
  have "pend (snd s) n = 0" using assms mview_at(1)[of "fst s" n]
    by (simp add: modal_inv_def balanced_def) (metis settled_at.simps(1))
  then show ?thesis using assms(2) m(2) p unfolding modal_inv_def balanced_def by (simp add: m(1))
qed

lemma Modal_dispose_inv:
  assumes "\<forall>(e, c) \<in> set (transitions (snd s)). cb_modal c \<noteq> n" and "modal_inv [] s"
  shows "modal_inv [] (Modal_dispose n s)"
proof (cases "md_of (fst s) n")
  case (Some m)
  have "lifecycle n c \<Longrightarrow> cb_modal c = n" for c by (auto simp: lifecycle_def)
  then have none: "pend (snd s) n = 0"
    using assms(1) by (fastforce simp: pend_def pend_of_def filter_empty_conv)
  have "transitions (snd (Modal_dispose n s)) = transitions (snd s)"
    using Some by (simp add: Modal_dispose_def Let_def Backdrop_dispose_def FocusTrap_deactivate_def
        case_prod_unfold split: option.splits)
  then have p: "pend (snd (Modal_dispose n s)) = pend (snd s)" by (rule pend_cong)
  have "mview (fst (Modal_dispose n s)) = (mview (fst s))(n := None)"
    using Some by (simp add: Modal_dispose_def mview_def Let_def case_prod_unfold fun_eq_iff)
  then show ?thesis using assms(2) p none by (simp add: modal_inv_def balanced_def)
qed (use assms(2) in \<open>simp add: Modal_dispose_def\<close>)

lemma Modal_toggle_inv: "modal_inv [] s \<Longrightarrow> modal_inv [] (Modal_toggle pj n s)"
  using moves_inv[OF Modal_hide_moves] moves_inv[OF Modal_show_moves]
  by (simp add: Modal_toggle_def split: option.splits)

lemma Modal_data_api_click_inv:
  assumes "modal_inv [] s"
  shows "modal_inv [] (Modal_data_api_click pj this s)"
proof -
  define target where "target = getElementFromSelector (snd s) this"
  define s1 where "s1 = (case target of Some t \<Rightarrow> ((fst s)\<lparr>md_onShow := md_onShow (fst s) @ [(t, this)]\<rparr>, snd s) | None \<Rightarrow> s)"
  define open_then where "open_then = (\<lambda>s2. case target of None \<Rightarrow> s2
           | Some t \<Rightarrow> Modal_toggle pj t (Modal_getOrCreate pj t s2))"
  have s1: "modal_inv [] s1"
    using assms by (simp add: s1_def modal_inv_def split: option.splits)
  have create: "modal_inv [] t \<Longrightarrow> modal_inv [] (Modal_getOrCreate pj n t)" for n t
    using Modal_new_inv by (simp add: Modal_getOrCreate_def split: option.splits)
  have opn: "modal_inv [] t \<Longrightarrow> modal_inv [] (open_then t)" for t
    using create Modal_toggle_inv by (simp add: open_then_def split: option.splits)
  have "Modal_data_api_click pj this s =
     (case query_one (\<lambda>n. has_class (snd s1) n ''modal'' \<and> has_class (snd s1) n ''show'') (snd s1) documentElement of
       None \<Rightarrow> open_then s1
     | Some a \<Rightarrow> if md_of (fst s1) a = None then s1 else open_then (Modal_hide pj a s1))"
    unfolding Modal_data_api_click_def Let_def target_def[symmetric] s1_def[symmetric] open_then_def by (rule refl)
  then show ?thesis using s1 opn moves_inv[OF Modal_hide_moves s1]
    by (simp split: option.splits)
qed

lemma modal_step_inv: "modal_step s s' \<Longrightarrow> modal_inv [] s \<Longrightarrow> modal_inv [] s'"
proof (induction rule: modal_step.induct)
  case (new s n pj cfg)
  then show ?case by (rule Modal_new_inv)
next
  case (show_call s n)
  then show ?case using Modal_show_moves moves_inv by blast
next
  case (hide_call s pj n)
  then show ?case using Modal_hide_moves moves_inv by blast
next
  case (toggle_call s pj n)
  then show ?case using Modal_toggle_inv by blast
next
  case (keydown s pj n key)
  show ?case
  proof (cases "md_of (fst s) n")
    case (Some m)
    then show ?thesis using keydown moves_inv[OF Modal_hide_moves] keep_inv[OF Modal_triggerBackdropTransition_state]
      by (simp add: Modal_keydown_def)
  qed (use keydown in \<open>simp add: Modal_keydown_def\<close>)
next
  case (resize s n)
  have "mstate (Modal_resize n s) = mstate s" by (simp add: Modal_resize_def split: option.splits)
  then show ?case using resize by (rule keep_inv)
next
  case (mousedown s n target)
  have "mstate (Modal_mousedown n target s) = mstate s"
    by (cases "md_of (fst s) n") (simp_all add: Modal_mousedown_def set_modal_keep)
  then show ?case using mousedown by (rule keep_inv)
next
  case (click s pj n target)
  have one: "modal_inv [] t \<Longrightarrow> modal_inv [] (Modal_click_dismiss pj n target x t)" for x t
    using moves_inv[OF Modal_hide_moves] keep_inv[OF Modal_triggerBackdropTransition_state]
    by (simp add: Modal_click_dismiss_def split: option.splits)
  have many: "modal_inv [] t \<Longrightarrow> modal_inv [] (fold (Modal_click_dismiss pj n target) xs t)" for xs t
    using one by (induction xs arbitrary: t) auto
  show ?case
  proof (cases "md_of (fst s) n")
    case (Some m)
    then show ?thesis using click many keep_inv[OF set_modal_keep[OF Some]] by (simp add: Modal_click_def)
  qed (use click in \<open>simp add: Modal_click_def\<close>)
next
  case (data_api s pj this)
  then show ?case by (rule Modal_data_api_click_inv)
next
  case (dispose s n)
  then show ?case by (intro Modal_dispose_inv)
next
  case (ended s pj n)
  then show ?case by (intro Modal_ends_inv)
qed


lemma modal_reachable_inv: "modal_reachable s \<Longrightarrow> modal_inv [] s"
proof (induction rule: modal_reachable.induct)
  case (start w)
  then show ?case by (simp add: modal_inv_def balanced_def mview_def pend_def)
next
  case (step s s')
  then show ?case using modal_step_inv by blast
qed

text \<open>
  C29: whatever is created, called, pressed, clicked, ended or disposed in whatever order, on any number
  of modals, where a modal is disposed only while no callback of its is queued, a modal with a dialog is marked as transitioning exactly while one callback that ends the
  transition is queued for it: no modal is left locked in a transition, and none is ended twice.\<close>

theorem modal_transition_completes:
  assumes "modal_reachable s" and "md_of (fst s) n = Some m" and "md_dialog m \<noteq> None"
  shows "length (filter (\<lambda>(e, c). c \<in> {ModalBackdropShown n, ModalShown n, ModalHide n}) (transitions (snd s))) =
    (if md_isTransitioning m then 1 else 0)"
proof -
  have "settled_at (mview (fst s) n) (pend_of [] n + pend (snd s) n)"
    using modal_reachable_inv[OF assms(1)] by (simp add: modal_inv_def balanced_def)
  then have "pend (snd s) n = (if md_isTransitioning m then 1 else 0)"
    using mview_at(2)[OF assms(2)] assms(3) by simp
  moreover have "pend w n = length (filter (\<lambda>(e, c). c \<in> {ModalBackdropShown n, ModalShown n, ModalHide n}) (transitions w))" for w
    by (auto simp: pend_def pend_of_def filter_map comp_def lifecycle_def case_prod_unfold)
  ultimately show ?thesis by simp
qed

section \<open>Showing a modal while its backdrop fades out\<close>

lemma ScrollBar_class [simp]:
  "has_class (ScrollBar_hide w) n c = has_class w n c" "has_class (ScrollBar_reset pj w) n c = has_class w n c"
  "eventLog (ScrollBar_hide w) = eventLog w" "eventLog (ScrollBar_reset pj w) = eventLog w"
  "env (ScrollBar_hide w) = env w" "env (ScrollBar_reset pj w) = env w"
  using ScrollBar_rest(1)[of w] ScrollBar_rest(2)[of w pj] by (simp_all add: same_rest_def)

lemma fold_focus_class [simp]:
  "has_class (fold (\<lambda>(_, toggler) w. if isVisible w (Some toggler) then focus_on toggler w else w) xs w) n c = has_class w n c"
  "eventLog (fold (\<lambda>(_, toggler) w. if isVisible w (Some toggler) then focus_on toggler w else w) xs w) = eventLog w"
  by (induction xs arbitrary: w) (auto split: if_splits)

lemma Modal_page_class [simp]:
  "has_class (Modal_adjustDialog n w) m c = has_class w m c"
  "has_class (Modal_resetAdjustments n w) m c = has_class w m c"
  "has_class (Modal_display n w) m c = has_class w m c"
  "has_class (Modal_undisplay n w) m c = has_class w m c"
  "eventLog (Modal_adjustDialog n w) = eventLog w" "eventLog (Modal_resetAdjustments n w) = eventLog w"
  "eventLog (Modal_display n w) = eventLog w" "eventLog (Modal_undisplay n w) = eventLog w"
  by (simp_all add: Modal_adjustDialog_def Modal_resetAdjustments_def Modal_display_def Modal_undisplay_def Let_def)

lemma FocusTrap_class [simp]:
  "has_class (snd (FocusTrap_activate s)) m c = has_class (snd s) m c"
  "eventLog (snd (FocusTrap_activate s)) = eventLog (snd s)"
  "has_class (snd (FocusTrap_deactivate s)) m c = has_class (snd s) m c"
  "eventLog (snd (FocusTrap_deactivate s)) = eventLog (snd s)"
  by (simp_all add: FocusTrap_activate_def FocusTrap_deactivate_def Let_def)

lemma Modal_hidden_class:
  "has_class (snd (Modal_hidden pj n s)) m c \<longleftrightarrow> has_class (snd s) m c \<and> \<not> (m = document_body \<and> c = ''modal-open'')"
  "md_of (fst (Modal_hidden pj n s)) = md_of (fst s)"
  "eventLog (snd (Modal_hidden pj n s)) = eventLog (snd s) @ [(n, ''hidden.bs.modal'')]"
  "transitions (snd (Modal_hidden pj n s)) = transitions (snd s)"
  by (auto simp: Modal_hidden_def Modal_announce_hidden_def Let_def fold_focus_transitions)

lemma Modal_shown_class:
  assumes "md_of (fst s) n = Some m"
  shows "has_class (snd (Modal_shown n s)) k c = has_class (snd s) k c"
    "eventLog (snd (Modal_shown n s)) = eventLog (snd s) @ [(n, ''shown.bs.modal'')]"
    "\<exists>f. md_of (fst (Modal_shown n s)) n = Some (m\<lparr>md_focustrap := f, md_isTransitioning := False\<rparr>)"
proof -
  obtain f w where d: "(if md_cfg_focus m then FocusTrap_activate (md_focustrap m, snd s) else (md_focustrap m, snd s)) = (f, w)"
    by fastforce
  then have w: "w = snd (if md_cfg_focus m then FocusTrap_activate (md_focustrap m, snd s) else (md_focustrap m, snd s))"
    by simp
  have s: "Modal_shown n s = in_world (announce n ''shown.bs.modal'')
      (set_modal n (m\<lparr>md_focustrap := f, md_isTransitioning := False\<rparr>) (fst s, w))"
    using assms d by (simp add: Modal_shown_def)
  show "has_class (snd (Modal_shown n s)) k c = has_class (snd s) k c"
    "eventLog (snd (Modal_shown n s)) = eventLog (snd s) @ [(n, ''shown.bs.modal'')]"
    by (simp_all add: s w)
  show "\<exists>f. md_of (fst (Modal_shown n s)) n = Some (m\<lparr>md_focustrap := f, md_isTransitioning := False\<rparr>)"
    by (rule exI[of _ f]) (simp add: s set_modal_def)
qed

lemma Modal_showElement_class:
  assumes m: "md_of (fst s) n = Some m" and d: "md_dialog m = Some dialog"
  shows "has_class (snd (Modal_showElement n s)) k c \<longleftrightarrow> (k = n \<and> c = ''show'') \<or> has_class (snd s) k c"
    "\<exists>f b. md_of (fst (Modal_showElement n s)) n = Some (m\<lparr>md_focustrap := f, md_isTransitioning := b\<rparr>)"
proof -
  let ?w = "Modal_display n (snd s)" and ?s = "(fst s, add_class ''show'' n (Modal_display n (snd s)))"
  have e: "Modal_showElement n s =
      executeAfterTransition (\<lambda>_. Modal_shown n) (ModalShown n) dialog (Modal_isAnimated ?w n) ?s"
    using m d by (simp add: Modal_showElement_def Let_def)
  have m': "md_of (fst ?s) n = Some m" using m by simp
  show "has_class (snd (Modal_showElement n s)) k c \<longleftrightarrow> (k = n \<and> c = ''show'') \<or> has_class (snd s) k c"
    using e Modal_shown_class(1)[OF m'] by (cases "Modal_isAnimated ?w n") simp_all
  show "\<exists>f b. md_of (fst (Modal_showElement n s)) n = Some (m\<lparr>md_focustrap := f, md_isTransitioning := b\<rparr>)"
  proof (cases "Modal_isAnimated ?w n")
    case True
    then have "md_of (fst (Modal_showElement n s)) n = Some (m\<lparr>md_focustrap := md_focustrap m,
        md_isTransitioning := md_isTransitioning m\<rparr>)" using e m by simp
    then show ?thesis by blast
  next
    case False
    then show ?thesis using e Modal_shown_class(3)[OF m'] by auto
  qed
qed

text \<open>
  \<open>_hideModal\<close> ends the transition before the backdrop has faded out, so a modal can be shown
  again while its hiding is not over. Then the callback of the first hiding runs after the second
  \<open>show\<close>: the modal ends up shown without a backdrop in the page, the body without the class
  \<open>modal-open\<close>, and \<open>hidden\<close> was announced after \<open>show\<close>.\<close>

theorem modal_reopened_without_backdrop:
  assumes m: "md_of (fst s) n = Some m" "\<not> md_isShown m" "\<not> md_isTransitioning m" "md_dialog m = Some dialog"
    and b: "bd_isVisible (md_backdrop m)" "bd_isAnimated (md_backdrop m)" "bd_isAppended (md_backdrop m)"
      "bd_element (md_backdrop m) = Some e"
    and t: "transitions (snd s) = [(e, ModalBackdropHidden n)]"
    and p: "\<not> prevents (env (snd s)) (eventLog (snd s)) (n, ''show.bs.modal'')"
  shows "\<exists>m'. md_of (fst (Modal_ends pj e (Modal_show n s))) n = Some m' \<and> md_isShown m' \<and>
    \<not> bd_isAppended (md_backdrop m') \<and>
    has_class (snd (Modal_ends pj e (Modal_show n s))) n ''show'' \<and>
    \<not> has_class (snd (Modal_ends pj e (Modal_show n s))) document_body ''modal-open''"
proof -
  obtain s1 where s1: "Modal_trigger_show n s = (False, s1)"
    using p by (auto simp: Modal_trigger_show_def trigger_eq Let_def)
  have t1: "md_of (fst s1) = md_of (fst s)" "transitions (snd s1) = transitions (snd s)"
    using Modal_trigger_show_state[of n s] s1 by simp_all
  define w where "w = Modal_adjustDialog n (add_class ''modal-open'' document_body (ScrollBar_hide (snd s1)))"
  have bs: "Backdrop_show (md_backdrop m, w) = (Some (e, True), md_backdrop m, add_class ''show'' e w)"
    using b by (simp add: Backdrop_show_def Backdrop_append_def Backdrop_getElement_def)
  define m1 where "m1 = m\<lparr>md_isShown := True, md_isTransitioning := True, md_backdrop := md_backdrop m\<rparr>"
  define s2 where "s2 = set_modal n m1 (fst s1, add_class ''show'' e w)"
  have "Modal_show n s = emulateAnimation (Some (e, True)) (Modal_showElement n) (ModalBackdropShown n) s2"
    using m by (simp add: Modal_show_def s1 w_def[symmetric] bs s2_def m1_def Let_def)
  then have shw: "Modal_show n s = (fst s2, (snd s2)\<lparr>transitions := [(e, ModalBackdropHidden n), (e, ModalBackdropShown n)]\<rparr>)"
    by (simp add: emulateAnimation_def s2_def w_def t1 t)
  define v where "v = (snd s2)\<lparr>transitions := []\<rparr>"
  have v: "take_waiting e (snd (Modal_show n s)) = v" "waiting e (snd (Modal_show n s)) = [ModalBackdropHidden n, ModalBackdropShown n]"
    by (simp_all add: shw take_waiting_def waiting_def v_def)
  have ends: "Modal_ends pj e (Modal_show n s) = Modal_showElement n (Modal_backdropHidden pj n (fst s2, v))"
    unfolding Modal_ends_def transition_end_def v by (simp add: shw modal_run_def)
  have m2: "md_of (fst (fst s2, v)) n = Some m1" by (simp add: s2_def set_modal_def)
  obtain bd wd where d: "Backdrop_dispose (md_backdrop m1, v) = (bd, wd)" "\<not> bd_isAppended bd"
    using b by (simp add: Backdrop_dispose_def m1_def)
  define s3 where "s3 = Modal_hidden pj n (set_modal n (m1\<lparr>md_backdrop := bd\<rparr>) (fst s2, wd))"
  have s3: "Modal_backdropHidden pj n (fst s2, v) = s3" using m2 d by (simp add: Modal_backdropHidden_def s3_def)
  have m3: "md_of (fst s3) n = Some (m1\<lparr>md_backdrop := bd\<rparr>)"
    by (simp add: s3_def Modal_hidden_class) (simp add: set_modal_def)
  have d3: "md_dialog (m1\<lparr>md_backdrop := bd\<rparr>) = Some dialog" using m(4) by (simp add: m1_def)
  have body: "\<not> has_class (snd s3) document_body ''modal-open''" by (simp add: s3_def Modal_hidden_class)
  obtain f b where "md_of (fst (Modal_showElement n s3)) n =
      Some ((m1\<lparr>md_backdrop := bd\<rparr>)\<lparr>md_focustrap := f, md_isTransitioning := b\<rparr>)"
    using Modal_showElement_class(2)[OF m3 d3] by blast
  then show ?thesis using d(2) body
    by (simp add: ends s3 Modal_showElement_class(1)[OF m3 d3] m1_def)
qed


text \<open>A page with one fading modal and its dialog, and the modal as it is when its backdrop fades out.\<close>

definition modal_page :: page where
  "modal_page = (\<lambda>_. plain_node ''DIV'' None [])(
    4 := (plain_node ''DIV'' (Some 1) [5])\<lparr>classList := [''modal'', ''fade'']\<rparr>,
    5 := (plain_node ''DIV'' (Some 4) [])\<lparr>classList := [''modal-dialog'']\<rparr>)"

definition modal_world :: "modal_cb world" where
  "modal_world = blank_world modal_page 7"

definition modal_start :: modal_state where
  "modal_start = Modal_new (\<lambda>_. None) 4 (JObj []) (\<lparr>md_of = \<lambda>_. None, md_onShow = [], md_onHidden = []\<rparr>, modal_world)"

lemma modal_start_config:
  "getConfig (\<lambda>_. None) modal_world Modal_Default Modal_DefaultType (\<lambda>c. c) (JObj []) (Some 4) =
    Inr [(''backdrop'', JBool True), (''focus'', JBool True), (''keyboard'', JBool True)]"
  by (simp add: getConfig_def mergeConfigObj_def getDataAttribute_def getDataAttributes_def dataset_def modal_world_def modal_page_def
      blank_world_def plain_node_def get_attr_def attr_value_def normalizeData_def spread_def spread_value_def
      Modal_Default_def Modal_DefaultType_def lookup_def type_alternatives_def valueType_def isElement_def toType_def Let_def)

lemma modal_start_dialog: "\<exists>m. md_of (fst modal_start) 4 = Some m \<and> md_dialog m = Some 5 \<and> \<not> md_isTransitioning m"
proof -
  have "query_one (\<lambda>d. has_class modal_world d ''modal-dialog'') modal_world 4 = Some 5"
    by (simp add: query_one_def descendants_def modal_world_def blank_world_def modal_page_def plain_node_def
        has_class_def numeral_eq_Suc)
  then show ?thesis by (simp add: modal_start_def modal_start_config Modal_new_def set_modal_def Let_def)
qed

lemma modal_transition_completes_witness:
  "\<exists>m. md_of (fst (Modal_show 4 modal_start)) 4 = Some m \<and>
    length (filter (\<lambda>(e, c). c \<in> {ModalBackdropShown 4, ModalShown 4, ModalHide 4})
      (transitions (snd (Modal_show 4 modal_start)))) = (if md_isTransitioning m then 1 else 0)"
proof -
  have r: "modal_reachable (Modal_show 4 modal_start)"
    unfolding modal_start_def
    by (rule modal_reachable.step[OF modal_reachable.step[OF modal_reachable.start modal_step.new] modal_step.show_call])
      (simp_all add: modal_world_def blank_world_def)
  have "map_option fst (mview (fst (Modal_show 4 modal_start)) 4) = map_option fst (mview (fst modal_start) 4)"
    using Modal_show_moves[of 4 modal_start]
    by (auto simp: moves_def mstate_def settle_def option.map_comp comp_def case_prod_unfold)
  then obtain m where m: "md_of (fst (Modal_show 4 modal_start)) 4 = Some m" "md_dialog m = Some 5"
    using modal_start_dialog by (auto simp: mview_def)
  then have "md_dialog m \<noteq> None" by simp
  from modal_transition_completes [OF r m(1) this] m(1) show ?thesis by blast
qed

definition fading_modal :: modal where
  "fading_modal = \<lparr>md_dialog = Some 5, md_backdrop = \<lparr>bd_className = ''modal-backdrop'', bd_isVisible = True,
      bd_isAnimated = True, bd_rootElement = 1, bd_hasClick = False, bd_isAppended = True, bd_element = Some 6\<rparr>,
    md_focustrap = FocusTrap_new 4, md_isShown = False, md_isTransitioning = False,
    md_cfg_backdrop = JBool True, md_cfg_focus = True, md_cfg_keyboard = True, md_armed = []\<rparr>"

definition fading_state :: modal_state where
  "fading_state = (\<lparr>md_of = [4 \<mapsto> fading_modal], md_onShow = [], md_onHidden = []\<rparr>,
    modal_world\<lparr>transitions := [(6, ModalBackdropHidden 4)]\<rparr>)"

lemma modal_reopened_without_backdrop_witness:
  "\<exists>m'. md_of (fst (Modal_ends (\<lambda>_. None) 6 (Modal_show 4 fading_state))) 4 = Some m' \<and> md_isShown m' \<and>
    \<not> bd_isAppended (md_backdrop m')"
  using modal_reopened_without_backdrop
    [where s = fading_state and n = 4 and m = fading_modal and dialog = 5 and e = 6 and pj = "\<lambda>_. None"]
  by (auto simp: fading_state_def fading_modal_def modal_world_def blank_world_def blank_browser_def)

end
