(* ===== verification/BsOffcanvas.thy ===== *)
theory BsOffcanvas
  imports BsModal
begin

text \<open>
  The offcanvas plugin of Bootstrap: the instances of all elements and the togglers that wait to
  get the focus back, with the world. Showing and hiding queue their completion on the element
  and do not exclude each other. The backdrop of an element needs its parent; the constructor
  throws for an element without one, and that half-built instance is not followed.
\<close>

section \<open>State\<close>

record offcanvas =
  oc_isShown :: bool
  oc_backdrop :: backdrop
  oc_focustrap :: focustrap
  oc_cfg_backdrop :: jsval
  oc_cfg_keyboard :: bool
  oc_cfg_scroll :: bool

record offcanvases =
  oc_of :: "node \<Rightarrow> offcanvas option"
  oc_onHidden :: "(node \<times> node) list"

datatype offcanvas_cb = OffcanvasShown node | OffcanvasHidden node | OffcanvasBackdropHidden node

type_synonym offcanvas_state = "offcanvases \<times> offcanvas_cb world"

definition Offcanvas_Default :: object where
  "Offcanvas_Default = [(''backdrop'', JBool True), (''keyboard'', JBool True), (''scroll'', JBool False)]"

definition Offcanvas_DefaultType :: "(string \<times> string) list" where
  "Offcanvas_DefaultType = [(''backdrop'', ''(boolean|string)''), (''keyboard'', ''boolean''), (''scroll'', ''boolean'')]"

definition set_offcanvas :: "node \<Rightarrow> offcanvas \<Rightarrow> offcanvas_state \<Rightarrow> offcanvas_state" where
  "set_offcanvas n m s = ((fst s)\<lparr>oc_of := (oc_of (fst s))(n := Some m)\<rparr>, snd s)"

section \<open>Creation\<close>

definition Offcanvas_initializeBackDrop :: "jsval \<Rightarrow> node \<Rightarrow> backdrop" where
  "Offcanvas_initializeBackDrop cfg p = Backdrop_new ''offcanvas-backdrop'' (truthy cfg) True p (truthy cfg)"

definition Offcanvas_new ::
    "(string \<Rightarrow> jsval option) \<Rightarrow> node \<Rightarrow> jsval \<Rightarrow> offcanvas_state \<Rightarrow> offcanvas_state" where
  "Offcanvas_new parseJson n config s = (case parentNode (page (snd s) n) of None \<Rightarrow> s
    | Some p \<Rightarrow>
      case getConfig parseJson (snd s) Offcanvas_Default Offcanvas_DefaultType (\<lambda>c. c) config (Some n) of
        Inl e \<Rightarrow> s
      | Inr cfg \<Rightarrow>
        let m = \<lparr>oc_isShown = False,
              oc_backdrop = Offcanvas_initializeBackDrop (lookup cfg ''backdrop'') p,
              oc_focustrap = FocusTrap_new n, oc_cfg_backdrop = lookup cfg ''backdrop'',
              oc_cfg_keyboard = truthy (lookup cfg ''keyboard''), oc_cfg_scroll = truthy (lookup cfg ''scroll'')\<rparr> in
        in_world (listen n ''keydown.dismiss.bs.offcanvas'') (set_offcanvas n m s))"

definition Offcanvas_getOrCreate :: "(string \<Rightarrow> jsval option) \<Rightarrow> node \<Rightarrow> offcanvas_state \<Rightarrow> offcanvas_state" where
  "Offcanvas_getOrCreate parseJson n s =
    (case oc_of (fst s) n of Some m \<Rightarrow> s | None \<Rightarrow> Offcanvas_new parseJson n (JObj []) s)"

section \<open>Show and hide\<close>

definition Offcanvas_shown :: "node \<Rightarrow> offcanvas_state \<Rightarrow> offcanvas_state" where
  "Offcanvas_shown n s = (case oc_of (fst s) n of None \<Rightarrow> s
    | Some m \<Rightarrow>
        let (f, w) = (if \<not> oc_cfg_scroll m \<or> truthy (oc_cfg_backdrop m)
              then FocusTrap_activate (oc_focustrap m, snd s) else (oc_focustrap m, snd s)) in
        in_world (\<lambda>v. announce n ''shown.bs.offcanvas'' (remove_class ''showing'' n (add_class ''show'' n v)))
          (set_offcanvas n (m\<lparr>oc_focustrap := f\<rparr>) (fst s, w)))"

definition Offcanvas_announce_hidden :: "node \<Rightarrow> offcanvas_state \<Rightarrow> offcanvas_state" where
  "Offcanvas_announce_hidden n s =
    (let d = fst s in
     (d\<lparr>oc_onHidden := filter (\<lambda>(t, _). t \<noteq> n) (oc_onHidden d)\<rparr>,
      fold (\<lambda>(_, toggler) w. if isVisible w (Some toggler) then focus_on toggler w else w)
        (filter (\<lambda>(t, _). t = n) (oc_onHidden d)) (announce n ''hidden.bs.offcanvas'' (snd s))))"

definition Offcanvas_hidden :: "(string \<Rightarrow> jsval option) \<Rightarrow> node \<Rightarrow> offcanvas_state \<Rightarrow> offcanvas_state" where
  "Offcanvas_hidden parseJson n s = (case oc_of (fst s) n of None \<Rightarrow> s
    | Some m \<Rightarrow> Offcanvas_announce_hidden n (in_world (\<lambda>w.
        let w1 = remove_attr ''role'' n (remove_attr ''aria-modal'' n
              (remove_class ''hiding'' n (remove_class ''show'' n w))) in
        if \<not> oc_cfg_scroll m then ScrollBar_reset parseJson w1 else w1) s))"

definition Offcanvas_backdropHidden :: "node \<Rightarrow> offcanvas_state \<Rightarrow> offcanvas_state" where
  "Offcanvas_backdropHidden n s = (case oc_of (fst s) n of None \<Rightarrow> s
    | Some m \<Rightarrow> let (b, w) = Backdrop_dispose (oc_backdrop m, snd s) in
        set_offcanvas n (m\<lparr>oc_backdrop := b\<rparr>) (fst s, w))"

definition Offcanvas_show :: "(string \<Rightarrow> jsval option) \<Rightarrow> node \<Rightarrow> offcanvas_state \<Rightarrow> offcanvas_state" where
  "Offcanvas_show parseJson n s = (case oc_of (fst s) n of None \<Rightarrow> s
    | Some m \<Rightarrow>
        if oc_isShown m then s
        else let (prevented, w) = trigger n ''show.bs.offcanvas'' (snd s) in
          if prevented then (fst s, w)
          else
            let (r, b, w1) = Backdrop_show (oc_backdrop m, w);
                w2 = (if \<not> oc_cfg_scroll m then ScrollBar_hide w1 else w1);
                w3 = add_class ''showing'' n (set_attr ''role'' ''dialog'' n (set_attr ''aria-modal'' ''true'' n w2)) in
            executeAfterTransition (\<lambda>_. Offcanvas_shown n) (OffcanvasShown n) n True
              (set_offcanvas n (m\<lparr>oc_isShown := True, oc_backdrop := b\<rparr>) (fst s, w3)))"

definition Offcanvas_hide :: "(string \<Rightarrow> jsval option) \<Rightarrow> node \<Rightarrow> offcanvas_state \<Rightarrow> offcanvas_state" where
  "Offcanvas_hide parseJson n s = (case oc_of (fst s) n of None \<Rightarrow> s
    | Some m \<Rightarrow>
        if \<not> oc_isShown m then s
        else let (prevented, w) = trigger n ''hide.bs.offcanvas'' (snd s) in
          if prevented then (fst s, w)
          else
            let (f, w1) = FocusTrap_deactivate (oc_focustrap m, w);
                w2 = add_class ''hiding'' n (blur n w1);
                (r, b, w3) = Backdrop_hide (oc_backdrop m, w2);
                s1 = set_offcanvas n (m\<lparr>oc_isShown := False, oc_focustrap := f, oc_backdrop := b\<rparr>) (fst s, w3);
                s2 = emulateAnimation r (case r of None \<Rightarrow> (\<lambda>t. t) | Some _ \<Rightarrow> Offcanvas_backdropHidden n)
                  (OffcanvasBackdropHidden n) s1 in
            executeAfterTransition (\<lambda>_. Offcanvas_hidden parseJson n) (OffcanvasHidden n) n True s2)"

definition Offcanvas_toggle :: "(string \<Rightarrow> jsval option) \<Rightarrow> node \<Rightarrow> offcanvas_state \<Rightarrow> offcanvas_state" where
  "Offcanvas_toggle parseJson n s = (case oc_of (fst s) n of None \<Rightarrow> s
    | Some m \<Rightarrow> if oc_isShown m then Offcanvas_hide parseJson n s else Offcanvas_show parseJson n s)"

definition Offcanvas_dispose :: "node \<Rightarrow> offcanvas_state \<Rightarrow> offcanvas_state" where
  "Offcanvas_dispose n s = (case oc_of (fst s) n of None \<Rightarrow> s
    | Some m \<Rightarrow>
        let (b, w1) = Backdrop_dispose (oc_backdrop m, snd s);
            (f, w2) = FocusTrap_deactivate (oc_focustrap m, w1) in
        ((fst s)\<lparr>oc_of := (oc_of (fst s))(n := None)\<rparr>, unlisten_ns n ''.bs.offcanvas'' w2))"

section \<open>Listeners\<close>

definition Offcanvas_backdrop_mousedown ::
    "(string \<Rightarrow> jsval option) \<Rightarrow> node \<Rightarrow> offcanvas_state \<Rightarrow> offcanvas_state" where
  "Offcanvas_backdrop_mousedown parseJson n s = (case oc_of (fst s) n of None \<Rightarrow> s
    | Some m \<Rightarrow>
        if \<not> bd_hasClick (oc_backdrop m) then s
        else if oc_cfg_backdrop m = JStr ''static'' then in_world (announce n ''hidePrevented.bs.offcanvas'') s
        else Offcanvas_hide parseJson n s)"

definition Offcanvas_keydown ::
    "(string \<Rightarrow> jsval option) \<Rightarrow> node \<Rightarrow> string \<Rightarrow> offcanvas_state \<Rightarrow> offcanvas_state" where
  "Offcanvas_keydown parseJson n key s = (case oc_of (fst s) n of None \<Rightarrow> s
    | Some m \<Rightarrow>
        if key \<noteq> ''Escape'' then s
        else if oc_cfg_keyboard m then Offcanvas_hide parseJson n s
        else in_world (announce n ''hidePrevented.bs.offcanvas'') s)"

definition offcanvas_open :: "'cb world \<Rightarrow> node \<Rightarrow> bool" where
  "offcanvas_open w n \<longleftrightarrow> has_class w n ''offcanvas'' \<and> has_class w n ''show''"

definition Offcanvas_data_api_click ::
    "(string \<Rightarrow> jsval option) \<Rightarrow> node \<Rightarrow> offcanvas_state \<Rightarrow> offcanvas_state" where
  "Offcanvas_data_api_click parseJson this s =
    (let target = getElementFromSelector (snd s) this in
     if isDisabled (snd s) (Some this) then s
     else
       let s1 = (case target of Some t \<Rightarrow> ((fst s)\<lparr>oc_onHidden := oc_onHidden (fst s) @ [(t, this)]\<rparr>, snd s)
             | None \<Rightarrow> s);
           alreadyOpen = query_one (offcanvas_open (snd s1)) (snd s1) documentElement;
           open_then = (\<lambda>s2. case target of None \<Rightarrow> s2
             | Some t \<Rightarrow> Offcanvas_toggle parseJson t (Offcanvas_getOrCreate parseJson t s2)) in
       (case alreadyOpen of
          None \<Rightarrow> open_then s1
        | Some a \<Rightarrow>
            if Some a = target then open_then s1
            else if oc_of (fst s1) a = None then s1
            else open_then (Offcanvas_hide parseJson a s1)))"

definition Offcanvas_load :: "(string \<Rightarrow> jsval option) \<Rightarrow> offcanvas_state \<Rightarrow> offcanvas_state" where
  "Offcanvas_load parseJson s =
    fold (\<lambda>n t. Offcanvas_show parseJson n (Offcanvas_getOrCreate parseJson n t))
      (query_all (offcanvas_open (snd s)) (snd s) documentElement) s"

text \<open>\<open>[aria-modal][class*=show][class*=offcanvas-]\<close>\<close>

definition offcanvas_modal :: "'cb world \<Rightarrow> node \<Rightarrow> bool" where
  "offcanvas_modal w n \<longleftrightarrow> has_attr w n ''aria-modal'' \<and>
    (\<exists>c \<in> set (classList (page w n)). includes_str c ''show'') \<and>
    (\<exists>c \<in> set (classList (page w n)). includes_str c ''offcanvas-'')"

definition Offcanvas_resize :: "(string \<Rightarrow> jsval option) \<Rightarrow> offcanvas_state \<Rightarrow> offcanvas_state" where
  "Offcanvas_resize parseJson s =
    fold (\<lambda>n t. if computedStyle (env (snd t)) (page (snd t)) n ''position'' \<noteq> ''fixed''
        then Offcanvas_hide parseJson n (Offcanvas_getOrCreate parseJson n t) else t)
      (query_all (offcanvas_modal (snd s)) (snd s) documentElement) s"

definition offcanvas_run :: "(string \<Rightarrow> jsval option) \<Rightarrow> offcanvas_cb \<Rightarrow> offcanvas_state \<Rightarrow> offcanvas_state" where
  "offcanvas_run parseJson c = (case c of
      OffcanvasShown n \<Rightarrow> Offcanvas_shown n
    | OffcanvasHidden n \<Rightarrow> Offcanvas_hidden parseJson n
    | OffcanvasBackdropHidden n \<Rightarrow> Offcanvas_backdropHidden n)"

definition Offcanvas_ends :: "(string \<Rightarrow> jsval option) \<Rightarrow> node \<Rightarrow> offcanvas_state \<Rightarrow> offcanvas_state" where
  "Offcanvas_ends parseJson n s = transition_end (offcanvas_run parseJson) n s"


section \<open>What showing and hiding leave behind\<close>

lemma resetElementAttributes_attr:
  "a \<noteq> data_bs p \<Longrightarrow> get_attr (resetElementAttributes pj ns p w) m a = get_attr w m a"
  unfolding resetElementAttributes_def
  by (induction ns arbitrary: w) (simp_all add: resetElementAttribute_def removeDataAttribute_def Let_def)

lemma ScrollBar_reset_attr:
  assumes "a \<in> {''aria-modal'', ''role''}"
  shows "get_attr (ScrollBar_reset pj w) m a = get_attr w m a"
proof -
  have "a \<noteq> data_bs ''overflow''" "a \<noteq> data_bs ''padding-right''" "a \<noteq> data_bs ''margin-right''"
    using assms by (auto simp: data_bs_scroll)
  then show ?thesis by (simp add: ScrollBar_reset_def Let_def resetElementAttributes_attr)
qed

lemma fold_focus_attr [simp]:
  "get_attr (fold (\<lambda>(_, toggler) w. if isVisible w (Some toggler) then focus_on toggler w else w) xs w) n a = get_attr w n a"
  "env (fold (\<lambda>(_, toggler) w. if isVisible w (Some toggler) then focus_on toggler w else w) xs w) = env w"
  by (induction xs arbitrary: w) (auto split: if_splits)

lemma Backdrop_class:
  "(e, b, v) = Backdrop_getElement s \<Longrightarrow> k < nodeCount (snd s) \<Longrightarrow> has_class v k c = has_class (snd s) k c"
  by (auto simp: Backdrop_getElement_def create_element_def has_class_def Let_def add_class_def upd_node_page
      split: option.splits)

definition trap_active :: "offcanvas_state \<Rightarrow> node \<Rightarrow> bool" where
  "trap_active s n = (case oc_of (fst s) n of Some m \<Rightarrow> ft_isActive (oc_focustrap m) | None \<Rightarrow> False)"

definition oc_shown :: "offcanvas_state \<Rightarrow> node \<Rightarrow> bool" where
  "oc_shown s n = (case oc_of (fst s) n of Some m \<Rightarrow> oc_isShown m | None \<Rightarrow> False)"

lemma FocusTrap_active [simp]:
  "ft_isActive (fst (FocusTrap_activate s))" "\<not> ft_isActive (fst (FocusTrap_deactivate s))"
  by (simp_all add: FocusTrap_activate_def FocusTrap_deactivate_def Let_def)

lemma FocusTrap_env [simp]: "env (snd (FocusTrap_activate s)) = env (snd s)" "env (snd (FocusTrap_deactivate s)) = env (snd s)"
  by (simp_all add: FocusTrap_activate_def FocusTrap_deactivate_def Let_def)

lemma set_offcanvas_at [simp]: "oc_of (fst (set_offcanvas n m s)) = (oc_of (fst s))(n := Some m)"
  "snd (set_offcanvas n m s) = snd s"
  by (simp_all add: set_offcanvas_def)

text \<open>The completion of showing.\<close>

lemma Offcanvas_shown_effect:
  assumes m: "oc_of (fst s) n = Some m"
  defines "t \<equiv> Offcanvas_shown n s"
  shows "trap_active t n = (if \<not> oc_cfg_scroll m \<or> truthy (oc_cfg_backdrop m) then True else ft_isActive (oc_focustrap m))"
    "\<exists>f. oc_of (fst t) n = Some (m\<lparr>oc_focustrap := f\<rparr>)"
    "has_class (snd t) n ''show''" "\<not> has_class (snd t) n ''showing''"
    "eventLog (snd t) = eventLog (snd s) @ [(n, ''shown.bs.offcanvas'')]"
    "transitions (snd t) = transitions (snd s)" "env (snd t) = env (snd s)"
proof -
  define fw where "fw = (if \<not> oc_cfg_scroll m \<or> truthy (oc_cfg_backdrop m)
    then FocusTrap_activate (oc_focustrap m, snd s) else (oc_focustrap m, snd s))"
  have t: "t = in_world (\<lambda>v. announce n ''shown.bs.offcanvas'' (remove_class ''showing'' n (add_class ''show'' n v)))
      (set_offcanvas n (m\<lparr>oc_focustrap := fst fw\<rparr>) (fst s, snd fw))"
    unfolding t_def Offcanvas_shown_def m option.case Let_def fw_def[symmetric] case_prod_unfold by (rule refl)
  show "trap_active t n = (if \<not> oc_cfg_scroll m \<or> truthy (oc_cfg_backdrop m) then True else ft_isActive (oc_focustrap m))"
    by (simp add: t trap_active_def fw_def)
  show "\<exists>f. oc_of (fst t) n = Some (m\<lparr>oc_focustrap := f\<rparr>)" by (rule exI[of _ "fst fw"]) (simp add: t)
  show "has_class (snd t) n ''show''" "\<not> has_class (snd t) n ''showing''"
    "eventLog (snd t) = eventLog (snd s) @ [(n, ''shown.bs.offcanvas'')]"
    "transitions (snd t) = transitions (snd s)" "env (snd t) = env (snd s)"
    by (simp_all add: t fw_def)
qed

text \<open>The completion of hiding.\<close>

lemma Offcanvas_hidden_effect:
  fixes pj :: "string \<Rightarrow> jsval option"
  assumes m: "oc_of (fst s) n = Some m"
  defines "t \<equiv> Offcanvas_hidden pj n s"
  shows "oc_of (fst t) = oc_of (fst s)"
    "\<not> has_class (snd t) n ''show''" "\<not> has_class (snd t) n ''hiding''"
    "get_attr (snd t) n ''aria-modal'' = None" "get_attr (snd t) n ''role'' = None"
    "eventLog (snd t) = eventLog (snd s) @ [(n, ''hidden.bs.offcanvas'')]"
  using m by (simp_all add: t_def Offcanvas_hidden_def Offcanvas_announce_hidden_def Let_def ScrollBar_reset_attr)

lemma Offcanvas_backdropHidden_effect:
  assumes m: "oc_of (fst s) n = Some m"
  shows "\<exists>b. oc_of (fst (Offcanvas_backdropHidden n s)) n = Some (m\<lparr>oc_backdrop := b\<rparr>)"
    "eventLog (snd (Offcanvas_backdropHidden n s)) = eventLog (snd s)"
proof -
  obtain b w where d: "Backdrop_dispose (oc_backdrop m, snd s) = (b, w)" by fastforce
  have w: "w = snd (Backdrop_dispose (oc_backdrop m, snd s))" using d by simp
  have e: "eventLog w = eventLog (snd s)" unfolding w by (simp add: Backdrop_dispose_def split: option.splits)
  show "\<exists>b. oc_of (fst (Offcanvas_backdropHidden n s)) n = Some (m\<lparr>oc_backdrop := b\<rparr>)"
    by (rule exI[of _ b]) (simp add: Offcanvas_backdropHidden_def m d)
  show "eventLog (snd (Offcanvas_backdropHidden n s)) = eventLog (snd s)"
    using e by (simp add: Offcanvas_backdropHidden_def m d)
qed

text \<open>The beginning of showing and of hiding.\<close>

lemma Backdrop_rest [simp]:
  "eventLog (snd (snd (Backdrop_show s))) = eventLog (snd s)" "env (snd (snd (Backdrop_show s))) = env (snd s)"
  "eventLog (snd (snd (Backdrop_hide s))) = eventLog (snd s)" "env (snd (snd (Backdrop_hide s))) = env (snd s)"
proof -
  have g: "eventLog (snd (snd (Backdrop_getElement t))) = eventLog (snd t) \<and> env (snd (snd (Backdrop_getElement t))) = env (snd t)"
    for t :: "backdrop \<times> 'a world"
    by (simp add: Backdrop_getElement_def create_element_def Let_def split: option.splits)
  have a: "eventLog (snd (Backdrop_append t)) = eventLog (snd t) \<and> env (snd (Backdrop_append t)) = env (snd t)"
    for t :: "backdrop \<times> 'a world"
    using g[of t] by (cases "Backdrop_getElement t") (simp add: Backdrop_append_def)
  show "eventLog (snd (snd (Backdrop_show s))) = eventLog (snd s)" "env (snd (snd (Backdrop_show s))) = env (snd s)"
    using g[of "Backdrop_append s"] a[of s]
    by (cases "Backdrop_getElement (Backdrop_append s)", simp add: Backdrop_show_def)+
  show "eventLog (snd (snd (Backdrop_hide s))) = eventLog (snd s)" "env (snd (snd (Backdrop_hide s))) = env (snd s)"
    using g[of s] by (cases "Backdrop_getElement s", simp add: Backdrop_hide_def)+
qed

lemma Offcanvas_show_effect:
  fixes pj :: "string \<Rightarrow> jsval option"
  assumes m: "oc_of (fst s) n = Some m" "\<not> oc_isShown m"
    and p: "\<not> prevents (env (snd s)) (eventLog (snd s)) (n, ''show.bs.offcanvas'')"
  defines "t \<equiv> Offcanvas_show pj n s"
  shows "\<exists>b. oc_of (fst t) n = Some (m\<lparr>oc_isShown := True, oc_backdrop := b\<rparr>)"
    "transitions (snd t) = transitions (snd s) @ [(n, OffcanvasShown n)]"
    "eventLog (snd t) = eventLog (snd s) @ [(n, ''show.bs.offcanvas'')]" "env (snd t) = env (snd s)"
proof -
  define w where "w = announce n ''show.bs.offcanvas'' (snd s)"
  define rbw where "rbw = Backdrop_show (oc_backdrop m, w)"
  define w3 where "w3 = add_class ''showing'' n (set_attr ''role'' ''dialog'' n (set_attr ''aria-modal'' ''true'' n
    (if \<not> oc_cfg_scroll m then ScrollBar_hide (snd (snd rbw)) else snd (snd rbw))))"
  have w3: "transitions w3 = transitions (snd s)" "eventLog w3 = eventLog (snd s) @ [(n, ''show.bs.offcanvas'')]"
    "env w3 = env (snd s)" by (simp_all add: w3_def rbw_def w_def)
  have "t = (if prevents (env (snd s)) (eventLog (snd s)) (n, ''show.bs.offcanvas'') then (fst s, w)
      else executeAfterTransition (\<lambda>_. Offcanvas_shown n) (OffcanvasShown n) n True
        (set_offcanvas n (m\<lparr>oc_isShown := True, oc_backdrop := fst (snd rbw)\<rparr>) (fst s, w3)))"
    unfolding t_def Offcanvas_show_def m option.case Let_def trigger_eq case_prod_unfold fst_conv snd_conv
      w_def[symmetric] rbw_def[symmetric] w3_def
    by (rule if_not_P) (rule m(2))
  then have t: "t = executeAfterTransition (\<lambda>_. Offcanvas_shown n) (OffcanvasShown n) n True
        (set_offcanvas n (m\<lparr>oc_isShown := True, oc_backdrop := fst (snd rbw)\<rparr>) (fst s, w3))" using p by simp
  show "\<exists>b. oc_of (fst t) n = Some (m\<lparr>oc_isShown := True, oc_backdrop := b\<rparr>)"
    by (rule exI[of _ "fst (snd rbw)"]) (simp add: t)
  show "transitions (snd t) = transitions (snd s) @ [(n, OffcanvasShown n)]"
    "eventLog (snd t) = eventLog (snd s) @ [(n, ''show.bs.offcanvas'')]" "env (snd t) = env (snd s)"
    by (simp_all add: t w3)
qed

lemma Offcanvas_hide_effect:
  fixes pj :: "string \<Rightarrow> jsval option"
  assumes m: "oc_of (fst s) n = Some m" "oc_isShown m"
    and p: "\<not> prevents (env (snd s)) (eventLog (snd s)) (n, ''hide.bs.offcanvas'')"
  defines "t \<equiv> Offcanvas_hide pj n s"
  shows "\<exists>f b. \<not> ft_isActive f \<and> oc_of (fst t) n = Some (m\<lparr>oc_isShown := False, oc_focustrap := f, oc_backdrop := b\<rparr>)"
    "\<exists>l. transitions (snd t) = transitions (snd s) @ l @ [(n, OffcanvasHidden n)] \<and> snd ` set l \<subseteq> {OffcanvasBackdropHidden n}"
    "eventLog (snd t) = eventLog (snd s) @ [(n, ''hide.bs.offcanvas'')]"
proof -
  define w where "w = announce n ''hide.bs.offcanvas'' (snd s)"
  define fw where "fw = FocusTrap_deactivate (oc_focustrap m, w)"
  define rbw where "rbw = Backdrop_hide (oc_backdrop m, add_class ''hiding'' n (blur n (snd fw)))"
  define s1 where "s1 = set_offcanvas n (m\<lparr>oc_isShown := False, oc_focustrap := fst fw, oc_backdrop := fst (snd rbw)\<rparr>)
    (fst s, snd (snd rbw))"
  define s2 where "s2 = emulateAnimation (fst rbw) (case fst rbw of None \<Rightarrow> (\<lambda>t. t) | Some _ \<Rightarrow> Offcanvas_backdropHidden n)
    (OffcanvasBackdropHidden n) s1"
  have t: "t = executeAfterTransition (\<lambda>_. Offcanvas_hidden pj n) (OffcanvasHidden n) n True s2"
  proof -
    have "\<not> \<not> oc_isShown m" using m(2) by simp
    then have "t = (if prevents (env (snd s)) (eventLog (snd s)) (n, ''hide.bs.offcanvas'') then (fst s, w)
      else executeAfterTransition (\<lambda>_. Offcanvas_hidden pj n) (OffcanvasHidden n) n True s2)"
      unfolding t_def Offcanvas_hide_def m(1) option.case Let_def trigger_eq case_prod_unfold fst_conv snd_conv
        w_def[symmetric] fw_def[symmetric] rbw_def[symmetric] s2_def s1_def
      by (rule if_not_P)
    then show ?thesis using p by simp
  qed
  have s1: "transitions (snd s1) = transitions (snd s)" "eventLog (snd s1) = eventLog (snd s) @ [(n, ''hide.bs.offcanvas'')]"
    "oc_of (fst s1) n = Some (m\<lparr>oc_isShown := False, oc_focustrap := fst fw, oc_backdrop := fst (snd rbw)\<rparr>)"
    by (simp_all add: s1_def rbw_def fw_def w_def)
  have bd: "transitions (snd (Offcanvas_backdropHidden n s1)) = transitions (snd s1)"
    by (simp add: Offcanvas_backdropHidden_def case_prod_unfold Let_def split: option.splits)
  consider "s2 = s1" | e where "s2 = (fst s1, (snd s1)\<lparr>transitions := transitions (snd s1) @ [(e, OffcanvasBackdropHidden n)]\<rparr>)"
    | "s2 = Offcanvas_backdropHidden n s1"
  proof (cases "fst rbw")
    case None
    then show ?thesis using that(1) by (simp add: s2_def emulateAnimation_def)
  next
    case (Some ea)
    obtain e a where "ea = (e, a)" by fastforce
    then show ?thesis using that(2,3) Some by (cases a) (simp_all add: s2_def emulateAnimation_def)
  qed
  then have "(\<exists>b. oc_of (fst s2) n = Some (m\<lparr>oc_isShown := False, oc_focustrap := fst fw, oc_backdrop := b\<rparr>)) \<and>
      (\<exists>l. transitions (snd s2) = transitions (snd s) @ l \<and> snd ` set l \<subseteq> {OffcanvasBackdropHidden n}) \<and>
      eventLog (snd s2) = eventLog (snd s) @ [(n, ''hide.bs.offcanvas'')]"
  proof cases
    case 3
    then show ?thesis using s1 bd Offcanvas_backdropHidden_effect[OF s1(3)] by (auto intro: exI[of _ "[]"])
  qed (use s1 in auto)
  then obtain b l where r: "oc_of (fst s2) n = Some (m\<lparr>oc_isShown := False, oc_focustrap := fst fw, oc_backdrop := b\<rparr>)"
      "transitions (snd s2) = transitions (snd s) @ l" "snd ` set l \<subseteq> {OffcanvasBackdropHidden n}"
      "eventLog (snd s2) = eventLog (snd s) @ [(n, ''hide.bs.offcanvas'')]" by blast
  show "\<exists>f b. \<not> ft_isActive f \<and> oc_of (fst t) n = Some (m\<lparr>oc_isShown := False, oc_focustrap := f, oc_backdrop := b\<rparr>)"
    by (rule exI[of _ "fst fw"], rule exI[of _ b]) (simp add: t r fw_def)
  show "\<exists>l. transitions (snd t) = transitions (snd s) @ l @ [(n, OffcanvasHidden n)] \<and> snd ` set l \<subseteq> {OffcanvasBackdropHidden n}"
    using r(2,3) by (simp add: t)
  show "eventLog (snd t) = eventLog (snd s) @ [(n, ''hide.bs.offcanvas'')]" using r(4) by (simp add: t)
qed


text \<open>Only callbacks of the backdrop stand between the two completions, and they change neither
  the trap nor the flag.\<close>

lemma fold_backdropHidden:
  assumes "set cs \<subseteq> {OffcanvasBackdropHidden n}" and "oc_of (fst s) n = Some m"
  shows "\<exists>b. oc_of (fst (fold (offcanvas_run pj) cs s)) n = Some (m\<lparr>oc_backdrop := b\<rparr>)"
    "eventLog (snd (fold (offcanvas_run pj) cs s)) = eventLog (snd s)"
proof -
  have "(\<exists>b. oc_of (fst (fold (offcanvas_run pj) cs s)) n = Some (m\<lparr>oc_backdrop := b\<rparr>)) \<and>
      eventLog (snd (fold (offcanvas_run pj) cs s)) = eventLog (snd s)"
    using assms
  proof (induction cs arbitrary: s m)
    case (Cons c cs)
    obtain b where b: "oc_of (fst (Offcanvas_backdropHidden n s)) n = Some (m\<lparr>oc_backdrop := b\<rparr>)"
      using Offcanvas_backdropHidden_effect(1)[OF Cons.prems(2)] by blast
    have c: "c = OffcanvasBackdropHidden n" "set cs \<subseteq> {OffcanvasBackdropHidden n}" using Cons.prems(1) by auto
    from Cons.IH[OF c(2) b] show ?case
      using Offcanvas_backdropHidden_effect(2)[OF Cons.prems(2)] by (simp add: c(1) offcanvas_run_def)
  next
    case Nil
    then have "oc_of (fst s) n = Some (m\<lparr>oc_backdrop := oc_backdrop m\<rparr>)" by simp
    then show ?case unfolding fold.simps id_apply by blast
  qed
  then show "\<exists>b. oc_of (fst (fold (offcanvas_run pj) cs s)) n = Some (m\<lparr>oc_backdrop := b\<rparr>)"
    "eventLog (snd (fold (offcanvas_run pj) cs s)) = eventLog (snd s)" by blast+
qed

lemma waiting_between:
  assumes "transitions w = xs @ l @ [(n, c)]" and "snd ` set l \<subseteq> {d}"
  shows "\<exists>cs. waiting n w = map snd (filter (\<lambda>(m, x). m = n) xs) @ cs @ [c] \<and> set cs \<subseteq> {d}"
  using assms by (intro exI[of _ "map snd (filter (\<lambda>(m, x). m = n) l)"]) (auto simp: waiting_def)

lemma take_waiting_snd: "oc_of (fst (fst s, take_waiting n (snd s))) = oc_of (fst s)"
  by simp

text \<open>
  Showing an offcanvas that is closed and hiding it after its transition ended goes through
  the states it should: shown with the class \<open>show\<close>, the focus trapped unless the page may scroll
  and there is no backdrop; then closed again without \<open>show\<close> and \<open>hiding\<close>, without the
  attributes of a dialog and with the trap released; the four events come in their order.\<close>

theorem offcanvas_cycle:
  fixes pj :: "string \<Rightarrow> jsval option"
  assumes m: "oc_of (fst s) n = Some m" "\<not> oc_isShown m" "\<not> ft_isActive (oc_focustrap m)"
    and q: "transitions (snd s) = []" and p: "\<And>l e. \<not> prevents (env (snd s)) l e"
  defines "s1 \<equiv> Offcanvas_ends pj n (Offcanvas_show pj n s)"
  defines "s2 \<equiv> Offcanvas_ends pj n (Offcanvas_hide pj n s1)"
  shows "oc_shown s1 n \<and> has_class (snd s1) n ''show'' \<and> \<not> has_class (snd s1) n ''showing'' \<and>
      trap_active s1 n = (\<not> oc_cfg_scroll m \<or> truthy (oc_cfg_backdrop m)) \<and>
      eventLog (snd s1) = eventLog (snd s) @ [(n, ''show.bs.offcanvas''), (n, ''shown.bs.offcanvas'')] \<and>
    \<not> oc_shown s2 n \<and> \<not> has_class (snd s2) n ''show'' \<and> \<not> has_class (snd s2) n ''hiding'' \<and>
      get_attr (snd s2) n ''aria-modal'' = None \<and> get_attr (snd s2) n ''role'' = None \<and> \<not> trap_active s2 n \<and>
      eventLog (snd s2) = eventLog (snd s1) @ [(n, ''hide.bs.offcanvas''), (n, ''hidden.bs.offcanvas'')]"
proof -
  define u where "u = Offcanvas_show pj n s"
  obtain b where u: "oc_of (fst u) n = Some (m\<lparr>oc_isShown := True, oc_backdrop := b\<rparr>)"
      "transitions (snd u) = [(n, OffcanvasShown n)]"
      "eventLog (snd u) = eventLog (snd s) @ [(n, ''show.bs.offcanvas'')]" "env (snd u) = env (snd s)"
    using Offcanvas_show_effect[OF m(1,2) p, of pj] q by (auto simp: u_def)
  define v where "v = (fst u, take_waiting n (snd u))"
  have v: "oc_of (fst v) n = Some (m\<lparr>oc_isShown := True, oc_backdrop := b\<rparr>)" "transitions (snd v) = []"
    "eventLog (snd v) = eventLog (snd u)" "env (snd v) = env (snd s)"
    using u by (simp_all add: v_def) (simp add: take_waiting_def)
  have s1: "s1 = Offcanvas_shown n v"
    using u(2) by (simp add: s1_def Offcanvas_ends_def transition_end_def u_def[symmetric] waiting_def
        offcanvas_run_def v_def)
  note sh = Offcanvas_shown_effect[OF v(1), folded s1]
  obtain f where f: "oc_of (fst s1) n = Some (m\<lparr>oc_isShown := True, oc_backdrop := b, oc_focustrap := f\<rparr>)"
    using sh(2) by auto
  have p1: "\<not> prevents (env (snd s1)) (eventLog (snd s1)) (n, ''hide.bs.offcanvas'')"
    using p sh(7) v(4) by simp
  define h where "h = Offcanvas_hide pj n s1"
  have sh1: "oc_isShown (m\<lparr>oc_isShown := True, oc_backdrop := b, oc_focustrap := f\<rparr>)" by simp
  note he = Offcanvas_hide_effect[OF f sh1 p1, where pj = pj, folded h_def]
  obtain m2 where g: "oc_of (fst h) n = Some m2" "\<not> ft_isActive (oc_focustrap m2)" "\<not> oc_isShown m2"
    using he(1) by force
  obtain l where l: "transitions (snd h) = [] @ l @ [(n, OffcanvasHidden n)]" "snd ` set l \<subseteq> {OffcanvasBackdropHidden n}"
    using he(2) sh(6) v(2) by auto
  obtain cs where cs: "waiting n (snd h) = cs @ [OffcanvasHidden n]" "set cs \<subseteq> {OffcanvasBackdropHidden n}"
    using waiting_between[OF l] by auto
  define k where "k = fold (offcanvas_run pj) cs (fst h, take_waiting n (snd h))"
  have g': "oc_of (fst (fst h, take_waiting n (snd h))) n = Some m2" using g by simp
  obtain b'' where k: "oc_of (fst k) n = Some (m2\<lparr>oc_backdrop := b''\<rparr>)"
      "eventLog (snd k) = eventLog (snd h)"
    using fold_backdropHidden[OF cs(2) g', of pj] by (auto simp: k_def)
  have s2: "s2 = Offcanvas_hidden pj n k"
    by (simp add: s2_def Offcanvas_ends_def transition_end_def h_def[symmetric] cs(1) k_def offcanvas_run_def)
  note hi = Offcanvas_hidden_effect[OF k(1), where pj = pj, folded s2]
  show ?thesis using sh hi f k g m(3) he(3) u(3) v(3)
    by (simp add: oc_shown_def trap_active_def)
qed

text \<open>
  An offcanvas that is hidden before its showing has ended keeps the focus trapped. Hiding
  releases the trap first, but the completion of showing is still queued and activates it; at
  the end the element is closed and the trap holds the focus in it.\<close>

theorem offcanvas_hidden_with_active_trap:
  fixes pj :: "string \<Rightarrow> jsval option"
  assumes m: "oc_of (fst s) n = Some m" "\<not> oc_isShown m" "\<not> oc_cfg_scroll m \<or> truthy (oc_cfg_backdrop m)"
    and q: "transitions (snd s) = []" and p: "\<And>l e. \<not> prevents (env (snd s)) l e"
  defines "t \<equiv> Offcanvas_ends pj n (Offcanvas_hide pj n (Offcanvas_show pj n s))"
  shows "\<not> oc_shown t n \<and> \<not> has_class (snd t) n ''show'' \<and> trap_active t n"
proof -
  define u where "u = Offcanvas_show pj n s"
  obtain b where u: "oc_of (fst u) n = Some (m\<lparr>oc_isShown := True, oc_backdrop := b\<rparr>)"
      "transitions (snd u) = [(n, OffcanvasShown n)]" "env (snd u) = env (snd s)"
    using Offcanvas_show_effect[OF m(1,2) p, of pj] q by (auto simp: u_def)
  have p1: "\<not> prevents (env (snd u)) (eventLog (snd u)) (n, ''hide.bs.offcanvas'')" using p u(3) by simp
  define h where "h = Offcanvas_hide pj n u"
  have sh1: "oc_isShown (m\<lparr>oc_isShown := True, oc_backdrop := b\<rparr>)" by simp
  note he = Offcanvas_hide_effect[OF u(1) sh1 p1, where pj = pj, folded h_def]
  obtain m2 where g: "oc_of (fst h) n = Some m2" "\<not> oc_isShown m2" "oc_cfg_scroll m2 = oc_cfg_scroll m"
      "oc_cfg_backdrop m2 = oc_cfg_backdrop m"
    using he(1) by force
  obtain l where l: "transitions (snd h) = [(n, OffcanvasShown n)] @ l @ [(n, OffcanvasHidden n)]"
      "snd ` set l \<subseteq> {OffcanvasBackdropHidden n}"
    using he(2) u(2) by auto
  obtain cs where cs: "waiting n (snd h) = OffcanvasShown n # cs @ [OffcanvasHidden n]" "set cs \<subseteq> {OffcanvasBackdropHidden n}"
    using waiting_between[OF l] by auto
  define v where "v = (fst h, take_waiting n (snd h))"
  have v: "oc_of (fst v) n = Some m2" using g by (simp add: v_def)
  note sh = Offcanvas_shown_effect[OF v]
  obtain f where f: "oc_of (fst (Offcanvas_shown n v)) n = Some (m2\<lparr>oc_focustrap := f\<rparr>)"
    using sh(2) by auto
  have act: "ft_isActive f" using sh(1) f m(3) g by (simp add: trap_active_def)
  define k where "k = fold (offcanvas_run pj) cs (Offcanvas_shown n v)"
  obtain b'' where k: "oc_of (fst k) n = Some (m2\<lparr>oc_focustrap := f, oc_backdrop := b''\<rparr>)"
    using fold_backdropHidden(1)[OF cs(2) f, of pj] by (auto simp: k_def)
  have t: "t = Offcanvas_hidden pj n k"
    by (simp add: t_def Offcanvas_ends_def transition_end_def u_def[symmetric] h_def[symmetric] cs(1) k_def
        v_def offcanvas_run_def)
  note hi = Offcanvas_hidden_effect[OF k, where pj = pj, folded t]
  show ?thesis using hi k act g by (simp add: oc_shown_def trap_active_def)
qed

definition closed_offcanvas :: offcanvas where
  "closed_offcanvas = \<lparr>oc_isShown = False, oc_backdrop = Offcanvas_initializeBackDrop (JBool True) 1,
    oc_focustrap = FocusTrap_new 4, oc_cfg_backdrop = JBool True, oc_cfg_keyboard = True, oc_cfg_scroll = False\<rparr>"

definition closed_state :: offcanvas_state where
  "closed_state = (\<lparr>oc_of = [4 \<mapsto> closed_offcanvas], oc_onHidden = []\<rparr>,
    blank_world (\<lambda>_. plain_node ''DIV'' None []) 5)"

lemma closed_state_simps:
  "oc_of (fst closed_state) 4 = Some closed_offcanvas" "transitions (snd closed_state) = []"
  "\<not> prevents (env (snd closed_state)) l e" "\<not> oc_isShown closed_offcanvas"
  "\<not> ft_isActive (oc_focustrap closed_offcanvas)" "\<not> oc_cfg_scroll closed_offcanvas"
  by (simp_all add: closed_state_def closed_offcanvas_def blank_world_def blank_browser_def FocusTrap_new_def)

lemma offcanvas_cycle_witness:
  "trap_active (Offcanvas_ends (\<lambda>_. None) 4 (Offcanvas_show (\<lambda>_. None) 4 closed_state)) 4"
  using offcanvas_cycle [of closed_state 4 closed_offcanvas "\<lambda>_. None"] closed_state_simps by simp

lemma offcanvas_hidden_with_active_trap_witness:
  "trap_active (Offcanvas_ends (\<lambda>_. None) 4 (Offcanvas_hide (\<lambda>_. None) 4
    (Offcanvas_show (\<lambda>_. None) 4 closed_state))) 4"
  using offcanvas_hidden_with_active_trap [of closed_state 4 closed_offcanvas "\<lambda>_. None"] closed_state_simps by simp

end
