(* ===== verification/BsToast.thy ===== *)
theory BsToast
  imports BsOverlay
begin

text \<open>
  The toast plugin of Bootstrap: one toast with its timers. A timer of \<open>setTimeout\<close> has a number;
  the armed ones are those that neither fired nor were cleared. The instance remembers only the
  number of the last one.
\<close>

record toast =
  ts_element :: node
  ts_animation :: bool
  ts_autohide :: bool
  ts_timeout :: "nat option"
  ts_armed :: "nat list"
  ts_nextTimer :: nat
  ts_mouse :: bool
  ts_keyboard :: bool

datatype toast_cb = ToastShown | ToastHidden

type_synonym toast_state = "toast \<times> toast_cb world"

definition Toast_Default :: object where
  "Toast_Default = [(''animation'', JBool True), (''autohide'', JBool True), (''delay'', JNum 5000)]"

definition Toast_setListeners :: "node \<Rightarrow> 'cb world \<Rightarrow> 'cb world" where
  "Toast_setListeners n w = listen n ''focusout.bs.toast'' (listen n ''focusin.bs.toast''
    (listen n ''mouseout.bs.toast'' (listen n ''mouseover.bs.toast'' w)))"

definition Toast_DefaultType :: "(string \<times> string) list" where
  "Toast_DefaultType = [(''animation'', ''boolean''), (''autohide'', ''boolean''), (''delay'', ''number'')]"

definition Toast_new :: "(string \<Rightarrow> jsval option) \<Rightarrow> node \<Rightarrow> jsval \<Rightarrow> toast_cb world \<Rightarrow> js_error + toast_state" where
  "Toast_new parseJson n config w =
    (case getConfig parseJson w Toast_Default Toast_DefaultType (\<lambda>c. c) config (Some n) of
       Inl e \<Rightarrow> Inl e
     | Inr cfg \<Rightarrow> Inr (\<lparr>ts_element = n, ts_animation = truthy (lookup cfg ''animation''),
        ts_autohide = truthy (lookup cfg ''autohide''), ts_timeout = None, ts_armed = [], ts_nextTimer = 0,
        ts_mouse = False, ts_keyboard = False\<rparr>, Toast_setListeners n w))"

definition Toast_isShown :: "toast_state \<Rightarrow> bool" where
  "Toast_isShown s = has_class (snd s) (ts_element (fst s)) ''show''"

definition Toast_clearTimeout :: "toast \<Rightarrow> toast" where
  "Toast_clearTimeout t = t\<lparr>ts_armed := (case ts_timeout t of None \<Rightarrow> ts_armed t | Some i \<Rightarrow> removeAll i (ts_armed t)),
    ts_timeout := None\<rparr>"

definition Toast_maybeScheduleHide :: "toast \<Rightarrow> toast" where
  "Toast_maybeScheduleHide t =
    (if \<not> ts_autohide t then t
     else if ts_mouse t \<or> ts_keyboard t then t
     else t\<lparr>ts_timeout := Some (ts_nextTimer t), ts_armed := ts_armed t @ [ts_nextTimer t],
       ts_nextTimer := Suc (ts_nextTimer t)\<rparr>)"

definition Toast_shown :: "toast_state \<Rightarrow> toast_state" where
  "Toast_shown s = (Toast_maybeScheduleHide (fst s),
    announce (ts_element (fst s)) ''shown.bs.toast'' (remove_class ''showing'' (ts_element (fst s)) (snd s)))"

definition Toast_hidden :: "toast_state \<Rightarrow> toast_state" where
  "Toast_hidden s = (let n = ts_element (fst s) in
    (fst s, announce n ''hidden.bs.toast''
      (remove_class ''show'' n (remove_class ''showing'' n (add_class ''hide'' n (snd s))))))"

definition toast_run :: "toast_cb \<Rightarrow> toast_state \<Rightarrow> toast_state" where
  "toast_run c = (case c of ToastShown \<Rightarrow> Toast_shown | ToastHidden \<Rightarrow> Toast_hidden)"

definition Toast_show :: "toast_state \<Rightarrow> toast_state" where
  "Toast_show s =
    (let n = ts_element (fst s); (prevented, w) = trigger n ''show.bs.toast'' (snd s) in
     if prevented then (fst s, w)
     else
       let t = Toast_clearTimeout (fst s);
           w1 = (if ts_animation t then add_class ''fade'' n w else w);
           w2 = add_class ''showing'' n (add_class ''show'' n (remove_class ''hide'' n w1)) in
       executeAfterTransition toast_run ToastShown n (ts_animation t) (t, w2))"

definition Toast_hide :: "toast_state \<Rightarrow> toast_state" where
  "Toast_hide s =
    (if \<not> Toast_isShown s then s
     else let n = ts_element (fst s); (prevented, w) = trigger n ''hide.bs.toast'' (snd s) in
       if prevented then (fst s, w)
       else executeAfterTransition toast_run ToastHidden n (ts_animation (fst s))
         (fst s, add_class ''showing'' n w))"

definition Toast_dispose :: "toast_state \<Rightarrow> toast_state" where
  "Toast_dispose s =
    (let n = ts_element (fst s);
         w = (if Toast_isShown s then remove_class ''show'' n (snd s) else snd s) in
     (Toast_clearTimeout (fst s), unlisten_ns n ''.bs.toast'' w))"

text \<open>The timer with the number \<open>i\<close> fires when it is armed.\<close>

definition Toast_timer :: "nat \<Rightarrow> toast_state \<Rightarrow> toast_state" where
  "Toast_timer i s =
    (if i \<in> set (ts_armed (fst s))
     then Toast_hide ((fst s)\<lparr>ts_armed := removeAll i (ts_armed (fst s))\<rparr>, snd s) else s)"

definition Toast_onInteraction :: "string \<Rightarrow> node option \<Rightarrow> bool \<Rightarrow> toast_state \<Rightarrow> toast_state" where
  "Toast_onInteraction type relatedTarget isInteracting s =
    (let t = (if type \<in> {''mouseover'', ''mouseout''} then (fst s)\<lparr>ts_mouse := isInteracting\<rparr>
              else if type \<in> {''focusin'', ''focusout''} then (fst s)\<lparr>ts_keyboard := isInteracting\<rparr>
              else fst s) in
     if isInteracting then (Toast_clearTimeout t, snd s)
     else (case relatedTarget of
         Some nextElement \<Rightarrow>
           if node_contains (snd s) (ts_element t) nextElement then (t, snd s)
           else (Toast_maybeScheduleHide t, snd s)
       | None \<Rightarrow> (Toast_maybeScheduleHide t, snd s)))"

section \<open>Showing, hiding and the timers\<close>

text \<open>What showing a toast up to the end of its transition does.\<close>

definition Toast_ends :: "toast_state \<Rightarrow> toast_state" where
  "Toast_ends s = transition_end toast_run (ts_element (fst s)) s"

lemma toast_fields [simp]:
  "ts_element (Toast_clearTimeout t) = ts_element t" "ts_animation (Toast_clearTimeout t) = ts_animation t"
  "ts_autohide (Toast_clearTimeout t) = ts_autohide t" "ts_mouse (Toast_clearTimeout t) = ts_mouse t"
  "ts_keyboard (Toast_clearTimeout t) = ts_keyboard t" "ts_nextTimer (Toast_clearTimeout t) = ts_nextTimer t"
  "ts_element (Toast_maybeScheduleHide t) = ts_element t"
  "ts_animation (Toast_maybeScheduleHide t) = ts_animation t"
  "ts_autohide (Toast_maybeScheduleHide t) = ts_autohide t"
  "ts_mouse (Toast_maybeScheduleHide t) = ts_mouse t" "ts_keyboard (Toast_maybeScheduleHide t) = ts_keyboard t"
  by (simp_all add: Toast_clearTimeout_def Toast_maybeScheduleHide_def)

definition toast_ready :: "toast \<Rightarrow> bool" where
  "toast_ready t \<longleftrightarrow> ts_autohide t \<and> \<not> ts_mouse t \<and> \<not> ts_keyboard t"

lemma schedule_ready: "toast_ready t \<Longrightarrow> Toast_maybeScheduleHide t =
    t\<lparr>ts_timeout := Some (ts_nextTimer t), ts_armed := ts_armed t @ [ts_nextTimer t],
       ts_nextTimer := Suc (ts_nextTimer t)\<rparr>"
  by (simp add: toast_ready_def Toast_maybeScheduleHide_def)

lemma ready_simps [simp]: "toast_ready (Toast_clearTimeout t) = toast_ready t"
  "toast_ready (t\<lparr>ts_timeout := i, ts_armed := l, ts_nextTimer := k\<rparr>) = toast_ready t"
  by (simp_all add: toast_ready_def)

text \<open>The page while the toast appears.\<close>

definition toast_appearing :: "bool \<Rightarrow> node \<Rightarrow> 'cb world \<Rightarrow> 'cb world" where
  "toast_appearing animated n w = add_class ''showing'' n (add_class ''show'' n (remove_class ''hide'' n
    (if animated then add_class ''fade'' n (announce n ''show.bs.toast'' w) else announce n ''show.bs.toast'' w)))"

lemma appearing_simps [simp]:
  "transitions (toast_appearing a n w) = transitions w" "env (toast_appearing a n w) = env w"
  "eventLog (toast_appearing a n w) = eventLog w @ [(n, ''show.bs.toast'')]"
  "has_class (toast_appearing a n w) n ''show''"
  by (simp_all add: toast_appearing_def)

lemma Toast_show_run:
  assumes "\<not> prevents (env w) (eventLog w) (ts_element t, ''show.bs.toast'')"
  shows "Toast_show (t, w) = executeAfterTransition toast_run ToastShown (ts_element t) (ts_animation t)
    (Toast_clearTimeout t, toast_appearing (ts_animation t) (ts_element t) w)"
  using assms by (simp add: Toast_show_def trigger_eq toast_appearing_def Let_def)

lemma Toast_hide_run:
  assumes "\<not> prevents (env w) (eventLog w) (ts_element t, ''hide.bs.toast'')"
    and "has_class w (ts_element t) ''show''"
  shows "Toast_hide (t, w) = executeAfterTransition toast_run ToastHidden (ts_element t) (ts_animation t)
    (t, add_class ''showing'' (ts_element t) (announce (ts_element t) ''hide.bs.toast'' w))"
  using assms by (simp add: Toast_hide_def Toast_isShown_def trigger_eq Let_def)

lemma ends_after:
  assumes "transitions w = []" and "\<And>t v. transitions v = [] \<Longrightarrow> transitions (snd (toast_run c (t, v))) = []"
  shows "Toast_ends (executeAfterTransition toast_run c (ts_element t) a (t, w)) = toast_run c (t, w)"
proof (cases a)
  case True
  then show ?thesis using assms(1) by (simp add: Toast_ends_def)
next
  case False
  have "transitions (snd (toast_run c (t, w))) = []" using assms by blast
  then have "Toast_ends (toast_run c (t, w)) = toast_run c (t, w)"
    by (simp add: Toast_ends_def transition_end_def take_waiting_none)
  then show ?thesis using False by simp
qed

lemma toast_run_quiet: "transitions (snd (toast_run c s)) = transitions (snd s)"
  by (cases c) (simp_all add: toast_run_def Toast_shown_def Toast_hidden_def Let_def)

lemma Toast_show_ends:
  assumes "\<not> prevents (env w) (eventLog w) (ts_element t, ''show.bs.toast'')" and "transitions w = []"
  shows "Toast_ends (Toast_show (t, w)) =
    Toast_shown (Toast_clearTimeout t, toast_appearing (ts_animation t) (ts_element t) w)"
  using ends_after[of "toast_appearing (ts_animation t) (ts_element t) w" ToastShown "Toast_clearTimeout t" "ts_animation t"]
    assms by (simp add: Toast_show_run toast_run_quiet) (simp add: toast_run_def)

text \<open>
  C31: an autohiding toast hides itself. Shown while nobody points at it or has the focus in it,
  it ends up visible with an armed timer; when that timer fires it is hidden at the end of its
  transition, and the four events came in their order.\<close>

theorem toast_hides_itself:
  assumes r: "toast_ready t" and q: "transitions w = []" and p: "\<And>l e. \<not> prevents (env w) l e"
  defines "s1 \<equiv> Toast_ends (Toast_show (t, w))" and "n \<equiv> ts_element t"
  shows "\<exists>i \<in> set (ts_armed (fst s1)). ts_timeout (fst s1) = Some i \<and> Toast_isShown s1 \<and>
    \<not> Toast_isShown (Toast_ends (Toast_timer i s1)) \<and> i \<notin> set (ts_armed (fst (Toast_ends (Toast_timer i s1)))) \<and>
    eventLog (snd (Toast_ends (Toast_timer i s1))) = eventLog w @
      [(n, ''show.bs.toast''), (n, ''shown.bs.toast''), (n, ''hide.bs.toast''), (n, ''hidden.bs.toast'')]"
proof -
  define u where "u = Toast_clearTimeout t"
  define i where "i = ts_nextTimer t"
  define t1 where "t1 = Toast_maybeScheduleHide u"
  define v where "v = announce n ''shown.bs.toast'' (remove_class ''showing'' n (toast_appearing (ts_animation t) n w))"
  have s1: "s1 = (t1, v)"
    using p q by (simp add: s1_def Toast_show_ends Toast_shown_def t1_def u_def v_def n_def)
  have t1: "t1 = u\<lparr>ts_timeout := Some i, ts_armed := ts_armed u @ [i], ts_nextTimer := Suc i\<rparr>"
    using r by (simp add: t1_def schedule_ready u_def i_def)
  have v: "transitions v = []" "has_class v n ''show''" "env v = env w"
      "eventLog v = eventLog w @ [(n, ''show.bs.toast''), (n, ''shown.bs.toast'')]"
    using q by (simp_all add: v_def)
  define t2 where "t2 = t1\<lparr>ts_armed := removeAll i (ts_armed t1)\<rparr>"
  have el: "ts_element t1 = n" "ts_element t2 = n" by (simp_all add: t1 t2_def u_def n_def)
  have "Toast_timer i s1 = Toast_hide (t2, v)" by (simp add: Toast_timer_def s1 t1 t2_def)
  also have "\<dots> = executeAfterTransition toast_run ToastHidden n (ts_animation t2)
      (t2, add_class ''showing'' n (announce n ''hide.bs.toast'' v))"
    using Toast_hide_run[of v t2] p v by (simp add: el)
  finally have "Toast_ends (Toast_timer i s1) = toast_run ToastHidden (t2, add_class ''showing'' n (announce n ''hide.bs.toast'' v))"
    using ends_after[of "add_class ''showing'' n (announce n ''hide.bs.toast'' v)" ToastHidden t2 "ts_animation t2"] v
    by (simp add: el toast_run_quiet)
  then have e: "Toast_ends (Toast_timer i s1) = Toast_hidden (t2, add_class ''showing'' n (announce n ''hide.bs.toast'' v))"
    by (simp add: toast_run_def)
  have a: "i \<in> set (ts_armed (fst s1))" "ts_timeout (fst s1) = Some i" by (simp_all add: s1 t1)
  have b: "Toast_isShown s1" by (simp add: s1 Toast_isShown_def el v)
  have c: "\<not> Toast_isShown (Toast_ends (Toast_timer i s1))"
    unfolding e by (simp add: Toast_isShown_def Toast_hidden_def el Let_def)
  have d: "i \<notin> set (ts_armed (fst (Toast_ends (Toast_timer i s1))))"
    unfolding e by (simp add: Toast_hidden_def t2_def Let_def)
  have f: "eventLog (snd (Toast_ends (Toast_timer i s1))) = eventLog w @
      [(n, ''show.bs.toast''), (n, ''shown.bs.toast''), (n, ''hide.bs.toast''), (n, ''hidden.bs.toast'')]"
    unfolding e by (simp add: Toast_hidden_def el v Let_def)
  show ?thesis using a b c d f by blast
qed

text \<open>
  Calling \<open>show\<close> again before the transition of the first call has ended arms two timers, and
  the instance remembers only the second. The mouse over the toast clears that one; the other
  still fires and hides the toast under the mouse.\<close>

theorem toast_leaked_timer:
  assumes r: "toast_ready t" "ts_animation t" and q: "transitions w = []" and p: "\<And>l e. \<not> prevents (env w) l e"
  defines "s1 \<equiv> Toast_ends (Toast_show (Toast_show (t, w)))"
  defines "s2 \<equiv> Toast_onInteraction ''mouseover'' None True s1"
  shows "\<exists>i \<in> set (ts_armed (fst s2)). ts_mouse (fst s2) \<and> Toast_isShown s2 \<and>
    \<not> Toast_isShown (Toast_ends (Toast_timer i s2))"
proof -
  define n where "n = ts_element t"
  define k where "k = ts_nextTimer t"
  define u where "u = Toast_clearTimeout (Toast_clearTimeout t)"
  define w1 where "w1 = (toast_appearing True n w)\<lparr>transitions := [(n, ToastShown)]\<rparr>"
  have one: "Toast_show (t, w) = (Toast_clearTimeout t, w1)"
    using p r q by (simp add: Toast_show_run w1_def n_def)
  define w2 where "w2 = toast_appearing True n w1"
  have w2: "transitions w2 = [(n, ToastShown)]" "env w2 = env w" by (simp_all add: w2_def w1_def)
  have "Toast_show (Toast_clearTimeout t, w1) = executeAfterTransition toast_run ToastShown n True (u, w2)"
    using p r by (simp add: Toast_show_run n_def w1_def u_def w2_def)
  then have two: "Toast_show (Toast_show (t, w)) = (u, w2\<lparr>transitions := [(n, ToastShown), (n, ToastShown)]\<rparr>)"
    by (simp add: one w2)
  have el: "ts_element u = n" by (simp add: u_def n_def)
  define x where "x = w2\<lparr>transitions := []\<rparr>"
  have s1: "s1 = Toast_shown (Toast_shown (u, x))"
    by (simp add: s1_def two Toast_ends_def transition_end_def waiting_def take_waiting_def el toast_run_def x_def)
  define v where "v = announce n ''shown.bs.toast'' (remove_class ''showing'' n
    (announce n ''shown.bs.toast'' (remove_class ''showing'' n x)))"
  have k: "ts_nextTimer u = k" by (simp add: u_def k_def)
  have "toast_ready u" using r by (simp add: u_def)
  then have s1': "s1 = (u\<lparr>ts_timeout := Some (Suc k), ts_armed := ts_armed u @ [k, Suc k], ts_nextTimer := Suc (Suc k)\<rparr>, v)"
    by (simp add: s1 Toast_shown_def schedule_ready el k v_def)
  define t2 where "t2 = Toast_clearTimeout (u\<lparr>ts_timeout := Some (Suc k), ts_armed := ts_armed u @ [k, Suc k],
      ts_nextTimer := Suc (Suc k), ts_mouse := True\<rparr>)"
  have s2: "s2 = (t2, v)" by (simp add: s2_def Toast_onInteraction_def s1' t2_def)
  have t2: "k \<in> set (ts_armed t2)" "ts_mouse t2" "ts_element t2 = n"
    by (simp_all add: t2_def Toast_clearTimeout_def el)
  have v: "has_class v n ''show''" "transitions v = []" "env v = env w"
    by (simp_all add: v_def x_def w2) (simp add: w2_def)
  define t3 where "t3 = t2\<lparr>ts_armed := removeAll k (ts_armed t2)\<rparr>"
  have t3: "ts_element t3 = n" by (simp add: t3_def t2)
  have "Toast_timer k s2 = Toast_hide (t3, v)" using t2 by (simp add: Toast_timer_def s2 t3_def)
  also have "\<dots> = executeAfterTransition toast_run ToastHidden n (ts_animation t3)
      (t3, add_class ''showing'' n (announce n ''hide.bs.toast'' v))"
    using Toast_hide_run[of v t3] p v by (simp add: t3)
  finally have "Toast_ends (Toast_timer k s2) = Toast_hidden (t3, add_class ''showing'' n (announce n ''hide.bs.toast'' v))"
    using ends_after[of "add_class ''showing'' n (announce n ''hide.bs.toast'' v)" ToastHidden t3 "ts_animation t3"] v
    by (simp add: t3 toast_run_quiet) (simp add: toast_run_def)
  then have "\<not> Toast_isShown (Toast_ends (Toast_timer k s2))"
    by (simp add: Toast_isShown_def Toast_hidden_def t3 Let_def)
  moreover have "Toast_isShown s2" by (simp add: Toast_isShown_def s2 t2 v)
  ultimately show ?thesis using t2 by (auto simp: s2)
qed

definition a_toast :: toast where
  "a_toast = \<lparr>ts_element = 4, ts_animation = True, ts_autohide = True, ts_timeout = None, ts_armed = [],
    ts_nextTimer = 0, ts_mouse = False, ts_keyboard = False\<rparr>"

definition toast_world :: "toast_cb world" where
  "toast_world = blank_world (\<lambda>_. plain_node ''DIV'' None []) 5"

lemma toast_facts: "toast_ready a_toast" "ts_animation a_toast" "transitions toast_world = []"
  "\<not> prevents (env toast_world) l e"
  by (simp_all add: a_toast_def toast_ready_def toast_world_def blank_world_def blank_browser_def)

lemma toast_hides_itself_witness:
  "\<exists>i. \<not> Toast_isShown (Toast_ends (Toast_timer i (Toast_ends (Toast_show (a_toast, toast_world)))))"
  using toast_hides_itself [OF toast_facts(1,3,4)] by blast

lemma toast_leaked_timer_witness:
  "\<exists>i. \<not> Toast_isShown (Toast_ends (Toast_timer i (Toast_onInteraction ''mouseover'' None True
    (Toast_ends (Toast_show (Toast_show (a_toast, toast_world)))))))"
  using toast_leaked_timer [OF toast_facts] by blast

end
