(* ===== verification/BsTab.thy ===== *)
theory BsTab
  imports BsBasics
begin

text \<open>
  The tab plugin of Bootstrap. Activating an element also activates the target of its selector,
  and the target of that one, until there is none; a cycle of targets overflows the stack of the
  code, here the fuel runs out and the result is \<open>None\<close>. The number of nodes of the page is
  enough for every chain without a cycle. The instances of all elements are a map from the
  element to its list.
\<close>

datatype tab_cb = TabActivated node | TabDeactivated node

type_synonym tab_state = "(node \<Rightarrow> node option option) \<times> tab_cb world"

section \<open>Selectors\<close>

definition is_tab_panel :: "'cb world \<Rightarrow> node \<Rightarrow> bool" where
  "is_tab_panel w n \<longleftrightarrow> has_class w n ''list-group'' \<or> has_class w n ''nav'' \<or> get_attr w n ''role'' = Some ''tablist''"

definition is_outer :: "'cb world \<Rightarrow> node \<Rightarrow> bool" where
  "is_outer w n \<longleftrightarrow> has_class w n ''nav-item'' \<or> has_class w n ''list-group-item''"

definition is_tab_toggle :: "'cb world \<Rightarrow> node \<Rightarrow> bool" where
  "is_tab_toggle w n \<longleftrightarrow> get_attr w n ''data-bs-toggle'' \<in> {Some ''tab'', Some ''pill'', Some ''list''}"

definition is_inner :: "'cb world \<Rightarrow> node \<Rightarrow> bool" where
  "is_inner w n \<longleftrightarrow> \<not> has_class w n ''dropdown-toggle'' \<and>
      (has_class w n ''nav-link'' \<or> has_class w n ''list-group-item'' \<or> get_attr w n ''role'' = Some ''tab'') \<or>
    is_tab_toggle w n"

section \<open>Elements of a list\<close>

definition Tab_elemIsActive :: "'cb world \<Rightarrow> node \<Rightarrow> bool" where
  "Tab_elemIsActive w n = has_class w n ''active''"

definition Tab_getInnerElement :: "'cb world \<Rightarrow> node \<Rightarrow> node option" where
  "Tab_getInnerElement w n = (if is_inner w n then Some n else query_one (is_inner w) w n)"

definition Tab_getOuterElement :: "'cb world \<Rightarrow> node \<Rightarrow> node" where
  "Tab_getOuterElement w n = (case closest (is_outer w) w n of Some m \<Rightarrow> m | None \<Rightarrow> n)"

definition Tab_getChildren :: "'cb world \<Rightarrow> node \<Rightarrow> node list" where
  "Tab_getChildren w parent = query_all (is_inner w) w parent"

definition Tab_getActiveElem :: "'cb world \<Rightarrow> node \<Rightarrow> node option" where
  "Tab_getActiveElem w parent = List.find (Tab_elemIsActive w) (Tab_getChildren w parent)"

section \<open>Attributes\<close>

definition Tab_setAttributeIfNotExists :: "node \<Rightarrow> string \<Rightarrow> string \<Rightarrow> 'cb world \<Rightarrow> 'cb world" where
  "Tab_setAttributeIfNotExists n attribute v w = (if \<not> has_attr w n attribute then set_attr attribute v n w else w)"

definition Tab_setInitialAttributesOnTargetPanel :: "node \<Rightarrow> 'cb world \<Rightarrow> 'cb world" where
  "Tab_setInitialAttributesOnTargetPanel child w = (case getElementFromSelector w child of None \<Rightarrow> w
    | Some target \<Rightarrow>
        let w1 = Tab_setAttributeIfNotExists target ''role'' ''tabpanel'' w in
        (case nonempty (get_attr w1 child ''id'') of
           Some i \<Rightarrow> Tab_setAttributeIfNotExists target ''aria-labelledby'' i w1
         | None \<Rightarrow> w1))"

definition Tab_setInitialAttributesOnChild :: "node \<Rightarrow> 'cb world \<Rightarrow> 'cb world" where
  "Tab_setInitialAttributesOnChild ch w = (case Tab_getInnerElement w ch of None \<Rightarrow> w
    | Some child \<Rightarrow>
        let isActive = Tab_elemIsActive w child;
            outerElem = Tab_getOuterElement w child;
            w1 = set_attr ''aria-selected'' (boolStr isActive) child w;
            w2 = (if outerElem \<noteq> child then Tab_setAttributeIfNotExists outerElem ''role'' ''presentation'' w1 else w1);
            w3 = (if \<not> isActive then set_attr ''tabindex'' ''-1'' child w2 else w2);
            w4 = Tab_setAttributeIfNotExists child ''role'' ''tab'' w3 in
        Tab_setInitialAttributesOnTargetPanel child w4)"

definition Tab_setInitialAttributes :: "node \<Rightarrow> node list \<Rightarrow> 'cb world \<Rightarrow> 'cb world" where
  "Tab_setInitialAttributes parent children w =
    fold Tab_setInitialAttributesOnChild children (Tab_setAttributeIfNotExists parent ''role'' ''tablist'' w)"

definition Tab_toggleDropDown :: "node \<Rightarrow> bool \<Rightarrow> 'cb world \<Rightarrow> 'cb world" where
  "Tab_toggleDropDown element opening w =
    (let outerElem = Tab_getOuterElement w element;
         toggle = (\<lambda>sel className v. case query_one (\<lambda>n. has_class v n sel) v outerElem of
             Some e \<Rightarrow> toggle_class className opening e v | None \<Rightarrow> v) in
     if \<not> has_class w outerElem ''dropdown'' then w
     else set_attr ''aria-expanded'' (boolStr opening) outerElem
       (toggle ''dropdown-menu'' ''show'' (toggle ''dropdown-toggle'' ''active'' w)))"

section \<open>Creation\<close>

definition Tab_new :: "node \<Rightarrow> tab_state \<Rightarrow> tab_state" where
  "Tab_new n s =
    (let parent = closest (is_tab_panel (snd s)) (snd s) n in
     ((fst s)(n := Some parent),
      case parent of None \<Rightarrow> snd s
      | Some p \<Rightarrow> listen n ''keydown.bs.tab''
          (Tab_setInitialAttributes p (Tab_getChildren (snd s) p) (snd s))))"

definition Tab_getOrCreate :: "node \<Rightarrow> tab_state \<Rightarrow> tab_state" where
  "Tab_getOrCreate n s = (case fst s n of Some _ \<Rightarrow> s | None \<Rightarrow> Tab_new n s)"

section \<open>Activation\<close>

definition Tab_activated :: "node \<Rightarrow> 'cb world \<Rightarrow> 'cb world" where
  "Tab_activated element w =
    (if get_attr w element ''role'' \<noteq> Some ''tab'' then add_class ''show'' element w
     else announce element ''shown.bs.tab'' (Tab_toggleDropDown element True
       (set_attr ''aria-selected'' ''true'' element (remove_attr ''tabindex'' element w))))"

definition Tab_deactivated :: "node \<Rightarrow> 'cb world \<Rightarrow> 'cb world" where
  "Tab_deactivated element w =
    (if get_attr w element ''role'' \<noteq> Some ''tab'' then remove_class ''show'' element w
     else announce element ''hidden.bs.tab'' (Tab_toggleDropDown element False
       (set_attr ''tabindex'' ''-1'' element (set_attr ''aria-selected'' ''false'' element w))))"

definition tab_run :: "tab_cb \<Rightarrow> 'i \<times> tab_cb world \<Rightarrow> 'i \<times> tab_cb world" where
  "tab_run c s = (fst s, case c of
      TabActivated n \<Rightarrow> Tab_activated n (snd s) | TabDeactivated n \<Rightarrow> Tab_deactivated n (snd s))"

fun Tab_activate :: "nat \<Rightarrow> node option \<Rightarrow> 'i \<times> tab_cb world \<Rightarrow> ('i \<times> tab_cb world) option" where
  "Tab_activate fuel None s = Some s"
| "Tab_activate 0 (Some element) s = None"
| "Tab_activate (Suc fuel) (Some element) s =
    (let w = add_class ''active'' element (snd s) in
     case Tab_activate fuel (getElementFromSelector w element) (fst s, w) of
       None \<Rightarrow> None
     | Some s' \<Rightarrow> Some (executeAfterTransition tab_run (TabActivated element) element
         (has_class (snd s') element ''fade'') s'))"

fun Tab_deactivate :: "nat \<Rightarrow> node option \<Rightarrow> 'i \<times> tab_cb world \<Rightarrow> ('i \<times> tab_cb world) option" where
  "Tab_deactivate fuel None s = Some s"
| "Tab_deactivate 0 (Some element) s = None"
| "Tab_deactivate (Suc fuel) (Some element) s =
    (let w = blur element (remove_class ''active'' element (snd s)) in
     case Tab_deactivate fuel (getElementFromSelector w element) (fst s, w) of
       None \<Rightarrow> None
     | Some s' \<Rightarrow> Some (executeAfterTransition tab_run (TabDeactivated element) element
         (has_class (snd s') element ''fade'') s'))"

text \<open>An instance without a list throws when it looks for its active element.\<close>

definition Tab_show :: "node \<Rightarrow> tab_state \<Rightarrow> tab_state option" where
  "Tab_show innerElem s = (case fst s innerElem of None \<Rightarrow> Some s
    | Some parent \<Rightarrow>
        if Tab_elemIsActive (snd s) innerElem then Some s
        else (case parent of None \<Rightarrow> Some s
          | Some p \<Rightarrow>
              let active = Tab_getActiveElem (snd s) p;
                  (hidePrevented, w1) = (case active of
                      Some a \<Rightarrow> trigger a ''hide.bs.tab'' (snd s) | None \<Rightarrow> (False, snd s));
                  (showPrevented, w2) = trigger innerElem ''show.bs.tab'' w1 in
              if showPrevented \<or> hidePrevented then Some (fst s, w2)
              else
                let fuel = Suc (nodeCount w2) in
                (case Tab_deactivate fuel active (fst s, w2) of None \<Rightarrow> None
                 | Some s' \<Rightarrow> Tab_activate fuel (Some innerElem) s')))"

section \<open>Listeners\<close>

definition Tab_keys :: "string list" where
  "Tab_keys = [''ArrowLeft'', ''ArrowRight'', ''ArrowUp'', ''ArrowDown'', ''Home'', ''End'']"

definition Tab_keydown_next :: "'cb world \<Rightarrow> node \<Rightarrow> node \<Rightarrow> string \<Rightarrow> node option" where
  "Tab_keydown_next w parent target key =
    (let children = filter (\<lambda>n. \<not> isDisabled w (Some n)) (Tab_getChildren w parent) in
     if key \<in> {''Home'', ''End''}
     then at_index children (if key = ''Home'' then 0 else int (length children) - 1)
     else getNextActiveElement children (Some target) (key \<in> {''ArrowRight'', ''ArrowDown''}) True)"

definition Tab_keydown :: "node \<Rightarrow> node \<Rightarrow> string \<Rightarrow> tab_state \<Rightarrow> tab_state option" where
  "Tab_keydown this target key s = (case fst s this of
      Some (Some parent) \<Rightarrow>
        if key \<notin> set Tab_keys then Some s
        else (case Tab_keydown_next (snd s) parent target key of
            None \<Rightarrow> Some s
          | Some n \<Rightarrow> Tab_show n (Tab_getOrCreate n (fst s, focus_on n (snd s))))
    | _ \<Rightarrow> Some s)"

definition Tab_data_api_click :: "node \<Rightarrow> tab_state \<Rightarrow> tab_state option" where
  "Tab_data_api_click this s =
    (if isDisabled (snd s) (Some this) then Some s else Tab_show this (Tab_getOrCreate this s))"

definition Tab_load :: "tab_state \<Rightarrow> tab_state" where
  "Tab_load s = fold Tab_getOrCreate
    (query_all (\<lambda>n. has_class (snd s) n ''active'' \<and> is_tab_toggle (snd s) n) (snd s) documentElement) s"

definition Tab_ends :: "node \<Rightarrow> tab_state \<Rightarrow> tab_state" where
  "Tab_ends n s = transition_end tab_run n s"


section \<open>Switching tabs\<close>

text \<open>What showing a tab leaves alone: the tree, the environment, every class but two and the
  attributes that selectors of targets are read from.\<close>

definition tab_frame :: "'cb world \<Rightarrow> 'cb world \<Rightarrow> bool" where
  "tab_frame w v \<longleftrightarrow> same_tree w v \<and> env v = env w \<and>
    (\<forall>m c. c \<notin> {''active'', ''show''} \<longrightarrow> has_class v m c = has_class w m c) \<and>
    (\<forall>m x. x \<notin> {''aria-selected'', ''tabindex''} \<longrightarrow> get_attr v m x = get_attr w m x)"

lemma tab_frame_class [simp]:
  assumes "c \<in> {''active'', ''show''}"
  shows "tab_frame w (add_class c n v) = tab_frame w v" "tab_frame w (remove_class c n v) = tab_frame w v"
proof -
  have "d \<notin> {''active'', ''show''} \<Longrightarrow> has_class (add_class c n v) m d = has_class v m d \<and>
      has_class (remove_class c n v) m d = has_class v m d" for m d
    using assms by auto
  then show "tab_frame w (add_class c n v) = tab_frame w v" "tab_frame w (remove_class c n v) = tab_frame w v"
    unfolding tab_frame_def by simp_all
qed

lemma tab_frame_attr [simp]:
  assumes "a \<in> {''aria-selected'', ''tabindex''}"
  shows "tab_frame w (set_attr a x n v) = tab_frame w v" "tab_frame w (remove_attr a n v) = tab_frame w v"
proof -
  have "y \<notin> {''aria-selected'', ''tabindex''} \<Longrightarrow> get_attr (set_attr a x n v) m y = get_attr v m y \<and>
      get_attr (remove_attr a n v) m y = get_attr v m y" for m y
    using assms by auto
  then show "tab_frame w (set_attr a x n v) = tab_frame w v" "tab_frame w (remove_attr a n v) = tab_frame w v"
    unfolding tab_frame_def by simp_all
qed

lemma tab_frame_simps [simp]:
  "tab_frame w w" "tab_frame w (blur n v) = tab_frame w v" "tab_frame w (announce n e v) = tab_frame w v"
  "tab_frame w (v\<lparr>transitions := ts\<rparr>) = tab_frame w v"
  by (simp_all add: tab_frame_def)

text \<open>The target of an element is fixed by the page's tree and selectors, and is not in a dropdown.\<close>

definition fixed_target :: "'cb world \<Rightarrow> node \<Rightarrow> node option \<Rightarrow> bool" where
  "fixed_target w n t \<longleftrightarrow> (\<forall>v. tab_frame w v \<longrightarrow> getElementFromSelector v n = t)"

definition no_dropdown :: "'cb world \<Rightarrow> node \<Rightarrow> bool" where
  "no_dropdown w n \<longleftrightarrow> (\<forall>m \<in> set (inclusive_ancestors w n). \<not> has_class w m ''dropdown'')"

lemma closest_mem: "closest P w n = Some m \<Longrightarrow> m \<in> set (inclusive_ancestors w n)"
  unfolding closest_def by (auto simp: find_Some_iff)

lemma toggleDropDown_none:
  assumes "no_dropdown w n" and "tab_frame w v"
  shows "Tab_toggleDropDown n b v = v"
proof -
  have a: "inclusive_ancestors v n = inclusive_ancestors w n"
    using assms(2) by (intro same_tree_ancestors) (simp add: tab_frame_def)
  have "Tab_getOuterElement v n \<in> set (inclusive_ancestors w n)"
    using closest_mem[of "is_outer v" v n] a
    by (cases "closest (is_outer v) v n") (auto simp: Tab_getOuterElement_def inclusive_ancestors_def)
  then have "\<not> has_class v (Tab_getOuterElement v n) ''dropdown''"
    using assms by (simp add: no_dropdown_def tab_frame_def)
  then show ?thesis by (simp add: Tab_toggleDropDown_def Let_def)
qed

text \<open>A tab with its panel leaves, and another arrives: what each of the two does to classes, attributes, transitions and
  events, in a world that keeps the frame. The panel completes at once, or waits for its transition when it fades.\<close>

lemma frame_role: "tab_frame w v \<Longrightarrow> get_attr v m ''role'' = get_attr w m ''role''"
  by (simp add: tab_frame_def)

lemma frame_fade: "tab_frame w v \<Longrightarrow> has_class v m ''fade'' = has_class w m ''fade''"
  by (simp add: tab_frame_def)

lemma frame_target: "tab_frame w v \<Longrightarrow> fixed_target w m t \<Longrightarrow> getElementFromSelector v m = t"
  by (simp add: fixed_target_def)

lemma deactivate_pair:
  assumes v: "tab_frame w v" and t: "fixed_target w a (Some pa)" "fixed_target w pa None"
    and role: "get_attr w a ''role'' = Some ''tab''" "get_attr w pa ''role'' \<noteq> Some ''tab''"
    and drop: "no_dropdown w a" and fade: "\<not> has_class w a ''fade''"
  obtains u where "Tab_deactivate (Suc (Suc j)) (Some a) (f, v) = Some (f, u)" "tab_frame w u"
    "transitions u = transitions v @ (if has_class w pa ''fade'' then [(pa, TabDeactivated pa)] else [])"
    "eventLog u = eventLog v @ [(a, ''hidden.bs.tab'')]"
    "\<And>m c. has_class u m c \<longleftrightarrow> has_class v m c \<and> \<not> (m \<in> {a, pa} \<and> c = ''active'') \<and>
       \<not> (m = pa \<and> c = ''show'' \<and> \<not> has_class w pa ''fade'')"
    "\<And>m x. get_attr u m x = (if m = a \<and> x = ''aria-selected'' then Some ''false'' else if m = a \<and> x = ''tabindex'' then Some ''-1''
       else get_attr v m x)"
proof -
  define v1 where "v1 = blur a (remove_class ''active'' a v)"
  define v2 where "v2 = blur pa (remove_class ''active'' pa v1)"
  define sp where "sp = executeAfterTransition tab_run (TabDeactivated pa) pa (has_class w pa ''fade'') (f, v2)"
  have fr: "tab_frame w v1" "tab_frame w v2" using v by (simp_all add: v1_def v2_def)
  have sp: "sp = (f, if has_class w pa ''fade'' then v2\<lparr>transitions := transitions v2 @ [(pa, TabDeactivated pa)]\<rparr>
      else remove_class ''show'' pa v2)"
    using role frame_role [OF fr(2)] by (simp add: sp_def executeAfterTransition_def tab_run_def Tab_deactivated_def)
  have frs: "tab_frame w (snd sp)" using fr by (simp add: sp)
  define u where "u = announce a ''hidden.bs.tab'' (set_attr ''tabindex'' ''-1'' a (set_attr ''aria-selected'' ''false'' a (snd sp)))"
  have "Tab_toggleDropDown a False x = x" if "tab_frame w x" for x using toggleDropDown_none [OF drop that] .
  then have u: "Tab_deactivated a (snd sp) = u" using role frame_role [OF frs] frs by (simp add: Tab_deactivated_def u_def)
  have "Tab_deactivate (Suc j) (Some pa) (f, v1) = Some sp"
    using frame_target [OF fr(2) t(2)] frame_fade [OF fr(2)] by (simp add: v2_def[symmetric] sp_def)
  then have run: "Tab_deactivate (Suc (Suc j)) (Some a) (f, v) = Some (f, u)"
    using frame_target [OF fr(1) t(1)] frame_fade [OF frs] fade u by (simp add: v1_def[symmetric] tab_run_def) (simp add: sp)
  show thesis
  proof (rule that [OF run])
    show "tab_frame w u" using frs by (simp add: u_def)
  qed (auto simp: u_def sp v1_def v2_def)
qed

lemma activate_pair:
  assumes v: "tab_frame w v" and t: "fixed_target w n (Some pn)" "fixed_target w pn None"
    and role: "get_attr w n ''role'' = Some ''tab''" "get_attr w pn ''role'' \<noteq> Some ''tab''"
    and drop: "no_dropdown w n" and fade: "\<not> has_class w n ''fade''"
  obtains u where "Tab_activate (Suc (Suc j)) (Some n) (f, v) = Some (f, u)" "tab_frame w u"
    "transitions u = transitions v @ (if has_class w pn ''fade'' then [(pn, TabActivated pn)] else [])"
    "eventLog u = eventLog v @ [(n, ''shown.bs.tab'')]"
    "\<And>m c. has_class u m c \<longleftrightarrow> has_class v m c \<or> m \<in> {n, pn} \<and> c = ''active'' \<or> m = pn \<and> c = ''show'' \<and> \<not> has_class w pn ''fade''"
    "\<And>m x. get_attr u m x = (if m = n \<and> x = ''aria-selected'' then Some ''true'' else if m = n \<and> x = ''tabindex'' then None
       else get_attr v m x)"
proof -
  define v1 where "v1 = add_class ''active'' n v"
  define v2 where "v2 = add_class ''active'' pn v1"
  define sp where "sp = executeAfterTransition tab_run (TabActivated pn) pn (has_class w pn ''fade'') (f, v2)"
  have fr: "tab_frame w v1" "tab_frame w v2" using v by (simp_all add: v1_def v2_def)
  have sp: "sp = (f, if has_class w pn ''fade'' then v2\<lparr>transitions := transitions v2 @ [(pn, TabActivated pn)]\<rparr>
      else add_class ''show'' pn v2)"
    using role frame_role [OF fr(2)] by (simp add: sp_def executeAfterTransition_def tab_run_def Tab_activated_def)
  have frs: "tab_frame w (snd sp)" using fr by (simp add: sp)
  define u where "u = announce n ''shown.bs.tab'' (set_attr ''aria-selected'' ''true'' n (remove_attr ''tabindex'' n (snd sp)))"
  have "Tab_toggleDropDown n True x = x" if "tab_frame w x" for x using toggleDropDown_none [OF drop that] .
  then have u: "Tab_activated n (snd sp) = u" using role frame_role [OF frs] frs by (simp add: Tab_activated_def u_def)
  have "Tab_activate (Suc j) (Some pn) (f, v1) = Some sp"
    using frame_target [OF fr(2) t(2)] frame_fade [OF fr(2)] by (simp add: v2_def[symmetric] sp_def)
  then have run: "Tab_activate (Suc (Suc j)) (Some n) (f, v) = Some (f, u)"
    using frame_target [OF fr(1) t(1)] frame_fade [OF frs] fade u by (simp add: v1_def[symmetric] tab_run_def) (simp add: sp)
  show thesis
  proof (rule that [OF run])
    show "tab_frame w u" using frs by (simp add: u_def)
  qed (auto simp: u_def sp v1_def v2_def)
qed

text \<open>The transitions of the two panels end, the old one's first: a panel that fades is shown, or no longer shown, only now.\<close>

lemma panels_end:
  assumes d: "pa \<noteq> pn" and role: "get_attr w pn ''role'' \<noteq> Some ''tab''" "get_attr w pa ''role'' \<noteq> Some ''tab''"
    and u: "tab_frame w u" "transitions u = (if has_class w pa ''fade'' then [(pa, TabDeactivated pa)] else []) @
      (if has_class w pn ''fade'' then [(pn, TabActivated pn)] else [])"
    and v: "v = snd (Tab_ends pn (Tab_ends pa (f, u)))"
  shows "eventLog v = eventLog u" "get_attr v m x = get_attr u m x"
    "has_class v m c \<longleftrightarrow> has_class w pn ''fade'' \<and> m = pn \<and> c = ''show'' \<or>
       has_class u m c \<and> \<not> (has_class w pa ''fade'' \<and> m = pa \<and> c = ''show'')"
proof -
  define X where "X = snd (Tab_ends pa (f, u))"
  have X: "X = (if has_class w pa ''fade'' then remove_class ''show'' pa (take_waiting pa u) else u)"
    using d role u frame_role [OF u(1)]
    by (simp add: X_def Tab_ends_def transition_end_def waiting_def tab_run_def Tab_deactivated_def take_waiting_none)
  have tr: "transitions X = (if has_class w pn ''fade'' then [(pn, TabActivated pn)] else [])"
    using d u(2) by (simp add: X) (simp add: take_waiting_def)
  obtain g where g: "Tab_ends pa (f, u) = (g, X)" unfolding X_def by (metis prod.collapse)
  have "get_attr X pn ''role'' \<noteq> Some ''tab''" using role frame_role [OF u(1)] by (simp add: X)
  then have v': "v = (if has_class w pn ''fade'' then add_class ''show'' pn (take_waiting pn X) else X)"
    unfolding v g using tr
    by (simp add: Tab_ends_def transition_end_def waiting_def tab_run_def Tab_activated_def take_waiting_none)
  show "eventLog v = eventLog u" "get_attr v m x = get_attr u m x" by (simp_all add: v' X)
  show "has_class v m c \<longleftrightarrow> has_class w pn ''fade'' \<and> m = pn \<and> c = ''show'' \<or>
      has_class u m c \<and> \<not> (has_class w pa ''fade'' \<and> m = pa \<and> c = ''show'')"
    using d by (auto simp: v' X)
qed

text \<open>
  C30: showing a tab whose list has another active one switches the two and their panels. After
  the transitions of the panels the tab is active, selected and reachable by the keyboard, its
  panel active and shown; the old tab is none of it and its panel neither active nor shown; the
  events are \<open>hide\<close> and \<open>show\<close> before, \<open>hidden\<close> and \<open>shown\<close> after. The chain of targets is followed to
  its end within the fuel.\<close>

theorem tab_show_switches:
  assumes inst: "f n = Some (Some p)" and act: "Tab_getActiveElem w p = Some a" "\<not> has_class w n ''active''"
    and tgt: "fixed_target w n (Some pn)" "fixed_target w a (Some pa)" "fixed_target w pn None" "fixed_target w pa None"
    and d: "distinct [n, a, pn, pa]" and k: "0 < nodeCount w"
    and role: "get_attr w n ''role'' = Some ''tab''" "get_attr w a ''role'' = Some ''tab''"
      "get_attr w pn ''role'' \<noteq> Some ''tab''" "get_attr w pa ''role'' \<noteq> Some ''tab''"
    and drop: "no_dropdown w n" "no_dropdown w a"
    and fade: "\<not> has_class w n ''fade''" "\<not> has_class w a ''fade''"
    and q: "transitions w = []" and pr: "\<And>l e. \<not> prevents (env w) l e"
  shows "\<exists>s v. Tab_show n (f, w) = Some s \<and> v = snd (Tab_ends pn (Tab_ends pa s)) \<and>
    has_class v n ''active'' \<and> get_attr v n ''aria-selected'' = Some ''true'' \<and> get_attr v n ''tabindex'' = None \<and>
    has_class v pn ''active'' \<and> has_class v pn ''show'' \<and>
    \<not> has_class v a ''active'' \<and> get_attr v a ''aria-selected'' = Some ''false'' \<and>
    get_attr v a ''tabindex'' = Some ''-1'' \<and> \<not> has_class v pa ''active'' \<and> \<not> has_class v pa ''show'' \<and>
    eventLog v = eventLog w @ [(a, ''hide.bs.tab''), (n, ''show.bs.tab''), (a, ''hidden.bs.tab''), (n, ''shown.bs.tab'')]"
proof -
  obtain j where j: "nodeCount w = Suc j" using k by (cases "nodeCount w") auto
  define w2 where "w2 = announce n ''show.bs.tab'' (announce a ''hide.bs.tab'' w)"
  have w2: "nodeCount w2 = Suc j" "transitions w2 = []" "tab_frame w w2" using q j by (simp_all add: w2_def)
  obtain wD where D: "Tab_deactivate (Suc (Suc j)) (Some a) (f, w2) = Some (f, wD)" "tab_frame w wD"
      "transitions wD = transitions w2 @ (if has_class w pa ''fade'' then [(pa, TabDeactivated pa)] else [])"
      "eventLog wD = eventLog w2 @ [(a, ''hidden.bs.tab'')]"
      "\<And>m c. has_class wD m c \<longleftrightarrow> has_class w2 m c \<and> \<not> (m \<in> {a, pa} \<and> c = ''active'') \<and>
         \<not> (m = pa \<and> c = ''show'' \<and> \<not> has_class w pa ''fade'')"
      "\<And>m x. get_attr wD m x = (if m = a \<and> x = ''aria-selected'' then Some ''false''
         else if m = a \<and> x = ''tabindex'' then Some ''-1'' else get_attr w2 m x)"
    by (rule deactivate_pair [OF w2(3) tgt(2,4) role(2,4) drop(2) fade(2), where j = j and f = f]) (rule that)
  obtain wF where F: "Tab_activate (Suc (Suc j)) (Some n) (f, wD) = Some (f, wF)" "tab_frame w wF"
      "transitions wF = transitions wD @ (if has_class w pn ''fade'' then [(pn, TabActivated pn)] else [])"
      "eventLog wF = eventLog wD @ [(n, ''shown.bs.tab'')]"
      "\<And>m c. has_class wF m c \<longleftrightarrow> has_class wD m c \<or> m \<in> {n, pn} \<and> c = ''active'' \<or>
         m = pn \<and> c = ''show'' \<and> \<not> has_class w pn ''fade''"
      "\<And>m x. get_attr wF m x = (if m = n \<and> x = ''aria-selected'' then Some ''true''
         else if m = n \<and> x = ''tabindex'' then None else get_attr wD m x)"
    by (rule activate_pair [OF D(2) tgt(1,3) role(1,3) drop(1) fade(1), where j = j and f = f]) (rule that)
  have show_eq: "Tab_show n (f, w) = Some (f, wF)"
    using inst act pr w2 D(1) F(1)
    by (simp add: Tab_show_def Tab_elemIsActive_def trigger_eq w2_def[symmetric] Let_def)
  have tr: "transitions wF = (if has_class w pa ''fade'' then [(pa, TabDeactivated pa)] else []) @
      (if has_class w pn ''fade'' then [(pn, TabActivated pn)] else [])"
    using D(3) F(3) w2(2) by simp
  define v where "v = snd (Tab_ends pn (Tab_ends pa (f, wF)))"
  have "pa \<noteq> pn" using d by auto
  note P = panels_end [OF this role(3,4) F(2) tr v_def]
  have log: "eventLog v = eventLog w @ [(a, ''hide.bs.tab''), (n, ''show.bs.tab''), (a, ''hidden.bs.tab''), (n, ''shown.bs.tab'')]"
    by (simp add: P F(4) D(4) w2_def)
  have n: "has_class v n ''active''" "has_class v pn ''active''" "has_class v pn ''show''"
    unfolding P F(5) using d by auto
  have a: "\<not> has_class v a ''active''" "\<not> has_class v pa ''active''" "\<not> has_class v pa ''show''"
    unfolding P F(5) D(5) using d by auto
  have at: "get_attr v n ''aria-selected'' = Some ''true''" "get_attr v n ''tabindex'' = None"
    "get_attr v a ''aria-selected'' = Some ''false''" "get_attr v a ''tabindex'' = Some ''-1''"
    unfolding P F(6) D(6) using d by simp_all
  show ?thesis
    by (intro exI[of _ "(f, wF)"] exI[of _ v] conjI) (fact show_eq v_def log n a at)+
qed

text \<open>A list of two tabs with fading panels that the attributes of the tabs name.\<close>

definition tab_page :: page where
  "tab_page = (\<lambda>_. plain_node ''DIV'' None [])(
    4 := (plain_node ''UL'' None [5, 6])\<lparr>classList := [''nav'']\<rparr>,
    5 := (plain_node ''BUTTON'' (Some 4) [])\<lparr>classList := [''nav-link'', ''active''],
      attrs := [(''role'', ''tab''), (''data-bs-target'', ''a'')]\<rparr>,
    6 := (plain_node ''BUTTON'' (Some 4) [])\<lparr>classList := [''nav-link''],
      attrs := [(''role'', ''tab''), (''data-bs-target'', ''b'')]\<rparr>,
    7 := (plain_node ''DIV'' None [])\<lparr>classList := [''fade'', ''show'', ''active'']\<rparr>,
    8 := (plain_node ''DIV'' None [])\<lparr>classList := [''fade'']\<rparr>)"

definition tab_world :: "tab_cb world" where
  "tab_world = (blank_world tab_page 9)\<lparr>env := blank_browser\<lparr>querySelectorAll :=
    (\<lambda>_ _ sel. if sel = ''a'' then [7] else if sel = ''b'' then [8] else [])\<rparr>\<rparr>"

lemma tab_attr: "get_attr tab_world m x = (if m = 5 \<or> m = 6 then
    (if x = ''role'' then Some ''tab'' else if x = ''data-bs-target'' then Some (if m = 5 then ''a'' else ''b'') else None) else None)"
  by (simp add: get_attr_def tab_world_def blank_world_def tab_page_def plain_node_def)

lemma tab_class: "has_class tab_world m c \<longleftrightarrow> (m = 4 \<and> c = ''nav'') \<or> (m = 5 \<and> c \<in> {''nav-link'', ''active''}) \<or>
    (m = 6 \<and> c = ''nav-link'') \<or> (m = 7 \<and> c \<in> {''fade'', ''show'', ''active''}) \<or> (m = 8 \<and> c = ''fade'')"
  by (auto simp: has_class_def tab_world_def blank_world_def tab_page_def plain_node_def)

lemma tab_target: "fixed_target tab_world m (if m = 5 then Some 7 else if m = 6 then Some 8 else None)"
  unfolding fixed_target_def
proof (intro allI impI)
  fix v :: "tab_cb world" assume v: "tab_frame tab_world v"
  have "escape_ids esc [c] = [c]" if "c \<noteq> CHR ''#''" for esc c
    using that by (simp add: escape_ids.simps[of esc "[c]"] escape_ids.simps[of esc "[]"])
  then have p: "parseSelector v ''a'' = ''a''" "parseSelector v ''b'' = ''b''" by (simp_all add: parseSelector_def)
  have e: "env v = env tab_world" using v by (simp add: tab_frame_def)
  have a: "get_attr v m ''data-bs-target'' = get_attr tab_world m ''data-bs-target''"
    "get_attr v m ''href'' = get_attr tab_world m ''href''" for m using v by (simp_all add: tab_frame_def)
  have "getSelector v m = (if m = 5 then Some ''a'' else if m = 6 then Some ''b'' else None)"
    by (simp add: getSelector_def a tab_attr nonempty_def p)
  then show "getElementFromSelector v m = (if m = 5 then Some 7 else if m = 6 then Some 8 else None)"
    by (simp add: getElementFromSelector_def findOne_selector_def find_selector_def e) (simp add: tab_world_def)
qed

lemma tab_show_switches_witness:
  "\<exists>s. Tab_show 6 ([6 \<mapsto> Some 4], tab_world) = Some s \<and> has_class (snd (Tab_ends 8 (Tab_ends 7 s))) 8 ''show'' \<and>
    \<not> has_class (snd (Tab_ends 8 (Tab_ends 7 s))) 7 ''show''"
proof -
  have children: "Tab_getChildren tab_world 4 = [5, 6]"
    unfolding Tab_getChildren_def query_all_def descendants_def
    by (simp add: tab_world_def blank_world_def tab_page_def plain_node_def numeral_eq_Suc is_inner_def
        has_class_def get_attr_def)
  have active: "Tab_getActiveElem tab_world 4 = Some 5"
    by (simp add: Tab_getActiveElem_def children Tab_elemIsActive_def tab_class)
  have dd: "no_dropdown tab_world m" for m by (simp add: no_dropdown_def tab_class)
  have t: "fixed_target tab_world 6 (Some 8)" "fixed_target tab_world 5 (Some 7)"
      "fixed_target tab_world 8 None" "fixed_target tab_world 7 None"
    using tab_target[of 6] tab_target[of 5] tab_target[of 8] tab_target[of 7] by simp_all
  have e: "transitions tab_world = []" "0 < nodeCount tab_world" "\<not> prevents (env tab_world) l x" for l x
    by (simp_all add: tab_world_def blank_world_def blank_browser_def)
  show ?thesis
    using tab_show_switches [where f = "[6 \<mapsto> Some 4]" and n = 6 and p = 4 and w = tab_world and a = 5 and pn = 8 and pa = 7]
      active dd t e by (auto simp: tab_class tab_attr)
qed

end
