(* ===== verification/BsSanitizer.thy ===== *)
theory BsSanitizer
  imports BsOverlay
begin

text \<open>
  The sanitizer of Bootstrap (\<open>util/sanitizer.js\<close>) and the factory of templates that uses it
  (\<open>util/template-factory.js\<close>). The parser and the serialiser of HTML are the browser's: a
  document is what \<open>parse\<close> makes of a string, a page whose body has the elements. The nodes of
  the page are its elements; text has no attributes and is left alone by the code.
\<close>

section \<open>The allow list\<close>

datatype allow_item = AllowName string | AllowPattern "string \<Rightarrow> bool"

type_synonym allow_list = "(string \<times> allow_item list) list"

text \<open>\<open>/^aria-[\w-]*$/i\<close>\<close>

definition word_char :: "char \<Rightarrow> bool" where
  "word_char c \<longleftrightarrow> is_digit c \<or> (97 \<le> (of_char c :: nat) \<and> (of_char c :: nat) \<le> 122) \<or>
    (65 \<le> (of_char c :: nat) \<and> (of_char c :: nat) \<le> 90) \<or> c = CHR ''_''"

definition ARIA_ATTRIBUTE_PATTERN :: "string \<Rightarrow> bool" where
  "ARIA_ATTRIBUTE_PATTERN s \<longleftrightarrow> startsWith (toLowerCase s) ''aria-'' \<and>
    list_all (\<lambda>c. word_char c \<or> c = CHR ''-'') (drop 5 s)"

definition DefaultAllowlist :: allow_list where
  "DefaultAllowlist =
    [(''*'', [AllowName ''class'', AllowName ''dir'', AllowName ''id'', AllowName ''lang'', AllowName ''role'',
        AllowPattern ARIA_ATTRIBUTE_PATTERN]),
     (''a'', [AllowName ''target'', AllowName ''href'', AllowName ''title'', AllowName ''rel'']),
     (''area'', []), (''b'', []), (''br'', []), (''col'', []), (''code'', []), (''dd'', []), (''div'', []),
     (''dl'', []), (''dt'', []), (''em'', []), (''hr'', []), (''h1'', []), (''h2'', []), (''h3'', []),
     (''h4'', []), (''h5'', []), (''h6'', []), (''i'', []),
     (''img'', [AllowName ''src'', AllowName ''srcset'', AllowName ''alt'', AllowName ''title'',
        AllowName ''width'', AllowName ''height'']),
     (''li'', []), (''ol'', []), (''p'', []), (''pre'', []), (''s'', []), (''small'', []), (''span'', []),
     (''sub'', []), (''sup'', []), (''strong'', []), (''u'', []), (''ul'', [])]"

definition uriAttributes :: "string list" where
  "uriAttributes = [''background'', ''cite'', ''href'', ''itemtype'', ''longdesc'', ''poster'', ''src'', ''xlink:href'']"

text \<open>\<open>/^(?!javascript:)(?:[a-z0-9+.-]+:|[^&:/?#]*(?:[/?#]|$))/i\<close>: neither alternative can be
  shortened by backtracking, because its last character is not in the class before it.\<close>

definition scheme_char :: "char \<Rightarrow> bool" where
  "scheme_char c \<longleftrightarrow> (word_char c \<and> c \<noteq> CHR ''_'') \<or> c = CHR ''+'' \<or> c = CHR ''.'' \<or> c = CHR ''-''"

definition before_path :: "char \<Rightarrow> bool" where
  "before_path c \<longleftrightarrow> c \<notin> {CHR ''&'', CHR '':'', CHR ''/'', CHR ''?'', CHR ''#''}"

definition SAFE_URL_PATTERN :: "string \<Rightarrow> bool" where
  "SAFE_URL_PATTERN s \<longleftrightarrow> \<not> startsWith (toLowerCase s) ''javascript:'' \<and>
    (takeWhile scheme_char s \<noteq> [] \<and> startsWith (dropWhile scheme_char s) '':'' \<or>
     (case dropWhile before_path s of [] \<Rightarrow> True | c # cs \<Rightarrow> c \<in> {CHR ''/'', CHR ''?'', CHR ''#''}))"

fun item_names :: "string \<Rightarrow> allow_item \<Rightarrow> bool" where
  "item_names s (AllowName n) = (n = s)"
| "item_names s (AllowPattern p) = False"

fun item_tests :: "string \<Rightarrow> allow_item \<Rightarrow> bool" where
  "item_tests s (AllowPattern p) = p s"
| "item_tests s (AllowName n) = False"

definition allowedAttribute :: "string \<times> string \<Rightarrow> allow_item list \<Rightarrow> bool" where
  "allowedAttribute attribute allowedAttributeList =
    (let attributeName = toLowerCase (fst attribute) in
     if list_ex (item_names attributeName) allowedAttributeList
     then (if attributeName \<in> set uriAttributes then SAFE_URL_PATTERN (snd attribute) else True)
     else list_ex (item_tests attributeName) allowedAttributeList)"

section \<open>Sanitizing a document\<close>

definition allow_of :: "allow_list \<Rightarrow> string \<Rightarrow> allow_item list" where
  "allow_of allowList k = (case map_of allowList k of Some l \<Rightarrow> l | None \<Rightarrow> [])"

definition allowed_for :: "allow_list \<Rightarrow> string \<Rightarrow> allow_item list" where
  "allowed_for allowList elementName = allow_of allowList ''*'' @ allow_of allowList elementName"

definition sanitizeElement :: "allow_list \<Rightarrow> node \<Rightarrow> 'cb world \<Rightarrow> 'cb world" where
  "sanitizeElement allowList element w =
    (let elementName = toLowerCase (tagName (page w element)) in
     if elementName \<notin> fst ` set allowList then remove_node element w
     else fold (\<lambda>attribute v. if \<not> allowedAttribute attribute (allowed_for allowList elementName)
           then remove_attr (fst attribute) element v else v)
         (attrs (page w element)) w)"

definition sanitizeDocument :: "allow_list \<Rightarrow> 'cb world \<Rightarrow> 'cb world" where
  "sanitizeDocument allowList w = fold (sanitizeElement allowList) (descendants w document_body) w"

record html_browser =
  parseFromString :: "string \<Rightarrow> unit world"
  innerHTML :: "unit world \<Rightarrow> string"
  callSanitizeFn :: "string \<Rightarrow> string \<Rightarrow> string"
  callFunction :: "string \<Rightarrow> jsval"

definition sanitizeHtml :: "html_browser \<Rightarrow> string \<Rightarrow> allow_list \<Rightarrow> jsval \<Rightarrow> string" where
  "sanitizeHtml b unsafeHtml allowList sanitizeFunction =
    (if length unsafeHtml = 0 then unsafeHtml
     else (case sanitizeFunction of
         JFun f \<Rightarrow> callSanitizeFn b f unsafeHtml
       | _ \<Rightarrow> innerHTML b (sanitizeDocument allowList (parseFromString b unsafeHtml))))"

section \<open>What is left of a document\<close>

text \<open>The walk only shrinks the document: children and attributes disappear, tags stay.\<close>

definition shrinks :: "'cb world \<Rightarrow> 'cb world \<Rightarrow> bool" where
  "shrinks w v \<longleftrightarrow> nodeCount v = nodeCount w \<and>
    (\<forall>n. set (childNodes (page v n)) \<subseteq> set (childNodes (page w n)) \<and>
      tagName (page v n) = tagName (page w n) \<and> set (attrs (page v n)) \<subseteq> set (attrs (page w n)))"

lemma shrinks_refl [simp]: "shrinks w w"
  by (simp add: shrinks_def)

lemma shrinks_trans: "shrinks u v \<Longrightarrow> shrinks v w \<Longrightarrow> shrinks u w"
  unfolding shrinks_def by (metis subset_trans)

lemma remove_node_shrinks [simp]: "shrinks w (remove_node n w)"
  by (auto simp: shrinks_def remove_node_def upd_node_page split: option.splits)

lemma remove_attr_shrinks [simp]: "shrinks w (remove_attr a n w)"
proof -
  have "set (AList.delete a xs) \<subseteq> set xs" for xs :: "(string \<times> string) list"
    by (auto simp: AList.delete_eq)
  then show ?thesis by (simp add: shrinks_def remove_attr_def upd_node_page)
qed

lemma fold_shrinks: "(\<And>x v. shrinks v (f x v)) \<Longrightarrow> shrinks w (fold f xs w)"
  by (induction xs arbitrary: w) (auto intro: shrinks_trans)

lemma sanitizeElement_shrinks [simp]: "shrinks w (sanitizeElement al n w)"
  by (simp add: sanitizeElement_def Let_def fold_shrinks)

lemma sanitizeDocument_shrinks: "shrinks w (fold (sanitizeElement al) ns w)"
  by (rule fold_shrinks) simp

lemma subtree_shrinks:
  "shrinks w v \<Longrightarrow> m \<in> set (subtree k (page v) n) \<Longrightarrow> m \<in> set (subtree k (page w) n)"
proof (induction k arbitrary: n)
  case (Suc k)
  show ?case
  proof (cases "m = n")
    case False
    then obtain c where "c \<in> set (childNodes (page v n))" "m \<in> set (subtree k (page v) c)"
      using Suc.prems by auto
    moreover from this have "c \<in> set (childNodes (page w n))" using Suc.prems(1) by (auto simp: shrinks_def)
    ultimately show ?thesis using Suc.IH[OF Suc.prems(1)] by auto
  qed simp
qed simp

lemma descendants_subtree: "m \<in> set (descendants w n) \<longleftrightarrow>
    (\<exists>j c. nodeCount w = Suc j \<and> c \<in> set (childNodes (page w n)) \<and> m \<in> set (subtree j (page w) c))"
  by (cases "nodeCount w") (auto simp: descendants_def)

lemma descendants_shrink: "shrinks w v \<Longrightarrow> m \<in> set (descendants v n) \<Longrightarrow> m \<in> set (descendants w n)"
  unfolding descendants_subtree using subtree_shrinks
  by (metis shrinks_def subset_iff)

text \<open>Every descendant is the child of some node.\<close>

lemma subtree_child: "m \<in> set (subtree k p n) \<Longrightarrow> m = n \<or> (\<exists>q. m \<in> set (childNodes (p q)))"
proof (induction k arbitrary: n)
  case (Suc k)
  then show ?case by fastforce
qed simp

lemma descendant_is_child: "m \<in> set (descendants w n) \<Longrightarrow> \<exists>q. m \<in> set (childNodes (page w q))"
  unfolding descendants_subtree using subtree_child by blast

text \<open>Parents of the nodes that are still somewhere's child stay right.\<close>

lemma tree_ok_remove_node: "tree_ok w \<Longrightarrow> tree_ok (remove_node n w)"
  by (auto simp: tree_ok_def remove_node_def upd_node_page split: option.splits)

lemma tree_ok_remove_attr: "tree_ok (remove_attr a n w) = tree_ok w"
  by (simp add: tree_ok_def)

lemma fold_tree_ok: "(\<And>x v. tree_ok v \<Longrightarrow> tree_ok (f x v)) \<Longrightarrow> tree_ok w \<Longrightarrow> tree_ok (fold f xs w)"
  by (induction xs arbitrary: w) auto

lemma sanitizeElement_tree_ok: "tree_ok w \<Longrightarrow> tree_ok (sanitizeElement al n w)"
  by (auto simp: sanitizeElement_def Let_def tree_ok_remove_node tree_ok_remove_attr intro!: fold_tree_ok)

lemma removed_not_child: "tree_ok w \<Longrightarrow> n \<notin> set (childNodes (page (remove_node n w) q))"
  by (auto simp: tree_ok_def remove_node_def upd_node_page split: option.splits)

lemma remove_attrs_bad:
  "set (attrs (page (fold (\<lambda>a v. if \<not> P a then remove_attr (fst a) n v else v) as w) n)) \<subseteq>
    {a \<in> set (attrs (page w n)). a \<in> set as \<longrightarrow> P a}"
proof -
  have del: "set (AList.delete k xs) = {a \<in> set xs. fst a \<noteq> k}" for k and xs :: "(string \<times> string) list"
    by (auto simp: AList.delete_eq)
  have "set (attrs (page (fold (\<lambda>a v. if \<not> P a then remove_attr (fst a) n v else v) as v) n)) \<subseteq>
    {a \<in> set (attrs (page v n)). a \<in> set as \<longrightarrow> P a}" for v
  proof (induction as arbitrary: v)
    case (Cons a as)
    show ?case using Cons.IH[of v] Cons.IH[of "remove_attr (fst a) n v"]
      by (auto simp: remove_attr_def upd_node_page del)
  qed simp
  then show ?thesis .
qed

lemma sanitizeElement_clean:
  assumes "toLowerCase (tagName (page w n)) \<in> fst ` set al"
    and "a \<in> set (attrs (page (sanitizeElement al n w) n))"
  shows "allowedAttribute a (allowed_for al (toLowerCase (tagName (page w n))))"
  using assms remove_attrs_bad[where as = "attrs (page w n)" and w = w and n = n and
      P = "\<lambda>a. allowedAttribute a (allowed_for al (toLowerCase (tagName (page w n))))"]
  by (auto simp: sanitizeElement_def Let_def)

lemma sanitize_allowed:
  assumes "tree_ok w" and "n \<in> set (descendants (sanitizeDocument al w) document_body)"
  shows "toLowerCase (tagName (page (sanitizeDocument al w) n)) \<in> fst ` set al \<and>
    (\<forall>a \<in> set (attrs (page (sanitizeDocument al w) n)).
      allowedAttribute a (allowed_for al (toLowerCase (tagName (page (sanitizeDocument al w) n)))))"
proof -
  define ns where "ns = descendants w document_body"
  define v where "v = sanitizeDocument al w"
  have v: "v = fold (sanitizeElement al) ns w" by (simp add: v_def sanitizeDocument_def ns_def)
  have n: "n \<in> set (descendants v document_body)" using assms(2) by (simp add: v_def)
  have "n \<in> set ns" using descendants_shrink[OF sanitizeDocument_shrinks[of w al ns]] n
    by (simp add: v ns_def)
  then obtain as bs where ns: "ns = as @ n # bs" by (auto simp: in_set_conv_decomp)
  define u where "u = fold (sanitizeElement al) as w"
  have ok: "tree_ok u" unfolding u_def by (rule fold_tree_ok) (use sanitizeElement_tree_ok assms(1) in auto)
  have v': "v = fold (sanitizeElement al) bs (sanitizeElement al n u)" by (simp add: v ns u_def)
  have sh: "shrinks (sanitizeElement al n u) v" unfolding v' by (rule sanitizeDocument_shrinks)
  have shu: "shrinks u v" using shrinks_trans[OF sanitizeElement_shrinks sh] .
  have tag: "tagName (page v n) = tagName (page u n)" using shu by (simp add: shrinks_def)
  have allowed: "toLowerCase (tagName (page u n)) \<in> fst ` set al"
  proof (rule ccontr)
    assume "toLowerCase (tagName (page u n)) \<notin> fst ` set al"
    then have "sanitizeElement al n u = remove_node n u" by (simp add: sanitizeElement_def Let_def)
    then have "n \<notin> set (childNodes (page v q))" for q
      using removed_not_child[OF ok, of n q] sh unfolding shrinks_def by (metis subset_iff)
    then show False using descendant_is_child[OF n] by blast
  qed
  moreover have "allowedAttribute a (allowed_for al (toLowerCase (tagName (page u n))))"
    if "a \<in> set (attrs (page v n))" for a
    using sanitizeElement_clean[OF allowed, of a] sh that unfolding shrinks_def by blast
  ultimately show ?thesis by (simp add: tag v_def[symmetric])
qed

text \<open>
  Sanitizing leaves a document in which every element has a tag of the allow list, and every
  attribute of it is allowed for that tag. Whatever the document was, elements inside removed
  ones included.\<close>

theorem sanitize_only_allowed:
  fixes al :: allow_list
  assumes "tree_ok w"
  defines "v \<equiv> sanitizeDocument al w"
  assumes "n \<in> set (descendants v document_body)"
  shows "toLowerCase (tagName (page v n)) \<in> fst ` set al \<and>
    (\<forall>a \<in> set (attrs (page v n)). allowedAttribute a (allowed_for al (toLowerCase (tagName (page v n)))))"
  unfolding v_def using sanitize_allowed assms(1) assms(3)[unfolded v_def] by blast

section \<open>Schemes of URLs\<close>

text \<open>The scheme of a URL as browsers find it: leading control characters and spaces are dropped,
  tabs and line breaks are ignored everywhere, then the scheme ends at the first colon.\<close>

definition url_ignored :: "char \<Rightarrow> bool" where
  "url_ignored c \<longleftrightarrow> (of_char c :: nat) \<in> {9, 10, 13}"

definition url_stripped :: "char \<Rightarrow> bool" where
  "url_stripped c \<longleftrightarrow> (of_char c :: nat) \<le> 32"

definition url_scheme :: "string \<Rightarrow> string option" where
  "url_scheme s = (let t = filter (\<lambda>c. \<not> url_ignored c) (dropWhile url_stripped s);
      p = takeWhile scheme_char t in
    if p \<noteq> [] \<and> startsWith (drop (length p) t) '':'' then Some (toLowerCase p) else None)"

definition path_first :: "string \<Rightarrow> bool" where
  "path_first s \<longleftrightarrow> (case dropWhile before_path s of [] \<Rightarrow> True | c # cs \<Rightarrow> c \<in> {CHR ''/'', CHR ''?'', CHR ''#''})"

lemma path_first_Cons: "before_path c \<Longrightarrow> path_first (c # s) = path_first s"
  by (simp add: path_first_def)

lemma char_classes:
  "scheme_char c \<Longrightarrow> before_path c" "url_stripped c \<Longrightarrow> before_path c" "url_ignored c \<Longrightarrow> before_path c"
  "scheme_char c \<Longrightarrow> \<not> url_stripped c" "scheme_char c \<Longrightarrow> \<not> url_ignored c" "\<not> scheme_char (CHR '':'')"
  by (auto simp: scheme_char_def before_path_def url_stripped_def url_ignored_def word_char_def is_digit_def)

lemma path_first_strip: "path_first s \<Longrightarrow> path_first (dropWhile url_stripped s)"
  by (induction s) (auto simp: path_first_Cons char_classes(2))

lemma path_first_filter: "path_first s \<Longrightarrow> path_first (filter (\<lambda>c. \<not> url_ignored c) s)"
proof (induction s)
  case (Cons c s)
  show ?case
  proof (cases "before_path c")
    case True
    then show ?thesis using Cons by (simp add: path_first_Cons)
  next
    case False
    then have "\<not> url_ignored c" using char_classes(3) by blast
    then show ?thesis using Cons.prems False by (simp add: path_first_def)
  qed
qed simp

lemma startsWith_colon: "startsWith t '':'' \<longleftrightarrow> (\<exists>r. t = CHR '':'' # r)"
  by (cases t) auto

lemma path_first_no_scheme:
  assumes "path_first t"
  shows "\<not> startsWith (drop (length (takeWhile scheme_char t)) t) '':''"
  using assms
proof (induction t)
  case (Cons c t)
  show ?case
  proof (cases "scheme_char c")
    case True
    then have "path_first t" using Cons.prems char_classes(1) path_first_Cons by blast
    then show ?thesis using Cons.IH True by simp
  next
    case False
    have "c \<noteq> CHR '':''" using Cons.prems by (auto simp: path_first_def before_path_def)
    then show ?thesis using False by simp
  qed
qed simp

lemma startsWith_prefix [simp]: "startsWith (p @ r) p"
  by (induction p) auto

lemma startsWith_split: "startsWith s p \<Longrightarrow> \<exists>r. s = p @ r"
  by (induction s p rule: startsWith.induct) auto

lemma safe_url_scheme:
  assumes "SAFE_URL_PATTERN s"
  shows "url_scheme s \<noteq> Some ''javascript''"
proof (cases "path_first s")
  case True
  have "path_first (filter (\<lambda>c. \<not> url_ignored c) (dropWhile url_stripped s))"
    using True path_first_strip path_first_filter by blast
  then show ?thesis using path_first_no_scheme by (simp add: url_scheme_def Let_def)
next
  case False
  define p where "p = takeWhile scheme_char s"
  obtain r where s: "s = p @ CHR '':'' # r" and p: "p \<noteq> []"
    using assms False unfolding SAFE_URL_PATTERN_def path_first_def p_def startsWith_colon
    by (metis takeWhile_dropWhile_id)
  have sc: "\<forall>c \<in> set p. scheme_char c" unfolding p_def by (meson set_takeWhileD)
  have "dropWhile url_stripped s = s" using p sc s char_classes(4) by (cases p) auto
  moreover have "filter (\<lambda>c. \<not> url_ignored c) p = p" using sc char_classes(5) by (simp add: filter_id_conv)
  ultimately have t: "filter (\<lambda>c. \<not> url_ignored c) (dropWhile url_stripped s) =
      p @ CHR '':'' # filter (\<lambda>c. \<not> url_ignored c) r"
    using s by (simp add: url_ignored_def)
  have "takeWhile scheme_char (p @ CHR '':'' # filter (\<lambda>c. \<not> url_ignored c) r) = p"
    using sc char_classes(6) by (simp add: takeWhile_append)
  then have "url_scheme s = Some (toLowerCase p)" using p by (simp add: url_scheme_def t Let_def)
  moreover have "toLowerCase p \<noteq> ''javascript''"
  proof
    assume "toLowerCase p = ''javascript''"
    then have "toLowerCase s = ''javascript:'' @ toLowerCase r"
      by (simp add: s toLowerCase_def) (simp add: lower_char_def)
    then have "startsWith (toLowerCase s) ''javascript:''" by (simp only: startsWith_prefix)
    then show False using assms by (simp add: SAFE_URL_PATTERN_def)
  qed
  ultimately show ?thesis by simp
qed

section \<open>The default allow list\<close>

lemma default_tags:
  "tag \<in> fst ` set DefaultAllowlist \<Longrightarrow>
   tag \<notin> {''script'', ''style'', ''iframe'', ''object'', ''embed'', ''form'', ''link'', ''base''}"
  by (auto simp: DefaultAllowlist_def)

lemma default_attributes:
  assumes "allowedAttribute (k, x) (allowed_for DefaultAllowlist tag)"
  shows "\<not> startsWith (toLowerCase k) ''on'' \<and> toLowerCase k \<notin> {''style'', ''srcdoc'', ''action'', ''formaction''} \<and>
    (toLowerCase k \<in> set uriAttributes \<longrightarrow> url_scheme x \<noteq> Some ''javascript'')"
proof -
  have names: "list_ex (item_names m) (allowed_for DefaultAllowlist tag) \<Longrightarrow>
      m \<in> {''class'', ''dir'', ''id'', ''lang'', ''role'', ''target'', ''href'', ''title'', ''rel'', ''src'', ''srcset'',
        ''alt'', ''width'', ''height''}" for m
    by (auto simp: allowed_for_def allow_of_def DefaultAllowlist_def split: if_splits)
  have pattern: "list_ex (item_tests m) (allowed_for DefaultAllowlist tag) \<Longrightarrow> startsWith (toLowerCase m) ''aria-''" for m
    by (auto simp: allowed_for_def allow_of_def DefaultAllowlist_def ARIA_ATTRIBUTE_PATTERN_def split: if_splits)
  have lower: "toLowerCase (toLowerCase k) = toLowerCase k"
    by (auto simp: toLowerCase_def lower_char_def Let_def of_char_of)
  show ?thesis
  proof (cases "list_ex (item_names (toLowerCase k)) (allowed_for DefaultAllowlist tag)")
    case True
    then have "toLowerCase k \<in> set uriAttributes \<longrightarrow> SAFE_URL_PATTERN x"
      using assms by (auto simp: allowedAttribute_def Let_def split: if_splits)
    then show ?thesis using names[OF True] safe_url_scheme by auto
  next
    case False
    then have "startsWith (toLowerCase k) ''aria-''"
      using assms pattern[of "toLowerCase k"] lower by (simp add: allowedAttribute_def)
    then obtain r where "toLowerCase k = ''aria-'' @ r" using startsWith_split by blast
    then show ?thesis by (simp add: uriAttributes_def)
  qed
qed

text \<open>
  C32: with the default allow list every element left of the sanitized document, with or without attributes, is one the list
  names, so none is a script or embeds one; and no attribute of any of them is an event handler, nor holds, where it
  holds a URL, one a browser would run as a script.\<close>

theorem sanitize_default_safe:
  assumes "tree_ok w"
  defines "v \<equiv> sanitizeDocument DefaultAllowlist w"
  shows "\<forall>n \<in> set (descendants v document_body).
    toLowerCase (tagName (page v n)) \<in> fst ` set DefaultAllowlist \<and>
    toLowerCase (tagName (page v n)) \<notin> {''script'', ''style'', ''iframe'', ''object'', ''embed'', ''form'', ''link'', ''base''} \<and>
    (\<forall>(k, x) \<in> set (attrs (page v n)).
      \<not> startsWith (toLowerCase k) ''on'' \<and> toLowerCase k \<notin> {''style'', ''srcdoc'', ''action'', ''formaction''} \<and>
      (toLowerCase k \<in> set uriAttributes \<longrightarrow> url_scheme x \<noteq> Some ''javascript''))"
proof
  fix n
  assume "n \<in> set (descendants v document_body)"
  note kept = sanitize_allowed[OF assms(1) this[unfolded v_def], folded v_def]
  then show "toLowerCase (tagName (page v n)) \<in> fst ` set DefaultAllowlist \<and>
    toLowerCase (tagName (page v n)) \<notin> {''script'', ''style'', ''iframe'', ''object'', ''embed'', ''form'', ''link'', ''base''} \<and>
    (\<forall>(k, x) \<in> set (attrs (page v n)).
      \<not> startsWith (toLowerCase k) ''on'' \<and> toLowerCase k \<notin> {''style'', ''srcdoc'', ''action'', ''formaction''} \<and>
      (toLowerCase k \<in> set uriAttributes \<longrightarrow> url_scheme x \<noteq> Some ''javascript''))"
    using default_tags default_attributes by fast
qed

text \<open>A document whose body holds a link.\<close>

definition link_page :: page where
  "link_page = (\<lambda>_. plain_node ''DIV'' None [])(document_body := plain_node ''BODY'' None [4],
    4 := (plain_node ''A'' (Some document_body) [])\<lparr>attrs := [(''href'', ''/x'')]\<rparr>)"

definition link_world :: "unit world" where
  "link_world = blank_world link_page 5"

lemma link_facts:
  "tree_ok link_world" "descendants link_world document_body = [4]"
  "tagName (page link_world 4) = ''A''" "attrs (page link_world 4) = [(''href'', ''/x'')]"
  by (simp_all add: tree_ok_def descendants_def link_world_def blank_world_def link_page_def plain_node_def
      document_body_def numeral_eq_Suc)

lemma link_kept: "sanitizeDocument DefaultAllowlist link_world = link_world"
proof -
  have "toLowerCase ''A'' = ''a''" by code_simp
  moreover have "''a'' \<in> fst ` set DefaultAllowlist" by (simp add: DefaultAllowlist_def)
  moreover have "allowedAttribute (''href'', ''/x'') (allowed_for DefaultAllowlist ''a'')" by code_simp
  ultimately show ?thesis
    unfolding sanitizeDocument_def link_facts by (simp add: sanitizeElement_def link_facts Let_def)
qed

lemma sanitize_only_allowed_witness:
  "toLowerCase (tagName (page (sanitizeDocument DefaultAllowlist link_world) 4)) \<in> fst ` set DefaultAllowlist"
  using sanitize_only_allowed [OF link_facts(1), of 4 DefaultAllowlist] link_facts(2) link_kept by simp

text \<open>The same body with a script beside the link: the script goes although it has no attribute, the link stays with its URL.\<close>

definition script_page :: page where
  "script_page = link_page(document_body := plain_node ''BODY'' None [4, 5],
    5 := plain_node ''SCRIPT'' (Some document_body) [])"

definition script_world :: "unit world" where
  "script_world = blank_world script_page 6"

lemma script_facts:
  "tree_ok script_world" "descendants script_world document_body = [4, 5]"
  "tagName (page script_world 4) = ''A''" "attrs (page script_world 4) = [(''href'', ''/x'')]"
  "tagName (page script_world 5) = ''SCRIPT''" "attrs (page script_world 5) = []"
  by (simp_all add: tree_ok_def descendants_def script_world_def blank_world_def script_page_def link_page_def plain_node_def
      document_body_def numeral_eq_Suc)

lemma script_removed: "sanitizeDocument DefaultAllowlist script_world = remove_node 5 script_world"
proof -
  have "toLowerCase ''A'' = ''a''" "toLowerCase ''SCRIPT'' = ''script''" by code_simp+
  moreover have "''a'' \<in> fst ` set DefaultAllowlist" "''script'' \<notin> fst ` set DefaultAllowlist" by (simp_all add: DefaultAllowlist_def)
  moreover have "allowedAttribute (''href'', ''/x'') (allowed_for DefaultAllowlist ''a'')" by code_simp
  ultimately show ?thesis
    unfolding sanitizeDocument_def script_facts by (simp add: sanitizeElement_def script_facts Let_def)
qed

lemma script_left:
  "descendants (remove_node 5 script_world) document_body = [4]" "attrs (page (remove_node 5 script_world) 4) = [(''href'', ''/x'')]"
  by (simp_all add: descendants_def remove_node_def upd_node_def script_world_def blank_world_def script_page_def link_page_def
      plain_node_def document_body_def numeral_eq_Suc)

lemma sanitize_default_safe_witness:
  "descendants (sanitizeDocument DefaultAllowlist script_world) document_body = [4] \<and>
   toLowerCase (tagName (page (sanitizeDocument DefaultAllowlist script_world) 4)) \<noteq> ''script'' \<and>
   attrs (page (sanitizeDocument DefaultAllowlist script_world) 4) = [(''href'', ''/x'')] \<and>
   url_scheme (snd (hd (attrs (page (sanitizeDocument DefaultAllowlist script_world) 4)))) \<noteq> Some ''javascript''"
proof -
  have "toLowerCase ''href'' \<in> set uriAttributes" by code_simp
  then show ?thesis
    using sanitize_default_safe [OF script_facts(1)] unfolding script_removed by (simp add: script_left)
qed

section \<open>Templates\<close>

text \<open>The writes of a template: what goes through the parser, what is text.\<close>

datatype template_write =
    ParseHtml "node option" string
  | WriteText node string
  | WriteTextOf node node
  | MoveInto node node
  | RemoveNode node
  | AddClasses "string list"

record template_factory =
  tf_allowList :: allow_list
  tf_content :: object
  tf_extraClass :: jsval
  tf_html :: bool
  tf_sanitize :: bool
  tf_sanitizeFn :: jsval
  tf_template :: string

text \<open>\<open>query\<close> is \<open>querySelector\<close> on the wrapper after the writes so far.\<close>

type_synonym template_find = "template_write list \<Rightarrow> string \<Rightarrow> node option"

definition resolvePossibleFunction :: "html_browser \<Rightarrow> jsval \<Rightarrow> jsval" where
  "resolvePossibleFunction b arg = (case arg of JFun f \<Rightarrow> callFunction b f | _ \<Rightarrow> arg)"

definition getContent :: "html_browser \<Rightarrow> template_factory \<Rightarrow> jsval list" where
  "getContent b t = filter truthy (map (\<lambda>(k, v). resolvePossibleFunction b v) (tf_content t))"

definition hasContent :: "html_browser \<Rightarrow> template_factory \<Rightarrow> bool" where
  "hasContent b t \<longleftrightarrow> length (getContent b t) > 0"

definition DefaultContentType :: "(string \<times> string) list" where
  "DefaultContentType = [(''entry'', ''(string|element|function|null)''), (''selector'', ''(string|element)'')]"

fun checkContent :: "'cb world \<Rightarrow> object \<Rightarrow> js_error + unit" where
  "checkContent w [] = Inr ()"
| "checkContent w ((sel, content) # arg) =
    (case typeCheckConfig w [(''selector'', JStr sel), (''entry'', content)] DefaultContentType of
       Inl e \<Rightarrow> Inl e | Inr _ \<Rightarrow> checkContent w arg)"

definition changeContent :: "'cb world \<Rightarrow> object \<Rightarrow> template_factory \<Rightarrow> js_error + template_factory" where
  "changeContent w content t = (case checkContent w content of
      Inl e \<Rightarrow> Inl e | Inr _ \<Rightarrow> Inr (t\<lparr>tf_content := spread (tf_content t) content\<rparr>))"

definition maybeSanitize :: "html_browser \<Rightarrow> template_factory \<Rightarrow> string \<Rightarrow> string" where
  "maybeSanitize b t arg = (if tf_sanitize t then sanitizeHtml b arg (tf_allowList t) (tf_sanitizeFn t) else arg)"

definition putElementInTemplate :: "template_factory \<Rightarrow> node \<Rightarrow> node \<Rightarrow> template_write list" where
  "putElementInTemplate t element templateElement =
    (if tf_html t then [ParseHtml (Some templateElement) [], MoveInto element templateElement]
     else [WriteTextOf element templateElement])"

definition setContent ::
    "html_browser \<Rightarrow> template_find \<Rightarrow> template_factory \<Rightarrow> jsval \<Rightarrow> string \<Rightarrow> template_write list \<Rightarrow> template_write list" where
  "setContent b query t content sel ws = (case query ws sel of
      None \<Rightarrow> ws
    | Some templateElement \<Rightarrow>
        let content' = resolvePossibleFunction b content in
        if \<not> truthy content' then ws @ [RemoveNode templateElement]
        else (case content' of
            JNode n \<Rightarrow> ws @ putElementInTemplate t n templateElement
          | _ \<Rightarrow> if tf_html t then ws @ [ParseHtml (Some templateElement) (maybeSanitize b t (jsString content'))]
              else ws @ [WriteText templateElement (jsString content')]))"

definition toHtml :: "html_browser \<Rightarrow> template_find \<Rightarrow> template_factory \<Rightarrow> template_write list" where
  "toHtml b query t =
    (let ws = fold (\<lambda>(sel, text) ws. setContent b query t text sel ws) (tf_content t)
           [ParseHtml None (maybeSanitize b t (tf_template t))];
         extraClass = resolvePossibleFunction b (tf_extraClass t) in
     if truthy extraClass then ws @ [AddClasses (splitOn (CHR '' '') (jsString extraClass))] else ws)"

lemma setContent_writes:
  assumes "ParseHtml n s \<in> set (setContent b query t content sel ws)"
  shows "ParseHtml n s \<in> set ws \<or> tf_html t \<and> (s = [] \<or> (\<exists>x. s = maybeSanitize b t x))"
  using assms by (auto simp: setContent_def putElementInTemplate_def Let_def split: option.splits if_splits jsval.splits)

text \<open>
  Nothing reaches the HTML parser unsanitized. Of what a template writes, everything that is
  parsed is the result of the sanitizer or empty when sanitizing is on; and when \<open>html\<close> is off
  only the template itself is parsed at all, the content is written as text.\<close>

theorem template_parses_only_sanitized:
  assumes "ParseHtml n s \<in> set (toHtml b query t)"
  shows "(tf_sanitize t \<longrightarrow> s = [] \<or> (\<exists>x. s = sanitizeHtml b x (tf_allowList t) (tf_sanitizeFn t))) \<and>
    (\<not> tf_html t \<longrightarrow> n = None \<and> s = maybeSanitize b t (tf_template t))"
proof -
  have "ParseHtml n s \<in> set (fold (\<lambda>(sel, text) ws. setContent b query t text sel ws) c ws) \<Longrightarrow>
      ParseHtml n s \<in> set ws \<or> tf_html t \<and> (s = [] \<or> (\<exists>x. s = maybeSanitize b t x))" for c ws
  proof (induction c arbitrary: ws)
    case (Cons p c)
    obtain sel tx where p: "p = (sel, tx)" by fastforce
    show ?case using Cons.IH[of "setContent b query t tx sel ws"] Cons.prems
        setContent_writes[of n s b query t tx sel ws] by (auto simp: p)
  qed simp
  moreover have "ParseHtml n s \<in> set (fold (\<lambda>(sel, text) ws. setContent b query t text sel ws) (tf_content t)
      [ParseHtml None (maybeSanitize b t (tf_template t))])"
    using assms by (simp add: toHtml_def Let_def split: if_splits)
  ultimately have "ParseHtml n s \<in> set [ParseHtml None (maybeSanitize b t (tf_template t))] \<or>
      tf_html t \<and> (s = [] \<or> (\<exists>x. s = maybeSanitize b t x))" by blast
  then consider "n = None" "s = maybeSanitize b t (tf_template t)" | "tf_html t" "s = []"
    | x where "tf_html t" "s = maybeSanitize b t x" by auto
  then show ?thesis by cases (simp_all add: maybeSanitize_def, blast+)
qed

lemma template_parses_only_sanitized_witness:
  "\<exists>b query t s. ParseHtml None s \<in> set (toHtml b query t) \<and> tf_sanitize t \<and>
    s = sanitizeHtml b (tf_template t) (tf_allowList t) (tf_sanitizeFn t)"
proof -
  let ?b = "\<lparr>parseFromString = \<lambda>_. link_world, innerHTML = \<lambda>_. ''<a></a>'', callSanitizeFn = \<lambda>_ s. s,
    callFunction = \<lambda>_. JNull\<rparr>"
  let ?t = "\<lparr>tf_allowList = DefaultAllowlist, tf_content = [], tf_extraClass = JStr [], tf_html = False,
    tf_sanitize = True, tf_sanitizeFn = JNull, tf_template = ''<a></a>''\<rparr>"
  have m: "ParseHtml None ''<a></a>'' \<in> set (toHtml ?b (\<lambda>_ _. None) ?t)"
    by (simp add: toHtml_def Let_def maybeSanitize_def sanitizeHtml_def resolvePossibleFunction_def truthy_def)
  from template_parses_only_sanitized [OF this] have "''<a></a>'' = maybeSanitize ?b ?t (tf_template ?t)" by simp
  then show ?thesis using m by (intro exI[of _ ?b] exI[of _ "\<lambda>_ _. None"] exI[of _ ?t] exI[of _ "''<a></a>''"])
    (simp add: maybeSanitize_def)
qed

end
