(* ===== verification/BsTooltip.thy ===== *)
theory BsTooltip
  imports BsSanitizer
begin

text \<open>
  The tooltip plugin of Bootstrap and its subclass for popovers. The tip is made by the template
  factory: the writes of the template are given to the browser (\<open>te_root\<close>), which says what the
  first element of the result is. There is at most one armed timer, because every one that is
  set clears the one before. The positioning engine is an instance with a placement, or none.
  The options that the plugin reads are fields; \<open>Tooltip_getConfig\<close> says where they come from.
  Shadow roots are not modelled.
\<close>

section \<open>Options\<close>

definition DISALLOWED_ATTRIBUTES :: "string list" where
  "DISALLOWED_ATTRIBUTES = [''sanitize'', ''allowList'', ''sanitizeFn'']"

definition Tooltip_Default :: object where
  "Tooltip_Default = [(''allowList'', JObj []), (''animation'', JBool True), (''boundary'', JStr ''clippingParents''),
    (''container'', JBool False), (''customClass'', JStr []), (''delay'', JNum 0),
    (''fallbackPlacements'', JArr [JStr ''top'', JStr ''right'', JStr ''bottom'', JStr ''left'']),
    (''html'', JBool False), (''offset'', JArr [JNum 0, JNum 6]), (''placement'', JStr ''top''),
    (''popperConfig'', JNull), (''sanitize'', JBool True), (''sanitizeFn'', JNull), (''selector'', JBool False),
    (''template'', JStr (''<div class=\"tooltip\" role=\"tooltip\">'' @ ''<div class=\"tooltip-arrow\"></div>'' @
      ''<div class=\"tooltip-inner\"></div>'' @ ''</div>'')),
    (''title'', JStr []), (''trigger'', JStr ''hover focus'')]"

definition Tooltip_DefaultType :: "(string \<times> string) list" where
  "Tooltip_DefaultType = [(''allowList'', ''object''), (''animation'', ''boolean''), (''boundary'', ''(string|element)''),
    (''container'', ''(string|element|boolean)''), (''customClass'', ''(string|function)''),
    (''delay'', ''(number|object)''), (''fallbackPlacements'', ''array''), (''html'', ''boolean''),
    (''offset'', ''(array|string|function)''), (''placement'', ''(string|function)''),
    (''popperConfig'', ''(null|object|function)''), (''sanitize'', ''boolean''),
    (''sanitizeFn'', ''(null|function)''), (''selector'', ''(string|boolean)''), (''template'', ''string''),
    (''title'', ''(string|element|function)''), (''trigger'', ''string'')]"

definition Popover_Default :: object where
  "Popover_Default = spread Tooltip_Default [(''content'', JStr []), (''offset'', JArr [JNum 0, JNum 8]),
    (''placement'', JStr ''right''),
    (''template'', JStr (''<div class=\"popover\" role=\"tooltip\">'' @ ''<div class=\"popover-arrow\"></div>'' @
      ''<h3 class=\"popover-header\"></h3>'' @ ''<div class=\"popover-body\"></div>'' @ ''</div>'')),
    (''trigger'', JStr ''click'')]"

definition Popover_DefaultType :: "(string \<times> string) list" where
  "Popover_DefaultType = AList.update ''content'' ''(null|string|element|function)'' Tooltip_DefaultType"

definition jsval_of_element :: "node option \<Rightarrow> jsval" where
  "jsval_of_element e = (case e of Some n \<Rightarrow> JNode n | None \<Rightarrow> JNull)"

definition number_to_string :: "string \<Rightarrow> object \<Rightarrow> object" where
  "number_to_string k cfg = (case lookup cfg k of
      JNum x \<Rightarrow> AList.update k (JStr (numStr x)) cfg
    | JNaN \<Rightarrow> AList.update k (JStr ''NaN'') cfg
    | _ \<Rightarrow> cfg)"

definition Tooltip_configAfterMerge :: "'cb world \<Rightarrow> object \<Rightarrow> object" where
  "Tooltip_configAfterMerge w cfg =
    (let cfg1 = AList.update ''container'' (if lookup cfg ''container'' = JBool False then JNode document_body
           else jsval_of_element (getElement w (lookup cfg ''container''))) cfg;
         delay = lookup cfg1 ''delay'';
         cfg2 = (if toType w delay = ''number'' then AList.update ''delay'' (JObj [(''show'', delay), (''hide'', delay)]) cfg1
                 else cfg1) in
     number_to_string ''content'' (number_to_string ''title'' cfg2))"

text \<open>The data attributes are merged by \<open>_getConfig\<close> itself; \<open>_mergeConfigObj\<close> gets no element, so it
  reads no attribute.\<close>

definition Tooltip_getConfig ::
    "(string \<Rightarrow> jsval option) \<Rightarrow> object \<Rightarrow> (string \<times> string) list \<Rightarrow> 'cb world \<Rightarrow> node \<Rightarrow> jsval
      \<Rightarrow> js_error + object" where
  "Tooltip_getConfig parseJson dflt types w element config =
    (let dataAttributes = filter (\<lambda>(k, v). k \<notin> set DISALLOWED_ATTRIBUTES) (getDataAttributes parseJson w (Some element));
         config' = spread dataAttributes (spread_value config);
         config'' = Tooltip_configAfterMerge w (mergeConfigObj parseJson w dflt (JObj config') None) in
     case typeCheckConfig w config'' types of Inl e \<Rightarrow> Inl e | Inr _ \<Rightarrow> Inr config'')"

definition Tooltip_getDelegateConfig :: "object \<Rightarrow> object \<Rightarrow> object" where
  "Tooltip_getDelegateConfig dflt cfg =
    AList.update ''trigger'' (JStr ''manual'') (AList.update ''selector'' (JBool False)
      (foldl (\<lambda>c (k, v). if lookup dflt k \<noteq> v then AList.update k v c else c) [] cfg))"

section \<open>State\<close>

datatype tooltip_timer = EnterTimer | LeaveTimer

datatype tooltip_cb = TooltipShown | TooltipHidden

record tooltip =
  tt_element :: node
  tt_NAME :: string
  tt_cfg_allowList :: allow_list
  tt_cfg_animation :: bool
  tt_cfg_boundary :: jsval
  tt_cfg_container :: "node option"
  tt_cfg_content :: jsval
  tt_cfg_customClass :: jsval
  tt_cfg_fallbackPlacements :: jsval
  tt_cfg_html :: bool
  tt_cfg_offset :: jsval
  tt_cfg_placement :: jsval
  tt_cfg_popperConfig :: object
  tt_cfg_sanitize :: bool
  tt_cfg_sanitizeFn :: jsval
  tt_cfg_selector :: jsval
  tt_cfg_template :: string
  tt_cfg_title :: jsval
  tt_cfg_trigger :: string
  tt_isEnabled :: bool
  tt_timer :: "tooltip_timer option"
  tt_isHovered :: "bool option"
  tt_activeTrigger :: "string \<Rightarrow> bool"
  tt_popper :: "object option"
  tt_templateFactory :: "template_factory option"
  tt_newContent :: "object option"
  tt_tip :: "node option"

record tooltip_env =
  te_html :: html_browser
  te_query :: template_find
  te_root :: "template_write list \<Rightarrow> (string \<times> string list) option"
  te_random :: "nat \<Rightarrow> nat"
  te_text :: "page \<Rightarrow> node \<Rightarrow> string"

type_synonym tooltip_state = "tooltip \<times> tooltip_cb world"

definition tt_event :: "tooltip \<Rightarrow> string \<Rightarrow> string" where
  "tt_event t e = eventName (tt_NAME t) e"

section \<open>Content and tip\<close>

definition Tooltip_isAnimated :: "tooltip_state \<Rightarrow> bool" where
  "Tooltip_isAnimated s \<longleftrightarrow> tt_cfg_animation (fst s) \<or>
    (case tt_tip (fst s) of Some tip \<Rightarrow> has_class (snd s) tip ''fade'' | None \<Rightarrow> False)"

definition Tooltip_isShown :: "tooltip_state \<Rightarrow> bool" where
  "Tooltip_isShown s \<longleftrightarrow> (case tt_tip (fst s) of Some tip \<Rightarrow> has_class (snd s) tip ''show'' | None \<Rightarrow> False)"

definition Tooltip_getTitle :: "tooltip_env \<Rightarrow> tooltip_state \<Rightarrow> jsval" where
  "Tooltip_getTitle e s =
    (let title = resolvePossibleFunction (te_html e) (tt_cfg_title (fst s)) in
     if truthy title then title else attr_value (get_attr (snd s) (tt_element (fst s)) ''data-bs-original-title''))"

definition Popover_getContent :: "tooltip_env \<Rightarrow> tooltip \<Rightarrow> jsval" where
  "Popover_getContent e t = resolvePossibleFunction (te_html e) (tt_cfg_content t)"

definition Popover_isWithContent :: "tooltip_env \<Rightarrow> tooltip_state \<Rightarrow> bool" where
  "Popover_isWithContent e s \<longleftrightarrow> truthy (Tooltip_getTitle e s) \<or> truthy (Popover_getContent e (fst s))"

definition Tooltip_isWithContent :: "tooltip_env \<Rightarrow> tooltip_state \<Rightarrow> bool" where
  "Tooltip_isWithContent e s \<longleftrightarrow>
    (if tt_NAME (fst s) = ''popover'' then Popover_isWithContent e s else truthy (Tooltip_getTitle e s))"

definition Popover_getContentForTemplate :: "tooltip_env \<Rightarrow> tooltip_state \<Rightarrow> object" where
  "Popover_getContentForTemplate e s =
    [(''.popover-header'', Tooltip_getTitle e s), (''.popover-body'', Popover_getContent e (fst s))]"

definition Tooltip_getContentForTemplate :: "tooltip_env \<Rightarrow> tooltip_state \<Rightarrow> object" where
  "Tooltip_getContentForTemplate e s =
    (if tt_NAME (fst s) = ''popover'' then Popover_getContentForTemplate e s
     else [(''.tooltip-inner'', Tooltip_getTitle e s)])"

definition Tooltip_getTemplateFactory ::
    "tooltip_env \<Rightarrow> object \<Rightarrow> tooltip_state \<Rightarrow> js_error + template_factory" where
  "Tooltip_getTemplateFactory e content s =
    (let t = fst s in
     case tt_templateFactory t of
       Some f \<Rightarrow> changeContent (snd s) content f
     | None \<Rightarrow> (case checkContent (snd s) content of
           Inl err \<Rightarrow> Inl err
         | Inr _ \<Rightarrow> Inr \<lparr>tf_allowList = tt_cfg_allowList t, tf_content = content,
             tf_extraClass = resolvePossibleFunction (te_html e) (tt_cfg_customClass t), tf_html = tt_cfg_html t,
             tf_sanitize = tt_cfg_sanitize t, tf_sanitizeFn = tt_cfg_sanitizeFn t,
             tf_template = tt_cfg_template t\<rparr>))"

definition Tooltip_createTipElement ::
    "tooltip_env \<Rightarrow> object \<Rightarrow> tooltip_state \<Rightarrow> (js_error + node option) \<times> tooltip_state" where
  "Tooltip_createTipElement e content s = (case Tooltip_getTemplateFactory e content s of
      Inl err \<Rightarrow> (Inl err, s)
    | Inr f \<Rightarrow>
        let t = (fst s)\<lparr>tt_templateFactory := Some f\<rparr> in
        (case te_root e (toHtml (te_html e) (te_query e) f) of
           None \<Rightarrow> (Inr None, t, snd s)
         | Some (tag, classes) \<Rightarrow>
             let (tip, w) = create_element tag (snd s);
                 w1 = fold (\<lambda>c v. add_class c tip v) classes w;
                 w2 = add_class (''bs-'' @ tt_NAME t @ ''-auto'') tip (remove_class ''show'' tip (remove_class ''fade'' tip w1));
                 w3 = (case getUID (Suc (nodeCount w2)) w2 (te_random e) (tt_NAME t) of
                     Some tipId \<Rightarrow> set_attr ''id'' tipId tip w2 | None \<Rightarrow> w2);
                 w4 = (if Tooltip_isAnimated (t, w3) then add_class ''fade'' tip w3 else w3) in
             (Inr (Some tip), t, w4)))"

definition Tooltip_getTipElement :: "tooltip_env \<Rightarrow> tooltip_state \<Rightarrow> (js_error + node option) \<times> tooltip_state" where
  "Tooltip_getTipElement e s = (case tt_tip (fst s) of
      Some tip \<Rightarrow> (Inr (Some tip), s)
    | None \<Rightarrow>
        let content = (case tt_newContent (fst s) of Some c \<Rightarrow> c | None \<Rightarrow> Tooltip_getContentForTemplate e s) in
        (case Tooltip_createTipElement e content s of
           (Inl err, s1) \<Rightarrow> (Inl err, s1)
         | (Inr tip, t, w) \<Rightarrow> (Inr tip, t\<lparr>tt_tip := tip\<rparr>, w)))"

definition Tooltip_disposePopper :: "tooltip_state \<Rightarrow> tooltip_state" where
  "Tooltip_disposePopper s =
    (let t = (fst s)\<lparr>tt_popper := None\<rparr> in
     case tt_tip t of None \<Rightarrow> (t, snd s)
     | Some tip \<Rightarrow> (t\<lparr>tt_tip := None\<rparr>, remove_node tip (snd s)))"

section \<open>Positioning\<close>

definition AttachmentMap :: "'cb world \<Rightarrow> (string \<times> string) list" where
  "AttachmentMap w = [(''AUTO'', ''auto''), (''TOP'', ''top''), (''RIGHT'', if isRTL w then ''left'' else ''right''),
    (''BOTTOM'', ''bottom''), (''LEFT'', if isRTL w then ''right'' else ''left'')]"

definition Tooltip_getOffset :: "tooltip \<Rightarrow> jsval" where
  "Tooltip_getOffset t = (case tt_cfg_offset t of
      JStr s \<Rightarrow> JArr (map parseInt10 (splitOn (CHR '','') s)) | v \<Rightarrow> v)"

definition Tooltip_getPopperConfig :: "tooltip \<Rightarrow> jsval \<Rightarrow> object" where
  "Tooltip_getPopperConfig t attachment =
    (let modifier = (\<lambda>name k v. JObj [(''name'', JStr name), (''options'', JObj [(k, v)])]) in
     spread [(''placement'', attachment), (''modifiers'', JArr
       [modifier ''flip'' ''fallbackPlacements'' (tt_cfg_fallbackPlacements t),
        modifier ''offset'' ''offset'' (Tooltip_getOffset t),
        modifier ''preventOverflow'' ''boundary'' (tt_cfg_boundary t),
        modifier ''arrow'' ''element'' (JStr (''.'' @ tt_NAME t @ ''-arrow'')),
        JObj [(''name'', JStr ''preSetPlacement''), (''enabled'', JBool True), (''phase'', JStr ''beforeMain''),
          (''fn'', JFun ''preSetPlacement'')]])]
     (tt_cfg_popperConfig t))"

definition Tooltip_createPopper :: "tooltip_env \<Rightarrow> tooltip_state \<Rightarrow> object" where
  "Tooltip_createPopper e s =
    (let placement = resolvePossibleFunction (te_html e) (tt_cfg_placement (fst s));
         attachment = (case map_of (AttachmentMap (snd s)) (map upper_char (jsString placement)) of
             Some a \<Rightarrow> JStr a | None \<Rightarrow> JUndef) in
     Tooltip_getPopperConfig (fst s) attachment)"

section \<open>Show and hide\<close>

definition Tooltip_isWithActiveTrigger :: "tooltip \<Rightarrow> bool" where
  "Tooltip_isWithActiveTrigger t \<longleftrightarrow> tt_activeTrigger t ''click'' \<or> tt_activeTrigger t ''hover'' \<or> tt_activeTrigger t ''focus''"

definition Tooltip_leave :: "tooltip_state \<Rightarrow> tooltip_state" where
  "Tooltip_leave s =
    (if Tooltip_isWithActiveTrigger (fst s) then s
     else ((fst s)\<lparr>tt_isHovered := Some False, tt_timer := Some LeaveTimer\<rparr>, snd s))"

definition Tooltip_enter :: "tooltip_state \<Rightarrow> tooltip_state" where
  "Tooltip_enter s =
    (if Tooltip_isShown s \<or> tt_isHovered (fst s) = Some True then ((fst s)\<lparr>tt_isHovered := Some True\<rparr>, snd s)
     else ((fst s)\<lparr>tt_isHovered := Some True, tt_timer := Some EnterTimer\<rparr>, snd s))"

definition Tooltip_shown :: "tooltip_state \<Rightarrow> tooltip_state" where
  "Tooltip_shown s =
    (let w = announce (tt_element (fst s)) (tt_event (fst s) ''shown'') (snd s);
         s1 = (if tt_isHovered (fst s) = Some False then Tooltip_leave (fst s, w) else (fst s, w)) in
     ((fst s1)\<lparr>tt_isHovered := Some False\<rparr>, snd s1))"

definition Tooltip_hidden :: "tooltip_state \<Rightarrow> tooltip_state" where
  "Tooltip_hidden s =
    (if Tooltip_isWithActiveTrigger (fst s) then s
     else let s1 = (if tt_isHovered (fst s) \<noteq> Some True then Tooltip_disposePopper s else s);
              n = tt_element (fst s) in
       (fst s1, announce n (tt_event (fst s) ''hidden'') (remove_attr ''aria-describedby'' n (snd s1))))"

definition tooltip_run :: "tooltip_cb \<Rightarrow> tooltip_state \<Rightarrow> tooltip_state" where
  "tooltip_run c = (case c of TooltipShown \<Rightarrow> Tooltip_shown | TooltipHidden \<Rightarrow> Tooltip_hidden)"

definition mouseover_on :: "'cb world \<Rightarrow> 'cb world" where
  "mouseover_on w = (if hasTouchStart (env w)
    then fold (\<lambda>n. listen n ''mouseover'') (childNodes (page w document_body)) w else w)"

definition mouseover_off :: "'cb world \<Rightarrow> 'cb world" where
  "mouseover_off w = (if hasTouchStart (env w)
    then fold (\<lambda>n. unlisten n ''mouseover'') (childNodes (page w document_body)) w else w)"

definition Tooltip_open :: "tooltip_env \<Rightarrow> node \<Rightarrow> tooltip_state \<Rightarrow> js_error option \<times> tooltip_state" where
  "Tooltip_open e tip s =
    (let t = (fst s)\<lparr>tt_popper := Some (Tooltip_createPopper e s)\<rparr>;
         w = mouseover_on (add_class ''show'' tip (snd s)) in
     (None, executeAfterTransition tooltip_run TooltipShown tip (Tooltip_isAnimated (t, w)) (t, w)))"

text \<open>The error that \<open>show\<close> throws, or none, with the state it leaves.\<close>

definition Tooltip_show :: "tooltip_env \<Rightarrow> tooltip_state \<Rightarrow> js_error option \<times> tooltip_state" where
  "Tooltip_show e s =
    (let n = tt_element (fst s) in
     if get_style (snd s) n ''display'' = ''none'' then (Some (JsError ''Please use show on visible elements''), s)
     else if \<not> (Tooltip_isWithContent e s \<and> tt_isEnabled (fst s)) then (None, s)
     else let (prevented, w) = trigger n (tt_event (fst s) ''show'') (snd s) in
       if prevented \<or> \<not> node_contains w documentElement n then (None, fst s, w)
       else (case Tooltip_getTipElement e (Tooltip_disposePopper (fst s, w)) of
           (Inl err, s2) \<Rightarrow> (Some err, s2)
         | (Inr None, s2) \<Rightarrow> (Some (TypeError ''tip is null''), s2)
         | (Inr (Some tip), s2) \<Rightarrow>
             let w2 = set_attr ''aria-describedby'' (case get_attr (snd s2) tip ''id'' of Some i \<Rightarrow> i | None \<Rightarrow> ''null'') n (snd s2) in
             (case tt_cfg_container (fst s2) of
                None \<Rightarrow> (if node_contains w2 documentElement tip then Tooltip_open e tip (fst s2, w2)
                         else (Some (TypeError ''container is null''), fst s2, w2))
              | Some container \<Rightarrow> Tooltip_open e tip (fst s2,
                  if node_contains w2 documentElement tip then w2
                  else announce n (tt_event (fst s2) ''inserted'') (append_node tip container w2)))))"

definition Tooltip_hide :: "tooltip_state \<Rightarrow> tooltip_state" where
  "Tooltip_hide s = (case tt_tip (fst s) of None \<Rightarrow> s
    | Some tip \<Rightarrow>
        if \<not> has_class (snd s) tip ''show'' then s
        else let n = tt_element (fst s); (prevented, w) = trigger n (tt_event (fst s) ''hide'') (snd s) in
          if prevented then (fst s, w)
          else
            let w1 = mouseover_off (remove_class ''show'' tip w);
                t = (fst s)\<lparr>tt_activeTrigger := (tt_activeTrigger (fst s))(''click'' := False, ''focus'' := False, ''hover'' := False),
                  tt_isHovered := None\<rparr> in
            executeAfterTransition tooltip_run TooltipHidden tip (Tooltip_isAnimated (t, w1)) (t, w1))"

definition Tooltip_toggle :: "tooltip_state \<Rightarrow> tooltip_state" where
  "Tooltip_toggle s =
    (if \<not> tt_isEnabled (fst s) then s
     else let t = (fst s)\<lparr>tt_activeTrigger := (tt_activeTrigger (fst s))(''click'' := \<not> tt_activeTrigger (fst s) ''click'')\<rparr> in
       if Tooltip_isShown (t, snd s) then Tooltip_leave (t, snd s) else Tooltip_enter (t, snd s))"

definition Tooltip_enable :: "tooltip_state \<Rightarrow> tooltip_state" where
  "Tooltip_enable s = ((fst s)\<lparr>tt_isEnabled := True\<rparr>, snd s)"

definition Tooltip_disable :: "tooltip_state \<Rightarrow> tooltip_state" where
  "Tooltip_disable s = ((fst s)\<lparr>tt_isEnabled := False\<rparr>, snd s)"

definition Tooltip_toggleEnabled :: "tooltip_state \<Rightarrow> tooltip_state" where
  "Tooltip_toggleEnabled s = ((fst s)\<lparr>tt_isEnabled := \<not> tt_isEnabled (fst s)\<rparr>, snd s)"

definition Tooltip_setContent :: "tooltip_env \<Rightarrow> object \<Rightarrow> tooltip_state \<Rightarrow> js_error option \<times> tooltip_state" where
  "Tooltip_setContent e content s =
    (let s1 = ((fst s)\<lparr>tt_newContent := Some content\<rparr>, snd s) in
     if Tooltip_isShown s1 then Tooltip_show e (Tooltip_disposePopper s1) else (None, s1))"

section \<open>Timers and listeners\<close>

text \<open>An error in a timer ends that timer; the state is what it left.\<close>

definition Tooltip_timer :: "tooltip_env \<Rightarrow> tooltip_state \<Rightarrow> tooltip_state" where
  "Tooltip_timer e s = (case tt_timer (fst s) of None \<Rightarrow> s
    | Some timer \<Rightarrow>
        let s1 = ((fst s)\<lparr>tt_timer := None\<rparr>, snd s) in
        (case timer of
           EnterTimer \<Rightarrow> if tt_isHovered (fst s1) = Some True then snd (Tooltip_show e s1) else s1
         | LeaveTimer \<Rightarrow> if tt_isHovered (fst s1) \<noteq> Some True then Tooltip_hide s1 else s1))"

definition tt_trigger :: "string \<Rightarrow> string" where
  "tt_trigger type = (if type = ''focusin'' \<or> type = ''focusout'' then ''focus'' else ''hover'')"

definition Tooltip_eventIn :: "string \<Rightarrow> tooltip_state \<Rightarrow> tooltip_state" where
  "Tooltip_eventIn type s = Tooltip_enter
    ((fst s)\<lparr>tt_activeTrigger := (tt_activeTrigger (fst s))(tt_trigger type := True)\<rparr>, snd s)"

definition Tooltip_eventOut :: "string \<Rightarrow> node option \<Rightarrow> tooltip_state \<Rightarrow> tooltip_state" where
  "Tooltip_eventOut type relatedTarget s = Tooltip_leave
    ((fst s)\<lparr>tt_activeTrigger := (tt_activeTrigger (fst s))(tt_trigger type :=
        (case relatedTarget of Some m \<Rightarrow> node_contains (snd s) (tt_element (fst s)) m | None \<Rightarrow> False))\<rparr>, snd s)"

definition Tooltip_setListeners :: "tooltip \<Rightarrow> 'cb world \<Rightarrow> 'cb world" where
  "Tooltip_setListeners t w =
    (let n = tt_element t;
         w1 = fold (\<lambda>trig v.
             if trig = ''click'' then listen n (tt_event t ''click'') v
             else if trig \<noteq> ''manual'' then
               listen n (tt_event t (if trig = ''hover'' then ''mouseleave'' else ''focusout''))
                 (listen n (tt_event t (if trig = ''hover'' then ''mouseenter'' else ''focusin'')) v)
             else v) (splitOn (CHR '' '') (tt_cfg_trigger t)) w in
     case closest (\<lambda>m. has_class w1 m ''modal'') w1 n of
       Some m \<Rightarrow> listen m ''hide.bs.modal'' w1 | None \<Rightarrow> w1)"

definition Tooltip_fixTitle :: "tooltip_env \<Rightarrow> node \<Rightarrow> 'cb world \<Rightarrow> 'cb world" where
  "Tooltip_fixTitle e n w = (case nonempty (get_attr w n ''title'') of
      None \<Rightarrow> w
    | Some title \<Rightarrow>
        let w1 = (if nonempty (get_attr w n ''aria-label'') = None \<and> Trim (te_text e (page w) n) = []
              then set_attr ''aria-label'' title n w else w) in
        remove_attr ''title'' n (set_attr ''data-bs-original-title'' title n w1))"

definition Tooltip_new :: "tooltip_env \<Rightarrow> tooltip \<Rightarrow> tooltip_cb world \<Rightarrow> tooltip_state" where
  "Tooltip_new e options w =
    (let t = options\<lparr>tt_isEnabled := True, tt_timer := None, tt_isHovered := None, tt_activeTrigger := (\<lambda>_. False),
           tt_popper := None, tt_templateFactory := None, tt_newContent := None, tt_tip := None\<rparr>;
         w1 = Tooltip_setListeners t w in
     (t, if \<not> truthy (tt_cfg_selector t) then Tooltip_fixTitle e (tt_element t) w1 else w1))"

definition Tooltip_dispose :: "tooltip_state \<Rightarrow> tooltip_state" where
  "Tooltip_dispose s =
    (let n = tt_element (fst s); w = snd s;
         w1 = (case closest (\<lambda>m. has_class w m ''modal'') w n of
             Some m \<Rightarrow> unlisten m ''hide.bs.modal'' w | None \<Rightarrow> w);
         w2 = (case nonempty (get_attr w1 n ''data-bs-original-title'') of
             Some title \<Rightarrow> set_attr ''title'' title n w1 | None \<Rightarrow> w1);
         s3 = Tooltip_disposePopper ((fst s)\<lparr>tt_timer := None\<rparr>, w2) in
     (fst s3, unlisten_ns n (EVENT_KEY (tt_NAME (fst s))) (snd s3)))"

definition Tooltip_ends :: "tooltip_state \<Rightarrow> tooltip_state" where
  "Tooltip_ends s = (case tt_tip (fst s) of Some tip \<Rightarrow> transition_end tooltip_run tip s | None \<Rightarrow> s)"

section \<open>Options that markup cannot set\<close>

lemma distinct_spread: "distinct (map fst a) \<Longrightarrow> distinct (map fst (spread a b))"
  unfolding spread_def by (induction b arbitrary: a) (auto simp: distinct_update split: prod.splits)

lemma lookup_spread: "distinct (map fst b) \<Longrightarrow>
    lookup (spread a b) k = (case map_of b k of Some v \<Rightarrow> v | None \<Rightarrow> lookup a k)"
  by (simp add: lookup_def map_of_spread map_of_rev_distinct map_add_def split: option.splits)

lemma lookup_update: "lookup (AList.update k v cfg) j = (if j = k then v else lookup cfg j)"
  by (simp add: lookup_def update_conv')

lemma number_to_string_other: "j \<noteq> k \<Longrightarrow> lookup (number_to_string k cfg) j = lookup cfg j"
  by (simp add: number_to_string_def lookup_update split: jsval.splits)

lemma configAfterMerge_other:
  "k \<notin> {''container'', ''delay'', ''title'', ''content''} \<Longrightarrow> lookup (Tooltip_configAfterMerge w cfg) k = lookup cfg k"
  by (simp add: Tooltip_configAfterMerge_def number_to_string_other lookup_update Let_def)

text \<open>
  What is written into the page cannot switch the sanitizer off. Whatever data attributes the element has,
  the options \<open>sanitize\<close>, \<open>allowList\<close> and \<open>sanitizeFn\<close> of a tooltip or popover are those of the script that made
  it, over the defaults.\<close>

theorem tooltip_config_ignores_markup:
  assumes "Tooltip_getConfig pj dflt types w n config = Inr c" and k: "k \<in> set DISALLOWED_ATTRIBUTES"
  shows "lookup c k = lookup (spread dflt (spread_value config)) k"
proof -
  define D where "D = filter (\<lambda>(k, v). k \<notin> set DISALLOWED_ATTRIBUTES) (getDataAttributes pj w (Some n))"
  have c: "c = Tooltip_configAfterMerge w (spread dflt (spread D (spread_value config)))"
    using assms(1) by (auto simp: Tooltip_getConfig_def mergeConfigObj_def spread_value_def[of "JObj _"] Let_def D_def
      getDataAttributes_def[of _ _ None] spread_def[of _ "[]"] split: sum.splits)
  have d: "distinct (map fst D)"
    unfolding D_def using getDataAttributes_distinct[of pj w "Some n"] by (rule distinct_map_filter)
  have none: "map_of D k = None" using k by (auto simp: D_def map_of_eq_None_iff)
  have "lookup c k = lookup (spread dflt (spread D (spread_value config))) k"
    unfolding c using k by (intro configAfterMerge_other) (auto simp: DISALLOWED_ATTRIBUTES_def)
  also have "\<dots> = lookup (spread dflt (spread_value config)) k"
    unfolding lookup_def[of _ k] using none distinct_spread[OF d, of "spread_value config"]
    by (simp add: map_of_spread map_of_rev_distinct map_add_def split: option.splits)
  finally show ?thesis .
qed

text \<open>An element that asks for no sanitizing and one of the defaults.\<close>

definition unsafe_world :: "unit world" where
  "unsafe_world = blank_world (\<lambda>_. (plain_node ''A'' None [])\<lparr>attrs := [(''data-bs-sanitize'', ''false'')]\<rparr>) 5"

lemma tooltip_config_ignores_markup_witness:
  "getDataAttributes (\<lambda>_. None) unsafe_world (Some 4) = [(''sanitize'', JBool False)] \<and>
   (\<exists>c. Tooltip_getConfig (\<lambda>_. None) [(''sanitize'', JBool True)] [(''sanitize'', ''boolean'')] unsafe_world 4 JUndef = Inr c \<and>
     lookup c ''sanitize'' = JBool True)"
proof -
  have d: "getDataAttributes (\<lambda>_. None) unsafe_world (Some 4) = [(''sanitize'', JBool False)]"
    by (simp add: getDataAttributes_def dataset_def unsafe_world_def blank_world_def normalizeData_def
      lower_first_def lower_char_def upper_char_def is_upper_def is_lower_def Let_def) code_simp
  define c where "c = Tooltip_configAfterMerge unsafe_world [(''sanitize'', JBool True)]"
  have "lookup c ''sanitize'' = JBool True"
    by (simp add: c_def configAfterMerge_other) (simp add: lookup_def)
  then have "Tooltip_getConfig (\<lambda>_. None) [(''sanitize'', JBool True)] [(''sanitize'', ''boolean'')] unsafe_world 4 JUndef = Inr c"
    by (simp add: Tooltip_getConfig_def d mergeConfigObj_def spread_def spread_value_def DISALLOWED_ATTRIBUTES_def
      getDataAttributes_def[of _ _ None] c_def[symmetric] type_alternatives_def valueType_def isElement_def toType_def)
  then show ?thesis
    using tooltip_config_ignores_markup [of "\<lambda>_. None" "[(''sanitize'', JBool True)]" "[(''sanitize'', ''boolean'')]"
      unsafe_world 4 JUndef c "''sanitize''"] d
    by (auto simp: DISALLOWED_ATTRIBUTES_def spread_value_def spread_def lookup_def)
qed

section \<open>Showing and hiding\<close>

lemma create_element_ops [simp]:
  "fst (create_element g w) = nodeCount w" "nodeCount (snd (create_element g w)) = Suc (nodeCount w)"
  "eventLog (snd (create_element g w)) = eventLog w" "transitions (snd (create_element g w)) = transitions w"
  "env (snd (create_element g w)) = env w" "listeners (snd (create_element g w)) = listeners w"
  "m \<noteq> nodeCount w \<Longrightarrow> has_class (snd (create_element g w)) m c = has_class w m c"
  "m \<noteq> nodeCount w \<Longrightarrow> get_attr (snd (create_element g w)) m a = get_attr w m a"
  "m \<noteq> nodeCount w \<Longrightarrow> get_style (snd (create_element g w)) m p = get_style w m p"
  "parentNode (page (snd (create_element g w)) (nodeCount w)) = None"
  by (simp_all add: create_element_def dom_obs_defs)

lemma nodeCount_ops [simp]:
  "nodeCount (add_class c n w) = nodeCount w" "nodeCount (remove_class c n w) = nodeCount w"
  "nodeCount (set_attr a v n w) = nodeCount w" "nodeCount (remove_attr a n w) = nodeCount w"
  "nodeCount (listen n e w) = nodeCount w" "nodeCount (unlisten n e w) = nodeCount w"
  by (simp_all add: dom_op_defs)

lemma add_classes_ops [simp]:
  "nodeCount (fold (\<lambda>c. add_class c n) cs w) = nodeCount w"
  "eventLog (fold (\<lambda>c. add_class c n) cs w) = eventLog w"
  "transitions (fold (\<lambda>c. add_class c n) cs w) = transitions w"
  "env (fold (\<lambda>c. add_class c n) cs w) = env w"
  "get_attr (fold (\<lambda>c. add_class c n) cs w) m a = get_attr w m a"
  "get_style (fold (\<lambda>c. add_class c n) cs w) m p = get_style w m p"
  "parentNode (page (fold (\<lambda>c. add_class c n) cs w) m) = parentNode (page w m)"
  by (induction cs arbitrary: w) simp_all

lemma typeCheckConfig_env: "env v = env w \<Longrightarrow> typeCheckConfig v c ts = typeCheckConfig w c ts"
  by (induction ts) (auto simp: valueType_def toType_def isElement_def split: jsval.splits)

lemma checkContent_env: "env v = env w \<Longrightarrow> checkContent v c = checkContent w c"
  by (induction c) (auto simp: typeCheckConfig_env[of v w] split: sum.splits)

text \<open>A template that always has an element, and content of the right type.\<close>

definition tooltip_content :: "tooltip_env \<Rightarrow> tooltip_state \<Rightarrow> object" where
  "tooltip_content e s = (case tt_newContent (fst s) of Some c \<Rightarrow> c | None \<Rightarrow> Tooltip_getContentForTemplate e s)"

definition tooltip_ready :: "tooltip_env \<Rightarrow> tooltip_state \<Rightarrow> bool" where
  "tooltip_ready e s \<longleftrightarrow> get_style (snd s) (tt_element (fst s)) ''display'' \<noteq> ''none'' \<and>
    Tooltip_isWithContent e s \<and> tt_isEnabled (fst s) \<and> node_contains (snd s) documentElement (tt_element (fst s)) \<and>
    tt_element (fst s) < nodeCount (snd s) \<and> tt_cfg_container (fst s) \<noteq> None \<and>
    checkContent (snd s) (tooltip_content e s) = Inr () \<and> (\<forall>ws. te_root e ws \<noteq> None)"

lemma changeContent_ok: "checkContent w c = Inr () \<Longrightarrow> \<exists>f'. changeContent w c f = Inr f'"
  by (simp add: changeContent_def)

lemma tip_made:
  assumes none: "tt_tip t = None" and c: "checkContent w (tooltip_content e (t, w)) = Inr ()"
    and r: "\<And>ws. te_root e ws \<noteq> None"
  obtains t2 w2 u where "Tooltip_getTipElement e (t, w) = (Inr (Some (nodeCount w)), t2, w2)"
    and "t2 = t\<lparr>tt_templateFactory := tt_templateFactory t2, tt_tip := Some (nodeCount w)\<rparr>"
    and "get_attr w2 (nodeCount w) ''id'' = Some u" and "parentNode (page w2 (nodeCount w)) = None"
    and "eventLog w2 = eventLog w" and "transitions w2 = transitions w" and "env w2 = env w"
    and "\<And>m a. m \<noteq> nodeCount w \<Longrightarrow> get_attr w2 m a = get_attr w m a"
    and "nodeCount w2 = Suc (nodeCount w)"
proof -
  obtain f where f: "Tooltip_getTemplateFactory e (tooltip_content e (t, w)) (t, w) = Inr f"
  proof (cases "tt_templateFactory t")
    case None
    then show ?thesis using c by (intro that) (simp add: Tooltip_getTemplateFactory_def)
  next
    case (Some f0)
    then show ?thesis using changeContent_ok[OF c, of f0] that by (auto simp: Tooltip_getTemplateFactory_def)
  qed
  obtain g cs where g: "te_root e (toHtml (te_html e) (te_query e) f) = Some (g, cs)" using r by fast
  define tip where "tip = nodeCount w"
  define w0 where "w0 = snd (create_element g w)"
  have ce: "create_element g w = (tip, w0)" by (simp add: create_element_def tip_def w0_def)
  define w1 where "w1 = fold (\<lambda>c. add_class c tip) cs w0"
  define w2 where "w2 = add_class (''bs-'' @ tt_NAME t @ ''-auto'') tip (remove_class ''show'' tip (remove_class ''fade'' tip w1))"
  obtain u where u: "getUID (Suc (nodeCount w2)) w2 (te_random e) (tt_NAME t) = Some u"
    using getUID_terminates by blast
  define w3 where "w3 = set_attr ''id'' u tip w2"
  define w4 where "w4 = (if tt_cfg_animation t then add_class ''fade'' tip w3 else w3)"
  define t2 where "t2 = t\<lparr>tt_templateFactory := Some f, tt_tip := Some tip\<rparr>"
  have "Tooltip_createTipElement e (tooltip_content e (t, w)) (t, w) = (Inr (Some tip), t\<lparr>tt_templateFactory := Some f\<rparr>, w4)"
    unfolding Tooltip_createTipElement_def f using g u[unfolded w2_def w1_def] none
    by (simp add: ce Let_def Tooltip_isAnimated_def w4_def w3_def w2_def w1_def del: getUID.simps)
  then have "Tooltip_getTipElement e (t, w) = (Inr (Some tip), t2, w4)"
    using none by (simp add: Tooltip_getTipElement_def tooltip_content_def t2_def)
  then show ?thesis
    by (rule that[folded tip_def]) (auto simp: t2_def w4_def w3_def w2_def w1_def w0_def tip_def)
qed

lemma mouseover_ops [simp]:
  "has_class (mouseover_on w) m c = has_class w m c" "get_attr (mouseover_on w) m a = get_attr w m a"
  "get_style (mouseover_on w) m p = get_style w m p" "eventLog (mouseover_on w) = eventLog w"
  "transitions (mouseover_on w) = transitions w" "env (mouseover_on w) = env w"
  "has_class (mouseover_off w) m c = has_class w m c" "get_attr (mouseover_off w) m a = get_attr w m a"
  "get_style (mouseover_off w) m p = get_style w m p" "eventLog (mouseover_off w) = eventLog w"
  "transitions (mouseover_off w) = transitions w" "env (mouseover_off w) = env w"
  "inclusive_ancestors (mouseover_off w) m = inclusive_ancestors w m" "nodeCount (mouseover_off w) = nodeCount w"
proof -
  have on: "has_class (fold (\<lambda>n. listen n e) ns w) m c = has_class w m c"
    "get_attr (fold (\<lambda>n. listen n e) ns w) m a = get_attr w m a"
    "get_style (fold (\<lambda>n. listen n e) ns w) m p = get_style w m p"
    "eventLog (fold (\<lambda>n. listen n e) ns w) = eventLog w"
    "transitions (fold (\<lambda>n. listen n e) ns w) = transitions w"
    "env (fold (\<lambda>n. listen n e) ns w) = env w" for e ns and w :: "'a world"
    by (induction ns arbitrary: w) simp_all
  have off: "has_class (fold (\<lambda>n. unlisten n e) ns w) m c = has_class w m c"
    "get_attr (fold (\<lambda>n. unlisten n e) ns w) m a = get_attr w m a"
    "get_style (fold (\<lambda>n. unlisten n e) ns w) m p = get_style w m p"
    "eventLog (fold (\<lambda>n. unlisten n e) ns w) = eventLog w"
    "transitions (fold (\<lambda>n. unlisten n e) ns w) = transitions w"
    "env (fold (\<lambda>n. unlisten n e) ns w) = env w"
    "inclusive_ancestors (fold (\<lambda>n. unlisten n e) ns w) m = inclusive_ancestors w m"
    "nodeCount (fold (\<lambda>n. unlisten n e) ns w) = nodeCount w" for e ns and w :: "'a world"
    by (induction ns arbitrary: w) simp_all
  show "has_class (mouseover_on w) m c = has_class w m c" "get_attr (mouseover_on w) m a = get_attr w m a"
    "get_style (mouseover_on w) m p = get_style w m p" "eventLog (mouseover_on w) = eventLog w"
    "transitions (mouseover_on w) = transitions w" "env (mouseover_on w) = env w"
    using on by (simp_all add: mouseover_on_def)
  show "has_class (mouseover_off w) m c = has_class w m c" "get_attr (mouseover_off w) m a = get_attr w m a"
    "get_style (mouseover_off w) m p = get_style w m p" "eventLog (mouseover_off w) = eventLog w"
    "transitions (mouseover_off w) = transitions w" "env (mouseover_off w) = env w"
    "inclusive_ancestors (mouseover_off w) m = inclusive_ancestors w m" "nodeCount (mouseover_off w) = nodeCount w"
    using off by (simp_all add: mouseover_off_def)
qed

lemma detached_tip: "parentNode (page w n) = None \<Longrightarrow> node_contains w d n \<longleftrightarrow> d = n"
  by (cases "nodeCount w") (auto simp: node_contains_def inclusive_ancestors_def)

definition disposed :: "tooltip \<Rightarrow> tooltip" where
  "disposed t = t\<lparr>tt_popper := None, tt_tip := None\<rparr>"

lemma disposePopper_eq:
  obtains v where "Tooltip_disposePopper (t, w) = (disposed t, v)" and "eventLog v = eventLog w"
    and "transitions v = transitions w" and "env v = env w" and "nodeCount v = nodeCount w"
    and "\<And>m a. get_attr v m a = get_attr w m a"
proof (cases "tt_tip t")
  case None
  then show ?thesis by (intro that[of w]) (auto simp: Tooltip_disposePopper_def disposed_def)
next
  case (Some tip)
  then show ?thesis by (intro that[of "remove_node tip w"]) (auto simp: Tooltip_disposePopper_def disposed_def)
qed

lemma ancestors_transitions [simp]:
  "inclusive_ancestors (w\<lparr>transitions := ts\<rparr>) m = inclusive_ancestors w m"
  by (rule same_tree_ancestors) simp

lemma tooltip_content_cong:
  assumes "get_attr v (tt_element t) ''data-bs-original-title'' = get_attr w (tt_element t) ''data-bs-original-title''"
  shows "tooltip_content e (t, v) = tooltip_content e (t, w)"
    and "Tooltip_isWithContent e (t, v) = Tooltip_isWithContent e (t, w)"
  using assms by (simp_all add: tooltip_content_def Tooltip_getContentForTemplate_def Popover_getContentForTemplate_def
      Tooltip_getTitle_def Tooltip_isWithContent_def Popover_isWithContent_def Let_def split: option.splits)

lemma content_fields [simp]:
  "tooltip_content e (t\<lparr>tt_activeTrigger := a\<rparr>, w) = tooltip_content e (t, w)"
  "tooltip_content e (t\<lparr>tt_isHovered := b\<rparr>, w) = tooltip_content e (t, w)"
  "tooltip_content e (t\<lparr>tt_timer := c\<rparr>, w) = tooltip_content e (t, w)"
  "Tooltip_isWithContent e (t\<lparr>tt_activeTrigger := a\<rparr>, w) = Tooltip_isWithContent e (t, w)"
  "Tooltip_isWithContent e (t\<lparr>tt_isHovered := b\<rparr>, w) = Tooltip_isWithContent e (t, w)"
  "Tooltip_isWithContent e (t\<lparr>tt_timer := c\<rparr>, w) = Tooltip_isWithContent e (t, w)"
  by (simp_all add: tooltip_content_def Tooltip_getContentForTemplate_def Popover_getContentForTemplate_def
      Tooltip_getTitle_def Tooltip_isWithContent_def Popover_isWithContent_def Popover_getContent_def Let_def
      split: option.splits)

lemma content_disposed:
  "tooltip_content e (disposed t, v) = tooltip_content e (t, v)"
  by (simp add: disposed_def tooltip_content_def Tooltip_getContentForTemplate_def Popover_getContentForTemplate_def
      Tooltip_getTitle_def Popover_getContent_def Let_def split: option.splits)

text \<open>What \<open>show\<close> does on an element that is ready: a new tip in the place of the old one, announced twice, and the
  completion queued.\<close>

lemma Tooltip_show_opens:
  assumes r: "tooltip_ready e (t, w)" and p: "\<not> prevents (env w) (eventLog w) (tt_element t, tt_event t ''show'')"
  obtains t' w' u where
    "Tooltip_show e (t, w) = (None, executeAfterTransition tooltip_run TooltipShown (nodeCount w)
       (Tooltip_isAnimated (t', w')) (t', w'))"
    and "t' = t\<lparr>tt_popper := tt_popper t', tt_templateFactory := tt_templateFactory t', tt_tip := Some (nodeCount w)\<rparr>"
    and "has_class w' (nodeCount w) ''show''" and "get_attr w' (nodeCount w) ''id'' = Some u"
    and "get_attr w' (tt_element t) ''aria-describedby'' = Some u" and "env w' = env w" and "transitions w' = transitions w"
    and "eventLog w' = eventLog w @ [(tt_element t, tt_event t ''show''), (tt_element t, tt_event t ''inserted'')]"
proof -
  define n where "n = tt_element t"
  define w0 where "w0 = announce n (tt_event t ''show'') w"
  obtain w1 where w1: "Tooltip_disposePopper (t, w0) = (disposed t, w1)" "eventLog w1 = eventLog w0"
      "transitions w1 = transitions w0" "env w1 = env w0" "nodeCount w1 = nodeCount w0"
      "\<And>m a. get_attr w1 m a = get_attr w0 m a" using disposePopper_eq[of t w0] by blast
  have c: "tooltip_content e (disposed t, w1) = tooltip_content e (t, w)"
    unfolding content_disposed by (rule tooltip_content_cong) (simp add: w1 w0_def)
  have "checkContent w1 (tooltip_content e (disposed t, w1)) = Inr ()"
    using r checkContent_env[of w1 w] by (simp add: c tooltip_ready_def w1 w0_def)
  then obtain t2 w2 u where tip: "Tooltip_getTipElement e (disposed t, w1) = (Inr (Some (nodeCount w)), t2, w2)"
      "t2 = (disposed t)\<lparr>tt_templateFactory := tt_templateFactory t2, tt_tip := Some (nodeCount w)\<rparr>"
      "get_attr w2 (nodeCount w) ''id'' = Some u" "parentNode (page w2 (nodeCount w)) = None"
      "eventLog w2 = eventLog w0" "transitions w2 = transitions w" "env w2 = env w"
    using r tip_made[of "disposed t" w1 e thesis] by (auto simp: tooltip_ready_def disposed_def w1 w0_def)
  have el: "tt_element t2 = n" "tt_NAME t2 = tt_NAME t" "tt_cfg_container t2 = tt_cfg_container t"
    by (subst tip(2), simp add: disposed_def n_def)+
  have ev: "tt_event t2 x = tt_event t x" for x by (simp add: tt_event_def el)
  have ne: "n \<noteq> nodeCount w" using r by (simp add: tooltip_ready_def n_def)
  obtain k where k: "tt_cfg_container t = Some k" using r by (auto simp: tooltip_ready_def)
  have "0 < nodeCount w" using r by (auto simp: tooltip_ready_def)
  then have out: "\<not> node_contains (set_attr ''aria-describedby'' u n w2) documentElement (nodeCount w)"
    using tip(4) by (simp add: detached_tip documentElement_def)
  define w3 where "w3 = announce n (tt_event t ''inserted'') (append_node (nodeCount w) k (set_attr ''aria-describedby'' u n w2))"
  have "Tooltip_show e (t, w) = Tooltip_open e (nodeCount w) (t2, w3)"
    using r p k out by (simp add: Tooltip_show_def tooltip_ready_def trigger_eq n_def[symmetric] w0_def[symmetric]
      w1(1) tip(1,3) el ev w3_def Let_def) (simp add: w0_def node_contains_def)
  moreover define t3 where "t3 = t2\<lparr>tt_popper := Some (Tooltip_createPopper e (t2, w3))\<rparr>"
  moreover define w4 where "w4 = mouseover_on (add_class ''show'' (nodeCount w) w3)"
  ultimately have sh: "Tooltip_show e (t, w) = (None, executeAfterTransition tooltip_run TooltipShown (nodeCount w)
       (Tooltip_isAnimated (t3, w4)) (t3, w4))" by (simp add: Tooltip_open_def Let_def)
  have t3: "t3 = t\<lparr>tt_popper := tt_popper t3, tt_templateFactory := tt_templateFactory t3, tt_tip := Some (nodeCount w)\<rparr>"
    unfolding t3_def by (subst (1 3) tip(2)) (simp add: disposed_def)
  show ?thesis
    by (rule that[OF sh t3]) (use ne tip in \<open>simp_all add: w4_def w3_def n_def[symmetric] w0_def\<close>)
qed

definition tooltip_hiding :: "tooltip \<Rightarrow> tooltip" where
  "tooltip_hiding t = t\<lparr>tt_activeTrigger := (tt_activeTrigger t)(''click'' := False, ''focus'' := False, ''hover'' := False),
    tt_isHovered := None\<rparr>"

lemma Tooltip_hide_closes:
  assumes tip: "tt_tip t = Some tip" and "has_class w tip ''show''"
    and "\<not> prevents (env w) (eventLog w) (tt_element t, tt_event t ''hide'')"
  obtains w' where "Tooltip_hide (t, w) = executeAfterTransition tooltip_run TooltipHidden tip
      (Tooltip_isAnimated (tooltip_hiding t, w')) (tooltip_hiding t, w')"
    and "\<not> has_class w' tip ''show''" and "eventLog w' = eventLog w @ [(tt_element t, tt_event t ''hide'')]"
    and "env w' = env w" and "transitions w' = transitions w" and "nodeCount w' = nodeCount w"
    and "\<And>m a. get_attr w' m a = get_attr w m a" and "\<And>m q. get_style w' m q = get_style w m q"
    and "\<And>m. inclusive_ancestors w' m = inclusive_ancestors w m"
  using assms by (intro that[of "mouseover_off (remove_class ''show'' tip (announce (tt_element t) (tt_event t ''hide'') w))"])
    (simp_all add: Tooltip_hide_def trigger_eq tooltip_hiding_def Let_def)

lemma tooltip_hiding_fields [simp]:
  "tt_element (tooltip_hiding t) = tt_element t" "tt_tip (tooltip_hiding t) = tt_tip t"
  "tt_NAME (tooltip_hiding t) = tt_NAME t" "tt_isHovered (tooltip_hiding t) = None"
  "\<not> Tooltip_isWithActiveTrigger (tooltip_hiding t)" "tt_event (tooltip_hiding t) x = tt_event t x"
  by (simp_all add: tooltip_hiding_def Tooltip_isWithActiveTrigger_def tt_event_def)

lemma Tooltip_hidden_disposes:
  assumes "\<not> Tooltip_isWithActiveTrigger t" and "tt_isHovered t \<noteq> Some True"
  obtains v where "Tooltip_hidden (t, w) = (disposed t, v)" and "get_attr v (tt_element t) ''aria-describedby'' = None"
    and "eventLog v = eventLog w @ [(tt_element t, tt_event t ''hidden'')]" and "transitions v = transitions w"
    and "env v = env w"
proof -
  obtain v where v: "Tooltip_disposePopper (t, w) = (disposed t, v)" "eventLog v = eventLog w"
      "transitions v = transitions w" "env v = env w" using disposePopper_eq[of t w] by blast
  show ?thesis
    using assms v by (intro that[of "announce (tt_element t) (tt_event t ''hidden'') (remove_attr ''aria-describedby'' (tt_element t) v)"])
      (simp_all add: Tooltip_hidden_def Let_def)
qed

text \<open>
  A program that hides a tooltip and shows it again before it has faded out loses it. \<open>show\<close> makes a new tip,
  but the completion of the first call is still queued; when it runs no trigger is active and the mouse is not over
  the element, so it disposes of the new tip and announces \<open>hidden\<close>.\<close>

theorem tooltip_reshown_is_removed:
  assumes r: "tooltip_ready e (t, w)" and old: "tt_tip t = Some tip" "has_class w tip ''show''" and a: "tt_cfg_animation t"
    and q: "transitions w = []" and p: "\<And>l ev. \<not> prevents (env w) l ev" and ne: "tip \<noteq> nodeCount w"
  defines "s2 \<equiv> Tooltip_show e (Tooltip_hide (t, w))"
  defines "s3 \<equiv> transition_end tooltip_run tip (snd s2)"
  shows "fst s2 = None \<and> Tooltip_isShown (snd s2) \<and> tt_tip (fst s3) = None \<and>
    get_attr (snd s3) (tt_element t) ''aria-describedby'' = None \<and>
    eventLog (snd s3) = eventLog w @ map (\<lambda>x. (tt_element t, tt_event t x)) [''hide'', ''show'', ''inserted'', ''hidden'']"
proof -
  define h where "h = tooltip_hiding t"
  obtain w1 where hide: "Tooltip_hide (t, w) = executeAfterTransition tooltip_run TooltipHidden tip
        (Tooltip_isAnimated (h, w1)) (h, w1)" and w1: "eventLog w1 = eventLog w @ [(tt_element t, tt_event t ''hide'')]"
      "env w1 = env w" "transitions w1 = transitions w" "nodeCount w1 = nodeCount w"
      "\<And>m a. get_attr w1 m a = get_attr w m a" "\<And>m q. get_style w1 m q = get_style w m q"
      "\<And>m. inclusive_ancestors w1 m = inclusive_ancestors w m"
    using Tooltip_hide_closes[OF old, of thesis] p unfolding h_def by blast
  have "Tooltip_isAnimated (h, w1)" using a by (simp add: Tooltip_isAnimated_def h_def tooltip_hiding_def)
  moreover define w2 where "w2 = w1\<lparr>transitions := [(tip, TooltipHidden)]\<rparr>"
  ultimately have hide: "Tooltip_hide (t, w) = (h, w2)" using hide w1 q by simp
  have r2: "tooltip_ready e (h, w2)"
    using r tooltip_content_cong[of w2 t w e] checkContent_env[of w2 w] w1
    by (simp add: tooltip_ready_def h_def tooltip_hiding_def w2_def node_contains_def ancestors_transitions)
  have el: "tt_element h = tt_element t" "tt_event h x = tt_event t x" for x by (simp_all add: h_def)
  have p2: "\<not> prevents (env w2) (eventLog w2) (tt_element h, tt_event h ''show'')" using p w1 by (simp add: w2_def)
  obtain t3 w3 u where opens: "Tooltip_show e (h, w2) = (None, executeAfterTransition tooltip_run TooltipShown (nodeCount w2)
        (Tooltip_isAnimated (t3, w3)) (t3, w3))"
      and t3: "t3 = h\<lparr>tt_popper := tt_popper t3, tt_templateFactory := tt_templateFactory t3, tt_tip := Some (nodeCount w2)\<rparr>"
      and w3: "has_class w3 (nodeCount w2) ''show''" "env w3 = env w2" "transitions w3 = transitions w2"
        "eventLog w3 = eventLog w2 @ [(tt_element t, tt_event t ''show''), (tt_element t, tt_event t ''inserted'')]"
    using Tooltip_show_opens[OF r2 p2] unfolding el by blast
  have c2: "nodeCount w2 = nodeCount w" "transitions w2 = [(tip, TooltipHidden)]" using w1 by (simp_all add: w2_def)
  have f3: "tt_cfg_animation t3" "tt_tip t3 = Some (nodeCount w)" "tt_element t3 = tt_element t" "tt_isHovered t3 = None"
      "\<not> Tooltip_isWithActiveTrigger t3" "tt_event t3 x = tt_event t x" for x
    by (subst t3, simp add: a w1 w2_def h_def tooltip_hiding_def Tooltip_isWithActiveTrigger_def tt_event_def)+
  define w4 where "w4 = w3\<lparr>transitions := [(tip, TooltipHidden), (nodeCount w, TooltipShown)]\<rparr>"
  have s2: "s2 = (None, t3, w4)"
    using f3 w3(3) c2 by (simp add: s2_def hide opens Tooltip_isAnimated_def w4_def)
  have s3: "s3 = Tooltip_hidden (t3, w4\<lparr>transitions := [(nodeCount w, TooltipShown)]\<rparr>)"
    using ne by (simp add: s3_def s2 transition_end_def waiting_def take_waiting_def w4_def tooltip_run_def)
  obtain v where v: "s3 = (disposed t3, v)" "get_attr v (tt_element t) ''aria-describedby'' = None"
      "eventLog v = eventLog w3 @ [(tt_element t, tt_event t ''hidden'')]"
    using Tooltip_hidden_disposes[of t3 "w4\<lparr>transitions := [(nodeCount w, TooltipShown)]\<rparr>"] f3
    by (auto simp: s3 w4_def)
  have "Tooltip_isShown (snd s2)" using w3 w1 by (simp add: s2 Tooltip_isShown_def f3 w4_def w2_def)
  then show ?thesis using v w1 w3 by (simp add: s2 disposed_def w2_def)
qed

lemma Tooltip_ends_run:
  assumes "tt_tip t = Some tip" and "transitions w = []" and "tt_tip (fst (tooltip_run c (t, w))) = Some tip \<or>
      tt_tip (fst (tooltip_run c (t, w))) = None" and "transitions (snd (tooltip_run c (t, w))) = []"
  shows "Tooltip_ends (executeAfterTransition tooltip_run c tip b (t, w)) = tooltip_run c (t, w)"
proof (cases b)
  case True
  then show ?thesis using assms by (simp add: Tooltip_ends_def)
next
  case False
  then show ?thesis using assms(3,4)
    by (auto simp: Tooltip_ends_def transition_end_def take_waiting_none split: option.splits)
qed

lemma Tooltip_shown_hovered:
  "tt_isHovered t = Some True \<Longrightarrow> Tooltip_shown (t, w) =
    (t\<lparr>tt_isHovered := Some False\<rparr>, announce (tt_element t) (tt_event t ''shown'') w)"
  by (simp add: Tooltip_shown_def Let_def)

text \<open>The two halves of a hover: the mouse enters and the tip is shown, the mouse leaves and it is removed; in each the
  timer fires and the transition ends.\<close>

lemma tooltip_enter_shows:
  assumes r: "tooltip_ready e (t, w)" and none: "tt_tip t = None" "tt_isHovered t \<noteq> Some True" "tt_activeTrigger t = (\<lambda>_. False)"
    and q: "transitions w = []" and p: "\<And>l ev. \<not> prevents (env w) l ev"
  obtains t1 w1 tip u where "Tooltip_ends (Tooltip_timer e (Tooltip_eventIn ''mouseenter'' (t, w))) = (t1, w1)"
    "tt_tip t1 = Some tip" "tt_element t1 = tt_element t" "\<And>x. tt_event t1 x = tt_event t x" "tt_isHovered t1 = Some False"
    "tt_activeTrigger t1 = (\<lambda>_. False)(''hover'' := True)" "has_class w1 tip ''show''" "get_attr w1 tip ''id'' = Some u"
    "get_attr w1 (tt_element t) ''aria-describedby'' = Some u" "env w1 = env w" "transitions w1 = []"
    "eventLog w1 = eventLog w @ map (\<lambda>x. (tt_element t, tt_event t x)) [''show'', ''inserted'', ''shown'']"
proof -
  define h where "h = t\<lparr>tt_activeTrigger := (tt_activeTrigger t)(''hover'' := True), tt_isHovered := Some True, tt_timer := None\<rparr>"
  have el: "tt_element h = tt_element t" "tt_event h x = tt_event t x" for x by (simp_all add: h_def tt_event_def)
  have r1: "tooltip_ready e (h, w)" using r by (simp add: h_def tooltip_ready_def)
  have p1: "\<not> prevents (env w) (eventLog w) (tt_element h, tt_event h ''show'')" using p by blast
  obtain t3 w3 u where opens: "Tooltip_show e (h, w) = (None, executeAfterTransition tooltip_run TooltipShown (nodeCount w)
        (Tooltip_isAnimated (t3, w3)) (t3, w3))"
      and t3: "t3 = h\<lparr>tt_popper := tt_popper t3, tt_templateFactory := tt_templateFactory t3, tt_tip := Some (nodeCount w)\<rparr>"
      and w3: "has_class w3 (nodeCount w) ''show''" "get_attr w3 (nodeCount w) ''id'' = Some u"
        "get_attr w3 (tt_element t) ''aria-describedby'' = Some u" "env w3 = env w" "transitions w3 = transitions w"
        "eventLog w3 = eventLog w @ [(tt_element t, tt_event t ''show''), (tt_element t, tt_event t ''inserted'')]"
    using Tooltip_show_opens[OF r1 p1] unfolding el by blast
  have f3: "tt_tip t3 = Some (nodeCount w)" "tt_element t3 = tt_element t" "tt_isHovered t3 = Some True"
      "tt_event t3 x = tt_event t x" "tt_activeTrigger t3 = (\<lambda>_. False)(''hover'' := True)" for x
    by (subst t3, simp add: h_def tt_event_def none)+
  define t1 where "t1 = t3\<lparr>tt_isHovered := Some False\<rparr>"
  have shown: "tooltip_run TooltipShown (t3, w3) = (t1, announce (tt_element t) (tt_event t ''shown'') w3)"
    using f3 by (simp add: tooltip_run_def Tooltip_shown_hovered t1_def)
  have "Tooltip_timer e (Tooltip_eventIn ''mouseenter'' (t, w)) = snd (Tooltip_show e (h, w))"
    using none by (simp add: Tooltip_timer_def Tooltip_eventIn_def Tooltip_enter_def Tooltip_isShown_def tt_trigger_def h_def)
  also have "Tooltip_ends \<dots> = tooltip_run TooltipShown (t3, w3)"
    unfolding opens snd_conv using q w3 f3 by (intro Tooltip_ends_run) (simp_all add: shown t1_def)
  finally show thesis
    unfolding shown by (rule that) (use f3 w3 q in \<open>simp_all add: t1_def tt_event_def\<close>)
qed

lemma tooltip_leave_removes:
  assumes tip: "tt_tip t = Some tip" "tt_isHovered t = Some False" "tt_activeTrigger t = (\<lambda>_. False)(''hover'' := True)"
    and w: "has_class w tip ''show''" "transitions w = []" and p: "\<And>l ev. \<not> prevents (env w) l ev"
  obtains t2 w2 where "Tooltip_ends (Tooltip_timer e (Tooltip_eventOut ''mouseleave'' None (t, w))) = (t2, w2)"
    "tt_tip t2 = None" "get_attr w2 (tt_element t) ''aria-describedby'' = None"
    "eventLog w2 = eventLog w @ map (\<lambda>x. (tt_element t, tt_event t x)) [''hide'', ''hidden'']"
proof -
  define t4 where "t4 = t\<lparr>tt_activeTrigger := (\<lambda>_. False)(''hover'' := False), tt_isHovered := Some False, tt_timer := None\<rparr>"
  have f4: "tt_tip t4 = Some tip" "tt_element t4 = tt_element t" "tt_event t4 x = tt_event t x" for x
    using tip by (simp_all add: t4_def tt_event_def)
  have out: "Tooltip_timer e (Tooltip_eventOut ''mouseleave'' None (t, w)) = Tooltip_hide (t4, w)"
    using tip by (simp add: Tooltip_timer_def Tooltip_eventOut_def Tooltip_leave_def Tooltip_isWithActiveTrigger_def
      tt_trigger_def t4_def)
  have "\<not> prevents (env w) (eventLog w) (tt_element t4, tt_event t4 ''hide'')" using p by blast
  then obtain w5 where w5: "Tooltip_hide (t4, w) = executeAfterTransition tooltip_run TooltipHidden tip
        (Tooltip_isAnimated (tooltip_hiding t4, w5)) (tooltip_hiding t4, w5)"
      "eventLog w5 = eventLog w @ [(tt_element t4, tt_event t4 ''hide'')]" "transitions w5 = transitions w"
    by (rule Tooltip_hide_closes[OF f4(1) w(1)]) (rule that, assumption+)
  obtain v where v: "Tooltip_hidden (tooltip_hiding t4, w5) = (disposed (tooltip_hiding t4), v)"
      "get_attr v (tt_element t) ''aria-describedby'' = None" "transitions v = transitions w5"
      "eventLog v = eventLog w5 @ [(tt_element t, tt_event t ''hidden'')]"
    using Tooltip_hidden_disposes[of "tooltip_hiding t4" w5] f4 by (auto simp: f4)
  have run: "tooltip_run TooltipHidden (tooltip_hiding t4, w5) = (disposed (tooltip_hiding t4), v)"
    by (simp add: tooltip_run_def v(1))
  have "Tooltip_ends (Tooltip_hide (t4, w)) = tooltip_run TooltipHidden (tooltip_hiding t4, w5)"
    unfolding w5(1) by (rule Tooltip_ends_run) (simp_all add: f4(1) w5(3) w(2) run disposed_def v(3))
  then show thesis
    unfolding out[symmetric] run by (rule that) (simp_all add: disposed_def v w5 f4)
qed

text \<open>
  C33: the hover cycle. On an element that is ready and whose tip is not shown, the mouse entering arms a timer; when
  it fires and the transition ends, a new tip is shown and the element refers to it by its id. When the
  mouse leaves and the second timer and transition are over, the tip and the reference are gone; the five events
  came in their order.\<close>

theorem tooltip_hover_cycle:
  assumes r: "tooltip_ready e (t, w)" and none: "tt_tip t = None" "tt_isHovered t \<noteq> Some True" "tt_activeTrigger t = (\<lambda>_. False)"
    and q: "transitions w = []" and p: "\<And>l ev. \<not> prevents (env w) l ev"
  defines "s1 \<equiv> Tooltip_ends (Tooltip_timer e (Tooltip_eventIn ''mouseenter'' (t, w)))"
  defines "s2 \<equiv> Tooltip_ends (Tooltip_timer e (Tooltip_eventOut ''mouseleave'' None s1))"
  shows "Tooltip_isShown s1 \<and> (\<exists>tip u. tt_tip (fst s1) = Some tip \<and> get_attr (snd s1) tip ''id'' = Some u \<and>
      get_attr (snd s1) (tt_element t) ''aria-describedby'' = Some u) \<and>
    tt_tip (fst s2) = None \<and> get_attr (snd s2) (tt_element t) ''aria-describedby'' = None \<and>
    eventLog (snd s2) = eventLog w @ map (\<lambda>x. (tt_element t, tt_event t x)) [''show'', ''inserted'', ''shown'', ''hide'', ''hidden'']"
proof -
  obtain t1 w1 tip u where s1: "s1 = (t1, w1)" and t1: "tt_tip t1 = Some tip" "tt_element t1 = tt_element t"
      "\<And>x. tt_event t1 x = tt_event t x" "tt_isHovered t1 = Some False" "tt_activeTrigger t1 = (\<lambda>_. False)(''hover'' := True)"
    and w1: "has_class w1 tip ''show''" "get_attr w1 tip ''id'' = Some u"
      "get_attr w1 (tt_element t) ''aria-describedby'' = Some u" "env w1 = env w" "transitions w1 = []"
      "eventLog w1 = eventLog w @ map (\<lambda>x. (tt_element t, tt_event t x)) [''show'', ''inserted'', ''shown'']"
    by (rule tooltip_enter_shows [OF r none q p]) (rule that, unfold s1_def, assumption+)
  have p1: "\<not> prevents (env w1) l ev" for l ev using p w1(4) by simp
  obtain t2 w2 where "s2 = (t2, w2)" "tt_tip t2 = None" "get_attr w2 (tt_element t1) ''aria-describedby'' = None"
      "eventLog w2 = eventLog w1 @ map (\<lambda>x. (tt_element t1, tt_event t1 x)) [''hide'', ''hidden'']"
    by (rule tooltip_leave_removes [OF t1(1,4,5) w1(1,5) p1, where e = e]) (rule that, unfold s2_def s1, assumption+)
  then show ?thesis using s1 t1 w1 by (simp add: Tooltip_isShown_def)
qed

text \<open>A body with a link that has a title.\<close>

definition tip_page :: page where
  "tip_page = (\<lambda>_. plain_node ''DIV'' None [])(documentElement := plain_node ''HTML'' None [document_body],
    document_body := plain_node ''BODY'' (Some documentElement) [4], 4 := plain_node ''A'' (Some document_body) [])"

definition tip_world :: "tooltip_cb world" where
  "tip_world = blank_world tip_page 6"

definition tip_env :: tooltip_env where
  "tip_env = \<lparr>te_html = \<lparr>parseFromString = \<lambda>_. blank_world tip_page 6, innerHTML = \<lambda>_. [], callSanitizeFn = \<lambda>_ s. s,
      callFunction = \<lambda>_. JNull\<rparr>, te_query = \<lambda>_ _. None, te_root = \<lambda>_. Some (''DIV'', [''tooltip'']),
      te_random = \<lambda>k. k, te_text = \<lambda>_ _. []\<rparr>"

definition a_tooltip :: "node option \<Rightarrow> tooltip" where
  "a_tooltip tip = \<lparr>tt_element = 4, tt_NAME = ''tooltip'', tt_cfg_allowList = DefaultAllowlist, tt_cfg_animation = True,
    tt_cfg_boundary = JStr ''clippingParents'', tt_cfg_container = Some document_body, tt_cfg_content = JUndef,
    tt_cfg_customClass = JStr [], tt_cfg_fallbackPlacements = JArr [], tt_cfg_html = False, tt_cfg_offset = JArr [JNum 0, JNum 6],
    tt_cfg_placement = JStr ''top'', tt_cfg_popperConfig = [], tt_cfg_sanitize = True, tt_cfg_sanitizeFn = JNull,
    tt_cfg_selector = JBool False, tt_cfg_template = ''<div></div>'', tt_cfg_title = JStr ''A'', tt_cfg_trigger = ''hover focus'',
    tt_isEnabled = True, tt_timer = None, tt_isHovered = None, tt_activeTrigger = (\<lambda>_. False), tt_popper = None,
    tt_templateFactory = None, tt_newContent = None, tt_tip = tip\<rparr>"

definition tip_shown_world :: "tooltip_cb world" where
  "tip_shown_world = add_class ''show'' 5 tip_world"

lemma tip_ready: "tooltip_ready tip_env (a_tooltip None, tip_world)" "tooltip_ready tip_env (a_tooltip (Some 5), tip_shown_world)"
  by (simp_all add: tooltip_ready_def tip_world_def tip_shown_world_def tip_env_def a_tooltip_def tip_page_def blank_world_def
      plain_node_def get_style_def Tooltip_isWithContent_def Tooltip_getTitle_def resolvePossibleFunction_def truthy_def
      node_contains_def inclusive_ancestors_def document_body_def documentElement_def numeral_eq_Suc tooltip_content_def
      Tooltip_getContentForTemplate_def DefaultContentType_def type_alternatives_def valueType_def isElement_def toType_def
      lookup_def add_class_def upd_node_def)

lemma tip_facts: "\<not> prevents (env tip_world) l ev" "\<not> prevents (env tip_shown_world) l ev" "transitions tip_world = []"
  "transitions tip_shown_world = []" "tt_tip (a_tooltip x) = x" "tt_isHovered (a_tooltip x) \<noteq> Some True"
  "tt_activeTrigger (a_tooltip x) = (\<lambda>_. False)" "has_class tip_shown_world 5 ''show''" "tt_cfg_animation (a_tooltip x)"
  "(5::nat) \<noteq> nodeCount tip_shown_world"
  by (simp_all add: tip_world_def tip_shown_world_def blank_world_def blank_browser_def a_tooltip_def)

lemma tooltip_hover_cycle_witness:
  "Tooltip_isShown (Tooltip_ends (Tooltip_timer tip_env (Tooltip_eventIn ''mouseenter'' (a_tooltip None, tip_world)))) \<and>
   tt_tip (fst (Tooltip_ends (Tooltip_timer tip_env (Tooltip_eventOut ''mouseleave'' None
     (Tooltip_ends (Tooltip_timer tip_env (Tooltip_eventIn ''mouseenter'' (a_tooltip None, tip_world)))))))) = None"
  using tooltip_hover_cycle [OF tip_ready(1) tip_facts(5-7,3,1)] by blast

lemma tooltip_reshown_is_removed_witness:
  "Tooltip_isShown (snd (Tooltip_show tip_env (Tooltip_hide (a_tooltip (Some 5), tip_shown_world)))) \<and>
   tt_tip (fst (transition_end tooltip_run 5 (snd (Tooltip_show tip_env (Tooltip_hide (a_tooltip (Some 5), tip_shown_world)))))) = None"
  using tooltip_reshown_is_removed [OF tip_ready(2) tip_facts(5,8,9,4,2,10)] by blast

end
