(* ===== verification/BsScrollSpy.thy ===== *)
theory BsScrollSpy
  imports BsTooltip
begin

text \<open>
  The scroll spy of Bootstrap. The browser decides which hash a link has, how it decodes, which
  selectors are valid and where an element lies (\<open>scroll_env\<close>); the entries of the intersection
  observer and the scroll position at their delivery are arguments of the callback. The observer is
  the list of the sections it observes. An operation that can throw gives the error, or none, and
  the state it leaves; of a constructor that throws nothing is kept.
\<close>

section \<open>Options and state\<close>

definition ScrollSpy_Default :: object where
  "ScrollSpy_Default = [(''offset'', JNull), (''rootMargin'', JStr ''0px 0px -25%''), (''smoothScroll'', JBool False),
    (''target'', JNull), (''threshold'', JArr [JNum (1/10), JNum (1/2), JNum 1])]"

definition ScrollSpy_DefaultType :: "(string \<times> string) list" where
  "ScrollSpy_DefaultType = [(''offset'', ''(number|null)''), (''rootMargin'', ''string''),
    (''smoothScroll'', ''boolean''), (''target'', ''element''), (''threshold'', ''array'')]"

definition ScrollSpy_configAfterMerge :: "'cb world \<Rightarrow> object \<Rightarrow> object" where
  "ScrollSpy_configAfterMerge w cfg =
    (let cfg1 = AList.update ''target'' (JNode (case getElement w (lookup cfg ''target'') of
           Some n \<Rightarrow> n | None \<Rightarrow> document_body)) cfg;
         cfg2 = AList.update ''rootMargin'' (if truthy (lookup cfg1 ''offset'')
           then JStr (jsString (lookup cfg1 ''offset'') @ ''px 0px -30%'') else lookup cfg1 ''rootMargin'') cfg1 in
     case lookup cfg2 ''threshold'' of
       JStr s \<Rightarrow> AList.update ''threshold'' (JArr (map parseFloat (splitOn (CHR '','') s))) cfg2
     | _ \<Rightarrow> cfg2)"

record scroll_env =
  se_hash :: "page \<Rightarrow> node \<Rightarrow> string"
  se_decodeURI :: "string \<Rightarrow> string option"
  se_validSelector :: "string \<Rightarrow> bool"
  se_offsetTop :: "page \<Rightarrow> node \<Rightarrow> real"

record intersection =
  en_target :: node
  en_isIntersecting :: bool

text \<open>The active target is \<open>null\<close> (\<open>None\<close>), \<open>undefined\<close> (\<open>Some None\<close>) or a link.\<close>

record scrollspy =
  ss_element :: node
  ss_config :: object
  ss_targetLinks :: "(string \<times> node) list"
  ss_observableSections :: "(string \<times> node) list"
  ss_rootElement :: "node option"
  ss_activeTarget :: "node option option"
  ss_observer :: "node list option"
  ss_visibleEntryTop :: real
  ss_parentScrollTop :: real

type_synonym 'cb scrollspy_state = "scrollspy \<times> 'cb world"

definition ss_target :: "scrollspy \<Rightarrow> node" where
  "ss_target t = (case lookup (ss_config t) ''target'' of JNode n \<Rightarrow> n | _ \<Rightarrow> document_body)"

section \<open>Targets and sections\<close>

definition findOne_within :: "scroll_env \<Rightarrow> 'cb world \<Rightarrow> string \<Rightarrow> node \<Rightarrow> js_error + node option" where
  "findOne_within e w sel n = (if se_validSelector e sel
    then Inr (case querySelectorAll (env w) (page w) n sel of [] \<Rightarrow> None | m # _ \<Rightarrow> Some m)
    else Inl (JsError sel))"

fun collect_targets :: "scroll_env \<Rightarrow> 'cb world \<Rightarrow> node list \<Rightarrow> scrollspy \<Rightarrow> js_error option \<times> scrollspy" where
  "collect_targets e w [] t = (None, t)"
| "collect_targets e w (anchor # links) t =
    (let hash = se_hash e (page w) anchor in
     if hash = [] \<or> isDisabled w (Some anchor) then collect_targets e w links t
     else (case se_decodeURI e hash of
         None \<Rightarrow> (Some (JsError ''URI malformed''), t)
       | Some decoded \<Rightarrow> (case findOne_within e w decoded (ss_element t) of
           Inl err \<Rightarrow> (Some err, t)
         | Inr observableSection \<Rightarrow>
             if isVisible w observableSection
             then collect_targets e w links
               (t\<lparr>ss_targetLinks := AList.update decoded anchor (ss_targetLinks t),
                  ss_observableSections := AList.update hash (the observableSection) (ss_observableSections t)\<rparr>)
             else collect_targets e w links t)))"

definition initializeTargetsAndObservables ::
    "scroll_env \<Rightarrow> 'cb scrollspy_state \<Rightarrow> js_error option \<times> scrollspy" where
  "initializeTargetsAndObservables e s =
    collect_targets e (snd s) (query_all (\<lambda>n. has_attr (snd s) n ''href'') (snd s) (ss_target (fst s)))
      ((fst s)\<lparr>ss_targetLinks := [], ss_observableSections := []\<rparr>)"

definition maybeEnableSmoothScroll :: "scrollspy \<Rightarrow> 'cb world \<Rightarrow> 'cb world" where
  "maybeEnableSmoothScroll t w =
    (if \<not> truthy (lookup (ss_config t) ''smoothScroll'') then w
     else listen (ss_target t) ''click.bs.scrollspy'' (unlisten (ss_target t) ''click.bs.scrollspy'' w))"

text \<open>The listener of a link: the root that is scrolled and the height, when the default is prevented.\<close>

definition smooth_scroll_click :: "scroll_env \<Rightarrow> 'cb scrollspy_state \<Rightarrow> node \<Rightarrow> (node \<times> real) option" where
  "smooth_scroll_click e s link = (let t = fst s; p = page (snd s) in
     case map_of (ss_observableSections t) (se_hash e p link) of
       None \<Rightarrow> None
     | Some observableSection \<Rightarrow>
         let root = (case ss_rootElement t of Some r \<Rightarrow> r | None \<Rightarrow> window_node) in
         Some (root, se_offsetTop e p observableSection - se_offsetTop e p (ss_element t)))"

definition ScrollSpy_refresh :: "scroll_env \<Rightarrow> 'cb scrollspy_state \<Rightarrow> js_error option \<times> 'cb scrollspy_state" where
  "ScrollSpy_refresh e s = (case initializeTargetsAndObservables e s of
      (Some err, t) \<Rightarrow> (Some err, t, snd s)
    | (None, t) \<Rightarrow>
        let w = maybeEnableSmoothScroll t (snd s) in
        (None, t\<lparr>ss_observer := Some (remdups (map snd (ss_observableSections t)))\<rparr>, w))"

definition ScrollSpy_new ::
    "scroll_env \<Rightarrow> node \<Rightarrow> object \<Rightarrow> 'cb world \<Rightarrow> js_error + 'cb scrollspy_state" where
  "ScrollSpy_new e element cfg w =
    (let t = \<lparr>ss_element = element, ss_config = cfg, ss_targetLinks = [], ss_observableSections = [],
           ss_rootElement = (if computedStyle (env w) (page w) element ''overflowY'' = ''visible'' then None else Some element),
           ss_activeTarget = None, ss_observer = None, ss_visibleEntryTop = 0, ss_parentScrollTop = 0\<rparr> in
     case ScrollSpy_refresh e (t, w) of (Some err, _) \<Rightarrow> Inl err | (None, s) \<Rightarrow> Inr s)"

definition ScrollSpy_dispose :: "'cb scrollspy_state \<Rightarrow> 'cb scrollspy_state" where
  "ScrollSpy_dispose s = ((fst s)\<lparr>ss_observer := Some []\<rparr>, unlisten_ns (ss_element (fst s)) (EVENT_KEY ''scrollspy'') (snd s))"

text \<open>The data API: an instance for every spy of the page, until a constructor throws.\<close>

fun ScrollSpy_load ::
    "(string \<Rightarrow> jsval option) \<Rightarrow> scroll_env \<Rightarrow> node list \<Rightarrow> 'cb world \<Rightarrow> js_error option \<times> scrollspy list \<times> 'cb world" where
  "ScrollSpy_load parseJson e [] w = (None, [], w)"
| "ScrollSpy_load parseJson e (spy # spies) w =
    (case getConfig parseJson w ScrollSpy_Default ScrollSpy_DefaultType (ScrollSpy_configAfterMerge w) JUndef (Some spy) of
       Inl err \<Rightarrow> (Some err, [], w)
     | Inr cfg \<Rightarrow> (case ScrollSpy_new e spy cfg w of
         Inl err \<Rightarrow> (Some err, [], w)
       | Inr (t, v) \<Rightarrow> let (err, ts, u) = ScrollSpy_load parseJson e spies v in (err, t # ts, u)))"

definition is_spy :: "'cb world \<Rightarrow> node \<Rightarrow> bool" where
  "is_spy w n \<longleftrightarrow> get_attr w n ''data-bs-spy'' = Some ''scroll''"

definition ScrollSpy_init ::
    "(string \<Rightarrow> jsval option) \<Rightarrow> scroll_env \<Rightarrow> 'cb world \<Rightarrow> js_error option \<times> scrollspy list \<times> 'cb world" where
  "ScrollSpy_init parseJson e w = ScrollSpy_load parseJson e (query_all (is_spy w) w documentElement) w"

section \<open>The logic of selection\<close>

definition clearActiveClass :: "node \<Rightarrow> 'cb world \<Rightarrow> 'cb world" where
  "clearActiveClass parent w =
    (let w1 = remove_class ''active'' parent w in
     fold (remove_class ''active'') (query_all (\<lambda>n. has_attr w1 n ''href'' \<and> has_class w1 n ''active'') w1 parent) w1)"

definition is_link_item :: "'cb world \<Rightarrow> node \<Rightarrow> bool" where
  "is_link_item w n \<longleftrightarrow> has_class w n ''nav-link'' \<or> has_class w n ''list-group-item''"

text \<open>The elements that are marked with an active link, or the error where a dropdown has no toggle.\<close>

definition link_parents :: "'cb world \<Rightarrow> node \<Rightarrow> js_error + node list" where
  "link_parents w target =
    (if has_class w target ''dropdown-item'' then
       (case closest (\<lambda>n. has_class w n ''dropdown'') w target of
          None \<Rightarrow> Inl (TypeError ''Illegal invocation'')
        | Some dropdown \<Rightarrow> (case query_one (\<lambda>n. has_class w n ''dropdown-toggle'') w dropdown of
            None \<Rightarrow> Inl (TypeError ''toggle is null'')
          | Some toggle \<Rightarrow> Inr [toggle]))
     else Inr (concat (map (prev_sibling (is_link_item w) w)
       (parents (\<lambda>n. has_class w n ''nav'' \<or> has_class w n ''list-group'') w target))))"

definition activateParents :: "node \<Rightarrow> 'cb world \<Rightarrow> js_error option \<times> 'cb world" where
  "activateParents target w = (case link_parents w target of
      Inl err \<Rightarrow> (Some err, w)
    | Inr items \<Rightarrow> (None, fold (add_class ''active'') items w))"

definition spy_process :: "node option \<Rightarrow> 'cb scrollspy_state \<Rightarrow> js_error option \<times> 'cb scrollspy_state" where
  "spy_process target s =
    (if ss_activeTarget (fst s) = Some target then (None, s)
     else let w = clearActiveClass (ss_target (fst s)) (snd s); t = (fst s)\<lparr>ss_activeTarget := Some target\<rparr> in
       (case target of
          None \<Rightarrow> (Some (TypeError ''target is undefined''), t, w)
        | Some n \<Rightarrow> (case activateParents n (add_class ''active'' n w) of
            (Some err, w1) \<Rightarrow> (Some err, t, w1)
          | (None, w1) \<Rightarrow> (None, t, announce (ss_element t) ''activate.bs.scrollspy'' w1))))"

definition targetElement :: "'cb scrollspy_state \<Rightarrow> intersection \<Rightarrow> node option" where
  "targetElement s entry = map_of (ss_targetLinks (fst s))
    (''#'' @ (case get_attr (snd s) (en_target entry) ''id'' of Some i \<Rightarrow> i | None \<Rightarrow> []))"

definition spy_activate :: "scroll_env \<Rightarrow> intersection \<Rightarrow> 'cb scrollspy_state \<Rightarrow> js_error option \<times> 'cb scrollspy_state" where
  "spy_activate e entry s =
    spy_process (targetElement s entry)
      ((fst s)\<lparr>ss_visibleEntryTop := se_offsetTop e (page (snd s)) (en_target entry)\<rparr>, snd s)"

fun observe_entries ::
    "scroll_env \<Rightarrow> real \<Rightarrow> bool \<Rightarrow> intersection list \<Rightarrow> 'cb scrollspy_state \<Rightarrow> js_error option \<times> 'cb scrollspy_state" where
  "observe_entries e parentScrollTop userScrollsDown [] s = (None, s)"
| "observe_entries e parentScrollTop userScrollsDown (entry # entries) s =
    (if \<not> en_isIntersecting entry then
       let t = (fst s)\<lparr>ss_activeTarget := None\<rparr> in
       (case targetElement s entry of
          None \<Rightarrow> (Some (TypeError ''parent is undefined''), t, snd s)
        | Some n \<Rightarrow> observe_entries e parentScrollTop userScrollsDown entries (t, clearActiveClass n (snd s)))
     else
       let entryIsLowerThanPrevious =
         (se_offsetTop e (page (snd s)) (en_target entry) \<ge> ss_visibleEntryTop (fst s)) in
       if userScrollsDown \<and> entryIsLowerThanPrevious then
         (case spy_activate e entry s of
            (Some err, s') \<Rightarrow> (Some err, s')
          | (None, s') \<Rightarrow> if parentScrollTop = 0 then (None, s')
              else observe_entries e parentScrollTop userScrollsDown entries s')
       else if \<not> userScrollsDown \<and> \<not> entryIsLowerThanPrevious then
         (case spy_activate e entry s of
            (Some err, s') \<Rightarrow> (Some err, s')
          | (None, s') \<Rightarrow> observe_entries e parentScrollTop userScrollsDown entries s')
       else observe_entries e parentScrollTop userScrollsDown entries s)"

definition observerCallback ::
    "scroll_env \<Rightarrow> real \<Rightarrow> intersection list \<Rightarrow> 'cb scrollspy_state \<Rightarrow> js_error option \<times> 'cb scrollspy_state" where
  "observerCallback e parentScrollTop entries s =
    (let userScrollsDown = (parentScrollTop \<ge> ss_parentScrollTop (fst s)) in
     observe_entries e parentScrollTop userScrollsDown entries
       ((fst s)\<lparr>ss_parentScrollTop := parentScrollTop\<rparr>, snd s))"

section \<open>One active link\<close>

text \<open>Worlds that differ in who is active only.\<close>

definition same_but_active :: "'cb world \<Rightarrow> 'cb world \<Rightarrow> bool" where
  "same_but_active w v \<longleftrightarrow> same_tree w v \<and> (\<forall>n a. get_attr v n a = get_attr w n a) \<and>
    (\<forall>n c. c \<noteq> ''active'' \<longrightarrow> has_class v n c = has_class w n c) \<and> eventLog v = eventLog w \<and> env v = env w"

lemma same_but_active_refl [simp]: "same_but_active w w"
  by (simp add: same_but_active_def)

lemma same_but_active_trans: "same_but_active u v \<Longrightarrow> same_but_active v w \<Longrightarrow> same_but_active u w"
  by (auto simp: same_but_active_def intro: same_tree_trans)

lemma same_but_active_class:
  "same_but_active u (add_class ''active'' n w) = same_but_active u w"
  "same_but_active u (remove_class ''active'' n w) = same_but_active u w"
  by (auto simp: same_but_active_def)

lemma fold_remove_active: "same_but_active u (fold (remove_class ''active'') ns w) = same_but_active u w"
  "has_class (fold (remove_class ''active'') ns w) m ''active'' \<longleftrightarrow> m \<notin> set ns \<and> has_class w m ''active''"
  by (induction ns arbitrary: w) (auto simp: same_but_active_class)

lemma fold_add_active: "same_but_active u (fold (add_class ''active'') ns w) = same_but_active u w"
  "has_class (fold (add_class ''active'') ns w) m ''active'' \<longleftrightarrow> m \<in> set ns \<or> has_class w m ''active''"
  by (induction ns arbitrary: w) (auto simp: same_but_active_class)

lemma clearActiveClass_same: "same_but_active u (clearActiveClass n w) = same_but_active u w"
  by (simp add: clearActiveClass_def Let_def fold_remove_active same_but_active_class)

lemma clearActiveClass_active:
  "m = n \<or> m \<in> set (descendants w n) \<and> has_attr w m ''href'' \<Longrightarrow> \<not> has_class (clearActiveClass n w) m ''active''"
  by (auto simp: clearActiveClass_def Let_def fold_remove_active query_all_def has_attr_def)

lemma same_but_active_descendants: "same_but_active w v \<Longrightarrow> descendants v n = descendants w n"
  by (simp add: same_but_active_def same_tree_descendants)

lemma closest_same:
  assumes "same_tree w v"
  shows "closest P v n = closest P w n"
  by (simp add: closest_def same_tree_ancestors[OF assms])

lemma parents_loop_same:
  assumes "same_tree w v"
  shows "parents_loop k P v n = parents_loop k P w n"
  using assms by (induction k arbitrary: n)
    (auto simp: closest_same[OF assms] same_tree_def split: option.splits)

lemma link_parents_same:
  assumes s: "same_but_active w v"
  shows "link_parents v n = link_parents w n"
proof -
  have t: "same_tree w v" and c: "has_class v m x = has_class w m x" if "x \<noteq> ''active''" for m x
    using s that by (auto simp: same_but_active_def)
  have tree: "same_tree w v" using s by (simp add: same_but_active_def)
  have item: "is_link_item v = is_link_item w" by (rule ext) (simp add: is_link_item_def c)
  have prev: "prev_sibling P v m = prev_sibling P w m" for P m
    using tree by (simp add: prev_sibling_def siblings_def same_tree_def split: option.splits)
  have par: "parents P v m = parents P w m" for P m
    using tree parents_loop_same[OF tree] by (simp add: parents_def same_tree_def)
  show ?thesis
    by (simp add: link_parents_def c closest_same[OF tree] query_one_def same_tree_descendants[OF tree] item prev[abs_def] par
        cong: option.case_cong)
qed

lemma targetElement_same:
  assumes "same_but_active w v"
  shows "targetElement (t\<lparr>ss_activeTarget := x\<rparr>, v) en = targetElement (t, w) en"
    "targetElement (t\<lparr>ss_parentScrollTop := y\<rparr>, v) en = targetElement (t, w) en"
    "targetElement (t\<lparr>ss_visibleEntryTop := y\<rparr>, v) en = targetElement (t, w) en"
  using assms by (simp_all add: targetElement_def same_but_active_def)

lemma process_activates:
  assumes new: "ss_activeTarget t \<noteq> Some (Some n)" and items: "link_parents w n = Inr items"
  obtains v where "spy_process (Some n) (t, w) = (None, t\<lparr>ss_activeTarget := Some (Some n)\<rparr>,
      announce (ss_element t) ''activate.bs.scrollspy'' v)"
    and "same_but_active w v" and "has_class v n ''active''" and "\<forall>m \<in> set items. has_class v m ''active''"
    and "\<forall>m \<in> set (descendants w (ss_target t)). has_attr w m ''href'' \<and> has_class v m ''active'' \<longrightarrow> m = n \<or> m \<in> set items"
proof -
  define w1 where "w1 = add_class ''active'' n (clearActiveClass (ss_target t) w)"
  have s1: "same_but_active w w1" by (simp add: w1_def same_but_active_class clearActiveClass_same)
  define v where "v = fold (add_class ''active'') items w1"
  have "link_parents w1 n = Inr items" using link_parents_same[OF s1] items by simp
  then have "spy_process (Some n) (t, w) = (None, t\<lparr>ss_activeTarget := Some (Some n)\<rparr>,
      announce (ss_element t) ''activate.bs.scrollspy'' v)"
    using new by (simp add: spy_process_def Let_def w1_def[symmetric] activateParents_def v_def)
  moreover have "same_but_active w v" using s1 by (simp add: v_def fold_add_active)
  moreover have "has_class v n ''active''" "\<forall>m \<in> set items. has_class v m ''active''"
    by (simp_all add: v_def fold_add_active w1_def)
  moreover have "m = n \<or> m \<in> set items"
    if "m \<in> set (descendants w (ss_target t))" "has_attr w m ''href''" "has_class v m ''active''" for m
    using that clearActiveClass_active[of m "ss_target t" w] by (auto simp: v_def fold_add_active w1_def)
  ultimately show ?thesis by (intro that) auto
qed

text \<open>Entries that leave the view before the first one that is in it.\<close>

lemma leaving_entries:
  assumes "\<forall>en \<in> set pre. \<not> en_isIntersecting en \<and> targetElement (t, w) en \<noteq> None"
  shows "\<exists>v x. observe_entries e y down (pre @ rest) (t, w) = observe_entries e y down rest (t\<lparr>ss_activeTarget := x\<rparr>, v) \<and>
    same_but_active w v \<and> (pre \<noteq> [] \<longrightarrow> x = None) \<and> (pre = [] \<longrightarrow> x = ss_activeTarget t)"
  using assms
proof (induction pre arbitrary: t w)
  case (Cons en pre)
  obtain n where n: "targetElement (t, w) en = Some n" using Cons.prems by auto
  define v where "v = clearActiveClass n w"
  have s: "same_but_active w v" by (simp add: v_def clearActiveClass_same)
  have te: "targetElement (t\<lparr>ss_activeTarget := None\<rparr>, v) en' = targetElement (t, w) en'" for en'
    by (rule targetElement_same[OF s])
  have "observe_entries e y down ((en # pre) @ rest) (t, w) =
      observe_entries e y down (pre @ rest) (t\<lparr>ss_activeTarget := None\<rparr>, v)"
    using Cons.prems n by (simp add: v_def Let_def)
  moreover obtain u x where "observe_entries e y down (pre @ rest) (t\<lparr>ss_activeTarget := None\<rparr>, v) =
      observe_entries e y down rest ((t\<lparr>ss_activeTarget := None\<rparr>)\<lparr>ss_activeTarget := x\<rparr>, u)" "same_but_active v u"
      "pre \<noteq> [] \<longrightarrow> x = None" "pre = [] \<longrightarrow> x = None"
    using Cons.IH[of "t\<lparr>ss_activeTarget := None\<rparr>" v] Cons.prems te by auto
  ultimately show ?case using same_but_active_trans[OF s] by (intro exI[of _ u] exI[of _ x]) auto
next
  case Nil
  show ?case by (rule exI[of _ w], rule exI[of _ "ss_activeTarget t"]) simp
qed

text \<open>
  C34: on a page that is not scrolled the first section in view wins. Whatever sections left the view before it and
  whatever entries come after it, the observer's callback makes its link the active target and announces it; in the
  menu nothing but that link and the items that stand for its parents is marked active.\<close>

theorem scrollspy_first_visible:
  assumes out: "\<forall>x \<in> set pre. \<not> en_isIntersecting x \<and> targetElement (t, w) x \<noteq> None"
    and en: "en_isIntersecting en" "targetElement (t, w) en = Some n" "ss_activeTarget t \<noteq> Some (Some n)"
    and unscrolled: "ss_parentScrollTop t \<le> 0" "\<And>p. ss_visibleEntryTop t \<le> se_offsetTop e p (en_target en)"
    and items: "link_parents w n = Inr items"
  shows "\<exists>t' w'. observerCallback e 0 (pre @ en # post) (t, w) = (None, t', w') \<and> ss_activeTarget t' = Some (Some n) \<and>
    has_class w' n ''active'' \<and> (\<forall>m \<in> set items. has_class w' m ''active'') \<and>
    (\<forall>m \<in> set (descendants w (ss_target t)). has_attr w m ''href'' \<and> has_class w' m ''active'' \<longrightarrow> m = n \<or> m \<in> set items) \<and>
    eventLog w' = eventLog w @ [(ss_element t, ''activate.bs.scrollspy'')]"
proof -
  define t0 where "t0 = t\<lparr>ss_parentScrollTop := 0\<rparr>"
  have te: "targetElement (t0, w) x = targetElement (t, w) x" for x by (simp add: t0_def targetElement_def)
  obtain v x where leave: "observe_entries e 0 True (pre @ en # post) (t0, w) =
      observe_entries e 0 True (en # post) (t0\<lparr>ss_activeTarget := x\<rparr>, v)" "same_but_active w v"
      "pre \<noteq> [] \<longrightarrow> x = None" "pre = [] \<longrightarrow> x = ss_activeTarget t0"
    using leaving_entries[of pre t0 w e 0 True "en # post"] out by (auto simp: te)
  define t1 where "t1 = t0\<lparr>ss_activeTarget := x, ss_visibleEntryTop := se_offsetTop e (page v) (en_target en)\<rparr>"
  have new: "ss_activeTarget t1 \<noteq> Some (Some n)" using leave en(3) by (cases "pre = []") (auto simp: t1_def t0_def)
  have "link_parents v n = Inr items" using link_parents_same[OF leave(2)] items by simp
  then obtain u where u: "spy_process (Some n) (t1, v) = (None, t1\<lparr>ss_activeTarget := Some (Some n)\<rparr>,
      announce (ss_element t1) ''activate.bs.scrollspy'' u)" "same_but_active v u" "has_class u n ''active''"
      "\<forall>m \<in> set items. has_class u m ''active''"
      "\<forall>m \<in> set (descendants v (ss_target t1)). has_attr v m ''href'' \<and> has_class u m ''active'' \<longrightarrow> m = n \<or> m \<in> set items"
    using process_activates[OF new] by blast
  have "targetElement (t0\<lparr>ss_activeTarget := x\<rparr>, v) en = Some n"
    using targetElement_same(1)[OF leave(2)] en(2) te by simp
  then have "spy_activate e en (t0\<lparr>ss_activeTarget := x\<rparr>, v) = spy_process (Some n) (t1, v)"
    by (simp add: spy_activate_def t1_def)
  then have run: "observe_entries e 0 True (en # post) (t0\<lparr>ss_activeTarget := x\<rparr>, v) =
      (None, t1\<lparr>ss_activeTarget := Some (Some n)\<rparr>, announce (ss_element t1) ''activate.bs.scrollspy'' u)"
    using en(1) unscrolled(2) u(1) by (simp add: t0_def)
  have fields: "ss_target t1 = ss_target t" "ss_element t1 = ss_element t" by (simp_all add: t1_def t0_def ss_target_def)
  have same: "same_but_active w u" using same_but_active_trans[OF leave(2) u(2)] .
  have menu: "\<forall>m \<in> set (descendants w (ss_target t)). has_attr w m ''href'' \<and> has_class u m ''active'' \<longrightarrow> m = n \<or> m \<in> set items"
    using u(5) leave(2) by (simp add: fields same_but_active_descendants has_attr_def) (simp add: same_but_active_def)
  have "observerCallback e 0 (pre @ en # post) (t, w) =
      (None, t1\<lparr>ss_activeTarget := Some (Some n)\<rparr>, announce (ss_element t1) ''activate.bs.scrollspy'' u)"
    using leave(1) run unscrolled(1) by (simp add: observerCallback_def t0_def)
  then show ?thesis using u(3,4) menu same by (simp add: fields same_but_active_def)
qed

section \<open>Links the spy cannot follow\<close>

definition followable :: "scroll_env \<Rightarrow> 'cb world \<Rightarrow> node \<Rightarrow> bool" where
  "followable e w a \<longleftrightarrow> (case se_decodeURI e (se_hash e (page w) a) of Some d \<Rightarrow> se_validSelector e d | None \<Rightarrow> False)"

lemma collect_targets_stops:
  assumes "\<forall>x \<in> set pre. \<not> (\<not> followable e w x \<and> se_hash e (page w) x \<noteq> [] \<and> \<not> isDisabled w (Some x))"
    and "\<not> followable e w a" and "se_hash e (page w) a \<noteq> []" "\<not> isDisabled w (Some a)"
  shows "\<exists>err t'. collect_targets e w (pre @ a # post) t = (Some err, t')"
  using assms(1)
proof (induction pre arbitrary: t)
  case Nil
  show ?case using assms(2-4) by (auto simp: followable_def findOne_within_def Let_def split: option.splits)
next
  case (Cons x pre)
  then show ?case by (auto simp: followable_def findOne_within_def Let_def split: option.splits)
qed

text \<open>
  One link that is no selector stops every spy after it. A hash such as \<open>#1\<close> is the id of a section that a
  browser scrolls to, but no valid selector; the links are looked up without the escaping that the
  utilities have. If such a link, not disabled, is in the menu of a spy, its constructor throws, and the loop of the
  data API ends: neither it nor any spy that follows is set up.\<close>

theorem scrollspy_bad_link_stops_load:
  assumes cfg: "getConfig pj w ScrollSpy_Default ScrollSpy_DefaultType (ScrollSpy_configAfterMerge w) JUndef (Some spy) = Inr cfg"
      "lookup cfg ''target'' = JNode menu"
    and a: "a \<in> set (descendants w menu)" "has_attr w a ''href''" "\<not> isDisabled w (Some a)" "se_hash e (page w) a \<noteq> []"
      "\<not> followable e w a"
  shows "\<exists>err. ScrollSpy_load pj e (spy # spies) w = (Some err, [], w)"
proof -
  define links where "links = query_all (\<lambda>n. has_attr w n ''href'') w menu"
  have "\<exists>x \<in> set links. \<not> followable e w x \<and> se_hash e (page w) x \<noteq> [] \<and> \<not> isDisabled w (Some x)"
    using a by (auto simp: links_def query_all_def)
  then obtain pre b post where s: "links = pre @ b # post" "\<not> followable e w b" "se_hash e (page w) b \<noteq> []" "\<not> isDisabled w (Some b)"
      "\<forall>x \<in> set pre. \<not> (\<not> followable e w x \<and> se_hash e (page w) x \<noteq> [] \<and> \<not> isDisabled w (Some x))"
    using split_list_first_prop[of links "\<lambda>x. \<not> followable e w x \<and> se_hash e (page w) x \<noteq> [] \<and> \<not> isDisabled w (Some x)"] by blast
  let ?t = "\<lparr>ss_element = spy, ss_config = cfg, ss_targetLinks = [], ss_observableSections = [],
    ss_rootElement = (if computedStyle (env w) (page w) spy ''overflowY'' = ''visible'' then None else Some spy),
    ss_activeTarget = None, ss_observer = None, ss_visibleEntryTop = 0, ss_parentScrollTop = 0\<rparr>"
  have "ss_target ?t = menu" using cfg(2) by (simp add: ss_target_def)
  then have "initializeTargetsAndObservables e (?t, w) = collect_targets e w (pre @ b # post) ?t"
    by (simp add: initializeTargetsAndObservables_def links_def[symmetric] s(1))
  then obtain err t' where "initializeTargetsAndObservables e (?t, w) = (Some err, t')"
    using collect_targets_stops[OF s(5,2-4), of post ?t] by auto
  then have "ScrollSpy_new e spy cfg w = Inl err" by (simp add: ScrollSpy_new_def ScrollSpy_refresh_def)
  then show ?thesis using cfg(1) by simp
qed

text \<open>A menu with one link, a section and a spy around it.\<close>

definition spy_page :: page where
  "spy_page = (\<lambda>_. plain_node ''DIV'' None [])(document_body := plain_node ''BODY'' None [4, 5],
    4 := plain_node ''DIV'' (Some document_body) [6], 6 := (plain_node ''H2'' (Some 4) [])\<lparr>attrs := [(''id'', ''one'')]\<rparr>,
    5 := (plain_node ''A'' (Some document_body) [])\<lparr>attrs := [(''href'', ''#one'')]\<rparr>)"

definition spy_world :: "unit world" where
  "spy_world = blank_world spy_page 7"

definition spy_env :: "bool \<Rightarrow> scroll_env" where
  "spy_env ok = \<lparr>se_hash = \<lambda>_ _. ''#one'', se_decodeURI = Some, se_validSelector = \<lambda>_. ok, se_offsetTop = \<lambda>_ _. 10\<rparr>"

definition a_spy :: scrollspy where
  "a_spy = \<lparr>ss_element = 4, ss_config = [(''target'', JNode document_body)], ss_targetLinks = [(''#one'', 5)],
    ss_observableSections = [(''#one'', 6)], ss_rootElement = None, ss_activeTarget = None, ss_observer = Some [6],
    ss_visibleEntryTop = 0, ss_parentScrollTop = 0\<rparr>"

lemma spy_facts: "targetElement (a_spy, spy_world) \<lparr>en_target = 6, en_isIntersecting = True\<rparr> = Some 5"
  "link_parents spy_world 5 = Inr []" "ss_activeTarget a_spy \<noteq> Some (Some 5)" "ss_parentScrollTop a_spy \<le> 0"
  "ss_visibleEntryTop a_spy \<le> se_offsetTop (spy_env True) p m"
  by (simp_all add: targetElement_def a_spy_def spy_world_def spy_page_def blank_world_def plain_node_def get_attr_def
      link_parents_def has_class_def parents_def closest_def inclusive_ancestors_def document_body_def numeral_eq_Suc spy_env_def)

lemma scrollspy_first_visible_witness:
  "\<exists>t' w'. observerCallback (spy_env True) 0 [\<lparr>en_target = 6, en_isIntersecting = True\<rparr>] (a_spy, spy_world) = (None, t', w') \<and>
    has_class w' 5 ''active''"
  using scrollspy_first_visible [of "[]" a_spy spy_world "\<lparr>en_target = 6, en_isIntersecting = True\<rparr>" 5 "spy_env True" "[]" "[]"]
    spy_facts by auto

lemma spy_config:
  "getConfig (\<lambda>_. None) spy_world ScrollSpy_Default ScrollSpy_DefaultType (ScrollSpy_configAfterMerge spy_world) JUndef (Some 4) =
    Inr (ScrollSpy_configAfterMerge spy_world ScrollSpy_Default)"
  "lookup (ScrollSpy_configAfterMerge spy_world ScrollSpy_Default) ''target'' = JNode document_body"
  by (simp_all add: getConfig_def mergeConfigObj_def getDataAttribute_def getDataAttributes_def dataset_def spy_world_def spy_page_def
      blank_world_def plain_node_def get_attr_def attr_value_def normalizeData_def spread_def spread_value_def
      ScrollSpy_configAfterMerge_def ScrollSpy_Default_def ScrollSpy_DefaultType_def lookup_def getElement_def truthy_def
      type_alternatives_def valueType_def isElement_def toType_def document_body_def Let_def)

lemma scrollspy_bad_link_stops_load_witness:
  "\<exists>err. ScrollSpy_load (\<lambda>_. None) (spy_env False) [4, 6] spy_world = (Some err, [], spy_world)"
proof -
  have "descendants spy_world document_body = [4, 6, 5]"
    by (simp add: descendants_def spy_world_def spy_page_def blank_world_def plain_node_def document_body_def numeral_eq_Suc)
  moreover have "has_attr spy_world 5 ''href''" "\<not> isDisabled spy_world (Some 5)"
    by (simp_all add: has_attr_def get_attr_def isDisabled_def has_class_def spy_world_def spy_page_def blank_world_def plain_node_def
        document_body_def document_node_def window_node_def has_disabled_property_def)
  moreover have "se_hash (spy_env False) (page spy_world) 5 \<noteq> []" "\<not> followable (spy_env False) spy_world 5"
    by (simp_all add: spy_env_def followable_def)
  ultimately show ?thesis by (intro scrollspy_bad_link_stops_load [OF spy_config]) auto
qed

end
