(* ===== verification/BsDropdown.thy ===== *)
theory BsDropdown
  imports BsScrollSpy
begin

text \<open>
  The dropdown plugin of Bootstrap: the instances of a page by their toggles, the positioning engine
  of each (an instance with its reference, its menu and its options, destroyed or not), the listeners
  of the document for keys and for clicks outside. An operation that can throw gives the error, or
  none, and the state it leaves.
\<close>

section \<open>Options and state\<close>

definition Dropdown_Default :: object where
  "Dropdown_Default = [(''autoClose'', JBool True), (''boundary'', JStr ''clippingParents''), (''display'', JStr ''dynamic''),
    (''offset'', JArr [JNum 0, JNum 2]), (''popperConfig'', JNull), (''reference'', JStr ''toggle'')]"

definition Dropdown_DefaultType :: "(string \<times> string) list" where
  "Dropdown_DefaultType = [(''autoClose'', ''(boolean|string)''), (''boundary'', ''(string|element)''), (''display'', ''string''),
    (''offset'', ''(array|string|function)''), (''popperConfig'', ''(null|object|function)''),
    (''reference'', ''(string|element|object)'')]"

record popper_instance =
  pi_reference :: jsval
  pi_popper :: node
  pi_config :: object
  pi_destroyed :: bool

record dropdown =
  dd_config :: object
  dd_parent :: node
  dd_menu :: "node option"
  dd_inNavbar :: bool
  dd_popper :: "popper_instance option"

type_synonym 'cb dd_state = "(node \<Rightarrow> dropdown option) \<times> 'cb world"

definition set_dd :: "node \<Rightarrow> dropdown \<Rightarrow> 'cb dd_state \<Rightarrow> 'cb dd_state" where
  "set_dd n d s = ((fst s)(n \<mapsto> d), snd s)"

definition is_dd_toggle :: "'cb world \<Rightarrow> node \<Rightarrow> bool" where
  "is_dd_toggle w n \<longleftrightarrow> get_attr w n ''data-bs-toggle'' = Some ''dropdown'' \<and> \<not> has_class w n ''disabled'' \<and>
    \<not> (has_disabled_property (tagName (page w n)) \<and> has_attr w n ''disabled'')"

definition is_dd_toggle_shown :: "'cb world \<Rightarrow> node \<Rightarrow> bool" where
  "is_dd_toggle_shown w n \<longleftrightarrow> is_dd_toggle w n \<and> has_class w n ''show''"

definition is_menu :: "'cb world \<Rightarrow> node \<Rightarrow> bool" where
  "is_menu w n \<longleftrightarrow> has_class w n ''dropdown-menu''"

definition is_menu_item :: "'cb world \<Rightarrow> node \<Rightarrow> bool" where
  "is_menu_item w n \<longleftrightarrow> has_class w n ''dropdown-item'' \<and> \<not> has_class w n ''disabled'' \<and>
    \<not> (has_disabled_property (tagName (page w n)) \<and> has_attr w n ''disabled'') \<and>
    list_ex (is_menu w) (drop 1 (inclusive_ancestors w n))"

section \<open>Instances\<close>

fun first_of :: "'a list \<Rightarrow> 'a option \<Rightarrow> 'a option" where
  "first_of [] y = y"
| "first_of (x # xs) y = Some x"

definition detectNavbar :: "'cb world \<Rightarrow> node \<Rightarrow> bool" where
  "detectNavbar w n \<longleftrightarrow> closest (\<lambda>m. has_class w m ''navbar'') w n \<noteq> None"

definition Dropdown_getConfig ::
    "(string \<Rightarrow> jsval option) \<Rightarrow> 'cb world \<Rightarrow> jsval \<Rightarrow> node \<Rightarrow> js_error + object" where
  "Dropdown_getConfig parseJson w config element =
    (case getConfig parseJson w Dropdown_Default Dropdown_DefaultType (\<lambda>c. c) config (Some element) of
       Inl e \<Rightarrow> Inl e
     | Inr cfg \<Rightarrow>
         let r = lookup cfg ''reference'' in
         if (case r of JObj ps \<Rightarrow> (case lookup ps ''getBoundingClientRect'' of JFun f \<Rightarrow> False | _ \<Rightarrow> True)
             | JArr xs \<Rightarrow> True | JNull \<Rightarrow> True | _ \<Rightarrow> False)
         then Inl (TypeError ''reference'') else Inr cfg)"

definition Dropdown_menu :: "'cb world \<Rightarrow> node \<Rightarrow> node \<Rightarrow> node option" where
  "Dropdown_menu w element parent =
    first_of (next_sibling (is_menu w) w element)
      (first_of (prev_sibling (is_menu w) w element) (query_one (is_menu w) w parent))"

definition Dropdown_new ::
    "(string \<Rightarrow> jsval option) \<Rightarrow> node \<Rightarrow> jsval \<Rightarrow> 'cb dd_state \<Rightarrow> js_error option \<times> 'cb dd_state" where
  "Dropdown_new parseJson element config s = (case Dropdown_getConfig parseJson (snd s) config element of
      Inl e \<Rightarrow> (Some e, s)
    | Inr cfg \<Rightarrow> (case parentNode (page (snd s) element) of
        None \<Rightarrow> (Some (TypeError ''parent is null''), s)
      | Some parent \<Rightarrow> (None, set_dd element \<lparr>dd_config = cfg, dd_parent = parent,
          dd_menu = Dropdown_menu (snd s) element parent, dd_inNavbar = detectNavbar (snd s) element, dd_popper = None\<rparr> s)))"

definition Dropdown_getOrCreate ::
    "(string \<Rightarrow> jsval option) \<Rightarrow> node \<Rightarrow> 'cb dd_state \<Rightarrow> js_error option \<times> 'cb dd_state" where
  "Dropdown_getOrCreate parseJson n s =
    (case fst s n of Some d \<Rightarrow> (None, s) | None \<Rightarrow> Dropdown_new parseJson n (JObj []) s)"

section \<open>Positioning\<close>

definition PLACEMENT :: "'cb world \<Rightarrow> string \<Rightarrow> string" where
  "PLACEMENT w p = (let rtl = isRTL w in
    if p = ''TOP'' then (if rtl then ''top-end'' else ''top-start'')
    else if p = ''TOPEND'' then (if rtl then ''top-start'' else ''top-end'')
    else if p = ''BOTTOM'' then (if rtl then ''bottom-end'' else ''bottom-start'')
    else if p = ''BOTTOMEND'' then (if rtl then ''bottom-start'' else ''bottom-end'')
    else if p = ''RIGHT'' then (if rtl then ''left-start'' else ''right-start'')
    else if p = ''LEFT'' then (if rtl then ''right-start'' else ''left-start'')
    else if p = ''TOPCENTER'' then ''top'' else ''bottom'')"

definition Dropdown_getPlacement :: "'cb world \<Rightarrow> node \<Rightarrow> node \<Rightarrow> string" where
  "Dropdown_getPlacement w parent menu =
    (if has_class w parent ''dropend'' then PLACEMENT w ''RIGHT''
     else if has_class w parent ''dropstart'' then PLACEMENT w ''LEFT''
     else if has_class w parent ''dropup-center'' then PLACEMENT w ''TOPCENTER''
     else if has_class w parent ''dropdown-center'' then PLACEMENT w ''BOTTOMCENTER''
     else let isEnd = (Trim (computedStyle (env w) (page w) menu ''--bs-position'') = ''end'') in
       if has_class w parent ''dropup'' then (if isEnd then PLACEMENT w ''TOPEND'' else PLACEMENT w ''TOP'')
       else (if isEnd then PLACEMENT w ''BOTTOMEND'' else PLACEMENT w ''BOTTOM''))"

definition Dropdown_getOffset :: "object \<Rightarrow> jsval" where
  "Dropdown_getOffset cfg = (case lookup cfg ''offset'' of
      JStr s \<Rightarrow> JArr (map parseInt10 (splitOn (CHR '','') s)) | v \<Rightarrow> v)"

definition Dropdown_getPopperConfig ::
    "(string \<Rightarrow> jsval) \<Rightarrow> dropdown \<Rightarrow> node \<Rightarrow> 'cb world \<Rightarrow> object \<times> 'cb world" where
  "Dropdown_getPopperConfig call d menu w =
    (let static = (dd_inNavbar d \<or> lookup (dd_config d) ''display'' = JStr ''static'');
         modifiers = (if static then [JObj [(''name'', JStr ''applyStyles''), (''enabled'', JBool False)]]
           else [JObj [(''name'', JStr ''preventOverflow''), (''options'', JObj [(''boundary'', lookup (dd_config d) ''boundary'')])],
                 JObj [(''name'', JStr ''offset''), (''options'', JObj [(''offset'', Dropdown_getOffset (dd_config d))])]]);
         w' = (if static then setDataAttribute menu ''popper'' ''static'' w else w);
         extra = (case lookup (dd_config d) ''popperConfig'' of JFun f \<Rightarrow> call f | v \<Rightarrow> v) in
     (spread [(''placement'', JStr (Dropdown_getPlacement w (dd_parent d) menu)), (''modifiers'', JArr modifiers)]
        (spread_value extra), w'))"

definition Dropdown_createPopper ::
    "(string \<Rightarrow> jsval) \<Rightarrow> node \<Rightarrow> node \<Rightarrow> dropdown \<Rightarrow> 'cb world \<Rightarrow> dropdown \<times> 'cb world" where
  "Dropdown_createPopper call element menu d w =
    (let ref = lookup (dd_config d) ''reference'';
         referenceElement = (if ref = JStr ''parent'' then JNode (dd_parent d)
           else if isElement ref then jsval_of_element (getElement w ref)
           else (case ref of JObj ps \<Rightarrow> ref | _ \<Rightarrow> JNode element));
         (config, w') = Dropdown_getPopperConfig call d menu w in
     (d\<lparr>dd_popper := Some \<lparr>pi_reference = referenceElement, pi_popper = menu, pi_config = config, pi_destroyed = False\<rparr>\<rparr>, w'))"

definition destroy_popper :: "dropdown \<Rightarrow> dropdown" where
  "destroy_popper d = d\<lparr>dd_popper := map_option (\<lambda>p. p\<lparr>pi_destroyed := True\<rparr>) (dd_popper d)\<rparr>"

section \<open>Show and hide\<close>

text \<open>What an operation on an instance does: nothing without one, an error without a menu.\<close>

definition with_menu ::
    "node \<Rightarrow> (dropdown \<Rightarrow> node \<Rightarrow> 'cb dd_state \<Rightarrow> js_error option \<times> 'cb dd_state) \<Rightarrow> 'cb dd_state
      \<Rightarrow> js_error option \<times> 'cb dd_state" where
  "with_menu n f s = (case fst s n of
      None \<Rightarrow> (None, s)
    | Some d \<Rightarrow> (case dd_menu d of None \<Rightarrow> (Some (TypeError ''menu is null''), s) | Some menu \<Rightarrow> f d menu s))"

definition completeHide :: "node \<Rightarrow> dropdown \<Rightarrow> node \<Rightarrow> 'cb dd_state \<Rightarrow> js_error option \<times> 'cb dd_state" where
  "completeHide n d menu s =
    (let (prevented, w) = trigger n ''hide.bs.dropdown'' (snd s) in
     if prevented then (None, fst s, w)
     else let w1 = remove_class ''show'' n (remove_class ''show'' menu (mouseover_off w));
              w2 = removeDataAttribute menu ''popper'' (set_attr ''aria-expanded'' ''false'' n w1) in
       (None, set_dd n (destroy_popper d) (fst s, announce n ''hidden.bs.dropdown'' w2)))"

definition Dropdown_show :: "(string \<Rightarrow> jsval) \<Rightarrow> node \<Rightarrow> 'cb dd_state \<Rightarrow> js_error option \<times> 'cb dd_state" where
  "Dropdown_show call n s =
    (if isDisabled (snd s) (Some n) then (None, s)
     else with_menu n (\<lambda>d menu s.
       if has_class (snd s) menu ''show'' then (None, s)
       else let (prevented, w) = trigger n ''show.bs.dropdown'' (snd s) in
         if prevented then (None, fst s, w)
         else let (d1, w1) = Dropdown_createPopper call n menu d w;
                  w2 = (if closest (\<lambda>m. has_class w1 m ''navbar-nav'') w1 (dd_parent d) = None then mouseover_on w1 else w1);
                  w3 = add_class ''show'' n (add_class ''show'' menu (set_attr ''aria-expanded'' ''true'' n (focus_on n w2))) in
           (None, set_dd n d1 (fst s, announce n ''shown.bs.dropdown'' w3))) s)"

definition Dropdown_hide :: "node \<Rightarrow> 'cb dd_state \<Rightarrow> js_error option \<times> 'cb dd_state" where
  "Dropdown_hide n s =
    (if isDisabled (snd s) (Some n) then (None, s)
     else with_menu n (\<lambda>d menu s. if has_class (snd s) menu ''show'' then completeHide n d menu s else (None, s)) s)"

definition Dropdown_toggle :: "(string \<Rightarrow> jsval) \<Rightarrow> node \<Rightarrow> 'cb dd_state \<Rightarrow> js_error option \<times> 'cb dd_state" where
  "Dropdown_toggle call n s =
    with_menu n (\<lambda>d menu s. if has_class (snd s) menu ''show'' then Dropdown_hide n s else Dropdown_show call n s) s"

definition Dropdown_dispose :: "node \<Rightarrow> 'cb dd_state \<Rightarrow> 'cb dd_state" where
  "Dropdown_dispose n s = (case fst s n of None \<Rightarrow> s
    | Some d \<Rightarrow> ((fst s)(n := None), unlisten_ns n (EVENT_KEY ''dropdown'') (snd s)))"

definition Dropdown_update :: "node \<Rightarrow> 'cb dd_state \<Rightarrow> 'cb dd_state" where
  "Dropdown_update n s = (case fst s n of None \<Rightarrow> s
    | Some d \<Rightarrow> set_dd n (d\<lparr>dd_inNavbar := detectNavbar (snd s) n\<rparr>) s)"

section \<open>Keys and clicks\<close>

definition selectMenuItem :: "string \<Rightarrow> node \<Rightarrow> node \<Rightarrow> 'cb world \<Rightarrow> 'cb world" where
  "selectMenuItem key target menu w =
    (let items = filter (\<lambda>i. isVisible w (Some i)) (query_all (is_menu_item w) w menu) in
     if items = [] then w
     else (case getNextActiveElement items (Some target) (key = ''ArrowDown'') (target \<notin> set items) of
         Some i \<Rightarrow> focus_on i w | None \<Rightarrow> w))"

record dd_event =
  de_type :: string
  de_button :: nat
  de_key :: string
  de_path :: "node list"
  de_target :: node

definition names_input :: "string list \<Rightarrow> string \<Rightarrow> bool" where
  "names_input names tag \<longleftrightarrow> list_ex (includes_str (toLowerCase tag)) names"

text \<open>Whether \<open>clearMenus\<close> leaves an instance alone.\<close>

definition keeps_open :: "dd_event \<Rightarrow> node \<Rightarrow> dropdown \<Rightarrow> node \<Rightarrow> 'cb world \<Rightarrow> bool" where
  "keeps_open ev n d menu w =
    (let autoClose = lookup (dd_config d) ''autoClose''; isMenuTarget = (menu \<in> set (de_path ev)) in
     n \<in> set (de_path ev) \<or> autoClose = JStr ''inside'' \<and> \<not> isMenuTarget \<or> autoClose = JStr ''outside'' \<and> isMenuTarget \<or>
     node_contains w menu (de_target ev) \<and>
       (de_type ev = ''keyup'' \<and> de_key ev = ''Tab'' \<or>
        names_input [''input'', ''select'', ''option'', ''textarea'', ''form''] (tagName (page w (de_target ev)))))"

fun clear_toggles :: "dd_event \<Rightarrow> node list \<Rightarrow> 'cb dd_state \<Rightarrow> js_error option \<times> 'cb dd_state" where
  "clear_toggles ev [] s = (None, s)"
| "clear_toggles ev (toggle # toggles) s =
    (case (case fst s toggle of
        None \<Rightarrow> (None, s)
      | Some d \<Rightarrow> if lookup (dd_config d) ''autoClose'' = JBool False then (None, s)
          else with_menu toggle (\<lambda>d menu s.
            if keeps_open ev toggle d menu (snd s) then (None, s) else completeHide toggle d menu s) s) of
       (Some e, s') \<Rightarrow> (Some e, s')
     | (None, s') \<Rightarrow> clear_toggles ev toggles s')"

definition clearMenus :: "dd_event \<Rightarrow> 'cb dd_state \<Rightarrow> js_error option \<times> 'cb dd_state" where
  "clearMenus ev s =
    (if de_button ev = 2 \<or> de_type ev = ''keyup'' \<and> de_key ev \<noteq> ''Tab'' then (None, s)
     else clear_toggles ev (query_all (is_dd_toggle_shown (snd s)) (snd s) documentElement) s)"

definition getToggleButton :: "'cb world \<Rightarrow> node \<Rightarrow> node option" where
  "getToggleButton w this = (if is_dd_toggle w this then Some this
    else first_of (prev_sibling (is_dd_toggle w) w this) (first_of (next_sibling (is_dd_toggle w) w this)
      (case parentNode (page w this) of Some p \<Rightarrow> query_one (is_dd_toggle w) w p | None \<Rightarrow> None)))"

definition dataApiKeydownHandler ::
    "(string \<Rightarrow> jsval option) \<Rightarrow> (string \<Rightarrow> jsval) \<Rightarrow> node \<Rightarrow> dd_event \<Rightarrow> 'cb dd_state
      \<Rightarrow> js_error option \<times> 'cb dd_state" where
  "dataApiKeydownHandler parseJson call this ev s =
    (let isInput = names_input [''input'', ''textarea''] (tagName (page (snd s) (de_target ev)));
         isEscapeEvent = (de_key ev = ''Escape'');
         isUpOrDownEvent = (de_key ev \<in> {''ArrowUp'', ''ArrowDown''}) in
     if \<not> isUpOrDownEvent \<and> \<not> isEscapeEvent then (None, s)
     else if isInput \<and> \<not> isEscapeEvent then (None, s)
     else (case getToggleButton (snd s) this of
         None \<Rightarrow> (Some (TypeError ''element is undefined''), s)
       | Some button \<Rightarrow> (case Dropdown_getOrCreate parseJson button s of
           (Some e, s1) \<Rightarrow> (Some e, s1)
         | (None, s1) \<Rightarrow>
             if isUpOrDownEvent then
               (case Dropdown_show call button s1 of
                  (Some e, s2) \<Rightarrow> (Some e, s2)
                | (None, s2) \<Rightarrow> with_menu button (\<lambda>d menu s.
                    (None, fst s, selectMenuItem (de_key ev) (de_target ev) menu (snd s))) s2)
             else with_menu button (\<lambda>d menu s.
                if has_class (snd s) menu ''show'' then
                  (case Dropdown_hide button s of (e, s2) \<Rightarrow> (e, fst s2, focus_on button (snd s2)))
                else (None, s)) s1)))"

definition Dropdown_data_api_click ::
    "(string \<Rightarrow> jsval option) \<Rightarrow> (string \<Rightarrow> jsval) \<Rightarrow> node \<Rightarrow> 'cb dd_state \<Rightarrow> js_error option \<times> 'cb dd_state" where
  "Dropdown_data_api_click parseJson call this s = (case Dropdown_getOrCreate parseJson this s of
      (Some e, s1) \<Rightarrow> (Some e, s1) | (None, s1) \<Rightarrow> Dropdown_toggle call this s1)"

section \<open>Menu, toggle and positioning engine agree\<close>

definition engine_alive :: "dropdown \<Rightarrow> bool" where
  "engine_alive d \<longleftrightarrow> (case dd_popper d of Some p \<Rightarrow> \<not> pi_destroyed p | None \<Rightarrow> False)"

definition dd_agrees :: "'cb world \<Rightarrow> node \<Rightarrow> dropdown \<Rightarrow> node \<Rightarrow> bool" where
  "dd_agrees w n d menu \<longleftrightarrow> has_class w menu ''show'' = engine_alive d \<and> has_class w n ''show'' = engine_alive d \<and>
    (dd_popper d \<noteq> None \<longrightarrow> get_attr w n ''aria-expanded'' = Some (boolStr (engine_alive d)))"

text \<open>Every toggle has a menu of its own, and no menu is a toggle.\<close>

definition dd_apart :: "(node \<Rightarrow> dropdown option) \<Rightarrow> bool" where
  "dd_apart f \<longleftrightarrow> (\<forall>n d m. f n = Some d \<and> dd_menu d = Some m \<longrightarrow> f m = None \<and>
    (\<forall>k e. f k = Some e \<and> dd_menu e = Some m \<longrightarrow> k = n))"

definition dd_inv :: "'cb dd_state \<Rightarrow> bool" where
  "dd_inv s \<longleftrightarrow> dd_apart (fst s) \<and> (\<forall>n d m. fst s n = Some d \<and> dd_menu d = Some m \<longrightarrow> dd_agrees (snd s) n d m)"

lemma data_popper_not_aria: "data_bs ''popper'' \<noteq> ''aria-expanded''"
  by (simp add: data_bs_def)

lemma popperConfig_world:
  "has_class (snd (Dropdown_getPopperConfig call d menu w)) m c = has_class w m c"
  "get_attr (snd (Dropdown_getPopperConfig call d menu w)) m ''aria-expanded'' = get_attr w m ''aria-expanded''"
  "eventLog (snd (Dropdown_getPopperConfig call d menu w)) = eventLog w"
  "env (snd (Dropdown_getPopperConfig call d menu w)) = env w"
  using data_popper_not_aria by (auto simp: Dropdown_getPopperConfig_def setDataAttribute_def Let_def)

lemma createPopper_facts:
  assumes "Dropdown_createPopper call n menu d w = (d', w')"
  shows "dd_menu d' = dd_menu d" "dd_config d' = dd_config d" "engine_alive d'" "dd_popper d' \<noteq> None" "has_class w' m c = has_class w m c"
    "get_attr w' m ''aria-expanded'' = get_attr w m ''aria-expanded''" "eventLog w' = eventLog w" "env w' = env w"
  using assms popperConfig_world[of call d menu w]
  by (auto simp: Dropdown_createPopper_def engine_alive_def Let_def split: prod.splits)

lemma destroy_facts [simp]: "dd_menu (destroy_popper d) = dd_menu d" "\<not> engine_alive (destroy_popper d)"
  "dd_popper (destroy_popper d) = None \<longleftrightarrow> dd_popper d = None"
  by (auto simp: destroy_popper_def engine_alive_def split: option.splits)

lemma dd_apart_set:
  assumes a: "dd_apart f" and d: "f n = Some d" "dd_menu d' = dd_menu d"
  shows "dd_apart (f(n \<mapsto> d'))"
proof -
  have "dd_menu d \<noteq> Some n" using a d(1) unfolding dd_apart_def by (metis option.distinct(1))
  then show ?thesis using a d unfolding dd_apart_def by (auto split: if_splits)
qed

text \<open>A step on one instance that leaves the others' toggles and menus alone.\<close>

lemma dd_inv_set:
  assumes i: "dd_inv s" and d: "fst s n = Some d" "dd_menu d = Some menu" and d': "dd_menu d' = Some menu"
    and here: "dd_agrees w n d' menu"
    and others: "\<And>k. k \<noteq> n \<Longrightarrow> k \<noteq> menu \<Longrightarrow> has_class w k ''show'' = has_class (snd s) k ''show'' \<and>
      get_attr w k ''aria-expanded'' = get_attr (snd s) k ''aria-expanded''"
  shows "dd_inv (set_dd n d' (fst s, w))"
proof -
  have a: "dd_apart (fst s)" using i by (simp add: dd_inv_def)
  have "dd_agrees w k e m" if "((fst s)(n \<mapsto> d')) k = Some e" "dd_menu e = Some m" for k e m
  proof (cases "k = n")
    case True
    then show ?thesis using that here d' by simp
  next
    case False
    then have k: "fst s k = Some e" using that by simp
    have "k \<noteq> menu" "m \<noteq> n" "m \<noteq> menu" using a k that(2) d False unfolding dd_apart_def by auto
    moreover have "dd_agrees (snd s) k e m" using i k that(2) by (simp add: dd_inv_def)
    ultimately show ?thesis using others[of k] others[of m] False by (simp add: dd_agrees_def)
  qed
  then show ?thesis using dd_apart_set[OF a d(1), of d'] d d' by (simp add: dd_inv_def set_dd_def)
qed

lemma dd_inv_world:
  assumes "dd_inv s" and "\<And>k. has_class v k ''show'' = has_class (snd s) k ''show''"
    and "\<And>k. get_attr v k ''aria-expanded'' = get_attr (snd s) k ''aria-expanded''"
  shows "dd_inv (fst s, v)"
  using assms by (simp add: dd_inv_def dd_agrees_def)

lemma dd_inv_focus: "dd_inv (f, w) \<Longrightarrow> dd_inv (f, focus_on k w)"
  using dd_inv_world[of "(f, w)" "focus_on k w"] by simp

lemma with_menu_inv:
  assumes "dd_inv s" and "\<And>d menu. fst s n = Some d \<Longrightarrow> dd_menu d = Some menu \<Longrightarrow> dd_inv (snd (f d menu s))"
  shows "dd_inv (snd (with_menu n f s))"
  using assms by (auto simp: with_menu_def split: option.splits)

lemma completeHide_inv:
  assumes i: "dd_inv s" and d: "fst s n = Some d" "dd_menu d = Some menu"
  shows "dd_inv (snd (completeHide n d menu s))"
proof (cases "prevents (env (snd s)) (eventLog (snd s)) (n, ''hide.bs.dropdown'')")
  case True
  then show ?thesis by (auto simp: completeHide_def trigger_eq intro!: dd_inv_world[OF i])
next
  case False
  show ?thesis using False data_popper_not_aria
    by (auto simp: completeHide_def trigger_eq Let_def removeDataAttribute_def dd_agrees_def boolStr_def d
        intro!: dd_inv_set[OF i d])
qed

lemma Dropdown_hide_inv: "dd_inv s \<Longrightarrow> dd_inv (snd (Dropdown_hide n s))"
  by (auto simp: Dropdown_hide_def intro!: with_menu_inv completeHide_inv)

lemma Dropdown_show_inv:
  assumes i: "dd_inv s"
  shows "dd_inv (snd (Dropdown_show call n s))"
proof (cases "isDisabled (snd s) (Some n)")
  case False
  show ?thesis unfolding Dropdown_show_def using False
  proof (simp, intro with_menu_inv[OF i])
    fix d menu assume d: "fst s n = Some d" "dd_menu d = Some menu"
    obtain d1 w1 where c: "Dropdown_createPopper call n menu d (announce n ''show.bs.dropdown'' (snd s)) = (d1, w1)" by fastforce
    note facts = createPopper_facts[OF c]
    show "dd_inv (snd (if has_class (snd s) menu ''show'' then (None, s)
       else let (prevented, w) = trigger n ''show.bs.dropdown'' (snd s) in
         if prevented then (None, fst s, w)
         else let (d1, w1) = Dropdown_createPopper call n menu d w;
                  w2 = (if closest (\<lambda>m. has_class w1 m ''navbar-nav'') w1 (dd_parent d) = None then mouseover_on w1 else w1);
                  w3 = add_class ''show'' n (add_class ''show'' menu (set_attr ''aria-expanded'' ''true'' n (focus_on n w2))) in
           (None, set_dd n d1 (fst s, announce n ''shown.bs.dropdown'' w3))))"
      using i facts d c
      by (auto simp: trigger_eq Let_def dd_agrees_def boolStr_def intro!: dd_inv_set[OF i d] dd_inv_world[OF i])
  qed
qed (simp add: Dropdown_show_def i)

lemma Dropdown_toggle_inv: "dd_inv s \<Longrightarrow> dd_inv (snd (Dropdown_toggle call n s))"
  by (auto simp: Dropdown_toggle_def intro!: with_menu_inv Dropdown_hide_inv Dropdown_show_inv)

lemma Dropdown_update_inv:
  assumes "dd_inv s"
  shows "dd_inv (Dropdown_update n s)"
proof (cases "fst s n")
  case (Some d)
  have agrees: "dd_agrees w k (d\<lparr>dd_inNavbar := b\<rparr>) m = dd_agrees w k d m" for w :: "'a world" and k m b
    by (simp add: dd_agrees_def engine_alive_def)
  show ?thesis using assms dd_apart_set[of "fst s" n d "d\<lparr>dd_inNavbar := detectNavbar (snd s) n\<rparr>"] Some
    by (auto simp: Dropdown_update_def dd_inv_def set_dd_def agrees)
qed (simp add: Dropdown_update_def assms)

lemma Dropdown_dispose_inv: "dd_inv s \<Longrightarrow> dd_inv (Dropdown_dispose n s)"
  by (auto simp: Dropdown_dispose_def dd_inv_def dd_apart_def dd_agrees_def split: option.splits if_splits)

lemma clear_toggles_inv: "dd_inv s \<Longrightarrow> dd_inv (snd (clear_toggles ev ts s))"
proof (induction ts arbitrary: s)
  case (Cons n ts)
  define r where "r = (case fst s n of None \<Rightarrow> (None, s)
      | Some d \<Rightarrow> if lookup (dd_config d) ''autoClose'' = JBool False then (None, s)
          else with_menu n (\<lambda>d menu s. if keeps_open ev n d menu (snd s) then (None, s) else completeHide n d menu s) s)"
  have "dd_inv (snd r)" using Cons.prems
    by (auto simp: r_def intro!: with_menu_inv completeHide_inv split: option.splits)
  then show ?case using Cons.IH[of "snd r"] by (cases r) (auto simp: r_def[symmetric] split: option.splits)
qed simp

lemma selectMenuItem_frame:
  "has_class (selectMenuItem key t menu w) m c = has_class w m c"
  "get_attr (selectMenuItem key t menu w) m a = get_attr w m a"
  "eventLog (selectMenuItem key t menu w) = eventLog w"
  by (simp_all add: selectMenuItem_def Let_def split: option.splits)

lemma keydown_inv:
  assumes i: "dd_inv s" and b: "\<And>b. getToggleButton (snd s) this = Some b \<Longrightarrow> fst s b \<noteq> None"
  shows "dd_inv (snd (dataApiKeydownHandler pj call this ev s))"
proof (cases "getToggleButton (snd s) this")
  case (Some button)
  then obtain d where d: "fst s button = Some d" using b by blast
  have up: "dd_inv (snd (with_menu button (\<lambda>d menu s. (None, fst s, selectMenuItem (de_key ev) (de_target ev) menu (snd s))) s'))"
    if "dd_inv s'" for s' :: "'a dd_state"
    using that by (intro with_menu_inv) (auto simp: selectMenuItem_frame intro!: dd_inv_world[OF that])
  have esc: "dd_inv (snd (with_menu button (\<lambda>d menu s. if has_class (snd s) menu ''show'' then
      (case Dropdown_hide button s of (e, s2) \<Rightarrow> (e, fst s2, focus_on button (snd s2))) else (None, s)) s))"
    using i Dropdown_hide_inv[OF i, of button]
    by (intro with_menu_inv) (auto split: prod.splits intro!: dd_inv_focus)
  obtain e s2 where sh: "Dropdown_show call button s = (e, s2)" by (cases "Dropdown_show call button s")
  then have s2: "dd_inv s2" using Dropdown_show_inv[OF i, of call button] by simp
  from up[OF s2] show ?thesis using i s2 esc Some d sh
    by (auto simp: dataApiKeydownHandler_def Dropdown_getOrCreate_def Let_def split: option.splits)
qed (auto simp: dataApiKeydownHandler_def Let_def i)

text \<open>
  What can happen to the dropdowns of a page. A toggle gets its instance at its first click or key; the step
  \<open>creates\<close> asks that its menu is closed at that moment and that no other toggle has it, so a toggle
  disposed of while its menu is open is not taken up again. A first click or key is this step and
  then the one of a toggle with an instance.\<close>

inductive dd_step :: "(string \<Rightarrow> jsval option) \<Rightarrow> (string \<Rightarrow> jsval) \<Rightarrow> 'cb dd_state \<Rightarrow> 'cb dd_state \<Rightarrow> bool" for pj call where
  creates: "fst s n = None \<Longrightarrow> Dropdown_new pj n cfg s = (e, s') \<Longrightarrow> dd_apart (fst s') \<Longrightarrow>
    (\<And>d m. fst s' n = Some d \<Longrightarrow> dd_menu d = Some m \<Longrightarrow> \<not> has_class (snd s) m ''show'' \<and> \<not> has_class (snd s) n ''show'') \<Longrightarrow>
    dd_step pj call s s'"
| shows_menu: "dd_step pj call s (snd (Dropdown_show call n s))"
| hides_menu: "dd_step pj call s (snd (Dropdown_hide n s))"
| toggles_menu: "dd_step pj call s (snd (Dropdown_toggle call n s))"
| updates: "dd_step pj call s (Dropdown_update n s)"
| disposes: "dd_step pj call s (Dropdown_dispose n s)"
| clicks: "dd_step pj call s (snd (clearMenus ev s))"
| clicks_toggle: "fst s n \<noteq> None \<Longrightarrow> dd_step pj call s (snd (Dropdown_data_api_click pj call n s))"
| keys: "(\<And>b. getToggleButton (snd s) this = Some b \<Longrightarrow> fst s b \<noteq> None) \<Longrightarrow>
    dd_step pj call s (snd (dataApiKeydownHandler pj call this ev s))"

lemma first_click:
  "Dropdown_getOrCreate pj n s = (None, s1) \<Longrightarrow> fst s1 n \<noteq> None \<and>
    Dropdown_data_api_click pj call n s = Dropdown_data_api_click pj call n s1"
  by (auto simp: Dropdown_data_api_click_def Dropdown_getOrCreate_def Dropdown_new_def set_dd_def
      split: option.splits sum.splits)

lemma Dropdown_new_inv:
  assumes i: "dd_inv s" and n: "fst s n = None" "Dropdown_new pj n cfg s = (e, s')" and apart: "dd_apart (fst s')"
    and closed: "\<And>d m. fst s' n = Some d \<Longrightarrow> dd_menu d = Some m \<Longrightarrow> \<not> has_class (snd s) m ''show'' \<and> \<not> has_class (snd s) n ''show''"
  shows "dd_inv s'"
proof (cases "fst s' n")
  case None
  then have "s' = s" using n by (auto simp: Dropdown_new_def set_dd_def split: option.splits sum.splits)
  then show ?thesis using i by simp
next
  case (Some d)
  then have "dd_popper d = None" "snd s' = snd s" "\<And>k. k \<noteq> n \<Longrightarrow> fst s' k = fst s k"
    using n by (auto simp: Dropdown_new_def set_dd_def split: option.splits sum.splits)
  note new = this
  have "dd_agrees (snd s') k d' m" if k: "fst s' k = Some d'" "dd_menu d' = Some m" for k d' m
  proof (cases "k = n")
    case True
    then show ?thesis using k Some new closed[of d m] by (simp add: dd_agrees_def engine_alive_def)
  next
    case False
    then show ?thesis using k new i by (simp add: dd_inv_def)
  qed
  then show ?thesis using apart by (simp add: dd_inv_def)
qed

lemma dd_step_inv: "dd_step pj call s s' \<Longrightarrow> dd_inv s \<Longrightarrow> dd_inv s'"
proof (induction rule: dd_step.induct)
  case (creates s n cfg e s')
  then show ?case using Dropdown_new_inv by blast
next
  case (clicks s ev)
  then show ?case by (simp add: clearMenus_def clear_toggles_inv)
next
  case (clicks_toggle s n)
  then show ?case by (auto simp: Dropdown_data_api_click_def Dropdown_getOrCreate_def Dropdown_toggle_inv)
qed (simp_all add: Dropdown_show_inv Dropdown_hide_inv Dropdown_toggle_inv Dropdown_update_inv Dropdown_dispose_inv keydown_inv)

inductive dd_reaches :: "(string \<Rightarrow> jsval option) \<Rightarrow> (string \<Rightarrow> jsval) \<Rightarrow> 'cb dd_state \<Rightarrow> 'cb dd_state \<Rightarrow> bool" for pj call where
  stays: "dd_reaches pj call s s"
| moves: "dd_reaches pj call s s' \<Longrightarrow> dd_step pj call s' s'' \<Longrightarrow> dd_reaches pj call s s''"

text \<open>
  C35: the parts of a dropdown agree. If every toggle of a page has a menu of its own and all are closed at the
  start, then after any sequence of clicks, keys and calls, vetoed or not, and of toggles that get their instance
  while their menu is closed, of every instance the menu is shown
  exactly when the toggle is marked as shown and exactly when a positioning engine of it is alive; once it was opened
  \<open>aria-expanded\<close> says the same.\<close>

theorem dropdown_parts_agree:
  assumes "dd_reaches pj call s s'" and "dd_apart (fst s)"
    and closed: "\<And>n d m. fst s n = Some d \<Longrightarrow> dd_menu d = Some m \<Longrightarrow>
      dd_popper d = None \<and> \<not> has_class (snd s) m ''show'' \<and> \<not> has_class (snd s) n ''show''"
    and "fst s' n = Some d" and "dd_menu d = Some m"
  shows "has_class (snd s') m ''show'' = engine_alive d \<and> has_class (snd s') n ''show'' = engine_alive d \<and>
    (dd_popper d \<noteq> None \<longrightarrow> get_attr (snd s') n ''aria-expanded'' = Some (boolStr (engine_alive d)))"
proof -
  have "dd_inv s" unfolding dd_inv_def
  proof (intro conjI allI impI)
    fix n d m assume "fst s n = Some d \<and> dd_menu d = Some m"
    then show "dd_agrees (snd s) n d m" using closed[of n d m] by (simp add: dd_agrees_def engine_alive_def)
  qed (rule assms(2))
  with assms(1) have "dd_inv s'" by induction (auto intro: dd_step_inv)
  then show ?thesis using assms(4,5) by (auto simp: dd_inv_def dd_agrees_def)
qed

section \<open>A click on the toggle\<close>

lemma isDisabled_cong:
  assumes "same_tree w v" and "\<And>c. c \<noteq> ''show'' \<Longrightarrow> has_class v n c = has_class w n c"
    and "get_attr v n ''disabled'' = get_attr w n ''disabled''"
  shows "isDisabled v (Some n) = isDisabled w (Some n)"
  using assms by (simp add: isDisabled_def has_attr_def same_tree_def)

lemma mouseover_tree: "same_tree u (mouseover_on w) = same_tree u w" "same_tree u (mouseover_off w) = same_tree u w"
  "activeElement (mouseover_on w) = activeElement w"
proof -
  have "same_tree u (fold (\<lambda>n. listen n e) ns w) = same_tree u w" "same_tree u (fold (\<lambda>n. unlisten n e) ns w) = same_tree u w"
    "activeElement (fold (\<lambda>n. listen n e) ns w) = activeElement w" for e ns and w :: "'a world"
    by (induction ns arbitrary: w) auto
  then show "same_tree u (mouseover_on w) = same_tree u w" "same_tree u (mouseover_off w) = same_tree u w"
    "activeElement (mouseover_on w) = activeElement w"
    by (auto simp: mouseover_on_def mouseover_off_def)
qed

lemma createPopper_tree: "same_tree w (snd (Dropdown_createPopper call n menu d w))"
  "get_attr (snd (Dropdown_createPopper call n menu d w)) m ''disabled'' = get_attr w m ''disabled''"
  by (auto simp: Dropdown_createPopper_def Dropdown_getPopperConfig_def setDataAttribute_def data_bs_def Let_def split: prod.splits)

lemma Dropdown_show_opens:
  assumes d: "fst s n = Some d" "dd_menu d = Some menu" and e: "\<not> isDisabled (snd s) (Some n)"
    and closed: "\<not> has_class (snd s) menu ''show''" and p: "\<not> prevents (env (snd s)) (eventLog (snd s)) (n, ''show.bs.dropdown'')"
  obtains d' w' where "Dropdown_show call n s = (None, set_dd n d' (fst s, w'))" and "dd_menu d' = Some menu" "engine_alive d'"
    and "has_class w' menu ''show''" "has_class w' n ''show''" "get_attr w' n ''aria-expanded'' = Some ''true''"
    and "\<forall>q. canFocus (env (snd s)) q n \<Longrightarrow> activeElement w' = Some n" "env w' = env (snd s)"
    and "eventLog w' = eventLog (snd s) @ [(n, ''show.bs.dropdown''), (n, ''shown.bs.dropdown'')]"
    and "isDisabled w' (Some n) = isDisabled (snd s) (Some n)"
proof -
  obtain d1 w1 where c: "Dropdown_createPopper call n menu d (announce n ''show.bs.dropdown'' (snd s)) = (d1, w1)" by fastforce
  note facts = createPopper_facts[OF c] and tree = createPopper_tree[where w = "announce n ''show.bs.dropdown'' (snd s)" and call = call and n = n and menu = menu and d = d, unfolded c]
  define w2 where "w2 = (if closest (\<lambda>m. has_class w1 m ''navbar-nav'') w1 (dd_parent d) = None then mouseover_on w1 else w1)"
  define w3 where "w3 = announce n ''shown.bs.dropdown''
    (add_class ''show'' n (add_class ''show'' menu (set_attr ''aria-expanded'' ''true'' n (focus_on n w2))))"
  have "Dropdown_show call n s = (None, set_dd n d1 (fst s, w3))"
    using d e closed p by (simp add: Dropdown_show_def with_menu_def trigger_eq c w2_def[symmetric] w3_def Let_def)
  moreover have w2: "has_class w2 k x = has_class (snd s) k x" "eventLog w2 = eventLog (snd s) @ [(n, ''show.bs.dropdown'')]"
      "env w2 = env (snd s)" "same_tree (snd s) w2" "get_attr w2 n ''disabled'' = get_attr (snd s) n ''disabled''" for k x
    using facts(5,7,8) tree same_tree_trans[of "snd s" "announce n ''show.bs.dropdown'' (snd s)" w1]
    by (auto simp: w2_def mouseover_tree)
  moreover have "isDisabled w3 (Some n) = isDisabled (snd s) (Some n)"
    using w2 by (intro isDisabled_cong) (simp_all add: w3_def)
  ultimately show ?thesis using facts(1,3) d by (intro that[of d1 w3]) (simp_all add: w3_def)
qed

text \<open>
  Two clicks on a toggle. The first opens its menu, focuses the toggle if it takes the focus and sets \<open>aria-expanded\<close>; the
  second closes it and gives \<open>aria-expanded\<close> back. Each announces its two events in order, and the engine that the
  first made is destroyed by the second.\<close>

theorem dropdown_click_twice:
  fixes pj :: "string \<Rightarrow> jsval option" and call :: "string \<Rightarrow> jsval"
  assumes d: "fst s n = Some d" "dd_menu d = Some menu" and e: "\<not> isDisabled (snd s) (Some n)"
    and closed: "\<not> has_class (snd s) menu ''show''" and p: "\<And>l ev. \<not> prevents (env (snd s)) l ev"
  defines "r1 \<equiv> Dropdown_data_api_click pj call n s"
  defines "r2 \<equiv> Dropdown_data_api_click pj call n (snd r1)"
  shows "fst r1 = None \<and> has_class (snd (snd r1)) menu ''show'' \<and>
    ((\<forall>q. canFocus (env (snd s)) q n) \<longrightarrow> activeElement (snd (snd r1)) = Some n) \<and>
    get_attr (snd (snd r1)) n ''aria-expanded'' = Some ''true'' \<and>
    fst r2 = None \<and> \<not> has_class (snd (snd r2)) menu ''show'' \<and> \<not> has_class (snd (snd r2)) n ''show'' \<and>
    get_attr (snd (snd r2)) n ''aria-expanded'' = Some ''false'' \<and> (\<exists>d'. fst (snd r2) n = Some d' \<and> \<not> engine_alive d') \<and>
    eventLog (snd (snd r2)) = eventLog (snd s) @ map (\<lambda>x. (n, x))
      [''show.bs.dropdown'', ''shown.bs.dropdown'', ''hide.bs.dropdown'', ''hidden.bs.dropdown'']"
proof -
  obtain d' w' where sh: "Dropdown_show call n s = (None, set_dd n d' (fst s, w'))" and d': "dd_menu d' = Some menu" "engine_alive d'"
      and w': "has_class w' menu ''show''" "has_class w' n ''show''" "get_attr w' n ''aria-expanded'' = Some ''true''"
        "(\<forall>q. canFocus (env (snd s)) q n) \<longrightarrow> activeElement w' = Some n" "env w' = env (snd s)"
        "eventLog w' = eventLog (snd s) @ [(n, ''show.bs.dropdown''), (n, ''shown.bs.dropdown'')]"
        "isDisabled w' (Some n) = isDisabled (snd s) (Some n)"
    using Dropdown_show_opens[OF d e closed p] by metis
  have r1: "r1 = (None, set_dd n d' (fst s, w'))"
    using d closed by (simp add: r1_def Dropdown_data_api_click_def Dropdown_getOrCreate_def Dropdown_toggle_def with_menu_def sh)
  have at: "fst (snd r1) n = Some d'" "snd (snd r1) = w'" by (simp_all add: r1 set_dd_def)
  have r2: "r2 = completeHide n d' menu (snd r1)"
    using at w' d' e by (simp add: r2_def Dropdown_data_api_click_def Dropdown_getOrCreate_def Dropdown_toggle_def Dropdown_hide_def
      with_menu_def)
  have "r2 = (None, set_dd n (destroy_popper d') (fst (snd r1), announce n ''hidden.bs.dropdown''
      (removeDataAttribute menu ''popper'' (set_attr ''aria-expanded'' ''false'' n (remove_class ''show'' n
        (remove_class ''show'' menu (mouseover_off (announce n ''hide.bs.dropdown'' w'))))))))"
    using p w' by (simp add: r2 completeHide_def trigger_eq at Let_def)
  then show ?thesis using w' at data_popper_not_aria
    by (simp add: r1 removeDataAttribute_def) (simp add: set_dd_def)
qed

section \<open>A click elsewhere\<close>

definition stays_open :: "dd_event \<Rightarrow> node \<Rightarrow> dropdown \<Rightarrow> node \<Rightarrow> 'cb world \<Rightarrow> bool" where
  "stays_open ev n d menu w \<longleftrightarrow> lookup (dd_config d) ''autoClose'' = JBool False \<or> keeps_open ev n d menu w"

lemma stays_open_same: "same_tree w v \<Longrightarrow> dd_config d' = dd_config d \<Longrightarrow> stays_open ev n d' m v = stays_open ev n d m w"
  by (simp add: stays_open_def keeps_open_def same_tree_contains) (simp add: same_tree_def)

lemma completeHide_effect:
  assumes "\<And>l ev. \<not> prevents (env (snd s)) l ev"
  obtains w' where "completeHide n d menu s = (None, set_dd n (destroy_popper d) (fst s, w'))" and "same_tree (snd s) w'"
    and "env w' = env (snd s)" and "\<And>k. has_class w' k ''show'' \<longleftrightarrow> has_class (snd s) k ''show'' \<and> k \<noteq> n \<and> k \<noteq> menu"
  using assms by (intro that[of "announce n ''hidden.bs.dropdown'' (removeDataAttribute menu ''popper''
      (set_attr ''aria-expanded'' ''false'' n (remove_class ''show'' n (remove_class ''show'' menu
        (mouseover_off (announce n ''hide.bs.dropdown'' (snd s)))))))"])
    (auto simp: completeHide_def trigger_eq removeDataAttribute_def mouseover_tree Let_def)

lemma clear_toggles_effect:
  assumes "dd_apart (fst s)" and "\<And>l ev. \<not> prevents (env (snd s)) l ev"
    and "\<forall>n d. fst s n = Some d \<longrightarrow> dd_menu d \<noteq> None"
  shows "fst (clear_toggles ev ts s) = None \<and> (\<forall>n d m. fst s n = Some d \<and> dd_menu d = Some m \<longrightarrow>
    has_class (snd (snd (clear_toggles ev ts s))) m ''show'' =
      (has_class (snd s) m ''show'' \<and> (n \<in> set ts \<longrightarrow> stays_open ev n d m (snd s))))"
  using assms
proof (induction ts arbitrary: s)
  case (Cons t ts)
  show ?case
  proof (cases "\<exists>d m. fst s t = Some d \<and> dd_menu d = Some m \<and> \<not> stays_open ev t d m (snd s)")
    case False
    have "clear_toggles ev (t # ts) s = clear_toggles ev ts s"
    proof (cases "fst s t")
      case (Some e)
      then obtain k where "dd_menu e = Some k" using Cons.prems(3) by blast
      then show ?thesis using False Some by (auto simp: with_menu_def stays_open_def)
    qed simp
    then show ?thesis using Cons.IH[OF Cons.prems] False by auto
  next
    case True
    then obtain d m where d: "fst s t = Some d" "dd_menu d = Some m" "\<not> stays_open ev t d m (snd s)" by blast
    obtain w' where w': "completeHide t d m s = (None, set_dd t (destroy_popper d) (fst s, w'))" "same_tree (snd s) w'"
        "env w' = env (snd s)" "\<And>k. has_class w' k ''show'' \<longleftrightarrow> has_class (snd s) k ''show'' \<and> k \<noteq> t \<and> k \<noteq> m"
      using completeHide_effect[of s t d m thesis] Cons.prems(2) by blast
    define s' where "s' = set_dd t (destroy_popper d) (fst s, w')"
    have s': "fst s' = (fst s)(t \<mapsto> destroy_popper d)" "snd s' = w'" by (simp_all add: s'_def set_dd_def)
    have step: "clear_toggles ev (t # ts) s = clear_toggles ev ts s'"
      using d w'(1) by (simp add: with_menu_def stays_open_def s'_def)
    have apart: "dd_apart (fst s')" unfolding s' by (rule dd_apart_set[OF Cons.prems(1) d(1)]) simp
    have menus: "\<forall>n e. fst s' n = Some e \<longrightarrow> dd_menu e \<noteq> None" using Cons.prems(3) d by (auto simp: s')
    have "\<not> prevents (env (snd s')) l ev" for l ev using Cons.prems(2) by (simp add: s' w'(3))
    note IH = Cons.IH[OF apart this menus]
    have "has_class (snd (snd (clear_toggles ev ts s'))) k ''show'' =
        (has_class (snd s) k ''show'' \<and> (n \<in> set (t # ts) \<longrightarrow> stays_open ev n e k (snd s)))"
      if n: "fst s n = Some e" "dd_menu e = Some k" for n e k
    proof (cases "n = t")
      case True
      then have "e = d" "k = m" using n d by auto
      moreover have "fst s' t = Some (destroy_popper d)" "dd_menu (destroy_popper d) = Some m" using d by (simp_all add: s')
      ultimately show ?thesis using IH[THEN conjunct2, rule_format, of t "destroy_popper d" m] w'(4) d(3) True by (simp add: s')
    next
      case False
      have "k \<noteq> m" "k \<noteq> t" using Cons.prems(1) n d False unfolding dd_apart_def by auto
      moreover have "fst s' n = Some e" using False n by (simp add: s')
      ultimately show ?thesis using IH[THEN conjunct2, rule_format, of n e k] n w'(4) False stays_open_same[OF w'(2), of e e]
        by (simp add: s')
    qed
    then show ?thesis using IH unfolding step by blast
  qed
qed simp

text \<open>
  What a click closes. A click that is not with the right button, and whose events nobody vetoes, closes
  exactly the shown menus of the toggles that are shown, except those with \<open>autoClose\<close> false, those whose toggle was
  clicked, those that close only inside or only outside when the click was on the other side, and those in which a
  field of a form was clicked.\<close>

theorem dropdown_click_closes:
  assumes "dd_apart (fst s)" and "\<And>l ev. \<not> prevents (env (snd s)) l ev" and m: "\<And>n d. fst s n = Some d \<Longrightarrow> dd_menu d \<noteq> None"
    and ev: "de_type ev = ''click''" "de_button ev \<noteq> 2"
    and n: "fst s n = Some d" "dd_menu d = Some menu" "n \<in> set (descendants (snd s) documentElement)"
      "is_dd_toggle_shown (snd s) n" "has_class (snd s) menu ''show''"
  shows "fst (clearMenus ev s) = None \<and> (has_class (snd (snd (clearMenus ev s))) menu ''show'' \<longleftrightarrow>
    lookup (dd_config d) ''autoClose'' = JBool False \<or> n \<in> set (de_path ev) \<or>
    lookup (dd_config d) ''autoClose'' = JStr ''inside'' \<and> menu \<notin> set (de_path ev) \<or>
    lookup (dd_config d) ''autoClose'' = JStr ''outside'' \<and> menu \<in> set (de_path ev) \<or>
    node_contains (snd s) menu (de_target ev) \<and>
      names_input [''input'', ''select'', ''option'', ''textarea'', ''form''] (tagName (page (snd s) (de_target ev))))"
proof -
  define ts where "ts = query_all (is_dd_toggle_shown (snd s)) (snd s) documentElement"
  have c: "clearMenus ev s = clear_toggles ev ts s" using ev by (simp add: clearMenus_def ts_def)
  have "n \<in> set ts" using n by (simp add: ts_def query_all_def)
  moreover have "\<forall>n d. fst s n = Some d \<longrightarrow> dd_menu d \<noteq> None" using m by blast
  note clear_toggles_effect[OF assms(1,2) this, where ev = ev and ts = ts]
  ultimately show ?thesis using n ev by (simp add: c stays_open_def keeps_open_def Let_def)
qed

text \<open>A body with a toggle and its menu, closed and open.\<close>

definition drop_page :: page where
  "drop_page = (\<lambda>_. plain_node ''DIV'' None [])(documentElement := plain_node ''HTML'' None [document_body],
    document_body := plain_node ''BODY'' (Some documentElement) [4, 5],
    4 := (plain_node ''A'' (Some document_body) [])\<lparr>attrs := [(''data-bs-toggle'', ''dropdown'')]\<rparr>,
    5 := (plain_node ''DIV'' (Some document_body) [])\<lparr>classList := [''dropdown-menu'']\<rparr>)"

definition drop_state :: "bool \<Rightarrow> unit dd_state" where
  "drop_state opened = ((\<lambda>_. None)(4 \<mapsto> \<lparr>dd_config = Dropdown_Default, dd_parent = document_body, dd_menu = Some 5,
      dd_inNavbar = False, dd_popper = None\<rparr>),
    if opened then add_class ''show'' 4 (add_class ''show'' 5 (blank_world drop_page 6)) else blank_world drop_page 6)"

lemma drop_facts:
  "dd_apart (fst (drop_state b))" "\<not> prevents (env (snd (drop_state b))) l ev"
  "fst (drop_state b) n = Some d \<Longrightarrow> n = 4 \<and> dd_menu d = Some 5 \<and> dd_popper d = None \<and> lookup (dd_config d) ''autoClose'' = JBool True"
  "\<exists>d. fst (drop_state b) 4 = Some d"
  "has_class (snd (drop_state b)) 5 ''show'' = b" "has_class (snd (drop_state b)) 4 ''show'' = b"
  "4 \<in> set (descendants (snd (drop_state b)) documentElement)" "is_dd_toggle_shown (snd (drop_state b)) 4 = b"
  "\<not> isDisabled (snd (drop_state b)) (Some 4)"
  by (auto simp: drop_state_def dd_apart_def blank_world_def blank_browser_def drop_page_def plain_node_def has_class_def
      add_class_def upd_node_def descendants_def documentElement_def document_body_def numeral_eq_Suc is_dd_toggle_shown_def
      is_dd_toggle_def get_attr_def has_disabled_property_def isDisabled_def document_node_def window_node_def has_attr_def
      lookup_def Dropdown_Default_def split: if_splits)

lemma dropdown_parts_agree_witness:
  "\<exists>d. fst (snd (Dropdown_show (\<lambda>_. JNull) 4 (drop_state False))) 4 = Some d \<and>
    has_class (snd (snd (Dropdown_show (\<lambda>_. JNull) 4 (drop_state False)))) 5 ''show'' = engine_alive d"
proof -
  obtain d where d: "fst (drop_state False) 4 = Some d" using drop_facts(4) by blast
  have m: "dd_menu d = Some 5" using drop_facts(3)[OF d] by blast
  obtain d' w' where r: "Dropdown_show (\<lambda>_. JNull) 4 (drop_state False) = (None, set_dd 4 d' (fst (drop_state False), w'))" "dd_menu d' = Some 5"
    using Dropdown_show_opens[OF d m drop_facts(9), of "\<lambda>_. JNull" thesis] drop_facts(2,5) by auto
  have reach: "dd_reaches (\<lambda>_. None) (\<lambda>_. JNull) (drop_state False) (snd (Dropdown_show (\<lambda>_. JNull) 4 (drop_state False)))"
    by (rule dd_reaches.moves[OF dd_reaches.stays dd_step.shows_menu])
  have at: "fst (snd (Dropdown_show (\<lambda>_. JNull) 4 (drop_state False))) 4 = Some d'" by (simp add: r set_dd_def)
  have closed: "dd_popper e = None \<and> \<not> has_class (snd (drop_state False)) k ''show'' \<and> \<not> has_class (snd (drop_state False)) n ''show''"
    if "fst (drop_state False) n = Some e" "dd_menu e = Some k" for n e k
    using drop_facts(3)[OF that(1)] drop_facts(5,6)[of False] that(2) by auto
  have "has_class (snd (snd (Dropdown_show (\<lambda>_. JNull) 4 (drop_state False)))) 5 ''show'' = engine_alive d'"
    using dropdown_parts_agree [OF reach drop_facts(1) closed at r(2)] by blast
  then show ?thesis using at by blast
qed

lemma dropdown_click_twice_witness:
  "has_class (snd (snd (Dropdown_data_api_click (\<lambda>_. None) (\<lambda>_. JNull) 4 (drop_state False)))) 5 ''show''"
proof -
  obtain d where d: "fst (drop_state False) 4 = Some d" using drop_facts(4) by blast
  have m: "dd_menu d = Some 5" using drop_facts(3)[OF d] by blast
  have c: "\<not> has_class (snd (drop_state False)) 5 ''show''" using drop_facts(5)[of False] by simp
  show ?thesis
    using dropdown_click_twice [OF d m drop_facts(9) c drop_facts(2), of "\<lambda>_. None" "\<lambda>_. JNull"] by blast
qed

definition body_click :: dd_event where
  "body_click = \<lparr>de_type = ''click'', de_button = 0, de_key = [], de_path = [document_body, documentElement],
    de_target = document_body\<rparr>"

lemma dropdown_click_closes_witness:
  "\<not> has_class (snd (snd (clearMenus body_click (drop_state True)))) 5 ''show''"
proof -
  obtain d where d: "fst (drop_state True) 4 = Some d" using drop_facts(4) by blast
  note f = drop_facts(3)[OF d]
  have menus: "dd_menu e \<noteq> None" if "fst (drop_state True) n = Some e" for n e using drop_facts(3)[OF that] by simp
  have m: "dd_menu d = Some 5" using f by blast
  have ev: "de_type body_click = ''click''" "de_button body_click \<noteq> 2" by (simp_all add: body_click_def)
  have sh: "is_dd_toggle_shown (snd (drop_state True)) 4" "has_class (snd (drop_state True)) 5 ''show''"
    using drop_facts(5,8)[of True] by simp_all
  have "tagName (page (snd (drop_state True)) document_body) = ''BODY''"
    by (simp add: drop_state_def blank_world_def drop_page_def plain_node_def document_body_def documentElement_def add_class_def upd_node_def)
  moreover have "\<not> names_input [''input'', ''select'', ''option'', ''textarea'', ''form''] ''BODY''" by code_simp
  ultimately show ?thesis
    using dropdown_click_closes [OF drop_facts(1,2) menus ev d m drop_facts(7) sh] f
    by (simp add: body_click_def document_body_def documentElement_def)
qed

end
