(* ===== verification/BsDefaults.thy ===== *)
theory BsDefaults
  imports BsCarousel BsCollapse BsOffcanvas BsToast BsDropdown
begin

text \<open>
  The tables of options of Bootstrap's components, their defaults and the types they are checked against, and what the check
  of a component's configuration lets through. The value of \<open>allowList\<close> is an empty object here; the sanitizer holds the list.
\<close>

section \<open>Defaults and types\<close>

definition Swipe_Default :: object where
  "Swipe_Default = [(''endCallback'', JNull), (''leftCallback'', JNull), (''rightCallback'', JNull)]"

definition Swipe_DefaultType :: "(string \<times> string) list" where
  "Swipe_DefaultType = [(''endCallback'', ''(function|null)''), (''leftCallback'', ''(function|null)''),
    (''rightCallback'', ''(function|null)'')]"

definition Carousel_Default :: object where
  "Carousel_Default = [(''interval'', JNum 5000), (''keyboard'', JBool True), (''pause'', JStr ''hover''), (''ride'', JBool False),
    (''touch'', JBool True), (''wrap'', JBool True)]"

definition Carousel_DefaultType :: "(string \<times> string) list" where
  "Carousel_DefaultType = [(''interval'', ''(number|boolean)''), (''keyboard'', ''boolean''), (''pause'', ''(string|boolean)''),
    (''ride'', ''(boolean|string)''), (''touch'', ''boolean''), (''wrap'', ''boolean'')]"

definition Carousel_configAfterMerge :: "'cb world \<Rightarrow> object \<Rightarrow> object" where
  "Carousel_configAfterMerge w cfg = AList.update ''defaultInterval'' (lookup cfg ''interval'') cfg"

definition Collapse_DefaultType :: "(string \<times> string) list" where
  "Collapse_DefaultType = [(''parent'', ''(null|element)''), (''toggle'', ''boolean'')]"

definition element_value :: "node option \<Rightarrow> jsval" where
  "element_value e = (case e of None \<Rightarrow> JNull | Some n \<Rightarrow> JNode n)"

definition Collapse_mergeOptions :: "'cb world \<Rightarrow> object \<Rightarrow> object" where
  "Collapse_mergeOptions w cfg =
    (let cfg' = AList.update ''toggle'' (JBool (truthy (lookup cfg ''toggle''))) cfg in
     AList.update ''parent'' (element_value (getElement w (lookup cfg' ''parent''))) cfg')"

definition Backdrop_Default :: object where
  "Backdrop_Default = [(''className'', JStr ''modal-backdrop''), (''clickCallback'', JNull), (''isAnimated'', JBool False),
    (''isVisible'', JBool True), (''rootElement'', JStr ''body'')]"

definition Backdrop_DefaultType :: "(string \<times> string) list" where
  "Backdrop_DefaultType = [(''className'', ''string''), (''clickCallback'', ''(function|null)''), (''isAnimated'', ''boolean''),
    (''isVisible'', ''boolean''), (''rootElement'', ''(element|string)'')]"

definition Backdrop_configAfterMerge :: "'cb world \<Rightarrow> object \<Rightarrow> object" where
  "Backdrop_configAfterMerge w cfg = AList.update ''rootElement'' (element_value (getElement w (lookup cfg ''rootElement''))) cfg"

definition FocusTrap_Default :: object where
  "FocusTrap_Default = [(''autofocus'', JBool True), (''trapElement'', JNull)]"

definition FocusTrap_DefaultType :: "(string \<times> string) list" where
  "FocusTrap_DefaultType = [(''autofocus'', ''boolean''), (''trapElement'', ''element'')]"

definition TemplateFactory_Default :: object where
  "TemplateFactory_Default = [(''allowList'', JObj []), (''content'', JObj []), (''extraClass'', JStr []), (''html'', JBool False),
    (''sanitize'', JBool True), (''sanitizeFn'', JNull), (''template'', JStr ''<div></div>'')]"

definition TemplateFactory_DefaultType :: "(string \<times> string) list" where
  "TemplateFactory_DefaultType = [(''allowList'', ''object''), (''content'', ''object''), (''extraClass'', ''(string|function)''),
    (''html'', ''boolean''), (''sanitize'', ''boolean''), (''sanitizeFn'', ''(null|function)''), (''template'', ''string'')]"

text \<open>The components whose options need nothing of the page: name, defaults, types and \<open>_configAfterMerge\<close>.\<close>

type_synonym 'cb plugin = "string \<times> object \<times> (string \<times> string) list \<times> ('cb world \<Rightarrow> object \<Rightarrow> object)"

definition plugins :: "'cb plugin list" where
  "plugins =
    [(''swipe'', Swipe_Default, Swipe_DefaultType, \<lambda>w c. c),
     (''carousel'', Carousel_Default, Carousel_DefaultType, Carousel_configAfterMerge),
     (''collapse'', Collapse_Default, Collapse_DefaultType, Collapse_mergeOptions),
     (''modal'', Modal_Default, Modal_DefaultType, \<lambda>w c. c),
     (''offcanvas'', Offcanvas_Default, Offcanvas_DefaultType, \<lambda>w c. c),
     (''TemplateFactory'', TemplateFactory_Default, TemplateFactory_DefaultType, \<lambda>w c. c),
     (''scrollspy'', ScrollSpy_Default, ScrollSpy_DefaultType, ScrollSpy_configAfterMerge),
     (''toast'', Toast_Default, Toast_DefaultType, \<lambda>w c. c)]"

section \<open>Types of options\<close>

definition has_type :: "'cb world \<Rightarrow> jsval \<Rightarrow> string \<Rightarrow> bool" where
  "has_type w v t = list_ex (includes_str (valueType w v)) (type_alternatives t)"

definition allowed :: "'cb world \<Rightarrow> (string \<times> string) list \<Rightarrow> string \<times> jsval \<Rightarrow> bool" where
  "allowed w types = (\<lambda>(k, v). \<forall>t. (k, t) \<in> set types \<longrightarrow> has_type w v t)"

definition well_typed :: "'cb world \<Rightarrow> (string \<times> string) list \<Rightarrow> object \<Rightarrow> bool" where
  "well_typed w types c = list_all (\<lambda>(k, t). has_type w (lookup c k) t) types"

lemma typeCheckConfig_iff: "typeCheckConfig w c types = Inr () \<longleftrightarrow> well_typed w types c"
  by (induction types) (auto simp: well_typed_def has_type_def split: if_splits)

text \<open>A configuration that fails the check names an option of the wrong type.\<close>

lemma typeCheckConfig_fails:
  "typeCheckConfig w c types = Inl e \<Longrightarrow> \<exists>(k, t) \<in> set types. e = TypeError k \<and> \<not> has_type w (lookup c k) t"
  by (induction types) (auto simp: has_type_def split: if_splits)

lemma well_typed_update:
  "well_typed w types c \<Longrightarrow> allowed w types (k, v) \<Longrightarrow> well_typed w types (AList.update k v c)"
  by (auto simp: well_typed_def allowed_def lookup_update list_all_iff)

lemma well_typed_spread: "well_typed w types c \<Longrightarrow> \<forall>p \<in> set ps. allowed w types p \<Longrightarrow> well_typed w types (spread c ps)"
  unfolding spread_def
proof (induction ps arbitrary: c)
  case (Cons p ps)
  then have "well_typed w types (case p of (k, v) \<Rightarrow> AList.update k v c)" by (cases p) (simp add: well_typed_update)
  then show ?case using Cons by simp
qed simp

lemmas type_check_simps = has_type_def type_alternatives_def valueType_def isElement_def toType_def

lemmas default_tables = Swipe_Default_def Swipe_DefaultType_def Carousel_Default_def Carousel_DefaultType_def Collapse_Default_def
  Collapse_DefaultType_def Modal_Default_def Modal_DefaultType_def Offcanvas_Default_def Offcanvas_DefaultType_def
  TemplateFactory_Default_def TemplateFactory_DefaultType_def Toast_Default_def Toast_DefaultType_def
  ScrollSpy_Default_def ScrollSpy_DefaultType_def

text \<open>The option \<open>target\<close> of the scroll spy gets its type only after the merge.\<close>

definition typed_before :: "(string \<times> string) list \<Rightarrow> (string \<times> string) list" where
  "typed_before types = filter (\<lambda>(k, t). k \<noteq> ''target'') types"

lemma defaults_typed:
  assumes "(name, dflt, types, merge) \<in> set plugins"
  shows "well_typed w (typed_before types) dflt"
  using assms unfolding plugins_def
  by (auto simp: typed_before_def well_typed_def lookup_def type_check_simps default_tables)

lemma allowed_before: "allowed w types p \<Longrightarrow> allowed w (typed_before types) p"
  by (auto simp: allowed_def typed_before_def)

lemma scrollspy_merge_typed:
  assumes "well_typed w (typed_before ScrollSpy_DefaultType) c"
  shows "well_typed w ScrollSpy_DefaultType (ScrollSpy_configAfterMerge w c)"
proof -
  have t: "has_type w (lookup c ''offset'') ''(number|null)''" "has_type w (lookup c ''rootMargin'') ''string''"
    "has_type w (lookup c ''smoothScroll'') ''boolean''" "has_type w (lookup c ''threshold'') ''array''"
    using assms by (simp_all add: well_typed_def typed_before_def ScrollSpy_DefaultType_def)
  have "has_type w (JNode n) ''element''" "has_type w (JStr s) ''string''" for n s by (simp_all add: type_check_simps)
  moreover have "\<not> (\<exists>s. lookup c ''threshold'' = JStr s)" using t(4) by (auto simp: type_check_simps)
  ultimately show ?thesis
    using t by (cases "lookup c ''threshold''")
      (simp_all add: well_typed_def ScrollSpy_DefaultType_def ScrollSpy_configAfterMerge_def Let_def lookup_update)
qed

lemma merge_typed:
  assumes "(name, dflt, types, merge) \<in> set plugins" and "well_typed w (typed_before types) c"
  shows "well_typed w types (merge w c)"
proof -
  have "typed_before types = types" if "name \<noteq> ''scrollspy''"
    using assms(1) that by (auto simp: plugins_def typed_before_def default_tables)
  moreover have "well_typed w Carousel_DefaultType (Carousel_configAfterMerge w c)" if "well_typed w Carousel_DefaultType c"
    using that by (simp add: well_typed_def Carousel_DefaultType_def Carousel_configAfterMerge_def lookup_update)
  moreover have "well_typed w Collapse_DefaultType (Collapse_mergeOptions w c)"
    by (simp add: well_typed_def Collapse_DefaultType_def Collapse_mergeOptions_def lookup_update Let_def element_value_def
        type_check_simps split: option.split)
  ultimately show ?thesis using assms scrollspy_merge_typed[of w c] by (auto simp: plugins_def)
qed

text \<open>
  C25: The check of options accepts what it should. For each of these components, options of the declared types, from the script, the
  JSON attribute or the data attributes, make a configuration that passes the check, and every declared option of it has a
  declared type; without any option the defaults pass.\<close>

theorem options_type_sound:
  assumes "(name, dflt, types, merge) \<in> set plugins"
    and "\<forall>p \<in> set (spread_value cfg). allowed w types p"
    and "\<forall>n. e = Some n \<longrightarrow> (\<forall>p \<in> set (spread_value (getDataAttribute parseJson w n ''config'')). allowed w types p)"
    and "\<forall>p \<in> set (getDataAttributes parseJson w e). allowed w types p"
  shows "\<exists>c. getConfig parseJson w dflt types (merge w) cfg e = Inr c \<and> (\<forall>(k, t) \<in> set types. has_type w (lookup c k) t)"
proof -
  have "\<forall>p \<in> set (spread_value (case e of Some n \<Rightarrow> getDataAttribute parseJson w n ''config'' | None \<Rightarrow> JObj [])). allowed w types p"
    using assms(3) by (cases e) (simp_all add: spread_value_def)
  then have "well_typed w (typed_before types) (mergeConfigObj parseJson w dflt cfg e)"
    using assms(2,4) defaults_typed[OF assms(1)]
    unfolding mergeConfigObj_def Let_def by (intro well_typed_spread) (auto intro: allowed_before)
  then have c: "well_typed w types (merge w (mergeConfigObj parseJson w dflt cfg e))" by (rule merge_typed[OF assms(1)])
  then have "typeCheckConfig w (merge w (mergeConfigObj parseJson w dflt cfg e)) types = Inr ()" by (simp only: typeCheckConfig_iff)
  then have "getConfig parseJson w dflt types (merge w) cfg e = Inr (merge w (mergeConfigObj parseJson w dflt cfg e))"
    by (simp add: getConfig_def Let_def)
  then show ?thesis using c by (simp add: well_typed_def list_all_iff)
qed

text \<open>Options given by value: two of the helper classes depend on the page or on the caller.\<close>

lemma backdrop_needs_root:
  "(\<exists>c. getConfig parseJson w Backdrop_Default Backdrop_DefaultType (Backdrop_configAfterMerge w) (JObj []) None = Inr c) \<longleftrightarrow>
   getElement w (JStr ''body'') \<noteq> None"
  by (cases "getElement w (JStr ''body'')")
    (simp_all add: getConfig_def Let_def mergeConfigObj_def spread_value_def spread_def getDataAttributes_def Backdrop_Default_def
      Backdrop_DefaultType_def Backdrop_configAfterMerge_def lookup_def element_value_def type_check_simps)

lemma focus_trap_needs_element:
  "getConfig parseJson w FocusTrap_Default FocusTrap_DefaultType (\<lambda>c. c) (JObj []) None = Inl (TypeError ''trapElement'')"
  by (simp add: getConfig_def Let_def mergeConfigObj_def spread_value_def spread_def getDataAttributes_def FocusTrap_Default_def
      FocusTrap_DefaultType_def lookup_def type_check_simps)

lemma options_type_sound_witness:
  "\<exists>c. getConfig (\<lambda>_. None) (blank_world (\<lambda>_. plain_node ''DIV'' None []) 1 :: unit world) Toast_Default Toast_DefaultType (\<lambda>c. c) (JObj [(''delay'', JNum 100)]) None = Inr c \<and>
     has_type (blank_world (\<lambda>_. plain_node ''DIV'' None []) 1 :: unit world) (lookup c ''delay'') ''number''"
proof -
  let ?w = "blank_world (\<lambda>_. plain_node ''DIV'' None []) 1 :: unit world"
  have 1: "(''toast'', Toast_Default, Toast_DefaultType, \<lambda>w c. c) \<in> set (plugins :: unit plugin list)" by (simp add: plugins_def)
  have 2: "\<forall>p \<in> set (spread_value (JObj [(''delay'', JNum 100)])). allowed ?w Toast_DefaultType p"
    by (simp add: spread_value_def allowed_def type_check_simps Toast_DefaultType_def)
  have "\<exists>c. getConfig (\<lambda>_. None) ?w Toast_Default Toast_DefaultType (\<lambda>c. c) (JObj [(''delay'', JNum 100)]) None = Inr c \<and>
      (\<forall>(k, t) \<in> set Toast_DefaultType. has_type ?w (lookup c k) t)"
    by (rule options_type_sound[OF 1 2]) (simp_all add: getDataAttributes_def)
  moreover have "(''delay'', ''number'') \<in> set Toast_DefaultType" by (simp add: Toast_DefaultType_def)
  ultimately show ?thesis by blast
qed

end
