(* ===== verification/BsJquery.thy ===== *)
theory BsJquery
  imports BsDefaults BsTab
begin

text \<open>
  Bootstrap's side of jQuery: the callbacks that wait for the page, the registration of a plugin under its name with
  \<open>noConflict\<close>, the method calls by name that every component takes (\<open>jQueryInterface\<close>), and the search for a shadow root.
  jQuery is not part of the program. Its collection's \<open>each\<close> is an argument of the interfaces; \<open>jq_each\<close> is its documented
  behaviour: the callback runs for one element after another, and an exception ends the loop.
\<close>

section \<open>Waiting for the page\<close>

record ('c, 'e) page_load =
  isLoading :: bool
  DOMContentLoadedCallbacks :: "'c list"
  loadListeners :: nat
  effects :: 'e

definition onDOMContentLoaded :: "('c \<Rightarrow> 'e \<Rightarrow> 'e) \<Rightarrow> 'c \<Rightarrow> ('c, 'e) page_load \<Rightarrow> ('c, 'e) page_load" where
  "onDOMContentLoaded run callback s =
    (if isLoading s
     then let s' = (if DOMContentLoadedCallbacks s = [] then s\<lparr>loadListeners := Suc (loadListeners s)\<rparr> else s) in
       s'\<lparr>DOMContentLoadedCallbacks := DOMContentLoadedCallbacks s' @ [callback]\<rparr>
     else s\<lparr>effects := run callback (effects s)\<rparr>)"

text \<open>The event: every listener runs all the callbacks that wait.\<close>

definition run_waiting :: "('c \<Rightarrow> 'e \<Rightarrow> 'e) \<Rightarrow> ('c, 'e) page_load \<Rightarrow> ('c, 'e) page_load" where
  "run_waiting run s = s\<lparr>effects := fold run (DOMContentLoadedCallbacks s) (effects s)\<rparr>"

definition DOMContentLoaded :: "('c \<Rightarrow> 'e \<Rightarrow> 'e) \<Rightarrow> ('c, 'e) page_load \<Rightarrow> ('c, 'e) page_load" where
  "DOMContentLoaded run s = (run_waiting run ^^ loadListeners s) (s\<lparr>isLoading := False\<rparr>)"

lemma waits_while_loading:
  assumes "isLoading s" and "loadListeners s = (if DOMContentLoadedCallbacks s = [] then 0 else 1)"
  shows "fold (onDOMContentLoaded run) cs s = s\<lparr>DOMContentLoadedCallbacks := DOMContentLoadedCallbacks s @ cs,
    loadListeners := (if DOMContentLoadedCallbacks s @ cs = [] then 0 else 1)\<rparr>"
  using assms
proof (induction cs arbitrary: s)
  case (Cons c cs)
  let ?t = "onDOMContentLoaded run c s"
  have t: "?t = s\<lparr>DOMContentLoadedCallbacks := DOMContentLoadedCallbacks s @ [c], loadListeners := 1\<rparr>"
    using Cons.prems by (auto simp: onDOMContentLoaded_def Let_def)
  show ?case using Cons.IH[of ?t] Cons.prems(1) by (simp add: t)
qed simp

lemma runs_when_loaded:
  "\<not> isLoading s \<Longrightarrow> fold (onDOMContentLoaded run) cs s = s\<lparr>effects := fold run cs (effects s)\<rparr>"
  by (induction cs arbitrary: s) (simp_all add: onDOMContentLoaded_def)

text \<open>Every callback runs exactly once, in the order of registration, whether it comes before the event or after it.\<close>

lemma callbacks_run_once:
  assumes "isLoading s" "DOMContentLoadedCallbacks s = []" "loadListeners s = 0"
  shows "effects (fold (onDOMContentLoaded run) late (DOMContentLoaded run (fold (onDOMContentLoaded run) early s))) =
    fold run (early @ late) (effects s)"
  using assms by (simp add: waits_while_loading runs_when_loaded DOMContentLoaded_def run_waiting_def)

section \<open>Registering a plugin\<close>

text \<open>The objects \<open>jQuery.fn\<close> and the functions it holds, with the properties Bootstrap gives them.\<close>

record jquery =
  isPresent :: bool
  fn :: "string \<Rightarrow> nat option"
  Constructor :: "nat \<Rightarrow> string option"
  noConflict :: "nat \<Rightarrow> (string \<times> nat option \<times> nat) option"

record component_plugin =
  NAME :: string
  jQueryInterface :: nat

definition getjQuery :: "'cb world \<Rightarrow> jquery \<Rightarrow> bool" where
  "getjQuery w j \<longleftrightarrow> isPresent j \<and> \<not> has_attr w document_body ''data-bs-no-jquery''"

definition register_plugin :: "'cb world \<Rightarrow> component_plugin \<Rightarrow> jquery \<Rightarrow> jquery" where
  "register_plugin w plugin j =
    (if getjQuery w j
     then let name = NAME plugin; JQUERY_NO_CONFLICT = fn j name; f = jQueryInterface plugin in
       j\<lparr>fn := (fn j)(name := Some f), Constructor := (Constructor j)(f := Some name),
         noConflict := (noConflict j)(f := Some (name, JQUERY_NO_CONFLICT, f))\<rparr>
     else j)"

definition defineJQueryPlugin ::
    "'cb world \<Rightarrow> component_plugin \<Rightarrow> (component_plugin, jquery) page_load \<Rightarrow> (component_plugin, jquery) page_load" where
  "defineJQueryPlugin w = onDOMContentLoaded (register_plugin w)"

text \<open>A call of \<open>$.fn[name].noConflict()\<close>, which throws when nothing of Bootstrap is there.\<close>

definition call_noConflict :: "string \<Rightarrow> jquery \<Rightarrow> (nat \<times> jquery) option" where
  "call_noConflict name j = (case Option.bind (fn j name) (noConflict j) of
      None \<Rightarrow> None
    | Some (name', previous, result) \<Rightarrow> Some (result, j\<lparr>fn := (fn j)(name' := previous)\<rparr>))"

text \<open>Giving the name back restores what was there and returns the plugin; two copies of the library give it back one after
  the other.\<close>

lemma noConflict_restores:
  assumes "getjQuery w j"
  shows "\<exists>j'. call_noConflict (NAME p) (register_plugin w p j) = Some (jQueryInterface p, j') \<and> fn j' = fn j"
  using assms by (simp add: call_noConflict_def register_plugin_def Let_def)

lemma noConflict_two_copies:
  assumes "getjQuery w j" "NAME q = NAME p" "jQueryInterface q \<noteq> jQueryInterface p"
  shows "\<exists>j1 j2. call_noConflict (NAME p) (register_plugin w q (register_plugin w p j)) = Some (jQueryInterface q, j1) \<and>
    call_noConflict (NAME p) j1 = Some (jQueryInterface p, j2) \<and> fn j2 = fn j"
  using assms by (simp add: call_noConflict_def register_plugin_def getjQuery_def Let_def)

lemma plugins_registered_once:
  assumes "isLoading s" "DOMContentLoadedCallbacks s = []" "loadListeners s = 0"
  shows "effects (DOMContentLoaded (register_plugin w) (fold (defineJQueryPlugin w) ps s)) =
    fold (register_plugin w) ps (effects s)"
  using callbacks_run_once[OF assms, of "register_plugin w" "[]" ps] by (simp add: defineJQueryPlugin_def)

section \<open>Calling a component by the name of a method\<close>

text \<open>What \<open>data[name]\<close> is: nothing, a field that is no function, or a method, with the argument it is called with.\<close>

datatype 's member = is_Undefined: Undefined | Uncallable | Callable "'s \<Rightarrow> js_error option \<times> 's"

text \<open>A class, for the interface: \<open>getOrCreateInstance(this, config)\<close>, and the members of the instance of an element.\<close>

record 's component_class =
  instance_for :: "jsval \<Rightarrow> node \<Rightarrow> 's \<Rightarrow> js_error option \<times> 's"
  member_of :: "node \<Rightarrow> string \<Rightarrow> jsval \<Rightarrow> 's \<Rightarrow> 's member"

type_synonym 's each = "(node \<Rightarrow> 's \<Rightarrow> js_error option \<times> 's) \<Rightarrow> node list \<Rightarrow> 's \<Rightarrow> js_error option \<times> 's"

primrec jq_each :: "'s each" where
  "jq_each f [] s = (None, s)"
| "jq_each f (n # ns) s = (case f n s of (None, s') \<Rightarrow> jq_each f ns s' | (Some e, s') \<Rightarrow> (Some e, s'))"

definition call_member :: "string \<Rightarrow> 's member \<Rightarrow> 's \<Rightarrow> js_error option \<times> 's" where
  "call_member name m s = (case m of Callable f \<Rightarrow> f s | _ \<Rightarrow> (Some (TypeError name), s))"

definition with_instance ::
    "'s component_class \<Rightarrow> jsval \<Rightarrow> (node \<Rightarrow> 's \<Rightarrow> js_error option \<times> 's) \<Rightarrow> node \<Rightarrow> 's \<Rightarrow> js_error option \<times> 's" where
  "with_instance C cfg k n s = (case instance_for C cfg n s of
      (Some e, s') \<Rightarrow> (Some e, s')
    | (None, s') \<Rightarrow> k n s')"

text \<open>The two guards: one refuses private names and the constructor, the other only what is not there.\<close>

definition strict_call :: "'s component_class \<Rightarrow> jsval \<Rightarrow> (node \<Rightarrow> jsval) \<Rightarrow> node \<Rightarrow> 's \<Rightarrow> js_error option \<times> 's" where
  "strict_call C cfg arg n s = (case cfg of
      JStr name \<Rightarrow>
        let m = member_of C n name (arg n) s in
        if is_Undefined m \<or> startsWith name ''_'' \<or> name = ''constructor'' then (Some (TypeError name), s)
        else call_member name m s
    | _ \<Rightarrow> (None, s))"

definition open_call :: "'s component_class \<Rightarrow> jsval \<Rightarrow> (node \<Rightarrow> jsval) \<Rightarrow> node \<Rightarrow> 's \<Rightarrow> js_error option \<times> 's" where
  "open_call C cfg arg n s = (case cfg of
      JStr name \<Rightarrow>
        let m = member_of C n name (arg n) s in
        if is_Undefined m then (Some (TypeError name), s) else call_member name m s
    | _ \<Rightarrow> (None, s))"

definition Alert_jQueryInterface :: "'s each \<Rightarrow> 's component_class \<Rightarrow> jsval \<Rightarrow> node list \<Rightarrow> 's \<Rightarrow> js_error option \<times> 's" where
  "Alert_jQueryInterface each C cfg = each (with_instance C (JObj []) (strict_call C cfg JNode))"

definition Button_jQueryInterface :: "'s each \<Rightarrow> 's component_class \<Rightarrow> jsval \<Rightarrow> node list \<Rightarrow> 's \<Rightarrow> js_error option \<times> 's" where
  "Button_jQueryInterface each C cfg = each (with_instance C (JObj []) (\<lambda>n s.
    if cfg = JStr ''toggle'' then call_member ''toggle'' (member_of C n ''toggle'' JUndef s) s else (None, s)))"

definition Carousel_jQueryInterface :: "'s each \<Rightarrow> 's component_class \<Rightarrow> jsval \<Rightarrow> node list \<Rightarrow> 's \<Rightarrow> js_error option \<times> 's" where
  "Carousel_jQueryInterface each C cfg = each (with_instance C cfg (\<lambda>n s. case cfg of
      JNum k \<Rightarrow> call_member ''to'' (member_of C n ''to'' cfg s) s
    | JNaN \<Rightarrow> call_member ''to'' (member_of C n ''to'' cfg s) s
    | _ \<Rightarrow> strict_call C cfg (\<lambda>_. JUndef) n s))"

definition Collapse_jQueryInterface :: "'s each \<Rightarrow> 's component_class \<Rightarrow> jsval \<Rightarrow> node list \<Rightarrow> 's \<Rightarrow> js_error option \<times> 's" where
  "Collapse_jQueryInterface each C cfg =
    (let cfg' = (case cfg of
        JStr name \<Rightarrow> if includes_str name ''show'' \<or> includes_str name ''hide'' then [(''toggle'', JBool False)] else []
      | _ \<Rightarrow> []) in
     each (with_instance C (JObj cfg') (open_call C cfg (\<lambda>_. JUndef))))"

definition Dropdown_jQueryInterface :: "'s each \<Rightarrow> 's component_class \<Rightarrow> jsval \<Rightarrow> node list \<Rightarrow> 's \<Rightarrow> js_error option \<times> 's" where
  "Dropdown_jQueryInterface each C cfg = each (with_instance C cfg (open_call C cfg (\<lambda>_. JUndef)))"

definition Modal_jQueryInterface :: "'s each \<Rightarrow> 's component_class \<Rightarrow> jsval \<Rightarrow> jsval \<Rightarrow> node list \<Rightarrow> 's \<Rightarrow> js_error option \<times> 's" where
  "Modal_jQueryInterface each C cfg relatedTarget =
    each (with_instance C cfg (open_call C cfg (\<lambda>_. relatedTarget)))"

definition Offcanvas_jQueryInterface :: "'s each \<Rightarrow> 's component_class \<Rightarrow> jsval \<Rightarrow> node list \<Rightarrow> 's \<Rightarrow> js_error option \<times> 's" where
  "Offcanvas_jQueryInterface each C cfg = each (with_instance C cfg (strict_call C cfg JNode))"

definition Tooltip_jQueryInterface :: "'s each \<Rightarrow> 's component_class \<Rightarrow> jsval \<Rightarrow> node list \<Rightarrow> 's \<Rightarrow> js_error option \<times> 's" where
  "Tooltip_jQueryInterface each C cfg = each (with_instance C cfg (open_call C cfg (\<lambda>_. JUndef)))"

definition Popover_jQueryInterface :: "'s each \<Rightarrow> 's component_class \<Rightarrow> jsval \<Rightarrow> node list \<Rightarrow> 's \<Rightarrow> js_error option \<times> 's" where
  "Popover_jQueryInterface each C cfg = each (with_instance C cfg (open_call C cfg (\<lambda>_. JUndef)))"

definition ScrollSpy_jQueryInterface :: "'s each \<Rightarrow> 's component_class \<Rightarrow> jsval \<Rightarrow> node list \<Rightarrow> 's \<Rightarrow> js_error option \<times> 's" where
  "ScrollSpy_jQueryInterface each C cfg = each (with_instance C cfg (strict_call C cfg (\<lambda>_. JUndef)))"

definition Tab_jQueryInterface :: "'s each \<Rightarrow> 's component_class \<Rightarrow> jsval \<Rightarrow> node list \<Rightarrow> 's \<Rightarrow> js_error option \<times> 's" where
  "Tab_jQueryInterface each C cfg = each (with_instance C (JObj []) (strict_call C cfg (\<lambda>_. JUndef)))"

definition Toast_jQueryInterface :: "'s each \<Rightarrow> 's component_class \<Rightarrow> jsval \<Rightarrow> node list \<Rightarrow> 's \<Rightarrow> js_error option \<times> 's" where
  "Toast_jQueryInterface each C cfg = each (with_instance C cfg (open_call C cfg JNode))"

section \<open>What a call by name does\<close>

text \<open>Where the guard is the strict one, a private name throws and has no effect but the creation of the instance.\<close>

lemma strict_refuses:
  assumes "instance_for C cfg n s = (None, s')"
  shows "with_instance C cfg (strict_call C (JStr (CHR ''_'' # name)) arg) n s = (Some (TypeError (CHR ''_'' # name)), s')"
    and "with_instance C cfg (strict_call C (JStr ''constructor'') arg) n s = (Some (TypeError ''constructor''), s')"
  using assms by (simp_all add: with_instance_def strict_call_def Let_def)

text \<open>Where it is the other one, private methods are called like public ones.\<close>

lemma open_calls:
  assumes "instance_for C cfg n s = (None, s')" and "member_of C n name (arg n) s' = Callable f"
  shows "with_instance C cfg (open_call C (JStr name) arg) n s = f s'"
  using assms by (simp add: with_instance_def open_call_def call_member_def)

text \<open>An exception at one element of the collection leaves those before it changed and those after it untouched.\<close>

lemma jq_each_append:
  "jq_each f (ms @ ns) s = (case jq_each f ms s of (None, s') \<Rightarrow> jq_each f ns s' | (Some e, s') \<Rightarrow> (Some e, s'))"
  by (induction ms arbitrary: s) (simp_all split: prod.splits option.splits)

lemma jq_each_stops:
  assumes "jq_each f ms s = (None, s')" and "f n s' = (Some e, s'')"
  shows "jq_each f (ms @ n # ns) s = (Some e, s'')"
  using assms by (simp add: jq_each_append)

lemma jq_each_fold:
  "(\<And>n s. f n s = (None, g n s)) \<Longrightarrow> jq_each f ns s = (None, fold g ns s)"
  by (induction ns arbitrary: s) simp_all

subsection \<open>Collapse and tab through jQuery\<close>

text \<open>The two classes on the model of their components; members other than the public methods named here are an argument.\<close>

definition Collapse_class ::
    "(string \<Rightarrow> jsval option) \<Rightarrow> (node \<Rightarrow> string \<Rightarrow> jsval \<Rightarrow> collapse_state \<Rightarrow> collapse_state member)
      \<Rightarrow> collapse_state component_class" where
  "Collapse_class pj other =
    \<lparr>instance_for = (\<lambda>cfg n s. case fst s n of
        Some _ \<Rightarrow> (None, s)
      | None \<Rightarrow> (case getConfig pj (snd s) Collapse_Default Collapse_DefaultType (Collapse_mergeOptions (snd s)) cfg (Some n) of
          Inl e \<Rightarrow> (Some e, s) | Inr _ \<Rightarrow> (None, Collapse_new pj n cfg s))),
     member_of = (\<lambda>n name arg s.
        if name = ''show'' then Callable (\<lambda>t. (None, Collapse_show pj n t))
        else if name = ''hide'' then Callable (\<lambda>t. (None, Collapse_hide n t))
        else if name = ''toggle'' then Callable (\<lambda>t. (None, Collapse_toggle pj n t))
        else other n name arg s)\<rparr>"

definition Tab_class ::
    "(node \<Rightarrow> string \<Rightarrow> jsval \<Rightarrow> tab_state \<Rightarrow> tab_state member) \<Rightarrow> tab_state component_class" where
  "Tab_class other =
    \<lparr>instance_for = (\<lambda>cfg n s. (None, Tab_getOrCreate n s)),
     member_of = (\<lambda>n name arg s. if name = ''show''
        then Callable (\<lambda>t. case Tab_show n t of Some t' \<Rightarrow> (None, t') | None \<Rightarrow> (Some (JsError ''RangeError''), t))
        else other n name arg s)\<rparr>"

lemma collapse_config_passes:
  "\<exists>c. getConfig pj w Collapse_Default Collapse_DefaultType (Collapse_mergeOptions w) cfg e = Inr c"
proof -
  have "well_typed w Collapse_DefaultType (Collapse_mergeOptions w c)" for c
    by (simp add: well_typed_def Collapse_DefaultType_def Collapse_mergeOptions_def lookup_update Let_def element_value_def
        type_check_simps split: option.split)
  then show ?thesis by (simp add: getConfig_def Let_def typeCheckConfig_iff[THEN iffD2])
qed

lemma lookup_spread_one [simp]: "lookup (spread a [(k, v)]) k = v"
  by (simp add: spread_def lookup_update)

lemma merge_toggle_off:
  "lookup (mergeConfigObj pj w dflt (JObj [(''toggle'', v)]) e) ''toggle'' = v"
  by (simp add: mergeConfigObj_def Let_def spread_value_def)

text \<open>\<open>show\<close> and \<open>hide\<close> by name create the missing instance without toggling it, like the data API does; so each element is
  opened or closed once.\<close>

lemma collapse_instance_untoggled:
  "instance_for (Collapse_class pj other) (JObj [(''toggle'', JBool False)]) n s = (None, getOrCreate pj n s)"
  using collapse_config_passes[of pj "snd s" "JObj [(''toggle'', JBool False)]" "Some n"]
  by (auto simp: Collapse_class_def getOrCreate_def Collapse_new_def Collapse_configAfterMerge_def Let_def merge_toggle_off
      truthy_def split: option.split)

lemma collapse_by_name:
  "Collapse_jQueryInterface jq_each (Collapse_class pj other) (JStr ''hide'') ns s =
    (None, fold (\<lambda>n t. Collapse_hide n (getOrCreate pj n t)) ns s)"
  "Collapse_jQueryInterface jq_each (Collapse_class pj other) (JStr ''show'') ns s =
    (None, fold (\<lambda>n t. Collapse_show pj n (getOrCreate pj n t)) ns s)"
proof -
  have m: "member_of (Collapse_class pj other) n ''hide'' x t = Callable (\<lambda>t. (None, Collapse_hide n t))"
    "member_of (Collapse_class pj other) n ''show'' x t = Callable (\<lambda>t. (None, Collapse_show pj n t))" for n x t
    by (simp_all add: Collapse_class_def)
  note run = Collapse_jQueryInterface_def with_instance_def collapse_instance_untoggled open_call_def call_member_def m
  show "Collapse_jQueryInterface jq_each (Collapse_class pj other) (JStr ''hide'') ns s =
      (None, fold (\<lambda>n t. Collapse_hide n (getOrCreate pj n t)) ns s)"
    "Collapse_jQueryInterface jq_each (Collapse_class pj other) (JStr ''show'') ns s =
      (None, fold (\<lambda>n t. Collapse_show pj n (getOrCreate pj n t)) ns s)"
    unfolding Collapse_jQueryInterface_def Let_def by (simp_all, (rule jq_each_fold, simp add: run)+)
qed

text \<open>\<open>show\<close> of a tab by name is the click of the data API, unless the tab is disabled, when only the click is ignored.\<close>

lemma tab_by_name:
  "Tab_jQueryInterface jq_each (Tab_class other) (JStr ''show'') [n] s =
    (case Tab_show n (Tab_getOrCreate n s) of
      Some s' \<Rightarrow> (None, s') | None \<Rightarrow> (Some (JsError ''RangeError''), Tab_getOrCreate n s))"
  "\<not> isDisabled (snd s) (Some n) \<Longrightarrow> Tab_data_api_click n s = Tab_show n (Tab_getOrCreate n s)"
  by (simp_all add: Tab_jQueryInterface_def Tab_class_def with_instance_def strict_call_def call_member_def
      Tab_data_api_click_def split: option.split)

section \<open>Shadow roots\<close>

text \<open>What a browser offers for them.\<close>

record shadow_api =
  attachShadow :: bool
  getRootNode :: "(node \<Rightarrow> node) option"
  isShadowRoot :: "node \<Rightarrow> bool"

fun findShadowRoot_from :: "nat \<Rightarrow> shadow_api \<Rightarrow> page \<Rightarrow> node \<Rightarrow> node option" where
  "findShadowRoot_from k a p n =
    (if \<not> attachShadow a then None
     else (case getRootNode a of
        Some f \<Rightarrow> if isShadowRoot a (f n) then Some (f n) else None
      | None \<Rightarrow>
          if isShadowRoot a n then Some n
          else (case parentNode (p n) of
              None \<Rightarrow> None
            | Some m \<Rightarrow> (case k of 0 \<Rightarrow> None | Suc k' \<Rightarrow> findShadowRoot_from k' a p m))))"

declare findShadowRoot_from.simps [simp del]

definition findShadowRoot :: "shadow_api \<Rightarrow> 'cb world \<Rightarrow> node \<Rightarrow> node option" where
  "findShadowRoot a w n = findShadowRoot_from (nodeCount w) a (page w) n"

text \<open>A browser without \<open>getRootNode\<close> gets the nearest shadow root above the element, the element included.\<close>

lemma findShadowRoot_walks:
  assumes "attachShadow a" "getRootNode a = None"
  shows "findShadowRoot a w n = closest (isShadowRoot a) w n"
proof -
  have "findShadowRoot_from k a p n = List.find (isShadowRoot a) (ancestry k p n)" for k p
    by (induction k p n rule: ancestry.induct)
      (simp_all add: findShadowRoot_from.simps[of _ a] assms split: option.split)
  then show ?thesis by (simp add: findShadowRoot_def closest_def inclusive_ancestors_def)
qed

lemma findShadowRoot_is_shadow:
  assumes "findShadowRoot a w n = Some r"
  shows "isShadowRoot a r"
proof -
  have on: "attachShadow a"
    using assms by (simp add: findShadowRoot_def findShadowRoot_from.simps[of _ a] split: if_splits)
  show ?thesis
  proof (cases "getRootNode a")
    case None
    then have "closest (isShadowRoot a) w n = Some r" using findShadowRoot_walks[OF on, of w n] assms by simp
    then show ?thesis by (auto simp: closest_def find_Some_iff)
  qed (use assms on in \<open>auto simp: findShadowRoot_def findShadowRoot_from.simps[of _ a] split: if_splits\<close>)
qed

end
