(* ===== verification/PopperDom.thy ===== *)
theory PopperDom
  imports BsConfig
begin

text \<open>
  What the positioning engine of \<open>bootstrap.bundle.js\<close> (Popper) reads from the page: bounding
  rectangles, offset parents, scroll parents, clipping rectangles. The layout of the browser is a
  record of functions on nodes; the tree is that of the page. Loops up the tree have the number of
  nodes as fuel. Lengths are exact. Shadow roots, slots and virtual elements are not modelled.
\<close>

section \<open>Rectangles\<close>

record rect =
  r_x :: real
  r_y :: real
  r_width :: real
  r_height :: real

record client_rect = rect +
  c_top :: real
  c_right :: real
  c_bottom :: real
  c_left :: real

definition rectToClientRect :: "rect \<Rightarrow> client_rect" where
  "rectToClientRect r = \<lparr>r_x = r_x r, r_y = r_y r, r_width = r_width r, r_height = r_height r,
    c_top = r_y r, c_right = r_x r + r_width r, c_bottom = r_y r + r_height r, c_left = r_x r\<rparr>"

definition round_js :: "real \<Rightarrow> real" where
  "round_js x = of_int \<lfloor>x + 1 / 2\<rfloor>"

definition nonzero :: "real \<Rightarrow> real" where
  "nonzero x = (if x = 0 then 1 else x)"

record layout =
  l_userAgent :: string
  l_isHTML :: "node \<Rightarrow> bool"
  l_clientRect :: "node \<Rightarrow> rect"
  l_offsetWidth :: "node \<Rightarrow> real"
  l_offsetHeight :: "node \<Rightarrow> real"
  l_offsetLeft :: "node \<Rightarrow> real"
  l_offsetTop :: "node \<Rightarrow> real"
  l_clientWidth :: "node \<Rightarrow> real"
  l_clientHeight :: "node \<Rightarrow> real"
  l_clientLeft :: "node \<Rightarrow> real"
  l_clientTop :: "node \<Rightarrow> real"
  l_scrollWidth :: "node \<Rightarrow> real"
  l_scrollHeight :: "node \<Rightarrow> real"
  l_scrollLeft :: "node \<Rightarrow> real"
  l_scrollTop :: "node \<Rightarrow> real"
  l_css :: "node \<Rightarrow> string \<Rightarrow> string"
  l_offsetParent :: "node \<Rightarrow> node option"
  l_visualViewport :: "rect option"
  l_pageXOffset :: real
  l_pageYOffset :: real
  l_devicePixelRatio :: real

section \<open>The user agent\<close>

definition occurs_at :: "string \<Rightarrow> nat \<Rightarrow> string \<Rightarrow> bool" where
  "occurs_at s i p = startsWith (drop i s) p"

definition isLayoutViewport :: "layout \<Rightarrow> bool" where
  "isLayoutViewport l = (let ua = toLowerCase (l_userAgent l) in
    \<not> list_ex (\<lambda>i. occurs_at ua i ''safari'' \<and>
      list_all (\<lambda>j. \<not> occurs_at ua j ''chrome'' \<and> \<not> occurs_at ua j ''android'') [0..<i]) [0..<length ua])"

section \<open>Rectangles of elements\<close>

definition pop_isElement :: "node \<Rightarrow> bool" where
  "pop_isElement n \<longleftrightarrow> n \<noteq> window_node \<and> n \<noteq> document_node"

definition isHTMLElement :: "layout \<Rightarrow> node \<Rightarrow> bool" where
  "isHTMLElement l n \<longleftrightarrow> pop_isElement n \<and> l_isHTML l n"

definition getNodeName :: "'cb world \<Rightarrow> node \<Rightarrow> string" where
  "getNodeName w n = (if n = document_node then ''#document'' else toLowerCase (tagName (page w n)))"

definition pop_getBoundingClientRect :: "layout \<Rightarrow> bool \<Rightarrow> bool \<Rightarrow> node \<Rightarrow> client_rect" where
  "pop_getBoundingClientRect l includeScale isFixedStrategy element =
    (let clientRect = l_clientRect l element;
         scaled = (includeScale \<and> isHTMLElement l element);
         scaleX = (if scaled \<and> l_offsetWidth l element > 0
           then nonzero (round_js (r_width clientRect) / l_offsetWidth l element) else 1);
         scaleY = (if scaled \<and> l_offsetHeight l element > 0
           then nonzero (round_js (r_height clientRect) / l_offsetHeight l element) else 1);
         addVisualOffsets = (\<not> isLayoutViewport l \<and> isFixedStrategy);
         visual = (case l_visualViewport l of Some v \<Rightarrow> if addVisualOffsets then (r_x v, r_y v) else (0, 0) | None \<Rightarrow> (0, 0));
         x = (r_x clientRect + fst visual) / scaleX;
         y = (r_y clientRect + snd visual) / scaleY in
     rectToClientRect \<lparr>r_x = x, r_y = y, r_width = r_width clientRect / scaleX, r_height = r_height clientRect / scaleY\<rparr>)"

definition getLayoutRect :: "layout \<Rightarrow> node \<Rightarrow> rect" where
  "getLayoutRect l element =
    (let clientRect = pop_getBoundingClientRect l False False element;
         width = l_offsetWidth l element; height = l_offsetHeight l element in
     \<lparr>r_x = l_offsetLeft l element, r_y = l_offsetTop l element,
      r_width = (if \<bar>r_width clientRect - width\<bar> \<le> 1 then r_width clientRect else width),
      r_height = (if \<bar>r_height clientRect - height\<bar> \<le> 1 then r_height clientRect else height)\<rparr>)"

section \<open>Up the tree\<close>

definition isTableElement :: "'cb world \<Rightarrow> node \<Rightarrow> bool" where
  "isTableElement w n \<longleftrightarrow> getNodeName w n \<in> {''table'', ''td'', ''th''}"

definition getParentNode :: "'cb world \<Rightarrow> node \<Rightarrow> node" where
  "getParentNode w n = (if getNodeName w n = ''html'' then n
    else (case parentNode (page w n) of Some m \<Rightarrow> m | None \<Rightarrow> documentElement))"

definition getTrueOffsetParent :: "layout \<Rightarrow> node \<Rightarrow> node option" where
  "getTrueOffsetParent l n = (if \<not> isHTMLElement l n \<or> l_css l n ''position'' = ''fixed'' then None else l_offsetParent l n)"

definition makes_block :: "layout \<Rightarrow> bool \<Rightarrow> node \<Rightarrow> bool" where
  "makes_block l isFirefox n \<longleftrightarrow> (let css = l_css l n in
    css ''transform'' \<noteq> ''none'' \<or> css ''perspective'' \<noteq> ''none'' \<or> css ''contain'' = ''paint'' \<or>
    css ''willChange'' \<in> {''transform'', ''perspective''} \<or> isFirefox \<and> css ''willChange'' = ''filter'' \<or>
    isFirefox \<and> css ''filter'' \<noteq> [] \<and> css ''filter'' \<noteq> ''none'')"

fun containing_block :: "nat \<Rightarrow> layout \<Rightarrow> 'cb world \<Rightarrow> bool \<Rightarrow> node option \<Rightarrow> node option" where
  "containing_block k l w isFirefox None = None"
| "containing_block 0 l w isFirefox (Some n) = None"
| "containing_block (Suc k) l w isFirefox (Some n) =
    (if isHTMLElement l n \<and> getNodeName w n \<notin> {''html'', ''body''}
     then (if makes_block l isFirefox n then Some n else containing_block k l w isFirefox (parentNode (page w n)))
     else None)"

definition getContainingBlock :: "layout \<Rightarrow> 'cb world \<Rightarrow> node \<Rightarrow> node option" where
  "getContainingBlock l w n =
    (let ua = toLowerCase (l_userAgent l) in
     if includes_str ua ''trident'' \<and> isHTMLElement l n \<and> l_css l n ''position'' = ''fixed'' then None
     else containing_block (nodeCount w) l w (includes_str ua ''firefox'') (Some (getParentNode w n)))"

fun skip_tables :: "nat \<Rightarrow> layout \<Rightarrow> 'cb world \<Rightarrow> node option \<Rightarrow> node option" where
  "skip_tables k l w None = None"
| "skip_tables 0 l w (Some n) = Some n"
| "skip_tables (Suc k) l w (Some n) = (if isTableElement w n \<and> l_css l n ''position'' = ''static''
    then skip_tables k l w (getTrueOffsetParent l n) else Some n)"

definition getOffsetParent :: "layout \<Rightarrow> 'cb world \<Rightarrow> node \<Rightarrow> node" where
  "getOffsetParent l w n = (case skip_tables (nodeCount w) l w (getTrueOffsetParent l n) of
      Some offsetParent \<Rightarrow>
        if getNodeName w offsetParent = ''html'' \<or>
          getNodeName w offsetParent = ''body'' \<and> l_css l offsetParent ''position'' = ''static''
        then window_node else offsetParent
    | None \<Rightarrow> (case getContainingBlock l w n of Some b \<Rightarrow> b | None \<Rightarrow> window_node))"

section \<open>Scrolling\<close>

definition getWindowScroll :: "layout \<Rightarrow> real \<times> real" where
  "getWindowScroll l = (l_pageXOffset l, l_pageYOffset l)"

definition getWindowScrollBarX :: "layout \<Rightarrow> real" where
  "getWindowScrollBarX l = c_left (pop_getBoundingClientRect l False False documentElement) + fst (getWindowScroll l)"

definition getViewportRect :: "layout \<Rightarrow> string \<Rightarrow> rect" where
  "getViewportRect l strategy = (case l_visualViewport l of
      None \<Rightarrow> \<lparr>r_x = getWindowScrollBarX l, r_y = 0, r_width = l_clientWidth l documentElement,
        r_height = l_clientHeight l documentElement\<rparr>
    | Some v \<Rightarrow> let shift = (isLayoutViewport l \<or> strategy = ''fixed'') in
        \<lparr>r_x = (if shift then r_x v else 0) + getWindowScrollBarX l, r_y = (if shift then r_y v else 0),
         r_width = r_width v, r_height = r_height v\<rparr>)"

definition getDocumentRect :: "layout \<Rightarrow> rect" where
  "getDocumentRect l =
    (let html = documentElement; body = document_body;
         width = max (max (l_scrollWidth l html) (l_clientWidth l html)) (max (l_scrollWidth l body) (l_clientWidth l body));
         height = max (max (l_scrollHeight l html) (l_clientHeight l html)) (max (l_scrollHeight l body) (l_clientHeight l body));
         x = - fst (getWindowScroll l) + getWindowScrollBarX l;
         y = - snd (getWindowScroll l) in
     \<lparr>r_x = (if l_css l body ''direction'' = ''rtl''
        then x + (max (l_clientWidth l html) (l_clientWidth l body) - width) else x),
      r_y = y, r_width = width, r_height = height\<rparr>)"

definition isScrollParent :: "layout \<Rightarrow> node \<Rightarrow> bool" where
  "isScrollParent l n = (let css = l_css l n ''overflow'' @ l_css l n ''overflowY'' @ l_css l n ''overflowX'' in
    list_ex (includes_str css) [''auto'', ''scroll'', ''overlay'', ''hidden''])"

fun getScrollParent :: "nat \<Rightarrow> layout \<Rightarrow> 'cb world \<Rightarrow> node \<Rightarrow> node" where
  "getScrollParent 0 l w n = document_body"
| "getScrollParent (Suc k) l w n =
    (if getNodeName w n \<in> {''html'', ''body'', ''#document''} then document_body
     else if isHTMLElement l n \<and> isScrollParent l n then n
     else getScrollParent k l w (getParentNode w n))"

datatype scroll_target = WindowTarget | VisualTarget | ElementTarget node

fun listScrollParents :: "nat \<Rightarrow> layout \<Rightarrow> 'cb world \<Rightarrow> node \<Rightarrow> scroll_target list" where
  "listScrollParents 0 l w n = []"
| "listScrollParents (Suc k) l w n =
    (let scrollParent = getScrollParent (Suc (nodeCount w)) l w n in
     if scrollParent = document_body then
       [WindowTarget] @ (if l_visualViewport l \<noteq> None then [VisualTarget] else []) @
       (if isScrollParent l scrollParent then [ElementTarget scrollParent] else [])
     else ElementTarget scrollParent # listScrollParents k l w (getParentNode w scrollParent))"

section \<open>Clipping\<close>

datatype clip = Viewport | DocumentClip | ClipElement node

datatype boundary = ClippingParents | Boundaries "clip list"

definition getInnerBoundingClientRect :: "layout \<Rightarrow> string \<Rightarrow> node \<Rightarrow> client_rect" where
  "getInnerBoundingClientRect l strategy n =
    (let rect = pop_getBoundingClientRect l False (strategy = ''fixed'') n in
     rectToClientRect \<lparr>r_x = c_left rect + l_clientLeft l n, r_y = c_top rect + l_clientTop l n,
       r_width = l_clientWidth l n, r_height = l_clientHeight l n\<rparr>)"

definition getClientRectFromMixedType :: "layout \<Rightarrow> string \<Rightarrow> clip \<Rightarrow> client_rect" where
  "getClientRectFromMixedType l strategy c = (case c of
      Viewport \<Rightarrow> rectToClientRect (getViewportRect l strategy)
    | ClipElement n \<Rightarrow> getInnerBoundingClientRect l strategy n
    | DocumentClip \<Rightarrow> rectToClientRect (getDocumentRect l))"

definition getClippingParents :: "layout \<Rightarrow> 'cb world \<Rightarrow> node \<Rightarrow> clip list" where
  "getClippingParents l w element =
    (let clippingParents = listScrollParents (Suc (nodeCount w)) l w (getParentNode w element);
         canEscapeClipping = (l_css l element ''position'' \<in> {''absolute'', ''fixed''});
         clipperElement = (if canEscapeClipping \<and> isHTMLElement l element then getOffsetParent l w element else element) in
     if \<not> pop_isElement clipperElement then []
     else [ClipElement n. ElementTarget n \<leftarrow> clippingParents,
       pop_isElement n \<and> node_contains w n clipperElement \<and> getNodeName w n \<noteq> ''body''])"

definition clip_to :: "client_rect \<Rightarrow> client_rect \<Rightarrow> client_rect" where
  "clip_to accRect rect = accRect\<lparr>c_top := max (c_top rect) (c_top accRect), c_right := min (c_right rect) (c_right accRect),
    c_bottom := min (c_bottom rect) (c_bottom accRect), c_left := max (c_left rect) (c_left accRect)\<rparr>"

definition getClippingRect :: "layout \<Rightarrow> 'cb world \<Rightarrow> node \<Rightarrow> boundary \<Rightarrow> clip \<Rightarrow> string \<Rightarrow> client_rect" where
  "getClippingRect l w element boundary rootBoundary strategy =
    (let mainClippingParents = (case boundary of ClippingParents \<Rightarrow> getClippingParents l w element | Boundaries bs \<Rightarrow> bs);
         clippingParents = mainClippingParents @ [rootBoundary];
         r = foldl (\<lambda>accRect c. clip_to accRect (getClientRectFromMixedType l strategy c))
           (getClientRectFromMixedType l strategy (hd clippingParents)) clippingParents in
     r\<lparr>r_width := c_right r - c_left r, r_height := c_bottom r - c_top r, r_x := c_left r, r_y := c_top r\<rparr>)"

section \<open>The rectangle of the reference\<close>

definition getNodeScroll :: "layout \<Rightarrow> node \<Rightarrow> real \<times> real" where
  "getNodeScroll l n = (if n = window_node \<or> \<not> isHTMLElement l n then getWindowScroll l
    else (l_scrollLeft l n, l_scrollTop l n))"

text \<open>\<open>(x / y || 1) !== 1\<close>: a quotient by zero is infinite, or \<open>NaN\<close>, which counts as 1.\<close>

definition scale_not_1 :: "real \<Rightarrow> real \<Rightarrow> bool" where
  "scale_not_1 x y \<longleftrightarrow> (if y = 0 then x \<noteq> 0 else nonzero (x / y) \<noteq> 1)"

definition isElementScaled :: "layout \<Rightarrow> node \<Rightarrow> bool" where
  "isElementScaled l n = (let rect = l_clientRect l n in
    scale_not_1 (round_js (r_width rect)) (l_offsetWidth l n) \<or> scale_not_1 (round_js (r_height rect)) (l_offsetHeight l n))"

definition getCompositeRect :: "layout \<Rightarrow> 'cb world \<Rightarrow> node \<Rightarrow> node \<Rightarrow> bool \<Rightarrow> rect" where
  "getCompositeRect l w element offsetParent isFixed =
    (let isAnElement = isHTMLElement l offsetParent;
         offsetParentIsScaled = (isAnElement \<and> isElementScaled l offsetParent);
         rect = pop_getBoundingClientRect l offsetParentIsScaled isFixed element;
         scroll = (if (isAnElement \<or> \<not> isFixed) \<and>
             (\<not> pop_isElement offsetParent \<or> getNodeName w offsetParent \<noteq> ''body'' \<or> isScrollParent l documentElement)
           then getNodeScroll l offsetParent else (0, 0));
         offsets = (if isAnElement \<or> \<not> isFixed then
             (if isAnElement then
               (let p = pop_getBoundingClientRect l True False offsetParent in
                (r_x p + l_clientLeft l offsetParent, r_y p + l_clientTop l offsetParent))
              else (getWindowScrollBarX l, 0))
           else (0, 0)) in
     \<lparr>r_x = c_left rect + fst scroll - fst offsets, r_y = c_top rect + snd scroll - snd offsets,
      r_width = r_width rect, r_height = r_height rect\<rparr>)"

section \<open>The clipping rectangle is an intersection\<close>

definition inside :: "client_rect \<Rightarrow> real \<times> real \<Rightarrow> bool" where
  "inside r p \<longleftrightarrow> c_left r \<le> fst p \<and> fst p \<le> c_right r \<and> c_top r \<le> snd p \<and> snd p \<le> c_bottom r"

lemma inside_clip_to: "inside (clip_to a r) p \<longleftrightarrow> inside a p \<and> inside r p"
  by (auto simp: inside_def clip_to_def)

lemma inside_fold: "inside (foldl (\<lambda>a c. clip_to a (f c)) a cs) p \<longleftrightarrow> inside a p \<and> (\<forall>c \<in> set cs. inside (f c) p)"
  by (induction cs arbitrary: a) (auto simp: inside_clip_to)

text \<open>
  C36: the loop that computes the clipping rectangle computes an intersection: a point is in the result exactly when it is
  in the rectangle of every clipping parent and of the root boundary, and the position and size that the result
  has are those of its sides.\<close>

theorem clipping_rect_is_intersection:
  fixes l :: layout and w :: "'cb world"
  defines "parents \<equiv> \<lambda>n bd. case bd of ClippingParents \<Rightarrow> getClippingParents l w n | Boundaries bs \<Rightarrow> bs"
  shows "inside (getClippingRect l w n bd rb strategy) p =
      (\<forall>c \<in> set (parents n bd @ [rb]). inside (getClientRectFromMixedType l strategy c) p) \<and>
    c_right (getClippingRect l w n bd rb strategy) =
      r_x (getClippingRect l w n bd rb strategy) + r_width (getClippingRect l w n bd rb strategy) \<and>
    c_bottom (getClippingRect l w n bd rb strategy) =
      r_y (getClippingRect l w n bd rb strategy) + r_height (getClippingRect l w n bd rb strategy)"
proof -
  define cs where "cs = parents n bd @ [rb]"
  define f where "f = getClientRectFromMixedType l strategy"
  define a where "a = foldl (\<lambda>a c. clip_to a (f c)) (f (hd cs)) cs"
  have r: "getClippingRect l w n bd rb strategy = a\<lparr>r_width := c_right a - c_left a, r_height := c_bottom a - c_top a, r_x := c_left a, r_y := c_top a\<rparr>"
    unfolding getClippingRect_def Let_def a_def f_def cs_def parents_def ..
  have "hd cs \<in> set cs" by (rule hd_in_set) (simp add: cs_def)
  then have "inside a p \<longleftrightarrow> (\<forall>c \<in> set cs. inside (f c) p)" by (auto simp: a_def inside_fold)
  then show ?thesis by (simp add: r cs_def f_def inside_def)
qed

section \<open>Scroll parents are the scrolling ancestors\<close>

definition scroll_stop :: "'cb world \<Rightarrow> node \<Rightarrow> bool" where
  "scroll_stop w n \<longleftrightarrow> getNodeName w n \<in> {''html'', ''body'', ''#document''}"

definition scrolls :: "layout \<Rightarrow> node \<Rightarrow> bool" where
  "scrolls l n \<longleftrightarrow> isHTMLElement l n \<and> isScrollParent l n"

definition scrolling :: "nat \<Rightarrow> layout \<Rightarrow> 'cb world \<Rightarrow> node \<Rightarrow> node list" where
  "scrolling k l w n = filter (scrolls l) (takeWhile (\<lambda>m. \<not> scroll_stop w m) (ancestry k (page w) n))"

lemma getScrollParent_step:
  "getScrollParent (Suc k) l w n = (if scroll_stop w n then document_body else if scrolls l n then n
    else getScrollParent k l w (getParentNode w n))"
  by (simp add: scroll_stop_def scrolls_def)

lemma getParentNode_inner: "\<not> scroll_stop w n \<Longrightarrow> parentNode (page w n) = Some m \<Longrightarrow> getParentNode w n = m"
  by (simp add: getParentNode_def scroll_stop_def)

lemma ancestry_up:
  assumes "\<exists>m \<in> set (ancestry k (page w) n). scroll_stop w m" and "\<not> scroll_stop w n"
  obtains j m where "k = Suc j" "parentNode (page w n) = Some m" "\<exists>x \<in> set (ancestry j (page w) m). scroll_stop w x"
    and "scrolling k l w n = (if scrolls l n then [n] else []) @ scrolling j l w m"
proof -
  obtain j where k: "k = Suc j" using assms by (cases k) auto
  obtain m where m: "parentNode (page w n) = Some m" using assms k by (cases "parentNode (page w n)") auto
  show ?thesis using assms(1,2) by (intro that[OF k m]) (auto simp: k m scrolling_def)
qed

lemma getScrollParent_first:
  assumes "\<exists>m \<in> set (ancestry k (page w) n). scroll_stop w m" and "k \<le> j"
  shows "getScrollParent (Suc j) l w n = (case scrolling k l w n of [] \<Rightarrow> document_body | m # ms \<Rightarrow> m)"
  using assms
proof (induction k arbitrary: n j)
  case 0
  then show ?case by (simp add: getScrollParent_step scrolling_def del: getScrollParent.simps)
next
  case (Suc k)
  show ?case
  proof (cases "scroll_stop w n")
    case True
    then show ?thesis by (simp add: getScrollParent_step scrolling_def del: getScrollParent.simps split: option.splits)
  next
    case False
    obtain m where m: "parentNode (page w n) = Some m" "\<exists>x \<in> set (ancestry k (page w) m). scroll_stop w x"
        "scrolling (Suc k) l w n = (if scrolls l n then [n] else []) @ scrolling k l w m"
      using ancestry_up[OF Suc.prems(1) False, of l] by blast
    obtain i where "j = Suc i" "k \<le> i" using Suc.prems(2) by (cases j) auto
    then show ?thesis using Suc.IH[OF m(2), of i] m False
      by (simp add: getScrollParent_step getParentNode_inner del: getScrollParent.simps)
  qed
qed

lemma scrolling_next:
  assumes "\<exists>m \<in> set (ancestry k (page w) n). scroll_stop w m" and "scrolling k l w n = m # ms"
  shows "\<exists>j p. j < k \<and> \<not> scroll_stop w m \<and> parentNode (page w m) = Some p \<and>
    (\<exists>x \<in> set (ancestry j (page w) p). scroll_stop w x) \<and> scrolling j l w p = ms"
  using assms
proof (induction k arbitrary: n)
  case (Suc k)
  have ns: "\<not> scroll_stop w n" using Suc.prems(2) by (auto simp: scrolling_def split: option.splits)
  obtain q where q: "parentNode (page w n) = Some q" "\<exists>x \<in> set (ancestry k (page w) q). scroll_stop w x"
      "scrolling (Suc k) l w n = (if scrolls l n then [n] else []) @ scrolling k l w q"
    using ancestry_up[OF Suc.prems(1) ns, of l] by blast
  show ?case
  proof (cases "scrolls l n")
    case True
    then show ?thesis using Suc.prems(2) q ns by (intro exI[of _ k] exI[of _ q]) auto
  next
    case False
    then have "scrolling k l w q = m # ms" using Suc.prems(2) q(3) by simp
    from Suc.IH[OF q(2) this] obtain j p where "j < k" "\<not> scroll_stop w m" "parentNode (page w m) = Some p"
        "\<exists>x \<in> set (ancestry j (page w) p). scroll_stop w x" "scrolling j l w p = ms" by blast
    then show ?thesis by (intro exI[of _ j] exI[of _ p]) auto
  qed
qed (auto simp: scrolling_def split: if_splits)

definition window_targets :: "layout \<Rightarrow> scroll_target list" where
  "window_targets l = [WindowTarget] @ (if l_visualViewport l \<noteq> None then [VisualTarget] else []) @
    (if isScrollParent l document_body then [ElementTarget document_body] else [])"

lemma listScrollParents_scrolling:
  assumes "\<exists>m \<in> set (ancestry k (page w) n). scroll_stop w m" and "k < j" and "k \<le> nodeCount w"
    and body: "scroll_stop w document_body"
  shows "listScrollParents j l w n = map ElementTarget (scrolling k l w n) @ window_targets l"
  using assms(1-3)
proof (induction k arbitrary: n j rule: less_induct)
  case (less k)
  obtain i where j: "j = Suc i" using less.prems(2) by (cases j) auto
  note first = getScrollParent_first[OF less.prems(1,3), of l]
  show ?case
  proof (cases "scrolling k l w n")
    case Nil
    then show ?thesis using first by (simp add: j window_targets_def del: getScrollParent.simps)
  next
    case (Cons m ms)
    obtain k' p where p: "k' < k" "\<not> scroll_stop w m" "parentNode (page w m) = Some p"
        "\<exists>x \<in> set (ancestry k' (page w) p). scroll_stop w x" "scrolling k' l w p = ms"
      using scrolling_next[OF less.prems(1) Cons] by blast
    have "m \<noteq> document_body" using p(2) body by auto
    moreover have "listScrollParents i l w p = map ElementTarget ms @ window_targets l"
      using less.IH[OF p(1,4), of i] p less.prems j by auto
    ultimately show ?thesis using first Cons p getParentNode_inner[OF p(2,3)]
      by (simp add: j del: getScrollParent.simps)
  qed
qed

text \<open>
  The recursive search for scroll parents finds the scrolling ancestors. For an element whose ancestors reach the
  body, the result is the list of its ancestors below the body, itself included, that are HTML
  elements with a scrolling overflow, from the inside out, followed by the window.\<close>

theorem scroll_parents_are_scrolling_ancestors:
  assumes "\<exists>m \<in> set (inclusive_ancestors w n). scroll_stop w m" and "getNodeName w document_body = ''body''"
  shows "listScrollParents (Suc (nodeCount w)) l w n =
    map ElementTarget (filter (\<lambda>m. isHTMLElement l m \<and> isScrollParent l m)
      (takeWhile (\<lambda>m. getNodeName w m \<notin> {''html'', ''body'', ''#document''}) (inclusive_ancestors w n))) @ window_targets l"
proof -
  have "scroll_stop w document_body" using assms(2) by (simp add: scroll_stop_def)
  moreover have "\<exists>m \<in> set (ancestry (nodeCount w) (page w) n). scroll_stop w m"
    using assms(1) by (simp add: inclusive_ancestors_def)
  ultimately have "listScrollParents (Suc (nodeCount w)) l w n =
      map ElementTarget (scrolling (nodeCount w) l w n) @ window_targets l"
    by (intro listScrollParents_scrolling) auto
  then show ?thesis by (simp add: scrolling_def inclusive_ancestors_def scrolls_def[abs_def] scroll_stop_def)
qed

section \<open>A layout\<close>

text \<open>A window of 1000 by 600 with everything at its origin but a reference.\<close>

definition plain_layout :: layout where
  "plain_layout = \<lparr>l_userAgent = [], l_isHTML = \<lambda>_. True,
    l_clientRect = (\<lambda>_. \<lparr>r_x = 0, r_y = 0, r_width = 0, r_height = 0\<rparr>)(4 := \<lparr>r_x = 100, r_y = 5, r_width = 40, r_height = 20\<rparr>),
    l_offsetWidth = \<lambda>_. 60, l_offsetHeight = \<lambda>_. 30, l_offsetLeft = \<lambda>_. 0, l_offsetTop = \<lambda>_. 0, l_clientWidth = \<lambda>_. 1000,
    l_clientHeight = \<lambda>_. 600, l_clientLeft = \<lambda>_. 0, l_clientTop = \<lambda>_. 0, l_scrollWidth = \<lambda>_. 1000, l_scrollHeight = \<lambda>_. 600,
    l_scrollLeft = \<lambda>_. 0, l_scrollTop = \<lambda>_. 0, l_css = \<lambda>_ _. [], l_offsetParent = \<lambda>_. None, l_visualViewport = None,
    l_pageXOffset = 0, l_pageYOffset = 0, l_devicePixelRatio = 1\<rparr>"

definition scroll_page :: page where
  "scroll_page = (\<lambda>_. \<lparr>tagName = ''DIV'', parentNode = None, childNodes = [], classList = [], attrs = [], inlineStyle = (\<lambda>_. [])\<rparr>)
    (documentElement := \<lparr>tagName = ''HTML'', parentNode = Some document_node, childNodes = [document_body], classList = [], attrs = [],
      inlineStyle = (\<lambda>_. [])\<rparr>,
     document_body := \<lparr>tagName = ''BODY'', parentNode = Some documentElement, childNodes = [4], classList = [], attrs = [],
      inlineStyle = (\<lambda>_. [])\<rparr>,
     4 := \<lparr>tagName = ''DIV'', parentNode = Some document_body, childNodes = [5], classList = [], attrs = [], inlineStyle = (\<lambda>_. [])\<rparr>,
     5 := \<lparr>tagName = ''DIV'', parentNode = Some 4, childNodes = [], classList = [], attrs = [], inlineStyle = (\<lambda>_. [])\<rparr>)"

definition scroll_world :: "unit world" where
  "scroll_world = \<lparr>page = scroll_page, nodeCount = 6, activeElement = None, eventLog = [], listeners = [], transitions = [], env = blank_browser\<rparr>"

definition scroll_layout :: layout where
  "scroll_layout = plain_layout\<lparr>l_css := \<lambda>n k. if n = 4 \<and> k = ''overflow'' then ''auto'' else []\<rparr>"

lemma scroll_ancestors: "inclusive_ancestors scroll_world 5 = [5, 4, document_body, documentElement, document_node]"
  by (simp add: inclusive_ancestors_def scroll_world_def scroll_page_def numeral_eq_Suc document_body_def documentElement_def document_node_def)

lemma scroll_names:
  "getNodeName scroll_world 5 = ''div''" "getNodeName scroll_world 4 = ''div''"
  "getNodeName scroll_world document_body = ''body''"
proof -
  have "toLowerCase ''DIV'' = ''div''" "toLowerCase ''BODY'' = ''body''" by code_simp+
  then show "getNodeName scroll_world 5 = ''div''" "getNodeName scroll_world 4 = ''div''"
    "getNodeName scroll_world document_body = ''body''"
    by (simp_all add: getNodeName_def scroll_world_def scroll_page_def document_body_def documentElement_def document_node_def)
qed

lemma scroll_parents_are_scrolling_ancestors_witness:
  "listScrollParents 7 scroll_layout scroll_world 5 = [ElementTarget 4, WindowTarget]"
proof -
  have s: "\<exists>m \<in> set (inclusive_ancestors scroll_world 5). scroll_stop scroll_world m"
    by (simp add: scroll_ancestors scroll_stop_def scroll_names)
  have n: "Suc (nodeCount scroll_world) = 7" by (simp add: scroll_world_def)
  have "isScrollParent scroll_layout 4" "\<not> isScrollParent scroll_layout 5" "\<not> isScrollParent scroll_layout document_body"
    by (simp_all add: isScrollParent_def scroll_layout_def plain_layout_def document_body_def)
  moreover have "isHTMLElement scroll_layout 4"
    by (simp add: isHTMLElement_def pop_isElement_def window_node_def document_node_def scroll_layout_def plain_layout_def)
  moreover have "l_visualViewport scroll_layout = None" by (simp add: scroll_layout_def plain_layout_def)
  ultimately show ?thesis
    using scroll_parents_are_scrolling_ancestors [OF s scroll_names(3), of scroll_layout]
    by (simp add: n scroll_ancestors scroll_names window_targets_def)
qed

lemma clipping_rect_is_intersection_witness:
  "inside (getClippingRect plain_layout scroll_world 5 (Boundaries []) Viewport '''') (10, 10) \<and>
   \<not> inside (getClippingRect plain_layout scroll_world 5 (Boundaries []) Viewport '''') (2000, 10)"
  using clipping_rect_is_intersection [of plain_layout scroll_world 5 "Boundaries []" Viewport "''''" "(10, 10)"]
    clipping_rect_is_intersection [of plain_layout scroll_world 5 "Boundaries []" Viewport "''''" "(2000, 10)"]
  by (simp add: getClientRectFromMixedType_def getViewportRect_def rectToClientRect_def inside_def plain_layout_def
      getWindowScrollBarX_def pop_getBoundingClientRect_def getWindowScroll_def documentElement_def isLayoutViewport_def Let_def)

end
