(* ===== verification/PopperPlacement.thy ===== *)
theory PopperPlacement
  imports PopperDom
begin

text \<open>
  Placements and the modifiers of the positioning engine. A placement is a base and a variation; sides
  of rectangles are the bases. The state of the engine is a record with what the modifiers keep of each
  other; options that are functions are given evaluated. \<open>state.strategy\<close>, which
  \<open>detectOverflow\<close> reads, is never set, so the strategy of clipping is always empty here too.
\<close>

section \<open>Placements\<close>

datatype side = TopSide | BottomSide | RightSide | LeftSide | AutoSide

datatype variation = Start | End

datatype placement = Placement (getBasePlacement: side) (getVariation: "variation option")

datatype axis = AxisX | AxisY

definition basePlacements :: "side list" where
  "basePlacements = [TopSide, BottomSide, RightSide, LeftSide]"

definition variationPlacements :: "placement list" where
  "variationPlacements = concat (map (\<lambda>p. [Placement p (Some Start), Placement p (Some End)]) basePlacements)"

definition placements :: "placement list" where
  "placements = concat (map (\<lambda>p. [Placement p None, Placement p (Some Start), Placement p (Some End)])
    (basePlacements @ [AutoSide]))"

fun oppositeSide :: "side \<Rightarrow> side" where
  "oppositeSide LeftSide = RightSide"
| "oppositeSide RightSide = LeftSide"
| "oppositeSide BottomSide = TopSide"
| "oppositeSide TopSide = BottomSide"
| "oppositeSide AutoSide = AutoSide"

definition getOppositePlacement :: "placement \<Rightarrow> placement" where
  "getOppositePlacement p = Placement (oppositeSide (getBasePlacement p)) (getVariation p)"

fun oppositeVariation :: "variation \<Rightarrow> variation" where
  "oppositeVariation Start = End"
| "oppositeVariation End = Start"

definition getOppositeVariationPlacement :: "placement \<Rightarrow> placement" where
  "getOppositeVariationPlacement p = Placement (getBasePlacement p) (map_option oppositeVariation (getVariation p))"

definition getExpandedFallbackPlacements :: "placement \<Rightarrow> placement list" where
  "getExpandedFallbackPlacements p = (if getBasePlacement p = AutoSide then []
    else let oppositePlacement = getOppositePlacement p in
      [getOppositeVariationPlacement p, oppositePlacement, getOppositeVariationPlacement oppositePlacement])"

definition getMainAxisFromPlacement :: "side \<Rightarrow> axis" where
  "getMainAxisFromPlacement b = (if b \<in> {TopSide, BottomSide} then AxisX else AxisY)"

definition getAltAxis :: "axis \<Rightarrow> axis" where
  "getAltAxis a = (if a = AxisX then AxisY else AxisX)"

fun sideName :: "side \<Rightarrow> string" where
  "sideName TopSide = ''top''"
| "sideName BottomSide = ''bottom''"
| "sideName RightSide = ''right''"
| "sideName LeftSide = ''left''"
| "sideName AutoSide = ''auto''"

definition placementName :: "placement \<Rightarrow> string" where
  "placementName p = sideName (getBasePlacement p) @ (case getVariation p of
    None \<Rightarrow> [] | Some Start \<Rightarrow> ''-start'' | Some End \<Rightarrow> ''-end'')"

type_synonym xy = "real \<times> real"

fun on_axis :: "axis \<Rightarrow> xy \<Rightarrow> real" where
  "on_axis AxisX v = fst v"
| "on_axis AxisY v = snd v"

fun set_axis :: "axis \<Rightarrow> real \<Rightarrow> xy \<Rightarrow> xy" where
  "set_axis AxisX x v = (x, snd v)"
| "set_axis AxisY y v = (fst v, y)"

definition rect_len :: "axis \<Rightarrow> rect \<Rightarrow> real" where
  "rect_len a r = (if a = AxisY then r_height r else r_width r)"

definition rect_pos :: "axis \<Rightarrow> rect \<Rightarrow> real" where
  "rect_pos a r = (if a = AxisY then r_y r else r_x r)"

definition pop_within :: "real \<Rightarrow> real \<Rightarrow> real \<Rightarrow> real" where
  "pop_within mn v mx = max mn (min v mx)"

definition withinMaxClamp :: "real \<Rightarrow> real \<Rightarrow> real \<Rightarrow> real" where
  "withinMaxClamp mn v mx = (let r = pop_within mn v mx in if r > mx then mx else r)"

type_synonym sides = "side \<Rightarrow> real"

datatype padding = PadNumber real | PadObject "(side \<times> real) list"

definition mergePaddingObject :: "(side \<times> real) list \<Rightarrow> sides" where
  "mergePaddingObject ps s = (case map_of ps s of Some x \<Rightarrow> x | None \<Rightarrow> 0)"

definition expandToHashMap :: "real \<Rightarrow> side list \<Rightarrow> (side \<times> real) list" where
  "expandToHashMap v keys = map (\<lambda>k. (k, v)) keys"

definition toPaddingObject :: "padding \<Rightarrow> sides" where
  "toPaddingObject p = mergePaddingObject (case p of PadObject ps \<Rightarrow> ps | PadNumber x \<Rightarrow> expandToHashMap x basePlacements)"

section \<open>State\<close>

record hide_data =
  hd_referenceClipping :: sides
  hd_popperEscape :: sides
  hd_isReferenceHidden :: bool
  hd_hasPopperEscaped :: bool

record pop_state =
  p_placement :: placement
  p_optPlacement :: placement
  p_strategy :: string
  p_rectReference :: rect
  p_rectPopper :: rect
  p_reference :: node
  p_popper :: node
  p_arrow :: "node option"
  p_offsets :: "xy option"
  p_offset :: "(placement \<Rightarrow> xy) option"
  p_prevented :: "xy option"
  p_flipped :: bool
  p_arrowData :: "(axis \<times> real \<times> real) option"
  p_hide :: "hide_data option"
  p_stylesPopper :: "(string \<times> string) list"
  p_stylesArrow :: "(string \<times> string) list"
  p_attributes :: "(string \<times> string option) list"
  p_reset :: bool

section \<open>Offsets and overflow\<close>

definition computeOffsets :: "rect \<Rightarrow> rect \<Rightarrow> placement \<Rightarrow> xy" where
  "computeOffsets reference element p =
    (let base = getBasePlacement p;
         commonX = r_x reference + r_width reference / 2 - r_width element / 2;
         commonY = r_y reference + r_height reference / 2 - r_height element / 2;
         offsets = (case base of
             TopSide \<Rightarrow> (commonX, r_y reference - r_height element)
           | BottomSide \<Rightarrow> (commonX, r_y reference + r_height reference)
           | RightSide \<Rightarrow> (r_x reference + r_width reference, commonY)
           | LeftSide \<Rightarrow> (r_x reference - r_width element, commonY)
           | AutoSide \<Rightarrow> (r_x reference, r_y reference));
         a = getMainAxisFromPlacement base;
         shift = rect_len a reference / 2 - rect_len a element / 2 in
     case getVariation p of
       Some Start \<Rightarrow> set_axis a (on_axis a offsets - shift) offsets
     | Some End \<Rightarrow> set_axis a (on_axis a offsets + shift) offsets
     | None \<Rightarrow> offsets)"

datatype element_context = PopperContext | ReferenceContext

record overflow_options =
  oo_placement :: "placement option"
  oo_boundary :: boundary
  oo_rootBoundary :: clip
  oo_elementContext :: element_context
  oo_altBoundary :: bool
  oo_padding :: padding

definition oo_default :: overflow_options where
  "oo_default = \<lparr>oo_placement = None, oo_boundary = ClippingParents, oo_rootBoundary = Viewport,
    oo_elementContext = PopperContext, oo_altBoundary = False, oo_padding = PadNumber 0\<rparr>"

definition side_of :: "client_rect \<Rightarrow> sides" where
  "side_of r s = (case s of TopSide \<Rightarrow> c_top r | BottomSide \<Rightarrow> c_bottom r | RightSide \<Rightarrow> c_right r | LeftSide \<Rightarrow> c_left r
    | AutoSide \<Rightarrow> 0)"

definition outward :: "side \<Rightarrow> real" where
  "outward s = (if s \<in> {RightSide, BottomSide} then 1 else -1)"

definition side_axis :: "side \<Rightarrow> axis" where
  "side_axis s = (if s \<in> {TopSide, BottomSide} then AxisY else AxisX)"

definition detectOverflow :: "layout \<Rightarrow> 'cb world \<Rightarrow> pop_state \<Rightarrow> overflow_options \<Rightarrow> sides" where
  "detectOverflow l w s opts =
    (let pl = (case oo_placement opts of Some q \<Rightarrow> q | None \<Rightarrow> p_placement s);
         paddingObject = toPaddingObject (oo_padding opts);
         context = (if oo_altBoundary opts
           then (if oo_elementContext opts = PopperContext then ReferenceContext else PopperContext) else oo_elementContext opts);
         element = (if context = PopperContext then p_popper s else p_reference s);
         clippingClientRect = getClippingRect l w element (oo_boundary opts) (oo_rootBoundary opts) '''';
         referenceClientRect = pop_getBoundingClientRect l False False (p_reference s);
         offs = computeOffsets (rect.truncate referenceClientRect) (p_rectPopper s) pl;
         popperClientRect = rectToClientRect ((p_rectPopper s)\<lparr>r_x := fst offs, r_y := snd offs\<rparr>);
         elementClientRect = (if oo_elementContext opts = PopperContext then popperClientRect else referenceClientRect) in
     (\<lambda>k. outward k * (side_of elementClientRect k - side_of clippingClientRect k) + paddingObject k +
       (case p_offset s of
          Some offsetData \<Rightarrow> if oo_elementContext opts = PopperContext
            then on_axis (side_axis k) (offsetData pl) * outward k else 0
        | None \<Rightarrow> 0)))"

section \<open>Automatic placement and flip\<close>

definition computeAutoPlacement ::
    "layout \<Rightarrow> 'cb world \<Rightarrow> pop_state \<Rightarrow> overflow_options \<Rightarrow> placement \<Rightarrow> bool \<Rightarrow> placement list \<Rightarrow> placement list" where
  "computeAutoPlacement l w s opts pl flipVariations allowedAutoPlacements =
    (let candidates = (case getVariation pl of
           Some v \<Rightarrow> if flipVariations then variationPlacements
             else filter (\<lambda>q. getVariation q = Some v) variationPlacements
         | None \<Rightarrow> map (\<lambda>b. Placement b None) basePlacements);
         filtered = filter (\<lambda>q. q \<in> set allowedAutoPlacements) candidates;
         allowedPlacements = (if filtered = [] then candidates else filtered) in
     sort_key (\<lambda>q. detectOverflow l w s (opts\<lparr>oo_placement := Some q, oo_altBoundary := False\<rparr>) (getBasePlacement q))
       allowedPlacements)"

record flip_options =
  fo_mainAxis :: bool
  fo_altAxis :: bool
  fo_fallbackPlacements :: "placement list option"
  fo_overflow :: overflow_options
  fo_flipVariations :: bool
  fo_allowedAutoPlacements :: "placement list"

definition flip_candidates :: "layout \<Rightarrow> 'cb world \<Rightarrow> pop_state \<Rightarrow> flip_options \<Rightarrow> placement list" where
  "flip_candidates l w s opts =
    (let preferredPlacement = p_optPlacement s;
         isBasePlacement = (getVariation preferredPlacement = None);
         fallbackPlacements = (case fo_fallbackPlacements opts of Some fs \<Rightarrow> fs
           | None \<Rightarrow> if isBasePlacement \<or> \<not> fo_flipVariations opts then [getOppositePlacement preferredPlacement]
               else getExpandedFallbackPlacements preferredPlacement) in
     concat (map (\<lambda>pl. if getBasePlacement pl = AutoSide
         then computeAutoPlacement l w s (fo_overflow opts) pl (fo_flipVariations opts) (fo_allowedAutoPlacements opts)
         else [pl]) (preferredPlacement # fallbackPlacements)))"

definition flip_checks :: "layout \<Rightarrow> 'cb world \<Rightarrow> pop_state \<Rightarrow> flip_options \<Rightarrow> placement \<Rightarrow> bool list" where
  "flip_checks l w s opts pl =
    (let base = getBasePlacement pl;
         isStartVariation = (getVariation pl = Some Start);
         isVertical = (base \<in> {TopSide, BottomSide});
         len = (if isVertical then AxisX else AxisY);
         overflow = detectOverflow l w s ((fo_overflow opts)\<lparr>oo_placement := Some pl\<rparr>);
         side0 = (if isVertical then (if isStartVariation then RightSide else LeftSide)
           else (if isStartVariation then BottomSide else TopSide));
         mainVariationSide = (if rect_len len (p_rectReference s) > rect_len len (p_rectPopper s)
           then oppositeSide side0 else side0);
         altVariationSide = oppositeSide mainVariationSide in
     (if fo_mainAxis opts then [overflow base \<le> 0] else []) @
     (if fo_altAxis opts then [overflow mainVariationSide \<le> 0, overflow altVariationSide \<le> 0] else []))"

fun fallback_search :: "nat \<Rightarrow> (placement \<Rightarrow> bool list) \<Rightarrow> placement list \<Rightarrow> placement option" where
  "fallback_search 0 checks ps = None"
| "fallback_search (Suc i) checks ps = (case List.find (\<lambda>q. list_all (\<lambda>b. b) (take (Suc i) (checks q))) ps of
      Some q \<Rightarrow> Some q | None \<Rightarrow> fallback_search i checks ps)"

definition flip_choice :: "(placement \<Rightarrow> bool list) \<Rightarrow> bool \<Rightarrow> placement list \<Rightarrow> placement" where
  "flip_choice checks flipVariations ps = (case List.find (\<lambda>q. list_all (\<lambda>b. b) (checks q)) ps of
      Some q \<Rightarrow> q
    | None \<Rightarrow> (case fallback_search (if flipVariations then 3 else 1) checks ps of Some q \<Rightarrow> q | None \<Rightarrow> hd ps))"

definition pop_flip :: "layout \<Rightarrow> 'cb world \<Rightarrow> flip_options \<Rightarrow> pop_state \<Rightarrow> pop_state" where
  "pop_flip l w opts s =
    (if p_flipped s then s
     else let firstFittingPlacement = flip_choice (flip_checks l w s opts) (fo_flipVariations opts) (flip_candidates l w s opts) in
       if p_placement s \<noteq> firstFittingPlacement
       then s\<lparr>p_flipped := True, p_placement := firstFittingPlacement, p_reset := True\<rparr> else s)"

section \<open>Hide, offset, popperOffsets\<close>

definition getSideOffsets :: "sides \<Rightarrow> rect \<Rightarrow> xy \<Rightarrow> sides" where
  "getSideOffsets overflow r preventedOffsets s = (case s of
      TopSide \<Rightarrow> overflow TopSide - r_height r - snd preventedOffsets
    | RightSide \<Rightarrow> overflow RightSide - r_width r + fst preventedOffsets
    | BottomSide \<Rightarrow> overflow BottomSide - r_height r + snd preventedOffsets
    | LeftSide \<Rightarrow> overflow LeftSide - r_width r - fst preventedOffsets
    | AutoSide \<Rightarrow> 0)"

definition isAnySideFullyClipped :: "sides \<Rightarrow> bool" where
  "isAnySideFullyClipped overflow = list_ex (\<lambda>s. overflow s \<ge> 0) [TopSide, RightSide, BottomSide, LeftSide]"

definition boolAttr :: "bool \<Rightarrow> string option" where
  "boolAttr b = (if b then Some [] else None)"

definition pop_hide :: "layout \<Rightarrow> 'cb world \<Rightarrow> pop_state \<Rightarrow> pop_state" where
  "pop_hide l w s =
    (let preventedOffsets = (case p_prevented s of Some v \<Rightarrow> v | None \<Rightarrow> (0, 0));
         referenceOverflow = detectOverflow l w s (oo_default\<lparr>oo_elementContext := ReferenceContext\<rparr>);
         popperAltOverflow = detectOverflow l w s (oo_default\<lparr>oo_altBoundary := True\<rparr>);
         referenceClippingOffsets = getSideOffsets referenceOverflow (p_rectReference s) (0, 0);
         popperEscapeOffsets = getSideOffsets popperAltOverflow (p_rectPopper s) preventedOffsets;
         isReferenceHidden = isAnySideFullyClipped referenceClippingOffsets;
         hasPopperEscaped = isAnySideFullyClipped popperEscapeOffsets in
     s\<lparr>p_hide := Some \<lparr>hd_referenceClipping = referenceClippingOffsets, hd_popperEscape = popperEscapeOffsets,
         hd_isReferenceHidden = isReferenceHidden, hd_hasPopperEscaped = hasPopperEscaped\<rparr>,
       p_attributes := AList.update ''data-popper-escaped'' (boolAttr hasPopperEscaped)
         (AList.update ''data-popper-reference-hidden'' (boolAttr isReferenceHidden) (p_attributes s))\<rparr>)"

definition distanceAndSkiddingToXY :: "placement \<Rightarrow> xy \<Rightarrow> xy" where
  "distanceAndSkiddingToXY pl offset =
    (let base = getBasePlacement pl;
         invertDistance = (if base \<in> {LeftSide, TopSide} then -1 else 1);
         skidding = fst offset; distance = snd offset * invertDistance in
     if base \<in> {LeftSide, RightSide} then (distance, skidding) else (skidding, distance))"

definition pop_offset :: "xy \<Rightarrow> pop_state \<Rightarrow> pop_state" where
  "pop_offset offset s =
    (let data = (\<lambda>pl. distanceAndSkiddingToXY pl offset);
         (x, y) = data (p_placement s) in
     s\<lparr>p_offsets := map_option (\<lambda>(a, b). (a + x, b + y)) (p_offsets s), p_offset := Some data\<rparr>)"

definition pop_popperOffsets :: "pop_state \<Rightarrow> pop_state" where
  "pop_popperOffsets s = s\<lparr>p_offsets := Some (computeOffsets (p_rectReference s) (p_rectPopper s) (p_placement s))\<rparr>"

section \<open>Beside the reference\<close>

definition beside :: "side \<Rightarrow> client_rect \<Rightarrow> client_rect \<Rightarrow> bool" where
  "beside b R P \<longleftrightarrow> (case b of TopSide \<Rightarrow> c_bottom P = c_top R | BottomSide \<Rightarrow> c_top P = c_bottom R
    | RightSide \<Rightarrow> c_left P = c_right R | LeftSide \<Rightarrow> c_right P = c_left R | AutoSide \<Rightarrow> True)"

definition aligned :: "variation option \<Rightarrow> axis \<Rightarrow> client_rect \<Rightarrow> client_rect \<Rightarrow> bool" where
  "aligned v a R P \<longleftrightarrow> (case v of
      Some Start \<Rightarrow> (if a = AxisX then c_left P = c_left R else c_top P = c_top R)
    | Some End \<Rightarrow> (if a = AxisX then c_right P = c_right R else c_bottom P = c_bottom R)
    | None \<Rightarrow> (if a = AxisX then c_left P + c_right P = c_left R + c_right R else c_top P + c_bottom P = c_top R + c_bottom R))"

text \<open>
  What a placement means. The popper at the computed offsets keeps its size and touches the reference on the side of the
  placement; along the other axis its start or its end is flush with that of the reference, or
  without a variation the centres agree.\<close>

theorem placement_beside_reference:
  fixes reference element :: rect
  assumes "getBasePlacement p \<noteq> AutoSide"
  defines "offs \<equiv> computeOffsets reference element p"
  defines "P \<equiv> rectToClientRect (element\<lparr>r_x := fst offs, r_y := snd offs\<rparr>)" and "R \<equiv> rectToClientRect reference"
  shows "beside (getBasePlacement p) R P \<and>
    aligned (getVariation p) (getMainAxisFromPlacement (getBasePlacement p)) R P \<and>
    c_right P - c_left P = r_width element \<and> c_bottom P - c_top P = r_height element"
  using assms(1) unfolding P_def R_def offs_def
  by (cases p; cases "getBasePlacement p"; cases "getVariation p"; (cases "the (getVariation p)")?)
    (auto simp: computeOffsets_def rectToClientRect_def beside_def aligned_def getMainAxisFromPlacement_def rect_len_def
      Let_def field_simps)

lemma placement_beside_reference_witness:
  "fst (computeOffsets \<lparr>r_x = 100, r_y = 50, r_width = 40, r_height = 20\<rparr> \<lparr>r_x = 0, r_y = 0, r_width = 60, r_height = 30\<rparr>
     (Placement TopSide (Some Start))) = 100 \<and>
   snd (computeOffsets \<lparr>r_x = 100, r_y = 50, r_width = 40, r_height = 20\<rparr> \<lparr>r_x = 0, r_y = 0, r_width = 60, r_height = 30\<rparr>
     (Placement TopSide (Some Start))) + 30 = 50"
  using placement_beside_reference [of "Placement TopSide (Some Start)" "\<lparr>r_x = 100, r_y = 50, r_width = 40, r_height = 20\<rparr>"
      "\<lparr>r_x = 0, r_y = 0, r_width = 60, r_height = 30\<rparr>"]
  by (simp add: beside_def aligned_def rectToClientRect_def getMainAxisFromPlacement_def)

section \<open>The choice of flip\<close>

lemma find_first: "List.find P xs = Some q \<Longrightarrow> \<exists>pre post. xs = pre @ q # post \<and> P q \<and> (\<forall>x \<in> set pre. \<not> P x)"
proof (induction xs)
  case (Cons x xs)
  show ?case
  proof (cases "P x")
    case True
    then show ?thesis using Cons.prems by (intro exI[of _ "[]"] exI[of _ xs]) auto
  next
    case False
    then obtain pre post where "xs = pre @ q # post \<and> P q \<and> (\<forall>x \<in> set pre. \<not> P x)" using Cons by auto
    then show ?thesis using False by (intro exI[of _ "x # pre"] exI[of _ post]) auto
  qed
qed simp

lemma fallback_search_mem: "fallback_search k checks ps = Some q \<Longrightarrow> q \<in> set ps"
  by (induction k) (auto split: option.splits dest: find_first)

lemma flip_choice_fits:
  assumes "q \<in> set ps" and "list_all (\<lambda>b. b) (checks q)"
  obtains pre post where "ps = pre @ flip_choice checks f ps # post" and "list_all (\<lambda>b. b) (checks (flip_choice checks f ps))"
    and "\<forall>x \<in> set pre. \<not> list_all (\<lambda>b. b) (checks x)"
proof -
  obtain c where c: "List.find (\<lambda>q. list_all (\<lambda>b. b) (checks q)) ps = Some c"
    using assms by (cases "List.find (\<lambda>q. list_all (\<lambda>b. b) (checks q)) ps") (auto simp: find_None_iff)
  moreover have "flip_choice checks f ps = c" by (simp add: flip_choice_def c)
  ultimately show ?thesis using find_first[OF c] that by blast
qed

text \<open>
  C37: flip finds a placement that fits if one of its candidates does. The placement it ends with is the first candidate,
  the preferred one being the first of all, at which the popper overflows neither the side of the
  placement nor the two sides across; if that is the current placement it changes nothing, otherwise it asks for another
  round and never flips again in this update.\<close>

theorem flip_finds_fit:
  assumes "\<not> p_flipped s" and o: "fo_mainAxis opts" "fo_altAxis opts"
    and q: "q \<in> set (flip_candidates l w s opts)" "list_all (\<lambda>b. b) (flip_checks l w s opts q)"
  defines "s' \<equiv> pop_flip l w opts s"
  defines "overflow \<equiv> detectOverflow l w s ((fo_overflow opts)\<lparr>oo_placement := Some (p_placement s')\<rparr>)"
  shows "overflow (getBasePlacement (p_placement s')) \<le> 0 \<and>
    (if getBasePlacement (p_placement s') \<in> {TopSide, BottomSide} then overflow LeftSide \<le> 0 \<and> overflow RightSide \<le> 0
     else overflow TopSide \<le> 0 \<and> overflow BottomSide \<le> 0) \<and>
    (\<exists>pre post. flip_candidates l w s opts = pre @ p_placement s' # post \<and>
      (\<forall>x \<in> set pre. \<not> list_all (\<lambda>b. b) (flip_checks l w s opts x))) \<and>
    (p_placement s' = p_placement s \<and> s' = s \<or> p_placement s' \<noteq> p_placement s \<and> p_reset s' \<and> p_flipped s' \<and>
      pop_flip l w opts s' = s')"
proof -
  define c where "c = flip_choice (flip_checks l w s opts) (fo_flipVariations opts) (flip_candidates l w s opts)"
  obtain pre post where c': "flip_candidates l w s opts = pre @ c # post" "list_all (\<lambda>b. b) (flip_checks l w s opts c)"
      "\<forall>x \<in> set pre. \<not> list_all (\<lambda>b. b) (flip_checks l w s opts x)"
    using flip_choice_fits[where checks = "flip_checks l w s opts" and ps = "flip_candidates l w s opts"
        and f = "fo_flipVariations opts", OF q] unfolding c_def by blast
  have s': "s' = (if p_placement s \<noteq> c then s\<lparr>p_flipped := True, p_placement := c, p_reset := True\<rparr> else s)"
    using assms(1) by (simp add: s'_def pop_flip_def c_def[symmetric] Let_def)
  then have pl: "p_placement s' = c" by (auto split: if_splits)
  have "overflow (getBasePlacement c) \<le> 0 \<and> (if getBasePlacement c \<in> {TopSide, BottomSide}
      then overflow LeftSide \<le> 0 \<and> overflow RightSide \<le> 0 else overflow TopSide \<le> 0 \<and> overflow BottomSide \<le> 0)"
    using c'(2) o unfolding overflow_def pl by (auto simp: flip_checks_def Let_def split: if_splits)
  moreover have "p_placement s' = p_placement s \<and> s' = s \<or> p_placement s' \<noteq> p_placement s \<and> p_reset s' \<and> p_flipped s' \<and>
      pop_flip l w opts s' = s'" by (auto simp: s' pop_flip_def)
  ultimately show ?thesis using c'(1,3) by (auto simp: pl)
qed

definition flip_state :: pop_state where
  "flip_state = \<lparr>p_placement = Placement TopSide None, p_optPlacement = Placement TopSide None, p_strategy = ''absolute'',
    p_rectReference = \<lparr>r_x = 100, r_y = 5, r_width = 40, r_height = 20\<rparr>, p_rectPopper = \<lparr>r_x = 0, r_y = 0, r_width = 60, r_height = 30\<rparr>,
    p_reference = 4, p_popper = 5, p_arrow = None, p_offsets = None, p_offset = None, p_prevented = None, p_flipped = False,
    p_arrowData = None, p_hide = None, p_stylesPopper = [], p_stylesArrow = [], p_attributes = [], p_reset = False\<rparr>"

definition flip_defaults :: flip_options where
  "flip_defaults = \<lparr>fo_mainAxis = True, fo_altAxis = True, fo_fallbackPlacements = None,
    fo_overflow = oo_default\<lparr>oo_boundary := Boundaries []\<rparr>, fo_flipVariations = True, fo_allowedAutoPlacements = placements\<rparr>"

text \<open>A reference at the upper edge of the window: the popper does not fit above it.\<close>

lemma flip_finds_fit_witness:
  "\<not> list_all (\<lambda>b. b) (flip_checks plain_layout scroll_world flip_state flip_defaults (Placement TopSide None)) \<and>
   (\<exists>pre post. flip_candidates plain_layout scroll_world flip_state flip_defaults =
     pre @ p_placement (pop_flip plain_layout scroll_world flip_defaults flip_state) # post)"
proof -
  have c: "flip_candidates plain_layout scroll_world flip_state flip_defaults = [Placement TopSide None, Placement BottomSide None]"
    by (simp add: flip_candidates_def flip_state_def flip_defaults_def getOppositePlacement_def)
  note d = flip_checks_def detectOverflow_def getClippingRect_def getClientRectFromMixedType_def getViewportRect_def
    rectToClientRect_def plain_layout_def getWindowScrollBarX_def pop_getBoundingClientRect_def getWindowScroll_def
    documentElement_def isLayoutViewport_def flip_state_def flip_defaults_def oo_default_def computeOffsets_def
    rect.truncate_def clip_to_def side_of_def outward_def toPaddingObject_def mergePaddingObject_def expandToHashMap_def
    basePlacements_def rect_len_def
  have fits: "list_all (\<lambda>b. b) (flip_checks plain_layout scroll_world flip_state flip_defaults (Placement BottomSide None))"
    and top: "\<not> list_all (\<lambda>b. b) (flip_checks plain_layout scroll_world flip_state flip_defaults (Placement TopSide None))"
    by (simp_all add: d Let_def)
  have "\<not> p_flipped flip_state" "fo_mainAxis flip_defaults" "fo_altAxis flip_defaults"
    "Placement BottomSide None \<in> set (flip_candidates plain_layout scroll_world flip_state flip_defaults)"
    by (simp_all add: c) (simp_all add: flip_state_def flip_defaults_def)
  from flip_finds_fit [OF this fits] top show ?thesis by blast
qed

end
