(* ===== verification/PopperModifiers.thy ===== *)
theory PopperModifiers
  imports PopperPlacement
begin

text \<open>
  The modifiers of the positioning engine that keep the popper in view, place its arrow, and turn the
  result into styles and attributes of the page. Persistent data of the arrow are never set by
  this version of the engine, so the padding \<open>preventOverflow\<close> reads from them is zero.
\<close>

section \<open>Arrow\<close>

text \<open>\<open>element.clientWidth || 0\<close> of an offset parent, which is undefined on the window.\<close>

definition parent_client :: "(node \<Rightarrow> real) \<Rightarrow> node \<Rightarrow> real" where
  "parent_client f n = (if n = window_node then 0 else f n)"

definition pop_arrow :: "layout \<Rightarrow> 'cb world \<Rightarrow> padding \<Rightarrow> pop_state \<Rightarrow> pop_state" where
  "pop_arrow l w pad s =
    (let base = getBasePlacement (p_placement s);
         a = getMainAxisFromPlacement base;
         len = (if base \<in> {LeftSide, RightSide} then AxisY else AxisX) in
     case (p_arrow s, p_offsets s) of
       (Some arrowElement, Some popperOffsets) \<Rightarrow>
         let paddingObject = toPaddingObject pad;
             arrowRect = getLayoutRect l arrowElement;
             minProp = (if a = AxisY then TopSide else LeftSide);
             maxProp = (if a = AxisY then BottomSide else RightSide);
             endDiff = rect_len len (p_rectReference s) + rect_pos a (p_rectReference s) - on_axis a popperOffsets -
               rect_len len (p_rectPopper s);
             startDiff = on_axis a popperOffsets - rect_pos a (p_rectReference s);
             arrowOffsetParent = getOffsetParent l w arrowElement;
             clientSize = parent_client (if a = AxisY then l_clientHeight l else l_clientWidth l) arrowOffsetParent;
             centerToReference = endDiff / 2 - startDiff / 2;
             mn = paddingObject minProp;
             mx = clientSize - rect_len len arrowRect - paddingObject maxProp;
             center = clientSize / 2 - rect_len len arrowRect / 2 + centerToReference;
             offset = pop_within mn center mx in
         s\<lparr>p_arrowData := Some (a, offset, offset - center)\<rparr>
     | _ \<Rightarrow> s)"

datatype arrow_option = ArrowDefault | ArrowNull | ArrowSelector string | ArrowElement node

definition arrow_effect :: "'cb world \<Rightarrow> arrow_option \<Rightarrow> pop_state \<Rightarrow> pop_state" where
  "arrow_effect w opt s =
    (let search = (\<lambda>sel. case querySelectorAll (env w) (page w) (p_popper s) sel of [] \<Rightarrow> None | n # _ \<Rightarrow> Some n);
         arrowElement = (case opt of ArrowDefault \<Rightarrow> search ''[data-popper-arrow]'' | ArrowNull \<Rightarrow> None
           | ArrowSelector sel \<Rightarrow> search sel | ArrowElement n \<Rightarrow> Some n) in
     case arrowElement of
       None \<Rightarrow> s
     | Some n \<Rightarrow> if node_contains w (p_popper s) n then s\<lparr>p_arrow := Some n\<rparr> else s)"

section \<open>Prevent overflow\<close>

record prevent_options =
  po_mainAxis :: bool
  po_altAxis :: bool
  po_overflow :: overflow_options
  po_tether :: bool
  po_tetherOffset :: "real \<times> real"

definition main_side :: "axis \<Rightarrow> side" where
  "main_side a = (if a = AxisY then TopSide else LeftSide)"

definition alt_side :: "axis \<Rightarrow> side" where
  "alt_side a = (if a = AxisY then BottomSide else RightSide)"

definition prevent_main :: "layout \<Rightarrow> 'cb world \<Rightarrow> prevent_options \<Rightarrow> pop_state \<Rightarrow> sides \<Rightarrow> xy \<Rightarrow> real" where
  "prevent_main l w opts s overflow popperOffsets =
    (let v = getVariation (p_placement s);
         a = getMainAxisFromPlacement (getBasePlacement (p_placement s));
         ref = rect_len a (p_rectReference s); pop = rect_len a (p_rectPopper s);
         tether = po_tether opts;
         offset = on_axis a popperOffsets;
         mn = offset + overflow (main_side a);
         mx = offset - overflow (alt_side a);
         additive = (if tether then - pop / 2 else 0);
         minLen = (if v = Some Start then ref else pop);
         maxLen = (if v = Some Start then - pop else - ref);
         arrowRectLen = (case p_arrow s of Some n \<Rightarrow> if tether then rect_len a (getLayoutRect l n) else 0 | None \<Rightarrow> 0);
         arrowLen = pop_within 0 ref arrowRectLen;
         minOffset = (if v = None then ref / 2 - additive - arrowLen - fst (po_tetherOffset opts)
           else minLen - arrowLen - fst (po_tetherOffset opts));
         maxOffset = (if v = None then - ref / 2 + additive + arrowLen + fst (po_tetherOffset opts)
           else maxLen + arrowLen + fst (po_tetherOffset opts));
         clientOffset = (case p_arrow s of
             Some n \<Rightarrow> parent_client (if a = AxisY then l_clientTop l else l_clientLeft l) (getOffsetParent l w n) | None \<Rightarrow> 0);
         offsetModifierValue = (case p_offset s of Some d \<Rightarrow> on_axis a (d (p_placement s)) | None \<Rightarrow> 0);
         tetherMin = offset + minOffset - offsetModifierValue - clientOffset;
         tetherMax = offset + maxOffset - offsetModifierValue in
     pop_within (if tether then min mn tetherMin else mn) offset (if tether then max mx tetherMax else mx))"

definition prevent_alt :: "prevent_options \<Rightarrow> pop_state \<Rightarrow> sides \<Rightarrow> xy \<Rightarrow> real" where
  "prevent_alt opts s overflow popperOffsets =
    (let base = getBasePlacement (p_placement s);
         a = getAltAxis (getMainAxisFromPlacement base);
         ref = rect_len a (p_rectReference s); pop = rect_len a (p_rectPopper s);
         tether = po_tether opts;
         offset = on_axis a popperOffsets;
         mn = offset + overflow (main_side a);
         mx = offset - overflow (alt_side a);
         isOriginSide = (base \<in> {TopSide, LeftSide});
         offsetModifierValue = (case p_offset s of Some d \<Rightarrow> on_axis a (d (p_placement s)) | None \<Rightarrow> 0);
         tetherMin = (if isOriginSide then mn else offset - ref - pop - offsetModifierValue + snd (po_tetherOffset opts));
         tetherMax = (if isOriginSide then offset + ref + pop - offsetModifierValue - snd (po_tetherOffset opts) else mx) in
     if tether \<and> isOriginSide then withinMaxClamp tetherMin offset tetherMax
     else pop_within (if tether then tetherMin else mn) offset (if tether then tetherMax else mx))"

definition pop_preventOverflow :: "layout \<Rightarrow> 'cb world \<Rightarrow> prevent_options \<Rightarrow> pop_state \<Rightarrow> pop_state" where
  "pop_preventOverflow l w opts s =
    (let overflow = detectOverflow l w s (po_overflow opts);
         mainAxis = getMainAxisFromPlacement (getBasePlacement (p_placement s));
         altAxis = getAltAxis mainAxis in
     case p_offsets s of
       None \<Rightarrow> s
     | Some offs \<Rightarrow>
         let (offs1, data1) = (if po_mainAxis opts then
               (let v = prevent_main l w opts s overflow offs in
                (set_axis mainAxis v offs, set_axis mainAxis (v - on_axis mainAxis offs) (0, 0)))
             else (offs, (0, 0)));
             (offs2, data2) = (if po_altAxis opts then
               (let v = prevent_alt opts s overflow offs1 in
                (set_axis altAxis v offs1, set_axis altAxis (v - on_axis altAxis offs1) data1))
             else (offs1, data1)) in
         s\<lparr>p_offsets := Some offs2, p_prevented := Some data2\<rparr>)"

section \<open>Styles\<close>

record style_options =
  so_gpuAcceleration :: bool
  so_adaptive :: bool
  so_roundOffsets :: bool

definition dpr :: "layout \<Rightarrow> real" where
  "dpr l = nonzero (l_devicePixelRatio l)"

definition roundOffsetsByDPR :: "layout \<Rightarrow> xy \<Rightarrow> xy" where
  "roundOffsetsByDPR l v = (round_js (fst v * dpr l) / dpr l, round_js (snd v * dpr l) / dpr l)"

definition px :: "real \<Rightarrow> string" where
  "px x = numStr x @ ''px''"

definition unsetSides :: "(string \<times> string) list" where
  "unsetSides = [(''top'', ''auto''), (''right'', ''auto''), (''bottom'', ''auto''), (''left'', ''auto'')]"

definition assign_styles :: "(string \<times> string) list \<Rightarrow> (string \<times> string) list \<Rightarrow> (string \<times> string) list" where
  "assign_styles a b = foldl (\<lambda>obj (k, v). AList.update k v obj) a b"

definition mapToStyles ::
    "layout \<Rightarrow> 'cb world \<Rightarrow> style_options \<Rightarrow> node \<Rightarrow> rect \<Rightarrow> placement \<Rightarrow> real option \<Rightarrow> real option \<Rightarrow> string
      \<Rightarrow> (string \<times> string) list" where
  "mapToStyles l w opts popper popperRect pl ox oy position =
    (let base = getBasePlacement pl; isEnd = (getVariation pl = Some End);
         x = (case ox of Some v \<Rightarrow> v | None \<Rightarrow> 0); y = (case oy of Some v \<Rightarrow> v | None \<Rightarrow> 0);
         gpu = so_gpuAcceleration opts; sgn' = (if gpu then 1 else -1);
         offsetParent = getOffsetParent l w popper;
         full = (offsetParent = window_node \<and> l_css l documentElement ''position'' \<noteq> ''static'' \<and> position = ''absolute'');
         holder = (if offsetParent = window_node then documentElement else offsetParent);
         height = (if full then l_scrollHeight l holder else l_clientHeight l holder);
         width = (if full then l_scrollWidth l holder else l_clientWidth l holder);
         flipY = (so_adaptive opts \<and> (base = TopSide \<or> base \<in> {LeftSide, RightSide} \<and> isEnd));
         flipX = (so_adaptive opts \<and> (base = LeftSide \<or> base \<in> {TopSide, BottomSide} \<and> isEnd));
         sideY = (if flipY then ''bottom'' else ''top'');
         sideX = (if flipX then ''right'' else ''left'');
         y1 = (if flipY then (y - (height - r_height popperRect)) * sgn' else y);
         x1 = (if flipX then (x - (width - r_width popperRect)) * sgn' else x);
         commonStyles = assign_styles [(''position'', position)] (if so_adaptive opts then unsetSides else []);
         (x2, y2) = (if so_roundOffsets opts then roundOffsetsByDPR l (x1, y1) else (x1, y1)) in
     assign_styles commonStyles
       (if gpu then
          [(sideY, if oy \<noteq> None then ''0'' else []), (sideX, if ox \<noteq> None then ''0'' else []),
           (''transform'', if dpr l \<le> 1 then ''translate('' @ px x2 @ '', '' @ px y2 @ '')''
             else ''translate3d('' @ px x2 @ '', '' @ px y2 @ '', 0)'')]
        else
          [(sideY, if oy \<noteq> None then px y2 else []), (sideX, if ox \<noteq> None then px x2 else []), (''transform'', [])]))"

definition computeStyles :: "layout \<Rightarrow> 'cb world \<Rightarrow> style_options \<Rightarrow> pop_state \<Rightarrow> pop_state" where
  "computeStyles l w opts s =
    (let s1 = (case p_offsets s of
           Some (x, y) \<Rightarrow> s\<lparr>p_stylesPopper := assign_styles (p_stylesPopper s)
             (mapToStyles l w opts (p_popper s) (p_rectPopper s) (p_placement s) (Some x) (Some y) (p_strategy s))\<rparr>
         | None \<Rightarrow> s);
         s2 = (case p_arrowData s1 of
           Some (a, v, c) \<Rightarrow> s1\<lparr>p_stylesArrow := assign_styles (p_stylesArrow s1)
             (mapToStyles l w (opts\<lparr>so_adaptive := False\<rparr>) (p_popper s1) (p_rectPopper s1) (p_placement s1)
               (if a = AxisX then Some v else None) (if a = AxisY then Some v else None) ''absolute'')\<rparr>
         | None \<Rightarrow> s1) in
     s2\<lparr>p_attributes := AList.update ''data-popper-placement'' (Some (placementName (p_placement s2))) (p_attributes s2)\<rparr>)"

definition write_styles :: "node \<Rightarrow> (string \<times> string) list \<Rightarrow> 'cb world \<Rightarrow> 'cb world" where
  "write_styles n styles w = fold (\<lambda>(k, v). set_style k v n) styles w"

definition write_attributes :: "node \<Rightarrow> (string \<times> string option) list \<Rightarrow> 'cb world \<Rightarrow> 'cb world" where
  "write_attributes n attributes w =
    fold (\<lambda>(k, v) u. case v of None \<Rightarrow> remove_attr k n u | Some x \<Rightarrow> set_attr k x n u) attributes w"

definition applyStyles :: "layout \<Rightarrow> pop_state \<Rightarrow> 'cb world \<Rightarrow> 'cb world" where
  "applyStyles l s w =
    (let w1 = (if isHTMLElement l (p_popper s)
           then write_attributes (p_popper s) (p_attributes s) (write_styles (p_popper s) (p_stylesPopper s) w) else w) in
     case p_arrow s of
       Some n \<Rightarrow> if isHTMLElement l n then write_styles n (p_stylesArrow s) w1 else w1
     | None \<Rightarrow> w1)"

definition initialStyles :: "string \<Rightarrow> (string \<times> string) list" where
  "initialStyles strategy = [(''position'', strategy), (''left'', ''0''), (''top'', ''0''), (''margin'', ''0'')]"

definition applyStyles_effect :: "pop_state \<Rightarrow> 'cb world \<Rightarrow> pop_state \<times> 'cb world" where
  "applyStyles_effect s w =
    (let w1 = write_styles (p_popper s) (initialStyles (p_strategy s)) w;
         arrowStyles = [(''position'', ''absolute'')] in
     (s\<lparr>p_stylesPopper := initialStyles (p_strategy s), p_stylesArrow := arrowStyles\<rparr>,
      case p_arrow s of Some n \<Rightarrow> write_styles n arrowStyles w1 | None \<Rightarrow> w1))"

definition applyStyles_cleanup :: "layout \<Rightarrow> pop_state \<Rightarrow> 'cb world \<Rightarrow> 'cb world" where
  "applyStyles_cleanup l s w =
    (let unset = map (\<lambda>(k, v). (k, [])); drop_attrs = map (\<lambda>(k, v). (k, None));
         w1 = (if isHTMLElement l (p_popper s)
           then write_attributes (p_popper s) (drop_attrs (p_attributes s)) (write_styles (p_popper s) (unset (p_stylesPopper s)) w)
           else w) in
     case p_arrow s of
       Some n \<Rightarrow> if isHTMLElement l n then write_styles n (unset (p_stylesArrow s)) w1 else w1
     | None \<Rightarrow> w1)"

end
