(* ===== verification/PopperUpdate.thy ===== *)
theory PopperUpdate
  imports PopperModifiers "HOL-Library.Multiset"
begin

text \<open>
  The life of a positioning engine: its modifiers are merged by name, ordered by what they require and
  by phase, and run one after the other; a modifier may ask for another round. Modifiers are
  objects, as the callers give them; a modifier that is not the engine's own is a function of the
  state. Data that start as an empty object are absent here: the ordering runs their modifier before
  any reader, apart from the styles of an arrow that does not exist.
\<close>

section \<open>Modifiers\<close>

definition m_name :: "object \<Rightarrow> string" where
  "m_name m = (case lookup m ''name'' of JStr s \<Rightarrow> s | _ \<Rightarrow> [])"

definition names_of :: "jsval \<Rightarrow> string list" where
  "names_of v = (case v of JArr xs \<Rightarrow> concat (map (\<lambda>x. case x of JStr s \<Rightarrow> [s] | _ \<Rightarrow> []) xs)
    | JStr s \<Rightarrow> if s = [] then [] else [s] | _ \<Rightarrow> [])"

definition m_requires :: "object \<Rightarrow> string list" where
  "m_requires m = names_of (lookup m ''requires'') @ names_of (lookup m ''requiresIfExists'')"

definition object_of :: "jsval \<Rightarrow> object" where
  "object_of v = (case v of JObj ps \<Rightarrow> ps | _ \<Rightarrow> [])"

definition merge_modifier :: "object \<Rightarrow> object \<Rightarrow> object" where
  "merge_modifier existing current = spread (spread existing current)
    [(''options'', JObj (spread (object_of (lookup existing ''options'')) (object_of (lookup current ''options'')))),
     (''data'', JObj (spread (object_of (lookup existing ''data'')) (object_of (lookup current ''data''))))]"

definition mergeByName :: "object list \<Rightarrow> object list" where
  "mergeByName modifiers = map snd (foldl (\<lambda>merged current. AList.update (m_name current)
      (case map_of merged (m_name current) of Some existing \<Rightarrow> merge_modifier existing current | None \<Rightarrow> current) merged)
    [] modifiers)"

section \<open>Order\<close>

fun sort_modifier ::
    "nat \<Rightarrow> (string \<Rightarrow> object option) \<Rightarrow> object \<Rightarrow> string list \<times> object list \<Rightarrow> string list \<times> object list" where
  "sort_modifier 0 mp m vr = vr"
| "sort_modifier (Suc k) mp m vr =
    (let (visited, result) = fold (\<lambda>dep vr. if dep \<notin> set (fst vr)
           then (case mp dep of Some d \<Rightarrow> sort_modifier k mp d vr | None \<Rightarrow> vr) else vr)
         (m_requires m) (m_name m # fst vr, snd vr) in
     (visited, result @ [m]))"

definition modifier_map :: "object list \<Rightarrow> string \<Rightarrow> object option" where
  "modifier_map ms = foldl (\<lambda>f m. f(m_name m \<mapsto> m)) Map.empty ms"

definition order_modifiers :: "object list \<Rightarrow> object list" where
  "order_modifiers ms = snd (foldl (\<lambda>vr m. if m_name m \<notin> set (fst vr)
      then sort_modifier (length ms) (modifier_map ms) m vr else vr) ([], []) ms)"

definition modifierPhases :: "string list" where
  "modifierPhases = [''beforeRead'', ''read'', ''afterRead'', ''beforeMain'', ''main'', ''afterMain'',
    ''beforeWrite'', ''write'', ''afterWrite'']"

definition orderModifiers :: "object list \<Rightarrow> object list" where
  "orderModifiers ms = concat (map (\<lambda>phase. filter (\<lambda>m. lookup m ''phase'' = JStr phase) (order_modifiers ms)) modifierPhases)"

section \<open>The engine's own modifiers\<close>

definition own :: "string \<Rightarrow> string \<Rightarrow> string list \<Rightarrow> string list \<Rightarrow> object" where
  "own name phase requires requiresIfExists = [(''name'', JStr name), (''enabled'', JBool True), (''phase'', JStr phase),
    (''fn'', JFun name), (''requires'', JArr (map JStr requires)), (''requiresIfExists'', JArr (map JStr requiresIfExists))]"

definition defaultModifiers :: "object list" where
  "defaultModifiers = [own ''eventListeners'' ''write'' [] [], own ''popperOffsets'' ''read'' [] [],
    own ''computeStyles'' ''beforeWrite'' [] [], own ''applyStyles'' ''write'' [''computeStyles''] [],
    own ''offset'' ''main'' [''popperOffsets''] [], own ''flip'' ''main'' [] [''offset''],
    own ''preventOverflow'' ''main'' [] [''offset''], own ''arrow'' ''main'' [''popperOffsets''] [''preventOverflow''],
    own ''hide'' ''main'' [] [''preventOverflow'']]"

definition opt_bool :: "object \<Rightarrow> string \<Rightarrow> bool \<Rightarrow> bool" where
  "opt_bool o' k d = (case lookup o' k of JUndef \<Rightarrow> d | v \<Rightarrow> truthy v)"

definition opt_num :: "jsval \<Rightarrow> real" where
  "opt_num v = (case v of JNum x \<Rightarrow> x | _ \<Rightarrow> 0)"

definition clip_of :: "jsval \<Rightarrow> clip" where
  "clip_of v = (case v of JStr s \<Rightarrow> if s = ''viewport'' then Viewport else DocumentClip | JNode n \<Rightarrow> ClipElement n
    | JUndef \<Rightarrow> Viewport | _ \<Rightarrow> DocumentClip)"

definition boundary_of :: "jsval \<Rightarrow> boundary" where
  "boundary_of v = (case v of JUndef \<Rightarrow> ClippingParents
    | JStr s \<Rightarrow> if s = ''clippingParents'' then ClippingParents else Boundaries [clip_of v]
    | JArr xs \<Rightarrow> Boundaries (map clip_of xs) | _ \<Rightarrow> Boundaries [clip_of v])"

definition padding_of :: "jsval \<Rightarrow> padding" where
  "padding_of v = (case v of JNum x \<Rightarrow> PadNumber x
    | JObj ps \<Rightarrow> PadObject (map (\<lambda>b. (b, opt_num (lookup ps (sideName b)))) basePlacements) | _ \<Rightarrow> PadObject [])"

definition placement_of :: "string \<Rightarrow> placement option" where
  "placement_of s = List.find (\<lambda>p. placementName p = s) placements"

definition placements_of :: "jsval \<Rightarrow> placement list option" where
  "placements_of v = (case v of JArr xs \<Rightarrow>
      Some (List.map_filter (\<lambda>x. case x of JStr s \<Rightarrow> placement_of s | _ \<Rightarrow> None) xs) | _ \<Rightarrow> None)"

definition overflow_options_of :: "object \<Rightarrow> overflow_options" where
  "overflow_options_of o' = oo_default\<lparr>oo_boundary := boundary_of (lookup o' ''boundary''),
    oo_rootBoundary := clip_of (lookup o' ''rootBoundary''), oo_altBoundary := opt_bool o' ''altBoundary'' False,
    oo_padding := (case lookup o' ''padding'' of JUndef \<Rightarrow> PadNumber 0 | v \<Rightarrow> padding_of v)\<rparr>"

definition flip_options_of :: "object \<Rightarrow> flip_options" where
  "flip_options_of o' = \<lparr>fo_mainAxis = opt_bool o' ''mainAxis'' True, fo_altAxis = opt_bool o' ''altAxis'' True,
    fo_fallbackPlacements = placements_of (lookup o' ''fallbackPlacements''), fo_overflow = overflow_options_of o',
    fo_flipVariations = opt_bool o' ''flipVariations'' True,
    fo_allowedAutoPlacements = (case placements_of (lookup o' ''allowedAutoPlacements'') of Some ps \<Rightarrow> ps | None \<Rightarrow> placements)\<rparr>"

definition prevent_options_of :: "object \<Rightarrow> prevent_options" where
  "prevent_options_of o' = \<lparr>po_mainAxis = opt_bool o' ''mainAxis'' True, po_altAxis = opt_bool o' ''altAxis'' False,
    po_overflow = overflow_options_of o', po_tether = opt_bool o' ''tether'' True,
    po_tetherOffset = (case lookup o' ''tetherOffset'' of JNum x \<Rightarrow> (x, x)
      | JObj ps \<Rightarrow> (opt_num (lookup ps ''mainAxis''), opt_num (lookup ps ''altAxis'')) | _ \<Rightarrow> (0, 0))\<rparr>"

definition offset_of :: "object \<Rightarrow> xy" where
  "offset_of o' = (case lookup o' ''offset'' of
      JArr (x # y # _) \<Rightarrow> (opt_num x, opt_num y) | JArr [x] \<Rightarrow> (opt_num x, 0) | _ \<Rightarrow> (0, 0))"

definition style_options_of :: "object \<Rightarrow> style_options" where
  "style_options_of o' = \<lparr>so_gpuAcceleration = opt_bool o' ''gpuAcceleration'' True, so_adaptive = opt_bool o' ''adaptive'' True,
    so_roundOffsets = (lookup o' ''roundOffsets'' = JUndef \<or> lookup o' ''roundOffsets'' = JBool True)\<rparr>"

definition arrow_option_of :: "object \<Rightarrow> arrow_option" where
  "arrow_option_of o' = (case lookup o' ''element'' of JUndef \<Rightarrow> ArrowDefault | JStr s \<Rightarrow> ArrowSelector s
    | JNode n \<Rightarrow> ArrowElement n | _ \<Rightarrow> ArrowNull)"

text \<open>The world in which an update runs is the one of its start; the writes of \<open>applyStyles\<close> come last.\<close>

type_synonym 'cb engine = "pop_state \<times> 'cb world"

definition run_modifier ::
    "layout \<Rightarrow> (string \<Rightarrow> object \<Rightarrow> 'cb engine \<Rightarrow> 'cb engine) \<Rightarrow> object \<Rightarrow> 'cb engine \<Rightarrow> 'cb engine" where
  "run_modifier l custom m e =
    (let o' = object_of (lookup m ''options''); (s, w) = e in
     case lookup m ''fn'' of
       JFun f \<Rightarrow>
         if f = ''eventListeners'' then e
         else if f = ''popperOffsets'' then (pop_popperOffsets s, w)
         else if f = ''offset'' then (pop_offset (offset_of o') s, w)
         else if f = ''flip'' then (pop_flip l w (flip_options_of o') s, w)
         else if f = ''preventOverflow'' then (pop_preventOverflow l w (prevent_options_of o') s, w)
         else if f = ''arrow'' then (pop_arrow l w (padding_of (lookup o' ''padding'')) s, w)
         else if f = ''hide'' then (pop_hide l w s, w)
         else if f = ''computeStyles'' then (computeStyles l w (style_options_of o') s, w)
         else if f = ''applyStyles'' then (s, applyStyles l s w)
         else custom f o' e
     | _ \<Rightarrow> e)"

section \<open>An update\<close>

partial_function (option) update_loop ::
    "(object \<Rightarrow> 'cb engine \<Rightarrow> 'cb engine) \<Rightarrow> object list \<Rightarrow> nat \<Rightarrow> 'cb engine \<Rightarrow> 'cb engine option" where
  "update_loop run ms i e =
    (if i < length ms then
       (if p_reset (fst e) then update_loop run ms 0 ((fst e)\<lparr>p_reset := False\<rparr>, snd e)
        else update_loop run ms (Suc i) (run (ms ! i) e))
     else Some e)"

record 'cb popper =
  pp_engine :: "'cb engine"
  pp_options :: object
  pp_ordered :: "object list"
  pp_scrollParents :: "scroll_target list"
  pp_cleanups :: "object list"
  pp_destroyed :: bool
  pp_pending :: bool

text \<open>The data of a modifier that no longer takes part stay as they were.\<close>

definition fresh_data :: "layout \<Rightarrow> object list \<Rightarrow> 'cb engine \<Rightarrow> pop_state" where
  "fresh_data l ms e = (let s = fst e; has = (\<lambda>n. n \<in> m_name ` set ms) in
    s\<lparr>p_rectReference := getCompositeRect l (snd e) (p_reference s) (getOffsetParent l (snd e) (p_popper s)) (p_strategy s = ''fixed''),
      p_rectPopper := getLayoutRect l (p_popper s), p_reset := False, p_placement := p_optPlacement s,
      p_offsets := if has ''popperOffsets'' then None else p_offsets s,
      p_offset := if has ''offset'' then None else p_offset s,
      p_prevented := if has ''preventOverflow'' then None else p_prevented s,
      p_flipped := if has ''flip'' then False else p_flipped s,
      p_arrowData := if has ''arrow'' then None else p_arrowData s,
      p_hide := if has ''hide'' then None else p_hide s\<rparr>)"

definition forceUpdate ::
    "layout \<Rightarrow> (string \<Rightarrow> object \<Rightarrow> 'cb engine \<Rightarrow> 'cb engine) \<Rightarrow> 'cb popper \<Rightarrow> 'cb popper option" where
  "forceUpdate l custom p = (if pp_destroyed p then Some p
    else map_option (\<lambda>e. p\<lparr>pp_engine := e\<rparr>)
      (update_loop (run_modifier l custom) (pp_ordered p) 0 (fresh_data l (pp_ordered p) (pp_engine p), snd (pp_engine p))))"

text \<open>\<open>update\<close> asks for an update in the next microtask, once however often it is called.\<close>

definition pop_update :: "'cb popper \<Rightarrow> 'cb popper" where
  "pop_update p = p\<lparr>pp_pending := True\<rparr>"

definition pop_microtask ::
    "layout \<Rightarrow> (string \<Rightarrow> object \<Rightarrow> 'cb engine \<Rightarrow> 'cb engine) \<Rightarrow> 'cb popper \<Rightarrow> 'cb popper option" where
  "pop_microtask l custom p = (if pp_pending p then forceUpdate l custom (p\<lparr>pp_pending := False\<rparr>) else Some p)"

section \<open>Effects\<close>

text \<open>
  The listener is the engine's own \<open>update\<close>: its name carries the popper. Adding it to a
  target that has it already does nothing.\<close>

definition update_event :: "node \<Rightarrow> string \<Rightarrow> string" where
  "update_event popper e = e @ '' update '' @ natStr popper"

fun target_event :: "node \<Rightarrow> scroll_target \<Rightarrow> event" where
  "target_event popper WindowTarget = (window_node, update_event popper ''scroll'')"
| "target_event popper VisualTarget = (window_node, update_event popper ''visualViewport scroll'')"
| "target_event popper (ElementTarget n) = (n, update_event popper ''scroll'')"

definition listen_once :: "event \<Rightarrow> 'cb world \<Rightarrow> 'cb world" where
  "listen_once e w = (if e \<in> set (listeners w) then w else listen (fst e) (snd e) w)"

definition listener_targets :: "object \<Rightarrow> node \<Rightarrow> scroll_target list \<Rightarrow> event list" where
  "listener_targets o' popper targets = (if opt_bool o' ''scroll'' True then map (target_event popper) targets else []) @
    (if opt_bool o' ''resize'' True then [(window_node, update_event popper ''resize'')] else [])"

definition listeners_effect :: "object \<Rightarrow> node \<Rightarrow> scroll_target list \<Rightarrow> 'cb world \<Rightarrow> 'cb world" where
  "listeners_effect o' popper targets w = fold listen_once (listener_targets o' popper targets) w"

definition listeners_cleanup :: "object \<Rightarrow> node \<Rightarrow> scroll_target list \<Rightarrow> 'cb world \<Rightarrow> 'cb world" where
  "listeners_cleanup o' popper targets w = fold (\<lambda>e. unlisten (fst e) (snd e)) (listener_targets o' popper targets) w"

text \<open>A cleanup is kept as the modifier whose effect returned it.\<close>

definition run_effect :: "object \<Rightarrow> 'cb popper \<Rightarrow> 'cb popper" where
  "run_effect m p =
    (let o' = object_of (lookup m ''options''); (s, w) = pp_engine p; n = m_name m in
     if n = ''eventListeners'' then
       p\<lparr>pp_engine := (s, listeners_effect o' (p_popper s) (pp_scrollParents p) w), pp_cleanups := pp_cleanups p @ [m]\<rparr>
     else if n = ''applyStyles'' then
       p\<lparr>pp_engine := applyStyles_effect s w, pp_cleanups := pp_cleanups p @ [m]\<rparr>
     else if n = ''arrow'' then
       p\<lparr>pp_engine := (arrow_effect w (arrow_option_of o') s, w), pp_cleanups := pp_cleanups p @ [m]\<rparr>
     else p)"

definition run_cleanup :: "layout \<Rightarrow> object \<Rightarrow> 'cb popper \<Rightarrow> 'cb popper" where
  "run_cleanup l m p =
    (let o' = object_of (lookup m ''options''); (s, w) = pp_engine p; n = m_name m in
     if n = ''eventListeners'' then p\<lparr>pp_engine := (s, listeners_cleanup o' (p_popper s) (pp_scrollParents p) w)\<rparr>
     else if n = ''applyStyles'' then p\<lparr>pp_engine := (s, applyStyles_cleanup l s w)\<rparr>
     else p)"

definition cleanupModifierEffects :: "layout \<Rightarrow> 'cb popper \<Rightarrow> 'cb popper" where
  "cleanupModifierEffects l p = (fold (run_cleanup l) (pp_cleanups p) p)\<lparr>pp_cleanups := []\<rparr>"

definition DEFAULT_OPTIONS :: object where
  "DEFAULT_OPTIONS = [(''placement'', JStr ''bottom''), (''modifiers'', JArr []), (''strategy'', JStr ''absolute'')]"

definition scroll_parents :: "layout \<Rightarrow> 'cb world \<Rightarrow> pop_state \<Rightarrow> scroll_target list" where
  "scroll_parents l w s = listScrollParents (Suc (nodeCount w)) l w (p_reference s) @
    listScrollParents (Suc (nodeCount w)) l w (p_popper s)"

definition pop_setOptions :: "layout \<Rightarrow> object \<Rightarrow> 'cb popper \<Rightarrow> 'cb popper" where
  "pop_setOptions l options p =
    (let p1 = cleanupModifierEffects l p;
         opts = spread (spread DEFAULT_OPTIONS (pp_options p1)) options;
         (s, w) = pp_engine p1;
         user = (case lookup opts ''modifiers'' of JArr xs \<Rightarrow> map object_of xs | _ \<Rightarrow> []);
         ordered = filter (\<lambda>m. truthy (lookup m ''enabled'')) (orderModifiers (mergeByName (defaultModifiers @ user)));
         s1 = s\<lparr>p_optPlacement := (case lookup opts ''placement'' of JStr x \<Rightarrow> (case placement_of x of Some q \<Rightarrow> q | None \<Rightarrow> p_optPlacement s)
               | _ \<Rightarrow> p_optPlacement s),
             p_strategy := (case lookup opts ''strategy'' of JStr x \<Rightarrow> x | _ \<Rightarrow> p_strategy s)\<rparr>;
         p2 = p1\<lparr>pp_options := opts, pp_ordered := ordered, pp_scrollParents := scroll_parents l w s1, pp_engine := (s1, w)\<rparr> in
     pop_update (fold run_effect ordered p2))"

definition pop_create :: "layout \<Rightarrow> node \<Rightarrow> node \<Rightarrow> object \<Rightarrow> 'cb world \<Rightarrow> 'cb popper" where
  "pop_create l reference popper options w =
    (let z = \<lparr>r_x = 0, r_y = 0, r_width = 0, r_height = 0\<rparr>; bottom = Placement BottomSide None;
         s = \<lparr>p_placement = bottom, p_optPlacement = bottom, p_strategy = ''absolute'', p_rectReference = z, p_rectPopper = z,
           p_reference = reference, p_popper = popper, p_arrow = None, p_offsets = None, p_offset = None, p_prevented = None,
           p_flipped = False, p_arrowData = None, p_hide = None, p_stylesPopper = [], p_stylesArrow = [], p_attributes = [],
           p_reset = False\<rparr> in
     pop_setOptions l options \<lparr>pp_engine = (s, w), pp_options = DEFAULT_OPTIONS, pp_ordered = [], pp_scrollParents = [],
       pp_cleanups = [], pp_destroyed = False, pp_pending = False\<rparr>)"

definition pop_destroy :: "layout \<Rightarrow> 'cb popper \<Rightarrow> 'cb popper" where
  "pop_destroy l p = (cleanupModifierEffects l p)\<lparr>pp_destroyed := True\<rparr>"

end
