(* ===== verification/PopperProperties.thy ===== *)
theory PopperProperties
  imports PopperUpdate
begin

text \<open>
  What the positioning engine promises: an update returns after at most two rounds, the popper is kept
  in view and beside its reference, modifiers run after those they require, and a destroyed engine leaves no
  listener behind.
\<close>

section \<open>An update returns\<close>

text \<open>What a modifier may do to the two flags: it keeps the mark of a flip, and asks for another round only
  with a first flip.\<close>

definition flips_once :: "(object \<Rightarrow> 'cb engine \<Rightarrow> 'cb engine) \<Rightarrow> bool" where
  "flips_once run \<longleftrightarrow> (\<forall>m e. (p_flipped (fst e) \<longrightarrow> p_flipped (fst (run m e))) \<and>
    (p_reset (fst (run m e)) \<longrightarrow> p_reset (fst e) \<or> \<not> p_flipped (fst e) \<and> p_flipped (fst (run m e))))"

definition silent_flags :: "(string \<Rightarrow> object \<Rightarrow> 'cb engine \<Rightarrow> 'cb engine) \<Rightarrow> bool" where
  "silent_flags custom \<longleftrightarrow> (\<forall>f o' e. p_reset (fst (custom f o' e)) = p_reset (fst e) \<and>
    p_flipped (fst (custom f o' e)) = p_flipped (fst e))"

lemma flags_of_modifiers:
  "p_reset (pop_popperOffsets s) = p_reset s" "p_flipped (pop_popperOffsets s) = p_flipped s"
  "p_reset (pop_offset xy s) = p_reset s" "p_flipped (pop_offset xy s) = p_flipped s"
  "p_reset (pop_preventOverflow l w po s) = p_reset s" "p_flipped (pop_preventOverflow l w po s) = p_flipped s"
  "p_reset (pop_arrow l w pad s) = p_reset s" "p_flipped (pop_arrow l w pad s) = p_flipped s"
  "p_reset (pop_hide l w s) = p_reset s" "p_flipped (pop_hide l w s) = p_flipped s"
  "p_reset (computeStyles l w so s) = p_reset s" "p_flipped (computeStyles l w so s) = p_flipped s"
  by (simp_all add: pop_popperOffsets_def pop_offset_def pop_preventOverflow_def pop_arrow_def pop_hide_def computeStyles_def
      Let_def split: option.split prod.split)

lemma flip_flags:
  "p_flipped s \<Longrightarrow> pop_flip l w fo s = s"
  "p_reset (pop_flip l w fo s) \<Longrightarrow> p_reset s \<or> p_flipped (pop_flip l w fo s)"
  by (auto simp: pop_flip_def Let_def split: if_splits)

lemma run_modifier_flips_once:
  assumes "silent_flags custom"
  shows "flips_once (run_modifier l custom)"
  unfolding flips_once_def
proof (intro allI)
  fix m and e :: "'a engine"
  obtain s w where e: "e = (s, w)" by (cases e)
  show "(p_flipped (fst e) \<longrightarrow> p_flipped (fst (run_modifier l custom m e))) \<and>
    (p_reset (fst (run_modifier l custom m e)) \<longrightarrow>
      p_reset (fst e) \<or> \<not> p_flipped (fst e) \<and> p_flipped (fst (run_modifier l custom m e)))"
  proof (cases "lookup m ''fn''")
    case (JFun f)
    show ?thesis
    proof (cases "f = ''flip''")
      case True
      then show ?thesis using JFun flip_flags(2)[of l w "flip_options_of (object_of (lookup m ''options''))" s]
        by (cases "p_flipped s") (simp_all add: run_modifier_def e flip_flags(1))
    qed (use assms JFun in \<open>simp add: run_modifier_def e flags_of_modifiers silent_flags_def Let_def\<close>)
  qed (simp_all add: run_modifier_def e)
qed

lemma loop_flipped:
  assumes "flips_once run" and "i \<le> length ms" and "p_flipped (fst e)" and "\<not> p_reset (fst e)"
  shows "update_loop run ms i e = Some (fold run (drop i ms) e)"
  using assms(2-)
proof (induction "length ms - i" arbitrary: i e)
  case 0
  then show ?case by (subst update_loop.simps) simp
next
  case (Suc j)
  then have i: "i < length ms" by simp
  have "p_flipped (fst (run (ms ! i) e))" "\<not> p_reset (fst (run (ms ! i) e))"
    using assms(1) Suc.prems unfolding flips_once_def by blast+
  then have "update_loop run ms (Suc i) (run (ms ! i) e) = Some (fold run (drop (Suc i) ms) (run (ms ! i) e))"
    using Suc.hyps(2) i by (intro Suc.hyps(1)) auto
  then show ?case using i Suc.prems by (subst update_loop.simps) (simp add: Cons_nth_drop_Suc[symmetric])
qed

lemma loop_rounds:
  assumes "flips_once run" and "i \<le> length ms" and "\<not> p_reset (fst e)"
  shows "\<exists>k e1. i \<le> k \<and> k \<le> length ms \<and> e1 = fold run (drop i (take k ms)) e \<and> (k < length ms \<longrightarrow> p_reset (fst e1)) \<and>
    update_loop run ms i e =
      Some (if k = length ms then e1 else fold run ms ((fst e1)\<lparr>p_reset := False\<rparr>, snd e1))"
  using assms(2-)
proof (induction "length ms - i" arbitrary: i e)
  case 0
  then show ?case by (intro exI[of _ "length ms"] exI[of _ e]) (subst update_loop.simps, simp)
next
  case (Suc j)
  then have i: "i < length ms" by simp
  define e' where "e' = run (ms ! i) e"
  have u: "update_loop run ms i e = update_loop run ms (Suc i) e'"
    using i Suc.prems by (subst update_loop.simps) (simp add: e'_def)
  have d: "drop i (take k ms) = ms ! i # drop (Suc i) (take k ms)" if "Suc i \<le> k" "k \<le> length ms" for k
    using that by (subst Cons_nth_drop_Suc[symmetric]) auto
  show ?case
  proof (cases "p_reset (fst e')")
    case False
    then have "\<exists>k e1. Suc i \<le> k \<and> k \<le> length ms \<and> e1 = fold run (drop (Suc i) (take k ms)) e' \<and>
        (k < length ms \<longrightarrow> p_reset (fst e1)) \<and> update_loop run ms (Suc i) e' =
          Some (if k = length ms then e1 else fold run ms ((fst e1)\<lparr>p_reset := False\<rparr>, snd e1))"
      using Suc.hyps(2) i by (intro Suc.hyps(1)) auto
    then obtain k e1 where "Suc i \<le> k" "k \<le> length ms" "e1 = fold run (drop (Suc i) (take k ms)) e'"
        "k < length ms \<longrightarrow> p_reset (fst e1)" "update_loop run ms (Suc i) e' =
          Some (if k = length ms then e1 else fold run ms ((fst e1)\<lparr>p_reset := False\<rparr>, snd e1))"
      by blast
    then show ?thesis using u d[of k] by (intro exI[of _ k] exI[of _ e1]) (simp add: e'_def)
  next
    case True
    then have "p_flipped (fst e')" using assms(1) Suc.prems unfolding flips_once_def e'_def by blast
    then have again: "update_loop run ms 0 ((fst e')\<lparr>p_reset := False\<rparr>, snd e') =
        Some (fold run ms ((fst e')\<lparr>p_reset := False\<rparr>, snd e'))"
      using loop_flipped[OF assms(1), of 0 ms "((fst e')\<lparr>p_reset := False\<rparr>, snd e')"] by simp
    have "update_loop run ms (Suc i) e' =
        Some (if Suc i = length ms then e' else fold run ms ((fst e')\<lparr>p_reset := False\<rparr>, snd e'))"
      using i True again by (subst update_loop.simps) auto
    then show ?thesis using u d[of "Suc i"] i True by (intro exI[of _ "Suc i"] exI[of _ e']) (simp add: e'_def)
  qed
qed

text \<open>
  C39: an update returns. Whatever modifiers take part, the ones from outside leaving the two flags alone, it
  runs them in order; when \<open>flip\<close> changes the placement it starts again from the first, once, with the state so far,
  and the second round runs to the end.\<close>

theorem popper_update_returns:
  fixes p :: "'cb popper" and l :: layout
  assumes "silent_flags custom" and "\<not> pp_destroyed p"
  defines "run \<equiv> run_modifier l custom" and "ms \<equiv> pp_ordered p"
  shows "\<exists>k e1. k \<le> length ms \<and> e1 = fold run (take k ms) (fresh_data l ms (pp_engine p), snd (pp_engine p)) \<and>
    (k < length ms \<longrightarrow> p_reset (fst e1)) \<and>
    forceUpdate l custom p = Some (p\<lparr>pp_engine :=
      if k = length ms then e1 else fold run ms ((fst e1)\<lparr>p_reset := False\<rparr>, snd e1)\<rparr>)"
proof -
  have r: "\<not> p_reset (fst (fresh_data l ms (pp_engine p), snd (pp_engine p)))" by (simp add: fresh_data_def Let_def)
  obtain k e1 where "k \<le> length ms" "e1 = fold run (take k ms) (fresh_data l ms (pp_engine p), snd (pp_engine p))"
      "k < length ms \<longrightarrow> p_reset (fst e1)" "update_loop run ms 0 (fresh_data l ms (pp_engine p), snd (pp_engine p)) =
        Some (if k = length ms then e1 else fold run ms ((fst e1)\<lparr>p_reset := False\<rparr>, snd e1))"
    using loop_rounds[OF run_modifier_flips_once[OF assms(1), of l] le0 r, of ms] unfolding run_def drop_0 by blast
  then show ?thesis using assms(2) by (intro exI[of _ k] exI[of _ e1]) (simp add: forceUpdate_def run_def ms_def)
qed

lemma run_effect_destroyed: "pp_destroyed (run_effect m p) = pp_destroyed p"
  by (simp add: run_effect_def Let_def split: prod.split)

lemma run_cleanup_destroyed: "pp_destroyed (run_cleanup l m p) = pp_destroyed p"
  by (simp add: run_cleanup_def Let_def split: prod.split)

lemma fold_destroyed: "(\<And>m p. pp_destroyed (f m p) = pp_destroyed p) \<Longrightarrow> pp_destroyed (fold f ms p) = pp_destroyed p"
  by (induction ms arbitrary: p) simp_all

lemma setOptions_destroyed: "pp_destroyed (pop_setOptions l opts p) = pp_destroyed p"
  by (simp add: pop_setOptions_def cleanupModifierEffects_def pop_update_def Let_def fold_destroyed
      run_effect_destroyed run_cleanup_destroyed split: prod.split)

text \<open>An engine with its own modifiers and default options.\<close>

lemma popper_update_returns_witness:
  "\<exists>q. forceUpdate plain_layout (\<lambda>_ _ e. e) (pop_create plain_layout 4 5 [] scroll_world) = Some q"
proof -
  have "\<not> pp_destroyed (pop_create plain_layout 4 5 [] scroll_world)"
    by (simp add: pop_create_def Let_def setOptions_destroyed)
  then show ?thesis
    using popper_update_returns [of "\<lambda>_ _ e. e" "pop_create plain_layout 4 5 [] scroll_world" plain_layout]
    by (simp add: silent_flags_def) blast
qed

section \<open>Preventing overflow\<close>

lemma on_set_axis [simp]: "on_axis b (set_axis a v xy) = (if a = b then v else on_axis b xy)"
  by (cases a; cases b) simp_all

text \<open>What the modifier does along the axis of its choice, without the other axis.\<close>

lemma preventOverflow_main:
  fixes l :: layout and w :: "'cb world"
  assumes "p_offsets s = Some offs" and "po_mainAxis opts" and "\<not> po_altAxis opts"
  defines "a \<equiv> getMainAxisFromPlacement (getBasePlacement (p_placement s))"
  defines "v \<equiv> prevent_main l w opts s (detectOverflow l w s (po_overflow opts)) offs"
  shows "pop_preventOverflow l w opts s = s\<lparr>p_offsets := Some (set_axis a v offs),
    p_prevented := Some (set_axis a (v - on_axis a offs) (0, 0))\<rparr>"
  using assms(1-3) by (simp add: pop_preventOverflow_def a_def v_def Let_def)

lemma within_moves:
  fixes v :: real
  assumes "A + B \<le> 0" and "mn = (if t then min (v + A) x else v + A)" and "mx = (if t then max (v - B) y else v - B)"
  defines "v' \<equiv> pop_within mn v mx"
  shows "(A \<le> 0 \<and> B \<le> 0 \<longrightarrow> v' = v) \<and> (0 < A \<longrightarrow> v \<le> v' \<and> v' \<le> v + A) \<and> (0 < B \<longrightarrow> v - B \<le> v' \<and> v' \<le> v) \<and>
    (\<not> t \<longrightarrow> A - (v' - v) \<le> 0 \<and> B + (v' - v) \<le> 0)"
  using assms(1) unfolding v'_def pop_within_def assms(2,3) by (auto simp: min_def max_def)

text \<open>
  C38: how \<open>preventOverflow\<close> moves the popper along its main axis, when the popper is not longer than the space between
  the bounds. A popper that overflows on neither side stays where it is; otherwise it moves towards the
  inside, at most by the overflow, and without the tether exactly so far that no side
  overflows. The other axis is not touched, and what it moved is kept for \<open>hide\<close>.\<close>

theorem prevent_overflow_moves:
  fixes s :: pop_state and l :: layout and w :: "'cb world" and opts :: prevent_options
  assumes "p_offsets s = Some offs" and "po_mainAxis opts" and "\<not> po_altAxis opts"
  defines "a \<equiv> getMainAxisFromPlacement (getBasePlacement (p_placement s))"
  defines "overflow \<equiv> detectOverflow l w s (po_overflow opts)"
  assumes "overflow (main_side a) + overflow (alt_side a) \<le> 0"
  shows "\<exists>d. p_prevented (pop_preventOverflow l w opts s) = Some (set_axis a d (0, 0)) \<and>
    p_offsets (pop_preventOverflow l w opts s) = Some (set_axis a (on_axis a offs + d) offs) \<and>
    (overflow (main_side a) \<le> 0 \<and> overflow (alt_side a) \<le> 0 \<longrightarrow> d = 0) \<and>
    (0 < overflow (main_side a) \<longrightarrow> 0 \<le> d \<and> d \<le> overflow (main_side a)) \<and>
    (0 < overflow (alt_side a) \<longrightarrow> - overflow (alt_side a) \<le> d \<and> d \<le> 0) \<and>
    (\<not> po_tether opts \<longrightarrow> overflow (main_side a) - d \<le> 0 \<and> overflow (alt_side a) + d \<le> 0)"
proof -
  define v where "v = prevent_main l w opts s overflow offs"
  have "\<exists>x y. v = pop_within (if po_tether opts then min (on_axis a offs + overflow (main_side a)) x
      else on_axis a offs + overflow (main_side a)) (on_axis a offs)
      (if po_tether opts then max (on_axis a offs - overflow (alt_side a)) y else on_axis a offs - overflow (alt_side a))"
    unfolding v_def prevent_main_def Let_def a_def by (intro exI) (rule refl)
  then obtain x y where "v = pop_within (if po_tether opts then min (on_axis a offs + overflow (main_side a)) x
      else on_axis a offs + overflow (main_side a)) (on_axis a offs)
      (if po_tether opts then max (on_axis a offs - overflow (alt_side a)) y else on_axis a offs - overflow (alt_side a))"
    by blast
  note m = within_moves[OF assms(6) refl refl, of "po_tether opts" "on_axis a offs" x y, folded this]
  show ?thesis
    using m by (intro exI[of _ "v - on_axis a offs"])
      (auto simp: preventOverflow_main[OF assms(1-3)] a_def[symmetric] overflow_def[symmetric] v_def[symmetric])
qed

text \<open>
  The tether. A popper without variation, arrow or offset that was placed beside its reference still
  touches it along the main axis after \<open>preventOverflow\<close>, wherever the bounds are.\<close>

theorem prevent_overflow_tethered:
  fixes s :: pop_state and l :: layout and w :: "'cb world" and opts :: prevent_options
  assumes "p_placement s = Placement b None" and "b \<noteq> AutoSide" and "p_arrow s = None" and "p_offset s = None"
    and "po_mainAxis opts" "\<not> po_altAxis opts" "po_tether opts" "fst (po_tetherOffset opts) = 0"
    and "p_offsets s = Some (computeOffsets (p_rectReference s) (p_rectPopper s) (p_placement s))"
    and "0 \<le> rect_len a (p_rectReference s)" and "0 \<le> rect_len a (p_rectPopper s)"
    and a: "a = getMainAxisFromPlacement b"
  shows "\<exists>xy. p_offsets (pop_preventOverflow l w opts s) = Some xy \<and>
    rect_pos a (p_rectReference s) - rect_len a (p_rectPopper s) \<le> on_axis a xy \<and>
    on_axis a xy \<le> rect_pos a (p_rectReference s) + rect_len a (p_rectReference s)"
proof -
  define R P where "R = p_rectReference s" and "P = p_rectPopper s"
  define offs where "offs = computeOffsets R P (p_placement s)"
  have o': "p_offsets s = Some offs" using assms(9) by (simp add: offs_def R_def P_def)
  have pos: "on_axis a offs = rect_pos a R + rect_len a R / 2 - rect_len a P / 2"
    using assms(1,2) a by (cases b) (auto simp: offs_def computeOffsets_def getMainAxisFromPlacement_def rect_pos_def rect_len_def)
  have len: "0 \<le> rect_len a R" "0 \<le> rect_len a P" using assms(10,11) by (simp_all add: R_def P_def)
  define v where "v = prevent_main l w opts s (detectOverflow l w s (po_overflow opts)) offs"
  have z: "pop_within 0 (rect_len a R) 0 = 0" using len by (simp add: pop_within_def)
  have "v = pop_within
      (min (on_axis a offs + detectOverflow l w s (po_overflow opts) (main_side a)) (on_axis a offs + (rect_len a R / 2 + rect_len a P / 2)))
      (on_axis a offs)
      (max (on_axis a offs - detectOverflow l w s (po_overflow opts) (alt_side a)) (on_axis a offs + (- rect_len a R / 2 - rect_len a P / 2)))"
    using assms(1,3,4,7,8) z by (simp add: v_def prevent_main_def Let_def R_def P_def a[symmetric])
  then have "rect_pos a R - rect_len a P \<le> v \<and> v \<le> rect_pos a R + rect_len a R"
    using len pos by (auto simp: pop_within_def min_def max_def field_simps)
  then show ?thesis
    using preventOverflow_main[OF o' assms(5,6), of l w] a assms(1) by (simp add: v_def[symmetric] R_def P_def)
qed

definition prevent_state :: pop_state where
  "prevent_state = flip_state\<lparr>p_offsets := Some (computeOffsets (p_rectReference flip_state) (p_rectPopper flip_state) (Placement TopSide None))\<rparr>"

definition prevent_defaults :: "bool \<Rightarrow> prevent_options" where
  "prevent_defaults tether = \<lparr>po_mainAxis = True, po_altAxis = False, po_overflow = oo_default\<lparr>oo_boundary := Boundaries []\<rparr>,
    po_tether = tether, po_tetherOffset = (0, 0)\<rparr>"

lemma prevent_state_overflow:
  "detectOverflow plain_layout scroll_world prevent_state (po_overflow (prevent_defaults t)) (main_side AxisX) +
   detectOverflow plain_layout scroll_world prevent_state (po_overflow (prevent_defaults t)) (alt_side AxisX) \<le> 0"
  by (simp add: detectOverflow_def getClippingRect_def getClientRectFromMixedType_def getViewportRect_def
    rectToClientRect_def plain_layout_def getWindowScrollBarX_def pop_getBoundingClientRect_def getWindowScroll_def
    documentElement_def isLayoutViewport_def prevent_state_def flip_state_def prevent_defaults_def oo_default_def computeOffsets_def
    rect.truncate_def clip_to_def side_of_def outward_def toPaddingObject_def mergePaddingObject_def expandToHashMap_def
    basePlacements_def rect_len_def main_side_def alt_side_def Let_def)

lemma prevent_state_fields:
  "p_offsets prevent_state = Some (90, -25)" "p_placement prevent_state = Placement TopSide None"
  "p_arrow prevent_state = None" "p_offset prevent_state = None" "rect_len AxisX (p_rectReference prevent_state) = 40"
  "rect_len AxisX (p_rectPopper prevent_state) = 60" "rect_pos AxisX (p_rectReference prevent_state) = 100"
  "po_mainAxis (prevent_defaults t)" "\<not> po_altAxis (prevent_defaults t)" "po_tether (prevent_defaults t) = t"
  "fst (po_tetherOffset (prevent_defaults t)) = 0" "getMainAxisFromPlacement TopSide = AxisX"
  "p_offsets prevent_state = Some (computeOffsets (p_rectReference prevent_state) (p_rectPopper prevent_state) (p_placement prevent_state))"
  by (simp_all add: prevent_state_def flip_state_def prevent_defaults_def computeOffsets_def rect_len_def rect_pos_def
      getMainAxisFromPlacement_def)

lemma prevent_overflow_moves_witness:
  "\<exists>d. p_offsets (pop_preventOverflow plain_layout scroll_world (prevent_defaults False) prevent_state) = Some (90 + d, -25)"
  using prevent_overflow_moves [of prevent_state "(90, -25)" "prevent_defaults False" plain_layout scroll_world]
    prevent_state_overflow [of False]
  by (simp add: prevent_state_fields) blast

lemma prevent_overflow_tethered_witness:
  "\<exists>x y. p_offsets (pop_preventOverflow plain_layout scroll_world (prevent_defaults True) prevent_state) = Some (x, y) \<and>
    40 \<le> x \<and> x \<le> 140"
  using prevent_overflow_tethered [of prevent_state TopSide "prevent_defaults True" AxisX plain_layout scroll_world]
    prevent_state_fields by simp

section \<open>The order respects what modifiers require\<close>

definition names :: "object list \<Rightarrow> string set" where
  "names ms = m_name ` set ms"

definition deps_first :: "string set \<Rightarrow> object list \<Rightarrow> bool" where
  "deps_first N r \<longleftrightarrow> (\<forall>pre m post. r = pre @ m # post \<longrightarrow> set (m_requires m) \<inter> N \<subseteq> names pre)"

text \<open>What holds of the visited names and the result while the names of \<open>G\<close> are being visited.\<close>

definition dfs_ok :: "object list \<Rightarrow> string set \<Rightarrow> string list \<times> object list \<Rightarrow> bool" where
  "dfs_ok ms G vr \<longleftrightarrow> set (fst vr) = names (snd vr) \<union> G \<and> names (snd vr) \<inter> G = {} \<and> distinct (map m_name (snd vr)) \<and>
    set (snd vr) \<subseteq> set ms \<and> deps_first (names ms) (snd vr)"

definition dfs_grows :: "string list \<times> object list \<Rightarrow> string list \<times> object list \<Rightarrow> bool" where
  "dfs_grows a b \<longleftrightarrow> set (fst a) \<subseteq> set (fst b) \<and> names (snd a) \<subseteq> names (snd b)"

lemma dfs_grows_refl [simp]: "dfs_grows a a"
  by (simp add: dfs_grows_def)

lemma dfs_grows_trans: "dfs_grows a b \<Longrightarrow> dfs_grows b c \<Longrightarrow> dfs_grows a c"
  by (auto simp: dfs_grows_def)

lemma deps_first_snoc:
  assumes "deps_first N r" and "set (m_requires m) \<inter> N \<subseteq> names r"
  shows "deps_first N (r @ [m])"
  unfolding deps_first_def
proof (intro allI impI)
  fix pre x post assume "r @ [m] = pre @ x # post"
  then consider "post = []" "x = m" "pre = r" | post' where "r = pre @ x # post'"
    by (cases post rule: rev_cases) auto
  then show "set (m_requires x) \<inter> N \<subseteq> names pre" using assms unfolding deps_first_def by cases blast+
qed

lemma modifier_map_iff:
  "distinct (map m_name ms) \<Longrightarrow> modifier_map ms d = Some m \<longleftrightarrow> m \<in> set ms \<and> m_name m = d"
proof (induction ms rule: rev_induct)
  case (snoc x xs)
  have "m_name x \<noteq> m_name m" if "m \<in> set xs" using snoc.prems that by force
  then show ?case using snoc by (auto simp: modifier_map_def)
qed (simp add: modifier_map_def)

definition visit :: "nat \<Rightarrow> (string \<Rightarrow> object option) \<Rightarrow> string \<Rightarrow> string list \<times> object list \<Rightarrow> string list \<times> object list" where
  "visit k mp dep vr = (if dep \<notin> set (fst vr)
     then (case mp dep of Some d \<Rightarrow> sort_modifier k mp d vr | None \<Rightarrow> vr) else vr)"

lemma sort_modifier_visit:
  "sort_modifier (Suc k) mp m vr =
    (let x = fold (visit k mp) (m_requires m) (m_name m # fst vr, snd vr) in (fst x, snd x @ [m]))"
  by (simp add: visit_def[abs_def] Let_def case_prod_beta)

definition acyclic_rank :: "object list \<Rightarrow> (string \<Rightarrow> nat) \<Rightarrow> bool" where
  "acyclic_rank ms rank \<longleftrightarrow>
    list_all (\<lambda>m. list_all (\<lambda>d. d \<in> names ms \<longrightarrow> rank d < rank (m_name m)) (m_requires m)) ms"

text \<open>A visit of required modifiers, given that single visits with this fuel do what they should.\<close>

lemma visit_all:
  fixes rank :: "string \<Rightarrow> nat"
  assumes one: "\<forall>d vr. d \<in> set ms \<longrightarrow> m_name d \<notin> set (fst vr) \<longrightarrow> dfs_ok ms G vr \<longrightarrow> (\<forall>g \<in> G. rank (m_name d) < rank g) \<longrightarrow>
      card (names ms - set (fst vr)) \<le> k \<longrightarrow> dfs_ok ms G (sort_modifier k (modifier_map ms) d vr) \<and>
      dfs_grows vr (sort_modifier k (modifier_map ms) d vr) \<and> m_name d \<in> names (snd (sort_modifier k (modifier_map ms) d vr))"
    and d: "distinct (map m_name ms)"
    and r: "\<forall>x \<in> set ds \<inter> names ms. \<forall>g \<in> G. rank x < rank g"
    and "dfs_ok ms G vr" "card (names ms - set (fst vr)) \<le> k"
  shows "dfs_ok ms G (fold (visit k (modifier_map ms)) ds vr) \<and> dfs_grows vr (fold (visit k (modifier_map ms)) ds vr) \<and>
    set ds \<inter> names ms \<subseteq> names (snd (fold (visit k (modifier_map ms)) ds vr))"
  using r assms(4,5)
proof (induction ds arbitrary: vr)
  case (Cons x ds)
  define vr1 where "vr1 = visit k (modifier_map ms) x vr"
  have 1: "dfs_ok ms G vr1 \<and> dfs_grows vr vr1 \<and> (x \<in> names ms \<longrightarrow> x \<in> names (snd vr1))"
  proof (cases "x \<in> set (fst vr)")
    case True
    have "x \<notin> G" if "x \<in> names ms"
      using Cons.prems(1)[rule_format, of x x] that by auto
    then show ?thesis using True Cons.prems(2) by (auto simp: vr1_def visit_def dfs_ok_def)
  next
    case False
    show ?thesis
    proof (cases "modifier_map ms x")
      case None
      then have "x \<notin> names ms" using modifier_map_iff[OF d, of x] by (auto simp: names_def)
      then show ?thesis using None False Cons.prems(2) by (simp add: vr1_def visit_def)
    next
      case (Some y)
      then have y: "y \<in> set ms" "m_name y = x" using modifier_map_iff[OF d] by blast+
      then have "x \<in> names ms" by (auto simp: names_def)
      then have "\<forall>g \<in> G. rank (m_name y) < rank g" using Cons.prems(1) y by simp
      then show ?thesis using one[rule_format, of y vr] y False Some Cons.prems(2,3) by (simp add: vr1_def visit_def)
    qed
  qed
  have "card (names ms - set (fst vr1)) \<le> card (names ms - set (fst vr))"
    using 1 by (intro card_mono) (auto simp: names_def dfs_grows_def)
  then have "dfs_ok ms G (fold (visit k (modifier_map ms)) ds vr1) \<and> dfs_grows vr1 (fold (visit k (modifier_map ms)) ds vr1) \<and>
      set ds \<inter> names ms \<subseteq> names (snd (fold (visit k (modifier_map ms)) ds vr1))"
    using Cons.prems 1 by (intro Cons.IH) auto
  then show ?case using 1 dfs_grows_trans[of vr vr1] by (auto simp: vr1_def[symmetric] dfs_grows_def)
qed simp

lemma sort_modifier_ok:
  assumes d: "distinct (map m_name ms)" and a: "acyclic_rank ms rank"
  shows "m \<in> set ms \<Longrightarrow> m_name m \<notin> set (fst vr) \<Longrightarrow> dfs_ok ms G vr \<Longrightarrow> \<forall>g \<in> G. rank (m_name m) < rank g \<Longrightarrow>
    card (names ms - set (fst vr)) \<le> k \<Longrightarrow> dfs_ok ms G (sort_modifier k (modifier_map ms) m vr) \<and>
      dfs_grows vr (sort_modifier k (modifier_map ms) m vr) \<and> m_name m \<in> names (snd (sort_modifier k (modifier_map ms) m vr))"
proof (induction k arbitrary: G m vr)
  case 0
  have "m_name m \<in> names ms - set (fst vr)" using 0 by (simp add: names_def)
  moreover have "finite (names ms - set (fst vr))" by (simp add: names_def)
  ultimately show ?case using 0 by auto
next
  case (Suc k)
  define G' where "G' = insert (m_name m) G"
  define x where "x = fold (visit k (modifier_map ms)) (m_requires m) (m_name m # fst vr, snd vr)"
  have out: "sort_modifier (Suc k) (modifier_map ms) m vr = (fst x, snd x @ [m])"
    unfolding sort_modifier_visit Let_def x_def ..
  have new: "m_name m \<notin> names (snd vr)" "m_name m \<notin> G" using Suc.prems(2,3) by (auto simp: dfs_ok_def)
  have start: "dfs_ok ms G' (m_name m # fst vr, snd vr)" using Suc.prems(3) new by (auto simp: dfs_ok_def G'_def)
  have "names ms - set (m_name m # fst vr) \<subset> names ms - set (fst vr)"
    using Suc.prems(1,2) by (auto simp: names_def)
  then have "card (names ms - set (m_name m # fst vr)) < card (names ms - set (fst vr))"
    by (intro psubset_card_mono) (auto simp: names_def)
  then have c: "card (names ms - set (fst (m_name m # fst vr, snd vr))) \<le> k" using Suc.prems(5) by simp
  have "rank y < rank (m_name m)" if "y \<in> set (m_requires m) \<inter> names ms" for y
    using a Suc.prems(1) that by (auto simp: acyclic_rank_def list_all_iff)
  then have "\<forall>y \<in> set (m_requires m) \<inter> names ms. \<forall>g \<in> G'. rank y < rank g"
    using Suc.prems(4) by (force simp: G'_def)
  then have x: "dfs_ok ms G' x \<and> dfs_grows (m_name m # fst vr, snd vr) x \<and> set (m_requires m) \<inter> names ms \<subseteq> names (snd x)"
    unfolding x_def using start c Suc.IH by (intro visit_all[OF _ d, where rank = rank]) auto
  have "deps_first (names ms) (snd x @ [m])" using x by (intro deps_first_snoc) (auto simp: dfs_ok_def)
  then have "dfs_ok ms G (fst x, snd x @ [m])"
    using x Suc.prems(1) new by (auto simp: dfs_ok_def G'_def names_def)
  then show ?case using x unfolding out by (auto simp: dfs_grows_def names_def)
qed

text \<open>
  C40: the order of modifiers is a permutation of them, and every modifier comes after all those it requires or
  requires if they exist, as far as they exist. The names are distinct, as merging by name leaves them, and
  what modifiers require makes no cycle.\<close>

theorem order_respects_requires:
  assumes d: "distinct (map m_name ms)" and a: "acyclic_rank ms rank"
  shows "mset (order_modifiers ms) = mset ms \<and>
    (order_modifiers ms = pre @ m # post \<longrightarrow> set (m_requires m) \<inter> m_name ` set ms \<subseteq> m_name ` set pre)"
proof -
  define step where "step = (\<lambda>vr m. if m_name m \<notin> set (fst vr) then sort_modifier (length ms) (modifier_map ms) m vr else vr)"
  have c: "card (names ms - N) \<le> length ms" for N
    using card_mono[of "names ms" "names ms - N"] card_image_le[of "set ms" m_name] card_length[of ms] by (simp add: names_def)
  have steps: "set xs \<subseteq> set ms \<Longrightarrow> dfs_ok ms {} vr \<Longrightarrow> dfs_ok ms {} (foldl step vr xs) \<and> dfs_grows vr (foldl step vr xs) \<and>
      names xs \<subseteq> names (snd (foldl step vr xs))" for xs vr
  proof (induction xs arbitrary: vr)
    case (Cons x xs)
    have 1: "dfs_ok ms {} (step vr x) \<and> dfs_grows vr (step vr x) \<and> m_name x \<in> names (snd (step vr x))"
    proof (cases "m_name x \<in> set (fst vr)")
      case False
      then show ?thesis using sort_modifier_ok[OF d a, of x vr "{}" "length ms"] Cons.prems c by (simp add: step_def)
    qed (use Cons.prems in \<open>simp add: step_def dfs_ok_def\<close>)
    then have "dfs_ok ms {} (foldl step (step vr x) xs) \<and> dfs_grows (step vr x) (foldl step (step vr x) xs) \<and>
        names xs \<subseteq> names (snd (foldl step (step vr x) xs))" using Cons.prems by (intro Cons.IH) auto
    then show ?case using 1 dfs_grows_trans[of vr "step vr x"] by (auto simp: names_def dfs_grows_def)
  qed (simp add: names_def)
  define r where "r = snd (foldl step ([], []) ms)"
  have "dfs_ok ms {} ([], [])" by (simp add: dfs_ok_def names_def deps_first_def)
  then have r: "distinct (map m_name r)" "set r \<subseteq> set ms" "deps_first (names ms) r" "names ms \<subseteq> names r"
    using steps[of ms "([], [])"] by (auto simp: r_def dfs_ok_def)
  have o': "order_modifiers ms = r" by (simp add: order_modifiers_def r_def step_def)
  have inj: "inj_on m_name (set ms)" using d by (simp add: distinct_map)
  have "set ms \<subseteq> set r"
  proof
    fix x assume x: "x \<in> set ms"
    then have "m_name x \<in> names r" using r(4) by (auto simp: names_def)
    then obtain y where "y \<in> set r" "m_name x = m_name y" by (auto simp: names_def)
    then show "x \<in> set r" using inj_onD[OF inj, of x y] x r(2) by auto
  qed
  then have "mset r = mset ms" using r(1,2) d by (metis distinct_map set_eq_iff_mset_eq_distinct subset_antisym)
  then show ?thesis using r(3) unfolding o' deps_first_def names_def by blast
qed

lemma own_fields [simp]:
  "m_name (own n ph rq ri) = n" "m_requires (own n ph rq ri) = rq @ ri" "lookup (own n ph rq ri) ''phase'' = JStr ph"
proof -
  have "concat (map ((\<lambda>x. case x of JStr s \<Rightarrow> [s] | _ \<Rightarrow> []) \<circ> JStr) xs) = xs" for xs :: "string list" by (induction xs) simp_all
  then show "m_name (own n ph rq ri) = n" "m_requires (own n ph rq ri) = rq @ ri" "lookup (own n ph rq ri) ''phase'' = JStr ph"
    by (simp_all add: own_def m_name_def m_requires_def names_of_def lookup_def)
qed

lemma order_respects_requires_witness:
  "mset (order_modifiers defaultModifiers) = mset defaultModifiers"
proof -
  have "distinct (map m_name defaultModifiers)" by (simp add: defaultModifiers_def)
  moreover have "acyclic_rank defaultModifiers
      (\<lambda>n. if n = ''popperOffsets'' \<or> n = ''computeStyles'' then 0 else if n = ''offset'' \<or> n = ''applyStyles'' then 1
        else if n = ''preventOverflow'' then 2 else 3)"
    by (simp add: acyclic_rank_def defaultModifiers_def)
  ultimately show ?thesis using order_respects_requires [of defaultModifiers] by blast
qed

text \<open>The engine's own modifiers run in this order.\<close>

lemma popper_default_order:
  "map m_name (orderModifiers defaultModifiers) = [''popperOffsets'', ''offset'', ''flip'', ''preventOverflow'', ''arrow'',
    ''hide'', ''computeStyles'', ''eventListeners'', ''applyStyles'']"
  by (simp add: orderModifiers_def order_modifiers_def defaultModifiers_def modifier_map_def modifierPhases_def numeral_eq_Suc)

section \<open>Listeners come and go with the engine\<close>

text \<open>What happens to an engine between its creation and its end; the layout may differ each time.\<close>

datatype popper_call = StepOptions layout object | StepUpdate | StepMicrotask layout | StepForce layout

fun popper_step ::
    "(string \<Rightarrow> object \<Rightarrow> 'cb engine \<Rightarrow> 'cb engine) \<Rightarrow> popper_call \<Rightarrow> 'cb popper \<Rightarrow> 'cb popper option" where
  "popper_step custom (StepOptions l opts) p = Some (pop_setOptions l opts p)"
| "popper_step custom StepUpdate p = Some (pop_update p)"
| "popper_step custom (StepMicrotask l) p = pop_microtask l custom p"
| "popper_step custom (StepForce l) p = forceUpdate l custom p"

fun popper_run ::
    "(string \<Rightarrow> object \<Rightarrow> 'cb engine \<Rightarrow> 'cb engine) \<Rightarrow> popper_call list \<Rightarrow> 'cb popper \<Rightarrow> 'cb popper option" where
  "popper_run custom [] p = Some p"
| "popper_run custom (x # xs) p = (case popper_step custom x p of Some q \<Rightarrow> popper_run custom xs q | None \<Rightarrow> None)"

abbreviation heard :: "'cb popper \<Rightarrow> event list" where
  "heard p \<equiv> listeners (snd (pp_engine p))"

abbreviation popper_of :: "'cb popper \<Rightarrow> node" where
  "popper_of p \<equiv> p_popper (fst (pp_engine p))"

definition quiet_modifier :: "(string \<Rightarrow> object \<Rightarrow> 'cb engine \<Rightarrow> 'cb engine) \<Rightarrow> bool" where
  "quiet_modifier custom \<longleftrightarrow> silent_flags custom \<and> (\<forall>f o' e. listeners (snd (custom f o' e)) = listeners (snd e) \<and>
    p_popper (fst (custom f o' e)) = p_popper (fst e))"

text \<open>The events whose removal the pending cleanups owe.\<close>

definition owed :: "node \<Rightarrow> scroll_target list \<Rightarrow> object list \<Rightarrow> event set" where
  "owed popper targets cs = (\<Union>m \<in> {m \<in> set cs. m_name m = ''eventListeners''}.
    set (listener_targets (object_of (lookup m ''options'')) popper targets))"

lemma owed_simps [simp]:
  "owed popper targets [] = {}"
  "owed popper targets (m # cs) = (if m_name m = ''eventListeners''
     then set (listener_targets (object_of (lookup m ''options'')) popper targets) else {}) \<union> owed popper targets cs"
  "owed popper targets (cs @ ds) = owed popper targets cs \<union> owed popper targets ds"
  by (auto simp: owed_def)

lemma target_event_name: "\<exists>t. snd (target_event popper x) = update_event popper t"
  by (cases x) auto

lemma owed_names: "e \<in> owed popper targets cs \<Longrightarrow> \<exists>t. snd e = update_event popper t"
  using target_event_name by (fastforce simp: owed_def listener_targets_def split: if_splits)

lemma styles_listeners:
  "listeners (write_styles n st w) = listeners w" "listeners (write_attributes n as w) = listeners w"
proof -
  show "listeners (write_styles n st w) = listeners w"
    by (induction st arbitrary: w) (auto simp: write_styles_def listener_ops)
  show "listeners (write_attributes n as w) = listeners w"
    by (induction as arbitrary: w) (auto simp: write_attributes_def listener_ops split: option.split)
qed

lemma apply_listeners:
  "listeners (applyStyles l s w) = listeners w" "listeners (applyStyles_cleanup l s w) = listeners w"
  "listeners (snd (applyStyles_effect s w)) = listeners w" "p_popper (fst (applyStyles_effect s w)) = p_popper s"
  by (auto simp: applyStyles_def applyStyles_cleanup_def applyStyles_effect_def styles_listeners Let_def split: option.split)

lemma popper_kept:
  "p_popper (pop_popperOffsets s) = p_popper s" "p_popper (pop_offset xy s) = p_popper s"
  "p_popper (pop_preventOverflow l w po s) = p_popper s" "p_popper (pop_arrow l w pad s) = p_popper s"
  "p_popper (pop_hide l w s) = p_popper s" "p_popper (computeStyles l w so s) = p_popper s"
  "p_popper (pop_flip l w fo s) = p_popper s" "p_popper (arrow_effect w opt s) = p_popper s"
  "p_popper (fresh_data l ms e) = p_popper (fst e)"
  by (simp_all add: pop_popperOffsets_def pop_offset_def pop_preventOverflow_def pop_arrow_def pop_hide_def computeStyles_def
      pop_flip_def arrow_effect_def fresh_data_def Let_def split: option.split prod.split)

lemma run_modifier_quiet:
  assumes "quiet_modifier custom"
  shows "listeners (snd (run_modifier l custom m e)) = listeners (snd e) \<and>
    p_popper (fst (run_modifier l custom m e)) = p_popper (fst e)"
proof -
  obtain s w where e: "e = (s, w)" by (cases e)
  show ?thesis using assms
    by (cases "lookup m ''fn''") (simp_all add: run_modifier_def e apply_listeners popper_kept quiet_modifier_def Let_def)
qed

lemma fold_quiet_modifier:
  assumes "quiet_modifier custom"
  shows "listeners (snd (fold (run_modifier l custom) ms e)) = listeners (snd e) \<and>
    p_popper (fst (fold (run_modifier l custom) ms e)) = p_popper (fst e)"
  by (induction ms arbitrary: e) (simp_all add: run_modifier_quiet[OF assms])

lemma forceUpdate_quiet:
  assumes "quiet_modifier custom"
  obtains e where "forceUpdate l custom p = Some (p\<lparr>pp_engine := e\<rparr>)" and "listeners (snd e) = heard p"
    and "p_popper (fst e) = popper_of p"
proof (cases "pp_destroyed p")
  case True
  then show ?thesis using that[of "pp_engine p"] by (simp add: forceUpdate_def)
next
  case False
  define start where "start = (fresh_data l (pp_ordered p) (pp_engine p), snd (pp_engine p))"
  have f: "flips_once (run_modifier l custom)"
    using assms by (intro run_modifier_flips_once) (simp add: quiet_modifier_def)
  have "\<not> p_reset (fst start)" by (simp add: start_def fresh_data_def Let_def)
  from loop_rounds[OF f le0 this, of "pp_ordered p"] obtain k e1 where
    "e1 = fold (run_modifier l custom) (drop 0 (take k (pp_ordered p))) start"
    "update_loop (run_modifier l custom) (pp_ordered p) 0 start = Some (if k = length (pp_ordered p) then e1
      else fold (run_modifier l custom) (pp_ordered p) ((fst e1)\<lparr>p_reset := False\<rparr>, snd e1))" by blast
  then show ?thesis
    using False by (intro that[of "if k = length (pp_ordered p) then e1
        else fold (run_modifier l custom) (pp_ordered p) ((fst e1)\<lparr>p_reset := False\<rparr>, snd e1)"])
      (simp_all add: forceUpdate_def start_def fold_quiet_modifier[OF assms] popper_kept)
qed

lemma fold_listen_once:
  "\<exists>ys. listeners (fold listen_once es w) = listeners w @ ys \<and> set ys \<subseteq> set es"
proof (induction es arbitrary: w)
  case (Cons e es)
  obtain ys where "listeners (fold listen_once es (listen_once e w)) = listeners (listen_once e w) @ ys" "set ys \<subseteq> set es"
    using Cons.IH by blast
  moreover have "listeners (listen_once e w) = listeners w @ (if e \<in> set (listeners w) then [] else [e])"
    by (simp add: listen_once_def)
  ultimately show ?case
    by (intro exI[of _ "(if e \<in> set (listeners w) then [] else [e]) @ ys"]) auto
qed simp

lemma fold_unlisten:
  "listeners (fold (\<lambda>e. unlisten (fst e) (snd e)) es w) = filter (\<lambda>e. e \<notin> set es) (listeners w)"
  by (induction es arbitrary: w) (auto simp: unlisten_def removeAll_filter_not_eq intro: filter_cong)

lemma run_cleanup_effect:
  "heard (run_cleanup l m p) = filter (\<lambda>e. e \<notin> owed (popper_of p) (pp_scrollParents p) [m]) (heard p) \<and>
   popper_of (run_cleanup l m p) = popper_of p \<and> pp_scrollParents (run_cleanup l m p) = pp_scrollParents p \<and>
   pp_cleanups (run_cleanup l m p) = pp_cleanups p"
  by (cases "pp_engine p") (simp add: run_cleanup_def Let_def apply_listeners fold_unlisten listeners_cleanup_def)

lemma fold_cleanup_effect:
  "heard (fold (run_cleanup l) cs p) = filter (\<lambda>e. e \<notin> owed (popper_of p) (pp_scrollParents p) cs) (heard p) \<and>
   popper_of (fold (run_cleanup l) cs p) = popper_of p \<and> pp_scrollParents (fold (run_cleanup l) cs p) = pp_scrollParents p"
proof (induction cs arbitrary: p)
  case (Cons m cs)
  then show ?case using run_cleanup_effect[of l m p] by (auto simp: conj_commute intro!: filter_cong)
qed simp

text \<open>The listeners are those from before and some that the pending cleanups remove.\<close>

definition listeners_inv :: "event list \<Rightarrow> node \<Rightarrow> 'cb popper \<Rightarrow> bool" where
  "listeners_inv base popper p \<longleftrightarrow> popper_of p = popper \<and>
    (\<exists>xs. heard p = base @ xs \<and> set xs \<subseteq> owed popper (pp_scrollParents p) (pp_cleanups p))"

lemma cleanup_restores:
  assumes "listeners_inv base popper p" and base: "\<forall>e \<in> set base. \<forall>t. snd e \<noteq> update_event popper t"
  shows "heard (cleanupModifierEffects l p) = base \<and> popper_of (cleanupModifierEffects l p) = popper"
proof -
  obtain xs where xs: "heard p = base @ xs" "set xs \<subseteq> owed popper (pp_scrollParents p) (pp_cleanups p)"
    and p: "popper_of p = popper" using assms(1) unfolding listeners_inv_def by blast
  have "filter (\<lambda>e. e \<notin> owed popper (pp_scrollParents p) (pp_cleanups p)) base = base"
    using base owed_names by (fastforce simp: filter_id_conv)
  moreover have "filter (\<lambda>e. e \<notin> owed popper (pp_scrollParents p) (pp_cleanups p)) xs = []"
    using xs(2) by (auto simp: filter_empty_conv)
  ultimately show ?thesis
    using fold_cleanup_effect[of l "pp_cleanups p" p] by (simp add: cleanupModifierEffects_def p xs(1))
qed

lemma run_effect_inv:
  assumes "listeners_inv base popper p"
  shows "listeners_inv base popper (run_effect m p)"
proof -
  obtain s w where e: "pp_engine p = (s, w)" by (cases "pp_engine p")
  obtain xs where xs: "listeners w = base @ xs" "set xs \<subseteq> owed popper (pp_scrollParents p) (pp_cleanups p)"
    and p: "p_popper s = popper" using assms e unfolding listeners_inv_def by auto
  define ts where "ts = listener_targets (object_of (lookup m ''options'')) popper (pp_scrollParents p)"
  obtain ys where ys: "listeners (fold listen_once ts w) = base @ xs @ ys" "set ys \<subseteq> set ts"
    using fold_listen_once[of ts w] xs(1) by auto
  show ?thesis
  proof (cases "m_name m = ''eventListeners''")
    case True
    then show ?thesis using ys xs(2) p
      by (auto simp: listeners_inv_def run_effect_def e listeners_effect_def ts_def[symmetric] intro!: exI[of _ "xs @ ys"])
  next
    case False
    then show ?thesis using xs p
      by (cases "applyStyles_effect s w") (use apply_listeners(3,4)[of s w] in
        \<open>auto simp: listeners_inv_def run_effect_def e Let_def popper_kept\<close>)
  qed
qed

lemma setOptions_inv:
  assumes "listeners_inv base popper p" and "\<forall>e \<in> set base. \<forall>t. snd e \<noteq> update_event popper t"
  shows "listeners_inv base popper (pop_setOptions l opts p)"
proof -
  have f: "listeners_inv base popper q \<Longrightarrow> listeners_inv base popper (fold run_effect ms q)" for ms and q :: "'a popper"
    by (induction ms arbitrary: q) (simp_all add: run_effect_inv)
  have u: "listeners_inv base popper q \<Longrightarrow> listeners_inv base popper (pop_update q)" for q :: "'a popper"
    by (simp add: listeners_inv_def pop_update_def)
  show ?thesis
    unfolding pop_setOptions_def Let_def case_prod_beta
    by (intro u f) (use cleanup_restores[OF assms, of l] in \<open>simp add: listeners_inv_def\<close>)
qed

lemma popper_step_inv:
  assumes "listeners_inv base popper p" and "\<forall>e \<in> set base. \<forall>t. snd e \<noteq> update_event popper t" and "quiet_modifier custom"
  shows "\<exists>q. popper_step custom x p = Some q \<and> listeners_inv base popper q"
proof -
  have f: "\<exists>q. forceUpdate l custom r = Some q \<and> listeners_inv base popper q" if "listeners_inv base popper r" for l r
    by (rule forceUpdate_quiet[OF assms(3), of l r]) (use that in \<open>auto simp: listeners_inv_def\<close>)
  have k: "listeners_inv base popper (p\<lparr>pp_pending := b\<rparr>)" for b using assms(1) by (simp add: listeners_inv_def)
  show ?thesis
    using assms(1) setOptions_inv[OF assms(1,2)] f k by (cases x) (auto simp: pop_update_def pop_microtask_def)
qed

text \<open>
  The engine leaves no listener behind. Whatever happens between its creation and its end, options changed, updates asked
  for and run, every step returns, and once the engine is destroyed the listeners of the page are those from before,
  in their order; so no scrolling reaches the engine any more. Modifiers from outside must leave
  listeners, flags and the popper alone.\<close>

theorem popper_destroy_releases_listeners:
  fixes w :: "'cb world"
  assumes "\<forall>e \<in> set (listeners w). \<forall>t. snd e \<noteq> update_event popper t" and "quiet_modifier custom"
  shows "\<exists>p. popper_run custom steps (pop_create l reference popper opts w) = Some p \<and>
    heard (pop_destroy l' p) = listeners w \<and> forceUpdate l'' custom (pop_destroy l' p) = Some (pop_destroy l' p)"
proof -
  have run: "\<exists>q. popper_run custom steps p = Some q \<and> listeners_inv (listeners w) popper q"
    if "listeners_inv (listeners w) popper p" for p using that
  proof (induction steps arbitrary: p)
    case (Cons x xs)
    then obtain q where "popper_step custom x p = Some q" "listeners_inv (listeners w) popper q"
      using popper_step_inv[OF Cons.prems assms] by blast
    then show ?case using Cons.IH by simp
  qed simp
  have "listeners_inv (listeners w) popper (pop_create l reference popper opts w)"
    unfolding pop_create_def Let_def by (rule setOptions_inv[OF _ assms(1)]) (simp add: listeners_inv_def)
  then obtain p where "popper_run custom steps (pop_create l reference popper opts w) = Some p"
      "listeners_inv (listeners w) popper p" using run by blast
  then show ?thesis using cleanup_restores[OF _ assms(1), of p l'] by (simp add: pop_destroy_def forceUpdate_def)
qed

text \<open>An update runs, the options change, and the engine is destroyed.\<close>

lemma popper_destroy_releases_listeners_witness:
  "\<exists>p. popper_run (\<lambda>_ _ e. e) [StepMicrotask plain_layout, StepOptions plain_layout [(''placement'', JStr ''top'')]]
      (pop_create scroll_layout 4 5 [] scroll_world) = Some p \<and> heard (pop_destroy plain_layout p) = []"
  using popper_destroy_releases_listeners [of scroll_world 5 "\<lambda>_ _ e. e"
      "[StepMicrotask plain_layout, StepOptions plain_layout [(''placement'', JStr ''top'')]]" scroll_layout 4 "[]" plain_layout]
  by (auto simp: scroll_world_def quiet_modifier_def silent_flags_def)

end
